(* ===== verification/Prelude.thy ===== *)
theory Prelude
  imports Complex_Main "HOL-Library.AList" "HOL-Library.Char_ord" "HOL-Library.List_Lexorder"
begin

text \<open>
  Shared vocabulary of the development: Python text and JSON values, exceptions, clock
  readings, SQLite tables as association lists in row order, and the lemmas on them that
  the component theories use.

  A Python \<open>str\<close> is represented by its UTF-8 bytes (a \<^typ>\<open>string\<close>), so
  \<^term>\<open>length s\<close> is \<open>len(s.encode())\<close>; \<open>py_len\<close> counts code points, which
  is what \<open>len(s)\<close> counts.
\<close>

section \<open>Automation collections\<close>

named_theorems tbl \<open>how the table primitives act on look-ups\<close>
named_theorems pydefs \<open>unfolding rules of the small helpers\<close>

section \<open>Python text\<close>

type_synonym pystr = string
type_synonym time = real

definition continuation_byte :: "char \<Rightarrow> bool" where
  "continuation_byte c \<longleftrightarrow> 128 \<le> (of_char c :: nat) \<and> (of_char c :: nat) < 192"

definition byte_len :: "pystr \<Rightarrow> nat" where
  "byte_len s = length s"

definition py_len :: "pystr \<Rightarrow> nat" where
  "py_len s = length (filter (\<lambda>c. \<not> continuation_byte c) s)"

lemma py_len_le_bytes: "py_len s \<le> byte_len s"
  by (simp add: py_len_def byte_len_def)

lemma py_len_append [simp]: "py_len (s @ t) = py_len s + py_len t"
  by (simp add: py_len_def)

lemma byte_len_append [simp]: "byte_len (s @ t) = byte_len s + byte_len t"
  by (simp add: byte_len_def)

text \<open>\<open>s[:n]\<close>: the first \<open>n\<close> code points.\<close>

fun py_take :: "nat \<Rightarrow> pystr \<Rightarrow> pystr" where
  "py_take n [] = []"
| "py_take n (c # cs) =
     (if continuation_byte c then c # py_take n cs
      else case n of 0 \<Rightarrow> [] | Suc m \<Rightarrow> c # py_take m cs)"

lemma py_len_take: "py_len (py_take n s) \<le> n"
  by (induction n s rule: py_take.induct) (auto simp: py_len_def split: nat.splits)

lemma py_take_all: "py_len s \<le> n \<Longrightarrow> py_take n s = s"
  by (induction n s rule: py_take.induct) (auto simp: py_len_def split: nat.splits if_splits)

definition is_prefix_of :: "pystr \<Rightarrow> pystr \<Rightarrow> bool" where
  "is_prefix_of p s \<longleftrightarrow> take (length p) s = p"

text \<open>Python's \<open>needle in text\<close>.\<close>

fun contains_sub :: "pystr \<Rightarrow> pystr \<Rightarrow> bool" where
  "contains_sub needle [] \<longleftrightarrow> needle = []"
| "contains_sub needle (c # cs) \<longleftrightarrow>
     is_prefix_of needle (c # cs) \<or> contains_sub needle cs"

text \<open>
  \<open>s.strip()\<close>: the code points Python calls white space, by their encodings; on the right they
  are looked for in the reversed text.
\<close>

definition space_codes :: "pystr list" where
  "space_codes = map (\<lambda>n. [char_of n]) [9, 10, 11, 12, 13, 28, 29, 30, 31, 32::nat]
     @ map (map char_of) ([[194, 133], [194, 160], [225, 154, 128], [226, 128, 168], [226, 128, 169],
         [226, 128, 175], [226, 129, 159], [227, 128, 128]] :: nat list list)
     @ map (\<lambda>n. map char_of [226, 128, n]) [128..<(139::nat)]"

lemma space_codes_eq: "space_codes =
     [[CHR 0x09], [CHR 0x0A], [CHR 0x0B], [CHR 0x0C], [CHR 0x0D], [CHR 0x1C], [CHR 0x1D], [CHR
     0x1E], [CHR 0x1F], [CHR 0x20], [CHR 0xC2, CHR 0x85], [CHR 0xC2, CHR 0xA0], [CHR 0xE1, CHR 0x9A,
     CHR 0x80], [CHR 0xE2, CHR 0x80, CHR 0xA8], [CHR 0xE2, CHR 0x80, CHR 0xA9], [CHR 0xE2, CHR 0x80,
     CHR 0xAF], [CHR 0xE2, CHR 0x81, CHR 0x9F], [CHR 0xE3, CHR 0x80, CHR 0x80], [CHR 0xE2, CHR 0x80,
     CHR 0x80], [CHR 0xE2, CHR 0x80, CHR 0x81], [CHR 0xE2, CHR 0x80, CHR 0x82], [CHR 0xE2, CHR 0x80,
     CHR 0x83], [CHR 0xE2, CHR 0x80, CHR 0x84], [CHR 0xE2, CHR 0x80, CHR 0x85], [CHR 0xE2, CHR 0x80,
     CHR 0x86], [CHR 0xE2, CHR 0x80, CHR 0x87], [CHR 0xE2, CHR 0x80, CHR 0x88], [CHR 0xE2, CHR 0x80,
     CHR 0x89], [CHR 0xE2, CHR 0x80, CHR 0x8A]]"
  by (simp add: space_codes_def upt_rec char_of_eq_iff)

fun strip_codes :: "nat \<Rightarrow> pystr list \<Rightarrow> pystr \<Rightarrow> pystr" where
  "strip_codes 0 codes s = s"
| "strip_codes (Suc n) codes s = (case find (\<lambda>p. is_prefix_of p s) codes of
     None \<Rightarrow> s | Some p \<Rightarrow> strip_codes n codes (drop (length p) s))"

definition py_lstrip :: "pystr \<Rightarrow> pystr" where
  "py_lstrip s = strip_codes (length s) space_codes s"

definition py_rstrip :: "pystr \<Rightarrow> pystr" where
  "py_rstrip s = rev (strip_codes (length s) (map rev space_codes) (rev s))"

definition py_strip :: "pystr \<Rightarrow> pystr" where
  "py_strip s = py_rstrip (py_lstrip s)"

lemma length_strip_codes: "length (strip_codes n codes s) \<le> length s"
proof (induction n codes s rule: strip_codes.induct)
  case (2 n codes s)
  then show ?case
    by (cases "find (\<lambda>p. is_prefix_of p s) codes") (auto intro: order_trans)
qed simp

lemma length_py_strip: "length (py_strip s) \<le> length s"
  unfolding py_strip_def py_rstrip_def py_lstrip_def
  by (metis length_rev length_strip_codes order_trans)

fun py_join :: "pystr \<Rightarrow> pystr list \<Rightarrow> pystr" where
  "py_join sep [] = []"
| "py_join sep [x] = x"
| "py_join sep (x # y # zs) = x @ sep @ py_join sep (y # zs)"

section \<open>Decimal numerals\<close>

definition digit_char :: "nat \<Rightarrow> char" where
  "digit_char d = char_of (48 + d)"

fun show_nat :: "nat \<Rightarrow> pystr" where
  "show_nat n = (if n < 10 then [digit_char n] else show_nat (n div 10) @ [digit_char (n mod 10)])"

declare show_nat.simps [simp del]

definition show_int :: "int \<Rightarrow> pystr" where
  "show_int i = (if i < 0 then ''-'' @ show_nat (nat (- i)) else show_nat (nat i))"

lemma show_nat_nonempty: "show_nat n \<noteq> []"
  by (subst show_nat.simps) simp

section \<open>Maxima\<close>

lemma foldr_max_le: "(\<And>x. x \<in> set xs \<Longrightarrow> x \<le> n) \<Longrightarrow> foldr max xs (0::nat) \<le> n"
  by (induction xs) auto

lemma foldr_max_ge: "x \<in> set xs \<Longrightarrow> x \<le> foldr max xs (0::nat)"
  by (induction xs) auto

section \<open>Exceptions\<close>

text \<open>
  Every \<open>raise\<close> of the modelled code is a constructor; where the message carries data the
  caller reads, it is an argument.
\<close>

datatype exn =
    ValueError pystr
  | PermissionError pystr
  | KeyError pystr
  | TypeError pystr
  | AttributeError pystr
  | PyRuntimeError pystr
  | InterruptedError pystr
  | TaskBusy pystr
  | RecoveryRequired pystr
  | CapacityError pystr
  | BudgetExhausted pystr
  | PolicyDenied pystr
  | ApprovalRequired pystr
  | LeaseLost pystr
  | OperationUncertain pystr
  | ContextTooLarge pystr
  | DeletedConversation pystr
  | IntegrityError pystr
  | ProgrammingError pystr

type_synonym 'a result = "exn + 'a"

text \<open>
  A transaction of \<open>with closing(self.connect()) as conn, conn\<close>: the body yields a value
  and the new tables, or an exception; sqlite3's context manager then rolls back.
\<close>

definition txn :: "'s \<Rightarrow> ('a \<times> 's) result \<Rightarrow> 'a result \<times> 's" where
  "txn s body = (case body of Inl e \<Rightarrow> (Inl e, s) | Inr (a, s') \<Rightarrow> (Inr a, s'))"

lemma txn_simps [simp]:
  "txn s (Inl e) = (Inl e, s)"
  "txn s (Inr (a, s')) = (Inr a, s')"
  by (simp_all add: txn_def)

lemma txn_Inr: "txn s body = (Inr a, s') \<longleftrightarrow> body = Inr (a, s')"
  by (auto simp: txn_def split: sum.splits)

lemma txn_Inl: "txn s body = (Inl e, s') \<longleftrightarrow> body = Inl e \<and> s' = s"
  by (auto simp: txn_def split: sum.splits)

lemma txn_snd: "snd (txn s body) = (case body of Inl e \<Rightarrow> s | Inr (a, s') \<Rightarrow> s')"
  by (auto simp: txn_def split: sum.splits)

lemma txn_preserves:
  assumes "P s" and "\<And>a s'. body = Inr (a, s') \<Longrightarrow> P s'"
  shows "P (snd (txn s body))"
  using assms by (cases body) (auto simp: txn_def)

definition bind_result :: "'a result \<Rightarrow> ('a \<Rightarrow> 'b result) \<Rightarrow> 'b result" where
  "bind_result r f = (case r of Inl e \<Rightarrow> Inl e | Inr a \<Rightarrow> f a)"

definition guard :: "bool \<Rightarrow> exn \<Rightarrow> unit result" where
  "guard ok e = (if ok then Inr () else Inl e)"

lemma bind_result_simps [simp]:
  "bind_result (Inl e) f = Inl e"
  "bind_result (Inr a) f = f a"
  by (simp_all add: bind_result_def)

lemma bind_result_Inr [simp]:
  "bind_result r f = Inr b \<longleftrightarrow> (\<exists>a. r = Inr a \<and> f a = Inr b)"
  by (cases r) (auto simp: bind_result_def)

lemma bind_result_Inl [simp]:
  "bind_result r f = Inl e \<longleftrightarrow> r = Inl e \<or> (\<exists>a. r = Inr a \<and> f a = Inl e)"
  by (cases r) (auto simp: bind_result_def)

lemma guard_True [simp]: "guard True e = Inr ()"
  by (simp add: guard_def)

lemma guard_False [simp]: "guard False e = Inl e"
  by (simp add: guard_def)

lemma guard_Inr [simp]: "guard ok e = Inr u \<longleftrightarrow> ok"
  by (simp add: guard_def)

lemma guard_Inl [simp]: "guard ok e = Inl e' \<longleftrightarrow> \<not> ok \<and> e' = e"
  by (auto simp: guard_def)

end
