(* ===== verification/Sql.thy ===== *)
theory Sql
  imports Prelude
begin

text \<open>
  SQLite tables with a primary key, in row order: an association list from the key to the
  remaining columns.  \<open>select_one\<close> is a look-up by primary key, \<open>insert_row\<close> an
  \<open>INSERT\<close> (None on a key conflict), \<open>upsert_row\<close> an \<open>INSERT ... ON CONFLICT DO UPDATE\<close>
  (in place, as the row keeps its rowid), \<open>update_where\<close> / \<open>delete_where\<close> /
  \<open>count_where\<close> the statements with a \<open>WHERE\<close> clause; \<open>count_where\<close> is also
  \<open>rowcount\<close> of such an update.
\<close>

type_synonym ('k, 'v) table = "('k \<times> 'v) list"

abbreviation select_one :: "('k, 'v) table \<Rightarrow> 'k \<Rightarrow> 'v option" where
  "select_one t k \<equiv> map_of t k"

definition insert_row :: "'k \<Rightarrow> 'v \<Rightarrow> ('k, 'v) table \<Rightarrow> ('k, 'v) table option" where
  "insert_row k v t = (case map_of t k of None \<Rightarrow> Some (t @ [(k, v)]) | Some _ \<Rightarrow> None)"

definition insert_or_ignore :: "'k \<Rightarrow> 'v \<Rightarrow> ('k, 'v) table \<Rightarrow> ('k, 'v) table" where
  "insert_or_ignore k v t = (case map_of t k of None \<Rightarrow> t @ [(k, v)] | Some _ \<Rightarrow> t)"

definition upsert_row :: "'k \<Rightarrow> 'v \<Rightarrow> ('v \<Rightarrow> 'v) \<Rightarrow> ('k, 'v) table \<Rightarrow> ('k, 'v) table" where
  "upsert_row k v f t =
     (case map_of t k of None \<Rightarrow> t @ [(k, v)]
      | Some old \<Rightarrow> AList.update k (f old) t)"

fun update_where :: "('k \<Rightarrow> 'v \<Rightarrow> bool) \<Rightarrow> ('v \<Rightarrow> 'v) \<Rightarrow> ('k, 'v) table \<Rightarrow> ('k, 'v) table" where
  "update_where p f [] = []"
| "update_where p f ((k, v) # t) = (k, if p k v then f v else v) # update_where p f t"

fun count_where :: "('k \<Rightarrow> 'v \<Rightarrow> bool) \<Rightarrow> ('k, 'v) table \<Rightarrow> nat" where
  "count_where p [] = 0"
| "count_where p ((k, v) # t) = (if p k v then 1 else 0) + count_where p t"

definition delete_where :: "('k \<Rightarrow> 'v \<Rightarrow> bool) \<Rightarrow> ('k, 'v) table \<Rightarrow> ('k, 'v) table" where
  "delete_where p t = filter (\<lambda>(k, v). \<not> p k v) t"

definition select_where :: "('k \<Rightarrow> 'v \<Rightarrow> bool) \<Rightarrow> ('k, 'v) table \<Rightarrow> ('k, 'v) table" where
  "select_where p t = filter (\<lambda>(k, v). p k v) t"

text \<open>\<open>UPDATE ... WHERE key = ? AND cond\<close>: the primary key admits one row at most.\<close>

definition update_key :: "'k \<Rightarrow> ('v \<Rightarrow> bool) \<Rightarrow> ('v \<Rightarrow> 'v) \<Rightarrow> ('k, 'v) table \<Rightarrow> ('k, 'v) table" where
  "update_key k c f t = (case map_of t k of None \<Rightarrow> t
     | Some v \<Rightarrow> if c v then AList.update k (f v) t else t)"

text \<open>\<open>DELETE ... WHERE key = ? AND cond\<close>.\<close>

definition delete_key :: "'k \<Rightarrow> ('v \<Rightarrow> bool) \<Rightarrow> ('k, 'v) table \<Rightarrow> ('k, 'v) table" where
  "delete_key k c t = (case map_of t k of None \<Rightarrow> t | Some v \<Rightarrow> if c v then AList.delete k t else t)"

definition row_where :: "'k \<Rightarrow> ('v \<Rightarrow> bool) \<Rightarrow> ('k, 'v) table \<Rightarrow> bool" where
  "row_where k c t = (case map_of t k of None \<Rightarrow> False | Some v \<Rightarrow> c v)"

definition unique_keys :: "('k, 'v) table \<Rightarrow> bool" where
  "unique_keys t \<longleftrightarrow> distinct (map fst t)"

section \<open>Look-ups after each statement\<close>

lemma map_of_append_single [tbl]:
  "map_of (t @ [(k, v)]) k' = (case map_of t k' of Some x \<Rightarrow> Some x
     | None \<Rightarrow> if k' = k then Some v else None)"
  by (auto simp: map_add_def split: option.splits)

lemma insert_row_lookup [tbl]:
  "insert_row k v t = Some t' \<Longrightarrow> map_of t' = (map_of t)(k \<mapsto> v)"
  by (auto simp: insert_row_def map_add_def fun_eq_iff split: option.splits)

lemma insert_row_fresh: "insert_row k v t = Some t' \<Longrightarrow> map_of t k = None"
  by (auto simp: insert_row_def split: option.splits)

lemma insert_row_None: "insert_row k v t = None \<longleftrightarrow> map_of t k \<noteq> None"
  by (auto simp: insert_row_def split: option.splits)

lemma insert_or_ignore_lookup [tbl]:
  "map_of (insert_or_ignore k v t) =
     (case map_of t k of None \<Rightarrow> (map_of t)(k \<mapsto> v) | Some _ \<Rightarrow> map_of t)"
  by (auto simp: insert_or_ignore_def map_add_def fun_eq_iff split: option.splits)

lemma upsert_row_lookup [tbl]:
  "map_of (upsert_row k v f t) =
     (map_of t)(k \<mapsto> (case map_of t k of None \<Rightarrow> v | Some old \<Rightarrow> f old))"
  by (auto simp: upsert_row_def map_add_def update_conv fun_eq_iff split: option.splits)

lemma update_where_lookup [tbl]:
  "map_of (update_where p f t) k = map_option (\<lambda>v. if p k v then f v else v) (map_of t k)"
  by (induction p f t rule: update_where.induct) auto

lemma update_key_lookup [tbl]:
  "map_of (update_key k c f t) k' =
     (if k' = k then map_option (\<lambda>v. if c v then f v else v) (map_of t k) else map_of t k')"
  by (auto simp: update_key_def update_conv split: option.splits)

lemma delete_where_lookup:
  "unique_keys t \<Longrightarrow> map_of (delete_where p t) k =
     (case map_of t k of None \<Rightarrow> None | Some v \<Rightarrow> if p k v then None else Some v)"
proof (induction t)
  case Nil
  then show ?case by (simp add: delete_where_def)
next
  case (Cons kv t)
  obtain a b where [simp]: "kv = (a, b)" by (cases kv)
  from Cons.prems have "a \<notin> fst ` set t" and u: "unique_keys t"
    by (auto simp: unique_keys_def)
  then have "map_of t a = None" by (simp add: map_of_eq_None_iff)
  with Cons.IH [OF u] show ?case
    by (auto simp: delete_where_def split: option.splits)
qed

lemma delete_key_lookup [tbl]:
  "map_of (delete_key k c t) k' = (if k' = k then (case map_of t k of None \<Rightarrow> None
     | Some v \<Rightarrow> if c v then None else Some v) else map_of t k')"
  by (auto simp: delete_key_def delete_conv' split: option.splits)

lemma row_where_iff: "row_where k c t \<longleftrightarrow> (\<exists>v. map_of t k = Some v \<and> c v)"
  by (simp add: row_where_def split: option.splits)

section \<open>Primary keys stay unique\<close>

lemma update_where_keys [simp]: "map fst (update_where p f t) = map fst t"
  by (induction p f t rule: update_where.induct) auto

lemma length_update_where [simp]: "length (update_where p f t) = length t"
  by (induction p f t rule: update_where.induct) auto

lemma unique_keys_update_where [simp]: "unique_keys (update_where p f t) = unique_keys t"
  by (simp add: unique_keys_def)

lemma update_key_keys [simp]: "map fst (update_key k c f t) = map fst t"
  by (auto simp: update_key_def update_keys split: option.splits dest: map_of_SomeD)
    (metis fst_conv image_eqI map_of_SomeD)

lemma unique_keys_update_key [simp]: "unique_keys (update_key k c f t) = unique_keys t"
  by (simp add: unique_keys_def)

lemma length_update_key [simp]: "length (update_key k c f t) = length t"
  by (metis length_map update_key_keys)

lemma unique_keys_snoc: "unique_keys (t @ [(k, v)]) \<longleftrightarrow> unique_keys t \<and> map_of t k = None"
  by (auto simp: unique_keys_def map_of_eq_None_iff)

lemma unique_keys_insert_row: "insert_row k v t = Some t' \<Longrightarrow> unique_keys t \<Longrightarrow> unique_keys t'"
  by (auto simp: insert_row_def unique_keys_snoc split: option.splits)

lemma unique_keys_insert_or_ignore [simp]:
  "unique_keys t \<Longrightarrow> unique_keys (insert_or_ignore k v t)"
  by (auto simp: insert_or_ignore_def unique_keys_snoc split: option.splits)

lemma unique_keys_upsert [simp]: "unique_keys t \<Longrightarrow> unique_keys (upsert_row k v f t)"
  by (auto simp: upsert_row_def unique_keys_snoc unique_keys_def distinct_update split: option.splits)

lemma unique_keys_delete_where [simp]: "unique_keys t \<Longrightarrow> unique_keys (delete_where p t)"
  unfolding unique_keys_def delete_where_def by (rule distinct_map_filter)

section \<open>Row counts and column sums\<close>

lemma count_where_le_length: "count_where p t \<le> length t"
  by (induction p t rule: count_where.induct) auto

lemma count_where_zero: "(\<And>k v. (k, v) \<in> set t \<Longrightarrow> \<not> p k v) \<Longrightarrow> count_where p t = 0"
  by (induction p t rule: count_where.induct) auto

lemma count_where_append [simp]: "count_where p (t @ u) = count_where p t + count_where p u"
  by (induction p t rule: count_where.induct) auto

definition column_sum :: "('k \<Rightarrow> 'v \<Rightarrow> nat) \<Rightarrow> ('k, 'v) table \<Rightarrow> nat" where
  "column_sum f t = sum_list (map (\<lambda>(k, v). f k v) t)"

lemma column_sum_simps [simp]:
  "column_sum f [] = 0"
  "column_sum f ((k, v) # t) = f k v + column_sum f t"
  "column_sum f (t @ u) = column_sum f t + column_sum f u"
  by (simp_all add: column_sum_def)

lemma update_key_absent: "map_of t k = None \<Longrightarrow> update_key k c f t = t"
  by (simp add: update_key_def)

lemma update_key_no_match: "\<not> row_where k c t \<Longrightarrow> update_key k c f t = t"
  by (auto simp: update_key_def row_where_def split: option.splits)

text \<open>Updating one row moves a column sum by exactly that row's difference.\<close>

lemma column_sum_update_key:
  assumes "map_of t k = Some v" and "c v"
  shows "column_sum g (update_key k c f t) + g k v = column_sum g t + g k (f v)"
proof -
  have "column_sum g (AList.update k (f v) t) + g k v = column_sum g t + g k (f v)"
    using assms(1) by (induction t) auto
  with assms show ?thesis by (simp add: update_key_def)
qed

lemma column_sum_upsert:
  "column_sum g (upsert_row k v f t) + (case map_of t k of None \<Rightarrow> 0 | Some old \<Rightarrow> g k old)
     = column_sum g t + (case map_of t k of None \<Rightarrow> g k v | Some old \<Rightarrow> g k (f old))"
proof (cases "map_of t k")
  case (Some old)
  then show ?thesis
    using column_sum_update_key [OF Some, of "\<lambda>_. True" g f] by (simp add: upsert_row_def update_key_def)
qed (simp add: upsert_row_def)

lemma column_sum_update_where_le:
  "(\<And>k v. p k v \<Longrightarrow> g k (f v) \<le> g k v) \<Longrightarrow> column_sum g (update_where p f t) \<le> column_sum g t"
  by (induction p f t rule: update_where.induct) (auto intro: add_mono)

section \<open>Sums over selected rows\<close>

text \<open>\<open>SELECT SUM(f) ... WHERE p\<close>, over any additive group.\<close>

definition sum_where :: "('v \<Rightarrow> bool) \<Rightarrow> ('v \<Rightarrow> 'n::ab_group_add) \<Rightarrow> ('k, 'v) table \<Rightarrow> 'n" where
  "sum_where p f t = sum_list (map (\<lambda>(k, v). if p v then f v else 0) t)"

lemma sum_where_simps [simp]:
  "sum_where p f [] = 0"
  "sum_where p f ((k, v) # t) = (if p v then f v else 0) + sum_where p f t"
  "sum_where p f (t @ u) = sum_where p f t + sum_where p f u"
  by (simp_all add: sum_where_def)

lemma sum_where_update_key:
  assumes "map_of t k = Some v"
  shows "sum_where p f (update_key k (\<lambda>_. True) g t) =
    sum_where p f t - (if p v then f v else 0) + (if p (g v) then f (g v) else 0)"
proof -
  have "sum_where p f (AList.update k (g v) t) =
      sum_where p f t - (if p v then f v else 0) + (if p (g v) then f (g v) else 0)"
    using assms by (induction t) (auto simp: algebra_simps)
  with assms show ?thesis by (simp add: update_key_def)
qed

lemma sum_where_zero: "(\<And>v. v \<in> snd ` set t \<Longrightarrow> \<not> p v) \<Longrightarrow> sum_where p f t = 0"
  by (induction t) auto

lemma insert_row_append: "insert_row k v t = Some t' \<longleftrightarrow> map_of t k = None \<and> t' = t @ [(k, v)]"
  by (auto simp: insert_row_def split: option.splits)

section \<open>Row ids and orders\<close>

text \<open>\<open>INTEGER PRIMARY KEY AUTOINCREMENT\<close>: where no row is ever deleted, the next id is one
  more than the largest.\<close>

definition next_id :: "(nat, 'v) table \<Rightarrow> nat" where
  "next_id t = Suc (foldr max (map fst t) 0)"

definition add_row :: "'v \<Rightarrow> (nat, 'v) table \<Rightarrow> (nat, 'v) table" where
  "add_row v t = t @ [(next_id t, v)]"

text \<open>\<open>ORDER BY\<close> with a key that determines the row, ascending and descending.\<close>

definition asc :: "('k \<times> 'v \<Rightarrow> 'o::linorder) \<Rightarrow> ('k, 'v) table \<Rightarrow> ('k, 'v) table" where
  "asc f t = sort_key f t"

definition desc :: "('k \<times> 'v \<Rightarrow> 'o::linorder) \<Rightarrow> ('k, 'v) table \<Rightarrow> ('k, 'v) table" where
  "desc f t = rev (sort_key f t)"

lemma next_id_fresh: "map_of t (next_id t) = None"
  using foldr_max_ge [of _ "map fst t"] by (fastforce simp: next_id_def map_of_eq_None_iff)

lemma add_row_keeps: "map_of t k = Some r \<Longrightarrow> map_of (add_row v t) k = Some r"
  by (simp add: add_row_def map_add_def)

end
