(* ===== verification/Json.thy ===== *)
theory Json
  imports Prelude
begin

text \<open>
  JSON values as the program stores them (\<open>json.loads\<close> / \<open>json.dumps\<close> of Python's
  standard library).  A JSON object keeps the insertion order of the Python
  dictionary it stands for; a float is kept as its literal text.  \<open>dumps\<close> is the
  serializer with its two options: \<open>ensure_ascii\<close> and the tight separators.  The number
  of bytes it produces is what the storage limits of the program count.
\<close>

datatype json =
    JNull
  | JBool bool
  | JInt int
  | JFloat pystr
  | JStr pystr
  | JArr "json list"
  | JObj "(pystr \<times> json) list"

section \<open>Reading\<close>

fun jfield :: "json \<Rightarrow> pystr \<Rightarrow> json option" where
  "jfield (JObj kvs) k = map_of kvs k"
| "jfield _ _ = None"

text \<open>\<open>value.get(k)\<close>: \<open>None\<close> where the key is absent.\<close>

definition jget :: "json \<Rightarrow> pystr \<Rightarrow> json" where
  "jget v k = (case jfield v k of Some x \<Rightarrow> x | None \<Rightarrow> JNull)"

text \<open>Python truth of a JSON value; a float is kept as text, false when it is a zero.\<close>

fun jtruth :: "json \<Rightarrow> bool" where
  "jtruth JNull = False"
| "jtruth (JBool b) = b"
| "jtruth (JInt i) = (i \<noteq> 0)"
| "jtruth (JFloat s) = (s \<noteq> ''0.0'' \<and> s \<noteq> ''-0.0'')"
| "jtruth (JStr s) = (s \<noteq> [])"
| "jtruth (JArr xs) = (xs \<noteq> [])"
| "jtruth (JObj kvs) = (kvs \<noteq> [])"

text \<open>\<open>a or b\<close>.\<close>

definition jor :: "json \<Rightarrow> json \<Rightarrow> json" where
  "jor a b = (if jtruth a then a else b)"

fun jset :: "json \<Rightarrow> pystr \<Rightarrow> json \<Rightarrow> json" where
  "jset (JObj kvs) k x = JObj (AList.update k x kvs)"
| "jset v _ _ = v"

fun jdel :: "json \<Rightarrow> pystr \<Rightarrow> json" where
  "jdel (JObj kvs) k = JObj (AList.delete k kvs)"
| "jdel v _ = v"

text \<open>\<open>value.get(k, default)\<close>: only a dictionary has \<open>get\<close>.\<close>

definition py_get :: "json \<Rightarrow> pystr \<Rightarrow> json \<Rightarrow> json result" where
  "py_get v k d = (case v of
     JObj kvs \<Rightarrow> Inr (case map_of kvs k of None \<Rightarrow> d | Some x \<Rightarrow> x)
   | _ \<Rightarrow> Inl (AttributeError k))"

text \<open>\<open>value[k]\<close> on a dictionary.\<close>

definition py_index :: "json \<Rightarrow> pystr \<Rightarrow> json result" where
  "py_index v k = (case v of
     JObj kvs \<Rightarrow> (case map_of kvs k of None \<Rightarrow> Inl (KeyError k) | Some x \<Rightarrow> Inr x)
   | _ \<Rightarrow> Inl (TypeError k))"

lemma py_get_obj [simp]:
  "py_get (JObj kvs) k d = Inr (case map_of kvs k of None \<Rightarrow> d | Some x \<Rightarrow> x)"
  by (simp add: py_get_def)

lemma py_get_jget: "py_get v k JNull = Inr x \<Longrightarrow> x = jget v k"
  by (cases v) (auto simp: py_get_def jget_def split: option.splits)

lemma jfield_jset [simp]:
  "jfield (jset (JObj kvs) k x) k' = (if k' = k then Some x else map_of kvs k')"
  by (simp add: update_conv)

lemma jfield_jdel [simp]:
  "jfield (jdel (JObj kvs) k) k' = (if k' = k then None else map_of kvs k')"
  by (simp add: delete_conv)

section \<open>Serialization\<close>

definition hex_digit :: "nat \<Rightarrow> char" where
  "hex_digit d = (if d < 10 then char_of (48 + d) else char_of (87 + d))"

definition hex4 :: "nat \<Rightarrow> pystr" where
  "hex4 n = [hex_digit (n div 4096 mod 16), hex_digit (n div 256 mod 16),
             hex_digit (n div 16 mod 16), hex_digit (n mod 16)]"

definition backslash :: char where
  "backslash = CHR 0x5C"

definition quote :: char where
  "quote = CHR 0x22"

definition u_escape :: "nat \<Rightarrow> pystr" where
  "u_escape n = backslash # CHR ''u'' # hex4 n"

text \<open>The escapes every JSON string needs, for one ASCII byte.\<close>

definition escape_ascii :: "char \<Rightarrow> pystr" where
  "escape_ascii c =
     (if c = quote then [backslash, quote]
      else if c = backslash then [backslash, backslash]
      else if c = CHR 0x0A then [backslash, CHR ''n'']
      else if c = CHR 0x0D then [backslash, CHR ''r'']
      else if c = CHR 0x09 then [backslash, CHR ''t'']
      else if c = CHR 0x08 then [backslash, CHR ''b'']
      else if c = CHR 0x0C then [backslash, CHR ''f'']
      else if (of_char c :: nat) < 32 then u_escape (of_char c)
      else [c])"

text \<open>
  \<open>ensure_ascii\<close>: DEL (0x7F) stays itself; each code point outside ASCII is one
  \<open>\u\<close> escape, or a surrogate pair above 0xFFFF.
\<close>

definition escape_point :: "nat \<Rightarrow> pystr" where
  "escape_point n =
     (if n < 65536 then u_escape n
      else u_escape (55296 + (n - 65536) div 1024) @ u_escape (56320 + (n - 65536) mod 1024))"

definition low6 :: "char \<Rightarrow> nat" where
  "low6 c = (of_char c :: nat) mod 64"

fun escape_text :: "bool \<Rightarrow> pystr \<Rightarrow> pystr" where
  "escape_text ascii [] = []"
| "escape_text ascii (c # cs) =
     (if (of_char c :: nat) < 128 then escape_ascii c @ escape_text ascii cs
      else if \<not> ascii then c # escape_text ascii cs
      else if (of_char c :: nat) < 192 then escape_text ascii cs
      else if (of_char c :: nat) < 224 then
        escape_point ((of_char c mod 32) * 64 + low6 (cs ! 0)) @ escape_text ascii (drop 1 cs)
      else if (of_char c :: nat) < 240 then
        escape_point ((of_char c mod 16) * 4096 + low6 (cs ! 0) * 64 + low6 (cs ! 1))
          @ escape_text ascii (drop 2 cs)
      else
        escape_point ((of_char c mod 8) * 262144 + low6 (cs ! 0) * 4096 + low6 (cs ! 1) * 64
          + low6 (cs ! 2)) @ escape_text ascii (drop 3 cs))"

definition dump_string :: "bool \<Rightarrow> pystr \<Rightarrow> pystr" where
  "dump_string ascii s = quote # escape_text ascii s @ [quote]"

text \<open>\<open>tight\<close> stands for \<open>separators=(',', ':')\<close>; the default is \<open>(', ', ': ')\<close>.\<close>

definition item_sep :: "bool \<Rightarrow> pystr" where
  "item_sep tight = (if tight then '','' else '', '')"

definition key_sep :: "bool \<Rightarrow> pystr" where
  "key_sep tight = (if tight then '':'' else '': '')"

fun dumps :: "bool \<Rightarrow> bool \<Rightarrow> json \<Rightarrow> pystr" where
  "dumps ascii tight JNull = ''null''"
| "dumps ascii tight (JBool b) = (if b then ''true'' else ''false'')"
| "dumps ascii tight (JInt i) = show_int i"
| "dumps ascii tight (JFloat s) = s"
| "dumps ascii tight (JStr s) = dump_string ascii s"
| "dumps ascii tight (JArr xs) =
     ''['' @ py_join (item_sep tight) (map (dumps ascii tight) xs) @ '']''"
| "dumps ascii tight (JObj kvs) =
     ''{'' @ py_join (item_sep tight)
       (map (\<lambda>(k, v). dump_string ascii k @ key_sep tight @ dumps ascii tight v) kvs) @ ''}''"

text \<open>\<open>len(json.dumps(v, ...).encode())\<close>.\<close>

definition json_bytes :: "bool \<Rightarrow> bool \<Rightarrow> json \<Rightarrow> nat" where
  "json_bytes ascii tight v = byte_len (dumps ascii tight v)"

section \<open>Sorted keys\<close>

text \<open>
  \<open>sort_keys=True\<close> at every level.  Sorting UTF-8 bytes is sorting code points, so the
  lexicographic order of \<^typ>\<open>string\<close> is Python's order on \<open>str\<close>.
\<close>

fun sort_keys :: "json \<Rightarrow> json" where
  "sort_keys (JArr xs) = JArr (map sort_keys xs)"
| "sort_keys (JObj kvs) = JObj (sort_key fst (map (\<lambda>(k, v). (k, sort_keys v)) kvs))"
| "sort_keys v = v"

text \<open>Sorting loses no entry and only the order of the entries can change.\<close>

lemma jfield_sort_keys:
  assumes "distinct (map fst kvs)"
  shows "jfield (sort_keys (JObj kvs)) k = map_option sort_keys (map_of kvs k)"
proof -
  let ?ys = "map (\<lambda>(k, v). (k, sort_keys v)) kvs"
  have d: "distinct (map fst ?ys)"
    using assms by (simp add: case_prod_beta' comp_def)
  then have "distinct ?ys" and "inj_on fst (set ?ys)"
    by (simp_all only: distinct_map)
  then have "distinct (map fst (sort_key fst ?ys))"
    by (simp only: distinct_map distinct_sort set_sort)
  with d have "map_of (sort_key fst ?ys) = map_of ?ys"
    by (intro iffD2 [OF map_of_inject_set]) simp_all
  then show ?thesis
    by (simp add: map_of_map)
qed

section \<open>Lower bounds on serialized sizes\<close>

lemma length_py_join: "sum_list (map length xs) \<le> length (py_join sep xs)"
  by (induction sep xs rule: py_join.induct) auto

definition plain_ascii :: "pystr \<Rightarrow> bool" where
  "plain_ascii s \<longleftrightarrow> list_all (\<lambda>c. (of_char c :: nat) < 128) s"

lemma escape_ascii_nonempty: "1 \<le> length (escape_ascii c)"
  by (simp add: escape_ascii_def u_escape_def)

lemma escape_text_ge: "plain_ascii s \<Longrightarrow> length s \<le> length (escape_text a s)"
proof (induction s)
  case (Cons c s)
  then show ?case using escape_ascii_nonempty [of c] by (simp add: plain_ascii_def)
qed simp

text \<open>An object is at least as long as its entries together.\<close>

lemma dumps_object_ge:
  "sum_list (map (\<lambda>(k, v). length (dump_string a k) + length (dumps a t v)) kvs)
     \<le> length (dumps a t (JObj kvs))"
proof -
  let ?xs = "map (\<lambda>(k, v). dump_string a k @ key_sep t @ dumps a t v) kvs"
  have "sum_list (map (\<lambda>(k, v). length (dump_string a k) + length (dumps a t v)) kvs)
      \<le> sum_list (map length ?xs)"
    by (induction kvs) auto
  also have "\<dots> \<le> length (py_join (item_sep t) ?xs)" by (rule length_py_join)
  finally show ?thesis by simp
qed

end
