(* ===== verification/Database.thy ===== *)
theory Database
  imports Sql Json Sha256
begin

text \<open>
  The task database (\<open>AGENT_TASK_DB\<close>, one SQLite file) that \<open>tasks.py\<close>, \<open>budgets.py\<close>,
  \<open>coordinator.py\<close>, \<open>workspace_lifecycle/store.py\<close> and \<open>temporal_backend/\<close> share: one
  record of tables.  A table that another component may not have installed yet
  (\<open>SELECT 1 FROM sqlite_master ...\<close>) is an option.  Columns that hold JSON text keep the
  value and the serializer options it was written with.
\<close>

section \<open>Text columns\<close>

datatype jtext = JText (jt_ascii: bool) (jt_tight: bool) (jt_doc: json)

definition jtext_bytes :: "jtext \<Rightarrow> nat" where
  "jtext_bytes t = json_bytes (jt_ascii t) (jt_tight t) (jt_doc t)"

abbreviation opt_bytes :: "pystr option \<Rightarrow> nat" where
  "opt_bytes r \<equiv> (case r of None \<Rightarrow> 0 | Some s \<Rightarrow> byte_len s)"

text \<open>\<open>canonical\<close> and \<open>digest\<close> of \<open>temporal_backend/store.py\<close>.\<close>

definition canonical :: "json \<Rightarrow> pystr" where
  "canonical v = dumps False True (sort_keys v)"

definition digest :: "json \<Rightarrow> pystr" where
  "digest v = sha256 (canonical v)"

section \<open>Task tables\<close>

datatype task_state = Pending | Running | Completed | Failed | Cancelled | Suspended | Uncertain

definition terminal :: "task_state \<Rightarrow> bool" where
  "terminal s \<longleftrightarrow> s \<in> {Completed, Failed, Cancelled}"

lemma terminal_simps [simp]:
  "terminal Completed" "terminal Failed" "terminal Cancelled"
  "\<not> terminal Pending" "\<not> terminal Running" "\<not> terminal Suspended" "\<not> terminal Uncertain"
  by (simp_all add: terminal_def)

lemma terminal_code [code]:
  "terminal s = (case s of Completed \<Rightarrow> True | Failed \<Rightarrow> True | Cancelled \<Rightarrow> True | _ \<Rightarrow> False)"
  by (cases s) simp_all

type_synonym owner = pystr
type_synonym task_id = pystr
type_synonym token = pystr

record task_row =
  goal :: pystr
  criteria :: jtext
  tstate :: task_state
  phase :: pystr
  checkpoint_doc :: jtext
  episode :: "int option"
  reply :: "pystr option"
  lease_owner :: "token option"
  lease_until :: "time option"
  attempts :: nat
  recoveries :: nat
  verification :: pystr
  updated :: time

record step_row =
  step_name :: pystr
  step_input :: jtext
  step_dependencies :: jtext
  step_state :: pystr
  step_result :: "pystr option"

section \<open>Temporal tables that task cancellation writes\<close>

datatype submission_state = SPending | SDispatched | SRunning | SCompleted | SFailed | SCancelled | SUncertain

record submission =
  sub_owner :: owner
  sub_task :: task_id
  sub_workflow :: pystr
  sub_digest :: pystr
  sub_input :: jtext
  sub_context :: jtext
  sub_role :: pystr
  sub_address :: pystr
  sub_namespace :: pystr
  sub_queue :: pystr
  sub_state :: submission_state
  sub_fence :: "pystr option"
  sub_result :: "pystr option"
  sub_attempts :: nat
  sub_error :: "pystr option"
  sub_updated :: time

datatype op_state = OpPrepared | OpRunning | OpCompleted | OpUncertain | OpRejected

record op_row =
  op_kind :: pystr
  op_digest :: pystr
  op_state :: op_state
  op_fence :: "pystr option"
  op_result_ref :: "json option"
  op_evidence_ref :: "json option"
  op_updated :: time

section \<open>The database\<close>

record task_db =
  tasks :: "(owner \<times> task_id, task_row) table"
  task_steps :: "(owner \<times> task_id \<times> pystr, step_row) table"
  task_workspaces :: "(owner \<times> task_id, pystr \<times> pystr) table"
  conversation_resets :: "(owner, time) table"
  wl_sessions :: "(pystr, pystr) table option"
  wl_session_owners :: "(pystr \<times> owner) list"
  execution_bindings :: "(owner \<times> task_id, pystr) table option"
  erased_tasks :: "pystr list option"
  submissions :: "(pystr, submission) table"
  cancellations :: "(pystr, pystr) table option"
  operation_ledger :: "(owner \<times> task_id \<times> pystr, op_row) table option"
  finalizations :: "(pystr, nat \<times> pystr) table option"

definition empty_db :: task_db where
  "empty_db = \<lparr>tasks = [], task_steps = [], task_workspaces = [], conversation_resets = [],
     wl_sessions = None, wl_session_owners = [], execution_bindings = None, erased_tasks = None,
     submissions = [], cancellations = None, operation_ledger = None, finalizations = None\<rparr>"

text \<open>
  The clock reading of the transaction, the Temporal activity scope (a context variable) and
  the configured limits, already parsed by \<open>int\<close>.
\<close>

record env =
  now :: time
  activity :: "(owner \<times> task_id) option"
  task_limit :: int
  task_storage_bytes :: int

text \<open>\<open>delivery.positive_limit\<close>.\<close>

definition positive_limit :: "pystr \<Rightarrow> int \<Rightarrow> int result" where
  "positive_limit name value =
     (if value \<le> 0 then Inl (ValueError (name @ '' must be positive'')) else Inr value)"

lemma positive_limit_Inr: "positive_limit n v = Inr w \<longleftrightarrow> 0 < v \<and> w = v"
  by (auto simp: positive_limit_def)

section \<open>Admission guards every component calls first\<close>

text \<open>
  \<open>tasks.assert_owner_active\<close>: once the lifecycle tables exist, a task owner one of whose
  sessions is being deleted may not execute.
\<close>

definition owner_blocked :: "('a task_db_scheme) \<Rightarrow> owner \<Rightarrow> bool" where
  "owner_blocked db ow = (case wl_sessions db of None \<Rightarrow> False
     | Some ss \<Rightarrow> \<exists>(sess, o') \<in> set (wl_session_owners db).
         o' = ow \<and> (case map_of ss sess of None \<Rightarrow> False | Some st \<Rightarrow> st \<noteq> ''active''))"

definition assert_owner_active :: "('a task_db_scheme) \<Rightarrow> owner \<Rightarrow> unit result" where
  "assert_owner_active db ow =
     guard (\<not> owner_blocked db ow)
       (PermissionError ''Conversation is deleting or deleted; execution refused'')"

definition task_token :: "owner \<Rightarrow> task_id \<Rightarrow> pystr" where
  "task_token ow t = digest (JArr [JStr ow, JStr t])"

definition assert_not_erased :: "('a task_db_scheme) \<Rightarrow> owner \<Rightarrow> task_id \<Rightarrow> unit result" where
  "assert_not_erased db ow t = (case erased_tasks db of None \<Rightarrow> Inr ()
     | Some toks \<Rightarrow> guard (task_token ow t \<notin> set toks)
         (PermissionError ''Task was fenced for erasure; its ID cannot be reused''))"

definition assert_claim_backend :: "env \<Rightarrow> ('a task_db_scheme) \<Rightarrow> owner \<Rightarrow> task_id \<Rightarrow> unit result" where
  "assert_claim_backend e db ow t =
     bind_result (assert_not_erased db ow t) (\<lambda>_.
       case execution_bindings db of None \<Rightarrow> Inr ()
       | Some bs \<Rightarrow> (case map_of bs (ow, t) of None \<Rightarrow> Inr ()
           | Some b \<Rightarrow> guard (\<not> (b = ''temporal'' \<and> activity e \<noteq> Some (ow, t)))
               (PermissionError ''Temporal task cannot be claimed by a legacy executor'')))"

lemma assert_owner_active_Inr [simp]:
  "assert_owner_active db ow = Inr u \<longleftrightarrow> \<not> owner_blocked db ow"
  by (simp add: assert_owner_active_def)

lemma assert_owner_active_Inl [simp]:
  "assert_owner_active db ow = Inl x \<longleftrightarrow> owner_blocked db ow \<and>
     x = PermissionError ''Conversation is deleting or deleted; execution refused''"
  by (auto simp: assert_owner_active_def)

end
