(* ===== verification/Task_Cancellation.thy ===== *)
theory Task_Cancellation
  imports Database
begin

text \<open>
  What cancelling a task does to the Temporal side of the database
  (\<open>temporal_backend/cancellation.py\<close>, \<open>ledger.fence_operations\<close>,
  \<open>publication.binding\<close>, \<open>publication.final_intent\<close>): started operations become uncertain,
  prepared ones are rejected, the submission is fenced and a delivery of the cancellation and
  of the final event is queued, all inside the caller's transaction.
\<close>

section \<open>Operation fences\<close>

definition fence_op :: "time \<Rightarrow> op_row \<Rightarrow> op_row" where
  "fence_op t r =
     r\<lparr>op_state := (if op_state r = OpPrepared then OpRejected else OpUncertain), op_updated := t\<rparr>"

definition fence_operations :: "time \<Rightarrow> owner \<Rightarrow> task_id \<Rightarrow> ('a task_db_scheme) \<Rightarrow> ('a task_db_scheme)" where
  "fence_operations t ow k db = (case operation_ledger db of None \<Rightarrow> db
     | Some led \<Rightarrow> db\<lparr>operation_ledger := Some (update_where
         (\<lambda>(o', k', _) r. o' = ow \<and> k' = k \<and> op_state r \<in> {OpPrepared, OpRunning})
         (fence_op t) led)\<rparr>)"

definition op_open :: "('a task_db_scheme) \<Rightarrow> owner \<Rightarrow> task_id \<Rightarrow> bool" where
  "op_open db ow k = (case operation_ledger db of None \<Rightarrow> False
     | Some led \<Rightarrow> \<exists>step r. map_of led (ow, k, step) = Some r \<and> op_state r \<in> {OpPrepared, OpRunning})"

lemma fence_op_state [simp]:
  "op_state (fence_op t r) = (if op_state r = OpPrepared then OpRejected else OpUncertain)"
  by (simp add: fence_op_def)

lemma fence_operations_closes: "\<not> op_open (fence_operations t ow k db) ow k"
proof (cases "operation_ledger db")
  case (Some led)
  show ?thesis
    unfolding op_open_def fence_operations_def Some
    by (simp add: update_where_lookup) (metis fence_op_state op_state.distinct)
qed (simp add: op_open_def fence_operations_def)

lemma fence_operations_frame [simp]:
  "tasks (fence_operations t ow k db) = tasks db"
  "task_steps (fence_operations t ow k db) = task_steps db"
  "task_workspaces (fence_operations t ow k db) = task_workspaces db"
  "submissions (fence_operations t ow k db) = submissions db"
  "cancellations (fence_operations t ow k db) = cancellations db"
  "finalizations (fence_operations t ow k db) = finalizations db"
  "conversation_resets (fence_operations t ow k db) = conversation_resets db"
  "wl_sessions (fence_operations t ow k db) = wl_sessions db"
  "wl_session_owners (fence_operations t ow k db) = wl_session_owners db"
  "execution_bindings (fence_operations t ow k db) = execution_bindings db"
  "erased_tasks (fence_operations t ow k db) = erased_tasks db"
  by (simp_all add: fence_operations_def split: option.splits)

section \<open>The publication binding of a submission\<close>

definition jkeys :: "json \<Rightarrow> pystr list" where
  "jkeys v = (case v of JObj kvs \<Rightarrow> map fst kvs | _ \<Rightarrow> [])"

definition keys_are :: "json \<Rightarrow> pystr list \<Rightarrow> bool" where
  "keys_are v ks \<longleftrightarrow> (case v of JObj kvs \<Rightarrow> list_all (\<lambda>k. k \<in> set ks) (map fst kvs)
     \<and> list_all (\<lambda>k. k \<in> set (map fst kvs)) ks | _ \<Rightarrow> False)"

text \<open>\<open>Path(p).is_absolute()\<close> on a POSIX host.\<close>

definition is_absolute :: "pystr \<Rightarrow> bool" where
  "is_absolute p \<longleftrightarrow> is_prefix_of ''/'' p"

definition valid_episode :: "json \<Rightarrow> bool" where
  "valid_episode v \<longleftrightarrow> (case v of JNull \<Rightarrow> True | JInt i \<Rightarrow> 0 < i | _ \<Rightarrow> False)"

definition is_bool :: "json \<Rightarrow> bool" where
  "is_bool v \<longleftrightarrow> (case v of JBool _ \<Rightarrow> True | _ \<Rightarrow> False)"

definition valid_memory_path :: "json \<Rightarrow> json \<Rightarrow> bool" where
  "valid_memory_path p ep \<longleftrightarrow> (case p of JNull \<Rightarrow> True
     | JStr s \<Rightarrow> py_len s \<le> 4096 \<and> is_absolute s \<and> ep \<noteq> JNull | _ \<Rightarrow> False)"

definition bounded_text :: "json \<Rightarrow> bool" where
  "bounded_text v \<longleftrightarrow> (case v of JStr s \<Rightarrow> 1 \<le> py_len s \<and> py_len s \<le> 4096 | _ \<Rightarrow> False)"

definition jstr :: "json \<Rightarrow> pystr" where
  "jstr v = (case v of JStr s \<Rightarrow> s | _ \<Rightarrow> [])"

definition valid_delivery :: "json \<Rightarrow> bool" where
  "valid_delivery t \<longleftrightarrow> t = JNull \<or>
     ((keys_are t [''path'', ''owner'', ''ref''] \<or> keys_are t [''kind'', ''path'', ''owner'', ''ref''])
      \<and> list_all (\<lambda>k. bounded_text (jget t k)) (jkeys t) \<and> is_absolute (jstr (jget t ''path'')))"

text \<open>\<open>Inr None\<close> where the submission publishes nothing.\<close>

definition binding :: "submission \<Rightarrow> json option result" where
  "binding row =
     (let v = jget (jt_doc (sub_context row)) ''publication'' in
      if v = JNull then Inr None
      else if \<not> keys_are v [''version'', ''episode'', ''memory_db'', ''review'', ''delivery'']
            \<or> jget v ''version'' \<noteq> JInt 1
        then Inl (ValueError ''Unsupported publication version'')
      else if \<not> is_bool (jget v ''review'') \<or> \<not> valid_episode (jget v ''episode'')
        then Inl (ValueError ''Invalid publication episode'')
      else if \<not> valid_memory_path (jget v ''memory_db'') (jget v ''episode'')
        then Inl (ValueError ''Invalid publication memory reference'')
      else if \<not> valid_delivery (jget v ''delivery'')
        then Inl (ValueError ''Invalid publication delivery reference'')
      else Inr (Some v))"

section \<open>Finalization intent\<close>

text \<open>\<open>install\<close> creates the table; the event table is not part of this record.\<close>

definition final_intent :: "pystr \<Rightarrow> submission \<Rightarrow> ('a task_db_scheme) \<Rightarrow> ('a task_db_scheme) result" where
  "final_intent key row db = bind_result (binding row) (\<lambda>b.
     case b of None \<Rightarrow> Inr db
     | Some _ \<Rightarrow> Inr (db\<lparr>finalizations := Some (insert_or_ignore key (1, ''pending'')
         (case finalizations db of None \<Rightarrow> [] | Some fs \<Rightarrow> fs))\<rparr>))"

section \<open>Requesting a durable cancellation\<close>

definition cancellable :: "submission_state \<Rightarrow> bool" where
  "cancellable s \<longleftrightarrow> s \<in> {SPending, SDispatched, SRunning, SCancelled}"

definition cancel_rows :: "owner \<Rightarrow> task_id option \<Rightarrow> ('a task_db_scheme) \<Rightarrow> (pystr \<times> submission) list" where
  "cancel_rows ow k db = select_where (\<lambda>_ s. sub_owner s = ow
      \<and> (case k of None \<Rightarrow> True | Some k' \<Rightarrow> sub_task s = k')
      \<and> row_where (ow, sub_task s) (\<lambda>r. tstate r = Cancelled) (tasks db)
      \<and> cancellable (sub_state s)) (submissions db)"

definition cancel_submission :: "time \<Rightarrow> pystr \<times> submission \<Rightarrow> ('a task_db_scheme) \<Rightarrow> ('a task_db_scheme) result" where
  "cancel_submission t row db =
     (let (key, s) = row;
          db1 = fence_operations t (sub_owner s) (sub_task s) db;
          db2 = db1\<lparr>submissions := update_key key (\<lambda>_. True)
                 (\<lambda>r. r\<lparr>sub_state := SCancelled, sub_updated := t\<rparr>) (submissions db1)\<rparr>
      in bind_result (final_intent key s db2) (\<lambda>db3.
           Inr (db3\<lparr>cancellations := map_option (insert_or_ignore key ''pending'') (cancellations db3)\<rparr>)))"

fun cancel_each :: "time \<Rightarrow> (pystr \<times> submission) list \<Rightarrow> ('a task_db_scheme) \<Rightarrow> ('a task_db_scheme) result" where
  "cancel_each t [] db = Inr db"
| "cancel_each t (r # rs) db = bind_result (cancel_submission t r db) (cancel_each t rs)"

definition request :: "time \<Rightarrow> owner \<Rightarrow> task_id option \<Rightarrow> ('a task_db_scheme) \<Rightarrow> ('a task_db_scheme) result" where
  "request t ow k db = (case cancellations db of None \<Rightarrow> Inr db
     | Some _ \<Rightarrow> cancel_each t (cancel_rows ow k db) db)"

section \<open>What a request keeps and what it guarantees\<close>

lemma final_intent_frame:
  assumes "final_intent key row db = Inr db'"
  shows "tasks db' = tasks db" "task_steps db' = task_steps db" "submissions db' = submissions db"
    "task_workspaces db' = task_workspaces db" "cancellations db' = cancellations db"
    "operation_ledger db' = operation_ledger db" "conversation_resets db' = conversation_resets db"
  using assms by (auto simp: final_intent_def split: option.splits)

lemma cancel_submission_frame:
  assumes "cancel_submission t row db = Inr db'"
  shows "tasks db' = tasks db" "task_steps db' = task_steps db"
    "task_workspaces db' = task_workspaces db" "conversation_resets db' = conversation_resets db"
  using assms
  by (cases row; auto simp: cancel_submission_def Let_def dest: final_intent_frame)+

lemma cancel_each_frame:
  "cancel_each t rs db = Inr db' \<Longrightarrow> tasks db' = tasks db \<and> task_steps db' = task_steps db
     \<and> task_workspaces db' = task_workspaces db \<and> conversation_resets db' = conversation_resets db"
proof (induction t rs db arbitrary: db' rule: cancel_each.induct)
  case (2 t r rs db)
  then obtain d where d: "cancel_submission t r db = Inr d" "cancel_each t rs d = Inr db'"
    by auto
  then show ?case using "2.IH" [OF d(2)] cancel_submission_frame [OF d(1)] by simp
qed simp

lemma request_frame:
  assumes "request t ow k db = Inr db'"
  shows "tasks db' = tasks db" "task_steps db' = task_steps db"
    "task_workspaces db' = task_workspaces db" "conversation_resets db' = conversation_resets db"
  using assms cancel_each_frame by (auto simp: request_def split: option.splits)

lemma request_legacy: "cancellations db = None \<Longrightarrow> request t ow k db = Inr db"
  by (simp add: request_def)


text \<open>\<open>sub_fenced db key\<close>: the submission can no longer start, and its delivery is queued.\<close>

definition sub_fenced :: "('a task_db_scheme) \<Rightarrow> pystr \<Rightarrow> bool" where
  "sub_fenced db key \<longleftrightarrow> row_where key (\<lambda>s. sub_state s = SCancelled) (submissions db)
     \<and> (\<exists>cs. cancellations db = Some cs \<and> map_of cs key \<noteq> None)"

lemma op_open_cong: "operation_ledger db = operation_ledger db' \<Longrightarrow> op_open db ow k = op_open db' ow k"
  by (simp add: op_open_def)

lemma fence_operations_mono: "op_open (fence_operations t ow k db) ow' k' \<Longrightarrow> op_open db ow' k'"
  by (auto simp: op_open_def fence_operations_def update_where_lookup split: option.splits if_splits)
    blast+

lemma cancel_submission_effect:
  assumes "cancel_submission t (key, s) db = Inr db'" and "cancellations db = Some cs"
  shows "map_of (submissions db) key \<noteq> None \<Longrightarrow> sub_fenced db' key"
    and "sub_fenced db key' \<Longrightarrow> sub_fenced db' key'"
    and "\<not> op_open db' (sub_owner s) (sub_task s)"
    and "op_open db' ow k \<Longrightarrow> op_open db ow k"
    and "\<exists>cs'. cancellations db' = Some cs'"
    and "map_of (submissions db') key' = None \<longleftrightarrow> map_of (submissions db) key' = None"
proof -
  let ?db1 = "fence_operations t (sub_owner s) (sub_task s) db"
  let ?db2 = "?db1\<lparr>submissions := update_key key (\<lambda>_. True)
                 (\<lambda>r. r\<lparr>sub_state := SCancelled, sub_updated := t\<rparr>) (submissions ?db1)\<rparr>"
  from assms(1) obtain db3 where f: "final_intent key s ?db2 = Inr db3"
    and db': "db' = db3\<lparr>cancellations := map_option (insert_or_ignore key ''pending'') (cancellations db3)\<rparr>"
    by (auto simp: cancel_submission_def Let_def)
  note fr = final_intent_frame [OF f]
  have c: "cancellations db' = Some (insert_or_ignore key ''pending'' cs)"
    using db' fr assms(2) by simp
  have sub: "submissions db' = update_key key (\<lambda>_. True)
      (\<lambda>r. r\<lparr>sub_state := SCancelled, sub_updated := t\<rparr>) (submissions db)"
    using db' fr by simp
  have op: "operation_ledger db' = operation_ledger ?db1" using db' fr by simp
  show "map_of (submissions db) key \<noteq> None \<Longrightarrow> sub_fenced db' key"
    by (auto simp: sub_fenced_def c sub row_where_iff update_key_lookup insert_or_ignore_lookup
        split: option.splits)
  show "sub_fenced db key' \<Longrightarrow> sub_fenced db' key'"
    using assms(2) by (auto simp: sub_fenced_def c sub row_where_iff update_key_lookup
        insert_or_ignore_lookup split: option.splits)
  show "\<not> op_open db' (sub_owner s) (sub_task s)"
    using fence_operations_closes op_open_cong [OF op] by blast
  show "op_open db' ow k \<Longrightarrow> op_open db ow k"
    using fence_operations_mono op_open_cong [OF op] by blast
  show "\<exists>cs'. cancellations db' = Some cs'" using c by blast
  show "map_of (submissions db') key' = None \<longleftrightarrow> map_of (submissions db) key' = None"
    by (simp add: sub update_key_lookup)
qed

lemma cancel_each_effect:
  assumes "cancel_each t rs db = Inr db'" and "cancellations db = Some cs"
  shows "(\<forall>(key, s) \<in> set rs. (map_of (submissions db) key \<noteq> None \<longrightarrow> sub_fenced db' key)
      \<and> \<not> op_open db' (sub_owner s) (sub_task s))
    \<and> (\<forall>key. sub_fenced db key \<longrightarrow> sub_fenced db' key)
    \<and> (\<forall>ow k. op_open db' ow k \<longrightarrow> op_open db ow k)"
  using assms
proof (induction t rs db arbitrary: cs rule: cancel_each.induct)
  case (2 t r rs db)
  obtain key s where r: "r = (key, s)" by (cases r)
  from "2.prems" obtain d where d: "cancel_submission t r db = Inr d" "cancel_each t rs d = Inr db'"
    by auto
  note eff = cancel_submission_effect [OF d(1) [unfolded r] "2.prems"(2)]
  obtain cs' where cs': "cancellations d = Some cs'" using eff(5) by blast
  from "2.IH" [OF d(2) cs'] have ih: "\<forall>(key, s) \<in> set rs.
        (map_of (submissions d) key \<noteq> None \<longrightarrow> sub_fenced db' key) \<and> \<not> op_open db' (sub_owner s) (sub_task s)"
      "\<forall>key. sub_fenced d key \<longrightarrow> sub_fenced db' key" "\<forall>ow k. op_open db' ow k \<longrightarrow> op_open d ow k"
    by blast+
  have tl: "\<forall>(key, s) \<in> set rs.
      (map_of (submissions db) key \<noteq> None \<longrightarrow> sub_fenced db' key) \<and> \<not> op_open db' (sub_owner s) (sub_task s)"
    using ih(1) by (simp add: eff(6))
  show ?case
    using r tl ih(2,3) eff(1-4) by auto
qed simp

lemma request_effect:
  assumes "request t ow k db = Inr db'" and "cancellations db \<noteq> None"
    and "map_of (submissions db) key = Some s" and "sub_owner s = ow" and "cancellable (sub_state s)"
    and "\<forall>k'. k = Some k' \<longrightarrow> sub_task s = k'"
    and "row_where (ow, sub_task s) (\<lambda>r. tstate r = Cancelled) (tasks db)"
  shows "sub_fenced db' key \<and> \<not> op_open db' ow (sub_task s)"
proof -
  obtain cs where cs: "cancellations db = Some cs" using assms(2) by blast
  have "(key, s) \<in> set (cancel_rows ow k db)"
    using assms(3-7) by (auto simp: cancel_rows_def select_where_def dest: map_of_SomeD split: option.splits)
  moreover have "cancel_each t (cancel_rows ow k db) db = Inr db'"
    using assms(1) cs by (simp add: request_def)
  from cancel_each_effect [OF this cs] have "\<forall>(key, s) \<in> set (cancel_rows ow k db).
      (map_of (submissions db) key \<noteq> None \<longrightarrow> sub_fenced db' key) \<and> \<not> op_open db' (sub_owner s) (sub_task s)"
    by blast
  ultimately show ?thesis using assms(3,4) by auto
qed

end
