(* ===== verification/Leases.thy ===== *)
theory Leases
  imports Prelude
begin

text \<open>
  The contract of a lease: several components hand a record to one worker under a token with
  an expiry (tasks, scheduled jobs, memory jobs, collaboration nodes).  The interface names
  what a step of such a store may do to the holder of a key; the consequences (a token that
  lost its lease never acts again, two workers never hold one key) are proved once, over any
  sequence of steps with a clock that does not go back.
\<close>

fun run_ops :: "(time \<Rightarrow> 'o \<Rightarrow> 's \<Rightarrow> 's) \<Rightarrow> (time \<times> 'o) list \<Rightarrow> 's \<Rightarrow> 's" where
  "run_ops step [] s = s"
| "run_ops step ((t, a) # tr) s = run_ops step tr (step t a s)"

fun clocked :: "time \<Rightarrow> (time \<times> 'o) list \<Rightarrow> bool" where
  "clocked t [] \<longleftrightarrow> True"
| "clocked t ((u, _) # tr) \<longleftrightarrow> t \<le> u \<and> clocked u tr"

fun last_time :: "time \<Rightarrow> (time \<times> 'o) list \<Rightarrow> time" where
  "last_time t [] = t"
| "last_time t ((u, _) # tr) = last_time u tr"

lemma clocked_last: "clocked t tr \<Longrightarrow> t \<le> last_time t tr"
  by (induction t tr rule: clocked.induct) auto

lemma run_ops_append: "run_ops step (tr @ tr') s = run_ops step tr' (run_ops step tr s)"
  by (induction step tr s rule: run_ops.induct) auto

text \<open>An invariant of every step is an invariant of every run.\<close>

lemma run_ops_invariant:
  assumes "\<And>t a s. I s \<Longrightarrow> I (step t a s)" and "I s"
  shows "I (run_ops step tr s)"
  using assms(2)
proof (induction tr arbitrary: s)
  case (Cons x tr)
  obtain t a where "x = (t, a)" by (cases x)
  then show ?case using Cons.IH [OF assms(1) [OF Cons.prems]] by simp
qed simp

locale lease_store =
  fixes holds :: "'s \<Rightarrow> time \<Rightarrow> 'k \<Rightarrow> 't \<Rightarrow> bool"
    and step :: "time \<Rightarrow> 'o \<Rightarrow> 's \<Rightarrow> 's"
    and acquires :: "'o \<Rightarrow> 'k \<Rightarrow> 't \<Rightarrow> bool"
  assumes no_revival: "0 \<le> t \<Longrightarrow> holds (step t a s) t k w \<Longrightarrow> \<not> acquires a k w \<Longrightarrow> holds s t k w"
    and expiry: "holds s u k w \<Longrightarrow> t \<le> u \<Longrightarrow> holds s t k w"
    and single: "holds s t k w \<Longrightarrow> holds s t k w' \<Longrightarrow> w = w'"
    and no_takeover: "0 \<le> t \<Longrightarrow> holds s t k w \<Longrightarrow> acquires a k w' \<Longrightarrow> w' \<noteq> w \<Longrightarrow>
        \<not> holds (step t a s) t k w'"
begin

text \<open>A token is fenced once it does not hold the key: only a new acquisition under the same
  token could bring it back, and tokens are fresh.\<close>

lemma fenced_forever:
  assumes "0 \<le> t" and "\<not> holds s t k w" and "clocked t tr"
    and "\<forall>(u, a) \<in> set tr. \<not> acquires a k w" and "last_time t tr \<le> u"
  shows "\<not> holds (run_ops step tr s) u k w"
  using assms
proof (induction tr arbitrary: s t)
  case Nil
  then show ?case using expiry by auto
next
  case (Cons x tr)
  obtain v a where x: "x = (v, a)" by (cases x)
  with Cons.prems have v: "t \<le> v" "clocked v tr" "\<not> acquires a k w" "last_time v tr \<le> u" by auto
  have "0 \<le> v" using v(1) Cons.prems(1) by simp
  have "\<not> holds s v k w" using Cons.prems(2) v(1) expiry by blast
  then have "\<not> holds (step v a s) v k w" using no_revival [OF \<open>0 \<le> v\<close>] v(3) by blast
  with Cons.IH [OF \<open>0 \<le> v\<close> this v(2) _ v(4)] Cons.prems(4) x show ?case by simp
qed

text \<open>While one worker holds the key, no other token can acquire it.\<close>

lemma exclusive:
  assumes "0 \<le> t" and "holds s t k w" and "w' \<noteq> w" and "\<not> holds s t k w'"
  shows "\<not> holds (step t a s) t k w'"
  using assms no_takeover no_revival by blast

text \<open>Once another worker holds the key, the old token is fenced in every continuation.\<close>

lemma takeover_fences:
  assumes "0 \<le> t" and "holds s t k w'" and "w \<noteq> w'" and "clocked t tr"
    and "\<forall>(u, a) \<in> set tr. \<not> acquires a k w" and "last_time t tr \<le> u"
  shows "\<not> holds (run_ops step tr s) u k w"
proof -
  have "\<not> holds s t k w" using assms(2,3) single by blast
  then show ?thesis using fenced_forever assms(1,4-6) by blast
qed

end

text \<open>
  A lease store whose effects are fenced: an operation presented under a token that does not
  hold the key leaves the store as it is.
\<close>

locale fenced_store = lease_store +
  fixes under :: "'o \<Rightarrow> 'k \<Rightarrow> 't \<Rightarrow> bool"
  assumes fenced_effect: "0 \<le> t \<Longrightarrow> under a k w \<Longrightarrow> \<not> holds s t k w \<Longrightarrow> step t a s = s"
    and under_no_acquire: "under a k w \<Longrightarrow> \<not> acquires a k' w'"
begin

text \<open>A worker that lost its lease can interleave any number of operations of its own with the
  store's: none of them has an effect.\<close>

lemma stale_worker_harmless:
  assumes "0 \<le> t" and "\<not> holds s t k w" and "clocked t tr"
    and "\<forall>(u, a) \<in> set tr. \<not> acquires a k w"
  shows "run_ops step tr s = run_ops step (filter (\<lambda>(u, a). \<not> under a k w) tr) s"
  using assms
proof (induction tr arbitrary: s t)
  case Nil
  then show ?case by simp
next
  case (Cons x tr)
  obtain v a where x: "x = (v, a)" by (cases x)
  with Cons.prems have v: "t \<le> v" "clocked v tr" "\<not> acquires a k w" by auto
  have "0 \<le> v" using v(1) Cons.prems(1) by simp
  have lost: "\<not> holds s v k w" using Cons.prems(2) v(1) expiry by blast
  then have "\<not> holds (step v a s) v k w" using no_revival [OF \<open>0 \<le> v\<close>] v(3) by blast
  with Cons.IH [OF \<open>0 \<le> v\<close> this v(2)] Cons.prems(4) x
  have "run_ops step tr (step v a s) = run_ops step (filter (\<lambda>(u, a). \<not> under a k w) tr) (step v a s)"
    by simp
  moreover have "under a k w \<Longrightarrow> step v a s = s" using fenced_effect [OF \<open>0 \<le> v\<close>] lost by blast
  ultimately show ?case using x by (cases "under a k w") simp_all
qed

end

end
