(* ===== verification/Tasks.thy ===== *)
theory Tasks
  imports Task_Cancellation Leases
begin

text \<open>
  \<open>agent_execution/tasks.py\<close>, class \<open>TaskStore\<close>: persistent tasks with lease fencing and
  conservative recovery.  Every method is one transaction on \<^typ>\<open>task_db\<close>; \<open>uuid4().hex\<close> is
  the argument \<open>w\<close> (the new token) and \<open>time.time()\<close> is \<^term>\<open>now e\<close>.
\<close>

section \<open>Reading\<close>

definition get_task :: "('a task_db_scheme) \<Rightarrow> owner \<Rightarrow> task_id \<Rightarrow> task_row result" where
  "get_task db ow k = (case map_of (tasks db) (ow, k) of None \<Rightarrow> Inl (KeyError k) | Some r \<Rightarrow> Inr r)"

definition list_tasks :: "('a task_db_scheme) \<Rightarrow> owner \<Rightarrow> (task_id \<times> task_row) list" where
  "list_tasks db ow = take 20 (sort_key (\<lambda>(k, r). - updated r)
     (map (\<lambda>((o', k), r). (k, r)) (select_where (\<lambda>(o', _) _. o' = ow) (tasks db))))"

definition steps_of :: "('a task_db_scheme) \<Rightarrow> owner \<Rightarrow> task_id \<Rightarrow> (pystr \<times> step_row) list result" where
  "steps_of db ow k = bind_result (get_task db ow k) (\<lambda>_.
     Inr (map (\<lambda>((_, _, i), r). (i, r))
       (select_where (\<lambda>(o', k', _) _. o' = ow \<and> k' = k) (task_steps db))))"

definition workspace_binding :: "('a task_db_scheme) \<Rightarrow> owner \<Rightarrow> task_id \<Rightarrow> (pystr \<times> pystr) option result" where
  "workspace_binding db ow k =
     bind_result (get_task db ow k) (\<lambda>_. Inr (map_of (task_workspaces db) (ow, k)))"

section \<open>Storage capacity\<close>

definition task_bytes :: "'k \<Rightarrow> task_row \<Rightarrow> nat" where
  "task_bytes _ r = jtext_bytes (checkpoint_doc r) + jtext_bytes (criteria r) + byte_len (goal r)
     + opt_bytes (reply r)"

definition step_bytes :: "'k \<Rightarrow> step_row \<Rightarrow> nat" where
  "step_bytes _ r = jtext_bytes (step_input r) + jtext_bytes (step_dependencies r)
     + opt_bytes (step_result r)"

definition workspace_bytes :: "'k \<Rightarrow> pystr \<times> pystr \<Rightarrow> nat" where
  "workspace_bytes _ = (\<lambda>(repo, store). byte_len repo + byte_len store)"

definition used_bytes :: "('a task_db_scheme) \<Rightarrow> nat" where
  "used_bytes db = column_sum task_bytes (tasks db) + column_sum step_bytes (task_steps db)
     + column_sum workspace_bytes (task_workspaces db)"

definition capacity :: "env \<Rightarrow> ('a task_db_scheme) \<Rightarrow> int \<Rightarrow> unit result" where
  "capacity e db extra =
     bind_result (positive_limit ''AGENT_TASK_STORAGE_BYTES'' (task_storage_bytes e)) (\<lambda>limit.
       guard (\<not> int (used_bytes db) + extra > limit)
         (CapacityError ''Task storage capacity reached''))"

lemma capacity_Inr: "capacity e db extra = Inr u \<longleftrightarrow>
    0 < task_storage_bytes e \<and> int (used_bytes db) + extra \<le> task_storage_bytes e"
  by (auto simp: capacity_def positive_limit_Inr)

abbreviation max_checkpoint :: nat where
  "max_checkpoint \<equiv> 64 * 1024 * 1024"

section \<open>Leasing a task\<close>

abbreviation lease_live :: "time \<Rightarrow> task_row \<Rightarrow> bool" where
  "lease_live t r \<equiv> (case lease_until r of None \<Rightarrow> False | Some u \<Rightarrow> u \<noteq> 0 \<and> u > t)"

definition new_row :: "env \<Rightarrow> pystr \<Rightarrow> json \<Rightarrow> int option \<Rightarrow> json \<Rightarrow> task_row" where
  "new_row e g messages ep crit =
     \<lparr>goal = g, criteria = JText True False crit, tstate = Pending, phase = ''model_pending'',
      checkpoint_doc = JText True False (JObj [(''messages'', messages)]), episode = ep, reply = None,
      lease_owner = None, lease_until = None, attempts = 0, recoveries = 0,
      verification = ''unverified'', updated = now e\<rparr>"

definition lease_row :: "env \<Rightarrow> token \<Rightarrow> bool \<Rightarrow> task_row \<Rightarrow> task_row" where
  "lease_row e w recovery r =
     r\<lparr>tstate := Running, lease_owner := Some w, lease_until := Some (now e + 180),
       attempts := attempts r + 1, recoveries := recoveries r + (if recovery then 1 else 0),
       updated := now e\<rparr>"

definition claim_new :: "env \<Rightarrow> ('a task_db_scheme) \<Rightarrow> owner \<Rightarrow> task_id \<Rightarrow> pystr \<Rightarrow> json \<Rightarrow> int option \<Rightarrow>
    json \<Rightarrow> token \<Rightarrow> (token option \<times> ('a task_db_scheme)) result" where
  "claim_new e db ow k g messages ep crit w =
     (let crit' = jor crit (JObj [(''goal'', JStr g)]);
          row = new_row e g messages ep crit';
          n = jtext_bytes (checkpoint_doc row) in
      bind_result (positive_limit ''AGENT_TASK_LIMIT'' (task_limit e)) (\<lambda>limit.
      bind_result (guard (\<not> int (length (tasks db)) \<ge> limit)
        (CapacityError ''Task record capacity reached'')) (\<lambda>_.
      bind_result (guard (\<not> n > max_checkpoint)
        (ValueError ''Task checkpoint exceeds 64 MiB'')) (\<lambda>_.
      bind_result (capacity e db (int (n + byte_len g + jtext_bytes (criteria row)))) (\<lambda>_.
      Inr (Some w, db\<lparr>tasks := tasks db @ [((ow, k), lease_row e w False row)]\<rparr>))))))"

definition uncertain_phase :: "pystr \<Rightarrow> bool" where
  "uncertain_phase p \<longleftrightarrow> p = ''tool_started'' \<or> p = ''skill_started''"

definition set_task :: "owner \<times> task_id \<Rightarrow> (task_row \<Rightarrow> task_row) \<Rightarrow> ('a task_db_scheme) \<Rightarrow> ('a task_db_scheme)" where
  "set_task key f db = db\<lparr>tasks := update_key key (\<lambda>_. True) f (tasks db)\<rparr>"

text \<open>
  The branch on an existing row.  A task whose last checkpoint started a tool or a Skill is
  marked uncertain and that mark is committed before the exception, so this branch returns the
  new database with the exception.
\<close>

definition claim_existing :: "env \<Rightarrow> ('a task_db_scheme) \<Rightarrow> owner \<Rightarrow> task_id \<Rightarrow> task_row \<Rightarrow> token \<Rightarrow>
    token option result \<times> ('a task_db_scheme)" where
  "claim_existing e db ow k r w =
     (if terminal (tstate r) then (Inr None, db)
      else if lease_live (now e) r then (Inl (TaskBusy ''Task is owned by an active worker''), db)
      else if uncertain_phase (phase r) then
        (Inl (RecoveryRequired ''A tool may already have produced effects; human resolution is required''),
         set_task (ow, k) (\<lambda>r. r\<lparr>tstate := Uncertain\<rparr>) db)
      else if tstate r = Suspended \<or> tstate r = Uncertain then
        (Inl (RecoveryRequired ''Task requires a human answer or side-effect resolution''), db)
      else if recoveries r \<ge> 3 then
        (Inl (RecoveryRequired ''Task exceeded its recovery attempt limit''), db)
      else (Inr (Some w),
            set_task (ow, k) (lease_row e w (tstate r = Running \<or> reply r \<noteq> None)) db))"

definition claim :: "env \<Rightarrow> owner \<Rightarrow> task_id \<Rightarrow> pystr \<Rightarrow> json \<Rightarrow> int option \<Rightarrow> json \<Rightarrow> token \<Rightarrow>
    ('a task_db_scheme) \<Rightarrow> token option result \<times> ('a task_db_scheme)" where
  "claim e ow k g messages ep crit w db =
     (if k = [] \<or> py_len k > 256 then (Inl (ValueError ''Task ID must contain 1..256 characters''), db)
      else case bind_result (assert_owner_active db ow) (\<lambda>_. assert_claim_backend e db ow k) of
        Inl x \<Rightarrow> (Inl x, db)
      | Inr _ \<Rightarrow> (case map_of (tasks db) (ow, k) of
          None \<Rightarrow> txn db (claim_new e db ow k g messages ep crit w)
        | Some r \<Rightarrow> claim_existing e db ow k r w))"

text \<open>\<open>renew\<close>: \<open>lease_until\<close> is compared in SQL, so a NULL never matches.\<close>

definition holds_lease :: "time \<Rightarrow> token \<Rightarrow> task_row \<Rightarrow> bool" where
  "holds_lease t w r \<longleftrightarrow> lease_owner r = Some w
     \<and> (case lease_until r of None \<Rightarrow> False | Some u \<Rightarrow> t < u)"

definition renew :: "env \<Rightarrow> owner \<Rightarrow> task_id \<Rightarrow> token \<Rightarrow> ('a task_db_scheme) \<Rightarrow> bool \<times> ('a task_db_scheme)" where
  "renew e ow k w db =
     (let c = (\<lambda>r. holds_lease (now e) w r \<and> tstate r = Running) in
      (row_where (ow, k) c (tasks db),
       db\<lparr>tasks := update_key (ow, k) c (\<lambda>r. r\<lparr>lease_until := Some (now e + 180)\<rparr>) (tasks db)\<rparr>))"

definition bind_workspace :: "env \<Rightarrow> owner \<Rightarrow> task_id \<Rightarrow> token \<Rightarrow> pystr \<Rightarrow> pystr \<Rightarrow> ('a task_db_scheme) \<Rightarrow>
    unit result \<times> ('a task_db_scheme)" where
  "bind_workspace e ow k w repo store db = txn db
     (bind_result (guard (row_where (ow, k) (\<lambda>r. tstate r = Running \<and> lease_owner r = Some w) (tasks db))
        (TaskBusy ''Lost task lease'')) (\<lambda>_.
      bind_result (if map_of (task_workspaces db) (ow, k) = None
        then capacity e db (int (byte_len repo + byte_len store)) else Inr ()) (\<lambda>_.
      Inr ((), db\<lparr>task_workspaces := insert_or_ignore (ow, k) (repo, store) (task_workspaces db)\<rparr>))))"

section \<open>Checkpoints\<close>

record step_in =
  si_id :: pystr
  si_name :: pystr
  si_arguments :: json
  si_dependencies :: "json option"
  si_state :: pystr
  si_result :: "pystr option"

definition step_json :: "step_in \<Rightarrow> json" where
  "step_json s = JObj ([(''id'', JStr (si_id s)), (''name'', JStr (si_name s)),
       (''arguments'', si_arguments s)]
     @ (case si_dependencies s of None \<Rightarrow> [] | Some d \<Rightarrow> [(''dependencies'', d)])
     @ [(''state'', JStr (si_state s))]
     @ (case si_result s of None \<Rightarrow> [] | Some x \<Rightarrow> [(''result'', JStr x)]))"

definition step_to_row :: "step_in \<Rightarrow> step_row" where
  "step_to_row s = \<lparr>step_name = si_name s, step_input = JText True False (si_arguments s),
     step_dependencies = JText True False (case si_dependencies s of None \<Rightarrow> JArr [] | Some d \<Rightarrow> d),
     step_state = si_state s, step_result = si_result s\<rparr>"

definition put_step :: "owner \<Rightarrow> task_id \<Rightarrow> step_in option \<Rightarrow> ('a task_db_scheme) \<Rightarrow> ('a task_db_scheme)" where
  "put_step ow k st db = (case st of None \<Rightarrow> db
     | Some s \<Rightarrow> db\<lparr>task_steps := upsert_row (ow, k, si_id s) (step_to_row s)
         (\<lambda>r. r\<lparr>step_state := si_state s, step_result := si_result s\<rparr>) (task_steps db)\<rparr>)"

definition checkpoint :: "env \<Rightarrow> owner \<Rightarrow> task_id \<Rightarrow> token \<Rightarrow> pystr \<Rightarrow> json \<Rightarrow> step_in option \<Rightarrow>
    ('a task_db_scheme) \<Rightarrow> unit result \<times> ('a task_db_scheme)" where
  "checkpoint e ow k w ph data st db =
     (let doc = JText False False data; n = jtext_bytes doc in
      if n > max_checkpoint then (Inl (ValueError ''Task checkpoint exceeds 64 MiB''), db)
      else txn db
        (let current = (case map_of (tasks db) (ow, k) of None \<Rightarrow> 0
               | Some r \<Rightarrow> jtext_bytes (checkpoint_doc r));
             extra = int n - int current + (case st of None \<Rightarrow> 0
               | Some s \<Rightarrow> int (json_bytes True False (step_json s)));
             c = (\<lambda>r. holds_lease (now e) w r \<and> tstate r = Running) in
         bind_result (assert_owner_active db ow) (\<lambda>_.
         bind_result (capacity e db extra) (\<lambda>_.
         bind_result (guard (row_where (ow, k) c (tasks db))
           (TaskBusy ''Task lease lost; refusing further execution'')) (\<lambda>_.
         Inr ((), put_step ow k st (db\<lparr>tasks := update_key (ow, k) c
           (\<lambda>r. r\<lparr>phase := ph, checkpoint_doc := doc, updated := now e\<rparr>) (tasks db)\<rparr>)))))))"

section \<open>Finishing\<close>

text \<open>
  The quality recorded by \<open>finish\<close>: a completed task is verified only when its frozen
  criteria name checks (or the public source check passed), the evaluation says so and there is
  evidence.  \<open>a or b\<close> reads \<open>b\<close> only when \<open>a\<close> is false.
\<close>

definition stored_evaluation :: "json \<Rightarrow> json result" where
  "stored_evaluation data =
     bind_result (py_get data ''evaluation'' JNull) (\<lambda>ev.
       if jtruth ev then Inr ev
       else bind_result (py_get data ''skill_result'' (JObj [])) (\<lambda>sr.
            bind_result (py_get sr ''verification'' JNull) (\<lambda>v. Inr (jor v (JObj [])))))"

definition finish_quality :: "task_state \<Rightarrow> json \<Rightarrow> json \<Rightarrow> pystr result" where
  "finish_quality st data crit =
     bind_result (stored_evaluation data) (\<lambda>ev.
     bind_result (py_get ev ''criteria_met'' JNull) (\<lambda>met.
     bind_result (py_get (jor met (JObj [])) ''source_evidence:public_web'' JNull) (\<lambda>src.
     if st \<noteq> Completed then Inr ''unverified''
     else bind_result (py_get crit ''checks'' JNull) (\<lambda>checks.
       bind_result (py_get ev ''verified'' JNull) (\<lambda>ver.
       bind_result (py_get ev ''evidence'' JNull) (\<lambda>evd.
       Inr (if (jtruth checks \<or> src = JBool True) \<and> ver = JBool True \<and> jtruth evd
            then ''verified_completed'' else ''unverified'')))))))"

definition finish :: "env \<Rightarrow> owner \<Rightarrow> task_id \<Rightarrow> token \<Rightarrow> task_state \<Rightarrow> pystr option \<Rightarrow>
    ('a task_db_scheme) \<Rightarrow> unit result \<times> ('a task_db_scheme)" where
  "finish e ow k w st rep db = txn db
     (let row = map_of (tasks db) (ow, k);
          old = (case row of None \<Rightarrow> 0 | Some r \<Rightarrow> opt_bytes (reply r));
          data = (case row of None \<Rightarrow> JObj [] | Some r \<Rightarrow> jt_doc (checkpoint_doc r));
          crit = (case row of None \<Rightarrow> JObj [] | Some r \<Rightarrow> jt_doc (criteria r));
          c = holds_lease (now e) w in
      bind_result (assert_owner_active db ow) (\<lambda>_.
      bind_result (capacity e db (int (opt_bytes rep) - int old)) (\<lambda>_.
      bind_result (finish_quality st data crit) (\<lambda>quality.
      bind_result (guard (row_where (ow, k) c (tasks db))
        (TaskBusy ''Task lease lost while finishing'')) (\<lambda>_.
      Inr ((), db\<lparr>tasks := update_key (ow, k) c
        (\<lambda>r. r\<lparr>tstate := st, reply := rep, verification := quality, lease_owner := None,
                lease_until := None, updated := now e\<rparr>) (tasks db)\<rparr>))))))"

section \<open>Human answers and resolutions\<close>

abbreviation max_human :: nat where
  "max_human \<equiv> 1024 * 1024"

text \<open>\<open>data['messages'].append(message)\<close>.\<close>

definition append_message :: "json \<Rightarrow> json \<Rightarrow> json result" where
  "append_message data m = bind_result (py_index data ''messages'') (\<lambda>ms.
     case ms of JArr xs \<Rightarrow> Inr (jset data ''messages'' (JArr (xs @ [m])))
     | _ \<Rightarrow> Inl (AttributeError ''append''))"

lemma append_message_Inr: "append_message data m = Inr d \<longleftrightarrow>
    (\<exists>kvs ms. data = JObj kvs \<and> map_of kvs ''messages'' = Some (JArr ms)
      \<and> d = JObj (AList.update ''messages'' (JArr (ms @ [m])) kvs))"
proof (cases data)
  case (JObj kvs)
  then show ?thesis
    by (cases "map_of kvs ''messages''"; cases "the (map_of kvs ''messages'')")
      (auto simp: append_message_def py_index_def)
qed (simp_all add: append_message_def py_index_def)

definition tool_message :: "json \<Rightarrow> pystr \<Rightarrow> json" where
  "tool_message call text = JObj [(''role'', JStr ''tool''), (''tool_call_id'', call), (''content'', JStr text)]"

definition answered_doc :: "json \<Rightarrow> pystr \<Rightarrow> json result" where
  "answered_doc data text = bind_result (py_index data ''messages'') (\<lambda>ms.
     case ms of JArr xs \<Rightarrow>
       bind_result (py_index data ''suspended_tool_call_id'') (\<lambda>call.
         Inr (jset (jdel data ''suspended_tool_call_id'') ''messages''
           (JArr (xs @ [tool_message call text]))))
     | _ \<Rightarrow> Inl (AttributeError ''append''))"

definition answer :: "env \<Rightarrow> owner \<Rightarrow> task_id \<Rightarrow> pystr \<Rightarrow> ('a task_db_scheme) \<Rightarrow>
    unit result \<times> ('a task_db_scheme)" where
  "answer e ow k text db =
     (if byte_len text > max_human then (Inl (ValueError ''Human answer exceeds 1 MiB''), db)
      else txn db (bind_result (assert_claim_backend e db ow k) (\<lambda>_.
        case map_of (tasks db) (ow, k) of
          None \<Rightarrow> Inl (RecoveryRequired ''No suspended task in this scope'')
        | Some r \<Rightarrow>
            if tstate r \<noteq> Suspended then Inl (RecoveryRequired ''No suspended task in this scope'')
            else bind_result (answered_doc (jt_doc (checkpoint_doc r)) text) (\<lambda>data.
              let doc = JText True False data in
              bind_result (capacity e db (int (jtext_bytes doc) - int (jtext_bytes (checkpoint_doc r)))) (\<lambda>_.
              Inr ((), set_task (ow, k) (\<lambda>r. r\<lparr>tstate := Pending, phase := ''tool_done'',
                checkpoint_doc := doc, reply := None, updated := now e\<rparr>) db))))))"

definition resolved_doc :: "json \<Rightarrow> pystr \<Rightarrow> pystr \<Rightarrow> json result" where
  "resolved_doc data call text =
     bind_result (append_message data (tool_message (JStr call) text)) (\<lambda>d.
       Inr (jset d ''human_resolution''
         (JObj [(''tool_call_id'', JStr call), (''result'', JStr text)])))"

definition resolve :: "env \<Rightarrow> owner \<Rightarrow> task_id \<Rightarrow> pystr \<Rightarrow> pystr \<Rightarrow> ('a task_db_scheme) \<Rightarrow>
    unit result \<times> ('a task_db_scheme)" where
  "resolve e ow k call text db =
     (if byte_len text > max_human then (Inl (ValueError ''Human resolution exceeds 1 MiB''), db)
      else txn db (bind_result (assert_claim_backend e db ow k) (\<lambda>_.
        case map_of (tasks db) (ow, k) of
          None \<Rightarrow> Inl (RecoveryRequired ''No matching uncertain tool step in this scope'')
        | Some r \<Rightarrow>
            if \<not> (tstate r = Uncertain \<and> phase r = ''tool_started''
                  \<and> row_where (ow, k, call) (\<lambda>s. step_state s = ''running'') (task_steps db))
            then Inl (RecoveryRequired ''No matching uncertain tool step in this scope'')
            else bind_result (resolved_doc (jt_doc (checkpoint_doc r)) call text) (\<lambda>data.
              let doc = JText True False data in
              bind_result (capacity e db (int (jtext_bytes doc)
                - int (jtext_bytes (checkpoint_doc r)) + int (byte_len text))) (\<lambda>_.
              Inr ((), set_task (ow, k) (\<lambda>r. r\<lparr>tstate := Pending, phase := ''tool_done'',
                  checkpoint_doc := doc, lease_owner := None, lease_until := None, updated := now e\<rparr>)
                (db\<lparr>task_steps := update_key (ow, k, call) (\<lambda>_. True)
                  (\<lambda>s. s\<lparr>step_state := ''resolved_by_human'', step_result := Some text\<rparr>)
                  (task_steps db)\<rparr>)))))))"

section \<open>Cancelling\<close>

definition cancelled_row :: "env \<Rightarrow> pystr \<Rightarrow> task_row \<Rightarrow> task_row" where
  "cancelled_row e why r = r\<lparr>tstate := Cancelled, reply := Some why, lease_owner := None,
     lease_until := None, updated := now e\<rparr>"

definition cancel :: "env \<Rightarrow> owner \<Rightarrow> task_id \<Rightarrow> ('a task_db_scheme) \<Rightarrow> bool result \<times> ('a task_db_scheme)" where
  "cancel e ow k db = txn db
     (let c = (\<lambda>r. \<not> terminal (tstate r)) in
      bind_result (request (now e) ow (Some k)
        (db\<lparr>tasks := update_key (ow, k) c (cancelled_row e ''Task cancelled'') (tasks db)\<rparr>)) (\<lambda>db'.
      Inr (row_where (ow, k) c (tasks db), db')))"

definition cancel_session :: "env \<Rightarrow> owner \<Rightarrow> ('a task_db_scheme) \<Rightarrow> unit result \<times> ('a task_db_scheme)" where
  "cancel_session e ow db = txn db
     (bind_result (request (now e) ow None
        (db\<lparr>conversation_resets := upsert_row ow (now e) (\<lambda>_. now e) (conversation_resets db),
            tasks := update_where (\<lambda>(o', _) r. o' = ow \<and> \<not> terminal (tstate r))
              (cancelled_row e ''Session cleared'') (tasks db)\<rparr>)) (\<lambda>db'.
      Inr ((), db')))"

definition mark_uncertain :: "env \<Rightarrow> owner \<Rightarrow> task_id \<Rightarrow> ('a task_db_scheme) \<Rightarrow> ('a task_db_scheme)" where
  "mark_uncertain e ow k db = db\<lparr>tasks := update_key (ow, k)
     (\<lambda>r. tstate r = Running \<and> (case lease_until r of None \<Rightarrow> False | Some u \<Rightarrow> u \<le> now e))
     (\<lambda>r. r\<lparr>tstate := Uncertain, lease_owner := None, lease_until := None\<rparr>) (tasks db)\<rparr>"

end
