(* ===== verification/Task_Machine.thy ===== *)
theory Task_Machine
  imports Tasks
begin

text \<open>
  The abstract state machine of one task row and the refinement: whatever operation of
  \<open>TaskStore\<close> runs, with whatever outcome, each stored row stutters or makes one of the
  transitions below.  The safety facts about tasks are read off the machine, and the
  lease contract of theory Leases is interpreted on the store.
\<close>

section \<open>The operations as one step function\<close>

datatype task_op =
    TClaim owner task_id pystr json "int option" json token
  | TRenew owner task_id token
  | TBind owner task_id token pystr pystr
  | TCheckpoint owner task_id token pystr json "step_in option"
  | TFinish owner task_id token task_state "pystr option"
  | TAnswer owner task_id pystr
  | TResolve owner task_id pystr pystr
  | TCancel owner task_id
  | TCancelSession owner
  | TMarkUncertain owner task_id

fun task_exec :: "env \<Rightarrow> task_op \<Rightarrow> task_db \<Rightarrow> task_db" where
  "task_exec e (TClaim ow k g ms ep crit w) db = snd (claim e ow k g ms ep crit w db)"
| "task_exec e (TRenew ow k w) db = snd (renew e ow k w db)"
| "task_exec e (TBind ow k w repo store) db = snd (bind_workspace e ow k w repo store db)"
| "task_exec e (TCheckpoint ow k w ph d st) db = snd (checkpoint e ow k w ph d st db)"
| "task_exec e (TFinish ow k w s rep) db = snd (finish e ow k w s rep db)"
| "task_exec e (TAnswer ow k text) db = snd (answer e ow k text db)"
| "task_exec e (TResolve ow k call text) db = snd (resolve e ow k call text db)"
| "task_exec e (TCancel ow k) db = snd (cancel e ow k db)"
| "task_exec e (TCancelSession ow) db = snd (cancel_session e ow db)"
| "task_exec e (TMarkUncertain ow k) db = mark_uncertain e ow k db"

text \<open>One step at clock reading \<open>t\<close>; the other settings of the call are its own.\<close>

definition task_step :: "time \<Rightarrow> env \<times> task_op \<Rightarrow> task_db \<Rightarrow> task_db" where
  "task_step t x db = task_exec (fst x\<lparr>now := t\<rparr>) (snd x) db"

section \<open>The machine of one row\<close>

inductive row_change :: "env \<Rightarrow> task_op \<Rightarrow> owner \<times> task_id \<Rightarrow> task_row \<Rightarrow> task_row \<Rightarrow> bool" where
  rc_claim: "\<not> terminal (tstate r) \<Longrightarrow> \<not> lease_live (now e) r \<Longrightarrow> \<not> uncertain_phase (phase r) \<Longrightarrow>
    tstate r \<noteq> Suspended \<Longrightarrow> tstate r \<noteq> Uncertain \<Longrightarrow> recoveries r < 3 \<Longrightarrow>
    row_change e (TClaim ow k g ms ep crit w) (ow, k) r
      (lease_row e w (tstate r = Running \<or> reply r \<noteq> None) r)"
| rc_uncertain: "\<not> terminal (tstate r) \<Longrightarrow> \<not> lease_live (now e) r \<Longrightarrow> uncertain_phase (phase r) \<Longrightarrow>
    row_change e (TClaim ow k g ms ep crit w) (ow, k) r (r\<lparr>tstate := Uncertain\<rparr>)"
| rc_renew: "holds_lease (now e) w r \<Longrightarrow> tstate r = Running \<Longrightarrow>
    row_change e (TRenew ow k w) (ow, k) r (r\<lparr>lease_until := Some (now e + 180)\<rparr>)"
| rc_checkpoint: "holds_lease (now e) w r \<Longrightarrow> tstate r = Running \<Longrightarrow>
    row_change e (TCheckpoint ow k w ph d st) (ow, k) r
      (r\<lparr>phase := ph, checkpoint_doc := JText False False d, updated := now e\<rparr>)"
| rc_finish: "holds_lease (now e) w r \<Longrightarrow>
    finish_quality s (jt_doc (checkpoint_doc r)) (jt_doc (criteria r)) = Inr q \<Longrightarrow>
    row_change e (TFinish ow k w s rep) (ow, k) r
      (r\<lparr>tstate := s, reply := rep, verification := q, lease_owner := None, lease_until := None,
         updated := now e\<rparr>)"
| rc_answer: "tstate r = Suspended \<Longrightarrow> answered_doc (jt_doc (checkpoint_doc r)) text = Inr d \<Longrightarrow>
    row_change e (TAnswer ow k text) (ow, k) r
      (r\<lparr>tstate := Pending, phase := ''tool_done'', checkpoint_doc := JText True False d,
         reply := None, updated := now e\<rparr>)"
| rc_resolve: "tstate r = Uncertain \<Longrightarrow> phase r = ''tool_started'' \<Longrightarrow>
    resolved_doc (jt_doc (checkpoint_doc r)) call text = Inr d \<Longrightarrow>
    row_change e (TResolve ow k call text) (ow, k) r
      (r\<lparr>tstate := Pending, phase := ''tool_done'', checkpoint_doc := JText True False d,
         lease_owner := None, lease_until := None, updated := now e\<rparr>)"
| rc_cancel: "\<not> terminal (tstate r) \<Longrightarrow>
    row_change e (TCancel ow k) (ow, k) r (cancelled_row e ''Task cancelled'' r)"
| rc_cancel_session: "\<not> terminal (tstate r) \<Longrightarrow>
    row_change e (TCancelSession ow) (ow, k) r (cancelled_row e ''Session cleared'' r)"
| rc_mark: "tstate r = Running \<Longrightarrow> lease_until r = Some u \<Longrightarrow> u \<le> now e \<Longrightarrow>
    row_change e (TMarkUncertain ow k) (ow, k) r
      (r\<lparr>tstate := Uncertain, lease_owner := None, lease_until := None\<rparr>)"

inductive_cases rc_terminalE: "row_change e op key r r'"

text \<open>How a row comes to exist: only a claim creates it, and leases it at once.\<close>

inductive row_create :: "env \<Rightarrow> task_op \<Rightarrow> owner \<times> task_id \<Rightarrow> task_row \<Rightarrow> bool" where
  "k \<noteq> [] \<Longrightarrow> py_len k \<le> 256 \<Longrightarrow>
   row_create e (TClaim ow k g ms ep crit w) (ow, k)
     (lease_row e w False (new_row e g ms ep (jor crit (JObj [(''goal'', JStr g)]))))"

section \<open>Refinement\<close>

lemma set_task_lookup [tbl]: "map_of (tasks (set_task key f db)) k =
    (if k = key then map_option f (map_of (tasks db) key) else map_of (tasks db) k)"
  by (simp add: set_task_def update_key_lookup)

lemma put_step_tasks [simp]: "tasks (put_step ow k st db) = tasks db"
  by (simp add: put_step_def split: option.splits)

definition row_refines :: "env \<Rightarrow> task_op \<Rightarrow> task_db \<Rightarrow> task_db \<Rightarrow> bool" where
  "row_refines e op db db' \<longleftrightarrow> (\<forall>key. case map_of (tasks db) key of
     Some r \<Rightarrow> (\<exists>r'. map_of (tasks db') key = Some r' \<and> (r' = r \<or> row_change e op key r r'))
   | None \<Rightarrow> (case map_of (tasks db') key of None \<Rightarrow> True | Some r' \<Rightarrow> row_create e op key r'))"

lemma row_refines_same [simp]: "tasks db' = tasks db \<Longrightarrow> row_refines e op db db'"
  by (auto simp: row_refines_def split: option.splits)

lemma row_refines_SomeD: "row_refines e op db db' \<Longrightarrow> map_of (tasks db) key = Some r \<Longrightarrow>
    \<exists>r'. map_of (tasks db') key = Some r' \<and> (r' = r \<or> row_change e op key r r')"
  unfolding row_refines_def by (drule spec [of _ key]) simp

lemma row_refines_NoneD: "row_refines e op db db' \<Longrightarrow> map_of (tasks db) key = None \<Longrightarrow>
    map_of (tasks db') key = Some r' \<Longrightarrow> row_create e op key r'"
  unfolding row_refines_def by (drule spec [of _ key]) simp

text \<open>An update of one row refines when the new row is a transition of the machine.\<close>

lemma row_refines_update:
  assumes "\<And>r. map_of (tasks db) key = Some r \<Longrightarrow> c r \<Longrightarrow> row_change e op key r (f r)"
    and "tasks db' = update_key key c f (tasks db)"
  shows "row_refines e op db db'"
  using assms by (auto simp: row_refines_def update_key_lookup split: option.splits)

lemma row_refines_set_task:
  assumes "map_of (tasks db) key = Some r" and "row_change e op key r (f r)"
    and "tasks db' = tasks (set_task key f db)"
  shows "row_refines e op db db'"
  using assms by (auto simp: row_refines_def set_task_lookup split: option.splits)

lemma claim_new_Inr: "claim_new e db ow k g ms ep crit w = Inr (x, db') \<Longrightarrow>
   x = Some w \<and> db' = db\<lparr>tasks := tasks db @ [((ow, k),
     lease_row e w False (new_row e g ms ep (jor crit (JObj [(''goal'', JStr g)]))))]\<rparr>"
  by (auto simp: claim_new_def Let_def)

lemma claim_refines: "row_refines e (TClaim ow k g ms ep crit w) db (snd (claim e ow k g ms ep crit w db))"
proof (cases "map_of (tasks db) (ow, k)")
  case None
  show ?thesis
  proof (cases "claim_new e db ow k g ms ep crit w")
    case (Inl x)
    then show ?thesis using None
      by (auto simp: claim_def txn_snd split: sum.splits option.splits)
  next
    case (Inr y)
    obtain x db' where y: "y = (x, db')" by (cases y)
    then have db': "db' = db\<lparr>tasks := tasks db @ [((ow, k),
        lease_row e w False (new_row e g ms ep (jor crit (JObj [(''goal'', JStr g)]))))]\<rparr>"
      using claim_new_Inr Inr by blast
    show ?thesis
    proof (cases "snd (claim e ow k g ms ep crit w db) = db")
      case False
      then have "k \<noteq> []" "py_len k \<le> 256" and "snd (claim e ow k g ms ep crit w db) = db'"
        using None Inr y by (auto simp: claim_def split: if_splits sum.splits)
      then show ?thesis using None db'
        by (auto simp: row_refines_def map_of_append_single simp del: map_of_append
            intro!: row_create.intros split: option.splits)
    qed simp
  qed
next
  case (Some r)
  let ?op = "TClaim ow k g ms ep crit w"
  have "row_refines e ?op db (snd (claim_existing e db ow k r w))"
  proof (cases "terminal (tstate r) \<or> lease_live (now e) r")
    case True
    then show ?thesis by (auto simp: claim_existing_def)
  next
    case idle: False
    show ?thesis
    proof (cases "uncertain_phase (phase r)")
      case True
      with idle have "row_change e ?op (ow, k) r (r\<lparr>tstate := Uncertain\<rparr>)"
        by (intro rc_uncertain) auto
      from row_refines_set_task [where f = "\<lambda>r. r\<lparr>tstate := Uncertain\<rparr>", OF Some this refl]
      show ?thesis
        using idle True by (simp add: claim_existing_def)
    next
      case False
      have "row_change e ?op (ow, k) r (lease_row e w (tstate r = Running \<or> reply r \<noteq> None) r)"
        if "tstate r \<noteq> Suspended" "tstate r \<noteq> Uncertain" "\<not> recoveries r \<ge> 3"
        using idle False that by (intro rc_claim) auto
      from row_refines_set_task
          [where f = "lease_row e w (tstate r = Running \<or> reply r \<noteq> None)", OF Some this refl]
      show ?thesis
        using idle False by (auto simp: claim_existing_def)
    qed
  qed
  then show ?thesis using Some by (auto simp: claim_def split: sum.splits)
qed

lemma finish_refines: "row_refines e (TFinish ow k w s rep) db (snd (finish e ow k w s rep db))"
proof (cases "finish e ow k w s rep db")
  case (Pair a db')
  show ?thesis
  proof (cases a)
    case Inl
    with Pair show ?thesis by (simp add: finish_def txn_Inl)
  next
    case (Inr u)
    with Pair obtain r q where r: "map_of (tasks db) (ow, k) = Some r" and h: "holds_lease (now e) w r"
      and q: "finish_quality s (jt_doc (checkpoint_doc r)) (jt_doc (criteria r)) = Inr q"
      and db': "tasks db' = update_key (ow, k) (holds_lease (now e) w) (\<lambda>r. r\<lparr>tstate := s, reply := rep,
        verification := q, lease_owner := None, lease_until := None, updated := now e\<rparr>) (tasks db)"
      by (auto simp: finish_def Let_def txn_Inr row_where_iff)
    then show ?thesis
      using Pair rc_finish [OF h q] by (intro row_refines_update [where key = "(ow, k)"]) auto
  qed
qed

lemma renew_refines: "row_refines e (TRenew ow k w) db (snd (renew e ow k w db))"
  unfolding renew_def Let_def snd_conv
  by (rule row_refines_update) (auto intro: row_change.intros)

lemma checkpoint_refines:
  "row_refines e (TCheckpoint ow k w ph d st) db (snd (checkpoint e ow k w ph d st db))"
proof (cases "checkpoint e ow k w ph d st db")
  case (Pair a db')
  show ?thesis
  proof (cases a)
    case Inl
    with Pair show ?thesis by (auto simp: checkpoint_def Let_def txn_Inl split: if_splits)
  next
    case (Inr u)
    with Pair have "tasks db' = update_key (ow, k) (\<lambda>r. holds_lease (now e) w r \<and> tstate r = Running)
        (\<lambda>r. r\<lparr>phase := ph, checkpoint_doc := JText False False d, updated := now e\<rparr>) (tasks db)"
      by (auto simp: checkpoint_def Let_def txn_Inr split: if_splits)
    with Pair show ?thesis
      by (intro row_refines_update [where key = "(ow, k)"]) (auto intro: row_change.intros)
  qed
qed

lemma bind_refines: "row_refines e (TBind ow k w repo st) db (snd (bind_workspace e ow k w repo st db))"
  by (rule row_refines_same) (auto simp: bind_workspace_def txn_snd split: sum.splits)

lemma answer_refines: "row_refines e (TAnswer ow k text) db (snd (answer e ow k text db))"
proof (cases "answer e ow k text db")
  case (Pair a db')
  show ?thesis
  proof (cases a)
    case Inl
    with Pair show ?thesis by (auto simp: answer_def txn_Inl split: if_splits)
  next
    case (Inr u)
    with Pair obtain r d where "map_of (tasks db) (ow, k) = Some r" "tstate r = Suspended"
      "answered_doc (jt_doc (checkpoint_doc r)) text = Inr d"
      "db' = set_task (ow, k) (\<lambda>r. r\<lparr>tstate := Pending, phase := ''tool_done'',
         checkpoint_doc := JText True False d, reply := None, updated := now e\<rparr>) db"
      by (auto simp: answer_def txn_Inr Let_def split: if_splits option.splits)
    with Pair show ?thesis
      by (auto intro!: row_refines_set_task row_change.intros)
  qed
qed

lemma resolve_refines: "row_refines e (TResolve ow k call text) db (snd (resolve e ow k call text db))"
proof (cases "resolve e ow k call text db")
  case (Pair a db')
  show ?thesis
  proof (cases a)
    case Inl
    with Pair show ?thesis by (auto simp: resolve_def txn_Inl split: if_splits)
  next
    case (Inr u)
    with Pair obtain r d where r: "map_of (tasks db) (ow, k) = Some r" "tstate r = Uncertain"
      "phase r = ''tool_started''" "resolved_doc (jt_doc (checkpoint_doc r)) call text = Inr d"
      and db': "tasks db' = tasks (set_task (ow, k) (\<lambda>r. r\<lparr>tstate := Pending, phase := ''tool_done'',
         checkpoint_doc := JText True False d, lease_owner := None, lease_until := None,
         updated := now e\<rparr>) db)"
      by (auto simp: resolve_def txn_Inr Let_def set_task_def split: if_splits option.splits)
    show ?thesis
      using Pair r by (intro row_refines_set_task [OF r(1) _ , where f = "\<lambda>r. r\<lparr>tstate := Pending,
         phase := ''tool_done'', checkpoint_doc := JText True False d, lease_owner := None,
         lease_until := None, updated := now e\<rparr>"]) (auto simp: db' intro: row_change.intros)
  qed
qed

lemma cancel_refines: "row_refines e (TCancel ow k) db (snd (cancel e ow k db))"
proof (cases "cancel e ow k db")
  case (Pair a db')
  show ?thesis
  proof (cases a)
    case Inl
    with Pair show ?thesis by (simp add: cancel_def txn_Inl)
  next
    case (Inr u)
    with Pair have "tasks db' = update_key (ow, k) (\<lambda>r. \<not> terminal (tstate r))
       (cancelled_row e ''Task cancelled'') (tasks db)"
      by (auto simp: cancel_def Let_def txn_Inr dest: request_frame)
    with Pair show ?thesis
      by (intro row_refines_update [where key = "(ow, k)"]) (auto intro: row_change.intros)
  qed
qed

lemma cancel_session_refines: "row_refines e (TCancelSession ow) db (snd (cancel_session e ow db))"
proof (cases "cancel_session e ow db")
  case (Pair a db')
  show ?thesis
  proof (cases a)
    case Inl
    with Pair show ?thesis by (simp add: cancel_session_def txn_Inl)
  next
    case (Inr u)
    with Pair have "tasks db' = update_where (\<lambda>(o', _) r. o' = ow \<and> \<not> terminal (tstate r))
       (cancelled_row e ''Session cleared'') (tasks db)"
      by (auto simp: cancel_session_def txn_Inr dest: request_frame)
    with Pair show ?thesis
      by (auto simp: row_refines_def update_where_lookup intro: row_change.intros split: option.splits)
  qed
qed

lemma mark_refines: "row_refines e (TMarkUncertain ow k) db (mark_uncertain e ow k db)"
  by (rule row_refines_update [where key = "(ow, k)"])
    (auto simp: mark_uncertain_def intro: row_change.intros split: option.splits)

lemmas op_refines = claim_refines renew_refines bind_refines checkpoint_refines finish_refines
  answer_refines resolve_refines cancel_refines cancel_session_refines mark_refines

lemma exec_refines: "row_refines e op db (task_exec e op db)"
  by (cases op) (simp_all add: op_refines)

section \<open>The lease contract\<close>

definition task_holds :: "task_db \<Rightarrow> time \<Rightarrow> owner \<times> task_id \<Rightarrow> token \<Rightarrow> bool" where
  "task_holds db t key w = row_where key (holds_lease t w) (tasks db)"

fun task_acquires :: "env \<times> task_op \<Rightarrow> owner \<times> task_id \<Rightarrow> token \<Rightarrow> bool" where
  "task_acquires (e, TClaim ow k g ms ep crit w) key w' \<longleftrightarrow> key = (ow, k) \<and> w' = w"
| "task_acquires _ _ _ \<longleftrightarrow> False"

fun task_under :: "env \<times> task_op \<Rightarrow> owner \<times> task_id \<Rightarrow> token \<Rightarrow> bool" where
  "task_under (e, TRenew ow k w) key w' \<longleftrightarrow> key = (ow, k) \<and> w' = w"
| "task_under (e, TCheckpoint ow k w ph d st) key w' \<longleftrightarrow> key = (ow, k) \<and> w' = w"
| "task_under (e, TFinish ow k w s rep) key w' \<longleftrightarrow> key = (ow, k) \<and> w' = w"
| "task_under _ _ _ \<longleftrightarrow> False"

lemma task_step_refines: "row_refines (fst x\<lparr>now := t\<rparr>) (snd x) db (task_step t x db)"
  by (simp add: task_step_def exec_refines)

lemma row_change_cases:
  assumes "map_of (tasks (task_step t x db)) key = Some r'"
  obtains (same) "map_of (tasks db) key = Some r'"
  | (change) r where "map_of (tasks db) key = Some r"
      "row_change (fst x\<lparr>now := t\<rparr>) (snd x) key r r'"
  | (create) "map_of (tasks db) key = None" "row_create (fst x\<lparr>now := t\<rparr>) (snd x) key r'"
proof (cases "map_of (tasks db) key")
  case None
  then show ?thesis using create row_refines_NoneD [OF task_step_refines None assms] by blast
next
  case (Some r)
  from row_refines_SomeD [OF task_step_refines Some] obtain r'' where
    r'': "map_of (tasks (task_step t x db)) key = Some r''"
      "r'' = r \<or> row_change (fst x\<lparr>now := t\<rparr>) (snd x) key r r''" by blast
  with assms have "r'' = r'" by simp
  with r''(2) Some show ?thesis using same change by blast
qed

lemma row_kept:
  assumes "map_of (tasks db) key = Some r"
  obtains r' where "map_of (tasks (task_step t x db)) key = Some r'"
    "r' = r \<or> row_change (fst x\<lparr>now := t\<rparr>) (snd x) key r r'"
  using row_refines_SomeD [OF task_step_refines assms] by blast

lemma lease_live_holds: "holds_lease t w r \<Longrightarrow> 0 \<le> t \<Longrightarrow> lease_live t r"
  by (auto simp: holds_lease_def split: option.splits)

lemma change_holds:
  assumes "row_change e op key r r'" and "holds_lease (now e) w r'"
  shows "task_acquires (e', op) key w \<or> holds_lease (now e) w r"
  using assms
  by (induction rule: row_change.induct)
    (auto simp: holds_lease_def lease_row_def cancelled_row_def split: option.splits)

lemma change_not_taken:
  assumes "row_change e op key r r'" and "holds_lease (now e) w r" and "0 \<le> now e"
    and "task_acquires (e', op) key w'"
  shows False
  using assms by (induction rule: row_change.induct) (auto dest: lease_live_holds)

lemma fenced_task_effect:
  assumes "task_under x key w" and "\<not> task_holds db t key w"
  shows "task_step t x db = db"
proof -
  have no: "\<not> row_where key (\<lambda>r. holds_lease t w r \<and> tstate r = Running) (tasks db)"
    using assms(2) by (auto simp: task_holds_def row_where_iff)
  obtain e op where [simp]: "x = (e, op)" by (cases x)
  show ?thesis
    using assms no
    by (cases op) (auto simp: task_step_def task_holds_def renew_def checkpoint_def finish_def
        Let_def update_key_no_match txn_snd split: sum.splits)
qed

interpretation task_leases: fenced_store task_holds task_step task_acquires task_under
proof unfold_locales
  fix t :: time and x :: "env \<times> task_op" and db :: task_db and key and w :: token
  assume t: "0 \<le> t" and h: "task_holds (task_step t x db) t key w" and na: "\<not> task_acquires x key w"
  then obtain r' where r': "map_of (tasks (task_step t x db)) key = Some r'" "holds_lease t w r'"
    by (auto simp: task_holds_def row_where_iff)
  from r'(1) show "task_holds db t key w"
  proof (cases rule: row_change_cases)
    case same
    with r' show ?thesis by (simp add: task_holds_def row_where_iff)
  next
    case (change r)
    with change_holds [OF change(2), of w "fst x"] r' na show ?thesis
      by (auto simp: task_holds_def row_where_iff)
  next
    case create
    with na r' show ?thesis
      by (cases x) (auto elim!: row_create.cases simp: holds_lease_def lease_row_def)
  qed
next
  fix db :: task_db and u t :: time and key and w :: token
  assume "task_holds db u key w" "t \<le> u"
  then show "task_holds db t key w"
    by (auto simp: task_holds_def row_where_iff holds_lease_def split: option.splits)
next
  fix db :: task_db and t :: time and key and w w' :: token
  assume "task_holds db t key w" "task_holds db t key w'"
  then show "w = w'" by (auto simp: task_holds_def row_where_iff holds_lease_def)
next
  fix t :: time and db :: task_db and key and w w' :: token and x :: "env \<times> task_op"
  assume t: "0 \<le> t" and h: "task_holds db t key w" and a: "task_acquires x key w'" and ne: "w' \<noteq> w"
  from h obtain r where r: "map_of (tasks db) key = Some r" "holds_lease t w r"
    by (auto simp: task_holds_def row_where_iff)
  from row_kept [OF r(1), where t = t and x = x] obtain r' where r': "map_of (tasks (task_step t x db)) key = Some r'"
    "r' = r \<or> row_change (fst x\<lparr>now := t\<rparr>) (snd x) key r r'" by blast
  with change_not_taken [of "fst x\<lparr>now := t\<rparr>" "snd x" key r r' w "fst x" w'] r t a
  have "r' = r" by auto
  with r r' ne show "\<not> task_holds (task_step t x db) t key w'"
    by (auto simp: task_holds_def row_where_iff holds_lease_def)
next
  fix t :: time and x key and w :: token and db :: task_db
  assume "task_under x key w" "\<not> task_holds db t key w"
  then show "task_step t x db = db" by (rule fenced_task_effect)
next
  fix x key and w :: token and key' and w' :: token
  assume "task_under x key w"
  then show "\<not> task_acquires x key' w'" by (cases x; cases "snd x") auto
qed

end
