(* ===== verification/Task_Properties.thy ===== *)
theory Task_Properties
  imports Task_Machine
begin

text \<open>
  The correctness properties of the task store, read off the row machine of theory
  Task\_Machine and the lease contract it interprets.
\<close>

section \<open>Invariants of stored rows\<close>

definition all_rows :: "(task_row \<Rightarrow> bool) \<Rightarrow> task_db \<Rightarrow> bool" where
  "all_rows P db \<longleftrightarrow> (\<forall>key r. map_of (tasks db) key = Some r \<longrightarrow> P r)"

lemma all_rows_step:
  assumes "\<And>e op key r r'. P r \<Longrightarrow> row_change e op key r r' \<Longrightarrow> P r'"
    and "\<And>e op key r. row_create e op key r \<Longrightarrow> P r"
    and "all_rows P db"
  shows "all_rows P (task_step t x db)"
  unfolding all_rows_def
proof (intro allI impI)
  fix key r'
  assume "map_of (tasks (task_step t x db)) key = Some r'"
  then show "P r'"
  proof (cases rule: row_change_cases)
    case same
    with assms(3) show ?thesis unfolding all_rows_def by blast
  next
    case (change r)
    with assms(3) have "P r" unfolding all_rows_def by blast
    with change(2) show ?thesis using assms(1) by blast
  next
    case create
    then show ?thesis using assms(2) by blast
  qed
qed

text \<open>
  A lease has an owner exactly when it has an end; only running and uncertain rows carry one;
  at most three recoveries were made, each by a claim; a row counted as verified is completed.
\<close>

definition task_row_ok :: "task_row \<Rightarrow> bool" where
  "task_row_ok r \<longleftrightarrow> (lease_owner r = None \<longleftrightarrow> lease_until r = None)
     \<and> (lease_owner r \<noteq> None \<longrightarrow> tstate r = Running \<or> tstate r = Uncertain)
     \<and> recoveries r \<le> 3 \<and> recoveries r \<le> attempts r
     \<and> (verification r = ''verified_completed'' \<longrightarrow> tstate r = Completed)"

lemma finish_quality_completed:
  "finish_quality st data crit = Inr ''verified_completed'' \<Longrightarrow> st = Completed"
  by (auto simp: finish_quality_def split: if_splits)

lemma ok_no_change_terminal:
  "task_row_ok r \<Longrightarrow> terminal (tstate r) \<Longrightarrow> \<not> row_change e op key r r'"
  by (auto elim!: row_change.cases simp: task_row_ok_def holds_lease_def)

lemma ok_change: "task_row_ok r \<Longrightarrow> row_change e op key r r' \<Longrightarrow> task_row_ok r'"
  by (rotate_tac, induction rule: row_change.induct)
    (auto simp: task_row_ok_def lease_row_def cancelled_row_def holds_lease_def
      dest: finish_quality_completed)

lemma ok_create: "row_create e op key r \<Longrightarrow> task_row_ok r"
  by (auto elim!: row_create.cases simp: task_row_ok_def lease_row_def new_row_def)

lemma ok_step: "all_rows task_row_ok db \<Longrightarrow> all_rows task_row_ok (task_step t x db)"
  by (rule all_rows_step) (auto intro: ok_change ok_create)


text \<open>
  C4: \<open>TaskStore\<close> leaves a finished task alone.  Once a row of a well-formed database is completed, failed or
  cancelled, no later sequence of operations of \<open>TaskStore\<close> changes any of its columns, not
  even one presented with a token that held the lease before.  The erasure of a session, the retention and the erasure of
  a Temporal submission and the command that abandons a graph node write the table without \<open>TaskStore\<close>; they may
  cancel, empty or delete such a row and are no operations of these histories.
\<close>

theorem terminal_task_is_final:
  assumes "all_rows task_row_ok db" and "map_of (tasks db) key = Some r" and "terminal (tstate r)"
  shows "map_of (tasks (run_ops task_step tr db)) key = Some r"
  using assms
proof (induction tr arbitrary: db)
  case (Cons x tr)
  obtain t a where x: "x = (t, a)" by (cases x)
  have "map_of (tasks (task_step t a db)) key = Some r"
    using row_kept [OF Cons.prems(2), where t = t and x = a] ok_no_change_terminal Cons.prems
    by (metis all_rows_def)
  with Cons.IH ok_step Cons.prems x show ?case by simp
qed simp

section \<open>What a successful claim means\<close>

lemma claim_new_checks:
  assumes "claim_new e db ow k g ms ep crit w = Inr (x, db')"
  shows "int (length (tasks db)) < task_limit e"
    "jtext_bytes (checkpoint_doc (new_row e g ms ep (jor crit (JObj [(''goal'', JStr g)])))) \<le> 67108864"
    "int (used_bytes db + jtext_bytes (checkpoint_doc (new_row e g ms ep (jor crit (JObj [(''goal'', JStr g)])))) + byte_len g
       + jtext_bytes (criteria (new_row e g ms ep (jor crit (JObj [(''goal'', JStr g)]))))) \<le> task_storage_bytes e"
  using assms by (auto simp: claim_new_def Let_def positive_limit_Inr capacity_Inr)

text \<open>
  C3: A claim that returns a token passed every check of \<open>claim\<close>.  The owner's conversation is
  active, the task was not fenced for erasure and is not bound to Temporal (unless the caller is its activity),
  and the task id has 1 to 256 characters.  A new task found the number of tasks below the configured
  limit, a checkpoint of at most 64 MiB, and room in the store for its checkpoint, goal and criteria; it
  is the row the arguments describe.  An existing task was pending or running, its lease had
  expired, its last checkpoint had not started a tool or a Skill (so nothing with possible side
  effects is run again) and it had been recovered at most twice; it keeps its columns but those of the lease and
  the counters.  The claiming worker now
  holds the lease for 180 seconds, the attempt is counted, and no other task changed.
\<close>

theorem claim_is_safe:
  assumes "claim e ow k g ms ep crit w db = (Inr (Some w'), db')"
  shows "w' = w \<and> \<not> owner_blocked db ow \<and> k \<noteq> [] \<and> py_len k \<le> 256
    \<and> (case erased_tasks db of None \<Rightarrow> True | Some toks \<Rightarrow> task_token ow k \<notin> set toks)
    \<and> (case Option.bind (execution_bindings db) (\<lambda>bs. map_of bs (ow, k)) of None \<Rightarrow> True
       | Some b \<Rightarrow> b = ''temporal'' \<longrightarrow> activity e = Some (ow, k))
    \<and> (\<exists>r'. map_of (tasks db') (ow, k) = Some r' \<and> tstate r' = Running \<and> lease_owner r' = Some w
        \<and> lease_until r' = Some (now e + 180)
        \<and> (case map_of (tasks db) (ow, k) of
             None \<Rightarrow> int (length (tasks db)) < task_limit e \<and> jtext_bytes (checkpoint_doc r') \<le> 67108864
               \<and> int (used_bytes db + jtext_bytes (checkpoint_doc r') + byte_len g + jtext_bytes (criteria r')) \<le> task_storage_bytes e
               \<and> goal r' = g \<and> jt_doc (criteria r') = jor crit (JObj [(''goal'', JStr g)])
               \<and> jt_doc (checkpoint_doc r') = JObj [(''messages'', ms)] \<and> phase r' = ''model_pending''
               \<and> attempts r' = 1 \<and> recoveries r' = 0 \<and> reply r' = None \<and> episode r' = ep
           | Some r \<Rightarrow> tstate r \<in> {Pending, Running} \<and> \<not> lease_live (now e) r
               \<and> phase r \<notin> {''tool_started'', ''skill_started''} \<and> recoveries r < 3
               \<and> r' = r\<lparr>tstate := Running, lease_owner := Some w, lease_until := Some (now e + 180), attempts := attempts r + 1,
                   recoveries := recoveries r + (if tstate r = Running \<or> reply r \<noteq> None then 1 else 0), updated := now e\<rparr>))
    \<and> (\<forall>key. key \<noteq> (ow, k) \<longrightarrow> map_of (tasks db') key = map_of (tasks db) key)"
proof -
  have g: "\<not> owner_blocked db ow" "k \<noteq> []" "py_len k \<le> 256" "assert_claim_backend e db ow k = Inr ()"
    using assms by (auto simp: claim_def split: if_splits sum.splits)
  have be: "case erased_tasks db of None \<Rightarrow> True | Some toks \<Rightarrow> task_token ow k \<notin> set toks"
    "case Option.bind (execution_bindings db) (\<lambda>bs. map_of bs (ow, k)) of None \<Rightarrow> True
       | Some b \<Rightarrow> b = ''temporal'' \<longrightarrow> activity e = Some (ow, k)"
    using g(4) by (auto simp: assert_claim_backend_def assert_not_erased_def split: option.splits)
  show ?thesis
  proof (cases "map_of (tasks db) (ow, k)")
    case None
    with assms have "claim_new e db ow k g ms ep crit w = Inr (Some w', db')"
      by (auto simp: claim_def txn_Inr split: if_splits sum.splits)
    from claim_new_Inr [OF this] claim_new_checks [OF this] None g be show ?thesis
      by (auto simp: map_of_append_single lease_row_def new_row_def simp del: map_of_append
          split: option.splits)
  next
    case (Some r)
    with assms have ce: "claim_existing e db ow k r w = (Inr (Some w'), db')"
      by (auto simp: claim_def split: if_splits sum.splits)
    then have "db' = set_task (ow, k) (lease_row e w (tstate r = Running \<or> reply r \<noteq> None)) db"
      and "w' = w" and "\<not> terminal (tstate r)" "\<not> lease_live (now e) r" "\<not> uncertain_phase (phase r)"
      "tstate r \<noteq> Suspended" "tstate r \<noteq> Uncertain" "\<not> recoveries r \<ge> 3"
      by (auto simp: claim_existing_def split: if_splits)
    with Some g be show ?thesis
      by (cases "tstate r") (auto simp: set_task_lookup lease_row_def uncertain_phase_def)
  qed
qed

section \<open>Lease fencing\<close>

text \<open>
  C1: The renewals, checkpoints and finishes of a worker that lost its lease are harmless.  If a token does not
  hold a task's lease at
  time \<open>t\<close>, then in every continuation with a clock that does not go back, in which the token
  is not issued again, the renewals, checkpoints and finishes it presents can be deleted from
  the run without changing the resulting database at all.  The fourth operation with a token, \<open>bind_workspace\<close>,
  stays in the run: it compares the token but not the expiry (\<open>bind_ignores_expiry\<close>).
\<close>

theorem stale_worker_is_harmless:
  assumes "0 \<le> t" and "\<not> task_holds db t key w" and "clocked t tr"
    and "\<forall>(u, a) \<in> set tr. \<not> task_acquires a key w"
  shows "run_ops task_step tr db = run_ops task_step (filter (\<lambda>(u, a). \<not> task_under a key w) tr) db"
  using assms by (rule task_leases.stale_worker_harmless)

text \<open>
  C2: Two workers never hold one task.  While one worker's lease is live, no operation of the
  store gives the lease to another token, and once another worker holds the lease the old token
  is out for every continuation in which it is not issued again.
\<close>

theorem one_worker_per_task:
  assumes "0 \<le> t" and "task_holds db t key w" and "w' \<noteq> w"
  shows "\<not> task_holds (task_step t x db) t key w'
    \<and> (clocked t tr \<longrightarrow> (\<forall>(v, a) \<in> set tr. \<not> task_acquires a key w') \<longrightarrow> last_time t tr \<le> u \<longrightarrow>
        \<not> task_holds (run_ops task_step tr db) u key w')"
proof
  have "\<not> task_holds db t key w'" using assms task_leases.single by blast
  then show "\<not> task_holds (task_step t x db) t key w'"
    using assms task_leases.exclusive by blast
  show "clocked t tr \<longrightarrow> (\<forall>(v, a) \<in> set tr. \<not> task_acquires a key w') \<longrightarrow> last_time t tr \<le> u \<longrightarrow>
        \<not> task_holds (run_ops task_step tr db) u key w'"
    using task_leases.takeover_fences [OF assms(1,2,3)] by blast
qed

section \<open>Verified completions\<close>

text \<open>
  C7: No completion is recorded as verified without evidence.  If \<open>finish\<close> leaves a task with
  \<open>verified_completed\<close>, it was called with the state completed, the evaluation stored in the
  checkpoint says \<open>verified: true\<close> and carries evidence, and either the criteria frozen when
  the task was created name checks or the public source check is recorded as met.
\<close>

theorem verified_completion_has_evidence:
  assumes "finish e ow k w st rep db = (Inr (), db')"
    and "map_of (tasks db') (ow, k) = Some r'" and "verification r' = ''verified_completed''"
  shows "st = Completed \<and> (\<exists>r ev. map_of (tasks db) (ow, k) = Some r
    \<and> stored_evaluation (jt_doc (checkpoint_doc r)) = Inr ev
    \<and> jget ev ''verified'' = JBool True \<and> jtruth (jget ev ''evidence'')
    \<and> (jtruth (jget (jt_doc (criteria r)) ''checks'')
       \<or> jget (jor (jget ev ''criteria_met'') (JObj [])) ''source_evidence:public_web'' = JBool True))"
proof -
  from assms(1) obtain r q where r: "map_of (tasks db) (ow, k) = Some r" "holds_lease (now e) w r"
    and q: "finish_quality st (jt_doc (checkpoint_doc r)) (jt_doc (criteria r)) = Inr q"
    and db': "tasks db' = update_key (ow, k) (holds_lease (now e) w) (\<lambda>r. r\<lparr>tstate := st, reply := rep,
        verification := q, lease_owner := None, lease_until := None, updated := now e\<rparr>) (tasks db)"
    by (auto simp: finish_def Let_def txn_Inr row_where_iff)
  with assms(2,3) have "q = ''verified_completed''" by (auto simp: update_key_lookup)
  with q r(1) show ?thesis
    by (auto simp: finish_quality_def dest!: py_get_jget split: if_splits)
qed

section \<open>Cancellation\<close>

text \<open>
  Cancelling a task fences its Temporal execution in the same transaction.  When
  \<open>cancel\<close> returns, the task row (if it was not already finished) is cancelled and carries no
  lease, and \<open>cancel\<close> answers whether it changed it.  When the Temporal tables are installed,
  each of its submissions that was pending, dispatched, running or already cancelled is now
  cancelled with its cancellation queued for delivery, and no operation of the task is left
  prepared or running.
\<close>

theorem cancel_fences_execution:
  assumes "cancel e ow k db = (Inr changed, db')" and "map_of (tasks db) (ow, k) = Some r"
  shows "changed = (\<not> terminal (tstate r))
    \<and> map_of (tasks db') (ow, k) = Some (if changed then cancelled_row e ''Task cancelled'' r else r)
    \<and> (cancellations db \<noteq> None \<longrightarrow> changed \<or> tstate r = Cancelled \<longrightarrow>
        (\<forall>key s. map_of (submissions db) key = Some s \<longrightarrow> sub_owner s = ow \<longrightarrow> sub_task s = k \<longrightarrow>
          cancellable (sub_state s) \<longrightarrow> sub_fenced db' key \<and> \<not> op_open db' ow k))"
proof -
  let ?d = "db\<lparr>tasks := update_key (ow, k) (\<lambda>r. \<not> terminal (tstate r))
      (cancelled_row e ''Task cancelled'') (tasks db)\<rparr>"
  from assms(1) have rq: "request (now e) ow (Some k) ?d = Inr db'"
    and ch: "changed = row_where (ow, k) (\<lambda>r. \<not> terminal (tstate r)) (tasks db)"
    by (auto simp: cancel_def Let_def txn_Inr)
  have c: "changed = (\<not> terminal (tstate r))" using ch assms(2) by (auto simp: row_where_iff)
  have t: "tasks db' = tasks ?d" by (rule request_frame [OF rq])
  have row: "map_of (tasks db') (ow, k) = Some (if changed then cancelled_row e ''Task cancelled'' r else r)"
    using t c assms(2) by (simp add: update_key_lookup)
  have cr: "row_where (ow, k) (\<lambda>r. tstate r = Cancelled) (tasks ?d)" if "changed \<or> tstate r = Cancelled"
    using row t that by (cases changed) (auto simp: row_where_iff cancelled_row_def)
  have "sub_fenced db' key \<and> \<not> op_open db' ow k"
    if "cancellations db \<noteq> None" "changed \<or> tstate r = Cancelled" "map_of (submissions db) key = Some s"
      "sub_owner s = ow" "sub_task s = k" "cancellable (sub_state s)" for key s
    using request_effect [OF rq, of key s] cr that by simp
  with c row show ?thesis by blast
qed

section \<open>Human resolution of an uncertain tool call\<close>

text \<open>
  A human resolution never repeats the tool.  When \<open>resolve\<close> succeeds, the task was
  uncertain in phase \<open>tool_started\<close> with that tool call recorded as running; afterwards it is
  pending without a lease in phase \<open>tool_done\<close>, its conversation is the stored one with the
  observed result appended as that call's tool message, and the step is resolved by the human
  with that text.
\<close>

theorem resolution_appends_observation:
  assumes "resolve e ow k call text db = (Inr (), db')"
  shows "\<exists>r ms r'. map_of (tasks db) (ow, k) = Some r \<and> tstate r = Uncertain \<and> phase r = ''tool_started''
    \<and> jfield (jt_doc (checkpoint_doc r)) ''messages'' = Some (JArr ms)
    \<and> map_of (tasks db') (ow, k) = Some r' \<and> tstate r' = Pending \<and> phase r' = ''tool_done''
    \<and> lease_owner r' = None
    \<and> jfield (jt_doc (checkpoint_doc r')) ''messages''
        = Some (JArr (ms @ [tool_message (JStr call) text]))
    \<and> row_where (ow, k, call) (\<lambda>s. step_state s = ''running'') (task_steps db)
    \<and> row_where (ow, k, call)
        (\<lambda>s. step_state s = ''resolved_by_human'' \<and> step_result s = Some text) (task_steps db')"
proof -
  from assms obtain r d where r: "map_of (tasks db) (ow, k) = Some r" "tstate r = Uncertain"
    "phase r = ''tool_started''" "resolved_doc (jt_doc (checkpoint_doc r)) call text = Inr d"
    and step: "row_where (ow, k, call) (\<lambda>s. step_state s = ''running'') (task_steps db)"
    and db': "db' = set_task (ow, k) (\<lambda>r. r\<lparr>tstate := Pending, phase := ''tool_done'',
         checkpoint_doc := JText True False d, lease_owner := None, lease_until := None,
         updated := now e\<rparr>) (db\<lparr>task_steps := update_key (ow, k, call) (\<lambda>_. True)
           (\<lambda>s. s\<lparr>step_state := ''resolved_by_human'', step_result := Some text\<rparr>) (task_steps db)\<rparr>)"
    by (auto simp: resolve_def txn_Inr Let_def split: if_splits option.splits)
  from r(4) obtain kvs ms where o: "jt_doc (checkpoint_doc r) = JObj kvs"
    and m: "map_of kvs ''messages'' = Some (JArr ms)"
    and d: "d = jset (jset (JObj kvs) ''messages'' (JArr (ms @ [tool_message (JStr call) text])))
        ''human_resolution'' (JObj [(''tool_call_id'', JStr call), (''result'', JStr text)])"
    by (auto simp: resolved_doc_def append_message_Inr)
  show ?thesis
    using r o m d step db'
    by (auto simp: set_task_def update_key_lookup row_where_iff update_conv)
qed

section \<open>Storage stays within its limit\<close>

lemma step_json_covers_row:
  assumes "\<forall>x. si_result s = Some x \<longrightarrow> plain_ascii x"
  shows "step_bytes k (step_to_row s) \<le> json_bytes True False (step_json s)"
    and "opt_bytes (si_result s) \<le> json_bytes True False (step_json s)"
proof -
  have r: "opt_bytes (si_result s) \<le> (case si_result s of None \<Rightarrow> 0
      | Some x \<Rightarrow> length (dumps True False (JStr x)))"
    using assms escape_text_ge [of _ True]
    by (auto simp: byte_len_def dump_string_def le_SucI split: option.splits)
  have "length (dumps True False (si_arguments s))
      + length (dumps True False (case si_dependencies s of None \<Rightarrow> JArr [] | Some d \<Rightarrow> d))
      + opt_bytes (si_result s) \<le> json_bytes True False (step_json s)"
    unfolding json_bytes_def byte_len_def [of "dumps _ _ _"] step_json_def
    by (rule order_trans [OF _ dumps_object_ge])
      (use r in \<open>auto simp: dump_string_def split: option.splits\<close>)
  then show "step_bytes k (step_to_row s) \<le> json_bytes True False (step_json s)"
    and "opt_bytes (si_result s) \<le> json_bytes True False (step_json s)"
    by (auto simp: step_bytes_def step_to_row_def jtext_bytes_def json_bytes_def byte_len_def)
qed

text \<open>
  Every operation but the two cancellations checks the capacity before it grows a row; a
  checkpoint with a step charges the step's serialization, which covers the stored columns when
  the result text is ASCII.
\<close>

fun growth_checked :: "task_op \<Rightarrow> bool" where
  "growth_checked (TCheckpoint ow k w ph d st) \<longleftrightarrow> (case st of None \<Rightarrow> True
     | Some s \<Rightarrow> (case si_result s of None \<Rightarrow> True | Some x \<Rightarrow> plain_ascii x))"
| "growth_checked (TCancel ow k) \<longleftrightarrow> False"
| "growth_checked (TCancelSession ow) \<longleftrightarrow> False"
| "growth_checked _ \<longleftrightarrow> True"

abbreviation bounded :: "env \<Rightarrow> task_db \<Rightarrow> bool" where
  "bounded e db \<equiv> int (used_bytes db) \<le> task_storage_bytes e"

text \<open>Updating a task row moves the used bytes by that row's difference.\<close>

lemma used_bytes_update:
  assumes "map_of (tasks db) key = Some r" and "c r"
    and "tasks db' = update_key key c f (tasks db)"
  shows "used_bytes db' + task_bytes key r + column_sum step_bytes (task_steps db)
       + column_sum workspace_bytes (task_workspaces db)
     = used_bytes db + task_bytes key (f r) + column_sum step_bytes (task_steps db')
       + column_sum workspace_bytes (task_workspaces db')"
  using column_sum_update_key [where g = task_bytes and f = f and c = c, OF assms(1,2)] assms(3)
  by (simp add: used_bytes_def)

lemma used_bytes_shrinks:
  assumes "\<And>r. map_of (tasks db) key = Some r \<Longrightarrow> c r \<Longrightarrow> task_bytes key (f r) \<le> task_bytes key r"
    and "tasks db' = update_key key c f (tasks db)"
    and "task_steps db' = task_steps db" and "task_workspaces db' = task_workspaces db"
  shows "used_bytes db' \<le> used_bytes db"
proof (cases "row_where key c (tasks db)")
  case True
  then obtain r where "map_of (tasks db) key = Some r" "c r" by (auto simp: row_where_iff)
  with used_bytes_update [OF this assms(2)] assms(1,3,4) show ?thesis by fastforce
next
  case False
  with assms(2-4) show ?thesis by (simp add: used_bytes_def update_key_no_match)
qed

lemma bounded_renew: "bounded e db \<Longrightarrow> bounded e (snd (renew e ow k w db))"
proof -
  have "used_bytes (snd (renew e ow k w db)) \<le> used_bytes db"
    by (rule used_bytes_shrinks [where key = "(ow, k)" and f = "\<lambda>r. r\<lparr>lease_until := Some (now e + 180)\<rparr>"
        and c = "\<lambda>r. holds_lease (now e) w r \<and> tstate r = Running"])
      (simp_all add: renew_def Let_def task_bytes_def)
  then show "bounded e db \<Longrightarrow> ?thesis" by linarith
qed

lemma bounded_mark: "bounded e db \<Longrightarrow> bounded e (mark_uncertain e ow k db)"
proof -
  have "used_bytes (mark_uncertain e ow k db) \<le> used_bytes db"
    by (rule used_bytes_shrinks [where key = "(ow, k)"
        and f = "\<lambda>r. r\<lparr>tstate := Uncertain, lease_owner := None, lease_until := None\<rparr>"
        and c = "\<lambda>r. tstate r = Running \<and> (case lease_until r of None \<Rightarrow> False | Some u \<Rightarrow> u \<le> now e)"])
      (simp_all add: mark_uncertain_def task_bytes_def)
  then show "bounded e db \<Longrightarrow> ?thesis" by linarith
qed

lemma bounded_set_task:
  assumes "map_of (tasks db) key = Some r" and "task_bytes key (f r) \<le> task_bytes key r" and "bounded e db"
  shows "bounded e (set_task key f db)"
  using used_bytes_shrinks [where db' = "set_task key f db" and db = db and key = key and f = f
      and c = "\<lambda>_. True"] assms
  by (force simp: set_task_def)

lemma bounded_claim: "bounded e db \<Longrightarrow> bounded e (snd (claim e ow k g ms ep crit w db))"
proof (cases "map_of (tasks db) (ow, k)")
  case (Some r)
  assume b: "bounded e db"
  have "bounded e (snd (claim_existing e db ow k r w))"
    using b bounded_set_task [OF Some, where f = "\<lambda>r. r\<lparr>tstate := Uncertain\<rparr>" and e = e]
      bounded_set_task [OF Some, where f = "lease_row e w (tstate r = Running \<or> reply r \<noteq> None)" and e = e]
    by (simp add: claim_existing_def task_bytes_def lease_row_def)
  then show ?thesis using b Some by (auto simp: claim_def split: sum.splits)
next
  case None
  assume b: "bounded e db"
  show ?thesis
  proof (cases "claim_new e db ow k g ms ep crit w")
    case (Inl x)
    with None b show ?thesis by (auto simp: claim_def split: sum.splits)
  next
    case (Inr y)
    obtain x d where y: "y = (x, d)" by (cases y)
    from Inr y have "bounded e d"
      by (auto simp: claim_new_def Let_def capacity_Inr used_bytes_def task_bytes_def new_row_def lease_row_def)
    with None b Inr y show ?thesis by (auto simp: claim_def split: sum.splits)
  qed
qed

lemma bounded_bind: "bounded e db \<Longrightarrow> bounded e (snd (bind_workspace e ow k w repo st db))"
  by (auto simp: bind_workspace_def txn_snd capacity_Inr used_bytes_def insert_or_ignore_def
      workspace_bytes_def split: sum.splits option.splits if_splits)

lemma bounded_checkpoint:
  assumes "bounded e db" and "growth_checked (TCheckpoint ow k w ph d st)"
  shows "bounded e (snd (checkpoint e ow k w ph d st db))"
proof (cases "fst (checkpoint e ow k w ph d st db)")
  case (Inl x)
  then show ?thesis using assms(1)
    by (cases "checkpoint e ow k w ph d st db") (auto simp: checkpoint_def Let_def txn_Inl split: if_splits)
next
  case (Inr u)
  let ?c = "\<lambda>r. holds_lease (now e) w r \<and> tstate r = Running"
  let ?f = "\<lambda>r. r\<lparr>phase := ph, checkpoint_doc := JText False False d, updated := now e\<rparr>"
  let ?x = "\<lambda>s. int (json_bytes True False (step_json s))"
  obtain db' where cp: "checkpoint e ow k w ph d st db = (Inr u, db')"
    using Inr by (cases "checkpoint e ow k w ph d st db") auto
  then obtain r where r: "map_of (tasks db) (ow, k) = Some r" "?c r"
    and db': "db' = put_step ow k st (db\<lparr>tasks := update_key (ow, k) ?c ?f (tasks db)\<rparr>)"
    and cap: "int (used_bytes db) + (int (jtext_bytes (JText False False d))
      - int (jtext_bytes (checkpoint_doc r)) + (case st of None \<Rightarrow> 0 | Some s \<Rightarrow> ?x s)) \<le> task_storage_bytes e"
    by (auto simp: checkpoint_def Let_def txn_Inr capacity_Inr row_where_iff split: if_splits)
  have t: "tasks db' = update_key (ow, k) ?c ?f (tasks db)" using db' by simp
  have s: "int (column_sum step_bytes (task_steps db'))
      \<le> int (column_sum step_bytes (task_steps db)) + (case st of None \<Rightarrow> 0 | Some s \<Rightarrow> ?x s)"
  proof (cases st)
    case (Some s)
    then have pl: "\<forall>x. si_result s = Some x \<longrightarrow> plain_ascii x" using assms(2) by auto
    show ?thesis
      using column_sum_upsert [of step_bytes "(ow, k, si_id s)" "step_to_row s"
          "\<lambda>r. r\<lparr>step_state := si_state s, step_result := si_result s\<rparr>" "task_steps db"]
        step_json_covers_row(1) [OF pl, of "(ow, k, si_id s)"] step_json_covers_row(2) [OF pl] Some db'
      by (auto simp: put_step_def step_bytes_def split: option.splits)
  qed (simp add: db' put_step_def)
  have w: "task_workspaces db' = task_workspaces db" using db' by (simp add: put_step_def split: option.splits)
  show ?thesis
    using used_bytes_update [where c = ?c, OF r t] cap s w cp by (simp add: task_bytes_def)
qed

lemma bounded_finish: "bounded e db \<Longrightarrow> bounded e (snd (finish e ow k w st rep db))"
proof (cases "finish e ow k w st rep db")
  case (Pair a db')
  assume b: "bounded e db"
  show ?thesis
  proof (cases a)
    case Inl
    with Pair b show ?thesis by (simp add: finish_def txn_Inl)
  next
    case (Inr u)
    with Pair obtain r q where r: "map_of (tasks db) (ow, k) = Some r" "holds_lease (now e) w r"
      and cap: "int (used_bytes db) + (int (opt_bytes rep) - int (opt_bytes (reply r))) \<le> task_storage_bytes e"
      and db': "db' = db\<lparr>tasks := update_key (ow, k) (holds_lease (now e) w) (\<lambda>r. r\<lparr>tstate := st,
        reply := rep, verification := q, lease_owner := None, lease_until := None, updated := now e\<rparr>) (tasks db)\<rparr>"
      by (auto simp: finish_def Let_def txn_Inr row_where_iff capacity_Inr)
    then have "tasks db' = update_key (ow, k) (holds_lease (now e) w) (\<lambda>r. r\<lparr>tstate := st,
        reply := rep, verification := q, lease_owner := None, lease_until := None, updated := now e\<rparr>) (tasks db)"
      by simp
    from used_bytes_update [where c = "holds_lease (now e) w", OF r this] cap db' Pair
    show ?thesis by (simp add: task_bytes_def)
  qed
qed

lemma bounded_answer: "bounded e db \<Longrightarrow> bounded e (snd (answer e ow k text db))"
proof (cases "answer e ow k text db")
  case (Pair a db')
  assume b: "bounded e db"
  show ?thesis
  proof (cases a)
    case Inl
    with Pair b show ?thesis by (auto simp: answer_def txn_Inl split: if_splits)
  next
    case (Inr u)
    let ?f = "\<lambda>d r. r\<lparr>tstate := Pending, phase := ''tool_done'',
         checkpoint_doc := JText True False d, reply := None, updated := now e\<rparr>"
    from Inr Pair obtain r d where r: "map_of (tasks db) (ow, k) = Some r"
      and db': "db' = set_task (ow, k) (?f d) db"
      and cap: "int (used_bytes db) + (int (jtext_bytes (JText True False d))
        - int (jtext_bytes (checkpoint_doc r))) \<le> task_storage_bytes e"
      by (auto simp: answer_def txn_Inr Let_def capacity_Inr split: if_splits option.splits)
    then have "tasks db' = update_key (ow, k) (\<lambda>_. True) (?f d) (tasks db)" by (simp add: set_task_def)
    from used_bytes_update [where c = "\<lambda>_. True", OF r TrueI this] cap db' Pair
    show ?thesis by (simp add: task_bytes_def set_task_def)
  qed
qed

lemma bounded_resolve: "bounded e db \<Longrightarrow> bounded e (snd (resolve e ow k call text db))"
proof (cases "resolve e ow k call text db")
  case (Pair a db')
  assume b: "bounded e db"
  show ?thesis
  proof (cases a)
    case Inl
    with Pair b show ?thesis by (auto simp: resolve_def txn_Inl split: if_splits)
  next
    case (Inr u)
    let ?f = "\<lambda>d r. r\<lparr>tstate := Pending, phase := ''tool_done'', checkpoint_doc := JText True False d,
         lease_owner := None, lease_until := None, updated := now e\<rparr>"
    let ?g = "\<lambda>s. s\<lparr>step_state := ''resolved_by_human'', step_result := Some text\<rparr>"
    from Inr Pair obtain r d s where r: "map_of (tasks db) (ow, k) = Some r"
      and s: "map_of (task_steps db) (ow, k, call) = Some s"
      and db': "db' = set_task (ow, k) (?f d)
        (db\<lparr>task_steps := update_key (ow, k, call) (\<lambda>_. True) ?g (task_steps db)\<rparr>)"
      and cap: "int (used_bytes db) + (int (jtext_bytes (JText True False d))
        - int (jtext_bytes (checkpoint_doc r)) + int (byte_len text)) \<le> task_storage_bytes e"
      by (auto simp: resolve_def txn_Inr Let_def capacity_Inr row_where_iff split: if_splits option.splits)
    then have t: "tasks db' = update_key (ow, k) (\<lambda>_. True) (?f d) (tasks db)" by (simp add: set_task_def)
    have "column_sum step_bytes (task_steps db') \<le> column_sum step_bytes (task_steps db) + byte_len text"
      using column_sum_update_key [where g = step_bytes and c = "\<lambda>_. True" and f = ?g, OF s TrueI] db'
      by (simp add: set_task_def step_bytes_def)
    with used_bytes_update [where c = "\<lambda>_. True", OF r TrueI t] cap db' Pair
    show ?thesis by (simp add: task_bytes_def set_task_def)
  qed
qed

text \<open>
  Task storage never outgrows \<open>AGENT_TASK_STORAGE_BYTES\<close> through a worker.  If the bytes the
  task tables use are within the limit, they are still within it after any claim, renewal,
  workspace binding, checkpoint, finish, human answer, human resolution or uncertainty mark,
  whether it succeeds or raises (cancellations, which only write a fixed reply, are not charged
  by the code; a step result is taken to be ASCII text).
\<close>

theorem storage_stays_within_limit:
  assumes "bounded e db" and "growth_checked op"
  shows "bounded e (task_exec e op db)"
  using assms
  by (cases op) (simp_all only: task_exec.simps bounded_claim bounded_renew bounded_bind
      bounded_checkpoint bounded_finish bounded_answer bounded_resolve bounded_mark growth_checked.simps)

section \<open>Witnesses\<close>

definition demo_env :: env where
  "demo_env = \<lparr>now = 100, activity = None, task_limit = 10, task_storage_bytes = 100000\<rparr>"

definition demo_row :: "task_state \<Rightarrow> pystr \<Rightarrow> json \<Rightarrow> task_row" where
  "demo_row st ph doc = \<lparr>goal = ''g'', criteria = JText True False (JObj [(''checks'', JArr [JInt 1])]),
     tstate = st, phase = ph, checkpoint_doc = JText True False doc, episode = None, reply = None,
     lease_owner = (if st = Running then Some ''w1'' else None),
     lease_until = (if st = Running then Some 150 else None),
     attempts = 1, recoveries = 0, verification = ''unverified'', updated = 90\<rparr>"

definition demo_db :: "task_row \<Rightarrow> task_db" where
  "demo_db r = empty_db\<lparr>tasks := [((''o'', ''k''), r)]\<rparr>"

lemmas demo = demo_env_def demo_row_def demo_db_def empty_db_def

lemma demo_guards: "assert_owner_active (demo_db r) ow = Inr ()" "assert_claim_backend e (demo_db r) ow k = Inr ()"
  by (simp_all add: demo_db_def empty_db_def owner_blocked_def assert_claim_backend_def assert_not_erased_def)

lemma demo_len: "py_len ''k'' = 1"
  by (simp add: py_len_def continuation_byte_def)

theorem terminal_task_is_final_witness:
  "map_of (tasks (run_ops task_step [(200, demo_env, TFinish ''o'' ''k'' ''w1'' Failed None)]
     (demo_db (demo_row Cancelled ''model_done'' (JObj []))))) (''o'', ''k'')
   = Some (demo_row Cancelled ''model_done'' (JObj []))"
  by (rule terminal_task_is_final) (simp_all add: all_rows_def demo task_row_ok_def)


theorem claim_is_safe_witness:
  "claim demo_env ''o'' ''k'' ''g'' (JArr []) None JNull ''w2'' (demo_db (demo_row Pending ''model_pending'' (JObj [])))
     = (Inr (Some ''w2''), set_task (''o'', ''k'') (lease_row demo_env ''w2'' False)
         (demo_db (demo_row Pending ''model_pending'' (JObj []))))
   \<and> \<not> owner_blocked (demo_db (demo_row Pending ''model_pending'' (JObj []))) ''o''"
proof -
  let ?db = "demo_db (demo_row Pending ''model_pending'' (JObj []))"
  have "claim demo_env ''o'' ''k'' ''g'' (JArr []) None JNull ''w2'' ?db
     = (Inr (Some ''w2''), set_task (''o'', ''k'') (lease_row demo_env ''w2'' False) ?db)"
    unfolding claim_def demo_guards
    by (simp add: demo_len claim_existing_def demo_db_def demo_row_def uncertain_phase_def)
  with claim_is_safe [OF this] show ?thesis by simp
qed

theorem stale_worker_is_harmless_witness:
  "run_ops task_step [(200, demo_env, TRenew ''o'' ''k'' ''w1''), (201, demo_env, TCancel ''o'' ''k'')]
     (demo_db (demo_row Running ''model_pending'' (JObj [])))
   = run_ops task_step [(201, demo_env, TCancel ''o'' ''k'')] (demo_db (demo_row Running ''model_pending'' (JObj [])))"
  using stale_worker_is_harmless [where t = 200 and key = "(''o'', ''k'')" and w = "''w1''"
    and db = "demo_db (demo_row Running ''model_pending'' (JObj []))"
    and tr = "[(200, demo_env, TRenew ''o'' ''k'' ''w1''), (201, demo_env, TCancel ''o'' ''k'')]"]
  by (simp add: task_holds_def demo row_where_iff holds_lease_def)

theorem one_worker_per_task_witness:
  "\<not> task_holds (task_step 120 (demo_env, TClaim ''o'' ''k'' ''g'' (JArr []) None JNull ''w2'')
      (demo_db (demo_row Running ''model_pending'' (JObj [])))) 120 (''o'', ''k'') ''w2''"
  by (rule conjunct1 [OF one_worker_per_task [where w = "''w1''"]])
    (simp_all add: task_holds_def demo row_where_iff holds_lease_def)

theorem storage_stays_within_limit_witness:
  "bounded demo_env (task_exec demo_env (TClaim ''o'' ''k'' ''g'' (JArr []) None JNull ''w1'') empty_db)"
  by (rule storage_stays_within_limit) (simp_all add: demo used_bytes_def)


definition demo_verified :: json where
  "demo_verified = JObj [(''evaluation'', JObj [(''verified'', JBool True), (''evidence'', JArr [JInt 1])])]"

lemmas demo_bytes = used_bytes_def task_bytes_def jtext_bytes_def json_bytes_def byte_len_def
  dump_string_def escape_ascii_def quote_def backslash_def item_sep_def key_sep_def
  show_int_def show_nat.simps digit_char_def

lemma bind_ignores_expiry:
  "row_where (''o'', ''k'') (holds_lease 200 ''w1'') (tasks (demo_db (demo_row Running ''model_pending'' (JObj [])))) = False"
  "fst (bind_workspace (demo_env\<lparr>now := 200\<rparr>) ''o'' ''k'' ''w1'' ''/r'' ''/s'' (demo_db (demo_row Running ''model_pending'' (JObj [])))) = Inr ()"
  subgoal by (simp add: demo row_where_iff holds_lease_def)
  subgoal by (simp add: bind_workspace_def demo_guards)
    (simp add: demo row_where_iff capacity_def positive_limit_def demo_bytes guard_def insert_or_ignore_def)
  done

theorem verified_completion_has_evidence_witness:
  "\<exists>db'. finish demo_env ''o'' ''k'' ''w1'' Completed None (demo_db (demo_row Running ''model_done'' demo_verified))
      = (Inr (), db')
    \<and> (\<exists>ev. stored_evaluation demo_verified = Inr ev \<and> jget ev ''verified'' = JBool True
          \<and> jtruth (jget ev ''evidence''))"
proof -
  let ?db = "demo_db (demo_row Running ''model_done'' demo_verified)"
  have q: "finish_quality Completed demo_verified (JObj [(''checks'', JArr [JInt 1])]) = Inr ''verified_completed''"
    by (simp add: finish_quality_def stored_evaluation_def demo_verified_def jor_def)
  obtain db' where f: "finish demo_env ''o'' ''k'' ''w1'' Completed None ?db = (Inr (), db')"
    and r: "\<exists>r'. map_of (tasks db') (''o'', ''k'') = Some r' \<and> verification r' = ''verified_completed''"
    unfolding finish_def demo_guards
    by (simp add: demo row_where_iff holds_lease_def capacity_def positive_limit_def demo_bytes q
        update_key_lookup) (simp add: demo_verified_def demo_bytes update_key_lookup holds_lease_def)
  from r obtain r' where "map_of (tasks db') (''o'', ''k'') = Some r'" "verification r' = ''verified_completed''"
    by blast
  from verified_completion_has_evidence [OF f this] f show ?thesis
    by (auto simp: demo_db_def demo_row_def)
qed

definition demo_sub :: submission where
  "demo_sub = \<lparr>sub_owner = ''o'', sub_task = ''k'', sub_workflow = ''w'', sub_digest = ''d'',
     sub_input = JText False True (JArr []),
     sub_context = JText False True (JObj []), sub_role = ''admin'', sub_address = ''a'',
     sub_namespace = ''n'', sub_queue = ''q'', sub_state = SRunning, sub_fence = Some ''f'',
     sub_result = None, sub_attempts = 1, sub_error = None, sub_updated = 90\<rparr>"

definition demo_temporal :: task_db where
  "demo_temporal = (demo_db (demo_row Pending ''temporal_pending'' (JObj [])))
     \<lparr>submissions := [(''s'', demo_sub)], cancellations := Some []\<rparr>"

theorem cancel_fences_execution_witness:
  "\<exists>db'. cancel demo_env ''o'' ''k'' demo_temporal = (Inr True, db') \<and> sub_fenced db' ''s''"
proof -
  obtain db' where c: "cancel demo_env ''o'' ''k'' demo_temporal = (Inr True, db')"
    by (simp add: cancel_def demo_temporal_def demo row_where_iff request_def cancel_rows_def select_where_def
        cancel_submission_def fence_operations_def final_intent_def binding_def demo_sub_def jget_def
        cancellable_def update_key_lookup cancelled_row_def Let_def)
  have r: "map_of (tasks demo_temporal) (''o'', ''k'') = Some (demo_row Pending ''temporal_pending'' (JObj []))"
    by (simp add: demo_temporal_def demo_db_def)
  have "map_of (submissions demo_temporal) ''s'' = Some demo_sub" "cancellations demo_temporal \<noteq> None"
    by (simp_all add: demo_temporal_def)
  with cancel_fences_execution [OF c r] have "sub_fenced db' ''s''"
    by (auto simp: demo_sub_def cancellable_def)
  with c show ?thesis by blast
qed

theorem resolution_appends_observation_witness:
  "\<exists>db'. resolve demo_env ''o'' ''k'' ''c1'' ''done'' ((demo_db (demo_row Uncertain ''tool_started'' (JObj [(''messages'', JArr [])])))
      \<lparr>task_steps := [((''o'', ''k'', ''c1''), \<lparr>step_name = ''write_file'', step_input = JText True False (JObj []),
         step_dependencies = JText True False (JArr []), step_state = ''running'', step_result = None\<rparr>)]\<rparr>) = (Inr (), db')
    \<and> (\<exists>r'. map_of (tasks db') (''o'', ''k'') = Some r' \<and> phase r' = ''tool_done'')"
proof -
  let ?db = "(demo_db (demo_row Uncertain ''tool_started'' (JObj [(''messages'', JArr [])])))
      \<lparr>task_steps := [((''o'', ''k'', ''c1''), \<lparr>step_name = ''write_file'', step_input = JText True False (JObj []),
         step_dependencies = JText True False (JArr []), step_state = ''running'', step_result = None\<rparr>)]\<rparr>"
  have g: "assert_claim_backend demo_env ?db ''o'' ''k'' = Inr ()"
    by (simp add: demo assert_claim_backend_def assert_not_erased_def)
  obtain db' where f: "resolve demo_env ''o'' ''k'' ''c1'' ''done'' ?db = (Inr (), db')"
    unfolding resolve_def g
    by (simp add: demo row_where_iff resolved_doc_def append_message_def py_index_def tool_message_def
        capacity_def positive_limit_def demo_bytes step_bytes_def)
  from resolution_appends_observation [OF f] f show ?thesis by auto
qed

end
