(* ===== verification/PyText.thy ===== *)
theory PyText
  imports Json
begin

text \<open>
  The string operations of Python's standard library that the components use beyond
  \<^theory_text>\<open>Prelude\<close>: splitting, partitioning, ASCII lower case, hexadecimal tokens, the numbers a
  JSON literal denotes.
\<close>

section \<open>Splitting\<close>

text \<open>\<open>s.partition(c)\<close> for a one-byte separator: head, whether it was found, tail.\<close>

fun py_partition :: "char \<Rightarrow> pystr \<Rightarrow> pystr \<times> bool \<times> pystr" where
  "py_partition c [] = ([], False, [])"
| "py_partition c (x # xs) = (if x = c then ([], True, xs)
     else let (h, f, t) = py_partition c xs in (x # h, f, t))"

text \<open>\<open>s.split(c)\<close>; the result is never empty.\<close>

fun py_split :: "char \<Rightarrow> pystr \<Rightarrow> pystr list" where
  "py_split c [] = [[]]"
| "py_split c (x # xs) = (if x = c then [] # py_split c xs
     else case py_split c xs of [] \<Rightarrow> [[x]] | w # ws \<Rightarrow> (x # w) # ws)"

lemma py_split_nonempty: "py_split c s \<noteq> []"
  by (induction c s rule: py_split.induct) (auto split: list.splits)

lemma py_partition_spec:
  "py_partition c s = (h, f, t) \<Longrightarrow> c \<notin> set h \<and> s = (if f then h @ c # t else h) \<and> (\<not> f \<longrightarrow> t = [])"
  by (induction c s arbitrary: h f t rule: py_partition.induct) (auto split: if_splits prod.splits)

text \<open>\<open>s.split()\<close>: words separated by runs of white space.\<close>

fun py_words :: "nat \<Rightarrow> pystr \<Rightarrow> pystr \<Rightarrow> pystr list" where
  "py_words 0 acc s = (if acc = [] then [] else [rev acc])"
| "py_words (Suc n) acc [] = (if acc = [] then [] else [rev acc])"
| "py_words (Suc n) acc (c # cs) = (case find (\<lambda>p. is_prefix_of p (c # cs)) space_codes of
     None \<Rightarrow> py_words n (c # acc) cs
   | Some p \<Rightarrow> (if acc = [] then [] else [rev acc]) @ py_words n [] (drop (length p) (c # cs)))"

definition py_split_ws :: "pystr \<Rightarrow> pystr list" where
  "py_split_ws s = py_words (length s) [] s"

section \<open>Case and membership\<close>

definition ascii_lower :: "char \<Rightarrow> char" where
  "ascii_lower c = (let n = of_char c :: nat in if 65 \<le> n \<and> n \<le> 90 then char_of (n + 32) else c)"

definition py_starts :: "pystr \<Rightarrow> pystr \<Rightarrow> bool" where
  "py_starts s p \<longleftrightarrow> is_prefix_of p s"

definition py_ends :: "pystr \<Rightarrow> pystr \<Rightarrow> bool" where
  "py_ends s p \<longleftrightarrow> is_prefix_of (rev p) (rev s)"

definition is_digit :: "char \<Rightarrow> bool" where
  "is_digit c \<longleftrightarrow> 48 \<le> (of_char c :: nat) \<and> (of_char c :: nat) \<le> 57"

text \<open>\<open>re.fullmatch('[a-f0-9]{n}', s)\<close>.\<close>

definition lower_hex :: "char \<Rightarrow> bool" where
  "lower_hex c \<longleftrightarrow> is_digit c \<or> (97 \<le> (of_char c :: nat) \<and> (of_char c :: nat) \<le> 102)"

definition hex_text :: "nat \<Rightarrow> pystr \<Rightarrow> bool" where
  "hex_text n s \<longleftrightarrow> length s = n \<and> list_all lower_hex s"

lemma hex_text_length: "hex_text n s \<Longrightarrow> length s = n"
  by (simp add: hex_text_def)

section \<open>Types of a JSON value\<close>

definition is_str :: "json \<Rightarrow> bool" where
  "is_str v \<longleftrightarrow> (case v of JStr _ \<Rightarrow> True | _ \<Rightarrow> False)"

definition is_dict :: "json \<Rightarrow> bool" where
  "is_dict v \<longleftrightarrow> (case v of JObj _ \<Rightarrow> True | _ \<Rightarrow> False)"

definition is_list :: "json \<Rightarrow> bool" where
  "is_list v \<longleftrightarrow> (case v of JArr _ \<Rightarrow> True | _ \<Rightarrow> False)"

text \<open>\<open>type(v) is int\<close>: a Boolean is not one.\<close>

definition is_int :: "json \<Rightarrow> bool" where
  "is_int v \<longleftrightarrow> (case v of JInt _ \<Rightarrow> True | _ \<Rightarrow> False)"

definition jitems :: "json \<Rightarrow> json list" where
  "jitems v = (case v of JArr xs \<Rightarrow> xs | _ \<Rightarrow> [])"

definition jpairs :: "json \<Rightarrow> (pystr \<times> json) list" where
  "jpairs v = (case v of JObj kvs \<Rightarrow> kvs | _ \<Rightarrow> [])"

definition jtext_of :: "json \<Rightarrow> pystr" where
  "jtext_of v = (case v of JStr s \<Rightarrow> s | _ \<Rightarrow> [])"

definition jint_of :: "json \<Rightarrow> int" where
  "jint_of v = (case v of JInt i \<Rightarrow> i | _ \<Rightarrow> 0)"

text \<open>\<open>set(v) == {...}\<close> for a dictionary.\<close>

definition has_keys :: "json \<Rightarrow> pystr list \<Rightarrow> bool" where
  "has_keys v ks \<longleftrightarrow> (case v of
     JObj kvs \<Rightarrow> list_all (\<lambda>k. k \<in> set ks) (map fst kvs) \<and> list_all (\<lambda>k. k \<in> set (map fst kvs)) ks
   | _ \<Rightarrow> False)"

lemma has_keys_field: "has_keys v ks \<Longrightarrow> k \<in> set ks \<Longrightarrow> \<exists>x. jfield v k = Some x"
  by (cases v) (auto simp: has_keys_def list_all_iff map_of_eq_None_iff [symmetric] weak_map_of_SomeI)

lemma is_simps [simp]:
  "is_str (JStr s)" "is_dict (JObj kvs)" "is_list (JArr xs)" "is_int (JInt i)"
  "jitems (JArr xs) = xs" "jtext_of (JStr s) = s" "jint_of (JInt i) = i" "jpairs (JObj kvs) = kvs"
  by (simp_all add: is_str_def is_dict_def is_list_def is_int_def jitems_def jtext_of_def jint_of_def
      jpairs_def)

lemma is_str_iff: "is_str v \<longleftrightarrow> (\<exists>s. v = JStr s)"
  by (cases v) (simp_all add: is_str_def)

lemma is_dict_iff: "is_dict v \<longleftrightarrow> (\<exists>kvs. v = JObj kvs)"
  by (cases v) (simp_all add: is_dict_def)

lemma is_list_iff: "is_list v \<longleftrightarrow> (\<exists>xs. v = JArr xs)"
  by (cases v) (simp_all add: is_list_def)

lemma is_int_iff: "is_int v \<longleftrightarrow> (\<exists>i. v = JInt i)"
  by (cases v) (simp_all add: is_int_def)

section \<open>The number a literal denotes\<close>

definition digit_value :: "char \<Rightarrow> int" where
  "digit_value c = int (of_char c :: nat) - 48"

fun digits_value :: "int \<Rightarrow> pystr \<Rightarrow> int" where
  "digits_value acc [] = acc"
| "digits_value acc (c # cs) = digits_value (acc * 10 + digit_value c) cs"

text \<open>\<open>repr\<close> of a finite float: sign, digits, fraction, exponent; \<open>None\<close> for NaN and infinities.\<close>

definition unsigned_literal :: "pystr \<Rightarrow> real option" where
  "unsigned_literal s = (let (m, has_e, ex) = py_partition (CHR ''e'') s;
      (ip, _, fp) = py_partition (CHR ''.'') m;
      neg = (case ex of c # _ \<Rightarrow> c = CHR ''-'' | [] \<Rightarrow> False);
      ed = (case ex of c # cs \<Rightarrow> if c = CHR ''-'' \<or> c = CHR ''+'' then cs else ex | [] \<Rightarrow> []);
      scale = 10 ^ nat (digits_value 0 ed)
    in if ip \<noteq> [] \<and> list_all is_digit ip \<and> list_all is_digit fp \<and> list_all is_digit ed
          \<and> (has_e \<longleftrightarrow> ed \<noteq> [])
       then let base = real_of_int (digits_value 0 (ip @ fp)) / 10 ^ length fp
            in Some (if neg then base / scale else base * scale)
       else None)"

definition float_value :: "pystr \<Rightarrow> real option" where
  "float_value s = (case s of [] \<Rightarrow> None
     | c # cs \<Rightarrow> if c = CHR ''-'' then map_option uminus (unsigned_literal cs) else unsigned_literal s)"

text \<open>\<open>type(v) in {int, float} and math.isfinite(v)\<close>, with the value.\<close>

definition finite_number :: "json \<Rightarrow> real option" where
  "finite_number v = (case v of JInt i \<Rightarrow> Some (real_of_int i) | JFloat s \<Rightarrow> float_value s | _ \<Rightarrow> None)"

lemma finite_number_int [simp]: "finite_number (JInt i) = Some (real_of_int i)"
  by (simp add: finite_number_def)

end
