(* ===== verification/Permissions.thy ===== *)
theory Permissions
  imports PyText
begin

text \<open>
  \<open>permissions.py\<close>: the role of a remote identity and the tools a role may call, with the
  narrowing that \<open>temporal_backend/operations.py\<close> applies before every ledger operation.
  A role is the string the code stores; the three it knows are constructors, so that roles
  can be ordered by authority.
\<close>

datatype role = OtherRole pystr | Viewer | Operator | Admin

definition role_name :: "role \<Rightarrow> pystr" where
  "role_name r = (case r of Viewer \<Rightarrow> ''viewer'' | Operator \<Rightarrow> ''operator'' | Admin \<Rightarrow> ''admin''
     | OtherRole s \<Rightarrow> s)"

definition known_role :: "pystr \<Rightarrow> role option" where
  "known_role s = (if s = ''viewer'' then Some Viewer else if s = ''operator'' then Some Operator
     else if s = ''admin'' then Some Admin else None)"

section \<open>Roles ordered by authority\<close>

text \<open>\<open>levels.get(value, -1)\<close>.\<close>

definition role_level :: "role \<Rightarrow> int" where
  "role_level r = (case r of OtherRole _ \<Rightarrow> -1 | Viewer \<Rightarrow> 0 | Operator \<Rightarrow> 1 | Admin \<Rightarrow> 2)"

instantiation role :: linorder
begin

definition less_eq_role :: "role \<Rightarrow> role \<Rightarrow> bool" where
  "less_eq_role a b \<longleftrightarrow> role_level a < role_level b
     \<or> (role_level a = role_level b \<and> role_name a \<le> role_name b)"

definition less_role :: "role \<Rightarrow> role \<Rightarrow> bool" where
  "less_role a b \<longleftrightarrow> a \<le> b \<and> \<not> b \<le> (a::role)"

instance
proof
  fix x y z :: role
  show "x < y \<longleftrightarrow> x \<le> y \<and> \<not> y \<le> x" by (rule less_role_def)
  show "x \<le> x" by (simp add: less_eq_role_def)
  show "x \<le> y \<Longrightarrow> y \<le> z \<Longrightarrow> x \<le> z" by (auto simp: less_eq_role_def)
  show "x \<le> y \<Longrightarrow> y \<le> x \<Longrightarrow> x = y"
    by (cases x; cases y) (auto simp: less_eq_role_def role_level_def role_name_def)
  show "x \<le> y \<or> y \<le> x" by (auto simp: less_eq_role_def)
qed

end

text \<open>\<open>min((role, get_user_role(identity)), key=...)\<close>: the first of equal levels.\<close>

definition narrow_role :: "role \<Rightarrow> role \<Rightarrow> role" where
  "narrow_role a b = (if role_level a \<le> role_level b then a else b)"

section \<open>The role of an identity\<close>

text \<open>
  \<open>ROLES_CONFIG\<close>: absent, unreadable or not JSON, or the decoded file.  \<open>COMM_ADMIN_SENDERS\<close>
  is the raw variable.  An unhashable or unknown role in the file is a viewer too.
\<close>

datatype roles_config = NoRolesFile | BadRolesFile | RolesFile json

definition role_of_file :: "json \<Rightarrow> pystr \<Rightarrow> role" where
  "role_of_file roles sender = (case py_get roles sender (JStr ''viewer'') of
     Inr (JStr s) \<Rightarrow> (case known_role s of Some r \<Rightarrow> r | None \<Rightarrow> Viewer)
   | _ \<Rightarrow> Viewer)"

definition admin_senders :: "pystr \<Rightarrow> pystr list" where
  "admin_senders raw = filter (\<lambda>e. e \<noteq> []) (map py_strip (py_split (CHR '','') raw))"

definition get_user_role :: "roles_config \<Rightarrow> pystr \<Rightarrow> pystr \<Rightarrow> role" where
  "get_user_role cfg admins sender = (case cfg of
     BadRolesFile \<Rightarrow> Viewer
   | RolesFile roles \<Rightarrow> role_of_file roles sender
   | NoRolesFile \<Rightarrow>
       (let (platform, separator, identity) = py_partition (CHR '':'') sender in
        if separator \<and> identity \<noteq> [] \<and> platform \<in> set [''telegram'', ''discord'', ''line'']
           \<and> sender \<in> set (admin_senders admins)
        then Admin else Viewer))"

section \<open>The tools of a role\<close>

definition check_tool_permission :: "role \<Rightarrow> pystr \<Rightarrow> bool" where
  "check_tool_permission r tool = (case r of
     Admin \<Rightarrow> True
   | Viewer \<Rightarrow> tool \<in> set [''read_file'', ''ask_user'', ''desktop_tool'', ''workspace_info'']
   | Operator \<Rightarrow> tool \<in> set [''read_file'', ''list_files'', ''fetch_url'', ''run_skill'', ''ask_user'',
        ''desktop_tool'', ''workspace_info'']
   | OtherRole _ \<Rightarrow> False)"

lemma check_tool_permission_mono: "a \<le> b \<Longrightarrow> check_tool_permission a t \<Longrightarrow> check_tool_permission b t"
  by (cases a; cases b) (auto simp: less_eq_role_def role_level_def check_tool_permission_def)

lemma get_user_role_known: "get_user_role cfg admins sender \<in> {Viewer, Operator, Admin}"
  by (auto simp: get_user_role_def role_of_file_def known_role_def
      split: roles_config.splits sum.splits json.splits prod.splits)

lemma narrow_role_min: "r \<in> {Viewer, Operator, Admin} \<Longrightarrow> narrow_role a r = min a r"
  by (cases a) (auto simp: narrow_role_def min_def less_eq_role_def role_level_def role_name_def)

text \<open>Where the administrator role comes from.\<close>

lemma admin_only_if_listed:
  "get_user_role cfg admins sender = Admin \<Longrightarrow>
     (\<exists>roles. cfg = RolesFile roles \<and> jget roles sender = JStr ''admin'')
     \<or> (cfg = NoRolesFile \<and> sender \<in> set (admin_senders admins))"
  by (auto simp: get_user_role_def role_of_file_def known_role_def py_get_def jget_def
      split: roles_config.splits sum.splits json.splits prod.splits if_splits option.splits)

text \<open>
  remote authority never widens.  Narrowing the role of an execution by the role of its
  identity yields the smaller of the two roles, so it only allows tools that both allow; an
  identity is an administrator only if the roles file says so or, without such a file, the
  administrator list names it; and every identity the roles file does not name (or any
  identity when that file cannot be read) has exactly the viewer's tools.
\<close>

theorem remote_role_never_widens:
  "narrow_role r (get_user_role cfg admins sender) = min r (get_user_role cfg admins sender)
   \<and> (check_tool_permission (narrow_role r (get_user_role cfg admins sender)) tool
        = (check_tool_permission r tool \<and> check_tool_permission (get_user_role cfg admins sender) tool))
   \<and> (get_user_role cfg admins sender = Admin \<longrightarrow>
        (\<exists>roles. cfg = RolesFile roles \<and> jget roles sender = JStr ''admin'')
        \<or> (cfg = NoRolesFile \<and> sender \<in> set (admin_senders admins)))
   \<and> (cfg = BadRolesFile \<or> (\<exists>kvs. cfg = RolesFile (JObj kvs) \<and> map_of kvs sender = None)
        \<longrightarrow> get_user_role cfg admins sender = Viewer)"
proof -
  let ?g = "get_user_role cfg admins sender"
  have m: "narrow_role r ?g = min r ?g" by (rule narrow_role_min [OF get_user_role_known])
  have "check_tool_permission (min r ?g) tool
      = (check_tool_permission r tool \<and> check_tool_permission ?g tool)"
    using check_tool_permission_mono [of r ?g tool] check_tool_permission_mono [of ?g r tool]
    by (cases "r \<le> ?g") (auto simp: min_def)
  moreover have "cfg = BadRolesFile \<or> (\<exists>kvs. cfg = RolesFile (JObj kvs) \<and> map_of kvs sender = None)
      \<longrightarrow> ?g = Viewer"
    by (auto simp: get_user_role_def role_of_file_def known_role_def)
  ultimately show ?thesis using m admin_only_if_listed by auto
qed

theorem remote_role_never_widens_witness:
  "check_tool_permission
     (narrow_role Admin (get_user_role (RolesFile (JObj [(''telegram:1'', JStr ''operator'')])) []
        ''telegram:1'')) ''run_command'' = False
   \<and> get_user_role (RolesFile (JObj [])) [] ''line:9'' = Viewer"
  using remote_role_never_widens [of Admin "RolesFile (JObj [(''telegram:1'', JStr ''operator'')])" "[]"
      "''telegram:1''" "''run_command''"]
    remote_role_never_widens [of Admin "RolesFile (JObj [])" "[]" "''line:9''" "''run_command''"]
  by (simp add: get_user_role_def role_of_file_def known_role_def check_tool_permission_def
      narrow_role_def role_level_def)

end
