(* ===== verification/Redaction.thy ===== *)
theory Redaction
  imports PyText
begin

text \<open>
  \<open>operations/redaction.py\<close>: what traces and hook audits may show.  The structural part (which
  keys are sensitive, the depth and size bounds) is modelled; the substitutions on a text
  (deployment secrets of the environment and four regular expressions) are the argument
  \<open>scrub\<close>, applied after the text is cut to 65536 characters.
\<close>

text \<open>The alternatives of \<open>SENSITIVE\<close>, each optional separator written out.\<close>

definition sensitive_words :: "pystr list" where
  "sensitive_words = [''password'', ''passwd'', ''secret'', ''credential'', ''authorization'',
     ''apikey'', ''api_key'', ''api-key'', ''accesstoken'', ''access_token'', ''access-token'',
     ''refreshtoken'', ''refresh_token'', ''refresh-token'']"

text \<open>Case is ignored; under \<open>re.I\<close> the long s and the Kelvin sign also match s and k.\<close>

fun fold_case :: "pystr \<Rightarrow> pystr" where
  "fold_case (a # b # c # cs) =
     (if [a, b, c] = map char_of [226, 132, 170::nat] then CHR ''k'' # fold_case cs
      else if [a, b] = map char_of [197, 191::nat] then CHR ''s'' # fold_case (c # cs)
      else ascii_lower a # fold_case (b # c # cs))"
| "fold_case [a, b] = (if [a, b] = map char_of [197, 191::nat] then ''s'' else [ascii_lower a, ascii_lower b])"
| "fold_case [a] = [ascii_lower a]"
| "fold_case [] = []"

definition sensitive_key :: "pystr \<Rightarrow> bool" where
  "sensitive_key k \<longleftrightarrow> list_ex (\<lambda>w. contains_sub w (fold_case k)) sensitive_words"

text \<open>
  \<open>redact(value, depth)\<close>, counted downwards: \<open>fuel = 21 - depth\<close>, so a value deeper than
  twenty levels is cut.
\<close>

fun redact :: "(pystr \<Rightarrow> pystr) \<Rightarrow> nat \<Rightarrow> json \<Rightarrow> json" where
  "redact scrub 0 v = JStr ''[depth limited]''"
| "redact scrub (Suc n) (JObj kvs) = JObj (map (\<lambda>(k, v).
     (k, if sensitive_key k then JStr ''[redacted]'' else redact scrub n v)) (take 256 kvs))"
| "redact scrub (Suc n) (JArr xs) = JArr (map (redact scrub n) (take 256 xs))"
| "redact scrub (Suc n) (JStr s) = JStr (scrub (py_take 65536 s))"
| "redact scrub (Suc n) v = v"

definition redact_value :: "(pystr \<Rightarrow> pystr) \<Rightarrow> json \<Rightarrow> json" where
  "redact_value scrub v = redact scrub 21 v"

text \<open>What a reader of the result can find under a sensitive key, at any depth, and how large it is.\<close>

fun leak_free :: "json \<Rightarrow> bool" where
  "leak_free (JObj kvs) \<longleftrightarrow> list_all (\<lambda>(k, v). (sensitive_key k \<longrightarrow> v = JStr ''[redacted]'') \<and> leak_free v) kvs"
| "leak_free (JArr xs) \<longleftrightarrow> list_all leak_free xs"
| "leak_free _ \<longleftrightarrow> True"

fun json_depth :: "json \<Rightarrow> nat" where
  "json_depth (JObj kvs) = Suc (foldr max (map (\<lambda>(k, v). json_depth v) kvs) 0)"
| "json_depth (JArr xs) = Suc (foldr max (map json_depth xs) 0)"
| "json_depth _ = 0"

fun json_width :: "nat \<Rightarrow> json \<Rightarrow> bool" where
  "json_width n (JObj kvs) \<longleftrightarrow> length kvs \<le> n \<and> list_all (\<lambda>(k, v). json_width n v) kvs"
| "json_width n (JArr xs) \<longleftrightarrow> length xs \<le> n \<and> list_all (json_width n) xs"
| "json_width n _ \<longleftrightarrow> True"

lemma redact_leak_free: "leak_free (redact scrub n v)"
  by (induction scrub n v rule: redact.induct) (auto simp: list_all_iff dest: in_set_takeD)

lemma redact_width: "json_width 256 (redact scrub n v)"
  by (induction scrub n v rule: redact.induct) (auto simp: list_all_iff dest: in_set_takeD)

lemma redact_depth: "json_depth (redact scrub n v) \<le> n"
proof (induction scrub n v rule: redact.induct)
  case (2 scrub n kvs)
  then show ?case by (auto intro!: foldr_max_le dest: in_set_takeD)
next
  case (3 scrub n xs)
  then show ?case by (auto intro!: foldr_max_le dest: in_set_takeD)
qed simp_all

text \<open>
  a redacted value shows nothing under a sensitive key at any depth but the marker
  [redacted], never has more than 256 entries in one object or list, and is at most 21
  levels deep, whatever the scrubbing of texts does.
\<close>

theorem redaction_hides_sensitive_keys:
  "leak_free (redact_value scrub v) \<and> json_width 256 (redact_value scrub v)
   \<and> json_depth (redact_value scrub v) \<le> 21"
  by (simp add: redact_value_def redact_leak_free redact_width redact_depth)

end
