(* ===== verification/Hooks.thy ===== *)
theory Hooks
  imports Redaction Permissions "HOL-Library.Product_Lexorder" "HOL-Library.Multiset"
begin

text \<open>
  \<open>hooks.py\<close>: registration and dispatch of the policies that run around every model call and
  tool execution.  A hook may change the context it is given, also when it raises; a raised
  exception is its type name and text.
\<close>

section \<open>Contexts, results, hooks\<close>

datatype lifecycle = PreModelCall | PostModelCall | PreToolExecute | PostToolExecute

datatype decision = Continue | Block | ReturnEarly | ReturnToolError | AppendFeedback

definition lifecycle_value :: "lifecycle \<Rightarrow> pystr" where
  "lifecycle_value l = (case l of PreModelCall \<Rightarrow> ''PreModelCall'' | PostModelCall \<Rightarrow> ''PostModelCall''
     | PreToolExecute \<Rightarrow> ''PreToolExecute'' | PostToolExecute \<Rightarrow> ''PostToolExecute'')"

definition decision_value :: "decision \<Rightarrow> pystr" where
  "decision_value d = (case d of Continue \<Rightarrow> ''continue'' | Block \<Rightarrow> ''block''
     | ReturnEarly \<Rightarrow> ''return_early'' | ReturnToolError \<Rightarrow> ''return_tool_error''
     | AppendFeedback \<Rightarrow> ''append_feedback'')"

type_synonym raised = "pystr \<times> pystr"

text \<open>
  \<open>memory_events\<close> is the episode's event list where the context has a memory with
  \<open>add_event\<close> and an episode, \<open>None\<close> where it has not.
\<close>

record hook_context =
  hc_lifecycle :: lifecycle
  messages :: json
  model_request :: json
  model_response :: json
  tool_name :: "pystr option"
  tool_arguments :: json
  tool_result :: json
  metadata :: json
  hook_events :: "json list"
  memory_events :: "json list option"
  mutation_summaries :: "pystr list"

definition record_mutation :: "pystr \<Rightarrow> hook_context \<Rightarrow> hook_context" where
  "record_mutation summary c = (if summary = [] then c
     else c\<lparr>mutation_summaries := mutation_summaries c @ [summary]\<rparr>)"

record hook_result =
  hr_decision :: decision
  hr_message :: pystr
  hr_return :: json
  hr_tool_error :: pystr
  hr_feedback :: pystr
  hr_mutation :: pystr
  hr_metadata :: json

definition continue_result :: "pystr \<Rightarrow> json \<Rightarrow> hook_result" where
  "continue_result summary md = \<lparr>hr_decision = Continue, hr_message = [], hr_return = JNull,
     hr_tool_error = [], hr_feedback = [], hr_mutation = summary, hr_metadata = md\<rparr>"

definition block_result :: "pystr \<Rightarrow> json \<Rightarrow> hook_result" where
  "block_result message md = \<lparr>hr_decision = Block, hr_message = message, hr_return = JNull,
     hr_tool_error = [], hr_feedback = [], hr_mutation = [], hr_metadata = md\<rparr>"

text \<open>What the function of a hook returns: \<open>None\<close>, a \<open>HookResult\<close>, or anything else.\<close>

datatype hook_return = ReturnsNone | Returns hook_result | ReturnsOther

record hook =
  hook_name :: pystr
  hook_lifecycle :: lifecycle
  hook_func :: "hook_context \<Rightarrow> (raised + hook_return) \<times> hook_context"
  priority :: int
  enabled :: bool
  fail_closed :: bool
  tool_names :: "pystr list option"
  stages :: "pystr list option"
  task_types :: "pystr list option"

section \<open>Which hooks apply\<close>

text \<open>\<open>value in set\<close>: a list or dictionary is unhashable.\<close>

definition in_names :: "json \<Rightarrow> pystr list \<Rightarrow> raised + bool" where
  "in_names v names = (case v of
     JStr s \<Rightarrow> Inr (s \<in> set names)
   | JArr _ \<Rightarrow> Inl (''TypeError'', ''unhashable type: '' @ [CHR 0x27] @ ''list'' @ [CHR 0x27])
   | JObj _ \<Rightarrow> Inl (''TypeError'', ''unhashable type: '' @ [CHR 0x27] @ ''dict'' @ [CHR 0x27])
   | _ \<Rightarrow> Inr False)"

definition filter_names :: "pystr list option \<Rightarrow> json \<Rightarrow> raised + bool" where
  "filter_names names v = (case names of None \<Rightarrow> Inr True | Some ns \<Rightarrow> in_names v ns)"

definition applies :: "hook \<Rightarrow> hook_context \<Rightarrow> raised + bool" where
  "applies h c =
     (if (case tool_names h of None \<Rightarrow> False
          | Some ns \<Rightarrow> (case tool_name c of None \<Rightarrow> True | Some t \<Rightarrow> t \<notin> set ns)) then Inr False
      else case filter_names (stages h) (jget (metadata c) ''stage'') of
        Inl e \<Rightarrow> Inl e
      | Inr ok \<Rightarrow> if \<not> ok then Inr False
          else filter_names (task_types h) (jget (metadata c) ''task_type''))"

section \<open>Registration\<close>

definition sort_rank :: "hook \<Rightarrow> int \<times> pystr" where
  "sort_rank h = (priority h, hook_name h)"

definition register :: "hook \<Rightarrow> hook list \<Rightarrow> hook list result" where
  "register h hooks =
     (if list_ex (\<lambda>item. hook_name item = hook_name h \<and> hook_lifecycle item = hook_lifecycle h) hooks
      then Inl (ValueError ''Duplicate hook name and lifecycle'')
      else Inr (sort_key sort_rank (hooks @ [h])))"

fun register_all :: "hook list \<Rightarrow> hook list \<Rightarrow> hook list result" where
  "register_all [] hooks = Inr hooks"
| "register_all (h # hs) hooks = bind_result (register h hooks) (register_all hs)"

definition hook_manager :: "hook list \<Rightarrow> hook list result" where
  "hook_manager hs = register_all hs []"

section \<open>Audit\<close>

text \<open>
  The execution scope an audit names, the running span, the clock of the run, the text
  scrubber, and whether the memory accepts an event (its failures are swallowed).
\<close>

record audit_env =
  ae_source :: pystr
  ae_identity :: pystr
  ae_session :: pystr
  ae_project :: pystr
  ae_task :: json
  ae_role :: role
  ae_span :: "(pystr \<times> pystr) option"
  ae_elapsed :: "pystr \<Rightarrow> int"
  ae_scrub :: "pystr \<Rightarrow> pystr"
  ae_event_ok :: "pystr \<Rightarrow> bool"

definition audit_entry :: "audit_env \<Rightarrow> hook_context \<Rightarrow> hook \<Rightarrow> hook_result \<Rightarrow> pystr option \<Rightarrow> json" where
  "audit_entry e c h r error =
     JObj ([(''hook'', JStr (hook_name h)),
       (''lifecycle'', JStr (lifecycle_value (hc_lifecycle c))),
       (''decision'', JStr (decision_value (hr_decision r))),
       (''mutation_summary'', JStr (if hr_mutation r \<noteq> [] then hr_mutation r
          else case rev (mutation_summaries c) of [] \<Rightarrow> [] | s # _ \<Rightarrow> s)),
       (''elapsed_ms'', JInt (ae_elapsed e (hook_name h))),
       (''blocked_reason'', JStr (if hr_decision r = Block \<or> hr_decision r = ReturnToolError
          then hr_message r else [])),
       (''metadata'', hr_metadata r),
       (''source'', JStr (ae_source e)), (''identity'', JStr (ae_identity e)),
       (''session'', JStr (ae_session e)), (''project'', JStr (ae_project e)),
       (''task_id'', ae_task e), (''role'', JStr (role_name (ae_role e)))]
      @ (case error of None \<Rightarrow> [] | Some t \<Rightarrow> [(''error'', JStr t)])
      @ (case ae_span e of None \<Rightarrow> []
         | Some (tr, sp) \<Rightarrow> [(''trace_id'', JStr tr), (''span_id'', JStr sp)]))"

definition record_audit :: "audit_env \<Rightarrow> hook \<Rightarrow> hook_result \<Rightarrow> pystr option \<Rightarrow> hook_context \<Rightarrow> hook_context" where
  "record_audit e h r error c =
     (let audit = redact_value (ae_scrub e) (audit_entry e c h r error)
      in c\<lparr>hook_events := hook_events c @ [audit],
           memory_events := map_option (\<lambda>evs. if ae_event_ok e (hook_name h) then evs @ [audit] else evs)
             (memory_events c)\<rparr>)"

section \<open>Dispatch\<close>

text \<open>One enabled hook of the life cycle: the context after it, and the result that ends the
  dispatch, if it does.\<close>

definition attempt :: "hook \<Rightarrow> hook_context \<Rightarrow> (raised + hook_result option) \<times> hook_context" where
  "attempt h c = (case applies h c of
     Inl e \<Rightarrow> (Inl e, c)
   | Inr False \<Rightarrow> (Inr None, c)
   | Inr True \<Rightarrow> (case hook_func h c of
       (Inl e, c') \<Rightarrow> (Inl e, c')
     | (Inr ReturnsNone, c') \<Rightarrow> (Inr (Some (continue_result [] (JObj []))), c')
     | (Inr (Returns r), c') \<Rightarrow> (Inr (Some r), c')
     | (Inr ReturnsOther, c') \<Rightarrow> (Inl (''TypeError'', ''Hook must return HookResult''), c')))"

definition run_hook :: "audit_env \<Rightarrow> hook \<Rightarrow> hook_context \<Rightarrow> hook_result option \<times> hook_context" where
  "run_hook e h c = (case attempt h c of
     (Inr None, c') \<Rightarrow> (None, c')
   | (Inl (ty, text), c') \<Rightarrow>
       (let c'' = record_audit e h (block_result text (JObj [(''error_type'', JStr ty)])) (Some text) c'
        in (if fail_closed h
            then Some (block_result text (JObj [(''hook'', JStr (hook_name h)), (''error_type'', JStr ty)]))
            else None, c''))
   | (Inr (Some r), c') \<Rightarrow>
       (let c'' = record_audit e h r None (record_mutation (hr_mutation r) c')
        in (if hr_decision r \<noteq> Continue then Some r else None, c'')))"

fun dispatch_each :: "audit_env \<Rightarrow> lifecycle \<Rightarrow> hook list \<Rightarrow> hook_context \<Rightarrow> hook_result \<times> hook_context" where
  "dispatch_each e l [] c = (continue_result [] (JObj []), c)"
| "dispatch_each e l (h # hs) c =
     (if \<not> enabled h \<or> hook_lifecycle h \<noteq> l then dispatch_each e l hs c
      else case run_hook e h c of
        (Some r, c') \<Rightarrow> (r, c')
      | (None, c') \<Rightarrow> dispatch_each e l hs c')"

definition dispatch :: "audit_env \<Rightarrow> lifecycle \<Rightarrow> hook list \<Rightarrow> hook_context \<Rightarrow> hook_result \<times> hook_context" where
  "dispatch e l hooks c = dispatch_each e l hooks (c\<lparr>hc_lifecycle := l\<rparr>)"

definition diagnostics :: "hook list \<Rightarrow> json" where
  "diagnostics hooks = JObj [(''active'', JInt (int (length (filter enabled hooks)))),
     (''hooks'', JArr (map (\<lambda>h. JObj [(''name'', JStr (hook_name h)),
        (''lifecycle'', JStr (lifecycle_value (hook_lifecycle h))), (''priority'', JInt (priority h)),
        (''enabled'', JBool (enabled h)), (''fail_closed'', JBool (fail_closed h))]) hooks))]"

section \<open>The registry\<close>

definition hook_key :: "hook \<Rightarrow> pystr \<times> lifecycle" where
  "hook_key h = (hook_name h, hook_lifecycle h)"

lemma register_Inr:
  "register h hooks = Inr hooks' \<longleftrightarrow>
     hook_key h \<notin> hook_key ` set hooks \<and> hooks' = sort_key sort_rank (hooks @ [h])"
  by (auto simp: register_def list_ex_iff hook_key_def image_iff) metis

lemma register_all_spec:
  "register_all hs hooks = Inr hooks' \<Longrightarrow> sorted (map sort_rank hooks) \<Longrightarrow>
   distinct (map hook_key hooks) \<Longrightarrow>
   sorted (map sort_rank hooks') \<and> mset hooks' = mset hooks + mset hs \<and> distinct (map hook_key hooks')"
proof (induction hs arbitrary: hooks)
  case (Cons h hs)
  then obtain mid where m: "register h hooks = Inr mid" "register_all hs mid = Inr hooks'" by auto
  then have mid: "mid = sort_key sort_rank (hooks @ [h])" "hook_key h \<notin> hook_key ` set hooks"
    by (auto simp: register_Inr)
  have "distinct (map hook_key (hooks @ [h]))" using Cons.prems(3) mid(2) by auto
  then have "distinct (map hook_key mid)"
    unfolding mid(1) distinct_map by (simp only: distinct_sort set_sort)
  with Cons.IH [OF m(2)] mid(1) show ?case by simp
qed simp

lemma register_all_error:
  "distinct (map hook_key hooks) \<Longrightarrow>
   (\<exists>e. register_all hs hooks = Inl e) \<longleftrightarrow> \<not> distinct (map hook_key (hooks @ hs))"
proof (induction hs arbitrary: hooks)
  case (Cons h hs)
  show ?case
  proof (cases "hook_key h \<in> hook_key ` set hooks")
    case True
    then have "\<exists>e. register h hooks = Inl e"
      by (auto simp: register_def list_ex_iff hook_key_def)
    with True show ?thesis by auto
  next
    case False
    let ?mid = "sort_key sort_rank (hooks @ [h])"
    have r: "register h hooks = Inr ?mid" using False by (simp add: register_Inr)
    have "distinct (map hook_key (hooks @ [h]))" using Cons.prems False by auto
    then have d: "distinct (map hook_key ?mid)"
      unfolding distinct_map by (simp only: distinct_sort set_sort)
    show ?thesis using Cons.IH [OF d] r d Cons.prems False by auto
  qed
qed simp

text \<open>
  The registry of a hook manager is the given hooks in order of priority, ties broken by
  name, and no two of them share a name and a life cycle; construction is refused exactly
  when two of the given hooks do.
\<close>

lemma hook_registry_ordered:
  "(case hook_manager hs of
      Inr hooks \<Rightarrow> sorted (map sort_rank hooks) \<and> mset hooks = mset hs \<and> distinct (map hook_key hs)
    | Inl e \<Rightarrow> e = ValueError ''Duplicate hook name and lifecycle'' \<and> \<not> distinct (map hook_key hs))"
proof (cases "hook_manager hs")
  case (Inl e)
  have "register_all hs' hooks = Inl e' \<Longrightarrow> e' = ValueError ''Duplicate hook name and lifecycle''"
    for hs' hooks e'
    by (induction hs' arbitrary: hooks) (auto simp: register_def split: if_splits)
  with Inl register_all_error [of "[]" hs] show ?thesis by (auto simp: hook_manager_def)
next
  case (Inr hooks)
  then show ?thesis
    using register_all_spec [of hs "[]" hooks] register_all_error [of "[]" hs]
    by (auto simp: hook_manager_def)
qed

section \<open>What a dispatch lets through\<close>

text \<open>
  \<open>passes e l hs c c'\<close>: every enabled hook of the life cycle, in order, did not apply, or
  asked to continue, or failed without being fail-closed.
\<close>

inductive passes :: "audit_env \<Rightarrow> lifecycle \<Rightarrow> hook list \<Rightarrow> hook_context \<Rightarrow> hook_context \<Rightarrow> bool"
  for e :: audit_env and l :: lifecycle where
  none: "passes e l [] c c"
| other: "\<not> enabled h \<or> hook_lifecycle h \<noteq> l \<Longrightarrow> passes e l hs c c' \<Longrightarrow> passes e l (h # hs) c c'"
| unapplied: "enabled h \<Longrightarrow> hook_lifecycle h = l \<Longrightarrow> attempt h c = (Inr None, c1) \<Longrightarrow>
    passes e l hs c1 c' \<Longrightarrow> passes e l (h # hs) c c'"
| continued: "enabled h \<Longrightarrow> hook_lifecycle h = l \<Longrightarrow> attempt h c = (Inr (Some r), c1) \<Longrightarrow>
    hr_decision r = Continue \<Longrightarrow>
    passes e l hs (record_audit e h r None (record_mutation (hr_mutation r) c1)) c' \<Longrightarrow>
    passes e l (h # hs) c c'"
| tolerated: "enabled h \<Longrightarrow> hook_lifecycle h = l \<Longrightarrow> attempt h c = (Inl (ty, text), c1) \<Longrightarrow>
    \<not> fail_closed h \<Longrightarrow>
    passes e l hs (record_audit e h (block_result text (JObj [(''error_type'', JStr ty)])) (Some text) c1) c' \<Longrightarrow>
    passes e l (h # hs) c c'"

inductive_simps passes_Nil: "passes e l [] c c'"
inductive_cases passes_ConsE: "passes e l (h # hs) c c'"

lemma continue_decision [simp]: "hr_decision (continue_result s m) = Continue"
  by (simp add: continue_result_def)

lemma block_decision [simp]: "hr_decision (block_result s m) = Block"
  by (simp add: block_result_def)

lemma run_hook_stops: "run_hook e h c = (Some r, c') \<Longrightarrow> hr_decision r \<noteq> Continue"
  by (auto simp: run_hook_def Let_def split: sum.splits option.splits prod.splits if_splits)

lemma passes_dispatch: "passes e l hs c c' \<Longrightarrow> dispatch_each e l (hs @ post) c = dispatch_each e l post c'"
  by (induction rule: passes.induct) (auto simp: run_hook_def Let_def)

lemma run_hook_passes:
  assumes "run_hook e h c = (None, c1)" "enabled h" "hook_lifecycle h = l" "passes e l hs c1 c'"
  shows "passes e l (h # hs) c c'"
proof -
  obtain a ca where "attempt h c = (a, ca)" by fastforce
  with assms show ?thesis
    by (auto simp: run_hook_def Let_def split: sum.splits option.splits prod.splits if_splits
        intro: unapplied continued tolerated)
qed

lemma dispatch_each_passes:
  "hr_decision (fst (dispatch_each e l hs c)) = Continue \<Longrightarrow> passes e l hs c (snd (dispatch_each e l hs c))"
proof (induction e l hs c rule: dispatch_each.induct)
  case (1 e l c)
  then show ?case by (simp add: none)
next
  case (2 e l h hs c)
  show ?case
  proof (cases "\<not> enabled h \<or> hook_lifecycle h \<noteq> l")
    case True
    with 2 show ?thesis by (auto intro: other)
  next
    case False
    obtain x c1 where r: "run_hook e h c = (x, c1)" by fastforce
    show ?thesis
    proof (cases x)
      case None
      with False 2 r show ?thesis by (auto intro!: run_hook_passes)
    next
      case (Some y)
      with False 2 r run_hook_stops show ?thesis by auto
    qed
  qed
qed

text \<open>
  C8: dispatch fails closed.  It answers continue exactly when every enabled hook of the
  life cycle, in the registry's order, passed (it did not apply, asked to continue, or failed
  while marked as tolerable); and where a fail-closed hook raises after the ones before it
  passed, the answer is a block naming that hook and its error, and no later hook runs.
\<close>

theorem dispatch_fails_closed:
  "(hr_decision (fst (dispatch e l hooks c)) = Continue
      \<longleftrightarrow> (\<exists>c'. passes e l hooks (c\<lparr>hc_lifecycle := l\<rparr>) c'))
   \<and> (passes e l pre (c\<lparr>hc_lifecycle := l\<rparr>) c1 \<and> enabled h \<and> hook_lifecycle h = l \<and> fail_closed h
      \<and> attempt h c1 = (Inl (ty, text), c2) \<longrightarrow>
      dispatch e l (pre @ h # post) c =
        (block_result text (JObj [(''hook'', JStr (hook_name h)), (''error_type'', JStr ty)]),
         record_audit e h (block_result text (JObj [(''error_type'', JStr ty)])) (Some text) c2))"
proof -
  let ?c = "c\<lparr>hc_lifecycle := l\<rparr>"
  have "passes e l hooks ?c c' \<Longrightarrow> hr_decision (fst (dispatch e l hooks c)) = Continue" for c'
    using passes_dispatch [of e l hooks ?c c' "[]"] by (simp add: dispatch_def)
  then have "hr_decision (fst (dispatch e l hooks c)) = Continue \<longleftrightarrow> (\<exists>c'. passes e l hooks ?c c')"
    using dispatch_each_passes [of e l hooks ?c] by (auto simp: dispatch_def)
  moreover have "dispatch e l (pre @ h # post) c =
        (block_result text (JObj [(''hook'', JStr (hook_name h)), (''error_type'', JStr ty)]),
         record_audit e h (block_result text (JObj [(''error_type'', JStr ty)])) (Some text) c2)"
    if "passes e l pre ?c c1" "enabled h" "hook_lifecycle h = l" "fail_closed h"
      "attempt h c1 = (Inl (ty, text), c2)"
    using passes_dispatch [OF that(1), of "h # post"] that(2-5)
    by (simp add: dispatch_def run_hook_def Let_def)
  ultimately show ?thesis by blast
qed

definition demo_hook :: "pystr \<Rightarrow> (hook_context \<Rightarrow> (raised + hook_return) \<times> hook_context) \<Rightarrow> hook" where
  "demo_hook name f = \<lparr>hook_name = name, hook_lifecycle = PreToolExecute, hook_func = f, priority = 10,
     enabled = True, fail_closed = True, tool_names = None, stages = None, task_types = None\<rparr>"

definition demo_context :: hook_context where
  "demo_context = \<lparr>hc_lifecycle = PreModelCall, messages = JArr [], model_request = JObj [],
     model_response = JNull, tool_name = Some ''read_file'', tool_arguments = JObj [], tool_result = JNull,
     metadata = JObj [], hook_events = [], memory_events = None, mutation_summaries = []\<rparr>"

definition demo_audit :: audit_env where
  "demo_audit = \<lparr>ae_source = ''local'', ae_identity = ''local'', ae_session = ''local'', ae_project = ''p'',
     ae_task = JNull, ae_role = Admin, ae_span = None, ae_elapsed = (\<lambda>_. 0), ae_scrub = (\<lambda>s. s),
     ae_event_ok = (\<lambda>_. True)\<rparr>"

theorem dispatch_fails_closed_witness:
  "hr_decision (fst (dispatch demo_audit PreToolExecute
     [demo_hook ''a'' (\<lambda>c. (Inr ReturnsNone, c)), demo_hook ''b'' (\<lambda>c. (Inl (''ValueError'', ''bad''), c)),
      demo_hook ''c'' (\<lambda>c. (Inr ReturnsNone, c))] demo_context)) = Block"
proof -
  let ?a = "demo_hook ''a'' (\<lambda>c. (Inr ReturnsNone, c))"
  let ?c = "demo_context\<lparr>hc_lifecycle := PreToolExecute\<rparr>"
  have at: "attempt (demo_hook n f) c = (case f c of
      (Inl e, c') \<Rightarrow> (Inl e, c')
    | (Inr ReturnsNone, c') \<Rightarrow> (Inr (Some (continue_result [] (JObj []))), c')
    | (Inr (Returns r), c') \<Rightarrow> (Inr (Some r), c')
    | (Inr ReturnsOther, c') \<Rightarrow> (Inl (''TypeError'', ''Hook must return HookResult''), c'))" for n f c
    by (simp add: attempt_def applies_def demo_hook_def filter_names_def)
  have d: "enabled (demo_hook n f)" "hook_lifecycle (demo_hook n f) = PreToolExecute"
    "fail_closed (demo_hook n f)" for n f by (simp_all add: demo_hook_def)
  have "passes demo_audit PreToolExecute [?a] ?c
      (record_audit demo_audit ?a (continue_result [] (JObj [])) None (record_mutation [] ?c))"
    by (rule continued [where r = "continue_result [] (JObj [])" and ?c1.0 = ?c])
      (simp_all add: at d none, simp add: continue_result_def none)
  from dispatch_fails_closed [of demo_audit PreToolExecute "[]" demo_context "[?a]" _
      "demo_hook ''b'' (\<lambda>c. (Inl (''ValueError'', ''bad''), c))"] this
  show ?thesis by (simp add: at d)
qed

end
