(* ===== verification/Contracts.thy ===== *)
theory Contracts
  imports PyText Sha256 Database
begin

text \<open>
  The wire contracts of \<open>temporal_backend/contracts.py\<close> and the owner admission of
  \<open>temporal_backend/admission.py\<close>: each validator is total on JSON and answers the value
  itself or \<open>ValueError\<close>.
\<close>

definition WORKFLOW_NAME :: pystr where "WORKFLOW_NAME = ''PythonAIReadOnlyBridgeV1''"
definition STEP_WORKFLOW_NAME :: pystr where "STEP_WORKFLOW_NAME = ''AgentTaskWorkflowV1''"
definition HUMAN_WORKFLOW_NAME :: pystr where "HUMAN_WORKFLOW_NAME = ''AgentTaskWorkflowV2''"
definition APPROVAL_WORKFLOW_NAME :: pystr where "APPROVAL_WORKFLOW_NAME = ''AgentTaskWorkflowV3''"
definition STEP_LIMIT :: int where "STEP_LIMIT = 1024"

lemma workflow_names_distinct [simp]:
  "WORKFLOW_NAME \<noteq> STEP_WORKFLOW_NAME" "WORKFLOW_NAME \<noteq> HUMAN_WORKFLOW_NAME"
  "WORKFLOW_NAME \<noteq> APPROVAL_WORKFLOW_NAME" "STEP_WORKFLOW_NAME \<noteq> HUMAN_WORKFLOW_NAME"
  "STEP_WORKFLOW_NAME \<noteq> APPROVAL_WORKFLOW_NAME" "HUMAN_WORKFLOW_NAME \<noteq> APPROVAL_WORKFLOW_NAME"
  by (simp_all add: WORKFLOW_NAME_def STEP_WORKFLOW_NAME_def HUMAN_WORKFLOW_NAME_def
      APPROVAL_WORKFLOW_NAME_def)

definition hex_field :: "nat \<Rightarrow> json \<Rightarrow> bool" where
  "hex_field n v \<longleftrightarrow> (case v of JStr s \<Rightarrow> hex_text n s | _ \<Rightarrow> False)"

definition int_between :: "int \<Rightarrow> int \<Rightarrow> json \<Rightarrow> bool" where
  "int_between a b v \<longleftrightarrow> (case v of JInt i \<Rightarrow> a \<le> i \<and> i \<le> b | _ \<Rightarrow> False)"

definition one_of :: "pystr list \<Rightarrow> json \<Rightarrow> bool" where
  "one_of names v \<longleftrightarrow> (case v of JStr s \<Rightarrow> s \<in> set names | _ \<Rightarrow> False)"

section \<open>References, cursors, events\<close>

definition validate_envelope :: "json \<Rightarrow> json result" where
  "validate_envelope v =
     (if \<not> has_keys v [''schema_version'', ''submission_id''] \<or> jget v ''schema_version'' \<noteq> JInt 1
         \<or> \<not> hex_field 32 (jget v ''submission_id'')
      then Inl (ValueError ''Invalid Temporal reference envelope'') else Inr (jget v ''submission_id''))"

definition validate_reference :: "json \<Rightarrow> json result" where
  "validate_reference v =
     (if \<not> has_keys v [''schema_version'', ''id'', ''sha256'', ''bytes''] \<or> jget v ''schema_version'' \<noteq> JInt 1
         \<or> \<not> hex_field 32 (jget v ''id'') \<or> \<not> hex_field 64 (jget v ''sha256'')
         \<or> \<not> int_between 0 (64 * 1024 * 1024) (jget v ''bytes'')
      then Inl (ValueError ''Invalid state reference'') else Inr v)"

definition envelope_of :: "json \<Rightarrow> json" where
  "envelope_of v = JObj [(''schema_version'', jget v ''schema_version''),
     (''submission_id'', jget v ''submission_id'')]"

definition validate_cursor :: "json \<Rightarrow> json result" where
  "validate_cursor v =
     (if \<not> has_keys v [''schema_version'', ''submission_id'', ''revision'', ''next_kind'', ''state_ref'']
         \<or> \<not> int_between 0 STEP_LIMIT (jget v ''revision'')
         \<or> \<not> one_of [''model'', ''tool'', ''evaluation'', ''finalize'', ''human''] (jget v ''next_kind'')
      then Inl (ValueError ''Invalid step cursor'')
      else bind_result (validate_envelope (envelope_of v)) (\<lambda>_.
             bind_result (validate_reference (jget v ''state_ref'')) (\<lambda>_. Inr v)))"

definition validate_approval_event :: "json \<Rightarrow> json result" where
  "validate_approval_event v =
     (if \<not> has_keys v [''schema_version'', ''submission_id'', ''event_id''] \<or> \<not> hex_field 32 (jget v ''event_id'')
      then Inl (ValueError ''Invalid approval event reference'')
      else bind_result (validate_envelope (envelope_of v)) (\<lambda>_. Inr v))"

definition validate_approval_probe :: "json \<Rightarrow> json result" where
  "validate_approval_probe v =
     (if \<not> has_keys v [''cursor'', ''ready'', ''expires'']
         \<or> (case (jget v ''ready'', finite_number (jget v ''expires'')) of
              (JBool ready, Some x) \<Rightarrow> x < 0 \<or> (ready \<and> x \<noteq> 0) \<or> (\<not> ready \<and> x \<le> 0)
            | _ \<Rightarrow> True)
      then Inl (ValueError ''Invalid approval wait result'')
      else bind_result (validate_cursor (jget v ''cursor'')) (\<lambda>_. Inr v))"

section \<open>Continuation snapshots\<close>

definition snapshot_phases :: "pystr list" where
  "snapshot_phases = [''temporal_pending'', ''step_ready'', ''step_preparing'', ''model_pending'',
     ''model_received'', ''tool_started'', ''tool_done'', ''evaluation_pending'', ''evaluation_done'',
     ''waiting_user'', ''waiting_approval'']"

definition optional_int :: "json \<Rightarrow> pystr \<Rightarrow> (int \<Rightarrow> bool) \<Rightarrow> bool" where
  "optional_int v k ok = (case jfield v k of None \<Rightarrow> True | Some (JInt i) \<Rightarrow> ok i | Some _ \<Rightarrow> False)"

definition validate_snapshot :: "json \<Rightarrow> json result" where
  "validate_snapshot v =
     (let saved = jget v ''checkpoint'' in
      if \<not> has_keys v [''schema_version'', ''phase'', ''checkpoint'', ''task_state'', ''reply'']
         \<or> jget v ''schema_version'' \<noteq> JInt 1 \<or> \<not> one_of snapshot_phases (jget v ''phase'')
         \<or> \<not> one_of [''pending'', ''running'', ''completed'', ''failed'', ''suspended''] (jget v ''task_state'')
         \<or> (jget v ''reply'' \<noteq> JNull \<and> \<not> is_str (jget v ''reply'')) \<or> \<not> is_dict saved
      then Inl (ValueError ''Invalid continuation snapshot'')
      else if \<not> is_list (jget saved ''messages'') \<or> \<not> list_all is_dict (jitems (jget saved ''messages''))
      then Inl (ValueError ''Invalid continuation messages'')
      else if \<not> list_all (\<lambda>k. optional_int saved k (\<lambda>i. 0 \<le> i))
               [''iteration'', ''eval_retries'', ''evaluation_start'']
      then Inl (ValueError ''Invalid continuation counters'')
      else if \<not> optional_int saved ''iteration_limit'' (\<lambda>i. 1 \<le> i \<and> i \<le> 256)
      then Inl (ValueError ''Invalid continuation iteration limit'')
      else if \<not> list_all (\<lambda>k. optional_int saved k (\<lambda>i. 0 \<le> i \<and> i \<le> 256))
               [''provider_retry_limit'', ''eval_retry_limit'']
      then Inl (ValueError ''Invalid continuation retry limit'')
      else Inr v)"

section \<open>Root budget contracts\<close>

definition nonneg_number :: "json \<Rightarrow> bool" where
  "nonneg_number v \<longleftrightarrow> (case finite_number v of Some x \<Rightarrow> 0 \<le> x | None \<Rightarrow> False)"

definition positive_number :: "json \<Rightarrow> bool" where
  "positive_number v \<longleftrightarrow> (case finite_number v of Some x \<Rightarrow> 0 < x | None \<Rightarrow> False)"

definition valid_rate :: "json \<Rightarrow> bool" where
  "valid_rate rate \<longleftrightarrow> is_dict rate \<and> jfield rate ''input'' \<noteq> None \<and> jfield rate ''output'' \<noteq> None
     \<and> nonneg_number (jget rate ''input'') \<and> nonneg_number (jget rate ''output'')"

definition validate_budget_contract :: "json \<Rightarrow> json result" where
  "validate_budget_contract v =
     (let limits = jget v ''limits'' in
      if \<not> has_keys v [''schema_version'', ''root_ref'', ''deadline'', ''limits'']
         \<or> jget v ''schema_version'' \<noteq> JInt 1 \<or> \<not> hex_field 64 (jget v ''root_ref'')
         \<or> \<not> positive_number (jget v ''deadline'') \<or> \<not> is_dict limits
      then Inl (ValueError ''Invalid root budget contract'')
      else if \<not> has_keys limits [''tokens'', ''requests'', ''children'', ''depth'', ''cost'', ''output'', ''rates'']
         \<or> \<not> list_all (\<lambda>k. case jget limits k of JInt i \<Rightarrow> 0 \<le> i | _ \<Rightarrow> False)
             [''tokens'', ''requests'', ''children'', ''depth'', ''output'']
         \<or> \<not> nonneg_number (jget limits ''cost'') \<or> \<not> is_dict (jget limits ''rates'')
      then Inl (ValueError ''Invalid root budget limits'')
      else if \<not> list_all valid_rate (map snd (jpairs (jget limits ''rates'')))
      then Inl (ValueError ''Invalid root budget rates'')
      else Inr v)"

section \<open>Owner admission\<close>

definition owner_key :: "pystr \<Rightarrow> pystr" where
  "owner_key owner = sha256 owner"

text \<open>The raw setting (absent, not JSON, or its value) with its length in bytes.\<close>

datatype trial_setting = NoSetting | RawSetting nat "json option"

definition trial_owners :: "trial_setting \<Rightarrow> pystr list option result" where
  "trial_owners setting = (case setting of
     NoSetting \<Rightarrow> Inr None
   | RawSetting n parsed \<Rightarrow>
       if n > 70 * 1024
       then Inl (ValueError ''AGENT_TEMPORAL_TRIAL_OWNERS exceeds its configuration limit'')
       else (case parsed of
         None \<Rightarrow> Inl (ValueError ''AGENT_TEMPORAL_TRIAL_OWNERS must be a JSON list of SHA-256 owner keys'')
       | Some values \<Rightarrow>
           if \<not> is_list values \<or> length (jitems values) > 1024 \<or> \<not> list_all (hex_field 64) (jitems values)
              \<or> \<not> distinct (map jtext_of (jitems values))
           then Inl (ValueError
             ''AGENT_TEMPORAL_TRIAL_OWNERS must contain at most 1024 unique SHA-256 owner keys'')
           else Inr (Some (map jtext_of (jitems values)))))"

definition new_backend :: "trial_setting \<Rightarrow> pystr \<Rightarrow> pystr \<Rightarrow> pystr result" where
  "new_backend setting owner requested =
     (if requested \<notin> set [''sqlite'', ''temporal''] then Inl (ValueError ''Unknown task backend'')
      else if requested = ''sqlite'' then Inr ''sqlite''
      else bind_result (trial_owners setting) (\<lambda>owners. Inr (case owners of
        None \<Rightarrow> ''temporal'' | Some ks \<Rightarrow> if owner_key owner \<in> set ks then ''temporal'' else ''sqlite'')))"

section \<open>What an accepted value guarantees\<close>

lemma validate_reference_ok:
  "validate_reference v = Inr r \<Longrightarrow> r = v \<and> (\<exists>i h n. jget v ''id'' = JStr i \<and> hex_text 32 i
     \<and> jget v ''sha256'' = JStr h \<and> hex_text 64 h \<and> jget v ''bytes'' = JInt n \<and> 0 \<le> n \<and> n \<le> 67108864)"
  by (auto simp: validate_reference_def hex_field_def int_between_def split: if_splits json.splits)

lemma validate_cursor_ok:
  "validate_cursor v = Inr r \<Longrightarrow> r = v \<and> validate_reference (jget v ''state_ref'') = Inr (jget v ''state_ref'')
     \<and> (\<exists>n. jget v ''revision'' = JInt n \<and> 0 \<le> n \<and> n \<le> 1024)"
  by (auto simp: validate_cursor_def int_between_def STEP_LIMIT_def dest: validate_reference_ok
      split: if_splits json.splits)

lemma hex_char_lower: "d < 16 \<Longrightarrow> lower_hex (hex_char d)"
  by (auto simp: hex_char_def lower_hex_def is_digit_def)

lemma be_bytes_byte: "b \<in> set (be_bytes k n) \<Longrightarrow> b < 256"
  by (induction k n rule: be_bytes.induct) auto

lemma sha256_chars: "list_all lower_hex (sha256 s)"
  by (auto simp: list_all_iff sha256_def hex_byte_def intro!: hex_char_lower dest: be_bytes_byte)

lemma sha256_hex: "hex_text 64 (sha256 s)"
  by (simp add: hex_text_def length_sha256 sha256_chars)

end
