(* ===== verification/Budgets.thy ===== *)
theory Budgets
  imports Contracts
begin

text \<open>
  \<open>agent_execution/budgets.py\<close>, class \<open>TaskBudget\<close>: the persistent root budget of a task,
  charged before every model request and reconciled with the provider's usage after it.
  Costs are real numbers (the rounding of Python floats is not modelled); token counters are
  unbounded integers as in Python.
\<close>

section \<open>Tables\<close>

record limits =
  l_tokens :: int
  l_requests :: int
  l_children :: int
  l_depth :: int
  l_cost :: real
  l_output :: int
  l_rates :: json

record budget_row =
  deadline :: time
  b_limits :: limits
  b_requests :: int
  b_tokens :: int
  b_cost :: real
  b_children :: int

datatype call_status = Reserved | Reported

record call_row =
  call_owner :: owner
  call_task :: task_id
  call_tokens :: int
  call_cost :: real
  call_status :: call_status

record budget_db = task_db +
  task_budgets :: "(owner \<times> task_id, budget_row) table"
  budget_calls :: "(pystr, call_row) table"
  budget_rates :: "(pystr, real \<times> real) table"
  model_slots :: "(pystr, time) table"

section \<open>Configuration\<close>

text \<open>
  The environment after \<open>float\<close>: \<open>None\<close> stands for a value that is not finite.  \<open>c_text_rate\<close>
  is \<open>float\<close> on a string, for a rate configured as text.
\<close>

record budget_config =
  c_tokens :: "real option"
  c_requests :: "real option"
  c_children :: "real option"
  c_depth :: "real option"
  c_cost :: "real option"
  c_output :: "real option"
  c_concurrency :: "real option"
  c_limit :: "real option"
  c_deadline :: "real option"
  c_rates :: json
  c_text_rate :: "pystr \<Rightarrow> real option"

definition numeric :: "pystr \<Rightarrow> real option \<Rightarrow> bool \<Rightarrow> real result" where
  "numeric name v allow_zero = (case v of
     Some x \<Rightarrow> if x < 0 \<or> (x = 0 \<and> \<not> allow_zero)
       then Inl (ValueError (name @ '' must be finite and positive'')) else Inr x
   | None \<Rightarrow> Inl (ValueError (name @ '' must be finite and positive'')))"

text \<open>\<open>int(numeric(...))\<close>: the value is not negative, so truncation is the floor.\<close>

definition numeric_int :: "pystr \<Rightarrow> real option \<Rightarrow> bool \<Rightarrow> int result" where
  "numeric_int name v z = bind_result (numeric name v z) (\<lambda>x. Inr \<lfloor>x\<rfloor>)"

definition token_upper_bound :: "json \<Rightarrow> nat" where
  "token_upper_bound v = json_bytes False True v + 128"

record task_budget =
  bud_owner :: owner
  bud_key :: task_id
  bud_limits :: limits
  bud_concurrency :: int

section \<open>Opening a budget\<close>

definition configured_limits :: "budget_config \<Rightarrow> limits result" where
  "configured_limits c =
     bind_result (numeric_int ''AGENT_TASK_MAX_TOKENS'' (c_tokens c) False) (\<lambda>tokens.
     bind_result (numeric_int ''AGENT_TASK_MAX_REQUESTS'' (c_requests c) False) (\<lambda>requests.
     bind_result (numeric_int ''AGENT_TASK_MAX_CHILDREN'' (c_children c) True) (\<lambda>children.
     bind_result (numeric_int ''AGENT_TASK_MAX_DEPTH'' (c_depth c) True) (\<lambda>depth.
     bind_result (numeric ''AGENT_TASK_MAX_COST_USD'' (c_cost c) True) (\<lambda>cost.
     bind_result (numeric_int ''AGENT_MODEL_MAX_OUTPUT_TOKENS'' (c_output c) False) (\<lambda>output.
     Inr \<lparr>l_tokens = tokens, l_requests = requests, l_children = children, l_depth = depth,
          l_cost = cost, l_output = output, l_rates = c_rates c\<rparr>))))))"

definition new_budget_row :: "time \<Rightarrow> limits \<Rightarrow> budget_row" where
  "new_budget_row dl l =
     \<lparr>deadline = dl, b_limits = l, b_requests = 0, b_tokens = 0, b_cost = 0, b_children = 0\<rparr>"

definition insert_budget :: "budget_config \<Rightarrow> time \<Rightarrow> owner \<Rightarrow> task_id \<Rightarrow> limits \<Rightarrow> ('a budget_db_scheme) \<Rightarrow>
    (unit \<times> ('a budget_db_scheme)) result" where
  "insert_budget c t ow k l db =
     bind_result (if map_of (task_budgets db) (ow, k) = None
        then bind_result (numeric_int ''AGENT_TASK_LIMIT'' (c_limit c) False) (\<lambda>n.
          guard (\<not> int (length (task_budgets db)) \<ge> n)
            (BudgetExhausted ''Task budget storage limit reached''))
        else Inr ()) (\<lambda>_.
     bind_result (numeric ''AGENT_TASK_DEADLINE_SECONDS'' (c_deadline c) False) (\<lambda>d.
     Inr ((), db\<lparr>task_budgets := insert_or_ignore (ow, k) (new_budget_row (t + d) l) (task_budgets db)\<rparr>)))"

text \<open>
  \<open>TaskBudget.__init__\<close>: the limits in force are those of the stored row, so a restart under
  another configuration does not change them.
\<close>

definition open_budget :: "budget_config \<Rightarrow> time \<Rightarrow> owner \<Rightarrow> task_id \<Rightarrow> ('a budget_db_scheme) \<Rightarrow>
    task_budget result \<times> ('a budget_db_scheme)" where
  "open_budget c t ow k db =
     (case bind_result (configured_limits c) (\<lambda>l.
        bind_result (numeric_int ''AGENT_MODEL_CONCURRENCY'' (c_concurrency c) False) (\<lambda>n. Inr (l, n))) of
      Inl e \<Rightarrow> (Inl e, db)
    | Inr (l, n) \<Rightarrow> (case insert_budget c t ow k l db of
        Inl e \<Rightarrow> (Inl e, db)
      | Inr (_, db') \<Rightarrow> (case map_of (task_budgets db') (ow, k) of
          None \<Rightarrow> (Inl (TypeError ''no budget row''), db')
        | Some row \<Rightarrow>
            (if \<not> is_dict (l_rates (b_limits row))
             then Inl (ValueError ''AGENT_MODEL_RATES must be an object'')
             else Inr \<lparr>bud_owner = ow, bud_key = k, bud_limits = b_limits row, bud_concurrency = n\<rparr>, db'))))"

definition snapshot :: "task_budget \<Rightarrow> ('a budget_db_scheme) \<Rightarrow> budget_row result" where
  "snapshot b db = (case map_of (task_budgets db) (bud_owner b, bud_key b) of
     None \<Rightarrow> Inl (TypeError ''no budget row'') | Some row \<Rightarrow> Inr row)"

text \<open>\<open>contract\<close>; \<open>repr\<close> is how Python writes a float.\<close>

definition limits_json :: "(real \<Rightarrow> pystr) \<Rightarrow> limits \<Rightarrow> json" where
  "limits_json repr l = JObj [(''tokens'', JInt (l_tokens l)), (''requests'', JInt (l_requests l)),
     (''children'', JInt (l_children l)), (''depth'', JInt (l_depth l)),
     (''cost'', JFloat (repr (l_cost l))), (''output'', JInt (l_output l)), (''rates'', l_rates l)]"

definition budget_contract :: "(real \<Rightarrow> pystr) \<Rightarrow> task_budget \<Rightarrow> ('a budget_db_scheme) \<Rightarrow> json result" where
  "budget_contract repr b db = bind_result (snapshot b db) (\<lambda>row.
     validate_budget_contract (JObj [(''schema_version'', JInt 1),
       (''root_ref'', JStr (sha256 (bud_owner b @ char_of (0::nat) # bud_key b))),
       (''deadline'', JFloat (repr (deadline row))), (''limits'', limits_json repr (b_limits row))]))"

definition remaining_seconds :: "time \<Rightarrow> task_budget \<Rightarrow> ('a budget_db_scheme) \<Rightarrow> time result" where
  "remaining_seconds t b db = bind_result (snapshot b db) (\<lambda>row. Inr (max 0 (deadline row - t)))"

section \<open>Spending\<close>

definition over_budget :: "task_budget \<Rightarrow> budget_row \<Rightarrow> bool" where
  "over_budget b row \<longleftrightarrow> b_tokens row > l_tokens (bud_limits b)
     \<or> (l_cost (bud_limits b) \<noteq> 0 \<and> b_cost row > l_cost (bud_limits b))"

definition budget_check :: "time \<Rightarrow> task_budget \<Rightarrow> ('a budget_db_scheme) \<Rightarrow> unit result" where
  "budget_check t b db =
     bind_result (assert_owner_active db (bud_owner b)) (\<lambda>_.
     bind_result (snapshot b db) (\<lambda>row.
     if deadline row \<le> t then Inl (BudgetExhausted ''Task deadline exhausted'')
     else guard (\<not> over_budget b row) (BudgetExhausted ''Task token/cost budget exceeded'')))"

definition set_budget :: "task_budget \<Rightarrow> (budget_row \<Rightarrow> budget_row) \<Rightarrow> ('a budget_db_scheme) \<Rightarrow> ('a budget_db_scheme)" where
  "set_budget b f db =
     db\<lparr>task_budgets := update_key (bud_owner b, bud_key b) (\<lambda>_. True) f (task_budgets db)\<rparr>"

definition reserve_child :: "time \<Rightarrow> int \<Rightarrow> task_budget \<Rightarrow> ('a budget_db_scheme) \<Rightarrow>
    unit result \<times> ('a budget_db_scheme)" where
  "reserve_child t depth b db = txn db (bind_result (snapshot b db) (\<lambda>row.
     if deadline row \<le> t \<or> b_children row \<ge> l_children (bud_limits b) \<or> depth \<ge> l_depth (bud_limits b)
     then Inl (BudgetExhausted ''Task child count/depth/deadline budget exhausted'')
     else Inr ((), set_budget b (\<lambda>r. r\<lparr>b_children := b_children r + 1\<rparr>) db)))"

text \<open>\<open>float(rate.get(name, -1))\<close>.\<close>

definition rate_number :: "(pystr \<Rightarrow> real option) \<Rightarrow> json \<Rightarrow> real option result" where
  "rate_number text v = (case v of
     JInt i \<Rightarrow> Inr (Some (real_of_int i)) | JFloat s \<Rightarrow> Inr (float_value s)
   | JBool x \<Rightarrow> Inr (Some (if x then 1 else 0))
   | JStr s \<Rightarrow> (case text s of None \<Rightarrow> Inl (ValueError ''could not convert string to float'')
        | Some x \<Rightarrow> Inr (Some x))
   | _ \<Rightarrow> Inl (TypeError ''float() argument''))"

definition model_rates :: "(pystr \<Rightarrow> real option) \<Rightarrow> task_budget \<Rightarrow> pystr \<Rightarrow> (real \<times> real) result" where
  "model_rates text b model = (let rate = jget (l_rates (bud_limits b)) model in
     if \<not> is_dict rate
     then Inl (BudgetExhausted ''Cost cap requires configured rates for this model'')
     else bind_result (py_get rate ''input'' (JInt (-1))) (\<lambda>ri.
       bind_result (rate_number text ri) (\<lambda>i.
       bind_result (py_get rate ''output'' (JInt (-1))) (\<lambda>ro.
       bind_result (rate_number text ro) (\<lambda>out.
       case (i, out) of
         (Some x, Some y) \<Rightarrow> if 0 \<le> x \<and> 0 \<le> y then Inr (x, y)
            else Inl (ValueError ''Model rates must be finite nonnegative USD per million tokens'')
       | _ \<Rightarrow> Inl (ValueError ''Model rates must be finite nonnegative USD per million tokens''))))))"

definition price :: "int \<Rightarrow> int \<Rightarrow> real \<times> real \<Rightarrow> real" where
  "price prompt output r = (real_of_int prompt * fst r + real_of_int output * snd r) / 1000000"

definition refusals :: "time \<Rightarrow> task_budget \<Rightarrow> int \<Rightarrow> real \<Rightarrow> budget_row \<Rightarrow> pystr list" where
  "refusals t b tokens cost row =
     (if deadline row \<le> t then [''deadline''] else [])
     @ (if b_requests row \<ge> l_requests (bud_limits b)
        then [''requests ('' @ show_int (b_requests row) @ ''/'' @ show_int (l_requests (bud_limits b)) @ '')'']
        else [])
     @ (if b_tokens row + tokens > l_tokens (bud_limits b)
        then [''tokens ('' @ show_int (b_tokens row) @ '' + '' @ show_int tokens @ '' > ''
               @ show_int (l_tokens (bud_limits b)) @ '')''] else [])
     @ (if l_cost (bud_limits b) \<noteq> 0 \<and> b_cost row + cost > l_cost (bud_limits b) then [''cost''] else [])"

definition charge :: "pystr \<Rightarrow> int \<Rightarrow> real \<Rightarrow> (real \<times> real) option \<Rightarrow> task_budget \<Rightarrow>
    ('a budget_db_scheme) \<Rightarrow> ('a budget_db_scheme) result" where
  "charge key tokens cost rates b db =
     (let db1 = set_budget b (\<lambda>r. r\<lparr>b_requests := b_requests r + 1, b_tokens := b_tokens r + tokens,
            b_cost := b_cost r + cost\<rparr>) db in
      case insert_row key \<lparr>call_owner = bud_owner b, call_task = bud_key b, call_tokens = tokens,
             call_cost = cost, call_status = Reserved\<rparr> (budget_calls db1) of
        None \<Rightarrow> Inl (ValueError ''UNIQUE constraint failed: budget_calls.id'')
      | Some calls \<Rightarrow> (case rates of
          None \<Rightarrow> Inr (db1\<lparr>budget_calls := calls\<rparr>)
        | Some r \<Rightarrow> (case insert_row key r (budget_rates db1) of
            None \<Rightarrow> Inl (ValueError ''UNIQUE constraint failed: budget_rates.id'')
          | Some rs \<Rightarrow> Inr (db1\<lparr>budget_calls := calls, budget_rates := rs\<rparr>))))"

definition reserve :: "(pystr \<Rightarrow> real option) \<Rightarrow> time \<Rightarrow> pystr \<Rightarrow> pystr \<Rightarrow> int \<Rightarrow> int \<Rightarrow> task_budget \<Rightarrow>
    ('a budget_db_scheme) \<Rightarrow> pystr result \<times> ('a budget_db_scheme)" where
  "reserve text t key model prompt output b db =
     (case (if l_cost (bud_limits b) \<noteq> 0 then map_sum id Some (model_rates text b model) else Inr None) of
        Inl e \<Rightarrow> (Inl e, db)
      | Inr rates \<Rightarrow>
          (let cost = (case rates of None \<Rightarrow> 0 | Some r \<Rightarrow> price prompt output r);
               tokens = prompt + output in
           txn db (bind_result (snapshot b db) (\<lambda>row.
             if refusals t b tokens cost row \<noteq> []
             then Inl (BudgetExhausted (''Task budget exhausted: '' @ py_join '', '' (refusals t b tokens cost row)))
             else bind_result (charge key tokens cost rates b db) (\<lambda>db'. Inr (key, db'))))))"

section \<open>Reconciling with the provider's usage\<close>

text \<open>The usage object: its total, and the prompt and completion counts where they are integers.\<close>

record usage =
  u_total :: json
  u_prompt :: "int option"
  u_output :: "int option"

definition actual_cost :: "task_budget \<Rightarrow> ('a budget_db_scheme) \<Rightarrow> pystr \<Rightarrow> usage \<Rightarrow> int \<Rightarrow> real \<Rightarrow> real" where
  "actual_cost b db key u reported old =
     (if l_cost (bud_limits b) = 0 then old
      else case (map_of (budget_rates db) key, u_prompt u) of
        (Some r, Some p) \<Rightarrow>
          if 0 \<le> p then max old (price p (case u_output u of
                 Some n \<Rightarrow> if 0 \<le> n then n else max 0 (reported - p) | None \<Rightarrow> max 0 (reported - p)) r)
          else old
      | _ \<Rightarrow> old)"

definition reconcile :: "pystr \<Rightarrow> usage option \<Rightarrow> bool \<Rightarrow> task_budget \<Rightarrow> ('a budget_db_scheme) \<Rightarrow>
    unit result \<times> ('a budget_db_scheme)" where
  "reconcile key usage settle b db = (case usage of
     None \<Rightarrow> (Inr (), db)
   | Some u \<Rightarrow> (case u_total u of
       JInt n \<Rightarrow>
         (if n < 0 then (Inr (), db)
          else case map_of (budget_calls db) key of
            None \<Rightarrow> (Inr (), db)
          | Some call \<Rightarrow>
              if call_owner call \<noteq> bud_owner b \<or> call_task call \<noteq> bud_key b \<or> call_status call \<noteq> Reserved
              then (Inr (), db)
              else
                (let charged = (if settle then n else max n (call_tokens call));
                     cost = actual_cost b db key u n (call_cost call);
                     db1 = set_budget b (\<lambda>r. r\<lparr>b_tokens := b_tokens r + (charged - call_tokens call),
                        b_cost := b_cost r + (cost - call_cost call)\<rparr>) db;
                     db2 = db1\<lparr>budget_calls := update_key key (\<lambda>_. True) (\<lambda>c. c\<lparr>
                        call_status := (if settle then Reported else Reserved), call_tokens := charged,
                        call_cost := cost\<rparr>) (budget_calls db1)\<rparr>
                 in (case snapshot b db2 of
                      Inl e \<Rightarrow> (Inl e, db)
                    | Inr row \<Rightarrow> (if over_budget b row
                        then Inl (BudgetExhausted
                          ''Provider usage exceeded reserved token budget; refusing further tools'')
                        else Inr (), db2))))
     | _ \<Rightarrow> (Inr (), db)))"

section \<open>Model slots\<close>

text \<open>
  One turn of the acquisition loop of \<open>slot\<close>: expired slots are purged, and a slot is taken
  if fewer than \<open>concurrency\<close> are live.  The loop repeats it while it answers \<open>Inr False\<close>.
\<close>

definition try_slot :: "time \<Rightarrow> pystr \<Rightarrow> bool \<Rightarrow> task_budget \<Rightarrow> ('a budget_db_scheme) \<Rightarrow>
    bool result \<times> ('a budget_db_scheme)" where
  "try_slot t key cancelled b db = (case budget_check t b db of
     Inl e \<Rightarrow> (Inl e, db)
   | Inr _ \<Rightarrow>
       if cancelled then (Inl (BudgetExhausted ''Task cancelled while waiting for model capacity''), db)
       else (let live = delete_where (\<lambda>_ x. x \<le> t) (model_slots db) in
         if int (length live) < bud_concurrency b
         then (case insert_row key (t + 65) live of
             None \<Rightarrow> (Inl (ValueError ''UNIQUE constraint failed: model_slots.id''), db)
           | Some ss \<Rightarrow> (Inr True, db\<lparr>model_slots := ss\<rparr>))
         else (Inr False, db\<lparr>model_slots := live\<rparr>)))"

definition renew_slot :: "time \<Rightarrow> pystr \<Rightarrow> ('a budget_db_scheme) \<Rightarrow> ('a budget_db_scheme)" where
  "renew_slot t key db = db\<lparr>model_slots := update_key key (\<lambda>_. True) (\<lambda>_. t + 65) (model_slots db)\<rparr>"

definition release_slot :: "pystr \<Rightarrow> ('a budget_db_scheme) \<Rightarrow> ('a budget_db_scheme)" where
  "release_slot key db = db\<lparr>model_slots := delete_where (\<lambda>k _. k = key) (model_slots db)\<rparr>"

end
