(* ===== verification/Budget_Properties.thy ===== *)
theory Budget_Properties
  imports Budgets Leases
begin

text \<open>
  What the root budget guarantees: the counters of a budget row are exactly the sums over its
  recorded calls, admission refuses precisely the requests that would exceed a limit, the
  limits of a task never change, and the model slots stay within the concurrency limit.
\<close>

section \<open>Histories\<close>

datatype budget_op =
    OpenOp budget_config owner task_id
  | ReserveOp owner task_id pystr pystr int int
  | ReconcileOp owner task_id pystr "usage option" bool
  | ChildOp owner task_id int
  | SlotOp owner task_id int pystr bool
  | RenewSlotOp pystr
  | ReleaseSlotOp pystr

text \<open>The handle a \<open>TaskBudget\<close> of a stored row is: its limits are the stored ones.\<close>

definition handle :: "owner \<Rightarrow> task_id \<Rightarrow> int \<Rightarrow> budget_row \<Rightarrow> task_budget" where
  "handle ow k n row = \<lparr>bud_owner = ow, bud_key = k, bud_limits = b_limits row, bud_concurrency = n\<rparr>"

definition with_handle :: "owner \<Rightarrow> task_id \<Rightarrow> int \<Rightarrow> (task_budget \<Rightarrow> ('a budget_db_scheme)) \<Rightarrow>
    ('a budget_db_scheme) \<Rightarrow> ('a budget_db_scheme)" where
  "with_handle ow k n f db = (case map_of (task_budgets db) (ow, k) of
     None \<Rightarrow> db | Some row \<Rightarrow> f (handle ow k n row))"

fun budget_step :: "(pystr \<Rightarrow> real option) \<Rightarrow> time \<Rightarrow> budget_op \<Rightarrow> ('a budget_db_scheme) \<Rightarrow> ('a budget_db_scheme)" where
  "budget_step text t (OpenOp c ow k) db = snd (open_budget c t ow k db)"
| "budget_step text t (ReserveOp ow k key model p out) db =
     with_handle ow k 0 (\<lambda>b. snd (reserve text t key model p out b db)) db"
| "budget_step text t (ReconcileOp ow k key u settle) db =
     with_handle ow k 0 (\<lambda>b. snd (reconcile key u settle b db)) db"
| "budget_step text t (ChildOp ow k depth) db = with_handle ow k 0 (\<lambda>b. snd (reserve_child t depth b db)) db"
| "budget_step text t (SlotOp ow k n key cancelled) db =
     with_handle ow k n (\<lambda>b. snd (try_slot t key cancelled b db)) db"
| "budget_step text t (RenewSlotOp key) db = renew_slot t key db"
| "budget_step text t (ReleaseSlotOp key) db = release_slot key db"

lemma open_budget_handle:
  "open_budget c t ow k db = (Inr b, db') \<Longrightarrow>
     \<exists>row. map_of (task_budgets db') (ow, k) = Some row \<and> b = handle ow k (bud_concurrency b) row"
  by (auto simp: open_budget_def handle_def split: sum.splits prod.splits option.splits if_splits)

section \<open>The books balance\<close>

definition mine :: "owner \<Rightarrow> task_id \<Rightarrow> call_row \<Rightarrow> bool" where
  "mine ow k c \<longleftrightarrow> call_owner c = ow \<and> call_task c = k"

definition row_balanced :: "(pystr, call_row) table \<Rightarrow> owner \<Rightarrow> task_id \<Rightarrow> budget_row \<Rightarrow> bool" where
  "row_balanced calls ow k row \<longleftrightarrow>
     b_requests row = sum_where (mine ow k) (\<lambda>_. 1) calls
     \<and> b_tokens row = sum_where (mine ow k) call_tokens calls
     \<and> b_cost row = sum_where (mine ow k) call_cost calls
     \<and> (b_requests row = 0 \<or> b_requests row \<le> l_requests (b_limits row))
     \<and> (b_children row = 0 \<or> b_children row \<le> l_children (b_limits row))"

definition books :: "(owner \<times> task_id, budget_row) table \<Rightarrow> (pystr, call_row) table \<Rightarrow> bool" where
  "books tb calls \<longleftrightarrow>
     (\<forall>ow k row. map_of tb (ow, k) = Some row \<longrightarrow> row_balanced calls ow k row)
     \<and> (\<forall>c \<in> snd ` set calls. map_of tb (call_owner c, call_task c) \<noteq> None)"

lemma booksD: "books tb calls \<Longrightarrow> map_of tb (ow, k) = Some row \<Longrightarrow> row_balanced calls ow k row"
  by (simp add: books_def)

lemma books_owned: "books tb calls \<Longrightarrow> c \<in> snd ` set calls \<Longrightarrow> map_of tb (call_owner c, call_task c) \<noteq> None"
  unfolding books_def by blast

lemma booksI:
  "(\<And>o' k' r. map_of tb (o', k') = Some r \<Longrightarrow> row_balanced calls o' k' r) \<Longrightarrow>
   (\<And>c. c \<in> snd ` set calls \<Longrightarrow> map_of tb (call_owner c, call_task c) \<noteq> None) \<Longrightarrow> books tb calls"
  unfolding books_def by blast

text \<open>Changing one row and the calls of its task only.\<close>

lemma books_update:
  assumes "books tb calls" "map_of tb (ow, k) = Some row" "row_balanced calls' ow k (g row)"
    and other: "\<And>o' k' r. (o', k') \<noteq> (ow, k) \<Longrightarrow> row_balanced calls o' k' r \<Longrightarrow> row_balanced calls' o' k' r"
    and owned: "\<And>c. c \<in> snd ` set calls' \<Longrightarrow>
      mine ow k c \<or> (\<exists>d \<in> snd ` set calls. call_owner d = call_owner c \<and> call_task d = call_task c)"
  shows "books (update_key (ow, k) (\<lambda>_. True) g tb) calls'"
proof (rule booksI)
  fix o' k' r assume r: "map_of (update_key (ow, k) (\<lambda>_. True) g tb) (o', k') = Some r"
  show "row_balanced calls' o' k' r"
  proof (cases "(o', k') = (ow, k)")
    case True
    with r assms(2,3) show ?thesis by (auto simp: update_key_lookup)
  next
    case False
    then have "map_of tb (o', k') = Some r" using r by (auto simp: update_key_lookup)
    with other [OF False] booksD [OF assms(1)] show ?thesis by blast
  qed
next
  fix c assume "c \<in> snd ` set calls'"
  from owned [OF this] have "map_of tb (call_owner c, call_task c) \<noteq> None"
  proof
    assume "mine ow k c"
    then show ?thesis using assms(2) by (simp add: mine_def)
  next
    assume "\<exists>d \<in> snd ` set calls. call_owner d = call_owner c \<and> call_task d = call_task c"
    then obtain d where "d \<in> snd ` set calls" "call_owner d = call_owner c" "call_task d = call_task c"
      by blast
    with books_owned [OF assms(1), of d] show ?thesis by simp
  qed
  then show "map_of (update_key (ow, k) (\<lambda>_. True) g tb) (call_owner c, call_task c) \<noteq> None"
    by (auto simp: update_key_lookup)
qed

lemma books_insert:
  assumes "books tb calls"
  shows "books (insert_or_ignore (ow, k) (new_budget_row d l) tb) calls"
proof (rule booksI)
  fix o' k' r assume r: "map_of (insert_or_ignore (ow, k) (new_budget_row d l) tb) (o', k') = Some r"
  show "row_balanced calls o' k' r"
  proof (cases "map_of tb (o', k')")
    case None
    then have "\<not> mine o' k' c" if "c \<in> snd ` set calls" for c
      using books_owned [OF assms that] by (auto simp: mine_def)
    moreover have "r = new_budget_row d l"
      using None r by (auto simp: insert_or_ignore_lookup split: option.splits if_splits)
    ultimately show ?thesis by (simp add: row_balanced_def new_budget_row_def sum_where_zero)
  next
    case (Some old)
    then have "r = old" using r by (auto simp: insert_or_ignore_lookup split: option.splits if_splits)
    with Some booksD [OF assms] show ?thesis by blast
  qed
next
  fix c assume "c \<in> snd ` set calls"
  from books_owned [OF assms this]
  show "map_of (insert_or_ignore (ow, k) (new_budget_row d l) tb) (call_owner c, call_task c) \<noteq> None"
    by (auto simp: insert_or_ignore_lookup split: option.splits)
qed

lemma balanced_other: "\<not> mine ow k c \<Longrightarrow> row_balanced (calls @ [(key, c)]) ow k r = row_balanced calls ow k r"
  by (simp add: row_balanced_def)

lemma books_charge:
  assumes "books tb calls" "map_of tb (ow, k) = Some row" "mine ow k c"
    "b_requests row < l_requests (b_limits row)"
  shows "books (update_key (ow, k) (\<lambda>_. True) (\<lambda>r. r\<lparr>b_requests := b_requests r + 1,
      b_tokens := b_tokens r + call_tokens c, b_cost := b_cost r + call_cost c\<rparr>) tb) (calls @ [(key, c)])"
proof (rule books_update [OF assms(1,2)])
  show "row_balanced (calls @ [(key, c)]) ow k (row\<lparr>b_requests := b_requests row + 1,
      b_tokens := b_tokens row + call_tokens c, b_cost := b_cost row + call_cost c\<rparr>)"
    using booksD [OF assms(1,2)] assms(3,4) by (simp add: row_balanced_def)
qed (use assms(3) in \<open>auto simp: mine_def balanced_other\<close>)

lemma books_child:
  assumes "books tb calls" "map_of tb (ow, k) = Some row" "b_children row < l_children (b_limits row)"
  shows "books (update_key (ow, k) (\<lambda>_. True) (\<lambda>r. r\<lparr>b_children := b_children r + 1\<rparr>) tb) calls"
proof (rule books_update [OF assms(1,2)])
  show "row_balanced calls ow k (row\<lparr>b_children := b_children row + 1\<rparr>)"
    using booksD [OF assms(1,2)] assms(3) by (auto simp: row_balanced_def)
qed auto

lemma update_values: "v \<in> snd ` set (AList.update k x t) \<Longrightarrow> v = x \<or> v \<in> snd ` set t"
  by (induction t) (auto split: if_splits)

lemma books_adjust:
  assumes "books tb calls" "map_of tb (ow, k) = Some row" "map_of calls key = Some c" "mine ow k c"
  shows "books (update_key (ow, k) (\<lambda>_. True) (\<lambda>r. r\<lparr>b_tokens := b_tokens r + (n - call_tokens c),
      b_cost := b_cost r + (x - call_cost c)\<rparr>) tb)
    (update_key key (\<lambda>_. True) (\<lambda>c. c\<lparr>call_status := st, call_tokens := n, call_cost := x\<rparr>) calls)"
proof (rule books_update [OF assms(1,2)])
  have m: "mine o' k' (v\<lparr>call_status := st, call_tokens := n, call_cost := x\<rparr>) = mine o' k' v" for o' k' v
    by (simp add: mine_def)
  let ?calls = "update_key key (\<lambda>_. True) (\<lambda>c. c\<lparr>call_status := st, call_tokens := n, call_cost := x\<rparr>) calls"
  show "row_balanced ?calls ow k (row\<lparr>b_tokens := b_tokens row + (n - call_tokens c),
      b_cost := b_cost row + (x - call_cost c)\<rparr>)"
    using booksD [OF assms(1,2)] assms(4) by (auto simp: row_balanced_def sum_where_update_key [OF assms(3)] m)
  show "row_balanced ?calls o' k' r" if "(o', k') \<noteq> (ow, k)" "row_balanced calls o' k' r" for o' k' r
  proof -
    have "\<not> mine o' k' c" using that(1) assms(4) by (auto simp: mine_def)
    then show ?thesis using that(2) by (auto simp: row_balanced_def sum_where_update_key [OF assms(3)] m)
  qed
  show "mine ow k d \<or> (\<exists>d' \<in> snd ` set calls. call_owner d' = call_owner d \<and> call_task d' = call_task d)"
    if "d \<in> snd ` set ?calls" for d
    using that assms(3,4) update_values [of d key _ calls]
    by (fastforce simp: update_key_def mine_def)
qed

lemma charge_Inr:
  assumes "charge key tokens cost rates b db = Inr db'"
  shows "task_budgets db' = update_key (bud_owner b, bud_key b) (\<lambda>_. True) (\<lambda>r. r\<lparr>
      b_requests := b_requests r + 1, b_tokens := b_tokens r + tokens, b_cost := b_cost r + cost\<rparr>) (task_budgets db)"
    and "budget_calls db' = budget_calls db @ [(key, \<lparr>call_owner = bud_owner b, call_task = bud_key b,
      call_tokens = tokens, call_cost = cost, call_status = Reserved\<rparr>)]"
    and "model_slots db' = model_slots db"
  using assms by (auto simp: charge_def set_budget_def insert_row_append Let_def split: option.splits)

lemma reserve_Inr:
  assumes "reserve text t key model p out b db = (Inr w, db')"
  shows "\<exists>rates row. w = key \<and> snapshot b db = Inr row
     \<and> (let cost = (case rates of None \<Rightarrow> 0 | Some r \<Rightarrow> price p out r) in
         refusals t b (p + out) cost row = [] \<and> charge key (p + out) cost rates b db = Inr db')"
  using assms
  by (auto simp: reserve_def txn_Inr Let_def map_sum_def intro: exI [of _ None] split: sum.splits if_splits)

lemma reserve_Inl: "reserve text t key model p out b db = (Inl e, db') \<Longrightarrow> db' = db"
  by (auto simp: reserve_def Let_def txn_Inl split: sum.splits)

lemma reserve_books:
  assumes "books (task_budgets db) (budget_calls db)" "map_of (task_budgets db) (ow, k) = Some row"
  shows "books (task_budgets (snd (reserve text t key model p out (handle ow k n row) db)))
    (budget_calls (snd (reserve text t key model p out (handle ow k n row) db)))"
proof -
  obtain res db' where r: "reserve text t key model p out (handle ow k n row) db = (res, db')" by fastforce
  show ?thesis
  proof (cases res)
    case (Inl e)
    with r assms(1) reserve_Inl show ?thesis by fastforce
  next
    case (Inr w)
    then obtain cost rates where c: "charge key (p + out) cost rates (handle ow k n row) db = Inr db'"
        "refusals t (handle ow k n row) (p + out) cost row = []"
      using reserve_Inr r assms(2) by (fastforce simp: Let_def snapshot_def handle_def)
    then have "b_requests row < l_requests (b_limits row)"
      by (simp add: refusals_def handle_def split: if_splits)
    with books_charge [OF assms, of "\<lparr>call_owner = ow, call_task = k, call_tokens = p + out,
        call_cost = cost, call_status = Reserved\<rparr>" key]
    show ?thesis using charge_Inr [OF c(1)] r by (simp add: handle_def mine_def)
  qed
qed

lemma reconcile_books:
  assumes "books (task_budgets db) (budget_calls db)" "map_of (task_budgets db) (ow, k) = Some row"
  shows "books (task_budgets (snd (reconcile key u settle (handle ow k n row) db)))
    (budget_calls (snd (reconcile key u settle (handle ow k n row) db)))"
  using assms(1) books_adjust [OF assms]
  by (auto simp: reconcile_def handle_def set_budget_def snapshot_def Let_def mine_def
      split: option.splits json.splits sum.splits)

lemma budget_step_books:
  "books (task_budgets db) (budget_calls db) \<Longrightarrow>
   books (task_budgets (budget_step text t a db)) (budget_calls (budget_step text t a db))"
proof (cases a)
  case (OpenOp c ow k)
  then show "books (task_budgets db) (budget_calls db) \<Longrightarrow> ?thesis"
    by (auto simp: open_budget_def insert_budget_def books_insert split: sum.splits option.splits)
next
  case (ReserveOp ow k key model p out)
  then show "books (task_budgets db) (budget_calls db) \<Longrightarrow> ?thesis"
    by (auto simp: with_handle_def reserve_books split: option.splits)
next
  case (ReconcileOp ow k key u settle)
  then show "books (task_budgets db) (budget_calls db) \<Longrightarrow> ?thesis"
    by (auto simp: with_handle_def reconcile_books split: option.splits)
next
  case (ChildOp ow k depth)
  then show "books (task_budgets db) (budget_calls db) \<Longrightarrow> ?thesis"
    by (auto simp: with_handle_def reserve_child_def handle_def snapshot_def set_budget_def txn_def
        intro!: books_child split: option.splits)
qed (auto simp: with_handle_def try_slot_def renew_slot_def release_slot_def Let_def
       split: option.splits sum.splits)

text \<open>
  C9: budget accounting is exact along any history of openings, reservations, reconciliations
  (partial or final, in any order, for known or unknown calls), child reservations and slot
  operations of any tasks: starting without budgets, the request, token and cost counters of
  every task are exactly the count and the sums over its recorded calls, and neither the
  number of requests nor the number of children passes its limit.
\<close>

theorem budget_accounting_exact:
  assumes "task_budgets db = []" and "budget_calls db = []"
    and "map_of (task_budgets (run_ops (budget_step text) tr db)) (ow, k) = Some row"
  shows "row_balanced (budget_calls (run_ops (budget_step text) tr db)) ow k row"
proof -
  have "books (task_budgets (run_ops (budget_step text) tr db)) (budget_calls (run_ops (budget_step text) tr db))"
    by (rule run_ops_invariant [where I = "\<lambda>db. books (task_budgets db) (budget_calls db)"])
      (simp_all only: budget_step_books assms, simp add: books_def)
  with assms(3) show ?thesis by (simp add: books_def)
qed

definition demo_config :: budget_config where
  "demo_config = \<lparr>c_tokens = Some 100, c_requests = Some 2, c_children = Some 1, c_depth = Some 1,
     c_cost = Some 0, c_output = Some 5, c_concurrency = Some 4, c_limit = Some 9, c_deadline = Some 600,
     c_rates = JObj [], c_text_rate = (\<lambda>_. None)\<rparr>"

definition demo_limits :: limits where
  "demo_limits = \<lparr>l_tokens = 100, l_requests = 2, l_children = 1, l_depth = 1, l_cost = 0, l_output = 5,
     l_rates = JObj []\<rparr>"

definition demo_budget_db :: budget_db where
  "demo_budget_db = task_db.extend empty_db
     \<lparr>task_budgets = [], budget_calls = [], budget_rates = [], model_slots = []\<rparr>"

definition demo_trace :: "(time \<times> budget_op) list" where
  "demo_trace = [(0, OpenOp demo_config ''o'' ''k''), (1, ReserveOp ''o'' ''k'' ''c'' ''m'' 25 5)]"

definition demo_row :: budget_row where
  "demo_row = new_budget_row 600 demo_limits\<lparr>b_requests := 1, b_tokens := 30\<rparr>"

lemmas demo_budget_defs = demo_budget_db_def demo_trace_def demo_config_def demo_limits_def demo_row_def
  empty_db_def task_db.defs open_budget_def configured_limits_def numeric_int_def numeric_def
  insert_budget_def insert_or_ignore_def with_handle_def handle_def reserve_def snapshot_def refusals_def
  charge_def set_budget_def update_key_def insert_row_def new_budget_row_def Let_def

lemma demo_run:
  "map_of (task_budgets (run_ops (budget_step (\<lambda>_. None)) demo_trace demo_budget_db)) (''o'', ''k'') = Some demo_row"
  "budget_calls (run_ops (budget_step (\<lambda>_. None)) demo_trace demo_budget_db) =
     [(''c'', \<lparr>call_owner = ''o'', call_task = ''k'', call_tokens = 30, call_cost = 0, call_status = Reserved\<rparr>)]"
  by (simp_all add: demo_budget_defs)

theorem budget_accounting_exact_witness:
  "row_balanced [(''c'', \<lparr>call_owner = ''o'', call_task = ''k'', call_tokens = 30, call_cost = 0,
     call_status = Reserved\<rparr>)] ''o'' ''k'' demo_row"
  using budget_accounting_exact [of demo_budget_db "\<lambda>_. None" demo_trace "''o''" "''k''" demo_row]
  by (simp add: demo_run) (simp add: demo_budget_db_def task_db.defs)

section \<open>Admission\<close>

text \<open>
  C10: a reservation is admitted exactly when the deadline has not passed and the request, its
  tokens and, under a cost cap, its price fit into what is left; the row is charged in the
  same transaction, so the new totals stay within the limits.  A refusal is a
  BudgetExhausted and leaves the whole database as it was.
\<close>

theorem reservation_within_limits:
  assumes row: "map_of (task_budgets db) (bud_owner b, bud_key b) = Some row"
    and rates: "l_cost (bud_limits b) = 0 \<and> cost = 0
      \<or> l_cost (bud_limits b) \<noteq> 0 \<and> model_rates text b model = Inr r \<and> cost = price p out r"
    and fresh: "map_of (budget_calls db) key = None" "map_of (budget_rates db) key = None"
  shows "case reserve text t key model p out b db of
      (Inr w, db') \<Rightarrow> w = key \<and> t < deadline row \<and> b_requests row < l_requests (bud_limits b)
        \<and> b_tokens row + (p + out) \<le> l_tokens (bud_limits b)
        \<and> (l_cost (bud_limits b) = 0 \<or> b_cost row + cost \<le> l_cost (bud_limits b))
        \<and> map_of (task_budgets db') (bud_owner b, bud_key b) = Some (row\<lparr>b_requests := b_requests row + 1,
            b_tokens := b_tokens row + (p + out), b_cost := b_cost row + cost\<rparr>)
    | (Inl e, db') \<Rightarrow> db' = db \<and> (\<exists>why. e = BudgetExhausted why)
        \<and> (deadline row \<le> t \<or> l_requests (bud_limits b) \<le> b_requests row
           \<or> l_tokens (bud_limits b) < b_tokens row + (p + out)
           \<or> (l_cost (bud_limits b) \<noteq> 0 \<and> l_cost (bud_limits b) < b_cost row + cost))"
proof -
  let ?rates = "if l_cost (bud_limits b) = 0 then None else Some r"
  have "(if l_cost (bud_limits b) \<noteq> 0 then map_sum id Some (model_rates text b model) else Inr None) = Inr ?rates"
    and cost: "(case ?rates of None \<Rightarrow> 0 | Some r \<Rightarrow> price p out r) = cost"
    using rates by auto
  then have r: "reserve text t key model p out b db =
      txn db (if refusals t b (p + out) cost row \<noteq> []
        then Inl (BudgetExhausted (''Task budget exhausted: '' @ py_join '', '' (refusals t b (p + out) cost row)))
        else bind_result (charge key (p + out) cost ?rates b db) (\<lambda>db'. Inr (key, db')))"
    using row by (simp add: reserve_def snapshot_def)
  show ?thesis
  proof (cases "refusals t b (p + out) cost row = []")
    case True
    obtain db' where c: "charge key (p + out) cost ?rates b db = Inr db'"
      using fresh by (cases "charge key (p + out) cost ?rates b db")
        (auto simp: charge_def set_budget_def insert_row_def Let_def split: if_splits)
    then show ?thesis
      using True row r charge_Inr(1) [OF c] by (auto simp: refusals_def update_key_lookup split: if_splits)
  next
    case False
    then show ?thesis unfolding r by (auto simp: refusals_def split: if_splits)
  qed
qed

definition demo_handle :: task_budget where
  "demo_handle = \<lparr>bud_owner = ''o'', bud_key = ''k'', bud_limits = demo_limits, bud_concurrency = 4\<rparr>"

definition demo_funded :: budget_db where
  "demo_funded = demo_budget_db\<lparr>task_budgets := [((''o'', ''k''), new_budget_row 600 demo_limits)]\<rparr>"

theorem reservation_within_limits_witness:
  "fst (reserve (\<lambda>_. None) 1 ''c'' ''m'' 25 5 demo_handle demo_funded) = Inr ''c''
   \<and> snd (reserve (\<lambda>_. None) 1 ''c'' ''m'' 99 5 demo_handle demo_funded) = demo_funded"
  using reservation_within_limits [of demo_funded demo_handle "new_budget_row 600 demo_limits" 0
      "\<lambda>_. None" "''m''" "(0, 0)" 25 5 "''c''" 1]
    reservation_within_limits [of demo_funded demo_handle "new_budget_row 600 demo_limits" 0
      "\<lambda>_. None" "''m''" "(0, 0)" 99 5 "''c''" 1]
  by (auto simp: demo_funded_def demo_budget_db_def task_db.defs demo_handle_def demo_limits_def
      new_budget_row_def split: prod.splits sum.splits)

section \<open>Limits are fixed at the first opening\<close>

definition fixed_limits :: "owner \<Rightarrow> task_id \<Rightarrow> time \<Rightarrow> limits \<Rightarrow> ('a budget_db_scheme) \<Rightarrow> bool" where
  "fixed_limits ow k d l db \<longleftrightarrow> (\<exists>row. map_of (task_budgets db) (ow, k) = Some row
     \<and> deadline row = d \<and> b_limits row = l)"

lemma budgets_untouched:
  "task_budgets (snd (try_slot t key c b db)) = task_budgets db"
  "task_budgets (renew_slot t key db) = task_budgets db"
  "task_budgets (release_slot key db) = task_budgets db"
  by (auto simp: try_slot_def renew_slot_def release_slot_def Let_def split: sum.splits option.splits)

lemma fixed_update:
  assumes "fixed_limits ow k d l db" "task_budgets db' = update_key key c g (task_budgets db)"
    and g: "\<And>r. deadline (g r) = deadline r \<and> b_limits (g r) = b_limits r"
  shows "fixed_limits ow k d l db'"
proof -
  obtain row where row: "map_of (task_budgets db) (ow, k) = Some row" "deadline row = d" "b_limits row = l"
    using assms(1) by (auto simp: fixed_limits_def)
  then have "map_of (task_budgets db') (ow, k) = Some (if key = (ow, k) \<and> c row then g row else row)"
    by (auto simp: assms(2) update_key_lookup)
  with row g show ?thesis by (simp add: fixed_limits_def)
qed

lemma reserve_fixed:
  "fixed_limits ow k d l db \<Longrightarrow> fixed_limits ow k d l (snd (reserve text t key model p out b db))"
proof (cases "reserve text t key model p out b db")
  case (Pair res db')
  assume f: "fixed_limits ow k d l db"
  show ?thesis
  proof (cases res)
    case (Inl e)
    with f Pair reserve_Inl show ?thesis by fastforce
  next
    case (Inr w)
    then obtain rates cost where "charge key (p + out) cost rates b db = Inr db'"
      using reserve_Inr Pair by (fastforce simp: Let_def)
    from fixed_update [OF f charge_Inr(1) [OF this]] Pair show ?thesis by simp
  qed
qed

lemma reconcile_fixed:
  "fixed_limits ow k d l db \<Longrightarrow> fixed_limits ow k d l (snd (reconcile key u settle b db))"
  by (auto simp: reconcile_def set_budget_def Let_def split: option.splits json.splits sum.splits
      intro: fixed_update)

lemma budget_step_fixed:
  "fixed_limits ow k d l db \<Longrightarrow> fixed_limits ow k d l (budget_step text t a db)"
proof (cases a)
  case (OpenOp c o' k')
  then show "fixed_limits ow k d l db \<Longrightarrow> ?thesis"
    by (auto simp: fixed_limits_def open_budget_def insert_budget_def insert_or_ignore_lookup
        split: sum.splits option.splits)
next
  case (ChildOp o' k' depth)
  then show "fixed_limits ow k d l db \<Longrightarrow> ?thesis"
    by (auto simp: with_handle_def reserve_child_def set_budget_def txn_def
        split: option.splits sum.splits intro: fixed_update)
next
  case (ReserveOp o' k' key model p out)
  then show "fixed_limits ow k d l db \<Longrightarrow> ?thesis"
    by (auto simp: with_handle_def reserve_fixed split: option.splits)
next
  case (ReconcileOp o' k' key u settle)
  then show "fixed_limits ow k d l db \<Longrightarrow> ?thesis"
    by (auto simp: with_handle_def reconcile_fixed split: option.splits)
qed (auto simp: with_handle_def budgets_untouched fixed_limits_def split: option.splits)

text \<open>
  a restart cannot enlarge a budget.  Once a task has a budget row, its deadline and
  limits are the same after any history of operations, under any later configuration, and
  whoever opens the budget again works with exactly the stored limits.
\<close>

theorem limits_survive_restart:
  assumes "map_of (task_budgets db) (ow, k) = Some row"
    and "open_budget c t ow k (run_ops (budget_step text) tr db) = (Inr b, db')"
  shows "bud_limits b = b_limits row
    \<and> (\<exists>row'. map_of (task_budgets db') (ow, k) = Some row' \<and> deadline row' = deadline row
         \<and> b_limits row' = b_limits row)"
proof -
  let ?db = "run_ops (budget_step text) tr db"
  have "fixed_limits ow k (deadline row) (b_limits row) ?db"
    by (rule run_ops_invariant [where I = "fixed_limits ow k (deadline row) (b_limits row)"])
      (simp_all add: budget_step_fixed, simp add: fixed_limits_def assms(1))
  from budget_step_fixed [OF this, of "text" t "OpenOp c ow k"] assms(2)
  have f: "fixed_limits ow k (deadline row) (b_limits row) db'" by simp
  from open_budget_handle [OF assms(2)] f have "bud_limits b = b_limits row"
    by (auto simp: fixed_limits_def) (metis handle_def task_budget.select_convs(3))
  with f show ?thesis by (auto simp: fixed_limits_def)
qed

definition demo_larger :: budget_config where
  "demo_larger = demo_config\<lparr>c_tokens := Some 9000, c_requests := Some 50\<rparr>"

theorem limits_survive_restart_witness:
  "\<exists>b db'. open_budget demo_larger 5 ''o'' ''k''
       (run_ops (budget_step (\<lambda>_. None)) [(1, ReserveOp ''o'' ''k'' ''c'' ''m'' 25 5)] demo_funded) = (Inr b, db')
     \<and> bud_limits b = demo_limits"
proof -
  let ?db = "run_ops (budget_step (\<lambda>_. None)) [(1, ReserveOp ''o'' ''k'' ''c'' ''m'' 25 5)] demo_funded"
  obtain b db' where o: "open_budget demo_larger 5 ''o'' ''k'' ?db = (Inr b, db')"
    by (simp add: demo_funded_def demo_larger_def demo_budget_defs)
  moreover have "map_of (task_budgets demo_funded) (''o'', ''k'') = Some (new_budget_row 600 demo_limits)"
    by (simp add: demo_funded_def)
  from limits_survive_restart [OF this o] have "bud_limits b = demo_limits"
    by (simp add: new_budget_row_def)
  ultimately show ?thesis by blast
qed

end
