(* ===== verification/Acceptance.thy ===== *)
theory Acceptance
  imports PyText Sha256
begin

text \<open>
  \<open>agent_execution/acceptance.py\<close>: frozen acceptance contracts and the observable checks that
  decide them.  The workspace is an argument: what a path resolves to, whether it is a file,
  its size and its content, and what a test run reports.
\<close>

section \<open>Validation\<close>

definition field_text :: "json \<Rightarrow> pystr \<Rightarrow> bool" where
  "field_text v k \<longleftrightarrow> (case jget v k of JStr s \<Rightarrow> s \<noteq> [] | _ \<Rightarrow> False)"

definition check_kind :: "json \<Rightarrow> pystr" where
  "check_kind c = jtext_of (jget c ''kind'')"

definition min_tests :: "json \<Rightarrow> json" where
  "min_tests c = (case jfield c ''min_tests'' of None \<Rightarrow> JInt 1 | Some v \<Rightarrow> v)"

definition validate_check :: "json \<Rightarrow> unit result" where
  "validate_check c =
     (let kind = check_kind c; field = (if kind = ''tests'' then ''target'' else ''path'') in
      if is_list (jget c ''kind'') \<or> is_dict (jget c ''kind'') then Inl (TypeError ''unhashable type'')
      else if \<not> is_dict c \<or> \<not> is_str (jget c ''kind'')
         \<or> kind \<notin> set [''file_exists'', ''file_contains'', ''file_sha256'', ''tests'']
      then Inl (ValueError ''Unsupported acceptance check'')
      else if \<not> field_text c field then Inl (ValueError (''Acceptance check requires '' @ field))
      else if kind = ''file_contains'' \<and> \<not> field_text c ''text''
      then Inl (ValueError ''file_contains requires nonempty text'')
      else if kind = ''file_sha256'' \<and> (case jget c ''sha256'' of JStr s \<Rightarrow> py_len s \<noteq> 64 | _ \<Rightarrow> True)
      then Inl (ValueError ''file_sha256 requires a SHA-256 hex digest'')
      else if kind = ''tests'' \<and> (case min_tests c of JInt i \<Rightarrow> i < 1 | _ \<Rightarrow> True)
      then Inl (ValueError ''tests requires at least one test'')
      else Inr ())"

fun validate_checks :: "json list \<Rightarrow> unit result" where
  "validate_checks [] = Inr ()"
| "validate_checks (c # cs) = bind_result (validate_check c) (\<lambda>_. validate_checks cs)"

definition validate_contract :: "json \<Rightarrow> json result" where
  "validate_contract v =
     (if \<not> is_dict v \<or> jget v ''version'' \<noteq> JInt 1
      then Inl (ValueError ''Acceptance contract requires version 1'')
      else if \<not> is_list (jget v ''checks'') \<or> length (jitems (jget v ''checks'')) > 32
      then Inl (ValueError ''Acceptance checks must be a list with at most 32 entries'')
      else bind_result (validate_checks (jitems (jget v ''checks''))) (\<lambda>_. Inr v))"

text \<open>The configured file: absent, or its size and its parsed content.\<close>

definition load_contract :: "(int \<times> json) option \<Rightarrow> pystr \<Rightarrow> json result" where
  "load_contract f goal = (case f of
     None \<Rightarrow> Inr (JObj [(''goal'', JStr goal), (''version'', JInt 1), (''checks'', JArr [])])
   | Some (bytes, v) \<Rightarrow> if bytes > 65536 then Inl (ValueError ''Acceptance contract exceeds 64 KiB'')
       else bind_result (validate_contract v) (\<lambda>c. Inr (jset c ''goal'' (JStr goal))))"

section \<open>Verification\<close>

text \<open>
  \<open>w_resolve\<close>: the path below the workspace root, or \<open>None\<close> outside it; \<open>w_file\<close>: the bytes of
  a regular file with its size, and whether they are UTF-8; \<open>w_tests\<close>: the normalized result
  of a test run (success, exit code, number of tests that passed, the whole report), or the
  name of the exception it raised.
\<close>

record workspace =
  w_resolve :: "pystr \<Rightarrow> pystr option"
  w_file :: "pystr \<Rightarrow> (nat \<times> pystr \<times> bool) option"
  w_tests :: "pystr \<Rightarrow> pystr + (bool \<times> json \<times> int \<times> json)"

definition code_suffixes :: "pystr list" where
  "code_suffixes = [''.py'', ''.go'', ''.js'', ''.jsx'', ''.ts'', ''.tsx'', ''.java'', ''.rs'', ''.c'', ''.cpp'', ''.cs'']"

text \<open>\<open>Path(p).suffix.lower()\<close>: from the last dot of the last component, unless it leads or ends it.\<close>

definition path_suffix :: "pystr \<Rightarrow> pystr" where
  "path_suffix p = (let parts = filter (\<lambda>x. x \<noteq> [] \<and> x \<noteq> ''.'') (py_split (CHR ''/'') p);
      name = (case rev parts of [] \<Rightarrow> [] | x # _ \<Rightarrow> x);
      stem = rev (dropWhile (\<lambda>c. c \<noteq> CHR ''.'') (rev name));
      ext = drop (length stem) name
    in if length stem \<le> 1 \<or> ext = [] then [] else CHR ''.'' # map ascii_lower ext)"

text \<open>\<open>read_text\<close> reads every end of line (CR LF, CR) as LF.\<close>

fun universal_newlines :: "bool \<Rightarrow> pystr \<Rightarrow> pystr" where
  "universal_newlines cr [] = []"
| "universal_newlines cr (c # s) =
     (if cr \<and> c = CHR 0x0A then universal_newlines False s
      else if c = CHR 0x0D then CHR 0x0A # universal_newlines True s
      else c # universal_newlines False s)"

text \<open>One check: whether it passed, or the exception that made it unavailable.\<close>

definition run_check :: "workspace \<Rightarrow> json \<Rightarrow> pystr + (bool \<times> json list)" where
  "run_check w c = (let kind = check_kind c in
     if kind = ''tests'' then
       (case w_resolve w (jtext_of (jget c ''target'')) of
         None \<Rightarrow> Inl ''PermissionError''
       | Some _ \<Rightarrow> (case w_tests w (jtext_of (jget c ''target'')) of
           Inl e \<Rightarrow> Inl e
         | Inr (success, exit_code, passed, report) \<Rightarrow>
             Inr (success \<and> exit_code = JInt 0 \<and> passed \<ge> jint_of (min_tests c), [report])))
     else (case w_resolve w (jtext_of (jget c ''path'')) of
         None \<Rightarrow> Inl ''PermissionError''
       | Some p \<Rightarrow>
           (let evidence = (\<lambda>ok. [JObj [(''kind'', JStr kind), (''path'', jget c ''path''),
                (''passed'', JBool ok)]]) in
            case w_file w p of
              None \<Rightarrow> Inr (False, evidence False)
            | Some (bytes, data, utf8) \<Rightarrow>
                if kind = ''file_exists'' then Inr (True, evidence True)
                else if bytes > 8 * 1024 * 1024 then Inl ''ValueError''
                else if kind = ''file_contains'' then
                  (if utf8 then (let ok = contains_sub (jtext_of (jget c ''text'')) (universal_newlines False data) in Inr (ok, evidence ok))
                   else Inl ''UnicodeDecodeError'')
                else (let ok = (sha256 data = map ascii_lower (jtext_of (jget c ''sha256''))) in
                  Inr (ok, evidence ok)))))"

record verdict =
  v_results :: "(pystr \<times> bool) list"
  v_errors :: "pystr list"
  v_evidence :: "json list"

definition check_key :: "nat \<Rightarrow> json \<Rightarrow> pystr" where
  "check_key i c = ''acceptance:'' @ show_nat i @ '':'' @ check_kind c"

text \<open>A budget that runs out ends the verification; any other failure makes the check fail.\<close>

fun run_checks :: "workspace \<Rightarrow> nat \<Rightarrow> json list \<Rightarrow> verdict \<Rightarrow> verdict result" where
  "run_checks w i [] v = Inr v"
| "run_checks w i (c # cs) v = (case run_check w c of
     Inl e \<Rightarrow> if e = ''BudgetExhausted'' then Inl (BudgetExhausted [])
       else run_checks w (Suc i) cs (v\<lparr>v_results := v_results v @ [(check_key i c, False)],
         v_errors := v_errors v @ [''Acceptance check unavailable: '' @ check_key i c @ '' ('' @ e @ '')'']\<rparr>)
   | Inr (ok, ev) \<Rightarrow> run_checks w (Suc i) cs (v\<lparr>v_results := v_results v @ [(check_key i c, ok)],
       v_errors := v_errors v @ (if ok then [] else [''Acceptance check failed: '' @ check_key i c]),
       v_evidence := v_evidence v @ ev\<rparr>))"

definition code_without_tests :: "json list \<Rightarrow> bool" where
  "code_without_tests cs \<longleftrightarrow>
     list_ex (\<lambda>c. check_kind c \<noteq> ''tests'' \<and> path_suffix (jtext_of (jget c ''path'')) \<in> set code_suffixes) cs
     \<and> \<not> list_ex (\<lambda>c. check_kind c = ''tests'') cs"

definition verify_contract :: "workspace \<Rightarrow> json \<Rightarrow> verdict result" where
  "verify_contract w contract = bind_result (validate_contract contract) (\<lambda>c.
     let cs = jitems (jget c ''checks'') in
     run_checks w 0 cs (if code_without_tests cs
       then \<lparr>v_results = [(''acceptance:tests_required'', False)],
             v_errors = [''Code acceptance requires an explicit tests check''], v_evidence = []\<rparr>
       else \<lparr>v_results = [], v_errors = [], v_evidence = []\<rparr>))"

section \<open>Soundness of the verdict\<close>

lemma run_checks_sound:
  "run_checks w i cs v = Inr v' \<Longrightarrow> v_errors v' = [] \<Longrightarrow>
   v_errors v = [] \<and> list_all (\<lambda>c. \<exists>ev. run_check w c = Inr (True, ev)) cs"
proof (induction w i cs v rule: run_checks.induct)
  case (2 w i c cs v)
  show ?case
  proof (cases "run_check w c")
    case (Inl e)
    with 2 show ?thesis by (auto split: if_splits)
  next
    case (Inr r)
    obtain ok ev where "r = (ok, ev)" by (cases r)
    with Inr 2 show ?thesis by (cases ok) auto
  qed
qed simp

lemma validate_checks_all: "validate_checks cs = Inr () \<longleftrightarrow> list_all (\<lambda>c. validate_check c = Inr ()) cs"
  by (induction cs) auto

lemma validate_contract_id: "validate_contract v = Inr c \<Longrightarrow>
    c = v \<and> list_all (\<lambda>c. validate_check c = Inr ()) (jitems (jget v ''checks''))"
  by (auto simp: validate_contract_def validate_checks_all split: if_splits)

lemma valid_tests_min: "validate_check c = Inr () \<Longrightarrow> check_kind c = ''tests'' \<Longrightarrow> 1 \<le> jint_of (min_tests c)"
  by (auto simp: validate_check_def Let_def split: if_splits json.splits)

lemma tests_check_passed:
  "run_check w c = Inr (True, ev) \<Longrightarrow> check_kind c = ''tests'' \<Longrightarrow>
   \<exists>n report. w_tests w (jtext_of (jget c ''target'')) = Inr (True, JInt 0, n, report) \<and> jint_of (min_tests c) \<le> n"
  by (auto simp: run_check_def split: option.splits sum.splits)

text \<open>
  C12: acceptance is never claimed without an observation.  If the verification of a contract
  reports no error, the contract was valid, every one of its checks was actually run on the
  workspace and passed, no check on a code file went without a test check, and no test check
  passed on a failing exit code or with fewer passed tests than the contract asks for (at
  least one).
\<close>

theorem acceptance_is_observed:
  assumes "verify_contract w contract = Inr v" and "v_errors v = []"
  shows "validate_contract contract = Inr contract
    \<and> \<not> code_without_tests (jitems (jget contract ''checks''))
    \<and> (\<forall>c \<in> set (jitems (jget contract ''checks'')). (\<exists>ev. run_check w c = Inr (True, ev))
        \<and> (check_kind c = ''tests'' \<longrightarrow> (\<exists>n report. w_tests w (jtext_of (jget c ''target'')) =
             Inr (True, JInt 0, n, report) \<and> 1 \<le> n \<and> jint_of (min_tests c) \<le> n)))"
proof -
  let ?cs = "jitems (jget contract ''checks'')"
  obtain c where c: "validate_contract contract = Inr c" using assms(1) by (auto simp: verify_contract_def)
  with validate_contract_id have v: "c = contract" "list_all (\<lambda>c. validate_check c = Inr ()) ?cs" by auto
  let ?v = "if code_without_tests ?cs
       then \<lparr>v_results = [(''acceptance:tests_required'', False)],
             v_errors = [''Code acceptance requires an explicit tests check''], v_evidence = []\<rparr>
       else \<lparr>v_results = [], v_errors = [], v_evidence = []\<rparr>"
  have "run_checks w 0 ?cs ?v = Inr v"
    using assms(1) c v(1) by (simp add: verify_contract_def Let_def)
  from run_checks_sound [OF this assms(2)]
  have n: "\<not> code_without_tests ?cs" and a: "list_all (\<lambda>c. \<exists>ev. run_check w c = Inr (True, ev)) ?cs"
    by (auto split: if_splits)
  have "\<exists>n report. w_tests w (jtext_of (jget d ''target'')) = Inr (True, JInt 0, n, report)
      \<and> 1 \<le> n \<and> jint_of (min_tests d) \<le> n" if d: "d \<in> set ?cs" "check_kind d = ''tests''" for d
  proof -
    obtain ev where "run_check w d = Inr (True, ev)" using a d(1) by (auto simp: list_all_iff)
    from tests_check_passed [OF this d(2)] valid_tests_min [OF _ d(2)] v(2) d(1)
    show ?thesis by (fastforce simp: list_all_iff)
  qed
  with c v(1) n a show ?thesis by (simp add: list_all_iff)
qed

definition demo_workspace :: workspace where
  "demo_workspace = \<lparr>w_resolve = (\<lambda>p. Some p), w_file = (\<lambda>p. if p = ''a.txt'' then Some (5, ''hello'', True) else None),
     w_tests = (\<lambda>_. Inr (True, JInt 0, 3, JObj []))\<rparr>"

definition demo_contract :: json where
  "demo_contract = JObj [(''version'', JInt 1), (''checks'', JArr [
     JObj [(''kind'', JStr ''file_contains''), (''path'', JStr ''a.txt''), (''text'', JStr ''ell'')],
     JObj [(''kind'', JStr ''tests''), (''target'', JStr ''t'')]])]"

lemma demo_verified:
  "\<exists>v. verify_contract demo_workspace demo_contract = Inr v \<and> v_errors v = []"
  by (simp add: verify_contract_def demo_contract_def validate_contract_def validate_check_def check_kind_def
      jget_def field_text_def min_tests_def code_without_tests_def path_suffix_def code_suffixes_def Let_def
      run_check_def demo_workspace_def is_prefix_of_def is_list_def is_dict_def is_str_def)

theorem acceptance_is_observed_witness:
  "list_all (\<lambda>c. \<exists>ev. run_check demo_workspace c = Inr (True, ev)) (jitems (jget demo_contract ''checks''))"
  using demo_verified acceptance_is_observed [of demo_workspace demo_contract]
  unfolding list_all_iff by blast

end
