(* ===== verification/Submissions.thy ===== *)
theory Submissions
  imports Budgets Acceptance Tasks
begin

text \<open>
  \<open>agent_execution/temporal_backend/store.py\<close>: the durable hand-over of a task to the Temporal
  backend.  A task is bound to one backend once; a submission is accepted together with its
  task row, protocol and budget contract in one transaction, started by at most one activity
  under a fence, and ended by a result, a failure, a workflow end or a cancellation.
\<close>

text \<open>The contract column holds the canonical text of the value kept here.\<close>

record temporal_db = budget_db +
  host_token :: pystr
  protocols :: "(pystr, pystr \<times> int) table"
  budget_contracts :: "(pystr, json) table"

record settings =
  s_address :: pystr
  s_namespace :: pystr
  s_engine :: pystr
  s_file_writes :: bool

section \<open>Queues and protocols\<close>

definition queue_suffix :: "pystr \<Rightarrow> pystr option" where
  "queue_suffix engine =
     (if engine = ''bridge'' then Some ''-readonly-v1'' else if engine = ''steps'' then Some ''-steps-readonly-v1''
      else if engine = ''human'' then Some ''-steps-readonly-v2''
      else if engine = ''approval'' then Some ''-steps-readonly-v3'' else None)"

definition queue_for :: "('a temporal_db_scheme) \<Rightarrow> pystr \<Rightarrow> pystr result" where
  "queue_for db engine = (case queue_suffix engine of
     None \<Rightarrow> Inl (ValueError ''Unknown Temporal engine'')
   | Some sfx \<Rightarrow> Inr (''pythonai-host-'' @ host_token db @ sfx))"

definition protocol_of :: "pystr \<Rightarrow> (pystr \<times> int) option" where
  "protocol_of engine =
     (if engine = ''bridge'' then Some (WORKFLOW_NAME, 1) else if engine = ''steps'' then Some (STEP_WORKFLOW_NAME, 1)
      else if engine = ''human'' then Some (HUMAN_WORKFLOW_NAME, 2)
      else if engine = ''approval'' then Some (APPROVAL_WORKFLOW_NAME, 3) else None)"

definition engine_of :: "pystr \<times> int \<Rightarrow> pystr option" where
  "engine_of p =
     (if p = (WORKFLOW_NAME, 1) then Some ''bridge'' else if p = (STEP_WORKFLOW_NAME, 1) then Some ''steps''
      else if p = (HUMAN_WORKFLOW_NAME, 2) then Some ''human''
      else if p = (APPROVAL_WORKFLOW_NAME, 3) then Some ''approval'' else None)"

definition workflow_type :: "('a temporal_db_scheme) \<Rightarrow> pystr \<Rightarrow> submission \<Rightarrow> pystr result" where
  "workflow_type db key row = (case map_of (protocols db) key of
     None \<Rightarrow> if queue_for db ''bridge'' \<noteq> Inr (sub_queue row)
       then Inl (ValueError ''Missing execution protocol for non-legacy submission'')
       else Inr WORKFLOW_NAME
   | Some p \<Rightarrow> (case engine_of p of
       None \<Rightarrow> Inl (ValueError ''Unsupported Temporal execution protocol'')
     | Some engine \<Rightarrow> if queue_for db engine \<noteq> Inr (sub_queue row)
         then Inl (ValueError ''Execution protocol does not match its persisted queue'')
         else Inr (fst p)))"

section \<open>Reading\<close>

definition get_submission :: "('a temporal_db_scheme) \<Rightarrow> pystr \<Rightarrow> owner option \<Rightarrow> submission result" where
  "get_submission db key ow = (case map_of (submissions db) key of
     None \<Rightarrow> Inl (KeyError ''Temporal task not found in this scope'')
   | Some row \<Rightarrow> if (case ow of None \<Rightarrow> False | Some o' \<Rightarrow> sub_owner row \<noteq> o')
       then Inl (KeyError ''Temporal task not found in this scope'') else Inr row)"

definition for_task :: "('a temporal_db_scheme) \<Rightarrow> owner \<Rightarrow> task_id \<Rightarrow> (pystr \<times> submission) option" where
  "for_task db ow k = find (\<lambda>(_, s). sub_owner s = ow \<and> sub_task s = k) (submissions db)"

definition oldest :: "(pystr \<times> submission) list \<Rightarrow> (pystr \<times> submission) list" where
  "oldest rows = take 100 (sort_key (\<lambda>(_, s). sub_updated s) rows)"

definition pending_submissions :: "('a temporal_db_scheme) \<Rightarrow> (pystr \<times> submission) list" where
  "pending_submissions db = oldest (select_where (\<lambda>_ s. sub_state s = SPending) (submissions db))"

definition active_submissions :: "('a temporal_db_scheme) \<Rightarrow> (pystr \<times> submission) list" where
  "active_submissions db = oldest (select_where (\<lambda>_ s. sub_state s = SDispatched \<or> sub_state s = SRunning) (submissions db))"

section \<open>Binding a task to a backend\<close>

definition bind_task :: "env \<Rightarrow> trial_setting \<Rightarrow> owner \<Rightarrow> task_id \<Rightarrow> pystr \<Rightarrow> ('a temporal_db_scheme) \<Rightarrow>
    pystr result \<times> ('a temporal_db_scheme)" where
  "bind_task e trial ow k requested db =
     (if k = [] \<or> py_len k > 256 then (Inl (ValueError ''Task ID must contain 1..256 characters''), db)
      else txn db (
        bind_result (assert_owner_active db ow) (\<lambda>_.
        bind_result (assert_not_erased db ow k) (\<lambda>_.
        let bs = (case execution_bindings db of None \<Rightarrow> [] | Some bs \<Rightarrow> bs) in
        case map_of bs (ow, k) of
          Some backend \<Rightarrow> Inr (backend, db)
        | None \<Rightarrow>
            if requested \<notin> set [''sqlite'', ''temporal''] then Inl (ValueError ''Unknown task backend'')
            else bind_result (positive_limit ''AGENT_TASK_LIMIT'' (task_limit e)) (\<lambda>limit.
              if int (length bs) \<ge> limit then Inl (ValueError ''Execution binding capacity reached'')
              else bind_result (if map_of (tasks db) (ow, k) \<noteq> None then Inr ''sqlite''
                     else new_backend trial ow requested) (\<lambda>backend.
                Inr (backend, db\<lparr>execution_bindings := Some (bs @ [((ow, k), backend)])\<rparr>)))))))"

section \<open>Submitting\<close>

definition READ_TOOLS :: "pystr list" where
  "READ_TOOLS = [''read_file'', ''list_files'', ''fetch_url'', ''git_status'', ''git_diff'', ''search_codebase'',
     ''code_symbols'', ''go_to_definition'', ''find_references'', ''workspace_info'']"

definition STEP_TOOLS :: "pystr list" where
  "STEP_TOOLS = READ_TOOLS @ [''ask_user'']"

definition FILE_WRITE_TOOLS :: "pystr list" where
  "FILE_WRITE_TOOLS = [''create_directory'', ''write_file'', ''edit_file'']"

text \<open>\<open>file_writes.capabilities\<close>: the tools of a persisted scope under a workflow type.\<close>

definition capabilities :: "json \<Rightarrow> pystr option \<Rightarrow> pystr list result" where
  "capabilities scope workflow = (let flag = jget scope ''file_writes'' in
     if flag \<noteq> JNull \<and> (flag \<noteq> JInt 1 \<or> workflow \<noteq> Some APPROVAL_WORKFLOW_NAME)
     then Inl (PermissionError ''Invalid persisted file-write policy'')
     else (let base = (if workflow = Some HUMAN_WORKFLOW_NAME \<or> workflow = Some APPROVAL_WORKFLOW_NAME
             then STEP_TOOLS else READ_TOOLS)
           in Inr (if flag = JInt 1 then base @ FILE_WRITE_TOOLS else base)))"

definition submission_bytes :: "('a temporal_db_scheme) \<Rightarrow> nat" where
  "submission_bytes db = column_sum (\<lambda>_ s. jtext_bytes (sub_input s) + jtext_bytes (sub_context s)
     + opt_bytes (sub_result s)) (submissions db)"

definition latest_user :: "json list \<Rightarrow> json option" where
  "latest_user ms = find (\<lambda>m. jget m ''role'' = JStr ''user'') (rev ms)"

definition canonical_text :: "json \<Rightarrow> jtext" where
  "canonical_text v = JText False True (sort_keys v)"

text \<open>The new rows of an accepted submission, and the transaction that writes them.\<close>

definition temporal_task :: "env \<Rightarrow> pystr \<Rightarrow> json \<Rightarrow> json list \<Rightarrow> json \<Rightarrow> task_row" where
  "temporal_task e g crit messages context =
     \<lparr>goal = g, criteria = canonical_text crit, tstate = Pending, phase = ''temporal_pending'',
      checkpoint_doc = canonical_text (JObj [(''messages'', JArr messages)]),
      episode = (case jget (jget context ''publication'') ''episode'' of JInt i \<Rightarrow> Some i | _ \<Rightarrow> None),
      reply = None, lease_owner = None, lease_until = None, attempts = 0, recoveries = 0,
      verification = ''unverified'', updated = now e\<rparr>"

definition new_submission :: "env \<Rightarrow> owner \<Rightarrow> task_id \<Rightarrow> pystr \<Rightarrow> pystr \<Rightarrow> json list \<Rightarrow> json \<Rightarrow> pystr \<Rightarrow> settings \<Rightarrow>
    pystr \<Rightarrow> submission" where
  "new_submission e ow k key fingerprint messages context role st queue =
     \<lparr>sub_owner = ow, sub_task = k,
      sub_workflow = ''pythonai/'' @ py_take 24 (digest (JStr ow)) @ ''/'' @ key,
      sub_digest = fingerprint, sub_input = canonical_text (JArr messages), sub_context = canonical_text context,
      sub_role = role, sub_address = s_address st, sub_namespace = s_namespace st, sub_queue = queue,
      sub_state = SPending, sub_fence = None, sub_result = None, sub_attempts = 0, sub_error = None,
      sub_updated = now e\<rparr>"

definition write_submission :: "env \<Rightarrow> owner \<Rightarrow> task_id \<Rightarrow> pystr \<Rightarrow> json \<Rightarrow> json list \<Rightarrow> json \<Rightarrow> pystr \<Rightarrow>
    settings \<Rightarrow> pystr \<Rightarrow> json \<Rightarrow> pystr \<times> int \<Rightarrow> pystr \<Rightarrow> json \<Rightarrow> ('a temporal_db_scheme) \<Rightarrow>
    (pystr \<times> submission) \<times> ('a temporal_db_scheme)" where
  "write_submission e ow k key latest messages context role st queue contract protocol g crit db =
     (let row = new_submission e ow k key (digest latest) messages context role st queue in
      ((key, row), db\<lparr>
         finalizations := (if jget context ''publication'' = JNull then finalizations db
           else Some (case finalizations db of None \<Rightarrow> [] | Some fs \<Rightarrow> fs)),
         tasks := tasks db @ [((ow, k), temporal_task e g crit messages context)],
         submissions := submissions db @ [(key, row)],
         protocols := protocols db @ [(key, protocol)],
         budget_contracts := budget_contracts db @ [(key, contract)]\<rparr>))"

definition accept_submission :: "env \<Rightarrow> (int \<times> json) option \<Rightarrow> owner \<Rightarrow> task_id \<Rightarrow> pystr \<Rightarrow> json \<Rightarrow> json list \<Rightarrow>
    json \<Rightarrow> pystr \<Rightarrow> settings \<Rightarrow> pystr \<Rightarrow> json \<Rightarrow> ('a temporal_db_scheme) \<Rightarrow>
    ((pystr \<times> submission) \<times> ('a temporal_db_scheme)) result" where
  "accept_submission e afile ow k key latest messages context role st queue contract db =
     (let n = int (jtext_bytes (canonical_text (JArr messages)) + jtext_bytes (canonical_text context)) in
      bind_result (capabilities context (if s_engine st = ''approval'' then Some APPROVAL_WORKFLOW_NAME else None)) (\<lambda>_.
      bind_result (guard (\<not> (jget context ''file_writes'' \<noteq> JNull \<and> (\<not> s_file_writes st \<or> role \<noteq> ''admin'')))
        (PermissionError ''File-write submission is not explicitly authorized'')) (\<lambda>_.
      bind_result (capacity e db n) (\<lambda>_.
      bind_result (positive_limit ''AGENT_TASK_LIMIT'' (task_limit e)) (\<lambda>limit.
      bind_result (guard (\<not> int (length (tasks db)) \<ge> limit)
        (ValueError ''Task record capacity reached'')) (\<lambda>_.
      bind_result (positive_limit ''AGENT_TASK_STORAGE_BYTES'' (task_storage_bytes e)) (\<lambda>storage.
      bind_result (guard (\<not> int (submission_bytes db) + n > storage)
        (ValueError ''Temporal local storage capacity reached'')) (\<lambda>_.
      bind_result (guard (map_of (tasks db) (ow, k) = None)
        (ValueError ''Legacy task cannot be resubmitted as Temporal'')) (\<lambda>_.
      bind_result (guard (is_str (jget latest ''content''))
        (ValueError ''M0 Temporal accepts text-only user tasks'')) (\<lambda>_.
      let g = py_take 16000 (jtext_of (jget latest ''content'')) in
      bind_result (load_contract afile g) (\<lambda>crit.
      case protocol_of (s_engine st) of
        None \<Rightarrow> Inl (KeyError (s_engine st))
      | Some protocol \<Rightarrow> Inr (write_submission e ow k key latest messages context role st queue contract
          protocol g crit db))))))))))))"

definition submit_txn :: "env \<Rightarrow> (int \<times> json) option \<Rightarrow> owner \<Rightarrow> task_id \<Rightarrow> pystr \<Rightarrow> json \<Rightarrow> json list \<Rightarrow> json \<Rightarrow>
    pystr \<Rightarrow> settings \<Rightarrow> pystr \<Rightarrow> json \<Rightarrow> ('a temporal_db_scheme) \<Rightarrow>
    ((pystr \<times> submission) \<times> ('a temporal_db_scheme)) result" where
  "submit_txn e afile ow k key latest messages context role st queue contract db =
     bind_result (assert_owner_active db ow) (\<lambda>_.
     bind_result (assert_not_erased db ow k) (\<lambda>_.
     bind_result (guard (case execution_bindings db of None \<Rightarrow> False | Some bs \<Rightarrow> map_of bs (ow, k) = Some ''temporal'')
       (ValueError ''Task is not bound to Temporal'')) (\<lambda>_.
     case for_task db ow k of
       Some (key', old) \<Rightarrow>
         if sub_digest old \<noteq> digest latest
         then Inl (ValueError ''Task ID cannot be reused with different input'')
         else if (case map_of (budget_contracts db) key' of None \<Rightarrow> False | Some c \<Rightarrow> canonical c \<noteq> canonical contract)
         then Inl (PermissionError ''Root budget contract changed'')
         else Inr ((key', old), db)
     | None \<Rightarrow> accept_submission e afile ow k key latest messages context role st queue contract db)))"

text \<open>
  \<open>submit\<close>: opening the budget is its own committed transaction; \<open>w\<close> is the new submission's
  \<open>uuid4().hex\<close>.
\<close>

definition submit :: "env \<Rightarrow> budget_config \<Rightarrow> (real \<Rightarrow> pystr) \<Rightarrow> (int \<times> json) option \<Rightarrow> owner \<Rightarrow> task_id \<Rightarrow> pystr \<Rightarrow>
    json list \<Rightarrow> json \<Rightarrow> pystr \<Rightarrow> settings \<Rightarrow> ('a temporal_db_scheme) \<Rightarrow>
    (pystr \<times> submission) result \<times> ('a temporal_db_scheme)" where
  "submit e cfg repr afile ow k w messages context role st db =
     (case open_budget cfg (now e) ow k db of
        (Inl x, db1) \<Rightarrow> (Inl x, db1)
      | (Inr b, db1) \<Rightarrow> (case budget_contract repr b db1 of
          Inl x \<Rightarrow> (Inl x, db1)
        | Inr c \<Rightarrow> (case latest_user messages of
            None \<Rightarrow> (Inl (ValueError ''Temporal task requires a user input''), db1)
          | Some latest \<Rightarrow>
              (if jtext_bytes (canonical_text (JArr messages)) > 1024 * 1024
                  \<or> jtext_bytes (canonical_text context) > 16384
               then (Inl (ValueError ''M0 Temporal input exceeds 1 MiB local storage limit''), db1)
               else case queue_for db1 (s_engine st) of
                 Inl x \<Rightarrow> (Inl x, db1)
               | Inr queue \<Rightarrow> txn db1 (submit_txn e afile ow k w latest messages context role st queue
                    c db1)))))"

definition verify_budget_contract :: "budget_config \<Rightarrow> (real \<Rightarrow> pystr) \<Rightarrow> time \<Rightarrow> pystr \<Rightarrow> submission \<Rightarrow>
    ('a temporal_db_scheme) \<Rightarrow> json option result \<times> ('a temporal_db_scheme)" where
  "verify_budget_contract cfg repr t key row db = (case map_of (budget_contracts db) key of
     None \<Rightarrow> (Inr None, db)
   | Some saved \<Rightarrow> (case validate_budget_contract saved of
       Inl x \<Rightarrow> (Inl x, db)
     | Inr contract \<Rightarrow> (case open_budget cfg t (sub_owner row) (sub_task row) db of
         (Inl x, db1) \<Rightarrow> (Inl x, db1)
       | (Inr b, db1) \<Rightarrow> (case budget_contract repr b db1 of
           Inl x \<Rightarrow> (Inl x, db1)
         | Inr current \<Rightarrow> (if canonical current \<noteq> canonical contract
             then Inl (PermissionError ''Root budget contract changed'') else Inr (Some contract), db1)))))"

section \<open>The life of a submission\<close>

definition set_submission :: "pystr \<Rightarrow> (submission \<Rightarrow> bool) \<Rightarrow> (submission \<Rightarrow> submission) \<Rightarrow>
    ('a temporal_db_scheme) \<Rightarrow> ('a temporal_db_scheme)" where
  "set_submission key c f db = db\<lparr>submissions := update_key key c f (submissions db)\<rparr>"

definition end_task :: "time \<Rightarrow> owner \<times> task_id \<Rightarrow> (task_state \<Rightarrow> bool) \<Rightarrow> task_state \<Rightarrow> pystr \<Rightarrow>
    ('a temporal_db_scheme) \<Rightarrow> ('a temporal_db_scheme)" where
  "end_task t key c st text db = db\<lparr>tasks := update_key key (\<lambda>r. c (tstate r)) (\<lambda>r. r\<lparr>tstate := st,
     reply := Some text, lease_owner := None, lease_until := None, updated := t\<rparr>) (tasks db)\<rparr>"

definition queued :: "submission \<Rightarrow> bool" where
  "queued s \<longleftrightarrow> sub_state s = SPending \<or> sub_state s = SDispatched"

definition fail_budget_before_start :: "time \<Rightarrow> pystr \<Rightarrow> owner \<Rightarrow> ('a temporal_db_scheme) \<Rightarrow>
    bool result \<times> ('a temporal_db_scheme)" where
  "fail_budget_before_start t key ow db = (case get_submission db key (Some ow) of
     Inl x \<Rightarrow> (Inl x, db)
   | Inr row \<Rightarrow>
       (let db1 = fence_operations t ow (sub_task row) db;
            res = canonical (JObj [(''reply'', JStr ''Error: Task deadline exhausted''),
              (''messages'', jt_doc (sub_input row))]) in
        if queued row
        then (Inr True, end_task t (ow, sub_task row) (\<lambda>s. s = Pending) Failed ''Error: Task deadline exhausted''
          (set_submission key queued (\<lambda>s. s\<lparr>sub_state := SFailed, sub_result := Some res,
             sub_error := Some ''BudgetExhausted'', sub_updated := t\<rparr>) db1))
        else (Inr False, db1)))"

definition workflow_failed :: "time \<Rightarrow> pystr \<Rightarrow> owner \<Rightarrow> pystr \<Rightarrow> ('a temporal_db_scheme) \<Rightarrow>
    unit result \<times> ('a temporal_db_scheme)" where
  "workflow_failed t key ow error_type db = (case get_submission db key (Some ow) of
     Inl x \<Rightarrow> (Inl x, db)
   | Inr row \<Rightarrow>
       (if queued row \<or> sub_state row = SRunning
        then txn db (bind_result (final_intent key row
            (fence_operations t ow (sub_task row)
              (set_submission key (\<lambda>_. True) (\<lambda>s. s\<lparr>sub_state := SUncertain, sub_error := Some error_type,
                 sub_updated := t\<rparr>) db))) (\<lambda>db'.
          Inr ((), end_task t (ow, sub_task row) (\<lambda>s. \<not> terminal s) Uncertain
            ''Temporal execution ended; inspect checkpoint before recovery'' db')))
        else (Inr (), db)))"

definition dispatched :: "time \<Rightarrow> pystr \<Rightarrow> pystr option \<Rightarrow> ('a temporal_db_scheme) \<Rightarrow> ('a temporal_db_scheme)" where
  "dispatched t key error db = set_submission key (\<lambda>s. sub_state s = SPending) (\<lambda>s. s\<lparr>
     sub_attempts := sub_attempts s + 1, sub_error := error,
     sub_state := (if error = None then SDispatched else sub_state s), sub_updated := t\<rparr>) db"

definition claim_submission :: "time \<Rightarrow> pystr \<Rightarrow> settings \<Rightarrow> pystr \<Rightarrow> ('a temporal_db_scheme) \<Rightarrow>
    submission result \<times> ('a temporal_db_scheme)" where
  "claim_submission t key st fence db = (case get_submission db key None of
     Inl x \<Rightarrow> (Inl x, db)
   | Inr row \<Rightarrow>
       (if sub_address row \<noteq> s_address st \<or> sub_namespace row \<noteq> s_namespace st
           \<or> queue_for db ''bridge'' \<noteq> Inr (sub_queue row)
        then (Inl (PermissionError ''Submission does not target this host/namespace''), db)
        else txn db (
          bind_result (assert_owner_active db (sub_owner row)) (\<lambda>_.
          bind_result (guard (row_where (sub_owner row, sub_task row) (\<lambda>r. tstate r \<noteq> Cancelled) (tasks db))
            (PermissionError ''Task was cancelled or removed'')) (\<lambda>_.
          bind_result (guard (queued row)
            (PyRuntimeError ''Activity already started or cancelled; inspect effects before recovery'')) (\<lambda>_.
          Inr (row\<lparr>sub_fence := Some fence\<rparr>, set_submission key queued
            (\<lambda>s. s\<lparr>sub_state := SRunning, sub_fence := Some fence, sub_updated := t\<rparr>) db)))))))"

text \<open>\<open>finish\<close>, up to its commit; publishing the final event afterwards is another component.\<close>

definition finish_submission :: "env \<Rightarrow> pystr \<Rightarrow> pystr \<Rightarrow> submission_state \<Rightarrow> json \<Rightarrow> ('a temporal_db_scheme) \<Rightarrow>
    unit result \<times> ('a temporal_db_scheme)" where
  "finish_submission e key fence st res db =
     (let data = canonical res in
      if byte_len data > 2 * 1024 * 1024
      then (Inl (ValueError ''Temporal local result exceeds 2 MiB''), db)
      else txn db (
        bind_result (get_submission db key None) (\<lambda>row.
        bind_result (assert_owner_active db (sub_owner row)) (\<lambda>_.
        bind_result (guard (row_where (sub_owner row, sub_task row) (\<lambda>r. tstate r \<noteq> Cancelled) (tasks db))
          (PermissionError ''Activity result fenced by task cancellation'')) (\<lambda>_.
        bind_result (positive_limit ''AGENT_TASK_STORAGE_BYTES'' (task_storage_bytes e)) (\<lambda>storage.
        bind_result (guard (\<not> int (submission_bytes db) + int (byte_len data) - int (opt_bytes (sub_result row)) > storage)
          (ValueError ''Temporal result storage capacity reached'')) (\<lambda>_.
        bind_result (guard (sub_fence row = Some fence \<and> sub_state row = SRunning)
          (PermissionError ''Activity result fenced by cancellation or newer execution'')) (\<lambda>_.
        bind_result (final_intent key row (set_submission key (\<lambda>_. True)
            (\<lambda>s. s\<lparr>sub_state := st, sub_result := Some data, sub_updated := now e\<rparr>) db)) (\<lambda>db'.
        Inr ((), db'))))))))))"

text \<open>\<open>cancel\<close>, the transaction; retiring the approval grants afterwards is best effort.\<close>

definition cancel_submitted :: "time \<Rightarrow> pystr \<Rightarrow> owner \<Rightarrow> ('a temporal_db_scheme) \<Rightarrow>
    unit result \<times> ('a temporal_db_scheme)" where
  "cancel_submitted t key ow db = (case get_submission db key (Some ow) of
     Inl x \<Rightarrow> (Inl x, db)
   | Inr row \<Rightarrow> txn db (bind_result
       (request t ow (Some (sub_task row)) (end_task t (ow, sub_task row) (\<lambda>s. \<not> terminal s) Cancelled ''Task cancelled'' db))
       (\<lambda>db'. Inr ((), db'))))"

definition workflow_closed :: "time \<Rightarrow> pystr \<Rightarrow> owner \<Rightarrow> pystr \<Rightarrow> ('a temporal_db_scheme) \<Rightarrow>
    unit result \<times> ('a temporal_db_scheme)" where
  "workflow_closed t key ow status db = (if status = ''CANCELED'' then cancel_submitted t key ow db
     else workflow_failed t key ow status db)"

end
