(* ===== verification/Submission_Properties.thy ===== *)
theory Submission_Properties
  imports Submissions
begin

text \<open>
  What the hand-over to Temporal guarantees over any history of submissions, dispatches,
  claims, results, workflow ends and cancellations: one submission per task with all its
  parts, and at most one activity that ever starts it.
\<close>

datatype temporal_op =
    BindOp env trial_setting owner task_id pystr
  | SubmitOp env budget_config "real \<Rightarrow> pystr" "(int \<times> json) option" owner task_id pystr "json list" json pystr settings
  | DispatchedOp pystr "pystr option"
  | ClaimOp pystr settings pystr
  | FinishOp env pystr pystr submission_state json
  | FailBudgetOp pystr owner
  | ClosedOp pystr owner pystr

fun temporal_step :: "time \<Rightarrow> temporal_op \<Rightarrow> temporal_db \<Rightarrow> temporal_db" where
  "temporal_step t (BindOp e trial ow k requested) db = snd (bind_task (e\<lparr>now := t\<rparr>) trial ow k requested db)"
| "temporal_step t (SubmitOp e cfg repr f ow k w ms ctx role st) db =
     snd (submit (e\<lparr>now := t\<rparr>) cfg repr f ow k w ms ctx role st db)"
| "temporal_step t (DispatchedOp key err) db = dispatched t key err db"
| "temporal_step t (ClaimOp key st fence) db = snd (claim_submission t key st fence db)"
| "temporal_step t (FinishOp e key fence st res) db = snd (finish_submission (e\<lparr>now := t\<rparr>) key fence st res db)"
| "temporal_step t (FailBudgetOp key ow) db = snd (fail_budget_before_start t key ow db)"
| "temporal_step t (ClosedOp key ow status) db = snd (workflow_closed t key ow status db)"

text \<open>The callers of \<open>finish\<close> (both activities) pass one of these states.\<close>

definition ended :: "submission_state \<Rightarrow> bool" where
  "ended s \<longleftrightarrow> s \<in> {SCompleted, SFailed, SUncertain}"

definition proper :: "temporal_op \<Rightarrow> bool" where
  "proper a \<longleftrightarrow> (case a of FinishOp _ _ _ st _ \<Rightarrow> ended st | _ \<Rightarrow> True)"

section \<open>How one row of the table can change\<close>

text \<open>Once it is not queued, a row keeps its fence and never returns to the queue.\<close>

definition row_keeps :: "submission \<Rightarrow> submission \<Rightarrow> bool" where
  "row_keeps s s' \<longleftrightarrow> sub_owner s' = sub_owner s \<and> sub_task s' = sub_task s \<and> sub_digest s' = sub_digest s
     \<and> sub_input s' = sub_input s \<and> sub_context s' = sub_context s \<and> sub_queue s' = sub_queue s
     \<and> (queued s \<or> (\<not> queued s' \<and> sub_fence s' = sub_fence s))"

definition keeps2 :: "'k \<times> submission \<Rightarrow> 'k \<times> submission \<Rightarrow> bool" where
  "keeps2 p q \<longleftrightarrow> row_keeps (snd p) (snd q)"

definition sub_frame :: "('a temporal_db_scheme) \<Rightarrow> ('a temporal_db_scheme) \<Rightarrow> bool" where
  "sub_frame db db' \<longleftrightarrow> map fst (submissions db') = map fst (submissions db)
     \<and> list_all2 keeps2 (submissions db) (submissions db')
     \<and> protocols db' = protocols db \<and> budget_contracts db' = budget_contracts db
     \<and> map fst (tasks db') = map fst (tasks db)"

lemma row_keeps_refl [simp]: "row_keeps s s"
  by (simp add: row_keeps_def)

lemma row_keeps_trans: "row_keeps a b \<Longrightarrow> row_keeps b c \<Longrightarrow> row_keeps a c"
  by (auto simp: row_keeps_def)

lemma keeps2_refl: "list_all2 keeps2 t t"
  by (rule list_all2_refl) (simp add: keeps2_def)

lemma sub_frame_refl [simp]: "sub_frame db db"
  by (simp add: sub_frame_def keeps2_refl)

lemma keeps2_trans: "list_all2 keeps2 a b \<Longrightarrow> list_all2 keeps2 b c \<Longrightarrow> list_all2 keeps2 a c"
proof (rule list_all2_trans [of keeps2 keeps2 keeps2])
  show "keeps2 x y \<Longrightarrow> keeps2 y z \<Longrightarrow> keeps2 x z" for x y z :: "'a \<times> submission"
    unfolding keeps2_def by (rule row_keeps_trans)
qed

lemma sub_frame_trans: "sub_frame a b \<Longrightarrow> sub_frame b c \<Longrightarrow> sub_frame a c"
  unfolding sub_frame_def by (elim conjE) (intro conjI; (erule (1) keeps2_trans | simp))

lemma update_key_all2:
  "(\<And>s. map_of t key = Some s \<Longrightarrow> c s \<Longrightarrow> row_keeps s (f s)) \<Longrightarrow>
   list_all2 keeps2 t (update_key key c f t)"
  by (induction t) (auto simp: update_key_def keeps2_refl keeps2_def split: option.splits)

lemma sub_frame_set:
  "(\<And>s. map_of (submissions db) key = Some s \<Longrightarrow> c s \<Longrightarrow> row_keeps s (f s)) \<Longrightarrow>
   sub_frame db (set_submission key c f db)"
  by (simp add: sub_frame_def set_submission_def update_key_all2)

lemma sub_frame_same:
  "submissions db' = submissions db \<Longrightarrow> protocols db' = protocols db \<Longrightarrow>
   budget_contracts db' = budget_contracts db \<Longrightarrow> map fst (tasks db') = map fst (tasks db) \<Longrightarrow> sub_frame db db'"
  by (simp add: sub_frame_def keeps2_refl)

lemma sub_frame_lookup:
  assumes "sub_frame db db'" "map_of (submissions db) key = Some s"
  shows "\<exists>s'. map_of (submissions db') key = Some s' \<and> row_keeps s s'"
proof -
  have "list_all2 keeps2 xs ys \<Longrightarrow> map fst ys = map fst xs \<Longrightarrow>
      map_of xs key = Some s \<Longrightarrow> \<exists>s'. map_of ys key = Some s' \<and> row_keeps s s'" for xs ys
    by (induction xs ys rule: list_all2_induct) (auto simp: keeps2_def split: if_splits)
  with assms show ?thesis by (auto simp: sub_frame_def)
qed

section \<open>Every operation but \<open>submit\<close> stays within the frame\<close>

lemma frame_fence [simp]: "sub_frame db (fence_operations t ow k db)"
  by (rule sub_frame_same) (simp_all add: fence_operations_def split: option.splits)

lemma frame_end_task [simp]: "sub_frame db (end_task t key c st text db)"
  by (rule sub_frame_same) (simp_all add: end_task_def)

lemma frame_then_end: "sub_frame db d \<Longrightarrow> sub_frame db (end_task t key c st text d)"
  using sub_frame_trans [OF _ frame_end_task] by blast

lemma frame_final_intent: "final_intent key row db = Inr db' \<Longrightarrow> sub_frame db db'"
  by (rule sub_frame_same) (auto simp: final_intent_def split: option.splits)

lemma frame_cancel_submission: "cancel_submission t row db = Inr db' \<Longrightarrow> sub_frame db db'"
proof -
  assume c: "cancel_submission t row db = Inr db'"
  obtain key s where r: "row = (key, s)" by (cases row)
  let ?db1 = "fence_operations t (sub_owner s) (sub_task s) db"
  let ?db2 = "set_submission key (\<lambda>_. True) (\<lambda>r. r\<lparr>sub_state := SCancelled, sub_updated := t\<rparr>) ?db1"
  obtain db3 where f: "final_intent key s ?db2 = Inr db3"
    and db': "db' = db3\<lparr>cancellations := map_option (insert_or_ignore key ''pending'') (cancellations db3)\<rparr>"
    using c by (auto simp: cancel_submission_def r Let_def set_submission_def)
  have "sub_frame ?db1 ?db2" by (rule sub_frame_set) (simp add: row_keeps_def queued_def)
  moreover have "sub_frame db3 db'" by (rule sub_frame_same) (simp_all add: db')
  ultimately show ?thesis
    using frame_fence frame_final_intent [OF f] sub_frame_trans by blast
qed

lemma frame_cancel_each: "cancel_each t rs db = Inr db' \<Longrightarrow> sub_frame db db'"
proof (induction t rs db arbitrary: db' rule: cancel_each.induct)
  case (2 t r rs db)
  then obtain d where d: "cancel_submission t r db = Inr d" "cancel_each t rs d = Inr db'" by auto
  with frame_cancel_submission [OF d(1)] "2.IH" [OF d(2)] sub_frame_trans show ?case by blast
qed simp

lemma frame_request: "request t ow k db = Inr db' \<Longrightarrow> sub_frame db db'"
  by (auto simp: request_def frame_cancel_each split: option.splits)

lemma frame_cancel: "sub_frame db (snd (cancel_submitted t key ow db))"
proof (cases "get_submission db key (Some ow)")
  case (Inr row)
  show ?thesis
  proof (cases "request t ow (Some (sub_task row)) (end_task t (ow, sub_task row) (\<lambda>s. \<not> terminal s) Cancelled ''Task cancelled'' db)")
    case (Inr d)
    with \<open>get_submission db key (Some ow) = Inr row\<close> show ?thesis
      using sub_frame_trans [OF frame_end_task frame_request [OF Inr]] by (simp add: cancel_submitted_def)
  qed (simp add: cancel_submitted_def Inr)
qed (simp add: cancel_submitted_def)

lemma frame_workflow_failed: "sub_frame db (snd (workflow_failed t key ow err db))"
proof (cases "get_submission db key (Some ow)")
  case (Inr row)
  let ?db1 = "set_submission key (\<lambda>_. True) (\<lambda>s. s\<lparr>sub_state := SUncertain, sub_error := Some err,
                 sub_updated := t\<rparr>) db"
  have 1: "sub_frame db ?db1" by (rule sub_frame_set) (simp add: row_keeps_def queued_def)
  show ?thesis
  proof (cases "final_intent key row (fence_operations t ow (sub_task row) ?db1)")
    case (Inl e)
    with Inr show ?thesis by (simp add: workflow_failed_def)
  next
    case (Inr d)
    have "sub_frame db d" using 1 frame_fence frame_final_intent [OF Inr] sub_frame_trans by blast
    with Inr \<open>get_submission db key (Some ow) = Inr row\<close> show ?thesis
      by (auto simp: workflow_failed_def frame_then_end)
  qed
qed (simp add: workflow_failed_def)

lemma frame_closed: "sub_frame db (snd (workflow_closed t key ow status db))"
  by (simp add: workflow_closed_def frame_cancel frame_workflow_failed)

lemma get_submission_Inr: "get_submission db key ow = Inr row \<Longrightarrow> map_of (submissions db) key = Some row"
  by (auto simp: get_submission_def split: option.splits if_splits)

lemma frame_fail_budget: "sub_frame db (snd (fail_budget_before_start t key ow db))"
proof (cases "get_submission db key (Some ow)")
  case (Inr row)
  let ?f = "\<lambda>res s. s\<lparr>sub_state := SFailed, sub_result := Some res, sub_error := Some ''BudgetExhausted'',
    sub_updated := t\<rparr>"
  have "sub_frame (fence_operations t ow (sub_task row) db)
      (set_submission key queued (?f res) (fence_operations t ow (sub_task row) db))" for res
    by (rule sub_frame_set) (simp add: row_keeps_def)
  then have "sub_frame db (set_submission key queued (?f res) (fence_operations t ow (sub_task row) db))" for res
    using frame_fence sub_frame_trans by blast
  with Inr show ?thesis
    by (auto simp: fail_budget_before_start_def Let_def frame_then_end)
qed (simp add: fail_budget_before_start_def)

lemma frame_dispatched: "sub_frame db (dispatched t key err db)"
  unfolding dispatched_def by (rule sub_frame_set) (simp add: row_keeps_def queued_def)

lemma frame_claim: "sub_frame db (snd (claim_submission t key st fence db))"
proof -
  have "sub_frame db (set_submission key queued
      (\<lambda>s. s\<lparr>sub_state := SRunning, sub_fence := Some fence, sub_updated := t\<rparr>) db)"
    by (rule sub_frame_set) (simp add: row_keeps_def)
  then show ?thesis
    by (auto simp: claim_submission_def txn_snd split: sum.splits)
qed

lemma finish_submission_Inr:
  "finish_submission e key fence st res db = (Inr (), db') \<Longrightarrow> \<exists>row. map_of (submissions db) key = Some row
     \<and> sub_fence row = Some fence \<and> sub_state row = SRunning \<and> final_intent key row (set_submission key (\<lambda>_. True)
        (\<lambda>s. s\<lparr>sub_state := st, sub_result := Some (canonical res), sub_updated := now e\<rparr>) db) = Inr db'"
  by (auto simp: finish_submission_def Let_def txn_Inr dest: get_submission_Inr split: if_splits)

lemma finish_submission_Inl: "finish_submission e key fence st res db = (Inl x, db') \<Longrightarrow> db' = db"
  by (auto simp: finish_submission_def Let_def txn_Inl split: if_splits)

lemma frame_finish: "ended st \<Longrightarrow> sub_frame db (snd (finish_submission e key fence st res db))"
proof -
  assume st: "ended st"
  obtain x db' where f: "finish_submission e key fence st res db = (x, db')" by fastforce
  show ?thesis
  proof (cases x)
    case (Inl e)
    with f finish_submission_Inl show ?thesis by fastforce
  next
    case (Inr u)
    let ?db1 = "set_submission key (\<lambda>_. True)
        (\<lambda>s. s\<lparr>sub_state := st, sub_result := Some (canonical res), sub_updated := now e\<rparr>) db"
    obtain row where "final_intent key row ?db1 = Inr db'"
      using finish_submission_Inr [of e key fence st res db db'] f Inr by auto
    moreover have "sub_frame db ?db1"
      by (rule sub_frame_set) (use st in \<open>auto simp: row_keeps_def queued_def ended_def\<close>)
    ultimately show ?thesis using f frame_final_intent sub_frame_trans by fastforce
  qed
qed

lemma frame_bindings: "sub_frame db (db\<lparr>execution_bindings := b\<rparr>)"
  by (rule sub_frame_same) simp_all

lemma frame_txn: "(\<And>a db'. body = Inr (a, db') \<Longrightarrow> sub_frame db db') \<Longrightarrow> sub_frame db (snd (txn db body))"
  by (auto simp: txn_def split: sum.splits)

lemma frame_bind: "sub_frame db (snd (bind_task e trial ow k requested db))"
proof (cases "k = [] \<or> py_len k > 256")
  case False
  show ?thesis
    unfolding bind_task_def if_not_P [OF False] Let_def
    by (rule frame_txn) (auto simp: frame_bindings split: option.splits if_splits)
qed (simp add: bind_task_def)

section \<open>What \<open>submit\<close> writes\<close>

lemma open_budget_frame:
  "submissions (snd (open_budget c t ow k db)) = submissions db"
  "protocols (snd (open_budget c t ow k db)) = protocols db"
  "budget_contracts (snd (open_budget c t ow k db)) = budget_contracts db"
  "tasks (snd (open_budget c t ow k db)) = tasks db"
  by (auto simp: open_budget_def insert_budget_def split: sum.splits option.splits)

lemma frame_open_budget: "sub_frame db (snd (open_budget c t ow k db))"
  by (rule sub_frame_same) (simp_all add: open_budget_frame)

lemma accept_submission_writes:
  "accept_submission e f ow k key latest ms ctx role st queue contract db = Inr r \<Longrightarrow>
   map_of (tasks db) (ow, k) = None \<and> (\<exists>p g crit. protocol_of (s_engine st) = Some p
     \<and> r = write_submission e ow k key latest ms ctx role st queue contract p g crit db)"
  by (auto simp: accept_submission_def Let_def split: option.splits) blast+

lemma accept_submission_Inr:
  assumes "accept_submission e f ow k key latest ms ctx role st queue contract db = Inr ((key', row), db')"
  shows "key' = key \<and> sub_owner row = ow \<and> sub_task row = k \<and> sub_digest row = digest latest
    \<and> sub_queue row = queue \<and> sub_state row = SPending \<and> sub_fence row = None
    \<and> submissions db' = submissions db @ [(key, row)]
    \<and> map_of (tasks db) (ow, k) = None
    \<and> (\<exists>r. tasks db' = tasks db @ [((ow, k), r)] \<and> tstate r = Pending)
    \<and> (\<exists>p. protocol_of (s_engine st) = Some p \<and> protocols db' = protocols db @ [(key, p)])
    \<and> budget_contracts db' = budget_contracts db @ [(key, contract)]
    \<and> host_token db' = host_token db"
  using accept_submission_writes [OF assms]
  by (auto simp: write_submission_def new_submission_def temporal_task_def Let_def)

lemma submit_txn_Inr:
  assumes "submit_txn e f ow k key latest ms ctx role st queue contract db = Inr ((key', row), db')"
  shows "(for_task db ow k = Some (key', row) \<and> sub_digest row = digest latest \<and> db' = db)
    \<or> (for_task db ow k = None
       \<and> accept_submission e f ow k key latest ms ctx role st queue contract db = Inr ((key', row), db'))"
  using assms by (auto simp: submit_txn_def split: option.splits if_splits)

text \<open>The outcome of a call: the database after the budget was opened, and what the transaction
  made of it.\<close>

lemma submit_cases:
  assumes "submit e cfg repr f ow k w ms ctx role st db = (res, db')"
  shows "let db1 = snd (open_budget cfg (now e) ow k db) in
     (case res of Inl _ \<Rightarrow> db' = db1
      | Inr r \<Rightarrow> \<exists>latest queue c. latest_user ms = Some latest \<and> queue_for db1 (s_engine st) = Inr queue
          \<and> submit_txn e f ow k w latest ms ctx role st queue c db1 = Inr (r, db'))"
  using assms
  by (auto simp: submit_def Let_def txn_def split: prod.splits sum.splits option.splits if_splits)

lemma submit_change:
  "sub_frame db (snd (submit e cfg repr f ow k w ms ctx role st db)) \<or>
   (\<exists>db1 latest queue c row. sub_frame db db1 \<and> for_task db1 ow k = None
      \<and> accept_submission e f ow k w latest ms ctx role st queue c db1
          = Inr ((w, row), snd (submit e cfg repr f ow k w ms ctx role st db)))"
proof -
  obtain res db' where s: "submit e cfg repr f ow k w ms ctx role st db = (res, db')" by fastforce
  let ?db1 = "snd (open_budget cfg (now e) ow k db)"
  have fr: "sub_frame db ?db1" by (rule frame_open_budget)
  show ?thesis
  proof (cases res)
    case (Inl x)
    with submit_cases [OF s] fr s show ?thesis by simp
  next
    case (Inr r)
    obtain key' row where r: "r = (key', row)" by (cases r)
    from submit_cases [OF s] Inr r obtain latest queue c where
      t: "submit_txn e f ow k w latest ms ctx role st queue c ?db1 = Inr ((key', row), db')"
      by (auto simp: Let_def)
    from submit_txn_Inr [OF t] fr s accept_submission_Inr show ?thesis by fastforce
  qed
qed

section \<open>At most one start\<close>

definition started :: "pystr \<Rightarrow> pystr \<Rightarrow> ('a temporal_db_scheme) \<Rightarrow> bool" where
  "started key fence db \<longleftrightarrow>
     (\<exists>s. map_of (submissions db) key = Some s \<and> \<not> queued s \<and> sub_fence s = Some fence)"

lemma started_frame: "sub_frame db db' \<Longrightarrow> started key fence db \<Longrightarrow> started key fence db'"
  using sub_frame_lookup by (fastforce simp: started_def row_keeps_def)

lemma step_frame:
  "proper a \<Longrightarrow> (\<forall>e cfg repr f ow k w ms ctx role st. a \<noteq> SubmitOp e cfg repr f ow k w ms ctx role st) \<Longrightarrow>
   sub_frame db (temporal_step t a db)"
  by (cases a) (simp_all add: proper_def frame_bind frame_dispatched frame_claim frame_finish
      frame_fail_budget frame_closed)

lemma started_step:
  assumes "proper a" "started key fence db"
  shows "started key fence (temporal_step t a db)"
proof (cases "\<exists>e cfg repr f ow k w ms ctx role st. a = SubmitOp e cfg repr f ow k w ms ctx role st")
  case True
  then obtain e cfg repr f ow k w ms ctx role st where a: "a = SubmitOp e cfg repr f ow k w ms ctx role st"
    by blast
  from submit_change [of db "e\<lparr>now := t\<rparr>" cfg repr f ow k w ms ctx role st] show ?thesis
  proof
    assume "sub_frame db (snd (submit (e\<lparr>now := t\<rparr>) cfg repr f ow k w ms ctx role st db))"
    with started_frame assms(2) a show ?thesis by simp
  next
    assume "\<exists>db1 latest queue c row. sub_frame db db1 \<and> for_task db1 ow k = None
      \<and> accept_submission (e\<lparr>now := t\<rparr>) f ow k w latest ms ctx role st queue c db1
          = Inr ((w, row), snd (submit (e\<lparr>now := t\<rparr>) cfg repr f ow k w ms ctx role st db))"
    then obtain db1 row where "sub_frame db db1"
        "submissions (snd (submit (e\<lparr>now := t\<rparr>) cfg repr f ow k w ms ctx role st db)) = submissions db1 @ [(w, row)]"
      using accept_submission_Inr by blast
    with started_frame [OF _ assms(2)] a show ?thesis by (fastforce simp: started_def)
  qed
next
  case False
  with step_frame [OF assms(1)] started_frame assms(2) show ?thesis by blast
qed

lemma claim_starts:
  "claim_submission t key st fence db = (Inr row, db') \<Longrightarrow> started key fence db'"
  by (auto simp: claim_submission_def txn_Inr started_def set_submission_def update_key_lookup queued_def
      dest!: get_submission_Inr split: sum.splits if_splits)

lemma started_not_claimed:
  "started key fence db \<Longrightarrow> \<exists>x. claim_submission t key st fence' db = (Inl x, db)"
  by (auto simp: claim_submission_def started_def get_submission_def txn_def guard_def bind_result_def
      split: sum.splits option.splits)

lemma started_stale_finish:
  "started key fence db \<Longrightarrow> fence' \<noteq> fence \<Longrightarrow> \<exists>x. finish_submission e key fence' st res db = (Inl x, db)"
proof -
  assume s: "started key fence db" "fence' \<noteq> fence"
  obtain x db' where f: "finish_submission e key fence' st res db = (x, db')" by fastforce
  show ?thesis
  proof (cases x)
    case (Inl y)
    with f finish_submission_Inl show ?thesis by fastforce
  next
    case (Inr u)
    with f finish_submission_Inr [of e key fence' st res db db'] s show ?thesis by (auto simp: started_def)
  qed
qed

text \<open>
  C13: an activity starts a submission at most once.  After a successful claim under some
  fence, and after any later history of the store's operations (resubmissions, dispatch
  retries, results, workflow ends, cancellations, claims by other workers), every further
  claim of that submission is refused without effect, and so is a result presented under any
  other fence.
\<close>

theorem submission_starts_once:
  assumes "claim_submission t key st fence db = (Inr row, db0)"
    and "\<forall>(u, a) \<in> set tr. proper a"
  shows "(\<exists>x. claim_submission u key st' fence' (run_ops temporal_step tr db0)
        = (Inl x, run_ops temporal_step tr db0))
    \<and> (fence' \<noteq> fence \<longrightarrow> (\<exists>x. finish_submission e key fence' s res (run_ops temporal_step tr db0)
        = (Inl x, run_ops temporal_step tr db0)))"
proof -
  have "started key fence db0" using assms(1) by (rule claim_starts)
  then have "started key fence (run_ops temporal_step tr db0)"
    using assms(2)
  proof (induction tr arbitrary: db0)
    case (Cons x tr)
    obtain u a where "x = (u, a)" by (cases x)
    with Cons started_step show ?case by fastforce
  qed simp
  with started_not_claimed started_stale_finish show ?thesis by blast
qed

section \<open>One complete submission per task\<close>

definition sub_ids :: "('a temporal_db_scheme) \<Rightarrow> (pystr \<times> owner \<times> task_id) list" where
  "sub_ids db = map (\<lambda>(key, s). (key, sub_owner s, sub_task s)) (submissions db)"

definition complete_submissions :: "('a temporal_db_scheme) \<Rightarrow> bool" where
  "complete_submissions db \<longleftrightarrow> distinct (map snd (sub_ids db))
     \<and> (\<forall>(key, task) \<in> set (sub_ids db). task \<in> fst ` set (tasks db)
          \<and> key \<in> fst ` set (protocols db) \<and> key \<in> fst ` set (budget_contracts db))"

lemma sub_ids_frame:
  assumes "sub_frame db db'"
  shows "sub_ids db' = sub_ids db"
proof -
  have ids: "map fst ys = map fst xs \<Longrightarrow> list_all2 keeps2 xs ys \<Longrightarrow>
      map (\<lambda>(key, s). (key, sub_owner s, sub_task s)) ys = map (\<lambda>(key, s). (key, sub_owner s, sub_task s)) xs" for xs ys
    by (induction xs arbitrary: ys) (auto simp: keeps2_def row_keeps_def list_all2_Cons1)
  show ?thesis unfolding sub_ids_def by (rule ids) (use assms in \<open>simp_all add: sub_frame_def\<close>)
qed

lemma complete_frame: "sub_frame db db' \<Longrightarrow> complete_submissions db \<Longrightarrow> complete_submissions db'"
proof -
  assume f: "sub_frame db db'" and c: "complete_submissions db"
  have "fst ` set (tasks db') = fst ` set (tasks db)"
    using f by (metis list.set_map sub_frame_def)
  with f c sub_ids_frame [OF f] show ?thesis by (simp add: complete_submissions_def sub_frame_def)
qed

lemma for_task_None: "for_task db ow k = None \<Longrightarrow> (ow, k) \<notin> snd ` set (sub_ids db)"
  by (force simp: for_task_def sub_ids_def find_None_iff)

lemma complete_accept:
  assumes "accept_submission e f ow k w latest ms ctx role st queue c db = Inr ((w, row), db')"
    and "for_task db ow k = None" "complete_submissions db"
  shows "complete_submissions db'"
proof -
  note a = accept_submission_Inr [OF assms(1)]
  have "sub_ids db' = sub_ids db @ [(w, ow, k)]" using a by (simp add: sub_ids_def)
  with a for_task_None [OF assms(2)] assms(3) show ?thesis
    by (auto simp: complete_submissions_def)
qed

lemma complete_step:
  assumes "proper a" "complete_submissions db"
  shows "complete_submissions (temporal_step t a db)"
proof (cases "\<exists>e cfg repr f ow k w ms ctx role st. a = SubmitOp e cfg repr f ow k w ms ctx role st")
  case True
  then obtain e cfg repr f ow k w ms ctx role st where a: "a = SubmitOp e cfg repr f ow k w ms ctx role st"
    by blast
  from submit_change [of db "e\<lparr>now := t\<rparr>" cfg repr f ow k w ms ctx role st] a
  show ?thesis using complete_frame [OF _ assms(2)] complete_accept by fastforce
next
  case False
  with step_frame [OF assms(1)] complete_frame assms(2) show ?thesis by blast
qed

text \<open>
  C14: a task has at most one submission, and an accepted submission is complete: along any
  history from an empty submission table, no two submissions belong to the same owner and
  task, and each has its task row, its execution protocol and its pinned budget contract.
\<close>

theorem submissions_complete:
  assumes "submissions db = []" and "\<forall>(u, a) \<in> set tr. proper a"
  shows "complete_submissions (run_ops temporal_step tr db)"
proof -
  have "complete_submissions db" using assms(1) by (simp add: complete_submissions_def sub_ids_def)
  then show ?thesis
    using assms(2)
  proof (induction tr arbitrary: db)
    case (Cons x tr)
    obtain u a where "x = (u, a)" by (cases x)
    with Cons complete_step show ?case by fastforce
  qed simp
qed

section \<open>Concrete histories\<close>

definition demo_temporal :: temporal_db where
  "demo_temporal = budget_db.extend
     (task_db.extend (empty_db\<lparr>execution_bindings := Some [], cancellations := Some []\<rparr>)
       \<lparr>task_budgets = [], budget_calls = [], budget_rates = [], model_slots = []\<rparr>)
     \<lparr>host_token = ''h'', protocols = [], budget_contracts = []\<rparr>"

definition demo_env :: env where
  "demo_env = \<lparr>now = 0, activity = None, task_limit = 10, task_storage_bytes = 100000\<rparr>"

definition demo_settings :: settings where
  "demo_settings = \<lparr>s_address = ''127.0.0.1:7233'', s_namespace = ''dev'', s_engine = ''bridge'', s_file_writes = False\<rparr>"

definition demo_submission :: submission where
  "demo_submission = new_submission demo_env ''o'' ''k'' ''s1'' ''d'' [] (JObj []) ''admin'' demo_settings
     ''pythonai-host-h-readonly-v1''"

definition demo_accepted :: temporal_db where
  "demo_accepted = demo_temporal\<lparr>submissions := [(''s1'', demo_submission)],
     tasks := [((''o'', ''k''), temporal_task demo_env ''g'' (JObj []) [] (JObj []))]\<rparr>"

lemma demo_claim:
  "\<exists>row db0. claim_submission 1 ''s1'' demo_settings ''f1'' demo_accepted = (Inr row, db0)"
  by (simp add: claim_submission_def get_submission_def demo_accepted_def demo_temporal_def demo_submission_def
      new_submission_def demo_settings_def budget_db.defs task_db.defs empty_db_def queue_for_def queue_suffix_def
      assert_owner_active_def owner_blocked_def row_where_def temporal_task_def queued_def)

theorem submission_starts_once_witness:
  "\<exists>row db0. claim_submission 1 ''s1'' demo_settings ''f1'' demo_accepted = (Inr row, db0)
     \<and> (\<exists>x. claim_submission 3 ''s1'' demo_settings ''f2'' (run_ops temporal_step [(2, DispatchedOp ''s1'' None)] db0)
          = (Inl x, run_ops temporal_step [(2, DispatchedOp ''s1'' None)] db0))"
proof -
  obtain row db0 where c: "claim_submission 1 ''s1'' demo_settings ''f1'' demo_accepted = (Inr row, db0)"
    using demo_claim by blast
  have "\<forall>(u, a) \<in> set [(2, DispatchedOp ''s1'' None)]. proper a" by (simp add: proper_def)
  from submission_starts_once [OF c this, of 3 demo_settings "''f2''" demo_env SCompleted JNull] c
  show ?thesis by auto
qed

definition demo_history :: "(time \<times> temporal_op) list" where
  "demo_history = [(1, BindOp demo_env NoSetting ''o'' ''k'' ''temporal''),
     (2, SubmitOp demo_env \<lparr>c_tokens = Some 100, c_requests = Some 2, c_children = Some 1, c_depth = Some 1,
        c_cost = Some 0, c_output = Some 5, c_concurrency = Some 4, c_limit = Some 9, c_deadline = Some 600,
        c_rates = JObj [], c_text_rate = (\<lambda>_. None)\<rparr> (\<lambda>_. ''0.5'') None ''o'' ''k'' ''s1''
        [JObj [(''role'', JStr ''user''), (''content'', JStr ''hello'')]] (JObj []) ''admin'' demo_settings),
     (3, ClaimOp ''s1'' demo_settings ''f1''),
     (4, FinishOp demo_env ''s1'' ''f1'' SCompleted (JObj []))]"

theorem submissions_complete_witness:
  "complete_submissions (run_ops temporal_step demo_history demo_temporal)"
proof (rule submissions_complete)
  show "submissions demo_temporal = []"
    by (simp add: demo_temporal_def budget_db.defs task_db.defs empty_db_def)
  show "\<forall>(u, a) \<in> set demo_history. proper a"
    by (simp add: demo_history_def proper_def ended_def)
qed

end
