(* ===== verification/Ledger.thy ===== *)
theory Ledger
  imports Submissions
begin

text \<open>
  \<open>agent_execution/temporal_backend/ledger.py\<close>: owner-scoped operation fences and content-addressed
  JSON artifacts.  A logical step is prepared with a digest of its arguments, claimed under a
  new fence, and then completed with the references of its result and evidence; work whose
  outcome is not known is uncertain and is never started again.
\<close>

section \<open>State\<close>

record artifact =
  art_owner :: owner
  art_task :: task_id
  art_sha :: pystr
  art_bytes :: int
  art_data :: jtext

record ledger_db = temporal_db +
  artifacts :: "(pystr, artifact) table"

text \<open>
  The clock, the parsed limits, and the bytes that the other installed tables of the Temporal
  backend count for in \<open>_capacity\<close>.
\<close>

record ledger_env =
  le_now :: time
  le_artifact_max :: int
  le_storage :: int
  le_operations :: int
  le_other_bytes :: nat

text \<open>
  The execution context an operation runs in.  Paths are already resolved, except the one the
  submission saved; \<open>sc_worktree\<close> says whether the lifecycle tables register the actual
  workspace as a worktree of this task and owner.
\<close>

record op_scope =
  sc_owner :: owner
  sc_task :: "task_id option"
  sc_configured :: pystr
  sc_resolve :: "pystr \<Rightarrow> pystr"
  sc_workspace :: "pystr option"
  sc_repository :: "pystr option"
  sc_worktree :: bool
  sc_git_file :: bool
  sc_cancelled :: bool

record ledger =
  lg_key :: pystr
  lg_fence :: pystr
  lg_owner :: owner
  lg_task :: task_id
  lg_digest :: pystr

section \<open>Scope\<close>

definition scope_digest :: "submission \<Rightarrow> pystr" where
  "scope_digest row = digest (JArr [JStr (sub_digest row),
     JStr (dumps (jt_ascii (sub_context row)) (jt_tight (sub_context row)) (jt_doc (sub_context row))),
     JStr (sub_role row)])"

definition live_states :: "bool \<Rightarrow> submission_state \<Rightarrow> task_state \<Rightarrow> bool" where
  "live_states active s t =
     (if active then s = SRunning \<and> (t = Pending \<or> t = Running)
      else (s = SRunning \<or> s = SCompleted \<or> s = SFailed)
           \<and> (t = Pending \<or> t = Running \<or> t = Completed \<or> t = Failed \<or> t = Suspended))"

definition scope_workspace :: "op_scope \<Rightarrow> bool \<Rightarrow> json \<Rightarrow> (pystr \<times> pystr) option \<Rightarrow> unit result" where
  "scope_workspace c active saved bound =
     bind_result (py_index saved ''workspace'') (\<lambda>sw.
     if sc_workspace c = None \<or> sc_resolve c (jtext_of sw) \<noteq> sc_configured c
     then Inl (PermissionError ''Operation workspace configuration changed'')
     else if active \<and> bound \<noteq> None \<and> sc_workspace c = Some (sc_configured c)
     then Inl (PermissionError ''Operation must enter this task managed worktree'')
     else if sc_workspace c \<noteq> Some (sc_configured c)
          \<and> \<not> (case bound of None \<Rightarrow> False | Some (repo, _) \<Rightarrow> sc_resolve c repo = sc_configured c
                \<and> sc_repository c = Some (sc_configured c) \<and> sc_worktree c \<and> sc_git_file c)
     then Inl (PermissionError ''Operation workspace is not this task managed worktree'')
     else guard (\<not> sc_cancelled c) (InterruptedError ''Task cancelled before operation access''))"

definition ledger_scope :: "op_scope \<Rightarrow> bool \<Rightarrow> ledger \<Rightarrow> ('a ledger_db_scheme) \<Rightarrow> unit result" where
  "ledger_scope c active l db =
     (if sc_owner c \<noteq> lg_owner l \<or> sc_task c \<noteq> Some (lg_task l)
      then Inl (PermissionError ''Operation is outside this task scope'')
      else bind_result (assert_owner_active db (lg_owner l)) (\<lambda>_.
        case (map_of (submissions db) (lg_key l), map_of (tasks db) (lg_owner l, lg_task l)) of
          (Some row, Some task) \<Rightarrow>
            if sub_owner row \<noteq> lg_owner l \<or> sub_task row \<noteq> lg_task l \<or> lg_fence l = []
               \<or> sub_fence row \<noteq> Some (lg_fence l) \<or> \<not> live_states active (sub_state row) (tstate task)
               \<or> (case execution_bindings db of None \<Rightarrow> True
                   | Some bs \<Rightarrow> map_of bs (lg_owner l, lg_task l) \<noteq> Some ''temporal'')
            then Inl (PermissionError ''Operation fenced by task or submission state'')
            else if scope_digest row \<noteq> lg_digest l
            then Inl (PermissionError ''Stored operation scope changed'')
            else scope_workspace c active (jt_doc (sub_context row))
                   (map_of (task_workspaces db) (lg_owner l, lg_task l))
        | _ \<Rightarrow> Inl (PermissionError ''Operation fenced by task or submission state'')))"

definition operation_limits :: "ledger_env \<Rightarrow> unit result" where
  "operation_limits e =
     bind_result (positive_limit ''AGENT_TEMPORAL_ARTIFACT_MAX_BYTES'' (le_artifact_max e)) (\<lambda>_.
     bind_result (positive_limit ''AGENT_TEMPORAL_LEDGER_STORAGE_BYTES'' (le_storage e)) (\<lambda>_.
     bind_result (positive_limit ''AGENT_TEMPORAL_OPERATION_LIMIT'' (le_operations e)) (\<lambda>_. Inr ())))"

text \<open>\<open>Ledger.__init__\<close>; creating the tables is making the optional ledger present.\<close>

definition open_ledger :: "ledger_env \<Rightarrow> op_scope \<Rightarrow> pystr \<Rightarrow> pystr \<Rightarrow> ('a ledger_db_scheme) \<Rightarrow>
    ledger result \<times> ('a ledger_db_scheme)" where
  "open_ledger e c key fence db = txn db (
     bind_result (operation_limits e) (\<lambda>_.
     bind_result (get_submission db key None) (\<lambda>row.
     let l = \<lparr>lg_key = key, lg_fence = fence, lg_owner = sub_owner row, lg_task = sub_task row,
              lg_digest = scope_digest row\<rparr> in
     bind_result (ledger_scope c False l db) (\<lambda>_.
       Inr (l, db\<lparr>operation_ledger := Some (case operation_ledger db of None \<Rightarrow> [] | Some led \<Rightarrow> led)\<rparr>)))))"

section \<open>Operations\<close>

definition check_step :: "pystr \<Rightarrow> unit result" where
  "check_step step = guard (step \<noteq> [] \<and> byte_len step \<le> 512)
     (ValueError ''Logical step ID must contain 1..512 UTF-8 bytes'')"

definition ledger_rows :: "('a ledger_db_scheme) \<Rightarrow> (owner \<times> task_id \<times> pystr, op_row) table" where
  "ledger_rows db = (case operation_ledger db of None \<Rightarrow> [] | Some led \<Rightarrow> led)"

definition op_key :: "ledger \<Rightarrow> pystr \<Rightarrow> owner \<times> task_id \<times> pystr" where
  "op_key l step = (lg_owner l, lg_task l, step)"

definition op_get :: "ledger \<Rightarrow> pystr \<Rightarrow> ('a ledger_db_scheme) \<Rightarrow> op_row result" where
  "op_get l step db = (case map_of (ledger_rows db) (op_key l step) of
     None \<Rightarrow> Inl (KeyError ''Operation not found in this task'') | Some r \<Rightarrow> Inr r)"

definition ledger_get :: "op_scope \<Rightarrow> ledger \<Rightarrow> pystr \<Rightarrow> ('a ledger_db_scheme) \<Rightarrow> op_row result" where
  "ledger_get c l step db = bind_result (check_step step) (\<lambda>_.
     bind_result (ledger_scope c False l db) (\<lambda>_. op_get l step db))"

definition artifact_bytes :: "'k \<Rightarrow> artifact \<Rightarrow> nat" where
  "artifact_bytes _ a = jtext_bytes (art_data a) + byte_len (art_owner a) + byte_len (art_task a) + 32 + 64 + 8"

definition op_bytes :: "owner \<times> task_id \<times> pystr \<Rightarrow> op_row \<Rightarrow> nat" where
  "op_bytes = (\<lambda>(ow, k, step) r. byte_len ow + byte_len k + byte_len step + py_len (op_kind r) + 64 + 512)"

definition ledger_used :: "ledger_env \<Rightarrow> ('a ledger_db_scheme) \<Rightarrow> nat" where
  "ledger_used e db = column_sum artifact_bytes (artifacts db) + column_sum op_bytes (ledger_rows db)
     + le_other_bytes e"

definition ledger_capacity :: "ledger_env \<Rightarrow> ('a ledger_db_scheme) \<Rightarrow> nat \<Rightarrow> unit result" where
  "ledger_capacity e db extra =
     bind_result (positive_limit ''AGENT_TEMPORAL_LEDGER_STORAGE_BYTES'' (le_storage e)) (\<lambda>limit.
       guard (\<not> int (ledger_used e db + extra) > limit)
         (CapacityError ''Temporal operation storage capacity reached''))"

definition set_op :: "(owner \<times> task_id \<times> pystr) \<Rightarrow> (op_row \<Rightarrow> op_row) \<Rightarrow> ('a ledger_db_scheme) \<Rightarrow> ('a ledger_db_scheme)" where
  "set_op key f db = db\<lparr>operation_ledger := Some (update_key key (\<lambda>_. True) f (ledger_rows db))\<rparr>"

definition prepare :: "ledger_env \<Rightarrow> op_scope \<Rightarrow> ledger \<Rightarrow> pystr \<Rightarrow> pystr \<Rightarrow> json \<Rightarrow> ('a ledger_db_scheme) \<Rightarrow>
    op_row result \<times> ('a ledger_db_scheme)" where
  "prepare e c l step kind arguments db = txn db (
     bind_result (check_step step) (\<lambda>_.
     bind_result (guard (kind \<in> set [''model'', ''tool'', ''evaluation'']) (ValueError ''Unknown operation kind'')) (\<lambda>_.
     let fingerprint = digest (JArr [JStr (lg_digest l), JStr kind, arguments]) in
     bind_result (ledger_scope c False l db) (\<lambda>_.
     case map_of (ledger_rows db) (op_key l step) of
       Some old \<Rightarrow>
         if op_kind old \<noteq> kind \<or> op_digest old \<noteq> fingerprint
         then Inl (ValueError ''Logical step cannot be reused with different arguments'')
         else bind_result (if op_state old \<noteq> OpCompleted then ledger_scope c True l db else Inr ())
                (\<lambda>_. Inr (old, db))
     | None \<Rightarrow>
         bind_result (ledger_scope c True l db) (\<lambda>_.
         bind_result (positive_limit ''AGENT_TEMPORAL_OPERATION_LIMIT'' (le_operations e)) (\<lambda>limit.
         bind_result (guard (\<not> int (length (ledger_rows db)) \<ge> limit)
           (CapacityError ''Temporal operation count limit reached'')) (\<lambda>_.
         bind_result (ledger_capacity e db
           (byte_len (lg_owner l) + byte_len (lg_task l) + byte_len step + byte_len kind + 64 + 512)) (\<lambda>_.
         let row = \<lparr>op_kind = kind, op_digest = fingerprint, op_state = OpPrepared, op_fence = None,
               op_result_ref = None, op_evidence_ref = None, op_updated = le_now e\<rparr>
         in Inr (row, db\<lparr>operation_ledger := Some (ledger_rows db @ [(op_key l step, row)])\<rparr>)))))))))"

definition claim_op :: "ledger_env \<Rightarrow> op_scope \<Rightarrow> ledger \<Rightarrow> pystr \<Rightarrow> pystr \<Rightarrow> ('a ledger_db_scheme) \<Rightarrow>
    op_row result \<times> ('a ledger_db_scheme)" where
  "claim_op e c l step fence db = txn db (
     bind_result (check_step step) (\<lambda>_.
     bind_result (ledger_scope c False l db) (\<lambda>_.
     bind_result (op_get l step db) (\<lambda>row.
     if op_state row = OpCompleted then Inr (row, db)
     else bind_result (ledger_scope c True l db) (\<lambda>_.
       if op_state row \<noteq> OpPrepared
       then Inl (OperationUncertain ''Operation already started or rejected; inspect effects before recovery'')
       else (let f = (\<lambda>r. r\<lparr>op_state := OpRunning, op_fence := Some fence, op_updated := le_now e\<rparr>)
             in Inr (f row, set_op (op_key l step) f db)))))))"

definition uncertain_op :: "ledger_env \<Rightarrow> op_scope \<Rightarrow> ledger \<Rightarrow> pystr \<Rightarrow> pystr \<Rightarrow> ('a ledger_db_scheme) \<Rightarrow>
    unit result \<times> ('a ledger_db_scheme)" where
  "uncertain_op e c l step fence db = txn db (
     bind_result (ledger_scope c True l db) (\<lambda>_.
     if row_where (op_key l step) (\<lambda>r. op_fence r = Some fence \<and> op_state r = OpRunning) (ledger_rows db)
     then Inr ((), set_op (op_key l step) (\<lambda>r. r\<lparr>op_state := OpUncertain, op_updated := le_now e\<rparr>) db)
     else Inl (PermissionError ''Operation result fence is stale'')))"

definition reject_op :: "ledger_env \<Rightarrow> op_scope \<Rightarrow> ledger \<Rightarrow> pystr \<Rightarrow> ('a ledger_db_scheme) \<Rightarrow>
    unit result \<times> ('a ledger_db_scheme)" where
  "reject_op e c l step db = txn db (
     bind_result (check_step step) (\<lambda>_.
     bind_result (ledger_scope c True l db) (\<lambda>_.
     if row_where (op_key l step) (\<lambda>r. op_state r = OpPrepared) (ledger_rows db)
     then Inr ((), set_op (op_key l step) (\<lambda>r. r\<lparr>op_state := OpRejected, op_updated := le_now e\<rparr>) db)
     else Inl (PermissionError ''Only a prepared operation can be rejected without effects''))))"

section \<open>Artifacts\<close>

record reference =
  ref_id :: pystr
  ref_sha :: pystr
  ref_bytes :: int

definition reference_json :: "reference \<Rightarrow> json" where
  "reference_json r = JObj [(''schema_version'', JInt 1), (''id'', JStr (ref_id r)),
     (''sha256'', JStr (ref_sha r)), (''bytes'', JInt (ref_bytes r))]"

definition make_artifact :: "ledger_env \<Rightarrow> pystr \<Rightarrow> json \<Rightarrow> (reference \<times> jtext) result" where
  "make_artifact e i value =
     (let data = canonical_text value in
      bind_result (positive_limit ''AGENT_TEMPORAL_ARTIFACT_MAX_BYTES'' (le_artifact_max e)) (\<lambda>limit.
      if int (jtext_bytes data) > limit
      then Inl (CapacityError ''Temporal artifact exceeds per-result byte limit'')
      else Inr (\<lparr>ref_id = i, ref_sha = sha256 (canonical value), ref_bytes = int (jtext_bytes data)\<rparr>, data)))"

definition insert_artifact :: "ledger \<Rightarrow> reference \<times> jtext \<Rightarrow> (pystr, artifact) table \<Rightarrow> (pystr, artifact) table option" where
  "insert_artifact l ra arts = (case ra of (r, data) \<Rightarrow> insert_row (ref_id r)
     \<lparr>art_owner = lg_owner l, art_task = lg_task l, art_sha = ref_sha r, art_bytes = ref_bytes r, art_data = data\<rparr> arts)"

text \<open>The ledger row holds the canonical text of a reference; its value is kept here.\<close>

definition complete :: "ledger_env \<Rightarrow> op_scope \<Rightarrow> ledger \<Rightarrow> pystr \<Rightarrow> pystr \<Rightarrow> pystr \<Rightarrow> pystr \<Rightarrow> json \<Rightarrow> json \<Rightarrow>
    ('a ledger_db_scheme) \<Rightarrow> reference result \<times> ('a ledger_db_scheme)" where
  "complete e c l step fence i j result evidence db = txn db (
     bind_result (make_artifact e i result) (\<lambda>(rr, rd).
     bind_result (make_artifact e j evidence) (\<lambda>(er, ed).
     bind_result (ledger_scope c True l db) (\<lambda>_.
     bind_result (op_get l step db) (\<lambda>row.
     bind_result (guard (op_state row = OpRunning \<and> op_fence row = Some fence)
       (PermissionError ''Operation result fence is stale'')) (\<lambda>_.
     bind_result (ledger_capacity e db (jtext_bytes rd + jtext_bytes ed
         + 2 * (byte_len (lg_owner l) + byte_len (lg_task l) + 32 + 64 + 8))) (\<lambda>_.
     case insert_artifact l (rr, rd) (artifacts db) of
       None \<Rightarrow> Inl (ValueError ''UNIQUE constraint failed: temporal_artifacts.id'')
     | Some arts \<Rightarrow> (case insert_artifact l (er, ed) arts of
         None \<Rightarrow> Inl (ValueError ''UNIQUE constraint failed: temporal_artifacts.id'')
       | Some arts' \<Rightarrow> Inr (rr, set_op (op_key l step) (\<lambda>r. r\<lparr>op_state := OpCompleted,
           op_result_ref := Some (sort_keys (reference_json rr)),
           op_evidence_ref := Some (sort_keys (reference_json er)), op_updated := le_now e\<rparr>)
           (db\<lparr>artifacts := arts'\<rparr>))))))))))"

definition load :: "op_scope \<Rightarrow> ledger \<Rightarrow> json \<Rightarrow> ('a ledger_db_scheme) \<Rightarrow> json result" where
  "load c l reference db =
     (if \<not> has_keys reference [''schema_version'', ''id'', ''sha256'', ''bytes'']
         \<or> jget reference ''schema_version'' \<noteq> JInt 1
         \<or> (case jget reference ''bytes'' of JInt n \<Rightarrow> n < 0 | _ \<Rightarrow> True)
         \<or> (case jget reference ''id'' of JStr s \<Rightarrow> py_len s \<noteq> 32 | _ \<Rightarrow> True)
         \<or> (case jget reference ''sha256'' of JStr s \<Rightarrow> py_len s \<noteq> 64 | _ \<Rightarrow> True)
      then Inl (ValueError ''Invalid artifact reference'')
      else bind_result (ledger_scope c False l db) (\<lambda>_.
        case map_of (artifacts db) (jtext_of (jget reference ''id'')) of
          None \<Rightarrow> Inl (KeyError ''Artifact not found in this task'')
        | Some a \<Rightarrow>
            (let data = dumps (jt_ascii (art_data a)) (jt_tight (art_data a)) (jt_doc (art_data a)) in
             if art_owner a \<noteq> lg_owner l \<or> art_task a \<noteq> lg_task l
             then Inl (KeyError ''Artifact not found in this task'')
             else if int (byte_len data) \<noteq> jint_of (jget reference ''bytes'') \<or> art_bytes a \<noteq> int (byte_len data)
                \<or> art_sha a \<noteq> jtext_of (jget reference ''sha256'')
                \<or> sha256 data \<noteq> jtext_of (jget reference ''sha256'')
             then Inl (ValueError ''Artifact integrity check failed'')
             else Inr (jt_doc (art_data a)))))"

section \<open>Running a step\<close>

text \<open>
  \<open>run\<close>: \<open>execute\<close> performs the effect and may itself write the database; \<open>encode\<close>, \<open>decode\<close>
  and \<open>evidence\<close> are the serialization hooks.  \<open>fence\<close>, \<open>i\<close> and \<open>j\<close> are the three fresh
  \<open>uuid4().hex\<close> of the call.
\<close>

definition run_claimed :: "ledger_env \<Rightarrow> op_scope \<Rightarrow> ledger \<Rightarrow> pystr \<Rightarrow> pystr \<Rightarrow> pystr \<Rightarrow>
    (('a ledger_db_scheme) \<Rightarrow> 'v result \<times> ('a ledger_db_scheme)) \<Rightarrow> ('v \<Rightarrow> json) \<Rightarrow> ('v \<Rightarrow> json) \<Rightarrow>
    pystr \<Rightarrow> ('a ledger_db_scheme) \<Rightarrow> 'v result \<times> ('a ledger_db_scheme)" where
  "run_claimed e c l step i j execute encode evidence fence db = (case execute db of
     (Inl x, db1) \<Rightarrow> (Inl x, snd (uncertain_op e c l step fence db1))
   | (Inr v, db1) \<Rightarrow> (case complete e c l step fence i j (encode v) (evidence v) db1 of
       (Inl x, db2) \<Rightarrow> (Inl x, snd (uncertain_op e c l step fence db2))
     | (Inr _, db2) \<Rightarrow> (Inr v, db2)))"

definition load_ref :: "op_scope \<Rightarrow> ledger \<Rightarrow> json option \<Rightarrow> ('a ledger_db_scheme) \<Rightarrow> json result" where
  "load_ref c l ref db = (case ref of None \<Rightarrow> Inl (TypeError ''the JSON object must be str'')
     | Some r \<Rightarrow> load c l r db)"

definition run :: "ledger_env \<Rightarrow> op_scope \<Rightarrow> ledger \<Rightarrow> pystr \<Rightarrow> pystr \<Rightarrow> json \<Rightarrow> pystr \<Rightarrow> pystr \<Rightarrow> pystr \<Rightarrow>
    (('a ledger_db_scheme) \<Rightarrow> 'v result \<times> ('a ledger_db_scheme)) \<Rightarrow> ('v \<Rightarrow> json) \<Rightarrow> (json \<Rightarrow> 'v) \<Rightarrow> ('v \<Rightarrow> json) \<Rightarrow>
    ('a ledger_db_scheme) \<Rightarrow> 'v result \<times> ('a ledger_db_scheme)" where
  "run e c l step kind arguments fence i j execute encode decode evidence db =
     (case prepare e c l step kind arguments db of
       (Inl x, db1) \<Rightarrow> (Inl x, db1)
     | (Inr _, db1) \<Rightarrow> (case claim_op e c l step fence db1 of
         (Inl x, db2) \<Rightarrow> (Inl x, db2)
       | (Inr row, db2) \<Rightarrow>
           if op_state row = OpCompleted
           then (map_sum id decode (bind_result (load_ref c l (op_evidence_ref row) db2) (\<lambda>_.
                   load_ref c l (op_result_ref row) db2)), db2)
           else run_claimed e c l step i j execute encode evidence fence db2))"

end
