(* ===== verification/Ledger_Properties.thy ===== *)
theory Ledger_Properties
  imports Ledger
begin

text \<open>
  What the operation ledger guarantees: a logical step that was started is never started
  again, and a completed step replays its recorded result, checked against its digest,
  instead of repeating the effect.
\<close>

section \<open>How ledger rows change\<close>

definition op_keeps :: "op_row \<Rightarrow> op_row \<Rightarrow> bool" where
  "op_keeps r r' \<longleftrightarrow> op_kind r' = op_kind r \<and> op_digest r' = op_digest r
     \<and> (op_state r \<noteq> OpPrepared \<longrightarrow> op_state r' \<noteq> OpPrepared)"

definition ledger_frame :: "('a ledger_db_scheme) \<Rightarrow> ('a ledger_db_scheme) \<Rightarrow> bool" where
  "ledger_frame db db' \<longleftrightarrow> (\<forall>k r. map_of (ledger_rows db) k = Some r \<longrightarrow>
     (\<exists>r'. map_of (ledger_rows db') k = Some r' \<and> op_keeps r r'))"

lemma op_keeps_refl [simp]: "op_keeps r r"
  by (simp add: op_keeps_def)

lemma ledger_frame_refl [simp]: "ledger_frame db db"
  by (simp add: ledger_frame_def)

lemma ledger_frame_trans: "ledger_frame a b \<Longrightarrow> ledger_frame b c \<Longrightarrow> ledger_frame a c"
  unfolding ledger_frame_def op_keeps_def by (metis (no_types, lifting))

lemma ledger_frameD:
  "ledger_frame db db' \<Longrightarrow> map_of (ledger_rows db) k = Some r \<Longrightarrow>
   \<exists>r'. map_of (ledger_rows db') k = Some r' \<and> op_keeps r r'"
  unfolding ledger_frame_def by blast

lemma ledger_rows_set_op [simp]: "ledger_rows (set_op key f db) = update_key key (\<lambda>_. True) f (ledger_rows db)"
  by (simp add: set_op_def ledger_rows_def)

lemma frame_set_op:
  "(\<And>r. map_of (ledger_rows db) key = Some r \<Longrightarrow> op_keeps r (f r)) \<Longrightarrow> ledger_frame db (set_op key f db)"
  by (auto simp: ledger_frame_def update_key_lookup)

lemma frame_append: "ledger_frame db (db\<lparr>operation_ledger := Some (ledger_rows db @ x)\<rparr>)"
  by (auto simp: ledger_frame_def ledger_rows_def map_add_Some_iff split: option.splits)

lemma frame_of_txn:
  "(\<And>a db'. body = Inr (a, db') \<Longrightarrow> ledger_frame db db') \<Longrightarrow> ledger_frame db (snd (txn db body))"
  by (auto simp: txn_def split: sum.splits)

lemma frame_prepare: "ledger_frame db (snd (prepare e c l step kind args db))"
  unfolding prepare_def Let_def
  by (rule frame_of_txn) (auto simp: frame_append split: option.splits if_splits)

lemma frame_claim_op: "ledger_frame db (snd (claim_op e c l step fence db))"
  unfolding claim_op_def Let_def
  by (rule frame_of_txn) (auto intro!: frame_set_op simp: op_keeps_def split: if_splits)

lemma frame_uncertain_op: "ledger_frame db (snd (uncertain_op e c l step fence db))"
  unfolding uncertain_op_def
  by (rule frame_of_txn) (auto intro!: frame_set_op simp: op_keeps_def split: if_splits)

lemma frame_reject_op: "ledger_frame db (snd (reject_op e c l step db))"
  unfolding reject_op_def
  by (rule frame_of_txn) (auto intro!: frame_set_op simp: op_keeps_def split: if_splits)

lemma complete_Inr:
  assumes "complete e c l step fence i j res evid db = (Inr rr, db')"
  shows "\<exists>rd er ed row. make_artifact e i res = Inr (rr, rd) \<and> make_artifact e j evid = Inr (er, ed)
    \<and> map_of (ledger_rows db) (op_key l step) = Some row \<and> op_state row = OpRunning
    \<and> map_of (artifacts db) (ref_id rr) = None \<and> ref_id er \<noteq> ref_id rr \<and> map_of (artifacts db) (ref_id er) = None
    \<and> artifacts db' = artifacts db @ [(ref_id rr, \<lparr>art_owner = lg_owner l, art_task = lg_task l,
          art_sha = ref_sha rr, art_bytes = ref_bytes rr, art_data = rd\<rparr>),
        (ref_id er, \<lparr>art_owner = lg_owner l, art_task = lg_task l,
          art_sha = ref_sha er, art_bytes = ref_bytes er, art_data = ed\<rparr>)]
    \<and> ledger_rows db' = update_key (op_key l step) (\<lambda>_. True) (\<lambda>r. r\<lparr>op_state := OpCompleted,
        op_result_ref := Some (sort_keys (reference_json rr)),
        op_evidence_ref := Some (sort_keys (reference_json er)), op_updated := le_now e\<rparr>) (ledger_rows db)"
proof -
  have lr: "ledger_rows (d\<lparr>artifacts := a\<rparr>) = ledger_rows d" for d :: "'a ledger_db_scheme" and a
    by (simp add: ledger_rows_def)
  have ar: "artifacts (set_op k f d) = artifacts d" for k f and d :: "'a ledger_db_scheme"
    by (simp add: set_op_def)
  from assms show ?thesis
    by (auto simp: complete_def txn_Inr insert_artifact_def insert_row_append op_get_def lr ar
        split: option.splits if_splits prod.splits)
qed

lemma complete_Inl: "complete e c l step fence i j res evid db = (Inl x, db') \<Longrightarrow> db' = db"
  by (simp add: complete_def txn_Inl)

lemma frame_complete: "ledger_frame db (snd (complete e c l step fence i j res evid db))"
proof -
  obtain x db' where c: "complete e c l step fence i j res evid db = (x, db')" by fastforce
  show ?thesis
  proof (cases x)
    case (Inl y)
    with c complete_Inl show ?thesis by fastforce
  next
    case (Inr rr)
    then obtain f where "ledger_rows db' = update_key (op_key l step) (\<lambda>_. True) f (ledger_rows db)"
        "\<And>r. op_keeps r (f r)"
      using complete_Inr c by (fastforce simp: op_keeps_def)
    then show ?thesis using c by (auto simp: ledger_frame_def update_key_lookup)
  qed
qed

lemma frame_fence_ops: "ledger_frame db (fence_operations t ow k db)"
  by (auto simp: ledger_frame_def ledger_rows_def fence_operations_def update_where_lookup op_keeps_def
      fence_op_def split: option.splits)

section \<open>A step starts at most once\<close>

datatype ledger_op =
    LPrepare ledger_env op_scope ledger pystr pystr json
  | LClaim ledger_env op_scope ledger pystr pystr
  | LUncertain ledger_env op_scope ledger pystr pystr
  | LReject ledger_env op_scope ledger pystr
  | LComplete ledger_env op_scope ledger pystr pystr pystr pystr json json
  | LFence owner task_id

fun ledger_step :: "time \<Rightarrow> ledger_op \<Rightarrow> ledger_db \<Rightarrow> ledger_db" where
  "ledger_step t (LPrepare e c l step kind args) db = snd (prepare (e\<lparr>le_now := t\<rparr>) c l step kind args db)"
| "ledger_step t (LClaim e c l step fence) db = snd (claim_op (e\<lparr>le_now := t\<rparr>) c l step fence db)"
| "ledger_step t (LUncertain e c l step fence) db = snd (uncertain_op (e\<lparr>le_now := t\<rparr>) c l step fence db)"
| "ledger_step t (LReject e c l step) db = snd (reject_op (e\<lparr>le_now := t\<rparr>) c l step db)"
| "ledger_step t (LComplete e c l step fence i j res evid) db =
     snd (complete (e\<lparr>le_now := t\<rparr>) c l step fence i j res evid db)"
| "ledger_step t (LFence ow k) db = fence_operations t ow k db"

lemma frame_ledger_step: "ledger_frame db (ledger_step t a db)"
  by (cases a) (simp_all add: frame_prepare frame_claim_op frame_uncertain_op frame_reject_op
      frame_complete frame_fence_ops)

lemma frame_run_ops: "ledger_frame db (run_ops ledger_step tr db)"
proof (induction tr arbitrary: db)
  case (Cons x tr)
  obtain t a where "x = (t, a)" by (cases x)
  with Cons [of "ledger_step t a db"] frame_ledger_step ledger_frame_trans show ?case by fastforce
qed simp

definition step_started :: "ledger \<Rightarrow> pystr \<Rightarrow> ('a ledger_db_scheme) \<Rightarrow> bool" where
  "step_started l step db \<longleftrightarrow>
     (\<exists>r. map_of (ledger_rows db) (op_key l step) = Some r \<and> op_state r \<noteq> OpPrepared)"

lemma started_in_frame: "ledger_frame db db' \<Longrightarrow> step_started l step db \<Longrightarrow> step_started l step db'"
  unfolding step_started_def op_keeps_def ledger_frame_def by blast

lemma claim_op_started: "claim_op e c l step fence db = (Inr row, db') \<Longrightarrow> step_started l step db'"
  by (auto simp: claim_op_def txn_Inr step_started_def op_get_def update_key_lookup Let_def
      split: if_splits option.splits)

lemma claim_op_restart:
  "step_started l step db \<Longrightarrow> claim_op e c l step fence db = (Inr row, db') \<Longrightarrow> op_state row = OpCompleted"
  by (auto simp: claim_op_def txn_Inr step_started_def op_get_def Let_def split: if_splits option.splits)

lemma started_not_run:
  assumes "step_started l step db"
  shows "run e c l step kind args fence i j execute enc dec evid db
       = run e c l step kind args fence i j execute' enc dec evid db"
proof -
  obtain x db1 where p: "prepare e c l step kind args db = (x, db1)" by fastforce
  have s: "step_started l step db1" using started_in_frame [OF frame_prepare assms] p by (metis snd_conv)
  obtain y db2 where c: "claim_op e c l step fence db1 = (y, db2)" by fastforce
  show ?thesis
  proof (cases y)
    case (Inl z)
    with p c show ?thesis by (cases x) (simp_all add: run_def)
  next
    case (Inr row)
    with claim_op_restart [OF s] c have "op_state row = OpCompleted" by blast
    with p c Inr show ?thesis by (cases x) (simp_all add: run_def)
  qed
qed

text \<open>
  C15: the effect of a logical step is started at most once.  After a claim of the step
  succeeded, and after any later history of ledger operations and cancellations of any task,
  running the step again cannot invoke its effect: the outcome and the database are the same
  whatever the effect would be (the recorded result, or a refusal), also after a crash that
  left the step running, an error that left it uncertain, or a cancellation.
\<close>

theorem step_effect_at_most_once:
  assumes "claim_op e0 c0 l step fence0 db = (Inr row, db0)"
  shows "run e c l step kind args fence i j execute enc dec evid (run_ops ledger_step tr db0)
       = run e c l step kind args fence i j execute' enc dec evid (run_ops ledger_step tr db0)"
  by (rule started_not_run, rule started_in_frame [OF frame_run_ops claim_op_started [OF assms]])

section \<open>Completed steps replay\<close>

lemma py_len_ascii: "list_all (\<lambda>c. (of_char c :: nat) < 128) s \<Longrightarrow> py_len s = length s"
  by (induction s) (auto simp: py_len_def continuation_byte_def)

lemma lower_hex_ascii: "lower_hex c \<Longrightarrow> (of_char c :: nat) < 128"
  by (auto simp: lower_hex_def is_digit_def)

lemma py_len_sha256: "py_len (sha256 s) = 64"
  using sha256_chars [of s] py_len_ascii [of "sha256 s"] lower_hex_ascii
  by (simp add: list_all_iff length_sha256)

lemma reference_fields:
  "has_keys (sort_keys (reference_json r)) [''schema_version'', ''id'', ''sha256'', ''bytes'']"
  "jget (sort_keys (reference_json r)) ''schema_version'' = JInt 1"
  "jget (sort_keys (reference_json r)) ''id'' = JStr (ref_id r)"
  "jget (sort_keys (reference_json r)) ''sha256'' = JStr (ref_sha r)"
  "jget (sort_keys (reference_json r)) ''bytes'' = JInt (ref_bytes r)"
proof -
  let ?kvs = "[(''schema_version'', JInt 1), (''id'', JStr (ref_id r)), (''sha256'', JStr (ref_sha r)),
    (''bytes'', JInt (ref_bytes r))]"
  have d: "distinct (map fst ?kvs)" by simp
  have f: "jfield (sort_keys (reference_json r)) k = map_option sort_keys (map_of ?kvs k)" for k
    unfolding reference_json_def by (rule jfield_sort_keys [OF d])
  show "jget (sort_keys (reference_json r)) ''schema_version'' = JInt 1"
    "jget (sort_keys (reference_json r)) ''id'' = JStr (ref_id r)"
    "jget (sort_keys (reference_json r)) ''sha256'' = JStr (ref_sha r)"
    "jget (sort_keys (reference_json r)) ''bytes'' = JInt (ref_bytes r)"
    unfolding jget_def f by simp_all
  show "has_keys (sort_keys (reference_json r)) [''schema_version'', ''id'', ''sha256'', ''bytes'']"
    by (simp add: has_keys_def reference_json_def list_all_iff image_iff)
qed

lemma make_artifact_Inr:
  "make_artifact e i v = Inr (r, d) \<Longrightarrow> ref_id r = i \<and> d = canonical_text v \<and> ref_sha r = sha256 (canonical v)
     \<and> ref_bytes r = int (byte_len (canonical v))"
  by (auto simp: make_artifact_def canonical_text_def canonical_def jtext_bytes_def json_bytes_def Let_def
      split: if_splits)

lemma load_stored:
  assumes "make_artifact e i v = Inr (r, d)" "py_len i = 32" "ledger_scope c False l db = Inr ()"
    and "map_of (artifacts db) i = Some \<lparr>art_owner = lg_owner l, art_task = lg_task l, art_sha = ref_sha r,
      art_bytes = ref_bytes r, art_data = d\<rparr>"
  shows "load c l (sort_keys (reference_json r)) db = Inr (sort_keys v)"
  using make_artifact_Inr [OF assms(1)] assms(2-4)
  by (simp add: load_def reference_fields py_len_sha256 canonical_text_def canonical_def Let_def)

text \<open>The hook that performs the effect may write the database, but does not rewrite the kind or
  the argument digest of a ledger row (no operation of the ledger does).\<close>

definition keeps_ledger :: "(('a ledger_db_scheme) \<Rightarrow> 'v result \<times> ('a ledger_db_scheme)) \<Rightarrow> bool" where
  "keeps_ledger execute \<longleftrightarrow> (\<forall>d. ledger_frame d (snd (execute d)))"

lemma prepare_Inr:
  assumes "prepare e c l step kind args db = (Inr old, db')"
  shows "check_step step = Inr () \<and> kind \<in> set [''model'', ''tool'', ''evaluation'']
    \<and> (\<exists>r. map_of (ledger_rows db') (op_key l step) = Some r \<and> op_kind r = kind
         \<and> op_digest r = digest (JArr [JStr (lg_digest l), JStr kind, args]))"
  using assms
  by (auto simp: prepare_def txn_Inr ledger_rows_def map_add_Some_iff Let_def split: option.splits if_splits)

lemma prepare_unstarted:
  "prepare e c l step kind args db = (Inr old, db') \<Longrightarrow> \<not> step_started l step db \<Longrightarrow>
   \<exists>r. map_of (ledger_rows db') (op_key l step) = Some r \<and> op_state r = OpPrepared"
  by (auto simp: prepare_def txn_Inr step_started_def ledger_rows_def map_add_Some_iff Let_def
      split: option.splits if_splits)

lemma claim_op_prepared:
  "claim_op e c l step fence db = (Inr row, db') \<Longrightarrow>
   map_of (ledger_rows db) (op_key l step) = Some r \<Longrightarrow> op_state r = OpPrepared \<Longrightarrow> op_state row = OpRunning"
  by (auto simp: claim_op_def txn_Inr op_get_def Let_def split: if_splits)

lemma run_executed:
  assumes "run e c l step kind args fence i j execute enc dec evid db = (Inr v, db')"
    and ns: "\<not> step_started l step db" and ex: "keeps_ledger execute"
  shows "\<exists>db2 rr. complete e c l step fence i j (enc v) (evid v) db2 = (Inr rr, db')
    \<and> check_step step = Inr () \<and> kind \<in> set [''model'', ''tool'', ''evaluation'']
    \<and> (\<exists>r. map_of (ledger_rows db') (op_key l step) = Some r \<and> op_kind r = kind
         \<and> op_digest r = digest (JArr [JStr (lg_digest l), JStr kind, args]))"
proof -
  obtain old db1 where p: "prepare e c l step kind args db = (Inr old, db1)"
    using assms(1) by (auto simp: run_def split: prod.splits sum.splits)
  obtain row db2 where c: "claim_op e c l step fence db1 = (Inr row, db2)"
    using assms(1) p by (auto simp: run_def split: prod.splits sum.splits)
  have "op_state row = OpRunning"
    using prepare_unstarted [OF p ns] claim_op_prepared [OF c] by blast
  then have "run_claimed e c l step i j execute enc evid fence db2 = (Inr v, db')"
    using assms(1) p c by (simp add: run_def)
  then obtain db3 rr where x: "execute db2 = (Inr v, db3)"
      and d: "complete e c l step fence i j (enc v) (evid v) db3 = (Inr rr, db')"
    by (auto simp: run_claimed_def split: prod.splits sum.splits)
  from prepare_Inr [OF p] obtain r where r: "map_of (ledger_rows db1) (op_key l step) = Some r"
      "op_kind r = kind" "op_digest r = digest (JArr [JStr (lg_digest l), JStr kind, args])"
    by blast
  have "ledger_frame db1 db2" using frame_claim_op [of db1 e c l step fence] c by simp
  moreover have "ledger_frame db2 db3" using ex x by (metis keeps_ledger_def snd_conv)
  moreover have "ledger_frame db3 db'" using frame_complete [of db3 e c l step fence i j "enc v" "evid v"] d by simp
  ultimately have "ledger_frame db1 db'" using ledger_frame_trans by blast
  from ledger_frameD [OF this r(1)] r(2,3) have "\<exists>r'. map_of (ledger_rows db') (op_key l step) = Some r'
      \<and> op_kind r' = kind \<and> op_digest r' = digest (JArr [JStr (lg_digest l), JStr kind, args])"
    by (auto simp: op_keeps_def)
  with d prepare_Inr [OF p] show ?thesis by blast
qed

text \<open>
  C16: a completed step replays its recorded result.  When a first run of a step performed its
  effect and returned a value, every later run of the same step with the same arguments, by
  whoever may still read the task, returns that value without touching the database and
  whatever its own effect would do: the result and the evidence were stored, and both pass
  the size and SHA-256 checks on the way out.
\<close>

theorem completed_step_replays:
  assumes first: "run e c l step kind args fence i j execute enc dec evid db = (Inr v, db')"
    and new: "\<not> step_started l step db" and effect: "keeps_ledger execute"
    and ids: "py_len i = 32" "py_len j = 32"
    and hooks: "dec (sort_keys (enc v)) = v"
    and scope: "ledger_scope c' False l db' = Inr ()"
  shows "run e' c' l step kind args fence' i' j' execute' enc dec evid db' = (Inr v, db')"
proof -
  obtain db2 rr r where d: "complete e c l step fence i j (enc v) (evid v) db2 = (Inr rr, db')"
    and k: "check_step step = Inr ()" "kind \<in> set [''model'', ''tool'', ''evaluation'']"
    and r: "map_of (ledger_rows db') (op_key l step) = Some r" "op_kind r = kind"
      "op_digest r = digest (JArr [JStr (lg_digest l), JStr kind, args])"
    using run_executed [OF first new effect] by blast
  from complete_Inr [OF d] obtain rd er ed where
    m: "make_artifact e i (enc v) = Inr (rr, rd)" "make_artifact e j (evid v) = Inr (er, ed)"
    and n: "map_of (artifacts db2) (ref_id rr) = None" "ref_id er \<noteq> ref_id rr" "map_of (artifacts db2) (ref_id er) = None"
    and arts: "artifacts db' = artifacts db2 @ [(ref_id rr, \<lparr>art_owner = lg_owner l, art_task = lg_task l,
          art_sha = ref_sha rr, art_bytes = ref_bytes rr, art_data = rd\<rparr>),
        (ref_id er, \<lparr>art_owner = lg_owner l, art_task = lg_task l,
          art_sha = ref_sha er, art_bytes = ref_bytes er, art_data = ed\<rparr>)]"
    and rows: "ledger_rows db' = update_key (op_key l step) (\<lambda>_. True) (\<lambda>r. r\<lparr>op_state := OpCompleted,
        op_result_ref := Some (sort_keys (reference_json rr)),
        op_evidence_ref := Some (sort_keys (reference_json er)), op_updated := le_now e\<rparr>) (ledger_rows db2)"
    by blast
  have ids': "ref_id rr = i" "ref_id er = j"
    using make_artifact_Inr [OF m(1)] make_artifact_Inr [OF m(2)] by simp_all
  have st: "op_state r = OpCompleted" "op_result_ref r = Some (sort_keys (reference_json rr))"
      "op_evidence_ref r = Some (sort_keys (reference_json er))"
    using r(1) unfolding rows update_key_lookup by auto
  have ai: "map_of (artifacts db') i = Some \<lparr>art_owner = lg_owner l, art_task = lg_task l,
      art_sha = ref_sha rr, art_bytes = ref_bytes rr, art_data = rd\<rparr>"
    and aj: "map_of (artifacts db') j = Some \<lparr>art_owner = lg_owner l, art_task = lg_task l,
      art_sha = ref_sha er, art_bytes = ref_bytes er, art_data = ed\<rparr>"
    using n ids' unfolding arts by (auto simp: map_add_def)
  have "load c' l (sort_keys (reference_json rr)) db' = Inr (sort_keys (enc v))"
    and "load c' l (sort_keys (reference_json er)) db' = Inr (sort_keys (evid v))"
    using load_stored [OF m(1) ids(1) scope ai] load_stored [OF m(2) ids(2) scope aj] by simp_all
  then have loaded: "bind_result (load_ref c' l (op_evidence_ref r) db') (\<lambda>_.
      load_ref c' l (op_result_ref r) db') = Inr (sort_keys (enc v))"
    by (simp add: st load_ref_def)
  have "prepare e' c' l step kind args db' = (Inr r, db')"
    using k scope r st(1) by (simp add: prepare_def)
  moreover have "claim_op e' c' l step fence' db' = (Inr r, db')"
    using k(1) scope r(1) st(1) by (simp add: claim_op_def op_get_def)
  ultimately show ?thesis
    using loaded hooks st(1) by (auto simp: run_def)
qed

section \<open>A concrete step\<close>

definition demo_sub_row :: submission where
  "demo_sub_row = \<lparr>sub_owner = ''o'', sub_task = ''k'', sub_workflow = ''w'', sub_digest = ''d'',
     sub_input = JText False True (JArr []),
     sub_context = JText False True (JObj [(''workspace'', JStr ''/w'')]), sub_role = ''admin'',
     sub_address = ''a'', sub_namespace = ''n'', sub_queue = ''q'', sub_state = SRunning, sub_fence = Some ''f1'',
     sub_result = None, sub_attempts = 0, sub_error = None, sub_updated = 0\<rparr>"

definition demo_task_row :: task_row where
  "demo_task_row = \<lparr>goal = ''g'', criteria = JText True False (JObj []), tstate = Pending,
     phase = ''temporal_pending'', checkpoint_doc = JText True False (JObj []), episode = None, reply = None,
     lease_owner = None, lease_until = None, attempts = 0, recoveries = 0, verification = ''unverified'',
     updated = 0\<rparr>"

definition demo_ledger_db :: ledger_db where
  "demo_ledger_db = temporal_db.extend (budget_db.extend
     (task_db.extend (empty_db\<lparr>execution_bindings := Some [((''o'', ''k''), ''temporal'')],
          submissions := [(''s1'', demo_sub_row)], tasks := [((''o'', ''k''), demo_task_row)],
          operation_ledger := Some []\<rparr>)
       \<lparr>task_budgets = [], budget_calls = [], budget_rates = [], model_slots = []\<rparr>)
     \<lparr>host_token = ''h'', protocols = [], budget_contracts = []\<rparr>) \<lparr>artifacts = []\<rparr>"

definition demo_ledger :: ledger where
  "demo_ledger = \<lparr>lg_key = ''s1'', lg_fence = ''f1'', lg_owner = ''o'', lg_task = ''k'',
     lg_digest = scope_digest demo_sub_row\<rparr>"

definition demo_scope :: op_scope where
  "demo_scope = \<lparr>sc_owner = ''o'', sc_task = Some ''k'', sc_configured = ''/w'', sc_resolve = (\<lambda>p. p),
     sc_workspace = Some ''/w'', sc_repository = None, sc_worktree = False, sc_git_file = False,
     sc_cancelled = False\<rparr>"

definition demo_ledger_env :: ledger_env where
  "demo_ledger_env = \<lparr>le_now = 1, le_artifact_max = 1000, le_storage = 100000, le_operations = 10,
     le_other_bytes = 0\<rparr>"

definition id_a :: pystr where "id_a = replicate 32 (CHR ''a'')"
definition id_b :: pystr where "id_b = replicate 32 (CHR ''b'')"

lemma demo_scope_ok:
  assumes "submissions db = submissions demo_ledger_db" "tasks db = tasks demo_ledger_db"
    "execution_bindings db = execution_bindings demo_ledger_db" "task_workspaces db = task_workspaces demo_ledger_db"
    "wl_sessions db = wl_sessions demo_ledger_db"
  shows "ledger_scope demo_scope active demo_ledger db = Inr ()"
  using assms
  by (simp add: ledger_scope_def demo_scope_def demo_ledger_def demo_ledger_db_def temporal_db.defs
      budget_db.defs task_db.defs empty_db_def demo_sub_row_def demo_task_row_def live_states_def
      scope_workspace_def py_index_def assert_owner_active_def owner_blocked_def)

definition demo_op :: "op_state \<Rightarrow> op_row" where
  "demo_op st = \<lparr>op_kind = ''tool'', op_digest = digest (JArr [JStr (lg_digest demo_ledger), JStr ''tool'', JNull]),
     op_state = st, op_fence = None, op_result_ref = None, op_evidence_ref = None, op_updated = 1\<rparr>"

lemma demo_ledger_facts [simp]:
  "op_key demo_ledger step = (''o'', ''k'', step)"
  "lg_owner demo_ledger = ''o''" "lg_task demo_ledger = ''k''"
  "artifacts demo_ledger_db = []" "operation_ledger demo_ledger_db = Some []"
  by (simp_all add: op_key_def demo_ledger_def byte_len_def demo_ledger_db_def temporal_db.defs
      budget_db.defs task_db.defs)

lemma demo_prepare:
  "prepare demo_ledger_env demo_scope demo_ledger ''t1'' ''tool'' JNull demo_ledger_db =
     (Inr (demo_op OpPrepared),
      demo_ledger_db\<lparr>operation_ledger := Some [((''o'', ''k'', ''t1''), demo_op OpPrepared)]\<rparr>)"
  by (simp add: prepare_def demo_scope_ok check_step_def byte_len_def ledger_rows_def demo_ledger_env_def
      positive_limit_def ledger_capacity_def ledger_used_def demo_op_def Let_def)

definition demo_claimed :: ledger_db where
  "demo_claimed = demo_ledger_db\<lparr>operation_ledger := Some [((''o'', ''k'', ''t1''),
     (demo_op OpRunning)\<lparr>op_fence := Some ''f2''\<rparr>)]\<rparr>"

lemma demo_claim_op:
  "claim_op demo_ledger_env demo_scope demo_ledger ''t1'' ''f2''
     (demo_ledger_db\<lparr>operation_ledger := Some [((''o'', ''k'', ''t1''), demo_op OpPrepared)]\<rparr>) =
   (Inr ((demo_op OpRunning)\<lparr>op_fence := Some ''f2''\<rparr>), demo_claimed)"
  by (simp add: claim_op_def demo_scope_ok check_step_def byte_len_def op_get_def ledger_rows_def
      demo_op_def demo_ledger_env_def set_op_def update_key_def demo_claimed_def Let_def)

theorem step_effect_at_most_once_witness:
  "run demo_ledger_env demo_scope demo_ledger ''t1'' ''tool'' JNull ''f3'' id_a id_b
       (\<lambda>d. (Inr JNull, d)) (\<lambda>v. v) (\<lambda>v. v) (\<lambda>_. JObj []) (run_ops ledger_step [(2, LFence ''o'' ''k'')] demo_claimed)
   = run demo_ledger_env demo_scope demo_ledger ''t1'' ''tool'' JNull ''f3'' id_a id_b
       (\<lambda>d. (Inl (PyRuntimeError ''boom''), d)) (\<lambda>v. v) (\<lambda>v. v) (\<lambda>_. JObj []) (run_ops ledger_step [(2, LFence ''o'' ''k'')] demo_claimed)"
  by (rule step_effect_at_most_once [OF demo_claim_op])

lemma demo_complete:
  "\<exists>db'. complete demo_ledger_env demo_scope demo_ledger ''t1'' ''f2'' id_a id_b JNull JNull demo_claimed
       = (Inr \<lparr>ref_id = id_a, ref_sha = sha256 (canonical JNull), ref_bytes = 4\<rparr>, db')
     \<and> submissions db' = submissions demo_ledger_db \<and> tasks db' = tasks demo_ledger_db
     \<and> execution_bindings db' = execution_bindings demo_ledger_db
     \<and> task_workspaces db' = task_workspaces demo_ledger_db \<and> wl_sessions db' = wl_sessions demo_ledger_db"
proof -
  have b: "jtext_bytes (canonical_text JNull) = 4"
    by (simp add: canonical_text_def jtext_bytes_def json_bytes_def byte_len_def)
  have sc: "ledger_scope demo_scope True demo_ledger demo_claimed = Inr ()"
    by (rule demo_scope_ok) (simp_all add: demo_claimed_def)
  have ab: "id_a \<noteq> id_b" by (simp add: id_a_def id_b_def)
  have art: "artifacts demo_claimed = []" by (simp add: demo_claimed_def)
  have rows: "ledger_rows demo_claimed = [((''o'', ''k'', ''t1''), (demo_op OpRunning)\<lparr>op_fence := Some ''f2''\<rparr>)]"
    by (simp add: demo_claimed_def ledger_rows_def)
  have cap: "ledger_capacity demo_ledger_env demo_claimed n = Inr ()" if "n \<le> 1000" for n
    using that by (simp add: ledger_capacity_def ledger_used_def art rows op_bytes_def byte_len_def py_len_def
        continuation_byte_def demo_ledger_env_def demo_op_def positive_limit_def)
  have mk: "make_artifact demo_ledger_env i JNull = Inr (\<lparr>ref_id = i, ref_sha = sha256 (canonical JNull),
      ref_bytes = 4\<rparr>, canonical_text JNull)" for i
    by (simp add: make_artifact_def b demo_ledger_env_def positive_limit_def)
  show ?thesis
    by (simp add: complete_def mk sc op_get_def rows cap b byte_len_def insert_artifact_def insert_row_def art ab [symmetric]
        demo_op_def set_op_def) (simp add: demo_claimed_def)
qed

theorem completed_step_replays_witness:
  "\<exists>db'. run demo_ledger_env demo_scope demo_ledger ''t1'' ''tool'' JNull ''f2'' id_a id_b
       (\<lambda>d. (Inr JNull, d)) (\<lambda>v. v) (\<lambda>v. v) (\<lambda>_. JNull) demo_ledger_db = (Inr JNull, db')
     \<and> run demo_ledger_env demo_scope demo_ledger ''t1'' ''tool'' JNull ''f9'' id_b id_a
       (\<lambda>d. (Inl (PyRuntimeError ''boom''), demo_ledger_db)) (\<lambda>v. v) (\<lambda>v. v) (\<lambda>_. JNull) db' = (Inr JNull, db')"
proof -
  let ?run = "\<lambda>f i j ex. run demo_ledger_env demo_scope demo_ledger ''t1'' ''tool'' JNull f i j ex (\<lambda>v. v) (\<lambda>v. v) (\<lambda>_. JNull)"
  let ?ex = "\<lambda>d. (Inr JNull :: json result, d :: ledger_db)"
  obtain db' where d: "complete demo_ledger_env demo_scope demo_ledger ''t1'' ''f2'' id_a id_b JNull JNull demo_claimed
       = (Inr \<lparr>ref_id = id_a, ref_sha = sha256 (canonical JNull), ref_bytes = 4\<rparr>, db')"
    and fr: "submissions db' = submissions demo_ledger_db" "tasks db' = tasks demo_ledger_db"
     "execution_bindings db' = execution_bindings demo_ledger_db"
     "task_workspaces db' = task_workspaces demo_ledger_db" "wl_sessions db' = wl_sessions demo_ledger_db"
    using demo_complete by blast
  have r: "?run ''f2'' id_a id_b ?ex demo_ledger_db = (Inr JNull, db')"
    by (simp add: run_def demo_prepare demo_claim_op run_claimed_def d) (simp add: demo_op_def)
  have "\<not> step_started demo_ledger ''t1'' demo_ledger_db"
    by (simp add: step_started_def ledger_rows_def demo_ledger_db_def temporal_db.defs budget_db.defs task_db.defs empty_db_def)
  moreover have "keeps_ledger ?ex" by (simp add: keeps_ledger_def)
  moreover have "py_len id_a = 32" "py_len id_b = 32"
    by (simp_all add: id_a_def id_b_def py_len_def continuation_byte_def)
  moreover have "ledger_scope demo_scope False demo_ledger db' = Inr ()"
    by (rule demo_scope_ok) (use fr in simp_all)
  ultimately have "?run ''f9'' id_b id_a (\<lambda>d. (Inl (PyRuntimeError ''boom''), demo_ledger_db)) db' = (Inr JNull, db')"
    by (intro completed_step_replays [OF r]) simp_all
  with r show ?thesis by blast
qed

end
