(* ===== verification/Approvals.thy ===== *)
theory Approvals
  imports Submissions
begin

text \<open>
  \<open>agent_execution/approvals.py\<close> with \<open>temporal_backend/approval_outbox.py\<close>: single-use human grants,
  kept in a database of their own.  A grant authorizes one action with one canonical argument
  text for one identity and session, until it expires; a grant bound to a Temporal operation
  also records every decision in an outbox for its workflow.
\<close>

section \<open>Tables\<close>

datatype grant_state = GPending | GApproved | GDenied | GConsumed | GCancelled

record approval =
  ap_identity :: pystr
  ap_session :: pystr
  ap_action :: pystr
  ap_arguments :: pystr
  ap_digest :: pystr
  ap_expires :: time
  ap_state :: grant_state

record approvals_db =
  approvals :: "(pystr, approval) table"
  approval_events :: "(pystr \<times> pystr \<times> pystr \<times> pystr \<times> time) list"
  approval_bindings :: "(pystr, pystr) table option"
  approval_outbox :: "(pystr, pystr \<times> grant_state \<times> pystr \<times> time) table"

text \<open>The clock and the two parsed limits of the outbox.\<close>

record approval_env =
  ae_now :: time
  ae_storage :: int
  ae_operations :: int

definition state_name :: "grant_state \<Rightarrow> pystr" where
  "state_name s = (case s of GPending \<Rightarrow> ''pending'' | GApproved \<Rightarrow> ''approved'' | GDenied \<Rightarrow> ''denied''
     | GConsumed \<Rightarrow> ''consumed'' | GCancelled \<Rightarrow> ''cancelled'')"

section \<open>Canonical arguments\<close>

text \<open>\<open>allow_nan=False\<close>: a non-finite float is refused.\<close>

fun finite_json :: "json \<Rightarrow> bool" where
  "finite_json (JFloat s) \<longleftrightarrow> s \<notin> set [''NaN'', ''Infinity'', ''-Infinity'']"
| "finite_json (JArr xs) \<longleftrightarrow> list_all finite_json xs"
| "finite_json (JObj kvs) \<longleftrightarrow> list_all (\<lambda>(k, v). finite_json v) kvs"
| "finite_json _ \<longleftrightarrow> True"

definition approval_fields :: "(pystr \<times> json) list \<Rightarrow> (pystr \<times> json) list" where
  "approval_fields args = filter (\<lambda>(k, v). k \<notin> set [''confirm'', ''approval_id'', ''memory'', ''episode_id'']) args"

definition approval_canonical :: "(pystr \<times> json) list \<Rightarrow> pystr result" where
  "approval_canonical args = (let v = JObj (approval_fields args) in
     if finite_json v then Inr (dumps False True (sort_keys v))
     else Inl (ValueError ''Out of range float values are not JSON compliant''))"

section \<open>Bindings to durable operations\<close>

definition binding_fields :: "pystr list" where
  "binding_fields = [''submission_id'', ''queue'', ''operation_id'', ''owner'', ''task_id'']"

definition binding_data :: "json \<Rightarrow> pystr result" where
  "binding_data b =
     (if \<not> has_keys b binding_fields
         \<or> \<not> list_all (\<lambda>v. case v of JStr s \<Rightarrow> s \<noteq> [] \<and> byte_len s \<le> 1024 | _ \<Rightarrow> False) (map snd (jpairs b))
         \<or> \<not> hex_field 32 (jget b ''submission_id'')
      then Inl (ValueError ''Invalid approval operation binding'')
      else Inr (dumps False True (sort_keys b)))"

definition get_binding :: "approvals_db \<Rightarrow> pystr \<Rightarrow> pystr option" where
  "get_binding db i = (case approval_bindings db of None \<Rightarrow> None
     | Some bs \<Rightarrow> map_option fst (find (\<lambda>(b, a). a = i) bs))"

definition audit :: "approval_env \<Rightarrow> pystr \<Rightarrow> pystr \<Rightarrow> pystr \<Rightarrow> pystr \<Rightarrow> approvals_db \<Rightarrow> approvals_db" where
  "audit e i identity session event db =
     db\<lparr>approval_events := approval_events db @ [(i, identity, session, event, ae_now e)]\<rparr>"

definition outbox_used :: "approvals_db \<Rightarrow> nat" where
  "outbox_used db = sum_list (map (\<lambda>(b, a). case map_of (approvals db) a of None \<Rightarrow> 0
       | Some r \<Rightarrow> byte_len (ap_arguments r) + byte_len b + 1024)
       (case approval_bindings db of None \<Rightarrow> [] | Some bs \<Rightarrow> bs))
     + 512 * length (approval_outbox db)"

text \<open>\<open>record_decision\<close>; \<open>w\<close> is the event's \<open>uuid4().hex\<close>.\<close>

definition record_decision :: "approval_env \<Rightarrow> pystr \<Rightarrow> pystr \<Rightarrow> grant_state \<Rightarrow> approvals_db \<Rightarrow> approvals_db result" where
  "record_decision e w i st db =
     (if get_binding db i = None \<or> list_ex (\<lambda>(_, a, s, _, _). a = i \<and> s = st) (approval_outbox db) then Inr db
      else bind_result (positive_limit ''AGENT_TEMPORAL_LEDGER_STORAGE_BYTES'' (ae_storage e)) (\<lambda>limit.
        if int (outbox_used db + 512) > limit
        then Inl (CapacityError ''Approval decision outbox capacity reached'')
        else Inr (db\<lparr>approval_outbox := insert_or_ignore w (i, st, ''pending'', ae_now e) (approval_outbox db)\<rparr>)))"

definition owned_by :: "pystr \<Rightarrow> pystr \<Rightarrow> approval \<Rightarrow> bool" where
  "owned_by identity session r \<longleftrightarrow> ap_identity r = identity \<and> ap_session r = session"

definition same_decision :: "approval_env \<Rightarrow> pystr \<Rightarrow> pystr \<Rightarrow> pystr \<Rightarrow> grant_state \<Rightarrow> approvals_db \<Rightarrow> bool" where
  "same_decision e i identity session st db \<longleftrightarrow> get_binding db i \<noteq> None
     \<and> row_where i (\<lambda>r. owned_by identity session r \<and> ap_state r = st \<and> ap_expires r > ae_now e) (approvals db)"

definition validate_consumption :: "approvals_db \<Rightarrow> pystr \<Rightarrow> json option \<Rightarrow> unit result" where
  "validate_consumption db i b =
     bind_result (case b of None \<Rightarrow> Inr None | Some v \<Rightarrow> map_sum id Some (binding_data v)) (\<lambda>actual.
       guard (actual = get_binding db i) (PermissionError ''Approval requires its original durable operation binding''))"

section \<open>The Temporal side of a binding\<close>

text \<open>
  \<open>validate_target\<close> reads the task database: the submission must be this approval workflow's and
  running, its task waiting, and the wait recorded there must name exactly this binding.
  \<open>waits\<close> is the table \<open>temporal_approval_waits\<close>, from submission and operation to binding.
\<close>

definition validate_target :: "('a temporal_db_scheme) \<Rightarrow> (pystr \<times> pystr, pystr) table \<Rightarrow> json \<Rightarrow> unit result" where
  "validate_target tdb waits target =
     bind_result (binding_data target) (\<lambda>text.
     let sub = jtext_of (jget target ''submission_id''); ow = jtext_of (jget target ''owner'');
         k = jtext_of (jget target ''task_id'') in
     bind_result (get_submission tdb sub (Some ow)) (\<lambda>row.
     bind_result (workflow_type tdb sub row) (\<lambda>wt.
     if wt \<noteq> APPROVAL_WORKFLOW_NAME \<or> sub_queue row \<noteq> jtext_of (jget target ''queue'')
        \<or> sub_task row \<noteq> k \<or> sub_state row \<noteq> SRunning
     then Inl (PermissionError ''Approval target is no longer active'')
     else bind_result (assert_owner_active tdb ow) (\<lambda>_.
       guard (row_where (ow, k) (\<lambda>t. tstate t = Pending \<or> tstate t = Suspended) (tasks tdb)
              \<and> map_of waits (sub, jtext_of (jget target ''operation_id'')) = Some text)
         (PermissionError ''Approval wait was cancelled, deleted, or already executed'')))))"

section \<open>Requesting\<close>

definition live_request :: "approval_env \<Rightarrow> pystr \<Rightarrow> pystr \<Rightarrow> pystr \<Rightarrow> pystr \<Rightarrow> approval \<Rightarrow> bool" where
  "live_request e identity session action d r \<longleftrightarrow> owned_by identity session r \<and> ap_action r = action
     \<and> ap_digest r = d \<and> ap_state r = GPending \<and> ap_expires r > ae_now e"

definition new_approval :: "pystr \<Rightarrow> pystr \<Rightarrow> pystr \<Rightarrow> pystr \<Rightarrow> time \<Rightarrow> approval" where
  "new_approval identity session action data expires =
     \<lparr>ap_identity = identity, ap_session = session, ap_action = action, ap_arguments = data,
      ap_digest = sha256 data, ap_expires = expires, ap_state = GPending\<rparr>"

definition request_approval :: "approval_env \<Rightarrow> pystr \<Rightarrow> pystr \<Rightarrow> pystr \<Rightarrow> (pystr \<times> json) list \<Rightarrow> time \<Rightarrow> pystr \<Rightarrow>
    approvals_db \<Rightarrow> pystr result \<times> approvals_db" where
  "request_approval e identity session action args ttl w db = txn db (
     bind_result (approval_canonical args) (\<lambda>data.
     case find (\<lambda>(_, r). live_request e identity session action (sha256 data) r) (approvals db) of
       Some (i, _) \<Rightarrow> Inr (i, db)
     | None \<Rightarrow> (case insert_row w (new_approval identity session action data (ae_now e + ttl)) (approvals db) of
         None \<Rightarrow> Inl (ValueError ''UNIQUE constraint failed: approvals.id'')
       | Some rows \<Rightarrow> Inr (w, audit e w identity session ''requested'' (db\<lparr>approvals := rows\<rparr>)))))"

text \<open>\<open>request_bound\<close>; the schema call makes the binding table present.\<close>

definition request_bound :: "approval_env \<Rightarrow> pystr \<Rightarrow> pystr \<Rightarrow> pystr \<Rightarrow> (pystr \<times> json) list \<Rightarrow> time \<Rightarrow> json \<Rightarrow> pystr \<Rightarrow>
    approvals_db \<Rightarrow> pystr result \<times> approvals_db" where
  "request_bound e identity session action args ttl b w db = txn db (
     if ttl \<le> 0 then Inl (ValueError ''Invalid approval lifetime'')
     else bind_result (binding_data b) (\<lambda>target.
     bind_result (approval_canonical args) (\<lambda>data.
     if byte_len data > 1024 * 1024 then Inl (CapacityError ''Approval arguments exceed 1 MiB'')
     else (let bs = (case approval_bindings db of None \<Rightarrow> [] | Some bs \<Rightarrow> bs) in
       case map_of bs target of
         Some i \<Rightarrow> (case map_of (approvals db) i of
             Some old \<Rightarrow> if (ap_identity old, ap_session old, ap_action old, ap_digest old)
                   \<noteq> (identity, session, action, sha256 data)
                 then Inl (PermissionError ''Approval binding cannot change its operation'')
                 else Inr (i, db\<lparr>approval_bindings := Some bs\<rparr>)
           | None \<Rightarrow> Inl (ValueError ''UNIQUE constraint failed: temporal_approval_bindings.binding''))
       | None \<Rightarrow>
           bind_result (positive_limit ''AGENT_TEMPORAL_OPERATION_LIMIT'' (ae_operations e)) (\<lambda>count.
           bind_result (guard (\<not> int (length bs) \<ge> count) (CapacityError ''Approval binding capacity reached'')) (\<lambda>_.
           bind_result (positive_limit ''AGENT_TEMPORAL_LEDGER_STORAGE_BYTES'' (ae_storage e)) (\<lambda>limit.
           bind_result (guard (\<not> int (outbox_used db + byte_len data + byte_len target + 3072) > limit)
             (CapacityError ''Approval authority storage capacity reached'')) (\<lambda>_.
           case insert_row w (new_approval identity session action data (ae_now e + ttl)) (approvals db) of
             None \<Rightarrow> Inl (ValueError ''UNIQUE constraint failed: approvals.id'')
           | Some rows \<Rightarrow> Inr (w, audit e w identity session ''requested''
               (db\<lparr>approvals := rows, approval_bindings := Some (bs @ [(target, w)])\<rparr>))))))))))"

section \<open>Deciding, consuming, cancelling\<close>

definition set_state :: "grant_state \<Rightarrow> pystr \<Rightarrow> (approval \<Rightarrow> bool) \<Rightarrow> approvals_db \<Rightarrow> approvals_db" where
  "set_state st i c db = db\<lparr>approvals := update_key i c (\<lambda>r. r\<lparr>ap_state := st\<rparr>) (approvals db)\<rparr>"

text \<open>
  The decision commits its audit record also when it is not accepted.  \<open>target_ok\<close> is
  \<open>validate_target\<close> on the binding's decoded text.
\<close>

definition decide :: "approval_env \<Rightarrow> (pystr \<Rightarrow> unit result) \<Rightarrow> pystr \<Rightarrow> pystr \<Rightarrow> pystr \<Rightarrow> pystr \<Rightarrow> bool \<Rightarrow>
    approvals_db \<Rightarrow> unit result \<times> approvals_db" where
  "decide e target_ok w i identity session approve db =
     (let st = (if approve then GApproved else GDenied);
          pre = (case get_binding db i of None \<Rightarrow> Inr ()
            | Some text \<Rightarrow> if same_decision e i identity session st db then Inr () else target_ok text);
          c = (\<lambda>r. owned_by identity session r \<and> ap_state r = GPending \<and> ap_expires r > ae_now e)
      in case pre of
           Inl x \<Rightarrow> (Inl x, db)
         | Inr _ \<Rightarrow>
             (let hit = row_where i c (approvals db);
                  db1 = set_state st i c db;
                  duplicate = (\<not> hit \<and> same_decision e i identity session st db1);
                  db2 = audit e i identity session (if hit then state_name st
                    else if duplicate then state_name st @ ''_duplicate'' else ''decision_rejected'') db1
              in if hit \<or> duplicate
                 then (case record_decision e w i st db2 of Inl x \<Rightarrow> (Inl x, db) | Inr db3 \<Rightarrow> (Inr (), db3))
                 else (Inl (PermissionError
                   ''Approval is missing, expired, decided, or belongs to another session''), db2)))"

definition consumable :: "approval_env \<Rightarrow> pystr \<Rightarrow> pystr \<Rightarrow> pystr \<Rightarrow> pystr \<Rightarrow> approval \<Rightarrow> bool" where
  "consumable e identity session action d r \<longleftrightarrow> owned_by identity session r \<and> ap_action r = action
     \<and> ap_digest r = d \<and> ap_state r = GApproved \<and> ap_expires r > ae_now e"

definition consume :: "approval_env \<Rightarrow> pystr \<Rightarrow> pystr \<Rightarrow> pystr \<Rightarrow> pystr \<Rightarrow> pystr \<Rightarrow> (pystr \<times> json) list \<Rightarrow>
    json option \<Rightarrow> approvals_db \<Rightarrow> unit result \<times> approvals_db" where
  "consume e w i identity session action args b db =
     (case bind_result (approval_canonical args) (\<lambda>data.
        bind_result (validate_consumption db i b) (\<lambda>_. Inr (sha256 data))) of
       Inl x \<Rightarrow> (Inl x, db)
     | Inr d \<Rightarrow>
         (let c = consumable e identity session action d; hit = row_where i c (approvals db);
              db2 = audit e i identity session (if hit then ''consumed'' else ''consume_rejected'')
                (set_state GConsumed i c db)
          in if hit then (case record_decision e w i GConsumed db2 of
               Inl x \<Rightarrow> (Inl x, db) | Inr db3 \<Rightarrow> (Inr (), db3))
             else (Inl (PermissionError (''Approval does not authorize this identity, session, action or arguments; ''
               @ ''it may be expired or already used'')), db2)))"

definition pending_approvals :: "approval_env \<Rightarrow> pystr \<Rightarrow> pystr \<Rightarrow> approvals_db \<Rightarrow> (pystr \<times> approval) list" where
  "pending_approvals e identity session db = select_where (\<lambda>_ r. owned_by identity session r
     \<and> ap_state r = GPending \<and> ap_expires r > ae_now e) (approvals db)"

definition decision_state :: "approval_env \<Rightarrow> pystr \<Rightarrow> pystr \<Rightarrow> pystr \<Rightarrow> approvals_db \<Rightarrow> pystr" where
  "decision_state e i identity session db = (case map_of (approvals db) i of
     None \<Rightarrow> ''expired''
   | Some r \<Rightarrow> if \<not> owned_by identity session r \<or> ap_expires r \<le> ae_now e then ''expired''
       else state_name (ap_state r))"

definition cancel_wait :: "approval_env \<Rightarrow> pystr \<Rightarrow> pystr \<Rightarrow> pystr \<Rightarrow> pystr \<Rightarrow> approvals_db \<Rightarrow>
    unit result \<times> approvals_db" where
  "cancel_wait e w i identity session db =
     (let c = (\<lambda>r. owned_by identity session r \<and> (ap_state r = GPending \<or> ap_state r = GApproved)) in
      txn db (if row_where i c (approvals db)
        then bind_result (record_decision e w i GCancelled (set_state GCancelled i c db)) (\<lambda>db'. Inr ((), db'))
        else Inr ((), db)))"

definition outbox_sent :: "pystr \<Rightarrow> approvals_db \<Rightarrow> approvals_db" where
  "outbox_sent ev db = db\<lparr>approval_outbox := update_key ev (\<lambda>(_, _, d, _). d = ''pending'')
     (\<lambda>(a, s, _, t). (a, s, ''sent'', t)) (approval_outbox db)\<rparr>"

definition outbox_pending :: "(pystr \<Rightarrow> bool) \<Rightarrow> approvals_db \<Rightarrow> (pystr \<times> pystr \<times> grant_state \<times> pystr \<times> time) list" where
  "outbox_pending wanted db = take 100 (sort_key (\<lambda>(_, _, _, _, t). t)
     (filter (\<lambda>(_, a, _, d, _). d = ''pending'' \<and> (case get_binding db a of None \<Rightarrow> False | Some b \<Rightarrow> wanted b))
       (approval_outbox db)))"

section \<open>The human command\<close>

text \<open>
  \<open>human_command\<close>: \<open>resume\<close> is the answer for a decided grant bound to a task, from the
  binding's text; \<open>show\<close> serializes the pending list.
\<close>

definition human_command :: "approval_env \<Rightarrow> (pystr \<Rightarrow> unit result) \<Rightarrow> bool \<Rightarrow> (pystr \<Rightarrow> pystr) \<Rightarrow>
    ((pystr \<times> approval) list \<Rightarrow> pystr) \<Rightarrow> pystr \<Rightarrow> pystr \<Rightarrow> pystr \<Rightarrow> pystr \<Rightarrow> approvals_db \<Rightarrow>
    pystr option result \<times> approvals_db" where
  "human_command e target_ok admin resume show w input identity session db =
     (case py_split_ws (py_strip input) of
        [] \<Rightarrow> (Inr None, db)
      | cmd # rest \<Rightarrow>
          if cmd \<notin> set [''/approve'', ''/deny'', ''/approvals''] then (Inr None, db)
          else if \<not> admin then (Inr (Some ''Permission denied: approval decisions require admin role.''), db)
          else if cmd = ''/approvals'' then (Inr (Some (show (pending_approvals e identity session db))), db)
          else (case rest of
            [i] \<Rightarrow> (case decide e target_ok w i identity session (cmd = ''/approve'') db of
                (Inl (PermissionError m), db') \<Rightarrow> (Inr (Some m), db')
              | (Inl x, db') \<Rightarrow> (Inl x, db')
              | (Inr _, db') \<Rightarrow> (Inr (Some (case get_binding db' i of
                  Some text \<Rightarrow> ''Approval decision saved. The original Temporal task will continue or stop; use /resume ''
                    @ resume text @ '' to retrieve its result.''
                | None \<Rightarrow> ''Approval decision saved. Retry the identical operation with this approval_id.'')), db'))
          | _ \<Rightarrow> (Inr (Some ''Usage: /approve <approval_id> or /deny <approval_id>''), db)))"

end
