(* ===== verification/Approval_Properties.thy ===== *)
theory Approval_Properties
  imports Approvals
begin

text \<open>
  What a grant guarantees over any history of requests, decisions, consumptions and
  cancellations: it is used at most once, and never without the human decision that made it.
\<close>

section \<open>Histories\<close>

datatype approval_op =
    ARequest approval_env pystr pystr pystr "(pystr \<times> json) list" time pystr
  | ABound approval_env pystr pystr pystr "(pystr \<times> json) list" time json pystr
  | ADecide approval_env "pystr \<Rightarrow> unit result" pystr pystr pystr pystr bool
  | AConsume approval_env pystr pystr pystr pystr pystr "(pystr \<times> json) list" "json option"
  | ACancel approval_env pystr pystr pystr pystr
  | ASent pystr

fun approval_step :: "time \<Rightarrow> approval_op \<Rightarrow> approvals_db \<Rightarrow> approvals_db" where
  "approval_step t (ARequest e idn ses act args ttl w) db = snd (request_approval (e\<lparr>ae_now := t\<rparr>) idn ses act args ttl w db)"
| "approval_step t (ABound e idn ses act args ttl b w) db = snd (request_bound (e\<lparr>ae_now := t\<rparr>) idn ses act args ttl b w db)"
| "approval_step t (ADecide e ok w i idn ses ap) db = snd (decide (e\<lparr>ae_now := t\<rparr>) ok w i idn ses ap db)"
| "approval_step t (AConsume e w i idn ses act args b) db = snd (consume (e\<lparr>ae_now := t\<rparr>) w i idn ses act args b db)"
| "approval_step t (ACancel e w i idn ses) db = snd (cancel_wait (e\<lparr>ae_now := t\<rparr>) w i idn ses db)"
| "approval_step t (ASent ev) db = outbox_sent ev db"

section \<open>How a grant changes\<close>

inductive grant_change :: "time \<Rightarrow> approval_op \<Rightarrow> pystr \<Rightarrow> approval \<Rightarrow> approval \<Rightarrow> bool" where
  gc_same: "grant_change t a i r r"
| gc_decide: "owned_by idn ses r \<Longrightarrow> ap_state r = GPending \<Longrightarrow> ap_expires r > t \<Longrightarrow>
    grant_change t (ADecide e ok w i idn ses approve) i r
      (r\<lparr>ap_state := (if approve then GApproved else GDenied)\<rparr>)"
| gc_consume: "ap_state r = GApproved \<Longrightarrow> grant_change t (AConsume e w i idn ses act args b) i r (r\<lparr>ap_state := GConsumed\<rparr>)"
| gc_cancel: "ap_state r = GPending \<or> ap_state r = GApproved \<Longrightarrow>
    grant_change t (ACancel e w i idn ses) i r (r\<lparr>ap_state := GCancelled\<rparr>)"

inductive_cases grant_changeE: "grant_change t a i r r'"

lemma record_decision_approvals: "record_decision e w i st db = Inr db' \<Longrightarrow> approvals db' = approvals db"
  by (auto simp: record_decision_def split: if_splits)

lemma audit_approvals [simp]: "approvals (audit e i idn ses ev db) = approvals db"
  by (simp add: audit_def)

lemma set_state_lookup:
  "map_of (approvals (set_state st i c db)) j =
     (if j = i then map_option (\<lambda>r. if c r then r\<lparr>ap_state := st\<rparr> else r) (map_of (approvals db) i)
      else map_of (approvals db) j)"
  by (simp add: set_state_def update_key_lookup)

text \<open>What an operation leaves in the table: the old rows, one row with a new state, or one new
  pending row.\<close>

lemma set_state_change:
  assumes "\<And>r. c r \<Longrightarrow> grant_change t a i r (r\<lparr>ap_state := st\<rparr>)"
    and "tb = approvals db \<or> tb = approvals (set_state st i c db)" "map_of (approvals db) j = Some r"
  shows "\<exists>r'. map_of tb j = Some r' \<and> grant_change t a j r r'"
proof (cases "tb = approvals db")
  case True
  with assms(3) gc_same show ?thesis by blast
next
  case False
  then have "map_of tb j = Some (if j = i \<and> c r then r\<lparr>ap_state := st\<rparr> else r)"
    using assms(2,3) by (cases "j = i"; cases "c r") (auto simp: set_state_lookup)
  with assms(1) gc_same show ?thesis by auto
qed

lemma decide_table:
  "approvals (snd (decide e ok w i idn ses ap db)) = approvals db \<or>
   approvals (snd (decide e ok w i idn ses ap db)) = approvals (set_state (if ap then GApproved else GDenied) i
     (\<lambda>r. owned_by idn ses r \<and> ap_state r = GPending \<and> ap_expires r > ae_now e) db)"
  by (auto simp: decide_def Let_def split: sum.splits dest!: record_decision_approvals)

lemma consume_table:
  "approvals (snd (consume e w i idn ses act args b db)) = approvals db \<or>
   (\<exists>d. approvals (snd (consume e w i idn ses act args b db)) =
      approvals (set_state GConsumed i (consumable e idn ses act d) db))"
  by (auto simp: consume_def Let_def split: sum.splits dest!: record_decision_approvals)

lemma cancel_table:
  "approvals (snd (cancel_wait e w i idn ses db)) = approvals db \<or>
   approvals (snd (cancel_wait e w i idn ses db)) = approvals (set_state GCancelled i
     (\<lambda>r. owned_by idn ses r \<and> (ap_state r = GPending \<or> ap_state r = GApproved)) db)"
  by (auto simp: cancel_wait_def Let_def txn_def split: sum.splits dest!: record_decision_approvals)

lemma table_of_txn:
  "(\<And>a db'. body = Inr (a, db') \<Longrightarrow> P (approvals db')) \<Longrightarrow> P (approvals db) \<Longrightarrow> P (approvals (snd (txn db body)))"
  by (auto simp: txn_def split: sum.splits)

definition grown :: "(pystr, approval) table \<Rightarrow> (pystr, approval) table \<Rightarrow> bool" where
  "grown tb tb' \<longleftrightarrow> tb' = tb \<or> (\<exists>i r. map_of tb i = None \<and> ap_state r = GPending \<and> tb' = tb @ [(i, r)])"

lemma grown_same [simp]: "grown tb tb"
  by (simp add: grown_def)

lemma grown_new [simp]: "map_of tb w = None \<Longrightarrow> grown tb (tb @ [(w, new_approval idn ses act data x)])"
  by (auto simp: grown_def new_approval_def)

lemma request_grown: "grown (approvals db) (approvals (snd (request_approval e idn ses act args ttl w db)))"
  unfolding request_approval_def
  by (rule table_of_txn) (auto simp: insert_row_append split: option.splits)

lemma bound_grown: "grown (approvals db) (approvals (snd (request_bound e idn ses act args ttl b w db)))"
  unfolding request_bound_def
  by (rule table_of_txn) (auto simp: insert_row_append Let_def split: option.splits if_splits)

lemma step_cases:
  "(case a of ARequest _ _ _ _ _ _ _ \<Rightarrow> True | ABound _ _ _ _ _ _ _ _ \<Rightarrow> True | _ \<Rightarrow> False)
     \<and> grown (approvals db) (approvals (approval_step t a db))
   \<or> (\<exists>st i c. (approvals (approval_step t a db) = approvals db
         \<or> approvals (approval_step t a db) = approvals (set_state st i c db))
       \<and> (\<forall>r. c r \<longrightarrow> grant_change t a i r (r\<lparr>ap_state := st\<rparr>)))"
proof (cases a)
  case (ADecide e ok w i idn ses ap)
  have "grant_change t a i r (r\<lparr>ap_state := (if ap then GApproved else GDenied)\<rparr>)"
    if "owned_by idn ses r" "ap_state r = GPending" "ap_expires r > t" for r
    unfolding ADecide using that by (rule gc_decide)
  with decide_table [of "e\<lparr>ae_now := t\<rparr>" ok w i idn ses ap db] ADecide show ?thesis by fastforce
next
  case (AConsume e w i idn ses act args b)
  have "grant_change t a i r (r\<lparr>ap_state := GConsumed\<rparr>)" if "consumable x idn ses act d r" for r d x
    unfolding AConsume using that by (intro gc_consume) (simp add: consumable_def)
  with consume_table [of "e\<lparr>ae_now := t\<rparr>" w i idn ses act args b db] AConsume show ?thesis by fastforce
next
  case (ACancel e w i idn ses)
  have "grant_change t a i r (r\<lparr>ap_state := GCancelled\<rparr>)" if "ap_state r = GPending \<or> ap_state r = GApproved" for r
    unfolding ACancel using that by (rule gc_cancel)
  with cancel_table [of "e\<lparr>ae_now := t\<rparr>" w i idn ses db] ACancel show ?thesis by fastforce
next
  case (ASent ev)
  then have "approvals (approval_step t a db) = approvals db" by (simp add: outbox_sent_def)
  then show ?thesis by (intro disjI2 exI [of _ GPending] exI [of _ "[]"] exI [of _ "\<lambda>_. False"]) simp
qed (simp_all add: request_grown bound_grown)

lemma step_lookup:
  assumes "map_of (approvals db) j = Some r"
  shows "\<exists>r'. map_of (approvals (approval_step t a db)) j = Some r' \<and> grant_change t a j r r'"
  using step_cases [of a db t]
proof
  assume "(case a of ARequest _ _ _ _ _ _ _ \<Rightarrow> True | ABound _ _ _ _ _ _ _ _ \<Rightarrow> True | _ \<Rightarrow> False)
     \<and> grown (approvals db) (approvals (approval_step t a db))"
  then have "map_of (approvals (approval_step t a db)) j = Some r"
    using assms by (auto simp: grown_def)
  with gc_same show ?thesis by blast
next
  assume "\<exists>st i c. (approvals (approval_step t a db) = approvals db
         \<or> approvals (approval_step t a db) = approvals (set_state st i c db))
       \<and> (\<forall>r. c r \<longrightarrow> grant_change t a i r (r\<lparr>ap_state := st\<rparr>))"
  then obtain st i c where "approvals (approval_step t a db) = approvals db
         \<or> approvals (approval_step t a db) = approvals (set_state st i c db)"
      "\<And>r. c r \<Longrightarrow> grant_change t a i r (r\<lparr>ap_state := st\<rparr>)" by blast
  from set_state_change [OF this(2) this(1) assms] show ?thesis by blast
qed

text \<open>A grant that was not there before was just requested.\<close>

lemma step_new:
  assumes "map_of (approvals db) j = None" "map_of (approvals (approval_step t a db)) j = Some r"
  shows "ap_state r = GPending"
  using step_cases [of a db t] assms
  by (auto simp: grown_def set_state_lookup split: if_splits)

section \<open>Single use\<close>

definition used_up :: "pystr \<Rightarrow> approvals_db \<Rightarrow> bool" where
  "used_up i db \<longleftrightarrow> (\<exists>r. map_of (approvals db) i = Some r \<and> ap_state r \<in> {GDenied, GConsumed, GCancelled})"

lemma used_up_step: "used_up i db \<Longrightarrow> used_up i (approval_step t a db)"
proof -
  assume "used_up i db"
  then obtain r where r: "map_of (approvals db) i = Some r" "ap_state r \<in> {GDenied, GConsumed, GCancelled}"
    by (auto simp: used_up_def)
  from step_lookup [OF r(1)] obtain r' where
    r': "map_of (approvals (approval_step t a db)) i = Some r'" "grant_change t a i r r'" by blast
  from r'(2) r(2) have "r' = r" by (auto elim: grant_changeE)
  with r r'(1) show ?thesis by (auto simp: used_up_def)
qed

lemma consume_Inr:
  assumes "consume e w i idn ses act args b db = (Inr u, db')"
  shows "\<exists>data r. approval_canonical args = Inr data \<and> validate_consumption db i b = Inr ()
    \<and> map_of (approvals db) i = Some r \<and> consumable e idn ses act (sha256 data) r \<and> used_up i db'"
proof -
  obtain data where d: "approval_canonical args = Inr data" "validate_consumption db i b = Inr ()"
    using assms by (auto simp: consume_def split: sum.splits)
  let ?c = "consumable e idn ses act (sha256 data)"
  have hit: "row_where i ?c (approvals db)"
    using assms d by (auto simp: consume_def Let_def split: if_splits)
  with assms d have "record_decision e w i GConsumed (audit e i idn ses ''consumed''
      (set_state GConsumed i ?c db)) = Inr db'"
    by (auto simp: consume_def Let_def split: sum.splits)
  from record_decision_approvals [OF this] hit have "used_up i db'"
    by (auto simp: used_up_def set_state_lookup row_where_iff)
  with d hit show ?thesis by (auto simp: row_where_iff)
qed

lemma used_up_refuses: "used_up i db \<Longrightarrow> \<exists>x db'. consume e w i idn ses act args b db = (Inl x, db')"
proof (cases "consume e w i idn ses act args b db")
  case (Pair res db')
  assume "used_up i db"
  with Pair show ?thesis
    using consume_Inr [of e w i idn ses act args b db _ db'] by (cases res) (auto simp: used_up_def consumable_def)
qed

text \<open>
  C22: a grant authorizes one execution.  If a consumption of a grant succeeds, the grant
  existed, was approved, unexpired, and made for exactly this identity, session, action and
  digest of the canonical arguments; and in every later history of requests, decisions,
  consumptions and cancellations, with any arguments and by anyone, the same grant is refused.
\<close>

theorem grant_used_once:
  assumes "consume e w i idn ses act args b db = (Inr u, db')"
  shows "(\<exists>data r. approval_canonical args = Inr data \<and> map_of (approvals db) i = Some r
      \<and> consumable e idn ses act (sha256 data) r)
    \<and> (\<exists>x db2. consume e' w' i idn' ses' act' args' b' (run_ops approval_step tr db') = (Inl x, db2))"
proof -
  have "used_up i (run_ops approval_step tr db')"
    by (rule run_ops_invariant [where I = "used_up i"]) (use used_up_step consume_Inr [OF assms] in auto)
  with used_up_refuses consume_Inr [OF assms] show ?thesis by blast
qed

section \<open>No use without a human decision\<close>

definition decided_by :: "(time \<times> approval_op) list \<Rightarrow> pystr \<Rightarrow> approval \<Rightarrow> bool" where
  "decided_by tr i r \<longleftrightarrow> (\<exists>t e ok w. (t, ADecide e ok w i (ap_identity r) (ap_session r) True) \<in> set tr
     \<and> t < ap_expires r)"

lemma run_ops_snoc: "run_ops step (tr @ [(t, a)]) s = step t a (run_ops step tr s)"
  by (simp add: run_ops_append)

lemma grants_decided:
  assumes "approvals db = []"
  shows "map_of (approvals (run_ops approval_step tr db)) i = Some r \<Longrightarrow>
    ap_state r \<in> {GApproved, GConsumed} \<Longrightarrow> decided_by tr i r"
proof (induction tr arbitrary: r rule: rev_induct)
  case Nil
  with assms show ?case by simp
next
  case (snoc x tr)
  obtain t a where x: "x = (t, a)" by (cases x)
  let ?db = "run_ops approval_step tr db"
  have r: "map_of (approvals (approval_step t a ?db)) i = Some r"
    using snoc.prems(1) by (simp add: x run_ops_snoc)
  show ?case
  proof (cases "map_of (approvals ?db) i")
    case None
    with step_new [OF None r] snoc.prems(2) show ?thesis by auto
  next
    case (Some old)
    with step_lookup [OF Some, of t a] r have "grant_change t a i old r" by auto
    then show ?thesis
    proof cases
      case gc_same
      with snoc.IH Some snoc.prems(2) show ?thesis by (fastforce simp: decided_by_def)
    next
      case (gc_decide idn ses e ok w approve)
      with snoc.prems(2) show ?thesis
        by (auto simp: decided_by_def x owned_by_def split: if_splits)
    next
      case (gc_consume e w idn ses act args b)
      with snoc.IH Some show ?thesis by (fastforce simp: decided_by_def)
    next
      case gc_cancel
      with snoc.prems(2) show ?thesis by simp
    qed
  qed
qed

text \<open>
  no grant is consumed without a human decision.  In any history that starts without
  grants, whenever a consumption succeeds, the history contains an approving decision of that
  very grant, made for the consuming identity and session before the grant expired; no
  request, retry, denial or cancellation can stand in for it.
\<close>

theorem consumption_was_decided:
  assumes "approvals db = []"
    and "consume e w i idn ses act args b (run_ops approval_step tr db) = (Inr u, db')"
  shows "\<exists>t e' ok w' r. (t, ADecide e' ok w' i idn ses True) \<in> set tr \<and> t < ap_expires r
    \<and> map_of (approvals (run_ops approval_step tr db)) i = Some r"
proof -
  obtain data r where r: "map_of (approvals (run_ops approval_step tr db)) i = Some r"
      "consumable e idn ses act (sha256 data) r"
    using consume_Inr [OF assms(2)] by blast
  with grants_decided [OF assms(1) r(1)] show ?thesis
    by (fastforce simp: consumable_def owned_by_def decided_by_def)
qed

section \<open>A concrete grant\<close>

definition demo_env_ap :: "time \<Rightarrow> approval_env" where
  "demo_env_ap t = \<lparr>ae_now = t, ae_storage = 100000, ae_operations = 10\<rparr>"

definition no_approvals :: approvals_db where
  "no_approvals = \<lparr>approvals = [], approval_events = [], approval_bindings = None, approval_outbox = []\<rparr>"

definition demo_decisions :: "(time \<times> approval_op) list" where
  "demo_decisions = [(1, ARequest (demo_env_ap 1) ''me'' ''s'' ''p:git_rollback'' [] 300 ''a1''),
     (2, ADecide (demo_env_ap 2) (\<lambda>_. Inr ()) ''e1'' ''a1'' ''me'' ''s'' True)]"

lemma demo_consume:
  "\<exists>db'. consume (demo_env_ap 3) ''e2'' ''a1'' ''me'' ''s'' ''p:git_rollback'' [] None
     (run_ops approval_step demo_decisions no_approvals) = (Inr (), db')"
  by (simp add: demo_decisions_def no_approvals_def demo_env_ap_def request_approval_def approval_canonical_def
      approval_fields_def insert_row_def new_approval_def audit_def decide_def get_binding_def row_where_def
      owned_by_def set_state_def update_key_def record_decision_def consume_def validate_consumption_def
      consumable_def Let_def)

theorem grant_used_once_witness:
  "\<exists>db' x db2. consume (demo_env_ap 3) ''e2'' ''a1'' ''me'' ''s'' ''p:git_rollback'' [] None
       (run_ops approval_step demo_decisions no_approvals) = (Inr (), db')
     \<and> consume (demo_env_ap 4) ''e3'' ''a1'' ''me'' ''s'' ''p:git_rollback'' [] None (run_ops approval_step [] db') = (Inl x, db2)"
proof -
  obtain db' where c: "consume (demo_env_ap 3) ''e2'' ''a1'' ''me'' ''s'' ''p:git_rollback'' [] None
     (run_ops approval_step demo_decisions no_approvals) = (Inr (), db')"
    using demo_consume by blast
  from c grant_used_once [OF c, of "demo_env_ap 4" "''e3''" "''me''" "''s''" "''p:git_rollback''" "[]" None "[]"]
  show ?thesis by blast
qed

theorem consumption_was_decided_witness:
  "\<exists>t e' ok w'. (t, ADecide e' ok w' ''a1'' ''me'' ''s'' True) \<in> set demo_decisions"
proof -
  have "approvals no_approvals = []" by (simp add: no_approvals_def)
  with demo_consume consumption_was_decided show ?thesis by blast
qed

end
