(* ===== verification/Scheduler.thy ===== *)
theory Scheduler
  imports Leases Sql Sha256 PyText
begin

text \<open>
  \<open>agent_execution/scheduling/store.py\<close>: scheduled jobs, their runs, the lease a worker holds
  on a job while it runs, the notifications of their owner, and the occurrence fence
  (\<open>temporal_backend/schedule_migration.admit_legacy\<close>) a job in migration passes.

  An instant is kept as an instant: the code compares the ISO texts of UTC instants, whose order
  is theirs.  \<open>croniter\<close> is a third-party library: the next instant of a cron expression in
  a time zone is the field \<open>se_cron\<close> of the environment, an argument of every operation.
\<close>

section \<open>Tables\<close>

record job =
  sj_name :: pystr
  sj_description :: pystr
  sj_cron :: pystr
  sj_kind :: pystr
  sj_payload :: pystr
  sj_enabled :: bool
  sj_next :: time
  sj_role :: pystr
  sj_identity :: pystr
  sj_owner :: pystr
  sj_context :: json
  sj_zone :: pystr
  sj_timeout :: json
  sj_max_runs :: int
  sj_run_count :: int
  sj_retry_count :: int
  sj_last_digest :: "pystr option"
  sj_history :: "json list"
  sj_backend :: pystr
  sj_created :: time

record job_run =
  sr_job :: pystr
  sr_status :: pystr
  sr_output :: "pystr option"
  sr_error :: "pystr option"

record job_lock =
  sl_owner :: pystr
  sl_expires :: time

record notification =
  sn_job :: pystr
  sn_owner :: pystr
  sn_state :: pystr
  sn_output :: pystr
  sn_created :: time

text \<open>
  The last three tables belong to \<open>temporal_backend\<close> and may not be installed; of a migration
  only the columns these operations touch are kept: its state and \<open>restore_enabled\<close>; of a
  binding, \<open>enabled\<close> and \<open>revision\<close>.
\<close>

record sched_db =
  sjobs :: "(pystr, job) table"
  sruns :: "(pystr, job_run) table"
  slocks :: "(pystr, job_lock) table"
  snotes :: "(pystr, notification) table"
  sdeliveries :: "(pystr, pystr) table"
  smigrations :: "(pystr, pystr \<times> bool) table option"
  sbindings :: "(pystr, bool \<times> int) table option"
  sfences :: "(pystr \<times> time, pystr) table"

record sched_env =
  se_now :: time
  se_cron :: "pystr \<Rightarrow> pystr \<Rightarrow> time \<Rightarrow> time option"

section \<open>Jobs\<close>

definition cron_invalid :: exn where
  "cron_invalid = ValueError ''Expected a five-field cron expression''"

text \<open>\<open>next_time\<close>: \<open>None\<close> of the library is an expression it does not accept.\<close>

definition next_time :: "sched_env \<Rightarrow> pystr \<Rightarrow> pystr \<Rightarrow> time result" where
  "next_time e expr zone = (if py_len expr > 128 \<or> length (py_split_ws expr) \<noteq> 5 then Inl cron_invalid
     else case se_cron e expr zone (se_now e) of None \<Rightarrow> Inl cron_invalid | Some t \<Rightarrow> Inr t)"

definition job_kinds :: "pystr list" where
  "job_kinds = [''command'', ''script'', ''agent'', ''skill'', ''watch'', ''maintenance'', ''maintenance.summary'']"

fun finite_floats :: "json \<Rightarrow> bool" where
  "finite_floats (JFloat s) \<longleftrightarrow> float_value s \<noteq> None"
| "finite_floats (JArr xs) \<longleftrightarrow> list_all finite_floats xs"
| "finite_floats (JObj kvs) \<longleftrightarrow> list_all (\<lambda>(k, v). finite_floats v) kvs"
| "finite_floats _ \<longleftrightarrow> True"

definition timeout_ok :: "json \<Rightarrow> bool" where
  "timeout_ok v \<longleftrightarrow> (case finite_number v of None \<Rightarrow> False | Some x \<Rightarrow> 1 \<le> x \<and> x \<le> 300)"

definition max_runs_ok :: "json \<Rightarrow> bool" where
  "max_runs_ok v \<longleftrightarrow> is_int v \<and> 1 \<le> jint_of v \<and> jint_of v \<le> 1000"

definition validate_job :: "sched_env \<Rightarrow> pystr \<Rightarrow> pystr \<Rightarrow> pystr \<Rightarrow> json \<Rightarrow> pystr \<Rightarrow> json \<Rightarrow> json \<Rightarrow> pystr \<Rightarrow>
    (pystr \<times> time) result" where
  "validate_job e name expr kind payload zone timeout max_runs description =
     (if \<not> (1 \<le> py_len name \<and> py_len name \<le> 200) \<or> \<not> is_dict payload \<or> py_len description > 2000
      then Inl (ValueError ''Invalid name/payload'')
      else if kind \<notin> set job_kinds then Inl (ValueError ''Unsupported job type'')
      else if \<not> timeout_ok timeout \<or> \<not> max_runs_ok max_runs then Inl (ValueError ''Invalid timeout/max_runs'')
      else if \<not> finite_floats payload then Inl (ValueError ''Out of range float values are not JSON compliant'')
      else let serialized = dumps False False payload in
        if byte_len serialized > 65536 then Inl (ValueError ''Job payload exceeds 64 KiB'')
        else bind_result (next_time e expr zone) (\<lambda>due. Inr (serialized, due)))"

text \<open>\<open>scope\<close> and \<open>identity\<close>, \<open>role\<close>, \<open>owner\<close> are read off the execution context;
  \<open>key\<close> is the fresh \<open>uuid4().hex\<close>.\<close>

definition add_job :: "sched_env \<Rightarrow> pystr \<Rightarrow> pystr \<Rightarrow> pystr \<Rightarrow> pystr \<Rightarrow> json \<Rightarrow> pystr \<Rightarrow> pystr \<Rightarrow> pystr \<Rightarrow>
    json \<Rightarrow> pystr \<Rightarrow> pystr \<Rightarrow> json \<Rightarrow> json \<Rightarrow> pystr \<Rightarrow> sched_db \<Rightarrow> pystr result \<times> sched_db" where
  "add_job e key role identity owner scope name expr kind payload description zone timeout max_runs backend db =
     txn db (if backend \<notin> set [''sqlite'', ''temporal''] then Inl (ValueError ''Unknown schedule backend'')
       else bind_result (validate_job e name expr kind payload zone timeout max_runs description) (\<lambda>(serialized, due).
       if length (sjobs db) \<ge> 1000 then Inl (ValueError ''Schedule capacity reached'')
       else case insert_row key \<lparr>sj_name = name, sj_description = description, sj_cron = expr, sj_kind = kind,
              sj_payload = serialized, sj_enabled = (backend = ''sqlite''), sj_next = due, sj_role = role,
              sj_identity = identity, sj_owner = owner, sj_context = scope, sj_zone = zone,
              sj_timeout = timeout, sj_max_runs = jint_of max_runs, sj_run_count = 0, sj_retry_count = 0,
              sj_last_digest = None, sj_history = [], sj_backend = backend, sj_created = se_now e\<rparr> (sjobs db) of
           None \<Rightarrow> Inl (PyRuntimeError ''UNIQUE constraint failed: scheduled_jobs.id'')
         | Some js \<Rightarrow> Inr (key, db\<lparr>sjobs := js\<rparr>)))"

definition list_jobs :: "pystr \<Rightarrow> sched_db \<Rightarrow> (pystr \<times> job) list" where
  "list_jobs owner db = take 1000 (rev (sort_key (\<lambda>(k, j). sj_created j)
     (rev (select_where (\<lambda>k j. sj_owner j = owner) (sjobs db)))))"

text \<open>\<open>get_due_jobs\<close>.\<close>

definition is_due :: "time \<Rightarrow> job \<Rightarrow> bool" where
  "is_due t j \<longleftrightarrow> sj_backend j = ''sqlite'' \<and> sj_enabled j \<and> sj_next j \<le> t"

definition get_due_jobs :: "sched_env \<Rightarrow> sched_db \<Rightarrow> (pystr \<times> job) list" where
  "get_due_jobs e db = take 100 (sort_key (\<lambda>(k, j). sj_next j) (select_where (\<lambda>k j. is_due (se_now e) j) (sjobs db)))"

definition switch_off :: "job \<Rightarrow> job" where
  "switch_off j = j\<lparr>sj_enabled := False\<rparr>"

definition cancel_deliveries :: "pystr \<Rightarrow> pystr \<Rightarrow> sched_db \<Rightarrow> (pystr, pystr) table" where
  "cancel_deliveries key owner db = fold (\<lambda>(i, n) d. insert_or_ignore i ''cancelled'' d)
     (select_where (\<lambda>i n. sn_job n = key \<and> sn_owner n = owner) (snotes db)) (sdeliveries db)"

definition disable :: "pystr \<Rightarrow> pystr \<Rightarrow> sched_db \<Rightarrow> bool \<times> sched_db" where
  "disable key owner db =
     (if row_where key (\<lambda>j. sj_owner j = owner) (sjobs db)
      then (True, db\<lparr>sjobs := update_key key (\<lambda>j. sj_owner j = owner) switch_off (sjobs db),
             smigrations := map_option (update_key key (\<lambda>_. True) (\<lambda>(s, r). (s, False))) (smigrations db),
             sbindings := map_option (update_key key (\<lambda>_. True) (\<lambda>(b, n). (False, n + 1))) (sbindings db),
             sdeliveries := cancel_deliveries key owner db\<rparr>)
      else (False, db))"

definition notifications :: "pystr \<Rightarrow> sched_db \<Rightarrow> (pystr \<times> notification \<times> pystr) list" where
  "notifications owner db = take 100 (map (\<lambda>(i, n). (i, n, case map_of (sdeliveries db) i of
       None \<Rightarrow> ''pending'' | Some s \<Rightarrow> s))
     (rev (sort_key (\<lambda>(i, n). sn_created n) (rev (select_where (\<lambda>i n. sn_owner n = owner) (snotes db))))))"

section \<open>Leases\<close>

definition lock_of :: "pystr \<Rightarrow> time \<Rightarrow> job_lock" where
  "lock_of w expires = \<lparr>sl_owner = w, sl_expires = expires\<rparr>"

definition set_lock :: "pystr \<Rightarrow> pystr \<Rightarrow> time \<Rightarrow> sched_db \<Rightarrow> sched_db" where
  "set_lock key w expires db = db\<lparr>slocks := upsert_row key (lock_of w expires) (\<lambda>_. lock_of w expires) (slocks db)\<rparr>"

definition drop_lock :: "pystr \<Rightarrow> (job_lock \<Rightarrow> bool) \<Rightarrow> sched_db \<Rightarrow> sched_db" where
  "drop_lock key c db = db\<lparr>slocks := delete_key key c (slocks db)\<rparr>"

definition locked :: "(time \<Rightarrow> bool) \<Rightarrow> pystr \<Rightarrow> sched_db \<Rightarrow> bool" where
  "locked c key db \<longleftrightarrow> row_where key (\<lambda>l. c (sl_expires l)) (slocks db)"

definition acquire_lock :: "sched_env \<Rightarrow> pystr \<Rightarrow> pystr \<Rightarrow> int \<Rightarrow> sched_db \<Rightarrow> bool result \<times> sched_db" where
  "acquire_lock e key w seconds db =
     (if \<not> (1 \<le> seconds \<and> seconds \<le> 300) then (Inl (ValueError ''Invalid lease duration''), db)
      else if locked (\<lambda>x. x \<ge> se_now e) key db then (Inr False, db)
      else (Inr True, set_lock key w (se_now e + real_of_int seconds) db))"

definition release_lock :: "pystr \<Rightarrow> pystr option \<Rightarrow> sched_db \<Rightarrow> sched_db" where
  "release_lock key who db = drop_lock key (\<lambda>l. case who of None \<Rightarrow> True | Some w \<Rightarrow> sl_owner l = w) db"

definition holds_lock :: "time \<Rightarrow> pystr \<Rightarrow> job_lock \<Rightarrow> bool" where
  "holds_lock t w l \<longleftrightarrow> sl_owner l = w \<and> sl_expires l > t"

definition renew_lock :: "sched_env \<Rightarrow> pystr \<Rightarrow> pystr \<Rightarrow> sched_db \<Rightarrow> bool \<times> sched_db" where
  "renew_lock e key w db = (row_where key (holds_lock (se_now e) w) (slocks db),
     db\<lparr>slocks := update_key key (holds_lock (se_now e) w) (\<lambda>l. l\<lparr>sl_expires := se_now e + 10\<rparr>) (slocks db)\<rparr>)"

definition alive :: "sched_env \<Rightarrow> pystr \<Rightarrow> pystr \<Rightarrow> sched_db \<Rightarrow> bool" where
  "alive e key w db \<longleftrightarrow> row_where key (holds_lock (se_now e) w) (slocks db) \<and> row_where key sj_enabled (sjobs db)"

section \<open>Claiming a due occurrence\<close>

definition notify :: "sched_env \<Rightarrow> pystr \<Rightarrow> pystr \<Rightarrow> pystr \<Rightarrow> pystr \<Rightarrow> pystr \<Rightarrow> sched_db \<Rightarrow> sched_db result" where
  "notify e w key owner st output db =
     (if length (snotes db) \<ge> 10000 then Inl (ValueError ''Notification capacity reached'')
      else case insert_row w \<lparr>sn_job = key, sn_owner = owner, sn_state = st, sn_output = py_take 65536 output,
             sn_created = se_now e\<rparr> (snotes db) of
          None \<Rightarrow> Inl (PyRuntimeError ''UNIQUE constraint failed: schedule_notifications.id'')
        | Some ns \<Rightarrow> Inr (db\<lparr>snotes := ns\<rparr>))"

text \<open>\<open>admit_legacy\<close>: a job under migration passes a fence per occurrence; a fenced occurrence
  switches the job off.\<close>

definition admit_legacy :: "pystr \<Rightarrow> job \<Rightarrow> sched_db \<Rightarrow> (bool \<times> sched_db) result" where
  "admit_legacy key j db = (case Option.bind (smigrations db) (\<lambda>ms. map_of ms key) of
     None \<Rightarrow> Inr (True, db)
   | Some (st, _) \<Rightarrow>
       if st \<notin> set [''sqlite'', ''staged''] then Inr (False, db)
       else if length (sfences db) \<ge> 100000 then Inl (ValueError ''Occurrence fence capacity reached'')
       else case insert_row (key, sj_next j) ''sqlite'' (sfences db) of
           Some fs \<Rightarrow> Inr (True, db\<lparr>sfences := fs\<rparr>)
         | None \<Rightarrow> Inr (False, db\<lparr>sjobs := update_key key (\<lambda>_. True) switch_off (sjobs db)\<rparr>))"

definition run_running :: "pystr \<Rightarrow> pystr \<Rightarrow> job_run \<Rightarrow> bool" where
  "run_running key i r \<longleftrightarrow> sr_job r = key \<and> sr_status r = ''running''"

definition lost_run :: "job_run \<Rightarrow> job_run" where
  "lost_run r = r\<lparr>sr_status := ''uncertain'',
     sr_error := Some ''Worker lost; side effects require human review''\<rparr>"

definition new_run :: "pystr \<Rightarrow> job_run" where
  "new_run key = \<lparr>sr_job = key, sr_status = ''running'', sr_output = None, sr_error = None\<rparr>"

text \<open>The occurrence is admitted: lock it, record the run, count a retry.\<close>

definition start_run :: "sched_env \<Rightarrow> pystr \<Rightarrow> pystr \<Rightarrow> pystr \<Rightarrow> bool \<Rightarrow> sched_db \<Rightarrow> (pystr option \<times> sched_db) result" where
  "start_run e key w run retried db =
     (let db1 = set_lock key w (se_now e + 10) db in
      case insert_row run (new_run key) (sruns db1) of
        None \<Rightarrow> Inl (PyRuntimeError ''UNIQUE constraint failed: scheduled_job_runs.id'')
      | Some rs \<Rightarrow> Inr (Some run, db1\<lparr>sruns := rs, sjobs := (if retried
          then update_key key (\<lambda>_. True) (\<lambda>j. j\<lparr>sj_retry_count := sj_retry_count j + 1\<rparr>) (sjobs db1)
          else sjobs db1)\<rparr>))"

definition admit_run :: "sched_env \<Rightarrow> pystr \<Rightarrow> job \<Rightarrow> pystr \<Rightarrow> pystr \<Rightarrow> bool \<Rightarrow> sched_db \<Rightarrow> (pystr option \<times> sched_db) result" where
  "admit_run e key j w run retried db =
     (if length (sruns db) \<ge> 10000 then Inl (ValueError ''Schedule run capacity reached'')
      else bind_result (admit_legacy key j db) (\<lambda>(ok, db1).
        if \<not> ok then Inr (None, db1) else start_run e key w run retried db1))"

definition uncertain_note :: pystr where
  "uncertain_note = ''Previous run is uncertain; inspect before creating a replacement job''"

definition give_up :: "sched_env \<Rightarrow> pystr \<Rightarrow> job \<Rightarrow> pystr \<Rightarrow> sched_db \<Rightarrow> (pystr option \<times> sched_db) result" where
  "give_up e key j note db =
     bind_result (notify e note key (sj_owner j) ''needs_input'' uncertain_note
         (db\<lparr>sjobs := update_key key (\<lambda>_. True) switch_off (sjobs db)\<rparr>))
       (\<lambda>db1. Inr (None, drop_lock key (\<lambda>_. True) db1))"

text \<open>
  \<open>claim_due\<close>: \<open>due\<close> is the \<open>next_run_at\<close> the worker read, \<open>w\<close> its token; \<open>run\<close> and
  \<open>note\<close> are the fresh identifiers.
\<close>

definition claim_due :: "sched_env \<Rightarrow> pystr \<Rightarrow> time \<Rightarrow> pystr \<Rightarrow> pystr \<Rightarrow> pystr \<Rightarrow> sched_db \<Rightarrow>
    pystr option result \<times> sched_db" where
  "claim_due e key due w run note db = txn db (case map_of (sjobs db) key of
       None \<Rightarrow> Inr (None, db)
     | Some j \<Rightarrow>
         if \<not> (is_due (se_now e) j \<and> sj_next j = due) then Inr (None, db)
         else if locked (\<lambda>x. x > se_now e) key db then Inr (None, db)
         else let lost = (count_where (run_running key) (sruns db) \<noteq> 0);
                  db1 = (if lost then db\<lparr>sruns := update_where (run_running key) lost_run (sruns db)\<rparr> else db)
           in if lost \<and> (sj_kind j \<noteq> ''watch'' \<or> sj_retry_count j \<ge> 2) then give_up e key j note db1
              else admit_run e key j w run lost db1)"

section \<open>Completing a run\<close>

text \<open>The outcome of a run: its state and error after the limits of a watch, and whether it is
  retried.\<close>

definition outcome :: "job \<Rightarrow> pystr \<Rightarrow> pystr \<Rightarrow> pystr \<times> pystr \<times> bool" where
  "outcome j st err =
     (let count = sj_run_count j + 1;
          safe = (sj_kind j = ''watch'' \<and> st = ''failed'' \<and> sj_retry_count j < 2)
      in if sj_kind j = ''watch'' then
           (if st = ''failed'' \<and> \<not> safe
            then (''needs_input'', ''Watch retry limit reached; inspect before rescheduling. '' @ err, safe)
            else if count \<ge> sj_max_runs j \<and> (st = ''waiting'' \<or> safe)
            then (''needs_input'', ''Watch run limit reached without completion; inspect before rescheduling. '' @ err, False)
            else (st, err, safe))
         else (st, err, safe))"

definition newline :: pystr where
  "newline = [char_of (10::nat)]"

definition evidence_digest :: "pystr \<Rightarrow> pystr \<Rightarrow> pystr \<Rightarrow> pystr" where
  "evidence_digest st text err = sha256 (st @ newline @ text @
     (if st \<in> set [''failed'', ''needs_input'', ''uncertain''] then newline @ py_take 1000 err else []))"

definition note_text :: "pystr \<Rightarrow> pystr \<Rightarrow> pystr \<Rightarrow> pystr" where
  "note_text st text err = py_strip (if err \<noteq> [] \<and> st \<in> set [''failed'', ''needs_input'', ''uncertain'']
     then py_take 1000 err @ newline @ text else text)"

definition finished :: "job \<Rightarrow> pystr \<Rightarrow> bool \<Rightarrow> bool" where
  "finished j st safe \<longleftrightarrow> sj_run_count j + 1 \<ge> sj_max_runs j
     \<or> st \<in> set [''needs_input'', ''uncertain'', ''cancelled'']
     \<or> (sj_kind j = ''watch'' \<and> st = ''completed'') \<or> (st = ''failed'' \<and> \<not> safe)"

definition last_four :: "'a list \<Rightarrow> 'a list" where
  "last_four xs = drop (length xs - 4) xs"

definition completed_job :: "job \<Rightarrow> time \<Rightarrow> pystr \<Rightarrow> pystr \<Rightarrow> bool \<Rightarrow> pystr \<Rightarrow> job" where
  "completed_job j due st text safe d = j\<lparr>sj_next := due, sj_run_count := sj_run_count j + 1,
     sj_retry_count := (if safe then sj_retry_count j + 1 else 0), sj_last_digest := Some d,
     sj_history := last_four (sj_history j @ [JObj [(''state'', JStr st), (''summary'', JStr (py_take 4096 text))]]),
     sj_enabled := (sj_enabled j \<and> \<not> finished j st safe)\<rparr>"

definition complete_writes :: "pystr \<Rightarrow> pystr \<Rightarrow> pystr \<Rightarrow> job \<Rightarrow> pystr \<Rightarrow> pystr \<Rightarrow> pystr \<Rightarrow> sched_db \<Rightarrow> sched_db" where
  "complete_writes key w run j' st text err db =
     drop_lock key (\<lambda>l. sl_owner l = w) (db\<lparr>sjobs := update_key key (\<lambda>_. True) (\<lambda>_. j') (sjobs db),
       sruns := update_key run (\<lambda>_. True) (\<lambda>r. r\<lparr>sr_status := st, sr_output := Some text,
         sr_error := Some (py_take 1000 err)\<rparr>) (sruns db)\<rparr>)"

definition complete_job :: "sched_env \<Rightarrow> pystr \<Rightarrow> pystr \<Rightarrow> pystr \<Rightarrow> pystr \<Rightarrow> pystr \<Rightarrow> pystr \<Rightarrow> pystr \<Rightarrow> sched_db \<Rightarrow>
    bool result \<times> sched_db" where
  "complete_job e note key w run state output error db = txn db
     (if \<not> row_where key (holds_lock (se_now e) w) (slocks db) then Inr (False, db)
      else case map_of (sjobs db) key of
        None \<Rightarrow> Inl (TypeError ''NoneType object is not iterable'')
      | Some j \<Rightarrow>
          let text = py_take 65536 output; (st, err, safe) = outcome j state error;
              d = evidence_digest st text err
          in bind_result (if safe then Inr (se_now e + 30 * (real_of_int (sj_retry_count j) + 1))
                          else next_time e (sj_cron j) (sj_zone j)) (\<lambda>due.
             bind_result (if Some d \<noteq> sj_last_digest j \<and> (sj_last_digest j \<noteq> None \<or> st \<noteq> ''waiting'')
                          then notify e note key (sj_owner j) st (note_text st text err) db else Inr db) (\<lambda>db1.
             Inr (True, complete_writes key w run (completed_job j due st text safe d) st text err db1))))"

section \<open>Administrative operations\<close>

definition record_run_start :: "pystr \<Rightarrow> pystr \<Rightarrow> sched_db \<Rightarrow> pystr result \<times> sched_db" where
  "record_run_start run key db = txn db (case insert_row run (new_run key) (sruns db) of
       None \<Rightarrow> Inl (PyRuntimeError ''UNIQUE constraint failed: scheduled_job_runs.id'')
     | Some rs \<Rightarrow> Inr (run, db\<lparr>sruns := rs\<rparr>))"

definition record_run_complete :: "pystr \<Rightarrow> pystr \<Rightarrow> pystr \<Rightarrow> pystr \<Rightarrow> sched_db \<Rightarrow> sched_db" where
  "record_run_complete run st output err db = db\<lparr>sruns := update_key run (\<lambda>_. True) (\<lambda>r. r\<lparr>sr_status := st,
     sr_output := Some (py_take 65536 output), sr_error := Some (py_take 1000 err)\<rparr>) (sruns db)\<rparr>"

definition update_next_run :: "sched_env \<Rightarrow> pystr \<Rightarrow> pystr \<Rightarrow> sched_db \<Rightarrow> unit result \<times> sched_db" where
  "update_next_run e key expr db = txn db (case map_of (sjobs db) key of
       None \<Rightarrow> Inl (TypeError ''NoneType object is not subscriptable'')
     | Some j \<Rightarrow> bind_result (next_time e expr (sj_zone j)) (\<lambda>due.
         Inr ((), db\<lparr>sjobs := update_key key (\<lambda>_. True) (\<lambda>j. j\<lparr>sj_next := due\<rparr>) (sjobs db)\<rparr>)))"

end
