(* ===== verification/Scheduler_Properties.thy ===== *)
theory Scheduler_Properties
  imports Scheduler
begin

text \<open>
  Properties of the scheduled jobs: their leases are fenced, a job that was switched off stays off, run and
  retry counts respect their limits, and a migrated occurrence runs on one engine only.
\<close>

section \<open>Histories\<close>

datatype sched_op =
    SAdd pystr pystr pystr pystr json pystr pystr pystr json pystr pystr json json pystr
  | SDisable pystr pystr
  | SAcquire pystr pystr int
  | SRelease pystr "pystr option"
  | SRenew pystr pystr
  | SClaim pystr time pystr pystr pystr
  | SComplete pystr pystr pystr pystr pystr pystr pystr
  | SNext pystr pystr

fun sched_exec :: "sched_env \<Rightarrow> sched_op \<Rightarrow> sched_db \<Rightarrow> sched_db" where
  "sched_exec e (SAdd key role identity owner scope name expr kind payload description zone timeout max_runs backend) db =
     snd (add_job e key role identity owner scope name expr kind payload description zone timeout max_runs backend db)"
| "sched_exec e (SDisable key owner) db = snd (disable key owner db)"
| "sched_exec e (SAcquire key w n) db = snd (acquire_lock e key w n db)"
| "sched_exec e (SRelease key who) db = release_lock key who db"
| "sched_exec e (SRenew key w) db = snd (renew_lock e key w db)"
| "sched_exec e (SClaim key due w run note) db = snd (claim_due e key due w run note db)"
| "sched_exec e (SComplete note key w run st out err) db = snd (complete_job e note key w run st out err db)"
| "sched_exec e (SNext key expr) db = snd (update_next_run e key expr db)"

definition sched_step :: "time \<Rightarrow> sched_env \<times> sched_op \<Rightarrow> sched_db \<Rightarrow> sched_db" where
  "sched_step t x db = sched_exec (fst x\<lparr>se_now := t\<rparr>) (snd x) db"

section \<open>What the operations do to locks\<close>

lemma notify_tables:
  assumes "notify e w key owner st out db = Inr db'"
  shows "sjobs db' = sjobs db" "slocks db' = slocks db" "sruns db' = sruns db" "sfences db' = sfences db"
    "smigrations db' = smigrations db"
  using assms by (auto simp: notify_def split: if_splits option.splits)

lemma admit_legacy_tables:
  assumes "admit_legacy key j db = Inr (ok, db')"
  shows "slocks db' = slocks db" "sruns db' = sruns db" "snotes db' = snotes db"
    "sjobs db' = sjobs db \<or> sjobs db' = update_key key (\<lambda>_. True) switch_off (sjobs db)"
    "smigrations db' = smigrations db" "ok \<Longrightarrow> sjobs db' = sjobs db"
  using assms by (auto simp: admit_legacy_def split: if_splits option.splits)

lemma set_lock_tables [simp]:
  "sjobs (set_lock key w x db) = sjobs db" "sruns (set_lock key w x db) = sruns db"
  "sfences (set_lock key w x db) = sfences db" "smigrations (set_lock key w x db) = smigrations db"
  "map_of (slocks (set_lock key w x db)) = (map_of (slocks db))(key \<mapsto> lock_of w x)"
  by (auto simp: set_lock_def upsert_row_lookup split: option.splits)

lemma drop_lock_tables [simp]:
  "sjobs (drop_lock key c db) = sjobs db" "sruns (drop_lock key c db) = sruns db"
  "sfences (drop_lock key c db) = sfences db" "smigrations (drop_lock key c db) = smigrations db"
  by (simp_all add: drop_lock_def)

lemma notify_note:
  "notify e w key owner st out db = Inr db' \<Longrightarrow> map_of (snotes db') w = Some \<lparr>sn_job = key, sn_owner = owner,
     sn_state = st, sn_output = py_take 65536 out, sn_created = se_now e\<rparr>"
  by (auto simp: notify_def insert_row_append map_add_def split: if_splits option.splits)

lemma give_up_note:
  assumes "give_up e key j note db = Inr (r, db')"
  obtains n where "map_of (snotes db') note = Some n" "sn_job n = key" "sn_owner n = sj_owner j" "sn_state n = ''needs_input''"
  using assms that by (auto simp: give_up_def drop_lock_def dest!: notify_note)

lemma give_up_result:
  assumes "give_up e key j note db = Inr (r, db')"
  shows "r = None" "sjobs db' = update_key key (\<lambda>_. True) switch_off (sjobs db)" "sruns db' = sruns db"
    "slocks db' = delete_key key (\<lambda>_. True) (slocks db)" "sfences db' = sfences db"
  using assms by (auto simp: give_up_def drop_lock_def dest: notify_tables)

lemma start_run_result:
  assumes "start_run e key w run retried db = Inr (r, db')"
  shows "r = Some run" "slocks db' = slocks (set_lock key w (se_now e + 10) db)"
    "sruns db' = sruns db @ [(run, new_run key)]" "sfences db' = sfences db"
    "sjobs db' = (if retried
          then update_key key (\<lambda>_. True) (\<lambda>j. j\<lparr>sj_retry_count := sj_retry_count j + 1\<rparr>) (sjobs db) else sjobs db)"
  using assms by (auto simp: start_run_def Let_def insert_row_append split: option.splits)

text \<open>The three ways a claim can end.\<close>

definition claim_start :: "pystr \<Rightarrow> sched_db \<Rightarrow> sched_db" where
  "claim_start key db = (if count_where (run_running key) (sruns db) \<noteq> 0
     then db\<lparr>sruns := update_where (run_running key) lost_run (sruns db)\<rparr> else db)"

lemma claim_start_tables [simp]:
  "sjobs (claim_start key db) = sjobs db" "slocks (claim_start key db) = slocks db"
  "sfences (claim_start key db) = sfences db" "smigrations (claim_start key db) = smigrations db"
  by (simp_all add: claim_start_def)

lemma claim_due_cases:
  assumes "claim_due e key due w run note db = (Inr r, db')"
  obtains (no) "r = None" "db' = db"
  | (lost) j where "map_of (sjobs db) key = Some j" "is_due (se_now e) j" "\<not> locked (\<lambda>x. x > se_now e) key db"
      "r = None" "give_up e key j note (claim_start key db) = Inr (None, db')"
  | (fenced) j where "map_of (sjobs db) key = Some j" "is_due (se_now e) j"
      "\<not> locked (\<lambda>x. x > se_now e) key db"
      "admit_legacy key j (claim_start key db) = Inr (False, db')" "r = None"
  | (started) j db1 where "map_of (sjobs db) key = Some j" "is_due (se_now e) j" "sj_next j = due"
      "\<not> locked (\<lambda>x. x > se_now e) key db"
      "count_where (run_running key) (sruns db) \<noteq> 0 \<Longrightarrow> sj_kind j = ''watch'' \<and> sj_retry_count j < 2"
      "admit_legacy key j (claim_start key db) = Inr (True, db1)"
      "start_run e key w run (count_where (run_running key) (sruns db) \<noteq> 0) db1 = Inr (Some run, db')"
      "r = Some run"
proof (cases "map_of (sjobs db) key")
  case None
  with assms no show thesis by (simp add: claim_due_def)
next
  case (Some j)
  show thesis
  proof (cases "is_due (se_now e) j \<and> sj_next j = due \<and> \<not> locked (\<lambda>x. x > se_now e) key db")
    case False
    with assms Some no show thesis by (auto simp: claim_due_def split: if_splits)
  next
    case True
    let ?lost = "count_where (run_running key) (sruns db) \<noteq> 0"
    show thesis
    proof (cases "?lost \<and> (sj_kind j \<noteq> ''watch'' \<or> sj_retry_count j \<ge> 2)")
      case gu: True
      with assms Some True have "give_up e key j note (claim_start key db) = Inr (r, db')"
        by (simp add: claim_due_def claim_start_def Let_def txn_Inr)
      with give_up_result(1) lost Some True show thesis by blast
    next
      case ad: False
      with assms Some True have "admit_run e key j w run ?lost (claim_start key db) = Inr (r, db')"
        by (auto simp: claim_due_def claim_start_def Let_def txn_Inr split: if_splits)
      then obtain ok db1 where al: "admit_legacy key j (claim_start key db) = Inr (ok, db1)"
        and st: "(if \<not> ok then Inr (None, db1) else start_run e key w run ?lost db1) = Inr (r, db')"
        by (auto simp: admit_run_def split: if_splits)
      show thesis
      proof (cases ok)
        case False
        with al st Some True fenced show thesis by auto
      next
        case ok: True
        with st have sr: "start_run e key w run ?lost db1 = Inr (r, db')" by simp
        with start_run_result(1) have "r = Some run" by blast
        with sr al ok Some True ad show thesis by (intro started) (auto simp: not_le)
      qed
    qed
  qed
qed

lemma claim_due_error: "claim_due e key due w run note db = (Inl x, db') \<Longrightarrow> db' = db"
  by (auto simp: claim_due_def txn_Inl)

section \<open>The lease contract\<close>

definition sched_holds :: "sched_db \<Rightarrow> time \<Rightarrow> pystr \<Rightarrow> pystr \<Rightarrow> bool" where
  "sched_holds db t key w \<longleftrightarrow> row_where key (holds_lock t w) (slocks db)"

fun sched_acquires :: "sched_env \<times> sched_op \<Rightarrow> pystr \<Rightarrow> pystr \<Rightarrow> bool" where
  "sched_acquires (e, SAcquire key w n) key' w' \<longleftrightarrow> key' = key \<and> w' = w"
| "sched_acquires (e, SClaim key due w run note) key' w' \<longleftrightarrow> key' = key \<and> w' = w"
| "sched_acquires _ _ _ \<longleftrightarrow> False"

fun sched_under :: "sched_env \<times> sched_op \<Rightarrow> pystr \<Rightarrow> pystr \<Rightarrow> bool" where
  "sched_under (e, SRenew key w) key' w' \<longleftrightarrow> key' = key \<and> w' = w"
| "sched_under (e, SComplete note key w run st out err) key' w' \<longleftrightarrow> key' = key \<and> w' = w"
| "sched_under _ _ _ \<longleftrightarrow> False"

text \<open>What one operation may do to the lock of one job.\<close>

inductive lock_change :: "sched_env \<Rightarrow> sched_op \<Rightarrow> pystr \<Rightarrow> job_lock option \<Rightarrow> job_lock option \<Rightarrow> bool"
  for e where
  lc_same: "lock_change e x key l l"
| lc_drop: "lock_change e x key l None"
| lc_renew: "holds_lock (se_now e) w l \<Longrightarrow> lock_change e (SRenew key w) key (Some l) (Some (l\<lparr>sl_expires := n\<rparr>))"
| lc_claim: "\<forall>l'. l = Some l' \<longrightarrow> sl_expires l' \<le> se_now e \<Longrightarrow>
    lock_change e (SClaim key due w run note) key l (Some (lock_of w n))"
| lc_acquire: "\<forall>l'. l = Some l' \<longrightarrow> sl_expires l' \<le> se_now e \<Longrightarrow>
    lock_change e (SAcquire key w n) key l (Some (lock_of w m))"

lemma complete_tables:
  assumes "complete_job e note key w run st out err db = (r, db')"
  shows "db' = db \<or> r = Inr True \<and> slocks db' = delete_key key (\<lambda>l. sl_owner l = w) (slocks db)"
  using assms
  by (auto simp: complete_job_def complete_writes_def drop_lock_def txn_def Let_def
      split: if_splits sum.splits option.splits prod.splits dest: notify_tables)

lemma claim_lock_change:
  "lock_change e (SClaim k due w run note) key (map_of (slocks db) key)
     (map_of (slocks (snd (claim_due e k due w run note db))) key)"
proof (cases "claim_due e k due w run note db")
  case (Pair r db')
  show ?thesis
  proof (cases r)
    case (Inl x)
    with Pair claim_due_error show ?thesis by (fastforce intro: lc_same)
  next
    case (Inr i)
    with Pair have "claim_due e k due w run note db = (Inr i, db')" by simp
    then show ?thesis
    proof (cases rule: claim_due_cases)
      case (lost j)
      from give_up_result(4) [OF lost(5)] Pair show ?thesis
        by (cases "map_of (slocks db) k") (auto simp: delete_key_lookup intro: lc_same lc_drop)
    next
      case (started j db1)
      from started(4) have free: "\<forall>l'. map_of (slocks db) k = Some l' \<longrightarrow> sl_expires l' \<le> se_now e"
        by (auto simp: locked_def row_where_iff)
      from start_run_result(2) [OF started(7)] admit_legacy_tables(1) [OF started(6)] Pair free show ?thesis
        by (auto simp: set_lock_def upsert_row_lookup split: option.splits intro: lc_same lc_claim)
    qed (use Pair in \<open>auto simp: admit_legacy_tables(1) intro: lc_same\<close>)
  qed
qed

lemma other_lock_change:
  "lock_change e (SAcquire k w n) key (map_of (slocks db) key) (map_of (slocks (snd (acquire_lock e k w n db))) key)"
  "lock_change e (SRenew k w) key (map_of (slocks db) key) (map_of (slocks (snd (renew_lock e k w db))) key)"
  "lock_change e (SRelease k who) key (map_of (slocks db) key) (map_of (slocks (release_lock k who db)) key)"
  subgoal by (auto simp: acquire_lock_def set_lock_def locked_def row_where_iff upsert_row_lookup
        split: option.splits intro: lc_same lc_acquire)
  subgoal by (auto simp: renew_lock_def update_key_lookup intro: lc_same lc_renew
        split: option.splits if_splits) (cases "map_of (slocks db) k"; auto intro: lc_same lc_renew)
  subgoal by (cases "map_of (slocks db) k") (auto simp: release_lock_def drop_lock_def delete_key_lookup
        intro: lc_same lc_drop)
  done

lemma quiet_locks:
  "slocks (snd (add_job e key role identity owner scope name expr kind payload descr zone tmo mr be db)) = slocks db"
  "slocks (snd (disable key owner db)) = slocks db"
  "slocks (snd (update_next_run e key expr db)) = slocks db"
  subgoal unfolding add_job_def by (rule txn_preserves) (auto split: if_splits option.splits)
  subgoal by (simp add: disable_def)
  subgoal unfolding update_next_run_def by (rule txn_preserves) (auto split: option.splits)
  done

lemma lock_change_step:
  "lock_change (fst x\<lparr>se_now := t\<rparr>) (snd x) key (map_of (slocks db) key) (map_of (slocks (sched_step t x db)) key)"
proof (cases "snd x")
  case (SComplete nid k w run st out err)
  let ?e = "fst x\<lparr>se_now := t\<rparr>"
  obtain r db' where c: "complete_job ?e nid k w run st out err db = (r, db')" by fastforce
  from complete_tables [OF c] c SComplete show ?thesis
    by (cases "map_of (slocks db) k") (auto simp: sched_step_def delete_key_lookup intro: lc_same lc_drop)
qed (auto simp: sched_step_def quiet_locks claim_lock_change other_lock_change intro: lc_same)

lemma fenced_completion:
  "\<not> row_where key (holds_lock (se_now e) w) (slocks db) \<Longrightarrow>
     complete_job e note key w run st out err db = (Inr False, db)"
  by (simp add: complete_job_def)

interpretation sched_leases: fenced_store sched_holds sched_step sched_acquires sched_under
proof unfold_locales
  fix t :: time and x :: "sched_env \<times> sched_op" and db and key w :: pystr
  assume "sched_holds (sched_step t x db) t key w" and "\<not> sched_acquires x key w"
  with lock_change_step [of t x key db] show "sched_holds db t key w"
    by (cases x) (auto elim!: lock_change.cases simp: sched_holds_def row_where_iff holds_lock_def lock_of_def)
next
  fix db and u t :: time and key w
  assume "sched_holds db u key w" "t \<le> u"
  then show "sched_holds db t key w" by (auto simp: sched_holds_def row_where_iff holds_lock_def)
next
  fix db and t :: time and key w w'
  assume "sched_holds db t key w" "sched_holds db t key w'"
  then show "w = w'" by (auto simp: sched_holds_def row_where_iff holds_lock_def)
next
  fix t :: time and db key w w' and x :: "sched_env \<times> sched_op"
  assume "sched_holds db t key w" "sched_acquires x key w'" "w' \<noteq> w"
  with lock_change_step [of t x key db] show "\<not> sched_holds (sched_step t x db) t key w'"
    by (cases x) (auto elim!: lock_change.cases simp: sched_holds_def row_where_iff holds_lock_def lock_of_def)
next
  fix t :: time and x key w db
  assume "sched_under x key w" "\<not> sched_holds db t key w"
  then show "sched_step t x db = db"
    by (cases x; cases "snd x") (auto simp: sched_step_def sched_holds_def fenced_completion renew_lock_def
        update_key_no_match)
next
  fix x key w key' w'
  assume "sched_under x key w"
  then show "\<not> sched_acquires x key' w'" by (cases x; cases "snd x") auto
qed

section \<open>What the operations do to a job\<close>

definition empty_sched :: sched_db where
  "empty_sched = \<lparr>sjobs = [], sruns = [], slocks = [], snotes = [], sdeliveries = [], smigrations = None,
     sbindings = None, sfences = []\<rparr>"

lemma complete_result:
  assumes "complete_job e note key w run state out error db = (Inr True, db')"
  obtains j st err safe due where "map_of (sjobs db) key = Some j" "row_where key (holds_lock (se_now e) w) (slocks db)"
    "outcome j state error = (st, err, safe)"
    "sjobs db' = update_key key (\<lambda>_. True) (\<lambda>_. completed_job j due st (py_take 65536 out) safe
       (evidence_digest st (py_take 65536 out) err)) (sjobs db)"
    "slocks db' = delete_key key (\<lambda>l. sl_owner l = w) (slocks db)" "sfences db' = sfences db"
proof (cases "map_of (sjobs db) key")
  case None
  with assms show thesis by (auto simp: complete_job_def txn_Inr split: if_splits)
next
  case (Some j)
  obtain st err safe where oc: "outcome j state error = (st, err, safe)" by (cases "outcome j state error")
  from assms Some oc have held: "row_where key (holds_lock (se_now e) w) (slocks db)"
    by (auto simp: complete_job_def txn_Inr split: if_splits)
  with assms Some oc obtain due db1 where n:
      "(if Some (evidence_digest st (py_take 65536 out) err) \<noteq> sj_last_digest j \<and> (sj_last_digest j \<noteq> None \<or> st \<noteq> ''waiting'')
        then notify e note key (sj_owner j) st (note_text st (py_take 65536 out) err) db else Inr db) = Inr db1"
    and d: "db' = complete_writes key w run (completed_job j due st (py_take 65536 out) safe
        (evidence_digest st (py_take 65536 out) err)) st (py_take 65536 out) err db1"
    by (auto simp: complete_job_def txn_Inr Let_def)
  from n have "sjobs db1 = sjobs db" "slocks db1 = slocks db" "sfences db1 = sfences db"
    by (auto split: if_splits dest: notify_tables)
  with Some held oc d that show thesis
    by (auto simp: complete_writes_def drop_lock_def)
qed

lemma complete_other: "complete_job e note key w run state out error db = (r, db') \<Longrightarrow> r \<noteq> Inr True \<Longrightarrow> db' = db"
  using complete_tables by blast

lemma outcome_safe: "outcome j state error = (st, err, True) \<Longrightarrow> sj_kind j = ''watch'' \<and> sj_retry_count j < 2"
  by (auto simp: outcome_def Let_def split: if_splits)

text \<open>What one operation may do to one existing job.\<close>

inductive job_change :: "sched_env \<Rightarrow> sched_op \<Rightarrow> pystr \<Rightarrow> job \<Rightarrow> job \<Rightarrow> bool" for e where
  jc_same: "job_change e x key j j"
| jc_off: "job_change e x key j (switch_off j)"
| jc_retry: "sj_enabled j \<Longrightarrow> sj_kind j = ''watch'' \<Longrightarrow> sj_retry_count j < 2 \<Longrightarrow>
    job_change e (SClaim key due w run note) key j (j\<lparr>sj_retry_count := sj_retry_count j + 1\<rparr>)"
| jc_complete: "outcome j state error = (st, err, safe) \<Longrightarrow>
    job_change e (SComplete note key w run state out error) key j (completed_job j due st text safe d)"
| jc_next: "job_change e (SNext key expr) key j (j\<lparr>sj_next := due\<rparr>)"

lemma claim_job_change:
  assumes "map_of (sjobs db) key = Some j"
  obtains j' where "map_of (sjobs (snd (claim_due e k due w run note db))) key = Some j'"
    "job_change e (SClaim k due w run note) key j j'"
proof (cases "claim_due e k due w run note db")
  case (Pair r db')
  have "\<exists>j'. map_of (sjobs db') key = Some j' \<and> job_change e (SClaim k due w run note) key j j'"
  proof (cases r)
    case (Inl x)
    with Pair claim_due_error assms show ?thesis by (fastforce intro: jc_same)
  next
    case (Inr i)
    with Pair have "claim_due e k due w run note db = (Inr i, db')" by simp
    then show ?thesis
    proof (cases rule: claim_due_cases)
      case no
      with assms show ?thesis by (auto intro: jc_same)
    next
      case (lost j0)
      from give_up_result(2) [OF lost(5)] assms show ?thesis
        by (cases "key = k") (auto simp: update_key_lookup intro: jc_same jc_off)
    next
      case (fenced j0)
      from admit_legacy_tables(4) [OF fenced(4)] assms show ?thesis
        by (cases "key = k") (auto simp: update_key_lookup intro: jc_same jc_off)
    next
      case (started j0 db1)
      from admit_legacy_tables(6) [OF started(6)] start_run_result(5) [OF started(7)] assms started(1,2,5)
      show ?thesis by (auto simp: update_key_lookup is_due_def intro: jc_same jc_retry)
    qed
  qed
  with Pair that show thesis by auto
qed

lemma add_job_change:
  assumes "map_of (sjobs db) key = Some j"
  shows "map_of (sjobs (snd (add_job e k role identity owner scope name expr kind payload descr zone tmo mr be db))) key = Some j"
  unfolding add_job_def
  by (rule txn_preserves) (use assms in \<open>auto simp: insert_row_append map_add_def split: if_splits option.splits\<close>)

lemma quiet_jobs:
  "sjobs (snd (acquire_lock e k w n db)) = sjobs db"
  "sjobs (release_lock k who db) = sjobs db"
  "sjobs (snd (renew_lock e k w db)) = sjobs db"
  by (auto simp: acquire_lock_def release_lock_def renew_lock_def)

lemma job_change_step:
  assumes "map_of (sjobs db) key = Some j"
  obtains j' where "map_of (sjobs (sched_step t x db)) key = Some j'"
    "job_change (fst x\<lparr>se_now := t\<rparr>) (snd x) key j j'"
proof (cases "snd x")
  case (SClaim k due w run nid)
  from claim_job_change [OF assms] SClaim that show thesis
    by (metis sched_step_def sched_exec.simps(6))
next
  case (SComplete nid k w run st out err)
  let ?e = "fst x\<lparr>se_now := t\<rparr>"
  obtain r db' where c: "complete_job ?e nid k w run st out err db = (r, db')" by fastforce
  show thesis
  proof (cases "r = Inr True")
    case False
    with complete_other [OF c] c SComplete assms that show thesis by (auto simp: sched_step_def intro: jc_same)
  next
    case True
    with c have "complete_job ?e nid k w run st out err db = (Inr True, db')" by simp
    then obtain j0 st' err' safe due where "map_of (sjobs db) k = Some j0" "outcome j0 st err = (st', err', safe)"
      "sjobs db' = update_key k (\<lambda>_. True) (\<lambda>_. completed_job j0 due st' (py_take 65536 out) safe
         (evidence_digest st' (py_take 65536 out) err')) (sjobs db)"
      by (rule complete_result)
    with c SComplete assms that show thesis
      by (cases "key = k") (auto simp: sched_step_def update_key_lookup intro: jc_same jc_complete)
  qed
next
  case (SDisable k owner)
  let ?t = "sjobs (snd (disable k owner db))"
  have "\<exists>j'. map_of ?t key = Some j' \<and> (j' = j \<or> j' = switch_off j)"
    using assms by (auto simp: disable_def update_key_lookup)
  with SDisable that show thesis by (auto simp: sched_step_def intro: jc_same jc_off)
next
  case (SNext k expr)
  have "\<exists>j'. map_of (sjobs (snd (update_next_run (fst x\<lparr>se_now := t\<rparr>) k expr db))) key = Some j' \<and>
      job_change (fst x\<lparr>se_now := t\<rparr>) (SNext k expr) key j j'"
    unfolding update_next_run_def
    by (rule txn_preserves) (use assms in \<open>auto simp: update_key_lookup intro!: jc_same jc_next split: option.splits\<close>)
  with SNext that show thesis by (auto simp: sched_step_def)
qed (use assms that in \<open>auto simp: sched_step_def quiet_jobs add_job_change intro: jc_same\<close>)

section \<open>A job that was switched off stays off\<close>

definition switched_off :: "pystr \<Rightarrow> sched_db \<Rightarrow> bool" where
  "switched_off key db \<longleftrightarrow> (\<exists>j. map_of (sjobs db) key = Some j \<and> \<not> sj_enabled j)"

lemma switched_off_step: "switched_off key db \<Longrightarrow> switched_off key (sched_step t x db)"
proof -
  assume "switched_off key db"
  then obtain j where j: "map_of (sjobs db) key = Some j" "\<not> sj_enabled j" by (auto simp: switched_off_def)
  from job_change_step [OF j(1), of t x] obtain j' where "map_of (sjobs (sched_step t x db)) key = Some j'"
    "job_change (fst x\<lparr>se_now := t\<rparr>) (snd x) key j j'" by blast
  with j(2) show ?thesis
    by (auto simp: switched_off_def switch_off_def completed_job_def elim: job_change.cases)
qed

lemma switched_off_claim: "switched_off key db \<Longrightarrow> claim_due e key due w run note db = (Inr None, db)"
  by (auto simp: switched_off_def claim_due_def is_due_def)

section \<open>Run and retry limits\<close>

definition job_ok :: "job \<Rightarrow> bool" where
  "job_ok j \<longleftrightarrow> 0 \<le> sj_run_count j \<and> sj_run_count j \<le> sj_max_runs j \<and> sj_max_runs j \<le> 1000
     \<and> 0 \<le> sj_retry_count j \<and> sj_retry_count j \<le> 2 \<and> (sj_kind j \<noteq> ''watch'' \<longrightarrow> sj_retry_count j = 0)
     \<and> length (sj_history j) \<le> 4"

definition sched_ok :: "sched_db \<Rightarrow> bool" where
  "sched_ok db \<longleftrightarrow> (\<forall>key j. map_of (sjobs db) key = Some j \<longrightarrow> job_ok j
     \<and> (sj_enabled j \<or> map_of (slocks db) key \<noteq> None \<longrightarrow> sj_run_count j < sj_max_runs j))"

lemma sched_okD: "sched_ok db \<Longrightarrow> map_of (sjobs db) key = Some j \<Longrightarrow> job_ok j
     \<and> (sj_enabled j \<or> map_of (slocks db) key \<noteq> None \<longrightarrow> sj_run_count j < sj_max_runs j)"
  by (auto simp: sched_ok_def)

lemma completed_job_ok:
  assumes "outcome j state error = (st, err, safe)" and "job_ok j" and "sj_run_count j < sj_max_runs j"
  shows "job_ok (completed_job j due st out safe d)"
proof -
  have "safe \<Longrightarrow> sj_kind j = ''watch'' \<and> sj_retry_count j < 2"
    using assms(1) by (auto dest: outcome_safe)
  then show ?thesis
    using assms(2,3) by (cases safe) (auto simp: job_ok_def completed_job_def last_four_def)
qed

fun plain_op :: "sched_op \<Rightarrow> bool" where
  "plain_op (SAcquire _ _ _) = False"
| "plain_op _ = True"

text \<open>Jobs enter the table only through \<open>add_job\<close>, with their counters at zero.\<close>

lemma new_job_ok:
  assumes "map_of (sjobs db) key = None" and "map_of (sjobs (sched_step t x db)) key = Some j"
  shows "job_ok j \<and> sj_run_count j < sj_max_runs j"
proof -
  let ?e = "fst x\<lparr>se_now := t\<rparr>"
  show ?thesis
  proof (cases "snd x")
    case (SAdd k role identity owner scope name expr kind payload descr zone tmo mr be)
    let ?P = "\<lambda>db'. map_of (sjobs db') key = None \<or> (\<exists>j. map_of (sjobs db') key = Some j \<and> job_ok j \<and> sj_run_count j < sj_max_runs j)"
    have "?P (snd (add_job ?e k role identity owner scope name expr kind payload descr zone tmo mr be db))"
      unfolding add_job_def using assms(1)
      by - (rule txn_preserves, simp, auto simp: insert_row_append map_add_def validate_job_def Let_def job_ok_def
          max_runs_ok_def split: if_splits option.splits)
    with assms(2) SAdd show ?thesis by (auto simp: sched_step_def)
  next
    case (SClaim k due w run nid)
    have "map_of (sjobs (snd (claim_due ?e k due w run nid db))) key = None"
    proof (cases "claim_due ?e k due w run nid db")
      case (Pair r db')
      show ?thesis
      proof (cases r)
        case (Inl y)
        with Pair claim_due_error assms(1) show ?thesis by fastforce
      next
        case (Inr i)
        with Pair have "claim_due ?e k due w run nid db = (Inr i, db')" by simp
        then have "map_of (sjobs db') key = None"
          by (cases rule: claim_due_cases)
            (use assms(1) in \<open>auto dest!: give_up_result(2) admit_legacy_tables(4) start_run_result(5)
               admit_legacy_tables(6) simp: update_key_lookup\<close>)
        with Pair show ?thesis by simp
      qed
    qed
    with assms(2) SClaim show ?thesis by (simp add: sched_step_def)
  next
    case (SComplete nid k w run st out err)
    obtain r db' where c: "complete_job ?e nid k w run st out err db = (r, db')" by fastforce
    have "map_of (sjobs db') key = None"
    proof (cases "r = Inr True")
      case True
      with c have "complete_job ?e nid k w run st out err db = (Inr True, db')" by simp
      then show ?thesis by (rule complete_result) (use assms(1) in \<open>auto simp: update_key_lookup\<close>)
    next
      case False
      with complete_other [OF c] assms(1) show ?thesis by simp
    qed
    with assms(2) c SComplete show ?thesis by (simp add: sched_step_def)
  next
    case (SNext k expr)
    have "map_of (sjobs (snd (update_next_run ?e k expr db))) key = None"
      unfolding update_next_run_def
      by (rule txn_preserves) (use assms(1) in \<open>auto simp: update_key_lookup split: option.splits\<close>)
    with assms(2) SNext show ?thesis by (simp add: sched_step_def)
  qed (use assms in \<open>auto simp: sched_step_def quiet_jobs disable_def update_key_lookup split: if_splits\<close>)
qed

text \<open>A lock appears only on a job the claim found enabled.\<close>

lemma new_lock_enabled:
  assumes "plain_op (snd x)" and "map_of (slocks (sched_step t x db)) key \<noteq> None" and "map_of (slocks db) key = None"
    and "map_of (sjobs db) key = Some j"
  shows "sj_enabled j"
proof (cases "snd x")
  case (SClaim k due w run nid)
  let ?e = "fst x\<lparr>se_now := t\<rparr>"
  show ?thesis
  proof (cases "claim_due ?e k due w run nid db")
    case (Pair r db')
    with SClaim assms(2) have l: "map_of (slocks db') key \<noteq> None" by (simp add: sched_step_def)
    show ?thesis
    proof (cases r)
      case (Inl y)
      with Pair claim_due_error assms(3) l show ?thesis by fastforce
    next
      case (Inr i)
      with Pair have "claim_due ?e k due w run nid db = (Inr i, db')" by simp
      then show ?thesis
        by (cases rule: claim_due_cases) (use assms(3,4) l in \<open>auto dest!: give_up_result(4)
            start_run_result(2) admit_legacy_tables(1) simp: delete_key_lookup is_due_def split: if_splits\<close>)
    qed
  qed
next
  case (SComplete nid k w run st out err)
  obtain r db' where c: "complete_job (fst x\<lparr>se_now := t\<rparr>) nid k w run st out err db = (r, db')" by fastforce
  from complete_tables [OF c] c SComplete assms(2,3) show ?thesis
    by (auto simp: sched_step_def delete_key_lookup split: if_splits)
qed (use assms in \<open>auto simp: sched_step_def quiet_locks release_lock_def drop_lock_def renew_lock_def
      delete_key_lookup update_key_lookup split: if_splits\<close>)

lemma sched_ok_step:
  assumes ok: "sched_ok db" and pl: "plain_op (snd x)"
  shows "sched_ok (sched_step t x db)"
  unfolding sched_ok_def
proof (intro allI impI)
  fix key j'
  assume j': "map_of (sjobs (sched_step t x db)) key = Some j'"
  show "job_ok j' \<and> (sj_enabled j' \<or> map_of (slocks (sched_step t x db)) key \<noteq> None \<longrightarrow> sj_run_count j' < sj_max_runs j')"
  proof (cases "map_of (sjobs db) key")
    case None
    with new_job_ok j' show ?thesis by blast
  next
    case (Some j)
    from job_change_step [OF Some, of t x] j' have ch: "job_change (fst x\<lparr>se_now := t\<rparr>) (snd x) key j j'" by auto
    from sched_okD [OF ok Some] have jk: "job_ok j"
      and lim: "sj_enabled j \<or> map_of (slocks db) key \<noteq> None \<Longrightarrow> sj_run_count j < sj_max_runs j" by blast+
    show ?thesis
    proof (cases "\<exists>nid w run st out err. snd x = SComplete nid key w run st out err \<and> j' \<noteq> j")
      case True
      then obtain nid w run st out err where x: "snd x = SComplete nid key w run st out err" and ne: "j' \<noteq> j" by blast
      let ?c = "complete_job (fst x\<lparr>se_now := t\<rparr>) nid key w run st out err db"
      obtain r db' where c: "?c = (r, db')" by fastforce
      with x j' have j'': "map_of (sjobs db') key = Some j'" and db': "sched_step t x db = db'"
        by (simp_all add: sched_step_def)
      have "r = Inr True"
      proof (rule ccontr)
        assume "r \<noteq> Inr True"
        with complete_other [OF c] have "db' = db" by simp
        with j'' Some ne show False by simp
      qed
      with c have "?c = (Inr True, db')" by simp
      then obtain st' err' safe due l where held: "map_of (slocks db) key = Some l" "sl_owner l = w"
        and oc: "outcome j st err = (st', err', safe)"
        and jd: "j' = completed_job j due st' (py_take 65536 out) safe (evidence_digest st' (py_take 65536 out) err')"
        and lk: "slocks db' = delete_key key (\<lambda>l. sl_owner l = w) (slocks db)"
        by (rule complete_result) (use Some j'' in \<open>auto simp: update_key_lookup row_where_iff holds_lock_def\<close>)
      from lim held have "sj_run_count j < sj_max_runs j" by simp
      with completed_job_ok [OF oc jk] jd db' lk held show ?thesis
        by (auto simp: delete_key_lookup completed_job_def finished_def)
    next
      case False
      with ch jk have nc: "job_ok j'" by cases (auto simp: job_ok_def switch_off_def)
      from ch False have same: "sj_run_count j' = sj_run_count j" "sj_max_runs j' = sj_max_runs j"
          "sj_enabled j' \<Longrightarrow> sj_enabled j"
        by (auto elim!: job_change.cases simp: switch_off_def)
      with nc lim new_lock_enabled [OF pl _ _ Some, of t] show ?thesis by metis
    qed
  qed
qed

lemma sched_ok_run:
  assumes "\<forall>(t, x) \<in> set tr. plain_op (snd x)" and "sched_ok db"
  shows "sched_ok (run_ops sched_step tr db)"
  using assms
proof (induction tr arbitrary: db)
  case (Cons y tr)
  obtain t x where "y = (t, x)" by (cases y)
  with Cons sched_ok_step show ?case by auto
qed simp

section \<open>Occurrence fences are permanent\<close>

definition fenced_slot :: "pystr \<Rightarrow> time \<Rightarrow> sched_db \<Rightarrow> bool" where
  "fenced_slot key due db \<longleftrightarrow> map_of (sfences db) (key, due) \<noteq> None
     \<and> Option.bind (smigrations db) (\<lambda>ms. map_of ms key) \<noteq> None"

lemma admit_legacy_fence:
  assumes "admit_legacy k j db = Inr (ok, db')" and "fenced_slot key due db"
  shows "fenced_slot key due db'"
  using assms by (auto simp: admit_legacy_def fenced_slot_def insert_row_append map_of_append_single
      split: if_splits option.splits)

lemma claim_fence:
  assumes "fenced_slot key due0 db"
  shows "fenced_slot key due0 (snd (claim_due e k due w run note db))"
proof (cases "claim_due e k due w run note db")
  case (Pair r db')
  have st: "fenced_slot key due0 (claim_start k db)" using assms by (simp add: fenced_slot_def)
  show ?thesis
  proof (cases r)
    case (Inl x)
    with Pair claim_due_error assms show ?thesis by fastforce
  next
    case (Inr i)
    with Pair have "claim_due e k due w run note db = (Inr i, db')" by simp
    then have "fenced_slot key due0 db'"
    proof (cases rule: claim_due_cases)
      case (lost j)
      with st show ?thesis
        by (auto simp: give_up_def fenced_slot_def notify_tables)
    next
      case (started j db1)
      with admit_legacy_fence [OF started(6) st] show ?thesis
        by (auto simp: start_run_def Let_def fenced_slot_def split: option.splits)
    qed (use assms admit_legacy_fence [OF _ st] in auto)
    with Pair show ?thesis by simp
  qed
qed

lemma complete_migrations:
  assumes "complete_job e note key w run state out error db = (r, db')"
  shows "smigrations db' = smigrations db \<and> sfences db' = sfences db"
  using assms
  by (auto simp: complete_job_def complete_writes_def drop_lock_def txn_def Let_def
      split: if_splits sum.splits option.splits prod.splits dest: notify_tables)

lemma quiet_fences:
  "smigrations (snd (add_job e key role identity owner scope name expr kind payload descr zone tmo mr be db)) = smigrations db
     \<and> sfences (snd (add_job e key role identity owner scope name expr kind payload descr zone tmo mr be db)) = sfences db"
  "smigrations (snd (update_next_run e key expr db)) = smigrations db
     \<and> sfences (snd (update_next_run e key expr db)) = sfences db"
  subgoal unfolding add_job_def by (rule txn_preserves) (auto split: if_splits option.splits)
  subgoal unfolding update_next_run_def by (rule txn_preserves) (auto split: option.splits)
  done

lemma fenced_slot_step:
  assumes "fenced_slot key due db"
  shows "fenced_slot key due (sched_step t x db)"
proof (cases "snd x")
  case (SComplete nid k w run st out err)
  obtain r db' where c: "complete_job (fst x\<lparr>se_now := t\<rparr>) nid k w run st out err db = (r, db')" by fastforce
  with complete_migrations [OF c] SComplete assms show ?thesis by (simp add: sched_step_def fenced_slot_def)
next
  case (SDisable k owner)
  with assms show ?thesis
    by (cases "smigrations db") (auto simp: sched_step_def disable_def fenced_slot_def update_key_lookup)
next
  case (SClaim k due w run nid)
  with claim_fence [OF assms] show ?thesis by (simp add: sched_step_def)
qed (use assms in \<open>auto simp: sched_step_def fenced_slot_def quiet_fences acquire_lock_def release_lock_def renew_lock_def\<close>)

lemma fenced_slot_claim:
  assumes "fenced_slot key due db"
  shows "fst (claim_due e key due w run note db) \<noteq> Inr (Some i)"
proof
  assume "fst (claim_due e key due w run note db) = Inr (Some i)"
  then obtain db' where "claim_due e key due w run note db = (Inr (Some i), db')"
    by (cases "claim_due e key due w run note db") auto
  then show False
  proof (cases rule: claim_due_cases)
    case (started j db1)
    with assms show False
      by (auto simp: admit_legacy_def fenced_slot_def insert_row_append split: if_splits option.splits)
  qed simp_all
qed

section \<open>The properties\<close>

text \<open>
  A worker whose lease on a job expired or was taken over cannot affect the scheduler: the
  renewals and completions it still sends can be deleted from any later history without changing
  its outcome, so a late result is never recorded over another worker's.
\<close>

theorem late_job_result_is_ignored:
  assumes "0 \<le> t" and "\<not> row_where key (holds_lock t w) (slocks db)" and "clocked t tr"
    and "\<forall>(u, a) \<in> set tr. \<not> sched_acquires a key w"
  shows "run_ops sched_step tr db = run_ops sched_step (filter (\<lambda>(u, a). \<not> sched_under a key w) tr) db"
  using sched_leases.stale_worker_harmless [of t db key w tr] assms by (simp add: sched_holds_def)

definition demo_env :: "time \<Rightarrow> sched_env" where
  "demo_env t = \<lparr>se_now = t, se_cron = (\<lambda>expr zone t. Some (t + 60))\<rparr>"

definition demo_job :: "pystr \<Rightarrow> job" where
  "demo_job kind = \<lparr>sj_name = ''backup'', sj_description = [], sj_cron = ''0 3 * * *'', sj_kind = kind,
     sj_payload = ''{}'', sj_enabled = True, sj_next = 5, sj_role = ''admin'', sj_identity = ''local'', sj_owner = ''me'',
     sj_context = JObj [], sj_zone = ''UTC'', sj_timeout = JInt 60, sj_max_runs = 3, sj_run_count = 0,
     sj_retry_count = 0, sj_last_digest = None, sj_history = [], sj_backend = ''sqlite'', sj_created = 0\<rparr>"

definition demo_sched :: "pystr \<Rightarrow> (pystr, job_run) table \<Rightarrow> sched_db" where
  "demo_sched kind rs = empty_sched\<lparr>sjobs := [(''j'', demo_job kind)], sruns := rs,
     slocks := [(''j'', lock_of ''old'' 8)]\<rparr>"

lemmas demo_defs = demo_env_def demo_job_def demo_sched_def empty_sched_def lock_of_def holds_lock_def

lemma late_job_result_is_ignored_witness:
  "run_ops sched_step [(10, demo_env 0, SRenew ''j'' ''old''), (11, demo_env 0, SComplete ''n'' ''j'' ''old'' ''r'' ''completed'' ''ok'' [])]
     (demo_sched ''command'' []) = demo_sched ''command'' []"
  by (subst late_job_result_is_ignored [where t = 9 and key = "''j''" and w = "''old''"])
    (simp_all add: demo_defs row_where_def)

text \<open>
  A claim that starts a run found the job enabled and due, with no lease in force; a previous
  run that was still open is retried only for a watch job, twice at most.  The claim leases the
  job to the caller's token for ten seconds, adds exactly one run, and leaves that run the only
  open one of the job.
\<close>

theorem started_run_is_admitted:
  assumes "claim_due e key due w run note db = (Inr (Some i), db')"
  shows "i = run \<and> (\<exists>j. map_of (sjobs db) key = Some j \<and> is_due (se_now e) j \<and> sj_next j = due
      \<and> (count_where (run_running key) (sruns db) \<noteq> 0 \<longrightarrow> sj_kind j = ''watch'' \<and> sj_retry_count j < 2))
    \<and> \<not> locked (\<lambda>x. x > se_now e) key db
    \<and> map_of (slocks db') key = Some (lock_of w (se_now e + 10))
    \<and> length (sruns db') = length (sruns db) + 1 \<and> length (sruns db') \<le> 10000
    \<and> count_where (run_running key) (sruns db') = 1"
  using assms
proof (cases rule: claim_due_cases)
  case (started j db1)
  have cap: "length (sruns db) < 10000"
    using assms started(1-4) by (auto simp: claim_due_def claim_start_def Let_def txn_Inr admit_run_def
        give_up_def split: if_splits)
  have none: "count_where (run_running key) (sruns (claim_start key db)) = 0"
  proof -
    have "count_where (run_running key) (update_where (run_running key) lost_run t) = 0" for t
      by (induction "run_running key" lost_run t rule: update_where.induct) (auto simp: run_running_def lost_run_def)
    then show ?thesis by (auto simp: claim_start_def)
  qed
  have len: "length (sruns (claim_start key db)) = length (sruns db)" by (simp add: claim_start_def)
  from admit_legacy_tables(2) [OF started(6)] start_run_result(3) [OF started(7)]
  have rs: "sruns db' = sruns (claim_start key db) @ [(run, new_run key)]" by simp
  have "map_of (slocks db') key = Some (lock_of w (se_now e + 10))"
    using start_run_result(2) [OF started(7)] by simp
  moreover have "count_where (run_running key) (sruns db') = 1"
    using none by (simp add: rs run_running_def new_run_def)
  ultimately show ?thesis using started(1-5,8) rs len cap by auto
qed simp_all

lemma started_run_is_admitted_witness:
  "\<exists>db'. claim_due (demo_env 9) ''j'' 5 ''w'' ''r2'' ''n'' (demo_sched ''watch'' [(''r1'', new_run ''j'')]) = (Inr (Some ''r2''), db')
     \<and> count_where (run_running ''j'') (sruns db') = 1"
proof -
  have "\<exists>db'. claim_due (demo_env 9) ''j'' 5 ''w'' ''r2'' ''n'' (demo_sched ''watch'' [(''r1'', new_run ''j'')]) = (Inr (Some ''r2''), db')"
    by (simp add: claim_due_def demo_defs is_due_def locked_def row_where_def run_running_def new_run_def Let_def
        lost_run_def admit_run_def admit_legacy_def start_run_def set_lock_def upsert_row_def insert_row_def txn_def)
  then show ?thesis using started_run_is_admitted by blast
qed

text \<open>
  From an empty scheduler, every job keeps its limits in every history without administrative
  locks: it never completes more than \<open>max_runs\<close> runs (at most 1000), an enabled job still has
  one left, only watch jobs are retried and at most twice, and four observations are kept.
\<close>

theorem job_limits_hold:
  assumes "\<forall>(t, x) \<in> set tr. plain_op (snd x)" and "map_of (sjobs (run_ops sched_step tr empty_sched)) key = Some j"
  shows "sj_run_count j \<le> sj_max_runs j \<and> sj_max_runs j \<le> 1000 \<and> (sj_enabled j \<longrightarrow> sj_run_count j < sj_max_runs j)
    \<and> sj_retry_count j \<le> 2 \<and> (sj_kind j \<noteq> ''watch'' \<longrightarrow> sj_retry_count j = 0) \<and> length (sj_history j) \<le> 4"
proof -
  have "sched_ok empty_sched" by (simp add: sched_ok_def empty_sched_def)
  from sched_okD [OF sched_ok_run [OF assms(1) this] assms(2)] show ?thesis by (simp add: job_ok_def)
qed

definition demo_add :: "time \<times> sched_env \<times> sched_op" where
  "demo_add = (1, demo_env 0, SAdd ''j'' ''admin'' ''local'' ''me'' (JObj []) ''backup'' ''0 3 * * *'' ''command''
     (JObj []) [] ''UTC'' (JInt 60) (JInt 3) ''sqlite'')"

lemma demo_expr: "py_len ''0 3 * * *'' = 9" "length (py_split_ws ''0 3 * * *'') = 5" "byte_len (dumps False False (JObj [])) = 2"
  "py_len ''backup'' = 6"
  subgoal by (simp add: py_len_def continuation_byte_def)
  subgoal by (simp add: py_split_ws_def space_codes_eq is_prefix_of_def)
  subgoal by (simp add: byte_len_def)
  subgoal by (simp add: py_len_def continuation_byte_def)
  done

lemma job_limits_hold_witness:
  "\<exists>j. map_of (sjobs (run_ops sched_step [demo_add] empty_sched)) ''j'' = Some j \<and> sj_run_count j < sj_max_runs j"
proof -
  have "\<exists>j. map_of (sjobs (run_ops sched_step [demo_add] empty_sched)) ''j'' = Some j \<and> sj_enabled j"
    by (simp add: demo_add_def sched_step_def add_job_def validate_job_def job_kinds_def timeout_ok_def max_runs_ok_def
        next_time_def demo_env_def empty_sched_def insert_row_def demo_expr Let_def py_len_def [of "[]"]
        del: dumps.simps)
  then show ?thesis using job_limits_hold [of "[demo_add]" "''j''"] by (auto simp: demo_add_def)
qed

text \<open>
  A job under migration runs each of its occurrences once: after a claim of an occurrence
  succeeded, its slot is fenced, and no claim of that occurrence starts a run in any later history,
  whatever the leases and clocks.
\<close>

theorem migrated_occurrence_runs_once:
  assumes "claim_due e key due w run note db = (Inr (Some i), db')"
    and "Option.bind (smigrations db) (\<lambda>ms. map_of ms key) = Some m"
  shows "map_of (sfences db) (key, due) = None
    \<and> fst (claim_due e' key due w' run' note' (run_ops sched_step tr db')) \<noteq> Inr (Some i')"
  using assms(1)
proof (cases rule: claim_due_cases)
  case (started j db1)
  obtain st re where "m = (st, re)" by (cases m)
  with started(3,6) assms(2) have "map_of (sfences db) (key, due) = None" "fenced_slot key due db1"
    by (auto simp: admit_legacy_def fenced_slot_def insert_row_append map_add_def
        split: if_splits option.splits)
  moreover from this(2) started(7) have "fenced_slot key due db'"
    by (auto simp: start_run_def Let_def fenced_slot_def split: option.splits)
  then have "fenced_slot key due (run_ops sched_step tr db')"
    using run_ops_invariant [of "fenced_slot key due" sched_step] fenced_slot_step by blast
  ultimately show ?thesis by (simp add: fenced_slot_claim)
qed simp_all

definition demo_migrating :: sched_db where
  "demo_migrating = (demo_sched ''command'' [])\<lparr>smigrations := Some [(''j'', ''staged'', True)]\<rparr>"

lemma migrated_occurrence_runs_once_witness:
  "fst (claim_due (demo_env 99) ''j'' 5 ''v'' ''r3'' ''m'' (run_ops sched_step [(50, demo_env 0, SRelease ''j'' None)]
     (snd (claim_due (demo_env 9) ''j'' 5 ''w'' ''r2'' ''n'' demo_migrating)))) \<noteq> Inr (Some ''r3'')"
proof -
  have "fst (claim_due (demo_env 9) ''j'' 5 ''w'' ''r2'' ''n'' demo_migrating) = Inr (Some ''r2'')"
    by (simp add: demo_migrating_def claim_due_def demo_defs is_due_def locked_def row_where_def run_running_def new_run_def
        Let_def admit_run_def admit_legacy_def start_run_def set_lock_def upsert_row_def insert_row_def)
  then have c: "claim_due (demo_env 9) ''j'' 5 ''w'' ''r2'' ''n'' demo_migrating =
      (Inr (Some ''r2''), snd (claim_due (demo_env 9) ''j'' 5 ''w'' ''r2'' ''n'' demo_migrating))"
    by (metis prod.collapse)
  show ?thesis
    by (rule migrated_occurrence_runs_once [OF c, THEN conjunct2]) (simp add: demo_migrating_def)
qed

end
