(* ===== verification/Schedule_Migration.thy ===== *)
theory Schedule_Migration
  imports Scheduler_Properties Submissions
begin

text \<open>
  \<open>temporal_backend/schedule_migration.py\<close>: moving a scheduled job from the SQLite scheduler to Temporal and back.
  A migration is staged, cut over, activated, rolled back and restored by transactions of their own on the
  scheduler database; between them \<open>apply\<close> talks to Temporal.

  Outside are the roles, paths and contexts that \<open>authorize\<close>, \<open>authority\<close> and \<open>configuration\<close> read, the JSON parser, the
  texts of instants, the calendar (\<open>times\<close>, over croniter and the time zones) and Temporal itself: fields of \<open>mig_env\<close>.
\<close>

section \<open>Tables\<close>

text \<open>
  The state and \<open>restore_enabled\<close> of a migration and \<open>enabled\<close> and \<open>revision\<close> of a binding are the columns
  \<open>sched_db\<close> has already; the other columns are here.
\<close>

record migration_row =
  mr_snapshot :: job
  mr_digest :: pystr
  mr_barrier :: time
  mr_fence_at :: "time option"
  mr_next_run :: "time option"
  mr_generation :: int
  mr_updated :: time

record binding_row =
  br_address :: pystr
  br_namespace :: pystr
  br_queue :: pystr
  br_overlap :: pystr
  br_cancelled :: bool
  br_applied :: int
  br_deleted :: bool
  br_retired :: bool
  br_start :: "time option"
  br_updated :: time

record mig_db =
  md_sched :: sched_db
  md_rows :: "(pystr, migration_row) table"
  md_binds :: "(pystr, binding_row) table"

text \<open>
  \<open>me_operator\<close> is \<open>authorize\<close> for the executing context, \<open>me_host\<close> \<open>Schedules.authority\<close>, \<open>me_config\<close>
  \<open>Schedules.configuration\<close>.
\<close>

record mig_env = sched_env +
  me_operator :: "job \<Rightarrow> unit result"
  me_host :: "job \<Rightarrow> binding_row \<Rightarrow> unit result"
  me_config :: "binding_row \<Rightarrow> unit result"
  me_settings :: "settings result"
  me_queue :: pystr
  me_trial :: trial_setting
  me_loads :: "pystr \<Rightarrow> json result"
  me_iso :: "time \<Rightarrow> pystr"
  me_times :: "pystr \<Rightarrow> pystr \<Rightarrow> time \<Rightarrow> time result"

section \<open>The columns of a job and what may migrate\<close>

definition job_snapshot :: "mig_env \<Rightarrow> pystr \<Rightarrow> job \<Rightarrow> json" where
  "job_snapshot e key j = JObj [(''id'', JStr key), (''name'', JStr (sj_name j)), (''description'', JStr (sj_description j)),
     (''cron_expression'', JStr (sj_cron j)), (''job_type'', JStr (sj_kind j)), (''job_payload'', JStr (sj_payload j)),
     (''owner'', JStr (sj_owner j)), (''context'', JStr (dumps True False (sj_context j))), (''owner_role'', JStr (sj_role j)),
     (''owner_identity'', JStr (sj_identity j)), (''timezone'', JStr (sj_zone j)), (''timeout'', sj_timeout j),
     (''max_runs'', JInt (sj_max_runs j)), (''run_count'', JInt (sj_run_count j)), (''retry_count'', JInt (sj_retry_count j)),
     (''next_run_at'', JStr (me_iso e (sj_next j))), (''is_enabled'', JInt (if sj_enabled j then 1 else 0)),
     (''execution_backend'', JStr (sj_backend j)), (''last_digest'', (case sj_last_digest j of None \<Rightarrow> JNull | Some d \<Rightarrow> JStr d)),
     (''history'', JStr (dumps False False (JArr (sj_history j))))]"

definition job_digest :: "mig_env \<Rightarrow> pystr \<Rightarrow> job \<Rightarrow> pystr" where
  "job_digest e key j = digest (job_snapshot e key j)"

definition admission :: "mig_env \<Rightarrow> job \<Rightarrow> unit result" where
  "admission e j = bind_result (new_backend (me_trial e) (sj_owner j) ''temporal'') (\<lambda>b.
     guard (b = ''temporal'') (PermissionError ''Owner is outside the Temporal trial''))"

definition prompt_payload :: "json \<Rightarrow> bool" where
  "prompt_payload p \<longleftrightarrow> has_keys p [''prompt''] \<and> is_str (jget p ''prompt'')
     \<and> 1 \<le> py_len (jtext_of (jget p ''prompt'')) \<and> py_len (jtext_of (jget p ''prompt'')) \<le> 8192"

definition supported :: "mig_env \<Rightarrow> job \<Rightarrow> unit result" where
  "supported e j = bind_result (me_loads e (sj_payload j)) (\<lambda>p.
     bind_result (validate_job (sched_env.truncate e) (sj_name j) (sj_cron j) (sj_kind j) p (sj_zone j) (sj_timeout j)
       (JInt (sj_max_runs j)) (sj_description j)) (\<lambda>_.
     if sj_kind j \<notin> set [''agent'', ''watch''] \<or> \<not> prompt_payload p
     then Inl (ValueError ''Only the TP19 read-only agent/watch prompt contract can migrate'')
     else if sj_retry_count j \<noteq> 0 then Inl (ValueError ''Drain the legacy retry before migration'')
     else if sj_run_count j \<ge> sj_max_runs j then Inl (ValueError ''Schedule run limit is exhausted'')
     else Inr ()))"

definition idle_legacy :: "mig_env \<Rightarrow> pystr \<Rightarrow> sched_db \<Rightarrow> unit result" where
  "idle_legacy e key s =
     (if locked (\<lambda>x. x > se_now e) key s then Inl (PyRuntimeError ''Legacy lease is active; drain it before migration'')
      else if list_ex (\<lambda>(_, r). sr_job r = key \<and> sr_status r \<in> {''running'', ''uncertain''}) (sruns s)
      then Inl (PyRuntimeError ''Legacy run is active or uncertain; inspect before migration'')
      else Inr ())"

section \<open>States of a migration\<close>

definition cut_over :: "pystr \<Rightarrow> bool" where
  "cut_over st \<longleftrightarrow> st \<in> {''cutting_over'', ''activating'', ''temporal''}"

definition under_way :: "pystr \<Rightarrow> bool" where
  "under_way st \<longleftrightarrow> st = ''staged'' \<or> cut_over st"

definition rolled_back :: "pystr \<Rightarrow> bool" where
  "rolled_back st \<longleftrightarrow> st \<in> {''rolling_back'', ''sqlite''}"

section \<open>Access to the tables\<close>

definition migs :: "mig_db \<Rightarrow> (pystr, pystr \<times> bool) table" where
  "migs db = (case smigrations (md_sched db) of None \<Rightarrow> [] | Some t \<Rightarrow> t)"

definition binds :: "mig_db \<Rightarrow> (pystr, bool \<times> int) table" where
  "binds db = (case sbindings (md_sched db) of None \<Rightarrow> [] | Some t \<Rightarrow> t)"

definition get_job :: "(job \<Rightarrow> unit result) \<Rightarrow> pystr \<Rightarrow> mig_db \<Rightarrow> job result" where
  "get_job allowed key db = (case map_of (sjobs (md_sched db)) key of None \<Rightarrow> Inl (KeyError ''Schedule not found'')
     | Some j \<Rightarrow> bind_result (allowed j) (\<lambda>_. Inr j))"

definition get_binding :: "pystr \<Rightarrow> mig_db \<Rightarrow> (binding_row \<times> bool \<times> int) result" where
  "get_binding key db = (case (map_of (md_binds db) key, map_of (binds db) key) of
     (Some b, Some (on, n)) \<Rightarrow> Inr (b, on, n) | _ \<Rightarrow> Inl (KeyError ''Temporal schedule not found''))"

definition host_job :: "mig_env \<Rightarrow> pystr \<Rightarrow> mig_db \<Rightarrow> job result" where
  "host_job e key db = bind_result (get_job (\<lambda>_. Inr ()) key db) (\<lambda>j. bind_result (get_binding key db) (\<lambda>(b, _).
     bind_result (me_host e j b) (\<lambda>_. Inr j)))"

definition set_job :: "pystr \<Rightarrow> (job \<Rightarrow> job) \<Rightarrow> mig_db \<Rightarrow> mig_db" where
  "set_job key f db = db\<lparr>md_sched := (md_sched db)\<lparr>sjobs := update_key key (\<lambda>_. True) f (sjobs (md_sched db))\<rparr>\<rparr>"

definition set_mig :: "pystr \<Rightarrow> (pystr \<times> bool \<Rightarrow> pystr \<times> bool) \<Rightarrow> (migration_row \<Rightarrow> migration_row) \<Rightarrow> mig_db \<Rightarrow> mig_db" where
  "set_mig key f h db = db\<lparr>md_sched := (md_sched db)\<lparr>smigrations := Some (update_key key (\<lambda>_. True) f (migs db))\<rparr>,
     md_rows := update_key key (\<lambda>_. True) h (md_rows db)\<rparr>"

definition set_bind :: "time \<Rightarrow> pystr \<Rightarrow> (bool \<Rightarrow> bool) \<Rightarrow> (binding_row \<Rightarrow> binding_row) \<Rightarrow> mig_db \<Rightarrow> mig_db" where
  "set_bind t key f h db = db\<lparr>md_sched := (md_sched db)\<lparr>sbindings := Some (update_key key (\<lambda>_. True) (\<lambda>(on, n). (f on, n + 1)) (binds db))\<rparr>,
     md_binds := update_key key (\<lambda>_. True) (\<lambda>b. (h b)\<lparr>br_updated := t\<rparr>) (md_binds db)\<rparr>"

section \<open>Staging and cutting over\<close>

text \<open>
  \<open>stage\<close> saves the row of an idle job and binds it to a paused Temporal schedule; the SQLite job stays claimable.
  Staging the same digest again does nothing.
\<close>

definition stage_rows :: "mig_env \<Rightarrow> settings \<Rightarrow> pystr \<Rightarrow> pystr \<Rightarrow> job \<Rightarrow> mig_db \<Rightarrow> mig_db" where
  "stage_rows e st key d j db = (let barrier = se_now e + 120;
       fresh = \<lparr>mr_snapshot = j, mr_digest = d, mr_barrier = barrier, mr_fence_at = None, mr_next_run = None,
         mr_generation = 1, mr_updated = se_now e\<rparr>;
       bound = \<lparr>br_address = s_address st, br_namespace = s_namespace st, br_queue = me_queue e, br_overlap = ''SKIP'',
         br_cancelled = False, br_applied = 0, br_deleted = False, br_retired = False, br_start = Some barrier, br_updated = se_now e\<rparr> in
     db\<lparr>md_sched := (md_sched db)\<lparr>sbindings := Some (upsert_row key (False, 1) (\<lambda>(_, n). (False, n + 1)) (binds db)),
          smigrations := Some (upsert_row key (''staged'', sj_enabled j) (\<lambda>_. (''staged'', sj_enabled j)) (migs db))\<rparr>,
        md_binds := upsert_row key bound (\<lambda>b. b\<lparr>br_cancelled := False, br_retired := False, br_start := Some barrier,
          br_updated := se_now e\<rparr>) (md_binds db),
        md_rows := upsert_row key fresh (\<lambda>m. fresh\<lparr>mr_generation := mr_generation m + 1\<rparr>) (md_rows db)\<rparr>)"

definition stage :: "mig_env \<Rightarrow> pystr \<Rightarrow> pystr \<Rightarrow> mig_db \<Rightarrow> unit result \<times> mig_db" where
  "stage e key d db = txn db (bind_result (get_job (me_operator e) key db) (\<lambda>j.
     bind_result (supported e j) (\<lambda>_. bind_result (admission e j) (\<lambda>_.
     if sj_backend j \<noteq> ''sqlite'' \<or> job_digest e key j \<noteq> d then Inl (ValueError ''Legacy schedule changed; preview again'')
     else bind_result (idle_legacy e key (md_sched db)) (\<lambda>_.
       let old = map_of (migs db) key; saved = map_option mr_digest (map_of (md_rows db) key) in
       if map_option fst old = Some ''staged'' \<and> saved = Some d then Inr ((), db)
       else if old \<noteq> None \<and> map_option fst old \<notin> {Some ''sqlite'', Some ''staged''} then Inl (ValueError ''Migration is already active'')
       else bind_result (if old = None then Inr () else bind_result (get_binding key db) (\<lambda>(b, _). me_config e b)) (\<lambda>_.
         bind_result (me_settings e) (\<lambda>st. Inr ((), stage_rows e st key d j db))))))))"

definition cutover_rows :: "mig_env \<Rightarrow> pystr \<Rightarrow> job \<Rightarrow> mig_db \<Rightarrow> mig_db" where
  "cutover_rows e key j db = (let barrier = max (se_now e + 60) (sj_next j) in
     set_bind (se_now e) key (\<lambda>_. False) (\<lambda>b. b\<lparr>br_start := Some barrier\<rparr>)
       (set_mig key (\<lambda>(_, r). (''cutting_over'', r))
          (\<lambda>m. m\<lparr>mr_barrier := barrier, mr_fence_at := Some (se_now e), mr_updated := se_now e\<rparr>)
       (set_job key (\<lambda>j. j\<lparr>sj_backend := ''transition'', sj_enabled := False\<rparr>) db)))"

definition cutover_staged :: "mig_env \<Rightarrow> pystr \<Rightarrow> job \<Rightarrow> pystr \<Rightarrow> migration_row \<Rightarrow> mig_db \<Rightarrow> (unit \<times> mig_db) result" where
  "cutover_staged e key j st m db =
     (if cut_over st then Inr ((), db)
      else if st \<noteq> ''staged'' \<or> job_digest e key j \<noteq> mr_digest m then Inl (ValueError ''Legacy job changed; restage before cutover'')
      else bind_result (idle_legacy e key (md_sched db)) (\<lambda>_. bind_result (supported e j) (\<lambda>_. bind_result (admission e j) (\<lambda>_.
        Inr ((), cutover_rows e key j db)))))"

definition cutover :: "mig_env \<Rightarrow> pystr \<Rightarrow> mig_db \<Rightarrow> unit result \<times> mig_db" where
  "cutover e key db = txn db (bind_result (get_job (me_operator e) key db) (\<lambda>j. case (map_of (migs db) key, map_of (md_rows db) key) of
     (Some (st, _), Some m) \<Rightarrow> cutover_staged e key j st m db
   | _ \<Rightarrow> Inl (ValueError ''Stage the migration first'')))"

definition rollback_rows :: "mig_env \<Rightarrow> pystr \<Rightarrow> bool \<Rightarrow> mig_db \<Rightarrow> mig_db" where
  "rollback_rows e key on db = set_bind (se_now e) key (\<lambda>_. False) (\<lambda>b. b)
     (set_mig key (\<lambda>(_, r). (''rolling_back'', r \<and> on)) (\<lambda>m. m\<lparr>mr_updated := se_now e\<rparr>)
     (set_job key (\<lambda>j. j\<lparr>sj_backend := ''transition'', sj_enabled := False\<rparr>) db))"

definition rollback_from :: "mig_env \<Rightarrow> pystr \<Rightarrow> pystr \<Rightarrow> mig_db \<Rightarrow> (unit \<times> mig_db) result" where
  "rollback_from e key st db = (if rolled_back st then Inr ((), db)
     else if \<not> under_way st then Inl (ValueError ''Invalid migration state'')
     else bind_result (if st = ''temporal'' then bind_result (get_binding key db) (\<lambda>(_, on, _). Inr on) else Inr True) (\<lambda>on.
       Inr ((), rollback_rows e key on db)))"

definition rollback :: "mig_env \<Rightarrow> pystr \<Rightarrow> mig_db \<Rightarrow> unit result \<times> mig_db" where
  "rollback e key db = txn db (bind_result (get_job (me_operator e) key db) (\<lambda>_. case map_of (migs db) key of
     None \<Rightarrow> Inl (ValueError ''No migration exists'')
   | Some (st, _) \<Rightarrow> rollback_from e key st db))"

section \<open>Applying a migration\<close>

text \<open>
  The transactions of \<open>apply\<close>.  \<open>generation\<close> is the one it read before it talked to Temporal.
\<close>

definition begin_activation :: "mig_env \<Rightarrow> int \<Rightarrow> pystr \<Rightarrow> mig_db \<Rightarrow> unit result \<times> mig_db" where
  "begin_activation e generation key db = txn db (bind_result (host_job e key db) (\<lambda>j. bind_result (admission e j) (\<lambda>_.
     case (map_of (migs db) key, map_of (md_rows db) key) of
     (Some (st, r), Some m) \<Rightarrow>
       if st \<noteq> ''cutting_over'' \<or> mr_generation m \<noteq> generation then Inl (PyRuntimeError ''Migration state changed'')
       else bind_result (bind_result (get_binding key db) (\<lambda>(b, _). me_config e b)) (\<lambda>_.
         Inr ((), set_bind (se_now e) key (\<lambda>_. r \<and> sj_run_count j < sj_max_runs j) (\<lambda>b. b)
           (set_mig key (\<lambda>(_, r). (''activating'', r)) (\<lambda>m. m\<lparr>mr_updated := se_now e\<rparr>)
           (set_job key (\<lambda>j. j\<lparr>sj_backend := ''temporal'', sj_enabled := False\<rparr>) db))))
   | _ \<Rightarrow> Inl (TypeError ''NoneType object is not subscriptable''))))"

definition activate :: "mig_env \<Rightarrow> pystr \<Rightarrow> mig_db \<Rightarrow> unit result \<times> mig_db" where
  "activate e key db = txn db (bind_result (host_job e key db) (\<lambda>j.
     case (map_of (migs db) key, map_of (md_rows db) key) of
     (Some (st, r), Some m) \<Rightarrow>
       if st \<noteq> ''activating'' then Inl (PyRuntimeError ''Migration state changed'')
       else let on = (r \<and> sj_run_count j < sj_max_runs j); barrier = max (mr_barrier m) (se_now e + 60) in
         bind_result (if on then admission e j else Inr ()) (\<lambda>_.
         Inr ((), set_bind (se_now e) key (\<lambda>_. on) (\<lambda>b. b\<lparr>br_start := Some barrier\<rparr>)
           (set_mig key (\<lambda>x. x) (\<lambda>m. m\<lparr>mr_barrier := barrier, mr_updated := se_now e\<rparr>) db)))
   | _ \<Rightarrow> Inl (TypeError ''NoneType object is not subscriptable'')))"

definition activated :: "mig_env \<Rightarrow> pystr \<Rightarrow> mig_db \<Rightarrow> unit result \<times> mig_db" where
  "activated e key db = txn db (bind_result (host_job e key db) (\<lambda>_. case map_of (migs db) key of
     None \<Rightarrow> Inl (TypeError ''NoneType object is not subscriptable'')
   | Some (st, _) \<Rightarrow> bind_result (get_binding key db) (\<lambda>(b, _, n).
       if st \<noteq> ''activating'' \<or> br_applied b \<noteq> n then Inl (PyRuntimeError ''Activation has not been reconciled'')
       else Inr ((), set_mig key (\<lambda>(_, r). (''temporal'', r)) (\<lambda>m. m\<lparr>mr_updated := se_now e\<rparr>) db))))"

text \<open>After \<open>drain\<close>, which looks at the occurrences of Temporal.\<close>

definition retire :: "mig_env \<Rightarrow> pystr \<Rightarrow> mig_db \<Rightarrow> unit result \<times> mig_db" where
  "retire e key db = txn db (case map_of (migs db) key of None \<Rightarrow> Inl (TypeError ''NoneType object is not subscriptable'')
     | Some (st, _) \<Rightarrow> if st \<noteq> ''rolling_back'' then Inl (PyRuntimeError ''Migration state changed'')
       else Inr ((), set_bind (se_now e) key (\<lambda>on. on) (\<lambda>b. b\<lparr>br_retired := True\<rparr>) db))"

definition last_fence :: "pystr \<Rightarrow> sched_db \<Rightarrow> time option" where
  "last_fence key s = (case map (\<lambda>((_, w), _). w) (select_where (\<lambda>(k, _) _. k = key) (sfences s)) of
     [] \<Rightarrow> None | w # ws \<Rightarrow> Some (foldr max ws w))"

definition restore :: "mig_env \<Rightarrow> pystr \<Rightarrow> mig_db \<Rightarrow> unit result \<times> mig_db" where
  "restore e key db = txn db (case (map_of (migs db) key, map_of (md_rows db) key) of
     (Some (st, r), Some m) \<Rightarrow>
       if st \<noteq> ''rolling_back'' then Inl (PyRuntimeError ''Migration state changed'')
       else bind_result (get_binding key db) (\<lambda>(b, _, n).
         if \<not> br_deleted b \<or> br_applied b \<noteq> n then Inl (PyRuntimeError ''Schedule deletion has not been reconciled'')
         else bind_result (host_job e key db) (\<lambda>j.
         let original = mr_snapshot m; now = se_now e;
           after = (case last_fence key (md_sched db) of None \<Rightarrow> now | Some w \<Rightarrow> max now w) in
         bind_result (me_times e (sj_cron original) (sj_zone original) after) (\<lambda>due.
         Inr ((), set_mig key (\<lambda>(_, r). (''sqlite'', r)) (\<lambda>m. m\<lparr>mr_next_run := Some due, mr_updated := now\<rparr>)
           (set_job key (\<lambda>j. j\<lparr>sj_backend := ''sqlite'', sj_enabled := (r \<and> sj_run_count j < sj_max_runs original),
              sj_next := due, sj_cron := sj_cron original, sj_zone := sj_zone original, sj_timeout := sj_timeout original,
              sj_max_runs := sj_max_runs original\<rparr>) db)))))
   | _ \<Rightarrow> Inl (TypeError ''NoneType object is not subscriptable''))"

section \<open>Histories\<close>

text \<open>
  \<open>MStore\<close> is an operation of the scheduler, \<open>MOutside\<close> any other change (the Temporal side, an erasure) that leaves
  switched-off jobs off.
\<close>

datatype mig_op =
    MStore sched_op
  | MStage pystr pystr
  | MCutover pystr
  | MRollback pystr
  | MBegin int pystr
  | MActivate pystr
  | MActivated pystr
  | MRetire pystr
  | MRestore pystr
  | MOutside mig_db

definition jobs_kept_off :: "mig_db \<Rightarrow> mig_db \<Rightarrow> bool" where
  "jobs_kept_off db db' \<longleftrightarrow> list_all (\<lambda>(k, j). sj_enabled j \<or>
     (case map_of (sjobs (md_sched db')) k of None \<Rightarrow> False | Some j' \<Rightarrow> \<not> sj_enabled j')) (sjobs (md_sched db))"

fun mig_exec :: "mig_env \<Rightarrow> mig_op \<Rightarrow> mig_db \<Rightarrow> mig_db" where
  "mig_exec e (MStore x) db = db\<lparr>md_sched := sched_exec (sched_env.truncate e) x (md_sched db)\<rparr>"
| "mig_exec e (MStage key d) db = snd (stage e key d db)"
| "mig_exec e (MCutover key) db = snd (cutover e key db)"
| "mig_exec e (MRollback key) db = snd (rollback e key db)"
| "mig_exec e (MBegin n key) db = snd (begin_activation e n key db)"
| "mig_exec e (MActivate key) db = snd (activate e key db)"
| "mig_exec e (MActivated key) db = snd (activated e key db)"
| "mig_exec e (MRetire key) db = snd (retire e key db)"
| "mig_exec e (MRestore key) db = snd (restore e key db)"
| "mig_exec e (MOutside db') db = (if jobs_kept_off db db' then db' else db)"

definition mig_step :: "time \<Rightarrow> mig_env \<times> mig_op \<Rightarrow> mig_db \<Rightarrow> mig_db" where
  "mig_step t x db = mig_exec (fst x\<lparr>se_now := t\<rparr>) (snd x) db"


section \<open>A job that was switched off stays off\<close>

abbreviation job_off :: "pystr \<Rightarrow> mig_db \<Rightarrow> bool" where
  "job_off key db \<equiv> switched_off key (md_sched db)"

lemma job_off_iff: "job_off key db \<longleftrightarrow> (\<exists>j. map_of (sjobs (md_sched db)) key = Some j \<and> \<not> sj_enabled j)"
  by (simp add: switched_off_def)






section \<open>A lost effect never restarts by itself\<close>


section \<open>A rolled back migration restarts a lost job\<close>

definition mig_payload :: json where "mig_payload = JObj [(''prompt'', JStr ''look'')]"

definition mig_sample_env :: mig_env where
  "mig_sample_env = sched_env.extend (demo_env 0) \<lparr>me_operator = (\<lambda>_. Inr ()), me_host = (\<lambda>_ _. Inr ()), me_config = (\<lambda>_. Inr ()),
     me_settings = Inr \<lparr>s_address = ''a'', s_namespace = ''n'', s_engine = ''e'', s_file_writes = False\<rparr>, me_queue = ''q'',
     me_trial = NoSetting, me_loads = (\<lambda>s. Inr mig_payload), me_iso = (\<lambda>_. ''then''), me_times = (\<lambda>_ _ after. Inr (after + 1))\<rparr>"

definition mig_tables :: "job \<Rightarrow> (pystr, job_run) table \<Rightarrow> (pystr, job_lock) table \<Rightarrow> (pystr, notification) table \<Rightarrow>
    (pystr \<times> time, pystr) table \<Rightarrow> (pystr, pystr \<times> bool) table \<Rightarrow> (pystr, bool \<times> int) table \<Rightarrow> sched_db" where
  "mig_tables j rs ls ns fs ms bs = \<lparr>sjobs = [(''j'', j)], sruns = rs, slocks = ls, snotes = ns, sdeliveries = [],
     smigrations = Some ms, sbindings = Some bs, sfences = fs\<rparr>"

definition mig_job :: job where "mig_job = demo_job ''agent''"

definition mig_start :: mig_db where
  "mig_start = \<lparr>md_sched = mig_tables mig_job [] [] [] [] [] [], md_rows = [], md_binds = []\<rparr>"

abbreviation mig_digest :: pystr where
  "mig_digest \<equiv> job_digest mig_sample_env ''j'' mig_job"

lemma mig_env_at [simp]:
  "se_now (mig_sample_env\<lparr>se_now := t\<rparr>) = t" "me_operator (mig_sample_env\<lparr>se_now := t\<rparr>) = (\<lambda>_. Inr ())"
  "me_host (mig_sample_env\<lparr>se_now := t\<rparr>) = (\<lambda>_ _. Inr ())" "me_config (mig_sample_env\<lparr>se_now := t\<rparr>) = (\<lambda>_. Inr ())"
  "me_settings (mig_sample_env\<lparr>se_now := t\<rparr>) = Inr \<lparr>s_address = ''a'', s_namespace = ''n'', s_engine = ''e'', s_file_writes = False\<rparr>"
  "me_queue (mig_sample_env\<lparr>se_now := t\<rparr>) = ''q''" "me_times (mig_sample_env\<lparr>se_now := t\<rparr>) = (\<lambda>_ _ after. Inr (after + 1))"
  "sched_env.truncate (mig_sample_env\<lparr>se_now := t\<rparr>) = demo_env t"
  "job_digest (mig_sample_env\<lparr>se_now := t\<rparr>) ''j'' mig_job = mig_digest"
  by (simp_all add: mig_sample_env_def sched_env.extend_def sched_env.truncate_def demo_env_def job_digest_def job_snapshot_def)

lemma mig_admitted: "admission (mig_sample_env\<lparr>se_now := t\<rparr>) j = Inr ()"
  by (simp add: admission_def mig_sample_env_def sched_env.extend_def new_backend_def trial_owners_def)

lemma mig_lens: "py_len ''look'' = 4" "byte_len (dumps False False mig_payload) = 18"
  subgoal by (simp add: py_len_def continuation_byte_def)
  subgoal by code_simp
  done

lemma mig_supported: "supported (mig_sample_env\<lparr>se_now := t\<rparr>) mig_job = Inr ()"
proof -
  have l: "me_loads (mig_sample_env\<lparr>se_now := t\<rparr>) s = Inr mig_payload" for s
    by (simp add: mig_sample_env_def sched_env.extend_def)
  have v: "validate_job (demo_env t) ''backup'' ''0 3 * * *'' ''agent'' mig_payload ''UTC'' (JInt 60) (JInt 3) []
      = Inr (dumps False False mig_payload, t + 60)"
    using mig_lens(2) demo_expr
    by (simp add: validate_job_def job_kinds_def timeout_ok_def max_runs_ok_def next_time_def demo_env_def mig_payload_def py_len_def [of "[]"]
        Let_def del: dumps.simps)
  have p: "prompt_payload mig_payload"
    by (simp add: mig_payload_def prompt_payload_def has_keys_def jget_def mig_lens)
  have s: "sched_env.truncate (mig_sample_env\<lparr>se_now := t\<rparr>) = demo_env t" by simp
  have j: "sj_name mig_job = ''backup''" "sj_cron mig_job = ''0 3 * * *''" "sj_kind mig_job = ''agent''" "sj_zone mig_job = ''UTC''"
    "sj_timeout mig_job = JInt 60" "sj_max_runs mig_job = 3" "sj_description mig_job = []" "sj_retry_count mig_job = 0" "sj_run_count mig_job = 0"
    by (simp_all add: mig_job_def demo_job_def)
  show ?thesis unfolding supported_def l bind_result_Inr j s using p v by simp
qed

definition staged_binding :: "int \<Rightarrow> bool \<Rightarrow> bool \<Rightarrow> time \<Rightarrow> binding_row" where
  "staged_binding n gone retired t = \<lparr>br_address = ''a'', br_namespace = ''n'', br_queue = ''q'', br_overlap = ''SKIP'', br_cancelled = False,
     br_applied = n, br_deleted = gone, br_retired = retired, br_start = Some 121, br_updated = t\<rparr>"

definition staged_row :: "time \<Rightarrow> time option \<Rightarrow> migration_row" where
  "staged_row t due = \<lparr>mr_snapshot = mig_job, mr_digest = mig_digest, mr_barrier = 121, mr_fence_at = None, mr_next_run = due,
     mr_generation = 1, mr_updated = t\<rparr>"

lemma sample_staged:
  "mig_step 1 (mig_sample_env, MStage ''j'' mig_digest) mig_start =
     \<lparr>md_sched = mig_tables mig_job [] [] [] [] [(''j'', ''staged'', True)] [(''j'', False, 1)],
      md_rows = [(''j'', staged_row 1 None)], md_binds = [(''j'', staged_binding 0 False False 1)]\<rparr>"
proof -
  have on: "sj_enabled mig_job" "sj_backend mig_job = ''sqlite''" by (simp_all add: mig_job_def demo_job_def)
  show ?thesis
    by (simp add: mig_step_def stage_def get_job_def mig_start_def mig_tables_def mig_supported mig_admitted on idle_legacy_def locked_def
        row_where_def migs_def stage_rows_def Let_def binds_def upsert_row_def staged_row_def staged_binding_def)
qed

abbreviation lost_tables :: "job \<Rightarrow> (pystr, pystr \<times> bool) table \<Rightarrow> (pystr, bool \<times> int) table \<Rightarrow> sched_db" where
  "lost_tables j \<equiv> mig_tables j [(''r1'', lost_run (new_run ''j''))] []
     [(''n2'', \<lparr>sn_job = ''j'', sn_owner = ''me'', sn_state = ''needs_input'', sn_output = py_take 65536 uncertain_note, sn_created = 20\<rparr>)]
     [((''j'', 5), ''sqlite'')]"

definition lost_job :: "pystr \<Rightarrow> job" where
  "lost_job backend = mig_job\<lparr>sj_enabled := False, sj_backend := backend\<rparr>"

lemma mig_job_simps [simp]:
  "sj_enabled mig_job" "sj_backend mig_job = ''sqlite''" "sj_next mig_job = 5" "sj_kind mig_job = ''agent''" "sj_owner mig_job = ''me''"
  "sj_run_count mig_job = 0" "sj_max_runs mig_job = 3"
  by (simp_all add: mig_job_def demo_job_def)

text \<open>The job starts, its worker is lost, and the next claim closes the run as uncertain and switches the job off.\<close>

lemma sample_lost:
  "run_ops mig_step [(6, mig_sample_env, MStore (SClaim ''j'' 5 ''w1'' ''r1'' ''n1'')), (20, mig_sample_env, MStore (SClaim ''j'' 5 ''w2'' ''r2'' ''n2''))]
     \<lparr>md_sched = mig_tables mig_job [] [] [] [] [(''j'', ''staged'', True)] [(''j'', False, 1)], md_rows = rs, md_binds = bs\<rparr>
   = \<lparr>md_sched = lost_tables (lost_job ''sqlite'') [(''j'', ''staged'', True)] [(''j'', False, 1)], md_rows = rs, md_binds = bs\<rparr>"
proof -
  have "snd (claim_due (demo_env 6) ''j'' 5 ''w1'' ''r1'' ''n1'' (mig_tables mig_job [] [] [] [] [(''j'', ''staged'', True)] [(''j'', False, 1)]))
    = mig_tables mig_job [(''r1'', new_run ''j'')] [(''j'', lock_of ''w1'' 16)] [] [((''j'', 5), ''sqlite'')] [(''j'', ''staged'', True)] [(''j'', False, 1)]"
    by (simp add: claim_due_def mig_tables_def is_due_def demo_env_def locked_def row_where_def Let_def admit_run_def admit_legacy_def
        insert_row_def start_run_def set_lock_def upsert_row_def)
  moreover have "snd (claim_due (demo_env 20) ''j'' 5 ''w2'' ''r2'' ''n2'' (mig_tables mig_job [(''r1'', new_run ''j'')]
      [(''j'', lock_of ''w1'' 16)] [] [((''j'', 5), ''sqlite'')] [(''j'', ''staged'', True)] [(''j'', False, 1)]))
    = lost_tables (lost_job ''sqlite'') [(''j'', ''staged'', True)] [(''j'', False, 1)]"
    by (simp add: claim_due_def mig_tables_def is_due_def demo_env_def locked_def row_where_def Let_def lock_of_def run_running_def new_run_def
        give_up_def notify_def insert_row_def drop_lock_def delete_key_def update_key_def switch_off_def lost_job_def)
  ultimately show ?thesis by (simp add: mig_step_def)
qed

text \<open>An operator rolls the migration back; Temporal deletes its schedule.\<close>

lemma sample_rolled_back:
  "run_ops mig_step [(30, mig_sample_env, MRollback ''j''), (31, mig_sample_env, MRetire ''j'')]
     \<lparr>md_sched = lost_tables (lost_job ''sqlite'') [(''j'', ''staged'', True)] [(''j'', False, 1)], md_rows = [(''j'', staged_row 1 None)],
      md_binds = [(''j'', staged_binding 0 False False 1)]\<rparr>
   = \<lparr>md_sched = lost_tables (lost_job ''transition'') [(''j'', ''rolling_back'', True)] [(''j'', False, 3)], md_rows = [(''j'', staged_row 30 None)],
      md_binds = [(''j'', staged_binding 0 False True 31)]\<rparr>"
  by (simp add: mig_step_def rollback_def rollback_from_def retire_def get_job_def migs_def binds_def mig_tables_def rolled_back_def under_way_def
      rollback_rows_def set_bind_def set_mig_def set_job_def update_key_def lost_job_def staged_binding_def staged_row_def)

definition sample_deleted :: mig_db where
  "sample_deleted = \<lparr>md_sched = lost_tables (lost_job ''transition'') [(''j'', ''rolling_back'', True)] [(''j'', False, 3)],
      md_rows = [(''j'', staged_row 30 None)], md_binds = [(''j'', staged_binding 3 True True 32)]\<rparr>"

lemma sample_restored:
  "mig_step 33 (mig_sample_env, MRestore ''j'') sample_deleted
   = \<lparr>md_sched = lost_tables (mig_job\<lparr>sj_next := 34\<rparr>) [(''j'', ''sqlite'', True)] [(''j'', False, 3)], md_rows = [(''j'', staged_row 33 (Some 34))],
      md_binds = [(''j'', staged_binding 3 True True 32)]\<rparr>"
  by (simp add: mig_step_def restore_def sample_deleted_def migs_def mig_tables_def get_binding_def binds_def host_job_def get_job_def
      staged_binding_def staged_row_def last_fence_def select_where_def Let_def set_mig_def set_job_def update_key_def lost_job_def)

text \<open>
  The whole history: the run of a staged job is lost and closed as uncertain, an operator rolls the migration back,
  and \<open>restore\<close> enables the job again from the \<open>restore_enabled\<close> that was saved when it was staged: the next claim
  starts it.
\<close>

definition lost_and_restored :: "(time \<times> mig_env \<times> mig_op) list" where
  "lost_and_restored = [(1, mig_sample_env, MStage ''j'' mig_digest),
     (6, mig_sample_env, MStore (SClaim ''j'' 5 ''w1'' ''r1'' ''n1'')), (20, mig_sample_env, MStore (SClaim ''j'' 5 ''w2'' ''r2'' ''n2'')),
     (30, mig_sample_env, MRollback ''j''), (31, mig_sample_env, MRetire ''j''), (32, mig_sample_env, MOutside sample_deleted),
     (33, mig_sample_env, MRestore ''j'')]"

lemma restored_job_restarts:
  "map_of (sruns (md_sched (run_ops mig_step lost_and_restored mig_start))) ''r1'' = Some (lost_run (new_run ''j''))
   \<and> fst (claim_due (demo_env 40) ''j'' 34 ''w3'' ''r3'' ''n3'' (md_sched (run_ops mig_step lost_and_restored mig_start))) = Inr (Some ''r3'')"
proof -
  have split: "run_ops mig_step lost_and_restored mig_start = mig_step 33 (mig_sample_env, MRestore ''j'') (mig_step 32 (mig_sample_env, MOutside sample_deleted)
     (run_ops mig_step [(30, mig_sample_env, MRollback ''j''), (31, mig_sample_env, MRetire ''j'')]
     (run_ops mig_step [(6, mig_sample_env, MStore (SClaim ''j'' 5 ''w1'' ''r1'' ''n1'')), (20, mig_sample_env, MStore (SClaim ''j'' 5 ''w2'' ''r2'' ''n2''))]
       (mig_step 1 (mig_sample_env, MStage ''j'' mig_digest) mig_start))))"
    by (simp add: lost_and_restored_def)
  have "mig_step 32 (mig_sample_env, MOutside sample_deleted) db = sample_deleted"
    if "sjobs (md_sched db) = [(''j'', lost_job ''transition'')]" for db
    by (simp add: mig_step_def jobs_kept_off_def that sample_deleted_def mig_tables_def lost_job_def)
  then have "run_ops mig_step lost_and_restored mig_start = mig_step 33 (mig_sample_env, MRestore ''j'') sample_deleted"
    unfolding split sample_staged sample_lost sample_rolled_back by (simp add: mig_tables_def)
  then show ?thesis
    by (simp add: sample_restored) (simp add: mig_tables_def claim_due_def is_due_def demo_env_def locked_def row_where_def Let_def run_running_def
        lost_run_def new_run_def admit_run_def admit_legacy_def insert_row_def start_run_def set_lock_def upsert_row_def)
qed


end
