(* ===== verification/Memory_Store.thy ===== *)
theory Memory_Store
  imports Database Redaction "HOL-Library.Product_Lexorder" "HOL-Library.Option_ord"
begin

text \<open>
  \<open>memory.py\<close>: the long-term memory database.  Episodes and their events, semantic memories
  with their life cycle (active, expired, archived, superseded), entities with their aliases,
  procedures with their outcomes, the queue of memory jobs and the cool-down of providers.

  Time stamps are texts compared as texts, as SQLite compares them: \<open>me_stamp\<close> is
  \<open>CURRENT_TIMESTAMP\<close>.  The Unicode tables Python consults (case folding, which text holds a digit)
  and the scrubbing of secrets in a text are fields of the environment.  A confidence is a real.
\<close>

section \<open>Tables\<close>

record mem_env =
  me_stamp :: pystr
  me_time :: time
  me_fold :: "pystr \<Rightarrow> pystr"
  me_digit :: "pystr \<Rightarrow> bool"
  me_scrub :: "pystr \<Rightarrow> pystr"

record episode_row =
  ep_status :: pystr
  ep_started :: pystr
  ep_ended :: "pystr option"
  ep_summary :: "pystr option"

record event_row =
  ev_episode :: nat
  ev_type :: pystr
  ev_role :: "pystr option"
  ev_content :: "pystr option"
  ev_metadata :: json
  ev_created :: pystr

record memory_row =
  sm_subject :: pystr
  sm_predicate :: pystr
  sm_object :: pystr
  sm_subject_entity :: "nat option"
  sm_object_entity :: "nat option"
  sm_type :: pystr
  sm_scope :: pystr
  sm_confidence :: real
  sm_source :: nat
  sm_embedding :: "pystr option"
  sm_embedded :: "pystr option"
  sm_created :: pystr
  sm_updated :: pystr
  sm_expires :: "pystr option"
  sm_superseded :: "nat option"
  sm_archived :: "pystr option"
  sm_reason :: "pystr option"

record entity_row =
  en_name :: pystr
  en_norm :: pystr
  en_type :: pystr
  en_source :: "nat option"
  en_created :: pystr
  en_updated :: pystr

record alias_row =
  al_entity :: nat
  al_alias :: pystr
  al_norm :: pystr

record procedure_row =
  pr_task :: pystr
  pr_context :: pystr
  pr_steps :: "pystr list"
  pr_confidence :: real
  pr_success :: int
  pr_failure :: int
  pr_source :: nat
  pr_created :: pystr
  pr_updated :: pystr
  pr_last_success :: "pystr option"
  pr_archived :: "pystr option"
  pr_reason :: "pystr option"

record mjob_row =
  mj_type :: pystr
  mj_episode :: "nat option"
  mj_status :: pystr
  mj_payload :: json
  mj_attempts :: nat
  mj_error :: "pystr option"
  mj_next :: "pystr option"
  mj_token :: "pystr option"
  mj_pid :: "int option"
  mj_started :: "pystr option"
  mj_host :: "pystr option"
  mj_heartbeat :: "time option"
  mj_until :: "time option"

record memory_db =
  episodes :: "(nat, episode_row) table"
  events :: "(nat, event_row) table"
  memories :: "(nat, memory_row) table"
  entities :: "(nat, entity_row) table"
  aliases :: "(nat, alias_row) table"
  procedures :: "(nat, procedure_row) table"
  mjobs :: "(nat, mjob_row) table"
  recoveries :: "(nat \<times> pystr option) list"
  providers :: "(pystr, time \<times> int \<times> pystr) table"
  episode_finals :: "(pystr, nat \<times> pystr \<times> nat option) table"

section \<open>Episodes and events\<close>

definition start_episode :: "mem_env \<Rightarrow> memory_db \<Rightarrow> nat \<times> memory_db" where
  "start_episode e db = (next_id (episodes db), db\<lparr>episodes := add_row \<lparr>ep_status = ''running'',
     ep_started = me_stamp e, ep_ended = None, ep_summary = None\<rparr> (episodes db)\<rparr>)"

definition get_episode :: "nat \<Rightarrow> memory_db \<Rightarrow> episode_row option" where
  "get_episode i db = map_of (episodes db) i"

definition failed_statuses :: "pystr list" where
  "failed_statuses = [''rejected'', ''needs_review'', ''failed'']"

definition final_status :: "nat \<Rightarrow> pystr \<Rightarrow> memory_db \<Rightarrow> pystr" where
  "final_status i status db =
     (let s = (if status = ''completed'' then ''verified_completed'' else status)
      in case get_episode i db of None \<Rightarrow> s
         | Some r \<Rightarrow> if ep_status r \<in> set (''verified_completed'' # failed_statuses)
             \<and> s = ''verified_completed'' \<and> ep_status r \<in> set failed_statuses then ep_status r else s)"

definition finish_episode :: "mem_env \<Rightarrow> nat \<Rightarrow> pystr \<Rightarrow> pystr option \<Rightarrow> memory_db \<Rightarrow> memory_db" where
  "finish_episode e i status summary db = db\<lparr>episodes := update_key i (\<lambda>r. ep_status r \<noteq> ''deleted'')
     (\<lambda>r. r\<lparr>ep_ended := Some (me_stamp e), ep_status := final_status i status db, ep_summary := summary\<rparr>) (episodes db)\<rparr>"

definition episode_status :: "nat \<Rightarrow> memory_db \<Rightarrow> pystr option" where
  "episode_status i db = map_option ep_status (map_of (episodes db) i)"

definition new_event :: "mem_env \<Rightarrow> nat \<Rightarrow> pystr \<Rightarrow> pystr option \<Rightarrow> pystr option \<Rightarrow> json \<Rightarrow> event_row" where
  "new_event e i ty role content meta = \<lparr>ev_episode = i, ev_type = ty, ev_role = role, ev_content = content,
     ev_metadata = meta, ev_created = me_stamp e\<rparr>"

definition redact_text :: "(pystr \<Rightarrow> pystr) \<Rightarrow> pystr \<Rightarrow> pystr" where
  "redact_text scrub s = jtext_of (redact_value scrub (JStr s))"

definition add_event :: "mem_env \<Rightarrow> nat \<Rightarrow> pystr \<Rightarrow> pystr option \<Rightarrow> pystr option \<Rightarrow> json \<Rightarrow> memory_db \<Rightarrow>
    nat result \<times> memory_db" where
  "add_event e i ty role content meta db = txn db
     (let m = jor meta (JObj []); plain = (ty \<in> set [''message'', ''agent_message'']);
          c = (if plain then content else map_option (redact_text (me_scrub e)) content);
          d = (if plain then m else jor (redact_value (me_scrub e) m) (JObj []))
      in if episode_status i db = Some ''deleted''
         then Inl (PermissionError ''Deleted conversation episode cannot receive new content'')
         else Inr (next_id (events db), db\<lparr>events := add_row (new_event e i ty role c d) (events db)\<rparr>))"

definition new_mjob :: "pystr \<Rightarrow> nat option \<Rightarrow> json \<Rightarrow> mjob_row" where
  "new_mjob ty ep payload = \<lparr>mj_type = ty, mj_episode = ep, mj_status = ''pending'', mj_payload = payload,
     mj_attempts = 0, mj_error = None, mj_next = None, mj_token = None, mj_pid = None, mj_started = None,
     mj_host = None, mj_heartbeat = None, mj_until = None\<rparr>"

definition final_writes :: "mem_env \<Rightarrow> pystr \<Rightarrow> nat \<Rightarrow> pystr \<Rightarrow> pystr \<Rightarrow> pystr \<Rightarrow> bool \<Rightarrow> memory_db \<Rightarrow>
    nat option \<times> memory_db" where
  "final_writes e key i fingerprint rep status review db =
     (let meta = JObj [(''temporal_finalization'', JStr key)];
          job = (if review then Some (next_id (mjobs db)) else None)
      in (job, db\<lparr>events := add_row (new_event e i ''message'' (Some ''assistant'') (Some rep) meta) (events db),
            episodes := update_key i (\<lambda>_. True) (\<lambda>r. r\<lparr>ep_status := status, ep_ended := Some (me_stamp e)\<rparr>) (episodes db),
            mjobs := (if review then add_row (new_mjob ''memory_review'' (Some i) meta) (mjobs db) else mjobs db),
            episode_finals := episode_finals db @ [(key, (i, fingerprint, job))]\<rparr>))"

definition finalize_temporal :: "mem_env \<Rightarrow> pystr \<Rightarrow> nat \<Rightarrow> pystr \<Rightarrow> pystr \<Rightarrow> bool \<Rightarrow> memory_db \<Rightarrow>
    nat option result \<times> memory_db" where
  "finalize_temporal e key i rep state review db = txn db
     (let fingerprint = digest (JArr [JInt (int i), JStr rep, JStr state, JBool review])
      in case map_of (episode_finals db) key of
        Some (i', f, job) \<Rightarrow> if f \<noteq> fingerprint \<or> i' \<noteq> i
          then Inl (ValueError ''Finalization key reused with different result'') else Inr (job, db)
      | None \<Rightarrow> (case episode_status i db of
          None \<Rightarrow> Inl (PermissionError ''Finalization episode is missing or deleted'')
        | Some s \<Rightarrow> if s = ''deleted'' then Inl (PermissionError ''Finalization episode is missing or deleted'')
            else let status = (if s \<in> set failed_statuses then s
                               else if state = ''failed'' then ''failed'' else ''verified_completed'')
                 in Inr (final_writes e key i fingerprint rep status review db)))"

definition recent_events :: "nat \<Rightarrow> memory_db \<Rightarrow> (nat \<times> event_row) list" where
  "recent_events n db = take n (desc fst (events db))"

definition episode_events :: "nat \<Rightarrow> memory_db \<Rightarrow> (nat \<times> event_row) list" where
  "episode_events i db = asc fst (select_where (\<lambda>_ r. ev_episode r = i) (events db))"

definition message_events :: "nat \<Rightarrow> nat option \<Rightarrow> memory_db \<Rightarrow> (nat \<times> event_row) list" where
  "message_events n ep db = take n (desc fst (select_where (\<lambda>_ r. ev_type r = ''message''
     \<and> (case ep of None \<Rightarrow> True | Some i \<Rightarrow> ev_episode r = i)) (events db)))"

definition typed_events :: "pystr list \<Rightarrow> nat \<Rightarrow> memory_db \<Rightarrow> (nat \<times> event_row) list" where
  "typed_events tys n db = take n (desc fst (select_where (\<lambda>_ r. ev_type r \<in> set tys) (events db)))"

definition review_candidates :: "nat \<Rightarrow> memory_db \<Rightarrow> (nat \<times> event_row) list" where
  "review_candidates n db = typed_events [''memory_review_candidate'', ''memory_review_result''] n db"

definition events_by_type :: "pystr \<Rightarrow> nat \<Rightarrow> memory_db \<Rightarrow> (nat \<times> event_row) list" where
  "events_by_type ty n db = typed_events [ty] n db"

definition skill_run_events :: "nat \<Rightarrow> memory_db \<Rightarrow> (nat \<times> event_row) list" where
  "skill_run_events n db = typed_events [''skill_candidates'', ''skill_selected'', ''skill_step'',
     ''skill_step_result'', ''skill_result''] n db"

section \<open>Entities\<close>

definition normalize_entity_name :: "mem_env \<Rightarrow> pystr \<Rightarrow> pystr" where
  "normalize_entity_name e name = py_join '' '' (py_split_ws (me_fold e (py_strip name)))"

definition infer_entity_type :: "mem_env \<Rightarrow> pystr \<Rightarrow> pystr \<Rightarrow> pystr" where
  "infer_entity_type e name mtype = (let n = normalize_entity_name e name in
     if n = ''user'' then ''user''
     else if n \<in> set [''project'', ''repo'', ''repository''] \<or> mtype = ''project_fact'' then ''project''
     else if mtype = ''agent_persona'' then ''agent''
     else if mtype = ''task_fact'' then ''task''
     else ''entity'')"

definition should_link_object :: "mem_env \<Rightarrow> pystr \<Rightarrow> pystr \<Rightarrow> bool" where
  "should_link_object e v mtype = (let n = normalize_entity_name e v in
     n \<noteq> [] \<and> (mtype \<in> set [''entity_fact'', ''project_fact'', ''agent_persona'']
       \<or> (length (py_split_ws n) \<le> 4 \<and> \<not> me_digit e n)))"

definition add_alias :: "mem_env \<Rightarrow> nat \<Rightarrow> pystr \<Rightarrow> memory_db \<Rightarrow> memory_db" where
  "add_alias e i name db = (let n = normalize_entity_name e name in
     if list_ex (\<lambda>(_, r). al_entity r = i \<and> al_norm r = n) (aliases db) then db
     else db\<lparr>aliases := add_row \<lparr>al_entity = i, al_alias = name, al_norm = n\<rparr> (aliases db)\<rparr>)"

definition named_entity :: "pystr \<Rightarrow> pystr \<Rightarrow> nat \<times> entity_row \<Rightarrow> bool" where
  "named_entity n ty kr \<longleftrightarrow> en_norm (snd kr) = n \<and> en_type (snd kr) = ty"

definition entity_for :: "mem_env \<Rightarrow> pystr \<Rightarrow> pystr \<Rightarrow> nat option \<Rightarrow> memory_db \<Rightarrow> nat \<times> memory_db" where
  "entity_for e name ty src db = (let n = normalize_entity_name e name in
     case find (named_entity n ty) (entities db) of
       Some (i, _) \<Rightarrow> (i, add_alias e i name db)
     | None \<Rightarrow> (let i = next_id (entities db) in (i, add_alias e i name (db\<lparr>entities := add_row
         \<lparr>en_name = name, en_norm = n, en_type = ty, en_source = src, en_created = me_stamp e,
          en_updated = me_stamp e\<rparr> (entities db)\<rparr>))))"

definition get_or_create_entity :: "mem_env \<Rightarrow> pystr \<Rightarrow> pystr \<Rightarrow> nat option \<Rightarrow> pystr list \<Rightarrow> memory_db \<Rightarrow> nat \<times> memory_db" where
  "get_or_create_entity e name ty src names db = (case entity_for e name ty src db of
     (i, db') \<Rightarrow> (i, fold (add_alias e i) names db'))"

definition find_entity :: "mem_env \<Rightarrow> pystr \<Rightarrow> pystr option \<Rightarrow> memory_db \<Rightarrow> (nat \<times> entity_row) option" where
  "find_entity e name ty db = (let n = normalize_entity_name e name;
     hits = desc (\<lambda>(i, r). (en_updated r, i)) (select_where (\<lambda>i r.
       (en_norm r = n \<or> list_ex (\<lambda>(_, a). al_entity a = i \<and> al_norm a = n) (aliases db))
       \<and> (case ty of None \<Rightarrow> True | Some t \<Rightarrow> en_type r = t)) (entities db))
     in case hits of [] \<Rightarrow> None | h # _ \<Rightarrow> Some h)"

definition entity_aliases :: "nat \<Rightarrow> memory_db \<Rightarrow> (nat \<times> alias_row) list" where
  "entity_aliases i db = asc fst (select_where (\<lambda>_ r. al_entity r = i) (aliases db))"

section \<open>Semantic memories\<close>

definition source_deleted :: "nat \<Rightarrow> memory_db \<Rightarrow> bool" where
  "source_deleted ev db \<longleftrightarrow> (case map_of (events db) ev of None \<Rightarrow> False
     | Some r \<Rightarrow> episode_status (ev_episode r) db = Some ''deleted'')"

text \<open>The entity links of a memory: a given subject entity is kept, the object is linked when its text
  names something.\<close>

definition link_entities :: "mem_env \<Rightarrow> pystr \<Rightarrow> pystr \<Rightarrow> pystr \<Rightarrow> nat \<Rightarrow> nat option \<Rightarrow> nat option \<Rightarrow> memory_db \<Rightarrow>
    nat option \<times> nat option \<times> memory_db" where
  "link_entities e subj obj mtype src s0 o0 db =
     (let (s, db1) = (case s0 of Some i \<Rightarrow> (i, db)
            | None \<Rightarrow> entity_for e subj (infer_entity_type e subj mtype) (Some src) db);
          (o', db2) = (case o0 of Some i \<Rightarrow> (Some i, db1)
            | None \<Rightarrow> if should_link_object e obj mtype
                then (case entity_for e obj (infer_entity_type e obj mtype) (Some src) db1 of (i, d) \<Rightarrow> (Some i, d))
                else (None, db1))
      in (Some s, o', db2))"

definition new_memory :: "mem_env \<Rightarrow> pystr \<Rightarrow> pystr \<Rightarrow> pystr \<Rightarrow> nat option \<Rightarrow> nat option \<Rightarrow> pystr \<Rightarrow> pystr \<Rightarrow> real \<Rightarrow>
    nat \<Rightarrow> pystr option \<Rightarrow> pystr option \<Rightarrow> memory_row" where
  "new_memory e subj pred obj s o' mtype scope conf src expires emb = \<lparr>sm_subject = subj, sm_predicate = pred,
     sm_object = obj, sm_subject_entity = s, sm_object_entity = o', sm_type = mtype, sm_scope = scope,
     sm_confidence = conf, sm_source = src, sm_embedding = emb,
     sm_embedded = (case emb of None \<Rightarrow> None | Some _ \<Rightarrow> Some (me_stamp e)), sm_created = me_stamp e,
     sm_updated = me_stamp e, sm_expires = expires, sm_superseded = None, sm_archived = None, sm_reason = None\<rparr>"

definition add_semantic_memory :: "mem_env \<Rightarrow> pystr \<Rightarrow> pystr \<Rightarrow> pystr \<Rightarrow> nat \<Rightarrow> real \<Rightarrow> pystr option \<Rightarrow> pystr option \<Rightarrow>
    pystr \<Rightarrow> pystr \<Rightarrow> nat option \<Rightarrow> nat option \<Rightarrow> memory_db \<Rightarrow> nat result \<times> memory_db" where
  "add_semantic_memory e subj pred obj src conf expires emb mtype scope s0 o0 db = txn db
     (if source_deleted src db then Inl (PermissionError ''Deleted conversation cannot produce new memories'')
      else let (s, o', db1) = link_entities e subj obj mtype src s0 o0 db
           in Inr (next_id (memories db1), db1\<lparr>memories := add_row
                (new_memory e subj pred obj s o' mtype scope conf src expires emb) (memories db1)\<rparr>))"

definition set_memory :: "nat \<Rightarrow> (memory_row \<Rightarrow> memory_row) \<Rightarrow> memory_db \<Rightarrow> memory_db" where
  "set_memory i f db = db\<lparr>memories := update_key i (\<lambda>_. True) f (memories db)\<rparr>"

definition update_semantic_confidence :: "mem_env \<Rightarrow> nat \<Rightarrow> real \<Rightarrow> memory_db \<Rightarrow> memory_db" where
  "update_semantic_confidence e i c db = set_memory i (\<lambda>r. r\<lparr>sm_confidence := c, sm_updated := me_stamp e\<rparr>) db"

definition update_semantic_memory :: "mem_env \<Rightarrow> nat \<Rightarrow> pystr \<Rightarrow> pystr \<Rightarrow> pystr \<Rightarrow> real \<Rightarrow> pystr \<Rightarrow> pystr \<Rightarrow>
    pystr option \<Rightarrow> memory_db \<Rightarrow> bool \<times> memory_db" where
  "update_semantic_memory e i subj pred obj conf mtype scope expires db = (case map_of (memories db) i of
     None \<Rightarrow> (False, db)
   | Some r \<Rightarrow> (case link_entities e subj obj mtype (sm_source r) None None db of (s, o', db1) \<Rightarrow>
       (True, set_memory i (\<lambda>r. r\<lparr>sm_subject := subj, sm_predicate := pred, sm_object := obj,
          sm_subject_entity := s, sm_object_entity := o', sm_type := mtype, sm_scope := scope,
          sm_confidence := conf, sm_expires := expires, sm_embedding := None, sm_embedded := None,
          sm_updated := me_stamp e\<rparr>) db1)))"

definition update_semantic_embedding :: "mem_env \<Rightarrow> nat \<Rightarrow> pystr \<Rightarrow> memory_db \<Rightarrow> memory_db" where
  "update_semantic_embedding e i emb db = set_memory i (\<lambda>r. r\<lparr>sm_embedding := Some emb,
     sm_embedded := Some (me_stamp e), sm_updated := me_stamp e\<rparr>) db"

definition live_memory :: "mem_env \<Rightarrow> memory_row \<Rightarrow> bool" where
  "live_memory e r \<longleftrightarrow> sm_superseded r = None \<and> sm_archived r = None
     \<and> (case sm_expires r of None \<Rightarrow> True | Some x \<Rightarrow> x > me_stamp e)"

abbreviation matches :: "pystr option \<Rightarrow> pystr \<Rightarrow> bool" where
  "matches w v \<equiv> (case w of None \<Rightarrow> True | Some x \<Rightarrow> v = x)"

definition recency :: "nat \<times> memory_row \<Rightarrow> pystr \<times> nat" where
  "recency kr = (sm_updated (snd kr), fst kr)"

definition active_where :: "mem_env \<Rightarrow> pystr option \<Rightarrow> pystr option \<Rightarrow> pystr option \<Rightarrow> pystr option \<Rightarrow> memory_db \<Rightarrow>
    (nat \<times> memory_row) list" where
  "active_where e subj pred mtype scope db = desc recency (select_where (\<lambda>_ r. live_memory e r
     \<and> matches subj (sm_subject r) \<and> matches pred (sm_predicate r) \<and> matches mtype (sm_type r)
     \<and> matches scope (sm_scope r)) (memories db))"

abbreviation active_semantic_memories :: "mem_env \<Rightarrow> memory_db \<Rightarrow> (nat \<times> memory_row) list" where
  "active_semantic_memories e db \<equiv> active_where e None None None None db"

definition semantic_memory :: "nat \<Rightarrow> memory_db \<Rightarrow> memory_row option" where
  "semantic_memory i db = map_of (memories db) i"

definition archived_semantic_memories :: "memory_db \<Rightarrow> (nat \<times> memory_row) list" where
  "archived_semantic_memories db = desc (\<lambda>(i, r). (sm_archived r, i))
     (select_where (\<lambda>_ r. sm_archived r \<noteq> None) (memories db))"

definition expired_semantic_memories :: "mem_env \<Rightarrow> memory_db \<Rightarrow> (nat \<times> memory_row) list" where
  "expired_semantic_memories e db = asc (\<lambda>(i, r). (sm_expires r, i))
     (select_where (\<lambda>_ r. sm_superseded r = None \<and> sm_archived r = None
        \<and> (case sm_expires r of None \<Rightarrow> False | Some x \<Rightarrow> x \<le> me_stamp e)) (memories db))"

definition missing_embedding :: "pystr option \<Rightarrow> memory_row \<Rightarrow> bool" where
  "missing_embedding stale r \<longleftrightarrow> sm_embedding r = None \<or> sm_embedding r = Some []
     \<or> (case stale of None \<Rightarrow> False | Some s \<Rightarrow> (case sm_embedded r of None \<Rightarrow> True | Some x \<Rightarrow> x < s))"

definition semantic_memories_missing_embeddings :: "mem_env \<Rightarrow> nat \<Rightarrow> pystr option \<Rightarrow> memory_db \<Rightarrow>
    (nat \<times> memory_row) list" where
  "semantic_memories_missing_embeddings e n stale db = take n (desc recency
     (select_where (\<lambda>_ r. live_memory e r \<and> missing_embedding stale r) (memories db)))"

definition archive_semantic_memory :: "mem_env \<Rightarrow> nat \<Rightarrow> pystr \<Rightarrow> memory_db \<Rightarrow> memory_db" where
  "archive_semantic_memory e i reason db = set_memory i (\<lambda>r. r\<lparr>sm_archived := Some (me_stamp e),
     sm_reason := Some reason, sm_updated := me_stamp e\<rparr>) db"

definition supersede_semantic_memory :: "mem_env \<Rightarrow> nat \<Rightarrow> pystr \<Rightarrow> pystr \<Rightarrow> pystr \<Rightarrow> nat \<Rightarrow> real \<Rightarrow> pystr \<Rightarrow>
    pystr option \<Rightarrow> pystr \<Rightarrow> pystr \<Rightarrow> nat option \<Rightarrow> nat option \<Rightarrow> memory_db \<Rightarrow> nat \<times> memory_db" where
  "supersede_semantic_memory e old subj pred obj src conf reason emb mtype scope s0 o0 db =
     (case link_entities e subj obj mtype src s0 o0 db of (s, o', db1) \<Rightarrow>
        let i = next_id (memories db1);
            db2 = db1\<lparr>memories := add_row (new_memory e subj pred obj s o' mtype scope conf src None emb) (memories db1)\<rparr>
        in (i, set_memory old (\<lambda>r. r\<lparr>sm_superseded := Some i, sm_archived := Some (me_stamp e),
              sm_reason := Some reason, sm_updated := me_stamp e\<rparr>) db2))"

definition restore_semantic_memory :: "mem_env \<Rightarrow> nat \<Rightarrow> memory_db \<Rightarrow> bool \<times> memory_db" where
  "restore_semantic_memory e i db = (row_where i (\<lambda>_. True) (memories db),
     set_memory i (\<lambda>r. r\<lparr>sm_archived := None, sm_reason := None, sm_updated := me_stamp e\<rparr>) db)"

section \<open>Procedures\<close>

definition add_procedure :: "mem_env \<Rightarrow> pystr \<Rightarrow> pystr \<Rightarrow> pystr list \<Rightarrow> nat \<Rightarrow> real \<Rightarrow> int \<Rightarrow> int \<Rightarrow> memory_db \<Rightarrow>
    nat \<times> memory_db" where
  "add_procedure e task ctxt steps src conf succ fail db = (next_id (procedures db), db\<lparr>procedures := add_row
     \<lparr>pr_task = task, pr_context = ctxt, pr_steps = steps, pr_confidence = conf, pr_success = succ,
      pr_failure = fail, pr_source = src, pr_created = me_stamp e, pr_updated = me_stamp e,
      pr_last_success = (if succ > 0 then Some (me_stamp e) else None), pr_archived = None, pr_reason = None\<rparr>
     (procedures db)\<rparr>)"

definition find_procedure :: "pystr \<Rightarrow> pystr \<Rightarrow> memory_db \<Rightarrow> (nat \<times> procedure_row) option" where
  "find_procedure task ctxt db = (case desc (\<lambda>(i, r). (pr_confidence r, pr_success r, i))
       (select_where (\<lambda>_ r. pr_task r = task \<and> pr_context r = ctxt \<and> pr_archived r = None) (procedures db)) of
     [] \<Rightarrow> None | h # _ \<Rightarrow> Some h)"

definition active_procedures :: "pystr option \<Rightarrow> memory_db \<Rightarrow> (nat \<times> procedure_row) list" where
  "active_procedures task db = desc (\<lambda>(i, r). (pr_confidence r, pr_success r, pr_updated r, i))
     (select_where (\<lambda>_ r. pr_archived r = None \<and> matches task (pr_task r)) (procedures db))"

definition record_procedure_result :: "mem_env \<Rightarrow> nat \<Rightarrow> bool \<Rightarrow> memory_db \<Rightarrow> memory_db" where
  "record_procedure_result e i ok db = db\<lparr>procedures := update_key i (\<lambda>_. True) (\<lambda>r. r\<lparr>
     pr_success := pr_success r + (if ok then 1 else 0), pr_failure := pr_failure r + (if ok then 0 else 1),
     pr_updated := me_stamp e,
     pr_last_success := (if ok then Some (me_stamp e) else pr_last_success r)\<rparr>) (procedures db)\<rparr>"

definition archive_procedure :: "mem_env \<Rightarrow> nat \<Rightarrow> pystr \<Rightarrow> memory_db \<Rightarrow> memory_db" where
  "archive_procedure e i reason db = db\<lparr>procedures := update_key i (\<lambda>_. True) (\<lambda>r. r\<lparr>
     pr_archived := Some (me_stamp e), pr_reason := Some reason, pr_updated := me_stamp e\<rparr>) (procedures db)\<rparr>"

definition archived_procedures :: "memory_db \<Rightarrow> (nat \<times> procedure_row) list" where
  "archived_procedures db = desc (\<lambda>(i, r). (pr_archived r, i))
     (select_where (\<lambda>_ r. pr_archived r \<noteq> None) (procedures db))"

section \<open>The job queue and provider cool-downs\<close>

definition add_memory_job :: "pystr \<Rightarrow> nat option \<Rightarrow> json \<Rightarrow> memory_db \<Rightarrow> nat \<times> memory_db" where
  "add_memory_job ty ep payload db = (next_id (mjobs db),
     db\<lparr>mjobs := add_row (new_mjob ty ep (jor payload (JObj []))) (mjobs db)\<rparr>)"

definition mjob_due :: "mem_env \<Rightarrow> mjob_row \<Rightarrow> bool" where
  "mjob_due e r \<longleftrightarrow> mj_status r = ''pending'' \<and> (case mj_next r of None \<Rightarrow> True | Some t \<Rightarrow> t \<le> me_stamp e)"

definition pending_memory_jobs :: "mem_env \<Rightarrow> pystr option \<Rightarrow> nat \<Rightarrow> memory_db \<Rightarrow> (nat \<times> mjob_row) list" where
  "pending_memory_jobs e ty n db = take n (asc (\<lambda>(i, r). (mj_next r, i))
     (select_where (\<lambda>_ r. mjob_due e r \<and> matches ty (mj_type r)) (mjobs db)))"

definition memory_jobs :: "nat \<Rightarrow> memory_db \<Rightarrow> (nat \<times> mjob_row) list" where
  "memory_jobs n db = take n (desc fst (mjobs db))"

definition provider_cooldown_state :: "pystr \<Rightarrow> memory_db \<Rightarrow> time \<times> int \<times> pystr option" where
  "provider_cooldown_state name db = (case map_of (providers db) name of
     None \<Rightarrow> (0, 0, None) | Some (t, n, u) \<Rightarrow> (t, n, Some u))"

definition save_provider_cooldown_state :: "mem_env \<Rightarrow> pystr \<Rightarrow> time \<Rightarrow> int \<Rightarrow> memory_db \<Rightarrow> memory_db" where
  "save_provider_cooldown_state e name t n db = db\<lparr>providers :=
     upsert_row name (t, n, me_stamp e) (\<lambda>_. (t, n, me_stamp e)) (providers db)\<rparr>"

end
