(* ===== verification/Memory_Jobs.thy ===== *)
theory Memory_Jobs
  imports Memory_Store Leases
begin

text \<open>
  \<open>agent_execution/memory_jobs/\<close> with the job operations of \<open>memory.py\<close> and the provider cool-down
  of \<open>memory_worker.py\<close>: a background job is leased to one worker process, renewed while it runs,
  finished under its token, and after a crash failed for good, never replayed.

  What the operating system says of a process (its birth marker) is a field of the environment;
  so are the offline check of legacy workers and the backup of the database file.
\<close>

section \<open>Processes\<close>

datatype proc = Gone | Unreadable | Born pystr

record job_env = mem_env +
  je_pid :: int
  je_host :: pystr
  je_proc :: "int \<Rightarrow> proc"
  je_lease :: "real option"
  je_after :: "real \<Rightarrow> pystr"

datatype owner_status = OwnerUnknown | OwnerStopped | OwnerRunning

definition owner_state :: "pystr \<Rightarrow> (int \<Rightarrow> proc) \<Rightarrow> mjob_row \<Rightarrow> owner_status" where
  "owner_state host processes r = (case (mj_host r, mj_pid r, mj_started r) of
     (Some h, Some p, Some s) \<Rightarrow>
       if h \<noteq> host \<or> p = 0 \<or> s = [] then OwnerUnknown
       else (case processes p of Gone \<Rightarrow> OwnerStopped | Unreadable \<Rightarrow> OwnerUnknown
             | Born b \<Rightarrow> if b = s then OwnerRunning else OwnerStopped)
   | _ \<Rightarrow> OwnerUnknown)"

text \<open>\<open>lease_seconds\<close>: \<open>None\<close> is a setting that is not finite.\<close>

definition lease_seconds :: "real option \<Rightarrow> real result" where
  "lease_seconds v = (case v of
     None \<Rightarrow> Inl (ValueError ''MEMORY_JOB_LEASE_SECONDS must be finite and >= 1'')
   | Some x \<Rightarrow> if x < 1 then Inl (ValueError ''MEMORY_JOB_LEASE_SECONDS must be finite and >= 1'') else Inr x)"

section \<open>Leases\<close>

definition leased_to :: "mem_env \<Rightarrow> pystr \<Rightarrow> mjob_row \<Rightarrow> bool" where
  "leased_to e w r \<longleftrightarrow> mj_status r = ''processing'' \<and> mj_token r = Some w
     \<and> (case mj_until r of None \<Rightarrow> False | Some t \<Rightarrow> t > me_time e)"

abbreviation base_env :: "job_env \<Rightarrow> mem_env" where
  "base_env e \<equiv> mem_env.truncate e"

definition lease_mjob :: "job_env \<Rightarrow> pystr \<Rightarrow> pystr \<Rightarrow> real \<Rightarrow> mjob_row \<Rightarrow> mjob_row" where
  "lease_mjob e w started seconds r = r\<lparr>mj_status := ''processing'', mj_attempts := mj_attempts r + 1,
     mj_token := Some w, mj_pid := Some (je_pid e), mj_started := Some started, mj_host := Some (je_host e),
     mj_heartbeat := Some (me_time e), mj_until := Some (me_time e + seconds)\<rparr>"

definition set_mjob :: "nat \<Rightarrow> (mjob_row \<Rightarrow> bool) \<Rightarrow> (mjob_row \<Rightarrow> mjob_row) \<Rightarrow> memory_db \<Rightarrow> memory_db" where
  "set_mjob i c f db = db\<lparr>mjobs := update_key i c f (mjobs db)\<rparr>"

definition claim_mjob :: "job_env \<Rightarrow> nat \<Rightarrow> pystr \<Rightarrow> memory_db \<Rightarrow> bool result \<times> memory_db" where
  "claim_mjob e i w db = txn db (bind_result (lease_seconds (je_lease e)) (\<lambda>seconds.
     case je_proc e (je_pid e) of
       Born started \<Rightarrow> Inr (row_where i (mjob_due (base_env e)) (mjobs db),
         set_mjob i (mjob_due (base_env e)) (lease_mjob e w started seconds) db)
     | _ \<Rightarrow> Inl (PyRuntimeError ''Cannot establish memory worker process identity'')))"

definition renew_mjob :: "job_env \<Rightarrow> nat \<Rightarrow> pystr \<Rightarrow> memory_db \<Rightarrow> bool result \<times> memory_db" where
  "renew_mjob e i w db = txn db (bind_result (lease_seconds (je_lease e)) (\<lambda>seconds.
     Inr (row_where i (leased_to (base_env e) w) (mjobs db),
       set_mjob i (leased_to (base_env e) w) (\<lambda>r. r\<lparr>mj_heartbeat := Some (me_time e),
         mj_until := Some (me_time e + seconds)\<rparr>) db)))"

definition unleased :: "mjob_row \<Rightarrow> mjob_row" where
  "unleased r = r\<lparr>mj_token := None, mj_pid := None, mj_started := None, mj_host := None, mj_heartbeat := None,
     mj_until := None\<rparr>"

definition finish_mjob :: "job_env \<Rightarrow> nat \<Rightarrow> pystr option \<Rightarrow> pystr \<Rightarrow> pystr option \<Rightarrow> pystr option \<Rightarrow> memory_db \<Rightarrow>
    unit result \<times> memory_db" where
  "finish_mjob e i tok st err next_at db = txn db
     (let c = (\<lambda>r. case tok of None \<Rightarrow> False | Some w \<Rightarrow> leased_to (base_env e) w r) in
      if row_where i c (mjobs db)
      then Inr ((), set_mjob i c (\<lambda>r. unleased (r\<lparr>mj_status := st, mj_error := err, mj_next := next_at\<rparr>)) db)
      else Inl (LeaseLost ''Memory job lease expired or ownership changed''))"

definition failed_mjob :: "pystr \<Rightarrow> mjob_row \<Rightarrow> mjob_row" where
  "failed_mjob reason r = unleased (r\<lparr>mj_status := ''failed'', mj_error := Some reason, mj_next := None\<rparr>)"

definition release_mjob :: "nat \<Rightarrow> pystr \<Rightarrow> memory_db \<Rightarrow> memory_db" where
  "release_mjob i w db = set_mjob i (\<lambda>r. mj_status r = ''processing'' \<and> mj_token r = Some w)
     (failed_mjob ''Worker returned without a valid completion; partial memory work retained'') db"

section \<open>The worker's side\<close>

text \<open>The tokens a worker thread holds (\<open>store._job_leases.tokens\<close>).\<close>

type_synonym held_tokens = "(nat, pystr) table"

definition drop_token :: "nat \<Rightarrow> pystr option \<Rightarrow> held_tokens \<Rightarrow> held_tokens" where
  "drop_token i tok held = (if map_of held i = tok then AList.delete i held else held)"

definition claim_memory_job :: "job_env \<Rightarrow> pystr \<Rightarrow> nat \<Rightarrow> held_tokens \<times> memory_db \<Rightarrow> bool result \<times> held_tokens \<times> memory_db" where
  "claim_memory_job e w i s = (case s of (held, db) \<Rightarrow> (case claim_mjob e i w db of
     (Inr True, db') \<Rightarrow> (Inr True, AList.update i w held, db')
   | (r, db') \<Rightarrow> (r, held, db')))"

definition end_memory_job :: "job_env \<Rightarrow> nat \<Rightarrow> pystr \<Rightarrow> pystr option \<Rightarrow> pystr option \<Rightarrow> held_tokens \<times> memory_db \<Rightarrow>
    unit result \<times> held_tokens \<times> memory_db" where
  "end_memory_job e i st err next_at s = (case s of (held, db) \<Rightarrow>
     (case finish_mjob e i (map_of held i) st err next_at db of
        (Inl x, db') \<Rightarrow> (Inl x, held, db')
      | (Inr u, db') \<Rightarrow> (Inr u, drop_token i (map_of held i) held, db')))"

definition complete_memory_job :: "job_env \<Rightarrow> nat \<Rightarrow> held_tokens \<times> memory_db \<Rightarrow> unit result \<times> held_tokens \<times> memory_db" where
  "complete_memory_job e i s = end_memory_job e i ''completed'' None None s"

definition defer_memory_job :: "job_env \<Rightarrow> nat \<Rightarrow> real \<Rightarrow> pystr option \<Rightarrow> held_tokens \<times> memory_db \<Rightarrow>
    unit result \<times> held_tokens \<times> memory_db" where
  "defer_memory_job e i seconds err s = end_memory_job e i ''pending'' err (Some (je_after e (max 0 seconds))) s"

definition fail_memory_job :: "job_env \<Rightarrow> nat \<Rightarrow> pystr option \<Rightarrow> held_tokens \<times> memory_db \<Rightarrow> unit result \<times> held_tokens \<times> memory_db" where
  "fail_memory_job e i err s = end_memory_job e i ''failed'' err None s"

definition release_after_execution :: "nat \<Rightarrow> pystr \<Rightarrow> held_tokens \<times> memory_db \<Rightarrow> held_tokens \<times> memory_db" where
  "release_after_execution i w s = (case s of (held, db) \<Rightarrow> (drop_token i (Some w) held, release_mjob i w db))"

section \<open>Inspection and recovery\<close>

record job_report =
  jr_owner :: "owner_status option"
  jr_expired :: bool
  jr_retryable :: bool
  jr_recovery :: bool

definition lease_expired :: "time \<Rightarrow> mjob_row \<Rightarrow> bool" where
  "lease_expired t r \<longleftrightarrow> (case mj_until r of None \<Rightarrow> 0 | Some u \<Rightarrow> u) \<le> t"

definition unowned :: "mjob_row \<Rightarrow> bool" where
  "unowned r \<longleftrightarrow> mj_token r = None \<or> mj_token r = Some []"

text \<open>\<open>inspect_jobs\<close>; \<open>None\<close> is the state \<open>legacy_unowned\<close>.\<close>

definition inspect_jobs :: "job_env \<Rightarrow> memory_db \<Rightarrow> (nat \<times> mjob_row \<times> job_report) list" where
  "inspect_jobs e db = map (\<lambda>(i, r).
     let st = (if unowned r then None else Some (owner_state (je_host e) (je_proc e) r))
     in (i, r, \<lparr>jr_owner = st, jr_expired = lease_expired (me_time e) r, jr_retryable = (st = Some OwnerRunning),
          jr_recovery = (unowned r \<or> st = Some OwnerStopped \<or> st = Some OwnerUnknown)\<rparr>))
     (select_where (\<lambda>_ r. mj_status r = ''processing'') (mjobs db))"

definition eligible :: "job_env \<Rightarrow> bool \<Rightarrow> (int \<Rightarrow> proc) \<Rightarrow> mjob_row \<Rightarrow> bool" where
  "eligible e legacy processes r \<longleftrightarrow> (if unowned r then legacy
     else lease_expired (me_time e) r \<and> owner_state (je_host e) processes r = OwnerStopped)"

definition recovery_reason :: pystr where
  "recovery_reason = ''Owner confirmed stopped; partial memory work retained, automatic replay disabled''"

definition recover_one :: "nat \<times> mjob_row \<Rightarrow> memory_db \<Rightarrow> memory_db" where
  "recover_one kr db = (case kr of (i, r) \<Rightarrow>
     (set_mjob i (\<lambda>r. mj_status r = ''processing'') (failed_mjob recovery_reason) db)
       \<lparr>recoveries := recoveries db @ [(i, mj_token r)]\<rparr>)"

text \<open>
  \<open>recover\<close>: the candidates are checked again after the backup, when processes may have changed
  to \<open>again\<close>.  \<open>legacy_ok\<close> is the offline check (made before the transaction and again after the
  backup), \<open>backup_ok\<close> the verified backup.
\<close>

definition recover :: "job_env \<Rightarrow> bool \<Rightarrow> unit result \<Rightarrow> unit result \<Rightarrow> bool \<Rightarrow> (int \<Rightarrow> proc) \<Rightarrow> memory_db \<Rightarrow>
    nat list result \<times> memory_db" where
  "recover e legacy legacy_ok legacy_again backup_ok again db = txn db
     (bind_result (if legacy then legacy_ok else Inr ()) (\<lambda>_.
      let candidates = filter (\<lambda>(i, r). eligible e legacy (je_proc e) r)
            (select_where (\<lambda>_ r. mj_status r = ''processing'') (mjobs db))
      in if candidates = [] then Inr ([], db)
         else if \<not> backup_ok then Inl (PyRuntimeError ''Memory recovery backup verification failed'')
         else bind_result (if legacy then legacy_again else Inr ()) (\<lambda>_.
           let rs = filter (\<lambda>(i, r). eligible e legacy again r) candidates
           in Inr (map fst rs, fold recover_one rs db))))"

section \<open>Provider cool-down\<close>

record cooldown =
  cd_available :: time
  cd_failures :: nat

definition wait_if_needed :: "time \<Rightarrow> cooldown \<Rightarrow> real" where
  "wait_if_needed t c = max 0 (cd_available c - t)"

definition record_success :: "cooldown \<Rightarrow> cooldown" where
  "record_success c = c\<lparr>cd_failures := 0\<rparr>"

definition record_rate_limit :: "time \<Rightarrow> real \<Rightarrow> cooldown \<Rightarrow> real \<times> cooldown" where
  "record_rate_limit t retry_after c =
     (let n = cd_failures c + 1; delay = max retry_after (2 ^ (n - 1))
      in (delay, c\<lparr>cd_failures := n, cd_available := t + delay\<rparr>))"

definition load_cooldown :: "pystr \<Rightarrow> memory_db \<Rightarrow> cooldown \<Rightarrow> cooldown" where
  "load_cooldown name db c = (case provider_cooldown_state name db of (t, n, _) \<Rightarrow>
     c\<lparr>cd_available := max t (cd_available c), cd_failures := max (nat n) (cd_failures c)\<rparr>)"

definition save_cooldown :: "mem_env \<Rightarrow> pystr \<Rightarrow> cooldown \<Rightarrow> memory_db \<Rightarrow> memory_db" where
  "save_cooldown e name c db = save_provider_cooldown_state e name (cd_available c) (int (cd_failures c)) db"

section \<open>One embedding job\<close>

text \<open>What the embedding provider does: it answers, asks to wait, or fails.\<close>

datatype embedding_answer = Embedded pystr | RateLimited real pystr | ProviderError pystr

definition embed_outcome :: "job_env \<Rightarrow> pystr \<Rightarrow> nat \<Rightarrow> nat \<Rightarrow> embedding_answer \<Rightarrow> cooldown \<Rightarrow> held_tokens \<times> memory_db \<Rightarrow>
    cooldown \<times> held_tokens \<times> memory_db" where
  "embed_outcome e name i m answer c s = (case answer of
     Embedded v \<Rightarrow>
       (let c' = record_success c; db1 = update_semantic_embedding (base_env e) m v (snd s)
        in (c', snd (complete_memory_job e i (fst s, save_cooldown (base_env e) name c' db1))))
   | RateLimited wait msg \<Rightarrow>
       (case record_rate_limit (me_time e) wait c of (delay, c') \<Rightarrow>
          (c', snd (defer_memory_job e i delay (Some msg) (fst s, save_cooldown (base_env e) name c' (snd s)))))
   | ProviderError msg \<Rightarrow> (c, snd (fail_memory_job e i (Some msg) s)))"

text \<open>
  \<open>_process_embedding_item\<close> for a job claimed by the execution scope; a memory archived meanwhile
  needs no embedding; without a provider (\<open>answer\<close> absent) the job fails.
\<close>

definition process_embedding :: "job_env \<Rightarrow> pystr \<Rightarrow> nat \<Rightarrow> nat \<Rightarrow> embedding_answer option \<Rightarrow> cooldown \<Rightarrow>
    held_tokens \<times> memory_db \<Rightarrow> cooldown \<times> held_tokens \<times> memory_db" where
  "process_embedding e name i m answer c0 s =
     (let c = load_cooldown name (snd s) c0 in
      if map_of (fst s) i = None then (c, s)
      else case semantic_memory m (snd s) of
        None \<Rightarrow> (c, snd (complete_memory_job e i s))
      | Some r \<Rightarrow> if sm_archived r \<noteq> None \<or> sm_superseded r \<noteq> None then (c, snd (complete_memory_job e i s))
          else (case answer of
            None \<Rightarrow> (c, snd (fail_memory_job e i (Some ''embedding provider unavailable'') s))
          | Some a \<Rightarrow> embed_outcome e name i m a c s))"

end
