(* ===== verification/Memory_Job_Properties.thy ===== *)
theory Memory_Job_Properties
  imports Memory_Jobs
begin

text \<open>
  Properties of the memory jobs: leases are fenced; a finished or recovered job is closed for good;
  the cool-down of a provider grows with every rate limit.
\<close>

section \<open>Histories of the job queue\<close>

datatype mjob_op =
    JAdd pystr "nat option" json
  | JClaim nat pystr
  | JRenew nat pystr
  | JFinish nat "pystr option" pystr "pystr option" "pystr option"
  | JRelease nat pystr
  | JRecover bool "unit result" "unit result" bool "int \<Rightarrow> proc"

fun mjob_exec :: "job_env \<Rightarrow> mjob_op \<Rightarrow> memory_db \<Rightarrow> memory_db" where
  "mjob_exec e (JAdd ty ep payload) db = snd (add_memory_job ty ep payload db)"
| "mjob_exec e (JClaim i w) db = snd (claim_mjob e i w db)"
| "mjob_exec e (JRenew i w) db = snd (renew_mjob e i w db)"
| "mjob_exec e (JFinish i tok st err next_at) db = snd (finish_mjob e i tok st err next_at db)"
| "mjob_exec e (JRelease i w) db = release_mjob i w db"
| "mjob_exec e (JRecover legacy ok ok' b again) db = snd (recover e legacy ok ok' b again db)"

definition at_time :: "time \<Rightarrow> job_env \<Rightarrow> job_env" where
  "at_time t e = e\<lparr>me_time := t\<rparr>"

lemma at_time_time [simp]: "me_time (at_time t e) = t" "me_time (base_env (at_time t e)) = t"
  by (simp_all add: at_time_def mem_env.truncate_def)

definition mjob_step :: "time \<Rightarrow> job_env \<times> mjob_op \<Rightarrow> memory_db \<Rightarrow> memory_db" where
  "mjob_step t x db = mjob_exec (at_time t (fst x)) (snd x) db"

definition row_leased :: "time \<Rightarrow> pystr \<Rightarrow> mjob_row \<Rightarrow> bool" where
  "row_leased t w r \<longleftrightarrow> mj_status r = ''processing'' \<and> mj_token r = Some w
     \<and> (case mj_until r of None \<Rightarrow> False | Some u \<Rightarrow> u > t)"

lemma leased_row: "leased_to e w r = row_leased (me_time e) w r"
  by (simp add: leased_to_def row_leased_def)

text \<open>What one operation may do to one existing job.\<close>

inductive mjob_change :: "time \<Rightarrow> mjob_op \<Rightarrow> nat \<Rightarrow> mjob_row \<Rightarrow> mjob_row \<Rightarrow> bool" for t where
  mc_same: "mjob_change t x i r r"
| mc_claim: "mj_status r = ''pending'' \<Longrightarrow> mjob_change t (JClaim i w) i r (lease_mjob e w started seconds r)"
| mc_renew: "row_leased t w r \<Longrightarrow>
    mjob_change t (JRenew i w) i r (r\<lparr>mj_heartbeat := Some h, mj_until := Some u\<rparr>)"
| mc_finish: "row_leased t w r \<Longrightarrow>
    mjob_change t (JFinish i (Some w) st err n) i r (unleased (r\<lparr>mj_status := st, mj_error := err, mj_next := n\<rparr>))"
| mc_fail: "mj_status r = ''processing'' \<Longrightarrow> mjob_change t x i r (failed_mjob reason r)"

inductive_cases mjob_change_cases: "mjob_change t x i r r'"

lemma recover_one_rows: "map_of (mjobs (recover_one kr db)) k =
    (if k = fst kr then map_option (\<lambda>r. if mj_status r = ''processing'' then failed_mjob recovery_reason r else r)
       (map_of (mjobs db) k) else map_of (mjobs db) k)"
  by (cases kr) (simp add: recover_one_def set_mjob_def update_key_lookup)

lemma failed_not_processing [simp]: "mj_status (failed_mjob reason r) = ''failed''"
  by (simp add: failed_mjob_def unleased_def)

lemma recover_fold_rows: "map_of (mjobs (fold recover_one rs db)) k =
    (if k \<in> fst ` set rs then map_option (\<lambda>r. if mj_status r = ''processing'' then failed_mjob recovery_reason r else r)
       (map_of (mjobs db) k) else map_of (mjobs db) k)"
  by (induction rs arbitrary: db) (auto simp: recover_one_rows option.map_comp comp_def map_option_case split: option.splits)

lemma recover_exact:
  assumes "recover e legacy ok ok' b again db = (Inr ids, db')"
  obtains rs where "ids = map fst rs" "db' = fold recover_one rs db"
    "\<And>i r. (i, r) \<in> set rs \<longleftrightarrow> (i, r) \<in> set (mjobs db) \<and> mj_status r = ''processing''
       \<and> eligible e legacy (je_proc e) r \<and> eligible e legacy again r"
    "ids \<noteq> [] \<Longrightarrow> b \<and> (legacy \<longrightarrow> ok = Inr () \<and> ok' = Inr ())"
proof -
  define c where "c = filter (\<lambda>(i, r). eligible e legacy (je_proc e) r) (select_where (\<lambda>_ r. mj_status r = ''processing'') (mjobs db))"
  define rs where "rs = filter (\<lambda>(i, r). eligible e legacy again r) c"
  have "(c = [] \<and> ids = [] \<and> db' = db) \<or> (ids = map fst rs \<and> db' = fold recover_one rs db \<and> b \<and> (legacy \<longrightarrow> ok = Inr () \<and> ok' = Inr ()))"
    using assms unfolding recover_def Let_def c_def [symmetric] rs_def [symmetric] by (auto simp: txn_Inr split: if_splits)
  moreover have "c = [] \<Longrightarrow> rs = []" by (simp add: rs_def)
  ultimately have "ids = map fst rs" "db' = fold recover_one rs db" "ids \<noteq> [] \<Longrightarrow> b \<and> (legacy \<longrightarrow> ok = Inr () \<and> ok' = Inr ())"
    by auto
  moreover have "(i, r) \<in> set rs \<longleftrightarrow> (i, r) \<in> set (mjobs db) \<and> mj_status r = ''processing''
       \<and> eligible e legacy (je_proc e) r \<and> eligible e legacy again r" for i r by (auto simp: rs_def c_def select_where_def)
  ultimately show thesis by (intro that)
qed

lemma set_mjob_change:
  assumes "map_of (mjobs db) k = Some r" and "k = i \<Longrightarrow> c r \<Longrightarrow> mjob_change t x k r (f r)"
  shows "\<exists>r'. map_of (mjobs (set_mjob i c f db)) k = Some r' \<and> mjob_change t x k r r'"
  using assms by (cases "k = i \<and> c r") (auto simp: set_mjob_def update_key_lookup intro: mc_same)

lemma claim_mjob_rows:
  obtains "snd (claim_mjob e i w db) = db"
  | started seconds where "snd (claim_mjob e i w db) = set_mjob i (mjob_due (base_env e)) (lease_mjob e w started seconds) db"
  by (cases "je_proc e (je_pid e)"; cases "lease_seconds (je_lease e)") (auto simp: claim_mjob_def)

lemma mjob_change_step:
  assumes r: "map_of (mjobs db) k = Some r"
  shows "\<exists>r'. map_of (mjobs (mjob_step t x db)) k = Some r' \<and> mjob_change t (snd x) k r r'"
proof -
  let ?e = "at_time t (fst x)"
  have same: "\<exists>r'. map_of (mjobs db) k = Some r' \<and> mjob_change t (snd x) k r r'" using r by (blast intro: mc_same)
  show ?thesis
  proof (cases "snd x")
    case (JAdd ty ep payload)
    with r show ?thesis
      by (auto simp: mjob_step_def add_memory_job_def add_row_keeps intro: mc_same)
  next
    case (JClaim i w)
    have "\<exists>r'. map_of (mjobs (snd (claim_mjob ?e i w db))) k = Some r' \<and> mjob_change t (snd x) k r r'"
      by (rule claim_mjob_rows [of ?e i w db])
        (use same in \<open>auto simp: JClaim mjob_due_def intro!: set_mjob_change [OF r] mc_claim\<close>)
    with JClaim show ?thesis by (simp add: mjob_step_def)
  next
    case (JRenew i w)
    have "\<exists>r'. map_of (mjobs (snd (renew_mjob ?e i w db))) k = Some r' \<and> mjob_change t (snd x) k r r'"
      unfolding renew_mjob_def
      by (rule txn_preserves, rule same) (auto simp: JRenew leased_row intro!: set_mjob_change [OF r] mc_renew)
    with JRenew show ?thesis by (simp add: mjob_step_def)
  next
    case (JFinish i tok st err n)
    have "\<exists>r'. map_of (mjobs (snd (finish_mjob ?e i tok st err n db))) k = Some r' \<and> mjob_change t (snd x) k r r'"
      unfolding finish_mjob_def
      by (rule txn_preserves, rule same) (auto simp: JFinish leased_row Let_def split: if_splits option.splits
          intro!: set_mjob_change [OF r] mc_finish)
    with JFinish show ?thesis by (simp add: mjob_step_def)
  next
    case (JRelease i w)
    then show ?thesis
      by (auto simp: mjob_step_def release_mjob_def intro!: set_mjob_change [OF r] mc_fail)
  next
    case (JRecover legacy ok ok' b again)
    show ?thesis
    proof (cases "recover ?e legacy ok ok' b again db")
      case (Pair res db')
      have "\<exists>r'. map_of (mjobs db') k = Some r' \<and> mjob_change t (snd x) k r r'"
      proof (cases res)
        case (Inl y)
        with Pair same show ?thesis by (simp add: recover_def txn_Inl)
      next
        case (Inr ids)
        with Pair have "recover ?e legacy ok ok' b again db = (Inr ids, db')" by simp
        then obtain rs where "db' = fold recover_one rs db" by (rule recover_exact)
        with r show ?thesis by (auto simp: recover_fold_rows intro: mc_same mc_fail)
      qed
      with Pair JRecover show ?thesis by (simp add: mjob_step_def)
    qed
  qed
qed

lemma mjob_new_row:
  assumes "map_of (mjobs db) k = None" and "map_of (mjobs (mjob_step t x db)) k = Some r"
  shows "mj_status r = ''pending''"
proof (cases "snd x")
  case (JAdd ty ep payload)
  with assms show ?thesis
    by (auto simp: mjob_step_def add_memory_job_def add_row_def map_add_def new_mjob_def split: if_splits)
next
  case (JClaim i w)
  have "map_of (mjobs (snd (claim_mjob (at_time t (fst x)) i w db))) k = None"
    by (rule claim_mjob_rows [of "at_time t (fst x)" i w db])
      (use assms(1) in \<open>auto simp: set_mjob_def update_key_lookup\<close>)
  with assms JClaim show ?thesis by (simp add: mjob_step_def)
next
  case (JRenew i w)
  have "map_of (mjobs (snd (renew_mjob (at_time t (fst x)) i w db))) k = None"
    unfolding renew_mjob_def
    by (rule txn_preserves) (use assms(1) in \<open>auto simp: set_mjob_def update_key_lookup\<close>)
  with assms JRenew show ?thesis by (simp add: mjob_step_def)
next
  case (JFinish i tok st err n)
  have "map_of (mjobs (snd (finish_mjob (at_time t (fst x)) i tok st err n db))) k = None"
    unfolding finish_mjob_def
    by (rule txn_preserves) (use assms(1) in \<open>auto simp: set_mjob_def update_key_lookup Let_def split: if_splits\<close>)
  with assms JFinish show ?thesis by (simp add: mjob_step_def)
next
  case (JRelease i w)
  with assms show ?thesis
    by (cases "k = i") (auto simp: mjob_step_def release_mjob_def set_mjob_def update_key_lookup)
next
  case (JRecover legacy ok ok' b again)
  let ?R = "recover (at_time t (fst x)) legacy ok ok' b again db"
  show ?thesis
  proof (cases ?R)
    case (Pair res db')
    have "map_of (mjobs db') k = None"
    proof (cases res)
      case (Inl y)
      with Pair assms(1) show ?thesis by (simp add: recover_def txn_Inl)
    next
      case (Inr ids)
      with Pair have "?R = (Inr ids, db')" by simp
      then obtain rs where "db' = fold recover_one rs db" by (rule recover_exact)
      with assms(1) show ?thesis by (simp add: recover_fold_rows)
    qed
    with Pair JRecover assms(2) show ?thesis by (simp add: mjob_step_def)
  qed
qed

section \<open>The lease contract\<close>

definition mjob_holds :: "memory_db \<Rightarrow> time \<Rightarrow> nat \<Rightarrow> pystr \<Rightarrow> bool" where
  "mjob_holds db t i w \<longleftrightarrow> row_where i (row_leased t w) (mjobs db)"

fun mjob_acquires :: "job_env \<times> mjob_op \<Rightarrow> nat \<Rightarrow> pystr \<Rightarrow> bool" where
  "mjob_acquires (e, JClaim i w) i' w' \<longleftrightarrow> i' = i \<and> w' = w"
| "mjob_acquires _ _ _ \<longleftrightarrow> False"

fun mjob_under :: "job_env \<times> mjob_op \<Rightarrow> nat \<Rightarrow> pystr \<Rightarrow> bool" where
  "mjob_under (e, JRenew i w) i' w' \<longleftrightarrow> i' = i \<and> w' = w"
| "mjob_under (e, JFinish i tok st err n) i' w' \<longleftrightarrow> i' = i \<and> tok = Some w'"
| "mjob_under _ _ _ \<longleftrightarrow> False"

lemma unleased_fields [simp]: "mj_token (unleased r) = None" "mj_status (unleased r) = mj_status r"
  by (simp_all add: unleased_def)

lemma failed_not_leased [simp]: "\<not> row_leased t w (failed_mjob reason r)" "\<not> row_leased t w (unleased r)"
  by (simp_all add: row_leased_def failed_mjob_def)

lemma fenced_mjob_effect:
  assumes "mjob_under x i w" and "\<not> mjob_holds db t i w"
  shows "mjob_step t x db = db"
proof -
  obtain e op where x: "x = (e, op)" by (cases x)
  from assms(2) have no: "\<not> row_where i (row_leased t w) (mjobs db)" by (simp add: mjob_holds_def)
  then have noe: "\<not> row_where i (leased_to (base_env (at_time t e)) w) (mjobs db)"
    by (simp add: row_where_iff leased_row)
  show ?thesis
  proof (cases op)
    case (JRenew j v)
    with assms(1) x have "j = i" "v = w" by auto
    have "snd (renew_mjob (at_time t e) i w db) = db"
      unfolding renew_mjob_def
      by (rule txn_preserves) (use noe in \<open>auto simp: set_mjob_def update_key_no_match\<close>)
    with JRenew x \<open>j = i\<close> \<open>v = w\<close> show ?thesis by (simp add: mjob_step_def)
  next
    case (JFinish j tok st err n)
    with assms(1) x have "j = i" "tok = Some w" by auto
    with JFinish x noe show ?thesis by (simp add: mjob_step_def finish_mjob_def Let_def)
  qed (use assms(1) x in auto)
qed

interpretation mjob_leases: fenced_store mjob_holds mjob_step mjob_acquires mjob_under
proof unfold_locales
  fix t :: time and x :: "job_env \<times> mjob_op" and db i w
  assume h: "mjob_holds (mjob_step t x db) t i w" and na: "\<not> mjob_acquires x i w"
  then obtain r' where r': "map_of (mjobs (mjob_step t x db)) i = Some r'" "row_leased t w r'"
    by (auto simp: mjob_holds_def row_where_iff)
  show "mjob_holds db t i w"
  proof (cases "map_of (mjobs db) i")
    case None
    from mjob_new_row [OF None r'(1)] r'(2) show ?thesis by (simp add: row_leased_def)
  next
    case (Some r)
    from mjob_change_step [OF Some, of t x] r'(1) have "mjob_change t (snd x) i r r'" by auto
    then have "row_leased t w r"
      using r'(2) na by (cases x) (auto elim!: mjob_change_cases simp: row_leased_def lease_mjob_def)
    with Some show ?thesis by (simp add: mjob_holds_def row_where_iff)
  qed
next
  fix db and u t :: time and i w
  assume "mjob_holds db u i w" "t \<le> u"
  then show "mjob_holds db t i w" by (auto simp: mjob_holds_def row_where_iff row_leased_def split: option.splits)
next
  fix db and t :: time and i w w'
  assume "mjob_holds db t i w" "mjob_holds db t i w'"
  then show "w = w'" by (auto simp: mjob_holds_def row_where_iff row_leased_def)
next
  fix t :: time and db i w w' and x :: "job_env \<times> mjob_op"
  assume h: "mjob_holds db t i w" and a: "mjob_acquires x i w'" and ne: "w' \<noteq> w"
  then obtain r where r: "map_of (mjobs db) i = Some r" "row_leased t w r"
    by (auto simp: mjob_holds_def row_where_iff)
  from mjob_change_step [OF r(1), of t x] obtain r' where r': "map_of (mjobs (mjob_step t x db)) i = Some r'"
    "mjob_change t (snd x) i r r'" by blast
  from r'(2) r(2) a ne have "\<not> row_leased t w' r'"
    by (cases x; cases "snd x") (auto elim!: mjob_change_cases simp: row_leased_def)
  with r' show "\<not> mjob_holds (mjob_step t x db) t i w'" by (simp add: mjob_holds_def row_where_iff)
next
  fix t :: time and x i w db
  assume "mjob_under x i w" "\<not> mjob_holds db t i w"
  then show "mjob_step t x db = db" by (rule fenced_mjob_effect)
next
  fix x i w i' w'
  assume "mjob_under x i w"
  then show "\<not> mjob_acquires x i' w'" by (cases x; cases "snd x") auto
qed

section \<open>Closed jobs\<close>

definition closed_job :: "nat \<Rightarrow> memory_db \<Rightarrow> bool" where
  "closed_job i db \<longleftrightarrow> row_where i (\<lambda>r. mj_status r \<noteq> ''pending'' \<and> mj_status r \<noteq> ''processing'') (mjobs db)"

lemma closed_job_step:
  assumes "closed_job i db"
  shows "closed_job i (mjob_step t x db)"
proof -
  from assms obtain r where r: "map_of (mjobs db) i = Some r" "mj_status r \<noteq> ''pending''" "mj_status r \<noteq> ''processing''"
    by (auto simp: closed_job_def row_where_iff)
  from mjob_change_step [OF r(1), of t x] obtain r' where "map_of (mjobs (mjob_step t x db)) i = Some r'"
    "mjob_change t (snd x) i r r'" by blast
  with r show ?thesis
    by (auto simp: closed_job_def row_where_iff row_leased_def elim!: mjob_change_cases)
qed

lemma closed_job_claim: "closed_job i db \<Longrightarrow> fst (claim_mjob e i w db) \<noteq> Inr True"
  by (cases "je_proc e (je_pid e)"; cases "lease_seconds (je_lease e)")
    (auto simp: claim_mjob_def closed_job_def row_where_iff mjob_due_def)

section \<open>The properties\<close>

text \<open>
  A memory worker that lost its lease (expiry, takeover or recovery) is fenced: whatever renewals
  and completions it still attempts can be deleted from any later history of the job queue
  without changing the queue.
\<close>

theorem lost_memory_worker_is_harmless:
  assumes "0 \<le> t" and "\<not> row_where i (row_leased t w) (mjobs db)" and "clocked t tr"
    and "\<forall>(u, a) \<in> set tr. \<not> mjob_acquires a i w"
  shows "run_ops mjob_step tr db = run_ops mjob_step (filter (\<lambda>(u, a). \<not> mjob_under a i w) tr) db"
  using mjob_leases.stale_worker_harmless [of t db i w tr] assms by (simp add: mjob_holds_def)

definition demo_mem_env :: mem_env where
  "demo_mem_env = \<lparr>me_stamp = ''2024-01-02 00:00:00'', me_time = 50, me_fold = (\<lambda>s. s), me_digit = (\<lambda>s. False),
     me_scrub = (\<lambda>s. s)\<rparr>"

definition demo_job_env :: job_env where
  "demo_job_env = mem_env.extend demo_mem_env \<lparr>je_pid = 7, je_host = ''host'', je_proc = (\<lambda>p. if p = 7 then Born ''b7'' else Gone),
     je_lease = Some 120, je_after = (\<lambda>s. ''2024-01-02 00:00:30'')\<rparr>"

definition empty_memory :: memory_db where
  "empty_memory = \<lparr>episodes = [], events = [], memories = [], entities = [], aliases = [], procedures = [],
     mjobs = [], recoveries = [], providers = [], episode_finals = []\<rparr>"

definition demo_crashed :: memory_db where
  "demo_crashed = empty_memory\<lparr>mjobs := [(1, (new_mjob ''memory_review'' (Some 3) (JObj []))\<lparr>mj_status := ''processing'',
     mj_token := Some ''old'', mj_pid := Some 5, mj_started := Some ''b5'', mj_host := Some ''host'',
     mj_heartbeat := Some 10, mj_until := Some 40\<rparr>)]\<rparr>"

lemmas demo_job_defs = demo_mem_env_def demo_job_env_def mem_env.defs empty_memory_def demo_crashed_def new_mjob_def

lemma lost_memory_worker_is_harmless_witness:
  "run_ops mjob_step [(60, demo_job_env, JRenew 1 ''old''), (61, demo_job_env, JFinish 1 (Some ''old'') ''completed'' None None)]
     demo_crashed = demo_crashed"
  by (subst lost_memory_worker_is_harmless [where t = 55 and i = 1 and w = "''old''"])
    (simp_all add: demo_job_defs row_where_def row_leased_def)

text \<open>
  C32: Crash recovery closes exactly the jobs whose owner is gone, and never replays work.  \<open>recover\<close> closes a job if and
  only if it was processing and either is owned, its lease expired and its owner process was found stopped both
  before and after the backup, or has no owner and the legacy flag is set; a job is closed only after a verified backup
  (and, with the flag, after both offline checks).  A closed job is failed and its recovery recorded with its token,
  every other job is untouched, and no later history of the queue lets a worker claim a recovered job.
\<close>

theorem recovery_never_replays:
  assumes "recover e legacy legacy_ok legacy_again backup_ok again db = (Inr ids, db')" and "unique_keys (mjobs db)"
  shows "(\<forall>i. i \<in> set ids \<longleftrightarrow> (\<exists>r. map_of (mjobs db) i = Some r \<and> mj_status r = ''processing''
        \<and> (if mj_token r \<in> {None, Some []} then legacy
           else lease_expired (me_time e) r \<and> owner_state (je_host e) (je_proc e) r = OwnerStopped
             \<and> owner_state (je_host e) again r = OwnerStopped)))
    \<and> (\<forall>i. map_of (mjobs db') i = (if i \<in> set ids then map_option (failed_mjob recovery_reason) (map_of (mjobs db) i)
        else map_of (mjobs db) i))
    \<and> (\<forall>i tok. (i, tok) \<in> set (recoveries db') \<longleftrightarrow> (i, tok) \<in> set (recoveries db)
        \<or> (i \<in> set ids \<and> Some tok = map_option mj_token (map_of (mjobs db) i)))
    \<and> (ids \<noteq> [] \<longrightarrow> backup_ok \<and> (legacy \<longrightarrow> legacy_ok = Inr () \<and> legacy_again = Inr ()))
    \<and> (\<forall>i \<in> set ids. fst (claim_mjob e' i w (run_ops mjob_step tr db')) \<noteq> Inr True)"
proof -
  from recover_exact [OF assms(1)] obtain rs where ids: "ids = map fst rs" and db': "db' = fold recover_one rs db"
    and rs: "\<And>i r. (i, r) \<in> set rs \<longleftrightarrow> (i, r) \<in> set (mjobs db) \<and> mj_status r = ''processing''
       \<and> eligible e legacy (je_proc e) r \<and> eligible e legacy again r"
    and sure: "ids \<noteq> [] \<Longrightarrow> backup_ok \<and> (legacy \<longrightarrow> legacy_ok = Inr () \<and> legacy_again = Inr ())" by metis
  have row: "(i, r) \<in> set (mjobs db) \<longleftrightarrow> map_of (mjobs db) i = Some r" for i r
    using assms(2) by (simp add: unique_keys_def)
  have closed: "i \<in> set ids \<longleftrightarrow> (\<exists>r. map_of (mjobs db) i = Some r \<and> mj_status r = ''processing''
      \<and> eligible e legacy (je_proc e) r \<and> eligible e legacy again r)" for i
  proof -
    have "i \<in> set ids \<longleftrightarrow> (\<exists>r. (i, r) \<in> set rs)" by (force simp: ids)
    then show ?thesis by (simp add: rs row)
  qed
  have exact: "i \<in> set ids \<longleftrightarrow> (\<exists>r. map_of (mjobs db) i = Some r \<and> mj_status r = ''processing''
        \<and> (if mj_token r \<in> {None, Some []} then legacy
           else lease_expired (me_time e) r \<and> owner_state (je_host e) (je_proc e) r = OwnerStopped
             \<and> owner_state (je_host e) again r = OwnerStopped))" for i
    unfolding closed eligible_def unowned_def by (intro ex_cong1) auto
  have after: "map_of (mjobs db') i = (if i \<in> set ids then map_option (failed_mjob recovery_reason) (map_of (mjobs db) i)
        else map_of (mjobs db) i)" for i
    using closed [of i] by (auto simp: db' recover_fold_rows ids)
  have rec: "set (recoveries (fold recover_one xs d)) = set (recoveries d) \<union> (\<lambda>(i, r). (i, mj_token r)) ` set xs" for xs d
    by (induction xs arbitrary: d) (auto simp: recover_one_def split: prod.splits)
  have recorded: "(i, tok) \<in> set (recoveries db') \<longleftrightarrow> (i, tok) \<in> set (recoveries db)
        \<or> (i \<in> set ids \<and> Some tok = map_option mj_token (map_of (mjobs db) i))" for i tok
  proof -
    have "(i, tok) \<in> (\<lambda>(i, r). (i, mj_token r)) ` set rs \<longleftrightarrow> (\<exists>r. (i, r) \<in> set rs \<and> tok = mj_token r)" by force
    also have "\<dots> \<longleftrightarrow> i \<in> set ids \<and> Some tok = map_option mj_token (map_of (mjobs db) i)"
      using closed [of i] by (auto simp: rs row)
    finally show ?thesis by (simp add: db' rec)
  qed
  have never: "fst (claim_mjob e' i w (run_ops mjob_step tr db')) \<noteq> Inr True" if "i \<in> set ids" for i
  proof -
    from that closed after [of i] obtain r where "map_of (mjobs db') i = Some (failed_mjob recovery_reason r)" by auto
    then have "closed_job i db'" by (simp add: closed_job_def row_where_def)
    then have "closed_job i (run_ops mjob_step tr db')"
      using run_ops_invariant [of "closed_job i" mjob_step] closed_job_step by blast
    then show ?thesis by (rule closed_job_claim)
  qed
  show ?thesis using exact after recorded sure never by blast
qed

lemma recovery_never_replays_witness:
  "\<exists>db'. recover demo_job_env False (Inr ()) (Inr ()) True (je_proc demo_job_env) demo_crashed = (Inr [1], db')
     \<and> fst (claim_mjob demo_job_env 1 ''new'' (run_ops mjob_step [] db')) \<noteq> Inr True"
proof -
  have "\<exists>db'. recover demo_job_env False (Inr ()) (Inr ()) True (je_proc demo_job_env) demo_crashed = (Inr [1], db')"
    by (simp add: recover_def demo_job_defs select_where_def eligible_def unowned_def lease_expired_def owner_state_def)
  then obtain db' where r: "recover demo_job_env False (Inr ()) (Inr ()) True (je_proc demo_job_env) demo_crashed = (Inr [1], db')" ..
  have "unique_keys (mjobs demo_crashed)" by (simp add: demo_job_defs unique_keys_def)
  with recovery_never_replays [OF r] r show ?thesis by (metis list.set_intros(1))
qed

end
