(* ===== verification/Memory_Properties.thy ===== *)
theory Memory_Properties
  imports Memory_Job_Properties
begin

text \<open>
  Properties of the memory database over its histories: tables of entities, finalizations and events
  only grow, so an entity keeps its identity, a finalization is committed once, and a deleted
  conversation is sealed.
\<close>

section \<open>Histories\<close>

datatype mem_op =
    MStart
  | MFinish nat pystr "pystr option"
  | MFinal pystr nat pystr pystr bool
  | MEvent nat pystr "pystr option" "pystr option" json
  | MEntity pystr pystr "nat option" "pystr list"
  | MAdd pystr pystr pystr nat real "pystr option" "pystr option" pystr pystr "nat option" "nat option"
  | MUpdate nat pystr pystr pystr real pystr pystr "pystr option"
  | MSupersede nat pystr pystr pystr nat real pystr "pystr option" pystr pystr "nat option" "nat option"
  | MConfidence nat real
  | MEmbed nat pystr
  | MArchive nat pystr
  | MRestore nat
  | MJob pystr "nat option" json

fun mem_exec :: "mem_env \<Rightarrow> mem_op \<Rightarrow> memory_db \<Rightarrow> memory_db" where
  "mem_exec e MStart db = snd (start_episode e db)"
| "mem_exec e (MFinish i st summary) db = finish_episode e i st summary db"
| "mem_exec e (MFinal key i rep st review) db = snd (finalize_temporal e key i rep st review db)"
| "mem_exec e (MEvent i ty role content meta) db = snd (add_event e i ty role content meta db)"
| "mem_exec e (MEntity name ty src names) db = snd (get_or_create_entity e name ty src names db)"
| "mem_exec e (MAdd subj pred obj src conf expires emb mtype scope s0 o0) db =
     snd (add_semantic_memory e subj pred obj src conf expires emb mtype scope s0 o0 db)"
| "mem_exec e (MUpdate i subj pred obj conf mtype scope expires) db =
     snd (update_semantic_memory e i subj pred obj conf mtype scope expires db)"
| "mem_exec e (MSupersede old subj pred obj src conf reason emb mtype scope s0 o0) db =
     snd (supersede_semantic_memory e old subj pred obj src conf reason emb mtype scope s0 o0 db)"
| "mem_exec e (MConfidence i c) db = update_semantic_confidence e i c db"
| "mem_exec e (MEmbed i emb) db = update_semantic_embedding e i emb db"
| "mem_exec e (MArchive i reason) db = archive_semantic_memory e i reason db"
| "mem_exec e (MRestore i) db = snd (restore_semantic_memory e i db)"
| "mem_exec e (MJob ty ep payload) db = snd (add_memory_job ty ep payload db)"

definition mem_step :: "time \<Rightarrow> mem_env \<times> mem_op \<Rightarrow> memory_db \<Rightarrow> memory_db" where
  "mem_step t x db = mem_exec (fst x\<lparr>me_time := t\<rparr>) (snd x) db"

section \<open>Frames\<close>

definition grows :: "'a list \<Rightarrow> 'a list \<Rightarrow> bool" where
  "grows xs ys \<longleftrightarrow> take (length xs) ys = xs"

lemma grows_refl [simp]: "grows xs xs" and grows_append [simp]: "grows xs (xs @ ys)"
  by (simp_all add: grows_def)

lemma grows_trans: "grows xs ys \<Longrightarrow> grows ys zs \<Longrightarrow> grows xs zs"
  unfolding grows_def by (metis min.absorb1 nat_le_linear take_all take_take)

lemma growsD: "grows xs ys \<Longrightarrow> \<exists>zs. ys = xs @ zs"
  unfolding grows_def by (metis append_take_drop_id)

lemma add_row_grows [simp]: "grows t (add_row v t)"
  by (simp add: add_row_def)

lemma add_alias_frame [simp]:
  "entities (add_alias e i name db) = entities db" "events (add_alias e i name db) = events db"
  "episodes (add_alias e i name db) = episodes db" "memories (add_alias e i name db) = memories db"
  "episode_finals (add_alias e i name db) = episode_finals db" "mjobs (add_alias e i name db) = mjobs db"
  by (simp_all add: add_alias_def Let_def)

text \<open>Naming an entity touches the entities and their aliases only.\<close>

definition names_only :: "memory_db \<Rightarrow> memory_db \<Rightarrow> bool" where
  "names_only db db' \<longleftrightarrow> events db' = events db \<and> episodes db' = episodes db \<and> memories db' = memories db
     \<and> episode_finals db' = episode_finals db \<and> mjobs db' = mjobs db \<and> grows (entities db) (entities db')"

lemma names_only_refl [simp]: "names_only db db"
  by (simp add: names_only_def)

lemma names_only_trans: "names_only a b \<Longrightarrow> names_only b c \<Longrightarrow> names_only a c"
  by (auto simp: names_only_def intro: grows_trans)

lemma entity_for_frame: "entity_for e name ty src db = (i, db') \<Longrightarrow> names_only db db'"
  by (auto simp: entity_for_def Let_def names_only_def split: option.splits)

lemma fold_alias_frame [simp]:
  "entities (fold (add_alias e i) names db) = entities db" "events (fold (add_alias e i) names db) = events db"
  "episodes (fold (add_alias e i) names db) = episodes db" "memories (fold (add_alias e i) names db) = memories db"
  "episode_finals (fold (add_alias e i) names db) = episode_finals db" "mjobs (fold (add_alias e i) names db) = mjobs db"
  by (induction names arbitrary: db) simp_all

lemma link_names:
  assumes "link_entities e subj obj mtype src s0 o0 db = (s, o', db')"
  shows "names_only db db'"
proof -
  define p where "p = (case s0 of Some i \<Rightarrow> (i, db)
      | None \<Rightarrow> entity_for e subj (infer_entity_type e subj mtype) (Some src) db)"
  have p: "names_only db (snd p)"
    using entity_for_frame by (cases s0) (auto simp: p_def intro: entity_for_frame [OF surjective_pairing])
  have "db' = (case o0 of Some i \<Rightarrow> snd p | None \<Rightarrow> if should_link_object e obj mtype
      then snd (entity_for e obj (infer_entity_type e obj mtype) (Some src) (snd p)) else snd p)"
    using assms by (cases o0) (auto simp: link_entities_def p_def [symmetric] Let_def split: prod.splits if_splits)
  with p show ?thesis
    using names_only_trans [OF p entity_for_frame [OF surjective_pairing]]
    by (auto split: option.splits if_splits)
qed

lemma link_frame:
  assumes "link_entities e subj obj mtype src s0 o0 db = (s, o', db')"
  shows "events db' = events db" "episodes db' = episodes db" "memories db' = memories db"
    "episode_finals db' = episode_finals db" "mjobs db' = mjobs db" "grows (entities db) (entities db')"
  using link_names [OF assms] by (simp_all add: names_only_def)

lemma set_memory_frame [simp]:
  "entities (set_memory i f db) = entities db" "events (set_memory i f db) = events db"
  "episodes (set_memory i f db) = episodes db" "episode_finals (set_memory i f db) = episode_finals db"
  "memories (set_memory i f db) = update_key i (\<lambda>_. True) f (memories db)" "mjobs (set_memory i f db) = mjobs db"
  by (simp_all add: set_memory_def)

lemmas memory_defs = update_semantic_confidence_def update_semantic_embedding_def archive_semantic_memory_def
  restore_semantic_memory_def start_episode_def finish_episode_def add_memory_job_def

text \<open>Entities and finalizations are append-only, whatever the operation.\<close>

lemma finalize_frame:
  "entities (snd (finalize_temporal e key i rep st review db)) = entities db
    \<and> memories (snd (finalize_temporal e key i rep st review db)) = memories db"
  unfolding finalize_temporal_def
  by (rule txn_preserves) (auto simp: Let_def final_writes_def split: option.splits if_splits prod.splits)

lemma finalize_finals:
  "\<exists>xs. episode_finals (snd (finalize_temporal e key i rep st review db)) = episode_finals db @ xs
     \<and> (xs \<noteq> [] \<longrightarrow> map_of (episode_finals db) key = None \<and> fst ` set xs = {key})"
  unfolding finalize_temporal_def
  by (rule txn_preserves) (auto simp: Let_def final_writes_def split: option.splits if_splits prod.splits)

lemma event_frame:
  "entities (snd (add_event e i ty role content meta db)) = entities db
    \<and> memories (snd (add_event e i ty role content meta db)) = memories db
    \<and> episode_finals (snd (add_event e i ty role content meta db)) = episode_finals db
    \<and> episodes (snd (add_event e i ty role content meta db)) = episodes db"
  unfolding add_event_def by (rule txn_preserves) (auto simp: Let_def split: if_splits)

lemma add_memory_frame:
  "events (snd (add_semantic_memory e subj pred obj src conf x emb mtype scope s0 o0 db)) = events db
    \<and> episodes (snd (add_semantic_memory e subj pred obj src conf x emb mtype scope s0 o0 db)) = episodes db
    \<and> episode_finals (snd (add_semantic_memory e subj pred obj src conf x emb mtype scope s0 o0 db)) = episode_finals db
    \<and> grows (entities db) (entities (snd (add_semantic_memory e subj pred obj src conf x emb mtype scope s0 o0 db)))"
  unfolding add_semantic_memory_def
  by (rule txn_preserves) (auto split: if_splits prod.splits dest: link_frame)

lemma update_memory_frame:
  "events (snd (update_semantic_memory e i subj pred obj conf mtype scope x db)) = events db
    \<and> episodes (snd (update_semantic_memory e i subj pred obj conf mtype scope x db)) = episodes db
    \<and> episode_finals (snd (update_semantic_memory e i subj pred obj conf mtype scope x db)) = episode_finals db
    \<and> grows (entities db) (entities (snd (update_semantic_memory e i subj pred obj conf mtype scope x db)))"
  by (auto simp: update_semantic_memory_def split: option.splits prod.splits dest: link_frame)

lemma supersede_frame:
  "events (snd (supersede_semantic_memory e old subj pred obj src conf reason emb mtype scope s0 o0 db)) = events db
    \<and> episodes (snd (supersede_semantic_memory e old subj pred obj src conf reason emb mtype scope s0 o0 db)) = episodes db
    \<and> episode_finals (snd (supersede_semantic_memory e old subj pred obj src conf reason emb mtype scope s0 o0 db)) = episode_finals db
    \<and> grows (entities db) (entities (snd (supersede_semantic_memory e old subj pred obj src conf reason emb mtype scope s0 o0 db)))"
  by (auto simp: supersede_semantic_memory_def Let_def split: prod.splits dest: link_frame)

lemma entity_op_frame:
  "events (snd (get_or_create_entity e name ty src names db)) = events db
    \<and> episodes (snd (get_or_create_entity e name ty src names db)) = episodes db
    \<and> memories (snd (get_or_create_entity e name ty src names db)) = memories db
    \<and> episode_finals (snd (get_or_create_entity e name ty src names db)) = episode_finals db
    \<and> mjobs (snd (get_or_create_entity e name ty src names db)) = mjobs db
    \<and> grows (entities db) (entities (snd (get_or_create_entity e name ty src names db)))"
  by (auto simp: get_or_create_entity_def names_only_def split: prod.splits dest!: entity_for_frame)

lemma entities_grow: "grows (entities db) (entities (mem_step t x db))"
  by (cases "snd x") (simp_all add: mem_step_def memory_defs finalize_frame event_frame add_memory_frame
      update_memory_frame supersede_frame entity_op_frame)

lemma finals_kept: "map_of (episode_finals db) key = Some v \<Longrightarrow> map_of (episode_finals (mem_step t x db)) key = Some v"
proof (cases "snd x")
  case (MFinal key' i rep st review)
  assume "map_of (episode_finals db) key = Some v"
  with MFinal finalize_finals [of "fst x\<lparr>me_time := t\<rparr>" key' i rep st review db] show ?thesis
    by (auto simp: mem_step_def map_add_def)
qed (simp_all add: mem_step_def memory_defs event_frame add_memory_frame update_memory_frame supersede_frame
      entity_op_frame)

lemma entities_grow_run: "grows (entities db) (entities (run_ops mem_step tr db))"
  by (rule run_ops_invariant [where I = "\<lambda>s. grows (entities db) (entities s)"])
    (auto intro: grows_trans [OF _ entities_grow])

section \<open>Entities\<close>

lemma find_append: "find p xs = Some x \<Longrightarrow> find p (xs @ ys) = Some x"
  by (induction xs) auto

lemma find_append_None: "find p xs = None \<Longrightarrow> find p (xs @ ys) = find p ys"
  by (induction xs) (auto split: if_splits)

lemma entity_for_found:
  assumes "entity_for e name ty src db = (i, db')"
  shows "\<exists>r. find (named_entity (normalize_entity_name e name) ty) (entities db') = Some (i, r)"
proof (cases "find (named_entity (normalize_entity_name e name) ty) (entities db)")
  case None
  with assms show ?thesis
    by (auto simp: entity_for_def Let_def add_row_def find_append_None named_entity_def)
next
  case (Some kr)
  with assms show ?thesis by (cases kr) (auto simp: entity_for_def Let_def)
qed

text \<open>
  An entity keeps its identity: once a name was resolved, every spelling that normalizes to the same
  name resolves to the same entity of that type, in every later history of the memory store.
\<close>

theorem entity_identity_is_stable:
  assumes "get_or_create_entity e name ty src names db = (i, db')"
    and "normalize_entity_name e' name' = normalize_entity_name e name"
  shows "fst (get_or_create_entity e' name' ty src' names' (run_ops mem_step tr db')) = i"
proof -
  from assms(1) obtain db1 where ef: "entity_for e name ty src db = (i, db1)" and ents: "entities db' = entities db1"
    by (auto simp: get_or_create_entity_def split: prod.splits)
  from entity_for_found [OF ef] obtain r where
    "find (named_entity (normalize_entity_name e name) ty) (entities db') = Some (i, r)" by (auto simp: ents)
  with growsD [OF entities_grow_run [of db' tr]] find_append
  have "find (named_entity (normalize_entity_name e name) ty) (entities (run_ops mem_step tr db')) = Some (i, r)"
    by fastforce
  with assms(2) show ?thesis
    by (auto simp: get_or_create_entity_def entity_for_def split: prod.splits)
qed

lemma entity_identity_is_stable_witness:
  "fst (get_or_create_entity demo_mem_env ''Bob'' ''user'' None [] (run_ops mem_step [(1, demo_mem_env, MStart)]
      (snd (get_or_create_entity demo_mem_env ''Bob'' ''user'' None [] empty_memory))))
     = fst (get_or_create_entity demo_mem_env ''Bob'' ''user'' None [] empty_memory)"
  by (rule entity_identity_is_stable [OF surjective_pairing refl])

section \<open>Finalizations\<close>

lemma finalize_new:
  assumes "finalize_temporal e key i rep st review db = (Inr job, db')" and "map_of (episode_finals db) key = None"
  obtains status where "(job, db') = final_writes e key i (digest (JArr [JInt (int i), JStr rep, JStr st, JBool review]))
      rep status review db" "episode_status i db \<noteq> None" "episode_status i db \<noteq> Some ''deleted''"
    "status = (if the (episode_status i db) \<in> set failed_statuses then the (episode_status i db)
               else if st = ''failed'' then ''failed'' else ''verified_completed'')"
  using assms by (auto simp: finalize_temporal_def txn_Inr Let_def split: option.splits if_splits)

lemma finals_kept_run:
  "map_of (episode_finals db) key = Some v \<Longrightarrow> map_of (episode_finals (run_ops mem_step tr db)) key = Some v"
  using run_ops_invariant [where I = "\<lambda>s. map_of (episode_finals s) key = Some v" and step = mem_step] finals_kept
  by blast

text \<open>
  A Temporal result is committed to its episode exactly once.  The first finalization under a key
  appends one assistant message, sets the episode's final status (a rejected, reviewed or failed
  episode keeps its status), and queues at most one review; in every later history, repeating it returns
  the same job and changes nothing, and reusing the key for another result is refused.
\<close>

theorem finalization_commits_once:
  assumes "finalize_temporal e key i rep st review db = (Inr job, db')" and "map_of (episode_finals db) key = None"
  shows "(\<exists>ev. events db' = events db @ [(next_id (events db), ev)] \<and> ev_episode ev = i \<and> ev_content ev = Some rep)
    \<and> (\<exists>s. episode_status i db = Some s \<and> s \<noteq> ''deleted'' \<and> episode_status i db' = Some (if s \<in> set failed_statuses then s
          else if st = ''failed'' then ''failed'' else ''verified_completed''))
    \<and> length (mjobs db') = length (mjobs db) + (if review then 1 else 0) \<and> (job \<noteq> None \<longleftrightarrow> review)
    \<and> finalize_temporal e' key i rep st review (run_ops mem_step tr db') = (Inr job, run_ops mem_step tr db')
    \<and> (digest (JArr [JInt (int i'), JStr rep', JStr st', JBool review']) \<noteq> digest (JArr [JInt (int i), JStr rep, JStr st, JBool review])
        \<longrightarrow> finalize_temporal e' key i' rep' st' review' (run_ops mem_step tr db')
            = (Inl (ValueError ''Finalization key reused with different result''), run_ops mem_step tr db'))"
proof -
  let ?f = "digest (JArr [JInt (int i), JStr rep, JStr st, JBool review])"
  from finalize_new [OF assms] obtain status where w: "(job, db') = final_writes e key i ?f rep status review db"
    and s: "episode_status i db \<noteq> None" "episode_status i db \<noteq> Some ''deleted''"
    and status: "status = (if the (episode_status i db) \<in> set failed_statuses then the (episode_status i db)
               else if st = ''failed'' then ''failed'' else ''verified_completed'')" by blast
  from w assms(2) have "map_of (episode_finals db') key = Some (i, ?f, job)"
    by (auto simp: final_writes_def Let_def map_add_def)
  then have later: "map_of (episode_finals (run_ops mem_step tr db')) key = Some (i, ?f, job)" by (rule finals_kept_run)
  have st': "episode_status i db' = Some status"
    using w s(1) by (auto simp: final_writes_def Let_def episode_status_def update_key_lookup)
  have rows: "events db' = events db @ [(next_id (events db), new_event e i ''message'' (Some ''assistant'') (Some rep)
        (JObj [(''temporal_finalization'', JStr key)]))]"
      "length (mjobs db') = length (mjobs db) + (if review then 1 else 0)" "job \<noteq> None \<longleftrightarrow> review"
    using w by (auto simp: final_writes_def Let_def add_row_def)
  have "finalize_temporal e' key i rep st review (run_ops mem_step tr db') = (Inr job, run_ops mem_step tr db')"
    by (simp add: finalize_temporal_def later del: run_ops.simps)
  moreover have "finalize_temporal e' key i' rep' st' review' (run_ops mem_step tr db')
      = (Inl (ValueError ''Finalization key reused with different result''), run_ops mem_step tr db')"
    if "digest (JArr [JInt (int i'), JStr rep', JStr st', JBool review']) \<noteq> ?f"
    using that by (auto simp: finalize_temporal_def later Let_def simp del: run_ops.simps)
  moreover have "ev_episode (new_event e i ty role (Some rep) m) = i" "ev_content (new_event e i ty role (Some rep) m) = Some rep"
    for ty role m by (simp_all add: new_event_def)
  moreover obtain s0 where "episode_status i db = Some s0" using s(1) by blast
  ultimately show ?thesis using rows s(2) status st' by simp
qed

definition demo_episode :: memory_db where
  "demo_episode = empty_memory\<lparr>episodes := [(1, \<lparr>ep_status = ''running'', ep_started = ''t'', ep_ended = None, ep_summary = None\<rparr>)]\<rparr>"

lemma finalization_commits_once_witness:
  "\<exists>job db'. finalize_temporal demo_mem_env ''k'' 1 ''done'' ''completed'' True demo_episode = (Inr job, db') \<and> job \<noteq> None
     \<and> finalize_temporal demo_mem_env ''k'' 1 ''done'' ''completed'' True db' = (Inr job, db')"
proof -
  have "\<exists>job db'. finalize_temporal demo_mem_env ''k'' 1 ''done'' ''completed'' True demo_episode = (Inr job, db')"
    by (simp add: finalize_temporal_def demo_episode_def demo_job_defs Let_def episode_status_def final_writes_def
        failed_statuses_def txn_Inr)
  then obtain job db' where f: "finalize_temporal demo_mem_env ''k'' 1 ''done'' ''completed'' True demo_episode = (Inr job, db')"
    by blast
  have "map_of (episode_finals demo_episode) ''k'' = None" by (simp add: demo_episode_def demo_job_defs)
  note once = finalization_commits_once [OF f this, where tr = "[]" and e' = demo_mem_env]
  then have "job \<noteq> None" by blast
  moreover from once have "finalize_temporal demo_mem_env ''k'' 1 ''done'' ''completed'' True (run_ops mem_step [] db') =
      (Inr job, run_ops mem_step [] db')" by blast
  ultimately show ?thesis using f by (auto simp only: run_ops.simps)
qed

section \<open>Deleted conversations\<close>














definition demo_deleted :: memory_db where
  "demo_deleted = empty_memory\<lparr>episodes := [(1, \<lparr>ep_status = ''deleted'', ep_started = ''t'', ep_ended = None, ep_summary = None\<rparr>)],
     events := [(4, new_event demo_mem_env 1 ''message'' (Some ''user'') (Some ''hi'') JNull)]\<rparr>"


text \<open>
  C33: Supersession is the exception: \<open>supersede_semantic_memory\<close> does not look at the status of the source
  conversation, so it stores a new memory drawn from a deleted one, which \<open>add_semantic_memory\<close>
  refuses on the same arguments.
\<close>

theorem supersession_ignores_deletion:
  assumes "source_deleted src db"
  shows "fst (add_semantic_memory e subj pred obj src conf None emb mtype scope s0 o0 db)
      = Inl (PermissionError ''Deleted conversation cannot produce new memories'')
    \<and> (\<exists>r. map_of (memories (snd (supersede_semantic_memory e old subj pred obj src conf reason emb mtype scope s0 o0 db)))
        (fst (supersede_semantic_memory e old subj pred obj src conf reason emb mtype scope s0 o0 db)) = Some r \<and> sm_source r = src)"
proof -
  obtain s o' db1 where l: "link_entities e subj obj mtype src s0 o0 db = (s, o', db1)" by (metis prod_cases3)
  have "map_of (add_row v (memories db1)) (next_id (memories db1)) = Some v" for v
    using next_id_fresh [of "memories db1"] by (simp add: add_row_def map_add_def)
  with assms l show ?thesis
    by (auto simp: add_semantic_memory_def supersede_semantic_memory_def Let_def update_key_lookup new_memory_def)
qed

lemma supersession_ignores_deletion_witness:
  "fst (add_semantic_memory demo_mem_env ''a'' ''b'' ''c'' 4 1 None None ''fact'' ''global'' (Some 1) (Some 2) demo_deleted)
     = Inl (PermissionError ''Deleted conversation cannot produce new memories'')"
  by (rule supersession_ignores_deletion [THEN conjunct1])
    (simp add: source_deleted_def demo_deleted_def empty_memory_def episode_status_def new_event_def)

end
