(* ===== verification/Forgetting.thy ===== *)
theory Forgetting
  imports Memory_Store
begin

text \<open>
  \<open>forgetting.py\<close>: the policy that ages the long-term memory.  In order: expired memories are
  archived, contradictory ones resolved in favour of the most confident, contradicted ones archived,
  confidences raised or decayed and weak memories archived, failing procedures archived.

  Every pass decides on the rows it read when it started.  The parser of SQLite dates
  (\<open>parse\<close>) and the rendering of a ratio with two digits (\<open>fmt2\<close>) are arguments.
\<close>

section \<open>Configuration and signals\<close>

record forget_cfg =
  fc_min :: real
  fc_decay :: real
  fc_access :: real
  fc_confirm :: real
  fc_margin :: real
  fc_max_failures :: int
  fc_ratio :: real
  fc_min_attempts :: int
  fc_low :: real

definition default_policy :: forget_cfg where
  "default_policy = \<lparr>fc_min = 2/10, fc_decay = 2/100, fc_access = 3/100, fc_confirm = 8/100, fc_margin = 5/100,
     fc_max_failures = 3, fc_ratio = 75/100, fc_min_attempts = 4, fc_low = 2/10\<rparr>"

text \<open>\<open>int(text)\<close> over ASCII: white space around, a sign, digits with single underscores between them.\<close>

fun underscored :: "bool \<Rightarrow> pystr \<Rightarrow> bool" where
  "underscored prev [] \<longleftrightarrow> prev"
| "underscored prev (c # cs) \<longleftrightarrow> (if c = CHR ''_'' then prev \<and> underscored False cs
     else is_digit c \<and> underscored True cs)"

definition py_int :: "pystr \<Rightarrow> int option" where
  "py_int s = (let t = py_strip s; neg = py_starts t ''-'';
     d = (if neg \<or> py_starts t ''+'' then drop 1 t else t)
   in if underscored False d then let n = digits_value 0 (filter is_digit d) in Some (if neg then - n else n)
      else None)"

fun int_ids :: "json \<Rightarrow> int list" where
  "int_ids (JBool b) = [if b then 1 else 0]"
| "int_ids (JInt i) = [i]"
| "int_ids (JStr s) = (case py_int s of None \<Rightarrow> [] | Some i \<Rightarrow> [i])"
| "int_ids (JArr xs) = concat (map int_ids xs)"
| "int_ids _ = []"

record signals =
  sg_referenced :: "int list"
  sg_confirmed :: "int list"
  sg_contradicted :: "int list"
  sg_failed :: "int list"
  sg_succeeded :: "int list"

definition memory_ids :: "json \<Rightarrow> int list" where
  "memory_ids m = int_ids (jget m ''semantic_memory_ids'') @ int_ids (jget m ''semantic_memory_id'')"

definition add_signals :: "event_row \<Rightarrow> signals \<Rightarrow> signals" where
  "add_signals ev s = (let m = ev_metadata ev; ids = memory_ids m; ty = ev_type ev;
       outcome = (\<lambda>b. if ty = ''procedure_result'' \<and> jget m ''succeeded'' = JBool b then int_ids (jget m ''procedure_id'') else [])
     in \<lparr>sg_referenced = sg_referenced s @ ids,
         sg_confirmed = sg_confirmed s @ (if ty \<in> set [''memory_confirmation'', ''semantic_memory_confirmation''] then ids else []),
         sg_contradicted = sg_contradicted s @ (if ty \<in> set [''memory_contradiction'', ''semantic_memory_contradiction''] then ids else []),
         sg_failed = sg_failed s @ outcome False,
         sg_succeeded = sg_succeeded s @ outcome True\<rparr>)"

definition collect_signals :: "nat \<Rightarrow> memory_db \<Rightarrow> signals" where
  "collect_signals n db = fold (\<lambda>(_, ev). add_signals ev) (recent_events n db)
     \<lparr>sg_referenced = [], sg_confirmed = [], sg_contradicted = [], sg_failed = [], sg_succeeded = []\<rparr>"

section \<open>The passes over semantic memories\<close>

definition archive_all :: "mem_env \<Rightarrow> (nat \<times> memory_row \<Rightarrow> pystr) \<Rightarrow> (nat \<times> memory_row) list \<Rightarrow> memory_db \<Rightarrow> memory_db" where
  "archive_all e reason hits db = fold (\<lambda>kr. archive_semantic_memory e (fst kr) (reason kr)) hits db"

definition is_expired :: "mem_env \<Rightarrow> (pystr \<Rightarrow> time option) \<Rightarrow> memory_row \<Rightarrow> bool" where
  "is_expired e parse r \<longleftrightarrow> (case sm_expires r of None \<Rightarrow> False
     | Some x \<Rightarrow> x \<noteq> [] \<and> (case parse x of None \<Rightarrow> False | Some t \<Rightarrow> t \<le> me_time e))"

definition archive_expired :: "mem_env \<Rightarrow> (pystr \<Rightarrow> time option) \<Rightarrow> memory_db \<Rightarrow> nat \<times> memory_db" where
  "archive_expired e parse db = (let hits = filter (\<lambda>(_, r). is_expired e parse r) (expired_semantic_memories e db)
     in (length hits, archive_all e (\<lambda>_. ''expired'') hits db))"

text \<open>Dictionaries of groups keep the order in which the keys first appear.\<close>

definition group_key :: "nat \<times> memory_row \<Rightarrow> pystr \<times> pystr" where
  "group_key kr = (sm_subject (snd kr), sm_predicate (snd kr))"

definition group_of :: "pystr \<times> pystr \<Rightarrow> (nat \<times> memory_row) list \<Rightarrow> (nat \<times> memory_row) list" where
  "group_of g ms = filter (\<lambda>kr. group_key kr = g) ms"

definition choose_conflict_winner :: "(pystr \<Rightarrow> time option) \<Rightarrow> (nat \<times> memory_row) list \<Rightarrow> nat \<times> memory_row" where
  "choose_conflict_winner parse ms = hd (desc (\<lambda>(i, r). (sm_confidence r, parse (sm_updated r), i)) ms)"

definition loses :: "forget_cfg \<Rightarrow> nat \<times> memory_row \<Rightarrow> nat \<times> memory_row \<Rightarrow> bool" where
  "loses cfg win kr \<longleftrightarrow> fst kr \<noteq> fst win \<and> (sm_confidence (snd win) - sm_confidence (snd kr) \<ge> fc_margin cfg
     \<or> sm_object (snd kr) \<noteq> sm_object (snd win))"

definition losers :: "forget_cfg \<Rightarrow> (pystr \<Rightarrow> time option) \<Rightarrow> (nat \<times> memory_row) list \<Rightarrow> (nat \<times> memory_row) list" where
  "losers cfg parse ms = (if length ms < 2 then []
     else filter (loses cfg (choose_conflict_winner parse ms)) ms)"

definition resolve_conflicts :: "mem_env \<Rightarrow> forget_cfg \<Rightarrow> (pystr \<Rightarrow> time option) \<Rightarrow> memory_db \<Rightarrow> nat \<times> memory_db" where
  "resolve_conflicts e cfg parse db =
     (let ms = active_semantic_memories e db;
          reason = (\<lambda>kr. ''conflicts_with:'' @ show_nat (fst (choose_conflict_winner parse (group_of (group_key kr) ms))));
          hits = concat (map (\<lambda>g. losers cfg parse (group_of g ms)) (remdups (map group_key ms)))
      in (length hits, archive_all e reason hits db))"

definition archive_contradicted :: "mem_env \<Rightarrow> signals \<Rightarrow> memory_db \<Rightarrow> nat \<times> memory_db" where
  "archive_contradicted e s db =
     (let hits = filter (\<lambda>(i, _). int i \<in> set (sg_contradicted s)) (active_semantic_memories e db)
      in (length hits, archive_all e (\<lambda>_. ''contradicted'') hits db))"

definition clamp :: "real \<Rightarrow> real" where
  "clamp v = min 1 (max 0 v)"

definition aged :: "forget_cfg \<Rightarrow> signals \<Rightarrow> nat \<times> memory_row \<Rightarrow> real" where
  "aged cfg s kr = (let c = sm_confidence (snd kr); i = int (fst kr) in clamp
     (if i \<in> set (sg_confirmed s) then c + fc_confirm cfg
      else if i \<in> set (sg_referenced s) then c + fc_access cfg
      else c - fc_decay cfg))"

definition age_one :: "mem_env \<Rightarrow> forget_cfg \<Rightarrow> signals \<Rightarrow> nat \<times> memory_row \<Rightarrow> memory_db \<Rightarrow> memory_db" where
  "age_one e cfg s kr db =
     (let c = aged cfg s kr; i = fst kr;
          db1 = (if c \<noteq> sm_confidence (snd kr) then update_semantic_confidence e i c db else db)
      in if c < fc_min cfg then archive_semantic_memory e i ''low_confidence'' db1 else db1)"

definition update_semantic_lifecycle :: "mem_env \<Rightarrow> forget_cfg \<Rightarrow> signals \<Rightarrow> memory_db \<Rightarrow> (nat \<times> nat \<times> nat) \<times> memory_db" where
  "update_semantic_lifecycle e cfg s db =
     (let ms = active_semantic_memories e db
      in ((length (filter (\<lambda>kr. aged cfg s kr < sm_confidence (snd kr)) ms),
           length (filter (\<lambda>kr. aged cfg s kr > sm_confidence (snd kr)) ms),
           length (filter (\<lambda>kr. aged cfg s kr < fc_min cfg) ms)),
          fold (age_one e cfg s) ms db))"

section \<open>Procedures\<close>

definition failure_ratio :: "procedure_row \<Rightarrow> real" where
  "failure_ratio r = (let n = pr_success r + pr_failure r in
     if n \<noteq> 0 then real_of_int (pr_failure r) / real_of_int n else 0)"

definition should_archive :: "forget_cfg \<Rightarrow> procedure_row \<Rightarrow> bool" where
  "should_archive cfg r \<longleftrightarrow> (pr_failure r \<ge> fc_max_failures cfg \<and> pr_success r = 0)
     \<or> (pr_success r + pr_failure r \<ge> fc_min_attempts cfg \<and> failure_ratio r \<ge> fc_ratio cfg)
     \<or> (pr_confidence r < fc_low cfg \<and> pr_failure r > pr_success r)"

definition archive_reason :: "(real \<Rightarrow> pystr) \<Rightarrow> procedure_row \<Rightarrow> pystr" where
  "archive_reason fmt2 r = (if pr_failure r \<noteq> 0 \<and> pr_success r = 0 then ''too_many_failures''
     else if failure_ratio r \<noteq> 0 then ''high_failure_ratio:'' @ fmt2 (failure_ratio r)
     else ''low_confidence'')"

definition update_procedure_lifecycle :: "mem_env \<Rightarrow> forget_cfg \<Rightarrow> (real \<Rightarrow> pystr) \<Rightarrow> memory_db \<Rightarrow> nat \<times> memory_db" where
  "update_procedure_lifecycle e cfg fmt2 db =
     (let hits = filter (\<lambda>(_, r). should_archive cfg r) (active_procedures None db)
      in (length hits, fold (\<lambda>(i, r). archive_procedure e i (archive_reason fmt2 r)) hits db))"

section \<open>The policy\<close>

record forget_result =
  fr_decayed :: nat
  fr_reinforced :: nat
  fr_archived :: nat
  fr_expired :: nat
  fr_conflicting :: nat
  fr_contradicted :: nat
  fr_procedures :: nat

definition run_forgetting_policy :: "mem_env \<Rightarrow> forget_cfg \<Rightarrow> (pystr \<Rightarrow> time option) \<Rightarrow> (real \<Rightarrow> pystr) \<Rightarrow> memory_db \<Rightarrow>
    forget_result \<times> memory_db" where
  "run_forgetting_policy e cfg parse fmt2 db =
     (let s = collect_signals 200 db;
          (n1, db1) = archive_expired e parse db;
          (n2, db2) = resolve_conflicts e cfg parse db1;
          (n3, db3) = archive_contradicted e s db2;
          ((d, r, a), db4) = update_semantic_lifecycle e cfg s db3;
          (n5, db5) = update_procedure_lifecycle e cfg fmt2 db4
      in (\<lparr>fr_decayed = d, fr_reinforced = r, fr_archived = a, fr_expired = n1, fr_conflicting = n2,
           fr_contradicted = n3, fr_procedures = n5\<rparr>, db5))"

section \<open>What a pass does to a row\<close>

lemma set_memories [simp]: "memories (set_memory i f db) = update_key i (\<lambda>_. True) f (memories db)"
  by (simp add: set_memory_def)

lemma mem_active: "kr \<in> set (active_where e a b c d db) \<Longrightarrow> kr \<in> set (memories db) \<and> live_memory e (snd kr)"
  by (cases kr) (auto simp: active_where_def desc_def select_where_def)

lemma active_mem: "kr \<in> set (memories db) \<Longrightarrow> live_memory e (snd kr) \<Longrightarrow> kr \<in> set (active_semantic_memories e db)"
  by (cases kr) (auto simp: active_where_def desc_def select_where_def)

definition archived_row :: "mem_env \<Rightarrow> pystr \<Rightarrow> memory_row \<Rightarrow> memory_row" where
  "archived_row e reason r = r\<lparr>sm_archived := Some (me_stamp e), sm_reason := Some reason, sm_updated := me_stamp e\<rparr>"

lemma archive_row: "archive_semantic_memory e i reason db = set_memory i (archived_row e reason) db"
  by (simp add: archive_semantic_memory_def archived_row_def [abs_def])

lemma archived_row_dead [simp]: "\<not> live_memory e (archived_row e' reason r)"
  by (simp add: live_memory_def archived_row_def)

lemma archived_row_twice: "archived_row e r1 (archived_row e r2 r) = archived_row e r1 r"
  by (simp add: archived_row_def)

text \<open>A row that is live after a run of archivals was not among the archived ones.\<close>

lemma archive_all_live:
  assumes "map_of (memories (archive_all e reason hits db)) k = Some r" and "live_memory e r"
  shows "map_of (memories db) k = Some r \<and> k \<notin> fst ` set hits"
  using assms
proof (induction hits arbitrary: db)
  case Nil
  then show ?case by (simp add: archive_all_def)
next
  case (Cons kr hits)
  let ?db = "archive_semantic_memory e (fst kr) (reason kr) db"
  from Cons.prems have "map_of (memories (archive_all e reason hits ?db)) k = Some r" by (simp add: archive_all_def)
  with Cons have "map_of (memories ?db) k = Some r" "k \<notin> fst ` set hits" by auto
  with Cons.prems(2) show ?case
    by (cases "k = fst kr") (auto simp: archive_row update_key_lookup)
qed

lemma archive_all_other: "k \<notin> fst ` set hits \<Longrightarrow> map_of (memories (archive_all e reason hits db)) k = map_of (memories db) k"
  by (induction hits arbitrary: db) (auto simp: archive_all_def archive_row update_key_lookup)

lemma archive_all_keys [simp]: "unique_keys (memories (archive_all e reason hits db)) = unique_keys (memories db)"
  by (induction hits arbitrary: db) (auto simp: archive_all_def archive_row)

lemma age_one_other: "k \<noteq> fst kr \<Longrightarrow> map_of (memories (age_one e cfg s kr db)) k = map_of (memories db) k"
  by (simp add: age_one_def Let_def archive_row update_semantic_confidence_def update_key_lookup)

lemma age_one_keys [simp]: "unique_keys (memories (age_one e cfg s kr db)) = unique_keys (memories db)"
  by (simp add: age_one_def Let_def archive_row update_semantic_confidence_def)

lemma age_one_row:
  assumes "map_of (memories db) (fst kr) = Some (snd kr)"
  shows "\<exists>r. map_of (memories (age_one e cfg s kr db)) (fst kr) = Some r
    \<and> (live_memory e r \<longrightarrow> fc_min cfg \<le> aged cfg s kr
         \<and> (r = snd kr \<and> aged cfg s kr = sm_confidence (snd kr)
            \<or> r = (snd kr)\<lparr>sm_confidence := aged cfg s kr, sm_updated := me_stamp e\<rparr>))"
  using assms by (auto simp: age_one_def Let_def archive_row update_semantic_confidence_def update_key_lookup)

lemma age_fold_other:
  "k \<notin> fst ` set xs \<Longrightarrow> map_of (memories (fold (age_one e cfg s) xs db)) k = map_of (memories db) k"
  by (induction xs arbitrary: db) (auto simp: age_one_other)

lemma age_fold_keys [simp]: "unique_keys (memories (fold (age_one e cfg s) xs db)) = unique_keys (memories db)"
  by (induction xs arbitrary: db) auto

lemma age_fold_row:
  assumes "distinct (map fst xs)" and "(k, r0) \<in> set xs" and "\<And>i r. (i, r) \<in> set xs \<Longrightarrow> map_of (memories db) i = Some r"
    and "map_of (memories (fold (age_one e cfg s) xs db)) k = Some r" and "live_memory e r"
  shows "fc_min cfg \<le> aged cfg s (k, r0) \<and> (r = r0 \<and> aged cfg s (k, r0) = sm_confidence r0
     \<or> r = r0\<lparr>sm_confidence := aged cfg s (k, r0), sm_updated := me_stamp e\<rparr>)"
  using assms
proof (induction xs arbitrary: db)
  case (Cons kr xs)
  show ?case
  proof (cases "fst kr = k")
    case True
    with Cons.prems(1,2) have kr: "kr = (k, r0)" by (cases kr) (auto simp: rev_image_eqI)
    with Cons.prems(1) have "k \<notin> fst ` set xs" by simp
    with Cons.prems(4) kr have "map_of (memories (age_one e cfg s (k, r0) db)) k = Some r" by (simp add: age_fold_other)
    with age_one_row [of db "(k, r0)" e cfg s] Cons.prems(3) [of k r0] Cons.prems(5) kr show ?thesis by auto
  next
    case False
    have "map_of (memories (age_one e cfg s kr db)) i = Some r'" if "(i, r') \<in> set xs" for i r'
    proof -
      from that Cons.prems(1) have "i \<noteq> fst kr" by (cases kr) (auto simp: rev_image_eqI)
      with age_one_other Cons.prems(3) that show ?thesis by (metis list.set_intros(2))
    qed
    with False Cons show ?thesis by auto
  qed
qed simp

section \<open>Conflicts\<close>

lemma set_desc [simp]: "set (desc f t) = set t"
  by (simp add: desc_def)

lemma desc_nonempty: "t \<noteq> [] \<Longrightarrow> desc f t \<noteq> []"
  by (metis set_desc set_empty)

lemma winner_in: "ms \<noteq> [] \<Longrightarrow> choose_conflict_winner parse ms \<in> set ms"
  unfolding choose_conflict_winner_def by (rule hd_in_set [OF desc_nonempty, unfolded set_desc])

lemma conflict_survivors_agree:
  assumes db': "resolve_conflicts e cfg parse db = (n, db')" and u: "unique_keys (memories db)"
    and a: "map_of (memories db') k = Some r" "live_memory e r"
    and b: "map_of (memories db') k' = Some r'" "live_memory e r'" and g: "group_key (k, r) = group_key (k', r')"
  shows "sm_object r = sm_object r'"
proof -
  let ?ms = "active_semantic_memories e db"
  let ?G = "group_of (group_key (k, r)) ?ms"
  let ?w = "choose_conflict_winner parse ?G"
  let ?hits = "concat (map (\<lambda>g. losers cfg parse (group_of g ?ms)) (remdups (map group_key ?ms)))"
  obtain reason where "db' = archive_all e reason ?hits db"
    using db' by (auto simp: resolve_conflicts_def Let_def)
  with a b archive_all_live have rows: "map_of (memories db) k = Some r" "map_of (memories db) k' = Some r'"
    and out: "k \<notin> fst ` set ?hits" "k' \<notin> fst ` set ?hits" by blast+
  from rows a(2) b(2) have mem: "(k, r) \<in> set ?G" "(k', r') \<in> set ?G"
    using g active_mem by (auto simp: group_of_def dest: map_of_SomeD)
  have not_lost: "i \<notin> fst ` set (losers cfg parse ?G)" if "i \<notin> fst ` set ?hits" for i
    using that mem(1) by (force simp: group_of_def)
  have agree: "sm_object r1 = sm_object (snd ?w)"
    if m: "(i, r1) \<in> set ?G" and o: "i \<notin> fst ` set ?hits" and two: "\<not> length ?G < 2" for i r1
  proof (cases "i = fst ?w")
    case True
    have inG: "x \<in> set (memories db)" if "x \<in> set ?G" for x
      using that mem_active [of x e None None None None db] by (simp add: group_of_def)
    from mem(1) have "?G \<noteq> []" by auto
    then have "?w \<in> set (memories db)" by (intro inG winner_in)
    moreover have "(i, r1) \<in> set (memories db)" by (rule inG [OF m])
    ultimately have "snd ?w = r1"
      using u True by (metis Some_eq_map_of_iff option.inject prod.collapse unique_keys_def)
    then show ?thesis by simp
  next
    case False
    with m two not_lost [OF o] have "\<not> loses cfg ?w (i, r1)" by (force simp: losers_def)
    with False show ?thesis by (auto simp: loses_def)
  qed
  show ?thesis
  proof (cases "length ?G < 2")
    case True
    with mem have "(k, r) = (k', r')" by (cases ?G) auto
    then show ?thesis by simp
  next
    case False
    with agree [OF mem(1) out(1)] agree [OF mem(2) out(2)] show ?thesis by simp
  qed
qed

section \<open>The properties\<close>

lemma procedures_keep_memories [simp]: "memories (snd (update_procedure_lifecycle e cfg fmt2 db)) = memories db"
proof -
  have "memories (fold (\<lambda>(i, r). archive_procedure e i (archive_reason fmt2 r)) hits d) = memories d" for hits d
    by (induction hits arbitrary: d) (auto simp: archive_procedure_def)
  then show ?thesis by (simp add: update_procedure_lifecycle_def Let_def)
qed

lemma clamp_bounds: "0 \<le> clamp v" "clamp v \<le> 1"
  by (simp_all add: clamp_def)

lemma active_distinct:
  assumes "unique_keys (memories db)"
  shows "distinct (map fst (active_where e a b c d db))"
proof -
  let ?p = "\<lambda>k r. live_memory e r \<and> matches a (sm_subject r) \<and> matches b (sm_predicate r) \<and> matches c (sm_type r)
      \<and> matches d (sm_scope r)"
  have "distinct (map fst (select_where ?p (memories db)))"
    using assms unfolding unique_keys_def select_where_def by (rule distinct_map_filter)
  then have "distinct (select_where ?p (memories db))" "inj_on fst (set (select_where ?p (memories db)))"
    by (auto simp: distinct_map)
  then show ?thesis by (simp add: active_where_def desc_def distinct_map)
qed

lemma lifecycle_live:
  assumes "unique_keys (memories db)"
    and "map_of (memories (fold (age_one e cfg s) (active_semantic_memories e db) db)) k = Some r" and "live_memory e r"
  obtains r0 where "map_of (memories db) k = Some r0" "live_memory e r0" "group_key (k, r) = group_key (k, r0)"
    "sm_object r = sm_object r0" "0 \<le> sm_confidence r" "sm_confidence r \<le> 1" "fc_min cfg \<le> sm_confidence r"
proof -
  let ?ms = "active_semantic_memories e db"
  have rows: "map_of (memories db) i = Some r'" if "(i, r') \<in> set ?ms" for i r'
    using mem_active [OF that] assms(1) by (auto simp: unique_keys_def)
  have "k \<in> fst ` set ?ms"
  proof (rule ccontr)
    assume "k \<notin> fst ` set ?ms"
    with assms(2) have "map_of (memories db) k = Some r" by (simp add: age_fold_other)
    with assms(3) \<open>k \<notin> fst ` set ?ms\<close> active_mem [of "(k, r)" db e] show False
      by (force dest: map_of_SomeD)
  qed
  then obtain r0 where r0: "(k, r0) \<in> set ?ms" by force
  from age_fold_row [OF active_distinct [OF assms(1)] r0 rows assms(2,3)]
  have "fc_min cfg \<le> aged cfg s (k, r0) \<and> (r = r0 \<and> aged cfg s (k, r0) = sm_confidence r0
     \<or> r = r0\<lparr>sm_confidence := aged cfg s (k, r0), sm_updated := me_stamp e\<rparr>)" .
  moreover have "0 \<le> aged cfg s (k, r0)" "aged cfg s (k, r0) \<le> 1" by (simp_all add: aged_def Let_def clamp_bounds)
  ultimately show thesis
    using that [OF rows [OF r0]] mem_active [OF r0] by (auto simp: group_key_def)
qed

text \<open>
  C34: The forgetting policy leaves a consistent store.  Every memory still active after it was active
  before with the same subject, predicate and object, has a confidence between the configured
  minimum and one, was not contradicted by the collected events, and no two active memories
  give one subject and predicate different objects.
\<close>

theorem forgetting_leaves_consistent_memory:
  assumes run: "run_forgetting_policy e cfg parse fmt2 db = (res, db')" and u: "unique_keys (memories db)"
    and live: "map_of (memories db') k = Some r" "live_memory e r"
  shows "(\<exists>r0. map_of (memories db) k = Some r0 \<and> live_memory e r0 \<and> group_key (k, r0) = group_key (k, r)
        \<and> sm_object r0 = sm_object r)
    \<and> 0 \<le> sm_confidence r \<and> sm_confidence r \<le> 1 \<and> fc_min cfg \<le> sm_confidence r
    \<and> int k \<notin> set (sg_contradicted (collect_signals 200 db))
    \<and> (\<forall>k' r'. map_of (memories db') k' = Some r' \<and> live_memory e r' \<and> group_key (k', r') = group_key (k, r)
        \<longrightarrow> sm_object r' = sm_object r)"
proof -
  let ?s = "collect_signals 200 db"
  obtain n1 db1 where p1: "archive_expired e parse db = (n1, db1)" by fastforce
  obtain n2 db2 where p2: "resolve_conflicts e cfg parse db1 = (n2, db2)" by fastforce
  obtain n3 db3 where p3: "archive_contradicted e ?s db2 = (n3, db3)" by fastforce
  obtain c db4 where p4: "update_semantic_lifecycle e cfg ?s db3 = (c, db4)" by fastforce
  obtain n5 db5 where p5: "update_procedure_lifecycle e cfg fmt2 db4 = (n5, db5)" by fastforce
  have m5: "memories db5 = memories db4" using procedures_keep_memories [of e cfg fmt2 db4] p5 by simp
  from run p1 p2 p3 p4 p5 have "db' = db5" by (simp add: run_forgetting_policy_def Let_def split: prod.splits)
  with m5 p4 have m': "memories db' = memories (fold (age_one e cfg ?s) (active_semantic_memories e db3) db3)"
    by (auto simp: update_semantic_lifecycle_def Let_def)
  obtain h1 f1 where d1: "db1 = archive_all e f1 h1 db" using p1 by (auto simp: archive_expired_def Let_def)
  obtain h2 f2 where d2: "db2 = archive_all e f2 h2 db1" using p2 by (auto simp: resolve_conflicts_def Let_def)
  obtain f3 where d3: "db3 = archive_all e f3 (filter (\<lambda>(i, _). int i \<in> set (sg_contradicted ?s)) (active_semantic_memories e db2)) db2"
    using p3 by (auto simp: archive_contradicted_def Let_def)
  have u1: "unique_keys (memories db1)" "unique_keys (memories db3)" using u by (simp_all add: d1 d2 d3)
  have earlier: "\<exists>r0. map_of (memories db2) i = Some r0 \<and> live_memory e r0 \<and> group_key (i, r0) = group_key (i, r1)
      \<and> sm_object r0 = sm_object r1 \<and> 0 \<le> sm_confidence r1 \<and> sm_confidence r1 \<le> 1 \<and> fc_min cfg \<le> sm_confidence r1
      \<and> int i \<notin> set (sg_contradicted ?s)"
    if r1: "map_of (memories db') i = Some r1" "live_memory e r1" for i r1
  proof -
    from r1 m' obtain r0 where r0: "map_of (memories db3) i = Some r0" "live_memory e r0"
      and eq: "group_key (i, r1) = group_key (i, r0)" "sm_object r1 = sm_object r0"
        "0 \<le> sm_confidence r1" "sm_confidence r1 \<le> 1" "fc_min cfg \<le> sm_confidence r1"
      by (metis lifecycle_live [OF u1(2)])
    from archive_all_live [OF r0(1) [unfolded d3] r0(2)] have m2: "map_of (memories db2) i = Some r0"
      and out: "i \<notin> fst ` set (filter (\<lambda>(i, _). int i \<in> set (sg_contradicted ?s)) (active_semantic_memories e db2))" by blast+
    from m2 r0(2) active_mem [of "(i, r0)" db2 e] out have "int i \<notin> set (sg_contradicted ?s)"
      by (force dest: map_of_SomeD)
    with m2 r0(2) eq show ?thesis by auto
  qed
  from earlier [OF live] obtain r2 where r2: "map_of (memories db2) k = Some r2" "live_memory e r2"
    "group_key (k, r2) = group_key (k, r)" "sm_object r2 = sm_object r" by blast
  with archive_all_live have "map_of (memories db) k = Some r2" unfolding d2 d1 by blast
  moreover have "sm_object r' = sm_object r"
    if r': "map_of (memories db') k' = Some r'" "live_memory e r'" "group_key (k', r') = group_key (k, r)" for k' r'
    using earlier [OF r'(1,2)] r2 conflict_survivors_agree [OF p2 u1(1)] r'(3) by metis
  ultimately show ?thesis using earlier [OF live] r2 by blast
qed

definition sample_env :: mem_env where
  "sample_env = \<lparr>me_stamp = ''2024-01-02 00:00:00'', me_time = 50, me_fold = (\<lambda>s. s), me_digit = (\<lambda>s. False),
     me_scrub = (\<lambda>s. s)\<rparr>"

definition sample_memory :: memory_db where
  "sample_memory = \<lparr>episodes = [], events = [], memories = [(1, new_memory sample_env ''user'' ''likes'' ''tea'' None None
     ''fact'' ''global'' (1/2) 4 None None)], entities = [], aliases = [], procedures = [], mjobs = [], recoveries = [],
     providers = [], episode_finals = []\<rparr>"

definition sample_row :: memory_row where
  "sample_row = new_memory sample_env ''user'' ''likes'' ''tea'' None None ''fact'' ''global'' (1/2) 4 None None"

lemma sample_rows: "memories sample_memory = [(1, sample_row)]" "events sample_memory = []" "procedures sample_memory = []"
  by (simp_all add: sample_memory_def sample_row_def)

lemma sample_live: "live_memory sample_env sample_row" "sm_expires sample_row = None" "sm_confidence sample_row = 1/2"
  by (simp_all add: sample_row_def new_memory_def live_memory_def)

lemma sample_active: "active_semantic_memories sample_env sample_memory = [(1, sample_row)]"
  by (simp add: active_where_def select_where_def sample_rows sample_live desc_def)

lemma sample_passes:
  "archive_expired sample_env (\<lambda>_. None) sample_memory = (0, sample_memory)"
  "resolve_conflicts sample_env default_policy (\<lambda>_. None) sample_memory = (0, sample_memory)"
  "collect_signals 200 sample_memory = \<lparr>sg_referenced = [], sg_confirmed = [], sg_contradicted = [], sg_failed = [], sg_succeeded = []\<rparr>"
  subgoal by (simp add: archive_expired_def expired_semantic_memories_def select_where_def sample_rows sample_live asc_def
        archive_all_def)
  subgoal by (simp add: resolve_conflicts_def sample_active group_of_def losers_def archive_all_def Let_def)
  subgoal by (simp add: collect_signals_def recent_events_def sample_rows desc_def)
  done

lemma sample_ages:
  "memories (snd (update_semantic_lifecycle sample_env default_policy
     \<lparr>sg_referenced = [], sg_confirmed = [], sg_contradicted = [], sg_failed = [], sg_succeeded = []\<rparr> sample_memory))
     = [(1, sample_row\<lparr>sm_confidence := 48/100, sm_updated := me_stamp sample_env\<rparr>)]"
  by (simp add: update_semantic_lifecycle_def sample_active age_one_def aged_def clamp_def default_policy_def sample_live
      update_semantic_confidence_def sample_rows update_key_def Let_def)

lemma sample_run:
  "\<exists>r. map_of (memories (snd (run_forgetting_policy sample_env default_policy (\<lambda>_. None) (\<lambda>_. []) sample_memory))) 1 = Some r
     \<and> live_memory sample_env r"
proof -
  have "archive_contradicted sample_env (collect_signals 200 sample_memory) sample_memory = (0, sample_memory)"
    by (simp add: archive_contradicted_def sample_active sample_passes archive_all_def)
  then have "memories (snd (run_forgetting_policy sample_env default_policy (\<lambda>_. None) (\<lambda>_. []) sample_memory))
      = [(1, sample_row\<lparr>sm_confidence := 48/100, sm_updated := me_stamp sample_env\<rparr>)]"
    by (simp add: run_forgetting_policy_def sample_passes Let_def case_prod_beta sample_ages)
  then show ?thesis using sample_live by (simp add: live_memory_def)
qed

lemma forgetting_leaves_consistent_memory_witness:
  "\<exists>r. map_of (memories (snd (run_forgetting_policy sample_env default_policy (\<lambda>_. None) (\<lambda>_. []) sample_memory))) 1 = Some r
     \<and> fc_min default_policy \<le> sm_confidence r"
  using forgetting_leaves_consistent_memory [OF surjective_pairing, of sample_memory sample_env default_policy
      "\<lambda>_. None" "\<lambda>_. []" 1] sample_run
  by (auto simp: unique_keys_def sample_memory_def)

end
