(* ===== verification/Vector_Search.thy ===== *)
theory Vector_Search
  imports Memory_Store "HOL-Library.Multiset"
begin

text \<open>
  \<open>vector_search.py\<close>: embeddings, cosine similarity, and the search that ranks candidate memories
  under a budget of remote embeddings.  Vector components are reals.  The regular expression
  \<open>\w+\<close> and \<open>str.lower\<close> depend on Unicode tables and are the arguments \<open>words\<close> and \<open>lower\<close>;
  the embedding provider is the argument \<open>embed\<close>, the reader of a stored vector \<open>parse\<close>.
\<close>

section \<open>Vectors\<close>

type_synonym vector = "real list"

definition dot :: "vector \<Rightarrow> vector \<Rightarrow> real" where
  "dot xs ys = sum_list (map2 (*) xs ys)"

definition norm_of :: "vector \<Rightarrow> real" where
  "norm_of xs = sqrt (dot xs xs)"

definition cosine_similarity :: "vector \<Rightarrow> vector \<Rightarrow> real" where
  "cosine_similarity xs ys = (if xs = [] \<or> ys = [] \<or> length xs \<noteq> length ys then 0
     else if norm_of xs = 0 \<or> norm_of ys = 0 then 0 else dot xs ys / (norm_of xs * norm_of ys))"

definition normalize :: "vector \<Rightarrow> vector" where
  "normalize xs = (if norm_of xs = 0 then xs else map (\<lambda>x. x / norm_of xs) xs)"

section \<open>Hashing embeddings\<close>

definition tokenize :: "(pystr \<Rightarrow> pystr list) \<Rightarrow> (pystr \<Rightarrow> pystr) \<Rightarrow> pystr \<Rightarrow> pystr list" where
  "tokenize words lower text = map lower (filter (\<lambda>t. 2 \<le> py_len t) (words text))"

text \<open>The two words of a SHA-256 digest that matter: the first four bytes, and the fifth byte.\<close>

definition sha_words :: "pystr \<Rightarrow> u32 list" where
  "sha_words s = sha_blocks sha_init (be_words (sha_pad (map of_char s)))"

definition hash_slot :: "nat \<Rightarrow> pystr \<Rightarrow> nat \<times> real" where
  "hash_slot dims token = (let ws = sha_words token in
     (unat (ws ! 0) mod dims, if (unat (ws ! 1) div 16777216) mod 2 = 0 then 1 else -1))"

definition hash_embed :: "nat \<Rightarrow> (pystr \<Rightarrow> pystr list) \<Rightarrow> (pystr \<Rightarrow> pystr) \<Rightarrow> pystr \<Rightarrow> vector" where
  "hash_embed dims words lower text = normalize (fold (\<lambda>token v. case hash_slot dims token of
     (i, s) \<Rightarrow> v[i := v ! i + s]) (tokenize words lower text) (replicate dims 0))"

section \<open>Embedding providers\<close>

text \<open>A remote provider answers with a vector or raises (\<open>None\<close>); its fallback is the provider it
  was built with.  The hashing provider takes no \<open>allow_remote\<close> argument and has no fallback, so
  \<open>embed_with\<close> (\<open>_embed\<close>) meets a \<open>TypeError\<close>, embeds with it when a remote call is allowed, and with
  a hashing provider of 64 dimensions otherwise.\<close>

datatype provider = Hashing nat | Remote "pystr \<Rightarrow> vector option" provider

record text_env =
  tx_words :: "pystr \<Rightarrow> pystr list"
  tx_lower :: "pystr \<Rightarrow> pystr"

abbreviation hashed :: "text_env \<Rightarrow> nat \<Rightarrow> pystr \<Rightarrow> vector" where
  "hashed t dims \<equiv> hash_embed dims (tx_words t) (tx_lower t)"

fun remote_embed :: "text_env \<Rightarrow> provider \<Rightarrow> bool \<Rightarrow> pystr \<Rightarrow> vector" where
  "remote_embed t (Hashing dims) allow text = hashed t dims text"
| "remote_embed t (Remote call fallback) allow text =
     (if \<not> allow then remote_embed t fallback True text
      else case call text of Some v \<Rightarrow> normalize v | None \<Rightarrow> remote_embed t fallback True text)"

fun embed_with :: "text_env \<Rightarrow> provider \<Rightarrow> bool \<Rightarrow> pystr \<Rightarrow> vector" where
  "embed_with t (Hashing dims) allow text = (if allow then hashed t dims text else hashed t 64 text)"
| "embed_with t (Remote call fallback) allow text = remote_embed t (Remote call fallback) allow text"

section \<open>Search\<close>

definition format_memory :: "memory_row \<Rightarrow> pystr" where
  "format_memory r = sm_subject r @ '' '' @ sm_predicate r @ '' '' @ sm_object r"

record search_env =
  vs_text :: text_env
  vs_provider :: provider
  vs_parse :: "pystr \<Rightarrow> vector option"
  vs_min :: real
  vs_store :: bool

record stats =
  st_candidates :: nat
  st_missing :: nat
  st_remote :: nat
  st_skipped :: nat

text \<open>A hit is a memory with the vector written into its dictionary, when it had none.  The writes are
  the calls of \<open>update_semantic_embedding\<close>, whose exceptions are swallowed.\<close>

type_synonym hit = "(nat \<times> memory_row) \<times> vector option"

record scan =
  sc_scored :: "(real \<times> hit) list"
  sc_stats :: stats
  sc_writes :: "(nat \<times> vector) list"

definition stored_vector :: "(pystr \<Rightarrow> vector option) \<Rightarrow> memory_row \<Rightarrow> vector option" where
  "stored_vector parse r = (case sm_embedding r of None \<Rightarrow> None | Some t \<Rightarrow> if t = [] then None else parse t)"

definition in_budget :: "nat option \<Rightarrow> nat \<Rightarrow> bool" where
  "in_budget budget used \<longleftrightarrow> (case budget of None \<Rightarrow> True | Some b \<Rightarrow> used < b)"

definition keep_score :: "search_env \<Rightarrow> vector \<Rightarrow> vector \<Rightarrow> hit \<Rightarrow> scan \<Rightarrow> scan" where
  "keep_score s q v h sc = (let score = cosine_similarity q v in
     if score < vs_min s then sc else sc\<lparr>sc_scored := sc_scored sc @ [(score, h)]\<rparr>)"

definition count_missing :: "bool \<Rightarrow> stats \<Rightarrow> stats" where
  "count_missing remote st = st\<lparr>st_missing := st_missing st + 1,
     st_remote := st_remote st + (if remote then 1 else 0),
     st_skipped := st_skipped st + (if remote then 0 else 1)\<rparr>"

definition scan_one :: "search_env \<Rightarrow> vector \<Rightarrow> nat option \<Rightarrow> nat \<times> memory_row \<Rightarrow> scan \<Rightarrow> scan" where
  "scan_one s q budget kr sc = (case stored_vector (vs_parse s) (snd kr) of
     Some v \<Rightarrow> keep_score s q v (kr, None) sc
   | None \<Rightarrow> (let remote = in_budget budget (st_remote (sc_stats sc));
                v = embed_with (vs_text s) (vs_provider s) remote (format_memory (snd kr)) in
       keep_score s q v (kr, Some v) (sc\<lparr>sc_stats := count_missing remote (sc_stats sc),
         sc_writes := sc_writes sc @ (if remote \<and> vs_store s \<and> fst kr \<noteq> 0 then [(fst kr, v)] else [])\<rparr>)))"

definition empty_scan :: "nat \<Rightarrow> scan" where
  "empty_scan n = \<lparr>sc_scored = [], sc_stats = \<lparr>st_candidates = n, st_missing = 0, st_remote = 0, st_skipped = 0\<rparr>,
     sc_writes = []\<rparr>"

definition score_key :: "real \<times> hit \<Rightarrow> real \<times> real \<times> pystr \<times> nat" where
  "score_key h = (case h of (score, (i, r), _) \<Rightarrow> (score, sm_confidence r, sm_updated r, i))"

text \<open>\<open>sorted(..., reverse=True)\<close>, which keeps the order of equal elements.\<close>

definition sorted_reverse :: "('a \<Rightarrow> 'k::linorder) \<Rightarrow> 'a list \<Rightarrow> 'a list" where
  "sorted_reverse f xs = rev (sort_key f (rev xs))"

definition search_with_budget :: "search_env \<Rightarrow> pystr \<Rightarrow> (nat \<times> memory_row) list \<Rightarrow> nat \<Rightarrow> bool \<Rightarrow> nat option \<Rightarrow>
    hit list \<times> scan" where
  "search_with_budget s query ms limit allow_query budget =
     (if ms = [] then ([], empty_scan 0)
      else if query = [] then
        (map (\<lambda>kr. (kr, None)) (take limit (sorted_reverse (\<lambda>(i, r). (sm_confidence r, sm_updated r, i)) ms)),
         empty_scan (length ms))
      else let q = embed_with (vs_text s) (vs_provider s) allow_query query;
               sc = fold (scan_one s q budget) ms (empty_scan (length ms))
           in (map snd (take limit (sorted_reverse score_key (sc_scored sc))), sc))"

section \<open>Backfill\<close>

text \<open>\<open>backfill_semantic_embeddings\<close> over the memory database; \<open>render\<close> renders a vector as JSON.  The
  updates of a SQLite database that answers do not fail, so \<open>failed_ids\<close> stays empty.\<close>

definition backfill_one :: "mem_env \<Rightarrow> text_env \<Rightarrow> provider \<Rightarrow> (vector \<Rightarrow> pystr) \<Rightarrow> nat \<times> memory_row \<Rightarrow>
    memory_db \<Rightarrow> memory_db" where
  "backfill_one e t p render kr = update_semantic_embedding e (fst kr)
     (render (embed_with t p True (format_memory (snd kr))))"

definition backfill_semantic_embeddings :: "mem_env \<Rightarrow> text_env \<Rightarrow> provider \<Rightarrow> (vector \<Rightarrow> pystr) \<Rightarrow> nat \<Rightarrow>
    pystr option \<Rightarrow> memory_db \<Rightarrow> nat list \<times> memory_db" where
  "backfill_semantic_embeddings e t p render limit stale db =
     (let cs = semantic_memories_missing_embeddings e limit stale db
      in (map fst cs, fold (backfill_one e t p render) cs db))"

section \<open>Cosine similarity is bounded\<close>

lemma dot_Cons [simp]: "dot (x # xs) (y # ys) = x * y + dot xs ys"
  and dot_Nil [simp]: "dot [] ys = 0" "dot xs [] = 0"
  by (simp_all add: dot_def)

lemma dot_self: "0 \<le> dot xs xs"
  by (induction xs) auto

lemma norm_nonneg: "0 \<le> norm_of xs"
  by (simp add: norm_of_def dot_self)

lemma dot_commute: "dot xs ys = dot ys xs"
  by (induction xs ys rule: list_induct2') (auto simp: mult.commute)

lemma cross_term:
  fixes a x A B S :: real
  assumes "0 \<le> A" "0 \<le> B" "S\<^sup>2 \<le> A * B"
  shows "2 * (a * x * S) \<le> a\<^sup>2 * B + x\<^sup>2 * A"
proof (rule power2_le_imp_le)
  have "(2 * (a * x * S))\<^sup>2 = 4 * (a\<^sup>2 * x\<^sup>2) * S\<^sup>2" by (simp add: power_mult_distrib)
  also have "\<dots> \<le> 4 * (a\<^sup>2 * x\<^sup>2) * (A * B)" using assms(3) by (intro mult_left_mono) auto
  also have "\<dots> = 4 * ((a\<^sup>2 * B) * (x\<^sup>2 * A))" by simp
  also have "\<dots> \<le> (a\<^sup>2 * B + x\<^sup>2 * A)\<^sup>2"
    using zero_le_power2 [of "a\<^sup>2 * B - x\<^sup>2 * A"] by (simp add: power2_sum power2_diff algebra_simps)
  finally show "(2 * (a * x * S))\<^sup>2 \<le> (a\<^sup>2 * B + x\<^sup>2 * A)\<^sup>2" .
  show "0 \<le> a\<^sup>2 * B + x\<^sup>2 * A" using assms by simp
qed

lemma cauchy_schwarz: "(dot xs ys)\<^sup>2 \<le> dot xs xs * dot ys ys"
proof (induction xs ys rule: list_induct2')
  case (4 x xs y ys)
  from cross_term [OF dot_self dot_self this, of x y]
  have "2 * (x * y * dot xs ys) \<le> x\<^sup>2 * dot ys ys + y\<^sup>2 * dot xs xs" by simp
  with 4 show ?case by (simp add: power2_eq_square algebra_simps)
qed auto

text \<open>
  The similarity of two vectors lies between -1 and 1, whatever the embedding provider returned
  (empty vectors, vectors of different dimensions and zero vectors count as 0), does not depend
  on the order of its arguments, and is 1 for a non-zero vector with itself.
\<close>

lemma cosine_similarity_bounded:
  "\<bar>cosine_similarity xs ys\<bar> \<le> 1 \<and> cosine_similarity xs ys = cosine_similarity ys xs
    \<and> (if norm_of xs = 0 then cosine_similarity xs xs = 0 else cosine_similarity xs xs = 1)"
proof -
  have "\<bar>dot xs ys\<bar> \<le> norm_of xs * norm_of ys"
    using real_sqrt_le_mono [OF cauchy_schwarz [of xs ys]] by (simp add: norm_of_def real_sqrt_mult)
  then have "\<bar>cosine_similarity xs ys\<bar> \<le> 1"
    using norm_nonneg by (auto simp: cosine_similarity_def abs_mult intro!: divide_le_eq_1_pos [THEN iffD2] mult_pos_pos less_le [THEN iffD2])
  moreover have "norm_of xs * norm_of xs = dot xs xs" using dot_self by (simp add: norm_of_def)
  then have "norm_of xs \<noteq> 0 \<Longrightarrow> cosine_similarity xs xs = 1"
    by (auto simp: cosine_similarity_def norm_of_def)
  ultimately show ?thesis
    by (auto simp: cosine_similarity_def dot_commute [of xs ys] mult.commute)
qed

section \<open>The search respects its budget\<close>

lemma keep_score_fields [simp]:
  "sc_stats (keep_score s q v h sc) = sc_stats sc" "sc_writes (keep_score s q v h sc) = sc_writes sc"
  by (simp_all add: keep_score_def Let_def)

definition stats_ok :: "nat option \<Rightarrow> nat \<Rightarrow> stats \<Rightarrow> bool" where
  "stats_ok budget n st \<longleftrightarrow> st_missing st = st_remote st + st_skipped st \<and> st_missing st \<le> n
     \<and> (case budget of None \<Rightarrow> st_skipped st = 0 | Some b \<Rightarrow> st_remote st \<le> b \<and> (st_skipped st = 0 \<or> st_remote st = b))"

lemma stats_ok_mono: "stats_ok budget n st \<Longrightarrow> n \<le> m \<Longrightarrow> stats_ok budget m st"
  by (simp add: stats_ok_def)

lemma stats_ok_count:
  "stats_ok budget n st \<Longrightarrow> stats_ok budget (Suc n) (count_missing (in_budget budget (st_remote st)) st)"
  by (auto simp: stats_ok_def count_missing_def in_budget_def split: option.splits)

definition scan_ok :: "search_env \<Rightarrow> nat option \<Rightarrow> (nat \<times> memory_row) list \<Rightarrow> scan \<Rightarrow> bool" where
  "scan_ok s budget seen sc \<longleftrightarrow> stats_ok budget (length seen) (sc_stats sc)
     \<and> length (sc_writes sc) \<le> st_remote (sc_stats sc)
     \<and> list_all (\<lambda>h. vs_min s \<le> fst h) (sc_scored sc)
     \<and> mset (map (fst \<circ> snd) (sc_scored sc)) \<subseteq># mset seen"

lemma subset_add_mset: "A \<subseteq># add_mset x A"
  using mset_subset_eq_add_left [of A "{#x#}"] by simp

lemma scan_ok_keep:
  assumes "stats_ok budget (Suc (length seen)) (sc_stats sc)" "length (sc_writes sc) \<le> st_remote (sc_stats sc)"
    and "list_all (\<lambda>h. vs_min s \<le> fst h) (sc_scored sc)" "mset (map (fst \<circ> snd) (sc_scored sc)) \<subseteq># mset seen"
  shows "scan_ok s budget (seen @ [fst h]) (keep_score s q v h sc)"
  using assms by (auto simp: scan_ok_def keep_score_def Let_def not_less
    intro: subset_mset.order_trans [OF _ subset_add_mset])

lemma scan_ok_step: "scan_ok s budget seen sc \<Longrightarrow> scan_ok s budget (seen @ [kr]) (scan_one s q budget kr sc)"
proof (cases "stored_vector (vs_parse s) (snd kr)")
  case None
  assume ok: "scan_ok s budget seen sc"
  let ?remote = "in_budget budget (st_remote (sc_stats sc))"
  let ?v = "embed_with (vs_text s) (vs_provider s) ?remote (format_memory (snd kr))"
  let ?sc = "sc\<lparr>sc_stats := count_missing ?remote (sc_stats sc),
    sc_writes := sc_writes sc @ (if ?remote \<and> vs_store s \<and> fst kr \<noteq> 0 then [(fst kr, ?v)] else [])\<rparr>"
  have "scan_ok s budget (seen @ [fst (kr, Some ?v)]) (keep_score s q ?v (kr, Some ?v) ?sc)"
    using ok by (intro scan_ok_keep) (auto simp: scan_ok_def stats_ok_count, simp_all add: count_missing_def)
  with None show ?thesis by (simp add: scan_one_def Let_def)
next
  case (Some v)
  assume ok: "scan_ok s budget seen sc"
  have "scan_ok s budget (seen @ [fst (kr, None :: vector option)]) (keep_score s q v (kr, None) sc)"
    using ok by (intro scan_ok_keep) (auto simp: scan_ok_def elim: stats_ok_mono)
  with Some show ?thesis by (simp add: scan_one_def)
qed

lemma scan_ok_fold: "scan_ok s budget seen sc \<Longrightarrow> scan_ok s budget (seen @ ms) (fold (scan_one s q budget) ms sc)"
proof (induction ms arbitrary: seen sc)
  case (Cons kr ms)
  from Cons.IH [OF scan_ok_step [OF Cons.prems]] show ?case by simp
qed simp

lemma scan_ok_empty: "scan_ok s budget [] (empty_scan n)"
  by (simp add: scan_ok_def empty_scan_def stats_ok_def split: option.split)

lemma mset_sorted_reverse [simp]: "mset (sorted_reverse f xs) = mset xs"
  by (simp add: sorted_reverse_def)

lemma mset_take: "mset (take n xs) \<subseteq># mset xs"
  by (metis append_take_drop_id mset_append mset_subset_eq_add_left)

lemma search_budget:
  "case search_with_budget s query ms limit allow_query budget of (hits, sc) \<Rightarrow>
     length hits \<le> limit \<and> mset (map fst hits) \<subseteq># mset ms \<and> stats_ok budget (length ms) (sc_stats sc)
     \<and> length (sc_writes sc) \<le> st_remote (sc_stats sc)"
proof (cases "ms = [] \<or> query = []")
  case True
  have "stats_ok budget (length ms) (sc_stats (empty_scan n))" for n
    by (simp add: stats_ok_def empty_scan_def split: option.split)
  with True mset_take [of limit "sorted_reverse (\<lambda>(i, r). (sm_confidence r, sm_updated r, i)) ms"]
  show ?thesis by (auto simp: search_with_budget_def empty_scan_def multiset.map_comp comp_def)
next
  case False
  define q where "q = embed_with (vs_text s) (vs_provider s) allow_query query"
  define sc where "sc = fold (scan_one s q budget) ms (empty_scan (length ms))"
  have ok: "scan_ok s budget ms sc"
    using scan_ok_fold [where seen = "[]" and sc = "empty_scan (length ms)", OF scan_ok_empty] by (simp add: sc_def)
  have "mset (take limit (sorted_reverse score_key (sc_scored sc))) \<subseteq># mset (sc_scored sc)"
    by (metis mset_take mset_sorted_reverse)
  then have "image_mset (fst \<circ> snd) (mset (take limit (sorted_reverse score_key (sc_scored sc))))
      \<subseteq># image_mset (fst \<circ> snd) (mset (sc_scored sc))" by (rule image_mset_subseteq_mono)
  with ok False show ?thesis
    by (auto simp: search_with_budget_def Let_def scan_ok_def multiset.map_comp
        simp flip: q_def sc_def intro: subset_mset.order_trans)
qed

lemma search_with_budget_hits:
  "length (fst (search_with_budget s query ms limit allow_query budget)) \<le> limit
    \<and> mset (map fst (fst (search_with_budget s query ms limit allow_query budget))) \<subseteq># mset ms"
  using search_budget [where s = s and query = query and ms = ms and limit = limit and allow_query = allow_query and budget = budget] by (simp split: prod.splits)

text \<open>
  A search returns at most \<open>limit\<close> hits, every hit is a candidate and no candidate is a hit more often
  than it was proposed; it asks for at most as many remote embeddings as its budget allows, skips the remote
  service only once the budget is spent, and writes at most one embedding back for each remote request.
\<close>

theorem search_respects_budget:
  "case search_with_budget s query ms limit allow_query budget of (hits, sc) \<Rightarrow>
     length hits \<le> limit \<and> mset (map fst hits) \<subseteq># mset ms \<and> stats_ok budget (length ms) (sc_stats sc)
     \<and> length (sc_writes sc) \<le> st_remote (sc_stats sc)"
  by (rule search_budget)

end
