(* ===== verification/Communication.thy ===== *)
theory Communication
  imports Database PyText
begin

text \<open>
  \<open>communication_store.py\<close>, \<open>agent_execution/workspace_lifecycle/communication.py\<close> and the messages
  of \<open>communication_models.py\<close>: the database between the chat platforms and the agent.  Inbound messages
  become command jobs once, replies become deliveries that are claimed before they are sent, and the
  sessions of a conversation can be deleted.

  Bytes and texts are strings.  The environment holds the clock, \<open>CURRENT_TIMESTAMP\<close>, a fresh UUID, the
  configured limits, the JSON parser, and the transports the task database registered for a clean-up plan
  (\<open>recovery_session\<close> reads them there before it opens this database).
\<close>

section \<open>Messages and commands\<close>

record attachment =
  at_name :: pystr
  at_mime :: pystr
  at_data :: pystr
  at_file :: "pystr option"

record party =
  pa_platform :: pystr
  pa_sender :: pystr
  pa_conversation :: pystr
  pa_project :: pystr

record inbound = party +
  im_id :: pystr
  im_text :: pystr
  im_raw :: json
  im_files :: "attachment list"

datatype job_status = JPending | JRunning | JCancelRequested | JCancelled | JSuspended | JRecovery
  | JCompleted | JFailed | JDeleted

record command = party +
  cm_id :: pystr
  cm_text :: pystr
  cm_status :: job_status
  cm_confirm :: bool
  cm_source :: "nat option"
  cm_files :: "attachment list"
  cm_session :: pystr

definition idempotency_key :: "inbound \<Rightarrow> pystr" where
  "idempotency_key m = pa_platform m @ '':'' @ im_id m"

section \<open>Tables\<close>

record message_row =
  ms_platform :: pystr
  ms_id :: pystr
  ms_conversation :: pystr
  ms_sender :: pystr
  ms_direction :: pystr
  ms_text :: pystr
  ms_raw :: json
  ms_status :: pystr
  ms_created :: pystr
  ms_updated :: pystr
  ms_project :: "pystr option"
  ms_session :: "pystr option"
  ms_owner :: "pystr option"

record job_row = party +
  jb_text :: pystr
  jb_status :: job_status
  jb_confirm :: bool
  jb_source :: "nat option"
  jb_attempts :: nat
  jb_result :: "pystr option"
  jb_error :: "pystr option"
  jb_state :: "pystr option"
  jb_tool :: "pystr option"
  jb_created :: pystr
  jb_updated :: pystr
  jb_ready :: bool
  jb_session :: pystr

record file_row =
  fl_owner :: pystr
  fl_name :: pystr
  fl_mime :: pystr
  fl_file :: "pystr option"
  fl_data :: pystr
  fl_digest :: pystr
  fl_size :: nat
  fl_expires :: time

datatype delivery_state = DPending | DSending | DSent | DUncertain | DDeleted

record delivery_row =
  dl_platform :: pystr
  dl_conversation :: pystr
  dl_sender :: pystr
  dl_project :: pystr
  dl_text :: pystr
  dl_context :: json
  dl_state :: delivery_state
  dl_lease :: "time option"
  dl_error :: "pystr option"
  dl_expires :: time
  dl_session :: pystr
  dl_receipt :: bool

datatype session_state = SActive | SDeleting | SDeleted

type_synonym scope = "pystr \<times> pystr \<times> pystr \<times> pystr"

text \<open>\<open>comm_session_heads\<close> is keyed by platform, sender, conversation and project, \<open>comm_session_states\<close> by
  platform, sender, project and session.\<close>

record comm_db =
  cmsgs :: "(nat, message_row) table"
  cjobs :: "(pystr, job_row) table"
  cfiles :: "(pystr \<times> nat, file_row) table"
  cdeliv :: "(pystr, delivery_row) table"
  ckeys :: "(pystr, pystr) table"
  cheads :: "(scope, pystr) table"
  cstates :: "(scope, pystr \<times> session_state) table"

record comm_env =
  ce_now :: time
  ce_stamp :: pystr
  ce_uuid :: pystr
  ce_loads :: "pystr \<Rightarrow> json option"
  ce_plans :: "pystr \<Rightarrow> pystr \<Rightarrow> scope list"
  ce_file_bytes :: int
  ce_file_count :: int
  ce_file_total :: int
  ce_file_ttl :: int
  ce_key_limit :: int
  ce_delivery_limit :: int
  ce_delivery_bytes :: int
  ce_delivery_ttl :: int

definition empty_comm :: comm_db where
  "empty_comm = \<lparr>cmsgs = [], cjobs = [], cfiles = [], cdeliv = [], ckeys = [], cheads = [], cstates = []\<rparr>"

section \<open>Sessions\<close>

definition recovery_words :: "pystr list" where
  "recovery_words = [''/session-delete confirm '', ''/session-delete status '', ''/session-delete resume '']"

text \<open>The identifier in \<open>/session-delete (confirm|status|resume) <32 hex digits>\<close>.\<close>

definition recovery_id :: "pystr \<Rightarrow> pystr option" where
  "recovery_id text = (let t = py_strip text in map_option (\<lambda>p. drop (length p) t)
     (find (\<lambda>p. py_starts t p \<and> hex_text 32 (drop (length p) t)) recovery_words))"

definition cleanup_control :: "pystr \<Rightarrow> bool" where
  "cleanup_control text \<longleftrightarrow> py_strip text = ''/session-delete preview'' \<or> recovery_id text \<noteq> None"

definition new_session :: "pystr \<Rightarrow> bool" where
  "new_session text \<longleftrightarrow> py_strip text = ''/new-session''"

text \<open>\<open>/cancel \S{1,256}\<close>.\<close>

definition cancel_words :: "pystr \<Rightarrow> bool" where
  "cancel_words text \<longleftrightarrow> (let t = py_strip text; w = drop 8 t in
     py_starts t ''/cancel '' \<and> py_split_ws w = [w] \<and> py_len w \<le> 256)"

definition default_session :: "'a party_scheme \<Rightarrow> pystr" where
  "default_session p = pa_platform p @ '':'' @ pa_conversation p"

definition state_key :: "'a party_scheme \<Rightarrow> pystr \<Rightarrow> scope" where
  "state_key p s = (pa_platform p, pa_sender p, pa_project p, s)"

definition head_key :: "'a party_scheme \<Rightarrow> scope" where
  "head_key p = (pa_platform p, pa_sender p, pa_conversation p, pa_project p)"

definition scope_state :: "scope \<Rightarrow> comm_db \<Rightarrow> session_state" where
  "scope_state k db = (case map_of (cstates db) k of None \<Rightarrow> SActive | Some (_, s) \<Rightarrow> s)"

definition lifecycle_state :: "'a party_scheme \<Rightarrow> pystr \<Rightarrow> comm_db \<Rightarrow> session_state" where
  "lifecycle_state p s db = scope_state (state_key p (if s = [] then default_session p else s)) db"

abbreviation job_lifecycle :: "job_row \<Rightarrow> comm_db \<Rightarrow> session_state" where
  "job_lifecycle r \<equiv> lifecycle_state r (jb_session r)"

text \<open>
  Python unpacks a list, the keys of a dictionary or the characters of a text, each of four.  A project or session that
  is not a text, which \<open>task_owner\<close> never writes, would select no row; it is a \<open>TypeError\<close> here.
\<close>

definition owner_scope :: "json \<Rightarrow> json \<Rightarrow> json \<Rightarrow> json \<Rightarrow> scope result" where
  "owner_scope source identity project session = (case identity of
     JStr i \<Rightarrow> (case py_partition (CHR '':'') i of (platform, found, sender) \<Rightarrow>
       if source \<noteq> JStr ''communication'' \<or> \<not> found then Inl (PermissionError ''Invalid communication owner'')
       else (case (project, session) of (JStr p, JStr s) \<Rightarrow> Inr (platform, sender, p, s)
         | _ \<Rightarrow> Inl (TypeError ''type is not supported'')))
   | _ \<Rightarrow> Inl (AttributeError ''object has no attribute partition''))"

definition scope_from_owner :: "comm_env \<Rightarrow> pystr \<Rightarrow> scope result" where
  "scope_from_owner e own = (case ce_loads e own of
     None \<Rightarrow> Inl (ValueError ''Expecting value'')
   | Some (JArr vs) \<Rightarrow> (case vs of [a, b, c, d] \<Rightarrow> owner_scope a b c d | _ \<Rightarrow> Inl (ValueError ''not enough values to unpack''))
   | Some (JObj kvs) \<Rightarrow> (case map fst kvs of [a, b, c, d] \<Rightarrow> owner_scope (JStr a) (JStr b) (JStr c) (JStr d)
       | _ \<Rightarrow> Inl (ValueError ''not enough values to unpack''))
   | Some (JStr s) \<Rightarrow> if py_len s = 4 then Inl (PermissionError ''Invalid communication owner'')
       else Inl (ValueError ''not enough values to unpack'')
   | Some _ \<Rightarrow> Inl (TypeError ''cannot unpack non-iterable object''))"

definition recovery_principal :: "'a party_scheme \<Rightarrow> pystr" where
  "recovery_principal p = dumps False False (JArr [JStr ''communication'',
     JStr (pa_platform p @ '':'' @ pa_sender p), JStr (pa_project p)])"

definition recovery_session :: "comm_env \<Rightarrow> inbound \<Rightarrow> comm_db \<Rightarrow> pystr option" where
  "recovery_session e m db = (case recovery_id (im_text m) of None \<Rightarrow> None
   | Some i \<Rightarrow> map_option (\<lambda>(_, _, _, s). s) (find (\<lambda>k. case map_of (cstates db) k of None \<Rightarrow> False
        | Some (conv, _) \<Rightarrow> conv = pa_conversation m) (ce_plans e i (recovery_principal m))))"

text \<open>The session column of the message a command comes from, of the same party.\<close>

definition bound_message :: "inbound \<Rightarrow> nat option \<Rightarrow> comm_db \<Rightarrow> pystr option option" where
  "bound_message m source db = (case source of None \<Rightarrow> None | Some i \<Rightarrow> if i = 0 then None else
     (case map_of (cmsgs db) i of None \<Rightarrow> None | Some r \<Rightarrow>
        if ms_platform r = pa_platform m \<and> ms_sender r = pa_sender m \<and> ms_project r = Some (pa_project m)
          \<and> ms_conversation r = pa_conversation m then Some (ms_session r) else None))"

abbreviation truthy :: "pystr option \<Rightarrow> bool" where
  "truthy x \<equiv> x \<noteq> None \<and> x \<noteq> Some []"

definition chosen_session :: "comm_env \<Rightarrow> inbound \<Rightarrow> pystr option option \<Rightarrow> pystr option \<Rightarrow> comm_db \<Rightarrow> pystr" where
  "chosen_session e m bound rec db = (if new_session (im_text m) \<and> bound = None
       then default_session m @ '':'' @ ce_uuid e
     else if bound \<noteq> None \<and> truthy (the bound) then the (the bound)
     else if truthy rec then the rec
     else case map_of (cheads db) (head_key m) of Some s \<Rightarrow> s | None \<Rightarrow> default_session m)"

definition incoming_session :: "comm_env \<Rightarrow> inbound \<Rightarrow> nat option \<Rightarrow> pystr option \<Rightarrow> comm_db \<Rightarrow>
    (pystr \<times> comm_db) result" where
  "incoming_session e m source rec db =
     (let text = im_text m; given = (source \<noteq> None \<and> source \<noteq> Some 0); bound = bound_message m source db;
          session = chosen_session e m bound rec db; k = state_key m session;
          db1 = db\<lparr>cstates := insert_or_ignore k (pa_conversation m, SActive) (cstates db)\<rparr>;
          st = scope_state k db1
      in bind_result (guard (im_files m = [] \<or> \<not> (cleanup_control text \<or> new_session text))
           (ValueError ''Attachments cannot accompany session control commands'')) (\<lambda>_.
         bind_result (guard (given \<longrightarrow> bound \<noteq> None)
           (PermissionError ''Source message belongs to another conversation'')) (\<lambda>_.
         bind_result (guard (st = SActive \<or> recovery_id text \<noteq> None \<or> st = SDeleting \<and> cancel_words text)
           (DeletedConversation ''Conversation was deleted; use /new-session to begin a new conversation'')) (\<lambda>_.
         Inr (session, if bound = None \<and> \<not> truthy rec
           then db1\<lparr>cheads := upsert_row (head_key m) session (\<lambda>_. session) (cheads db1)\<rparr> else db1)))))"

section \<open>Attachments\<close>

definition attachment_owner :: "'a party_scheme \<Rightarrow> pystr" where
  "attachment_owner p = dumps True True (JArr [JStr (pa_platform p), JStr (pa_sender p),
     JStr (pa_conversation p), JStr (pa_project p)])"

definition mime_char :: "char \<Rightarrow> bool" where
  "mime_char c \<longleftrightarrow> is_digit c \<or> (let n = of_char (ascii_lower c) :: nat in 97 \<le> n \<and> n \<le> 122)
     \<or> c \<in> set ''!#$&^_.+-''"

definition mime_ok :: "pystr \<Rightarrow> bool" where
  "mime_ok s \<longleftrightarrow> (case py_split (CHR ''/'') s of
     [a, b] \<Rightarrow> a \<noteq> [] \<and> b \<noteq> [] \<and> list_all mime_char a \<and> list_all mime_char b | _ \<Rightarrow> False)"

definition signatures :: "(pystr \<times> pystr) list" where
  "signatures = [(''image/png'', map char_of [137, 80, 78, 71, 13, 10, 26, 10 :: nat]),
     (''image/jpeg'', map char_of [255, 216, 255 :: nat]), (''image/gif'', ''GIF''),
     (''application/pdf'', ''%PDF-'')]"

definition content_ok :: "attachment \<Rightarrow> bool" where
  "content_ok a \<longleftrightarrow> (case map_of signatures (at_mime a) of None \<Rightarrow> True | Some s \<Rightarrow> py_starts (at_data a) s)
     \<and> (at_mime a = ''image/webp'' \<longrightarrow> py_starts (at_data a) ''RIFF'' \<and> take 4 (drop 8 (at_data a)) = ''WEBP'')"

definition filename_ok :: "pystr \<Rightarrow> bool" where
  "filename_ok s \<longleftrightarrow> s \<noteq> [] \<and> py_len s \<le> 255 \<and> list_all (\<lambda>c. c \<noteq> CHR ''/'' \<and> c \<noteq> CHR 0x5C \<and> c \<noteq> CHR 0x00) s
     \<and> s \<noteq> ''.'' \<and> s \<noteq> ''..''"

definition check_file :: "comm_env \<Rightarrow> attachment \<Rightarrow> unit result" where
  "check_file e a =
     bind_result (positive_limit ''COMM_ATTACHMENT_MAX_BYTES'' (ce_file_bytes e)) (\<lambda>n.
     bind_result (guard (int (byte_len (at_data a)) \<le> n) (CapacityError ''Attachment exceeds file size limit'')) (\<lambda>_.
     bind_result (guard (mime_ok (at_mime a)) (ValueError ''Attachment MIME type is invalid'')) (\<lambda>_.
     bind_result (guard (content_ok a) (ValueError ''Attachment content does not match declared MIME type'')) (\<lambda>_.
     guard (filename_ok (at_name a)) (ValueError ''Attachment filename is invalid'')))))"

fun check_files :: "comm_env \<Rightarrow> attachment list \<Rightarrow> unit result" where
  "check_files e [] = Inr ()"
| "check_files e (a # as) = bind_result (check_file e a) (\<lambda>_. check_files e as)"

definition file_of :: "comm_env \<Rightarrow> pystr \<Rightarrow> attachment \<Rightarrow> file_row" where
  "file_of e own a = \<lparr>fl_owner = own, fl_name = at_name a, fl_mime = at_mime a, fl_file = at_file a,
     fl_data = at_data a, fl_digest = sha256 (at_data a), fl_size = byte_len (at_data a),
     fl_expires = ce_now e + real_of_int (ce_file_ttl e)\<rparr>"

definition batch_bytes :: "attachment list \<Rightarrow> nat" where
  "batch_bytes as = sum_list (map (\<lambda>a. byte_len (at_data a)) as)"

definition save_attachments :: "comm_env \<Rightarrow> inbound \<Rightarrow> comm_db \<Rightarrow> comm_db result" where
  "save_attachments e m db = (let as = im_files m; k = idempotency_key m in
     bind_result (guard (length as \<le> 16 \<and> batch_bytes as \<le> 33554432)
       (CapacityError ''Attachment batch exceeds count/size limit'')) (\<lambda>_.
     bind_result (check_files e as) (\<lambda>_.
     if 0 < count_where (\<lambda>(c, _) _. c = k) (cfiles db) then Inr db else
     bind_result (positive_limit ''COMM_ATTACHMENT_COUNT'' (ce_file_count e)) (\<lambda>n.
     bind_result (guard (int (length (cfiles db) + length as) \<le> n)
       (CapacityError ''Attachment metadata capacity reached'')) (\<lambda>_.
     bind_result (positive_limit ''COMM_ATTACHMENT_TOTAL_BYTES'' (ce_file_total e)) (\<lambda>b.
     bind_result (guard (int (column_sum (\<lambda>_. fl_size) (cfiles db) + batch_bytes as) \<le> b)
       (CapacityError ''Attachment storage capacity reached'')) (\<lambda>_.
     bind_result (if as = [] then Inr 0 else positive_limit ''COMM_ATTACHMENT_TTL'' (ce_file_ttl e)) (\<lambda>_.
     Inr (db\<lparr>cfiles := cfiles db @ map (\<lambda>(i, a). ((k, i), file_of e (attachment_owner m) a)) (enumerate 0 as)\<rparr>)))))))))"

section \<open>Inbound messages\<close>

definition command_of :: "pystr \<Rightarrow> job_row \<Rightarrow> attachment list \<Rightarrow> command" where
  "command_of i r as = \<lparr>pa_platform = pa_platform r, pa_sender = pa_sender r, pa_conversation = pa_conversation r,
     pa_project = pa_project r, cm_id = i, cm_text = jb_text r, cm_status = jb_status r, cm_confirm = jb_confirm r,
     cm_source = jb_source r, cm_files = as, cm_session = jb_session r\<rparr>"

definition attachment_of :: "comm_env \<Rightarrow> file_row \<Rightarrow> attachment result" where
  "attachment_of e f =
     bind_result (guard (ce_now e < fl_expires f) (ValueError ''Attachment expired; upload it again'')) (\<lambda>_.
     bind_result (guard (byte_len (fl_data f) = fl_size f \<and> sha256 (fl_data f) = fl_digest f)
       (ValueError ''Attachment integrity check failed'')) (\<lambda>_.
     Inr \<lparr>at_name = fl_name f, at_mime = fl_mime f, at_data = fl_data f, at_file = fl_file f\<rparr>))"

fun attachments_of :: "comm_env \<Rightarrow> file_row list \<Rightarrow> attachment list result" where
  "attachments_of e [] = Inr []"
| "attachments_of e (f # fs) = bind_result (attachment_of e f) (\<lambda>a. bind_result (attachments_of e fs) (\<lambda>as. Inr (a # as)))"

definition load_attachments :: "comm_env \<Rightarrow> pystr \<Rightarrow> command \<Rightarrow> comm_db \<Rightarrow> attachment list result" where
  "load_attachments e i own db = (case map_of (cjobs db) i of
     None \<Rightarrow> Inl (PermissionError ''Attachment belongs to another identity/session/project'')
   | Some r \<Rightarrow>
       bind_result (guard (attachment_owner own = attachment_owner r)
         (PermissionError ''Attachment belongs to another identity/session/project'')) (\<lambda>_.
       bind_result (guard (cm_session own = [] \<or> cm_session own = jb_session r)
         (PermissionError ''Attachment belongs to a different conversation session'')) (\<lambda>_.
       if job_lifecycle r db \<noteq> SActive then
         (if cleanup_control (jb_text r) then Inr []
          else Inl (DeletedConversation ''Attachments were deleted with the conversation''))
       else attachments_of e (map snd (asc (\<lambda>((_, n), _). n)
         (select_where (\<lambda>(c, _) f. c = i \<and> fl_owner f = attachment_owner own) (cfiles db)))))))"

definition command_by_id :: "comm_env \<Rightarrow> pystr \<Rightarrow> bool \<Rightarrow> comm_db \<Rightarrow> command result" where
  "command_by_id e i files db = (case map_of (cjobs db) i of None \<Rightarrow> Inl (KeyError i)
   | Some r \<Rightarrow> if \<not> files then Inr (command_of i r [])
       else bind_result (load_attachments e i (command_of i r []) db) (\<lambda>as. Inr (command_of i r as)))"

definition attachment_metadata :: "attachment \<Rightarrow> json" where
  "attachment_metadata a = JObj [(''filename'', JStr (at_name a)), (''content_type'', JStr (at_mime a)),
     (''size_bytes'', JInt (int (byte_len (at_data a)))),
     (''platform_file_id'', (case at_file a of None \<Rightarrow> JNull | Some s \<Rightarrow> JStr s))]"

definition raw_payload :: "inbound \<Rightarrow> json" where
  "raw_payload m = (if cleanup_control (im_text m) \<or> new_session (im_text m) then JObj []
     else let d = jor (im_raw m) (JObj []) in if im_files m = [] then d
       else jset d ''attachments'' (JArr (map attachment_metadata (im_files m))))"

definition message_of :: "comm_env \<Rightarrow> inbound \<Rightarrow> message_row" where
  "message_of e m = \<lparr>ms_platform = pa_platform m, ms_id = im_id m, ms_conversation = pa_conversation m,
     ms_sender = pa_sender m, ms_direction = ''inbound'', ms_text = im_text m, ms_raw = raw_payload m,
     ms_status = ''received'', ms_created = ce_stamp e, ms_updated = ce_stamp e, ms_project = None, ms_session = None, ms_owner = None\<rparr>"

text \<open>\<open>UNIQUE(platform, platform_message_id, direction)\<close>.\<close>

definition find_message :: "pystr \<Rightarrow> pystr \<Rightarrow> pystr \<Rightarrow> comm_db \<Rightarrow> (nat \<times> message_row) option" where
  "find_message platform i dir db = find (\<lambda>(_, r). ms_platform r = platform \<and> ms_id r = i \<and> ms_direction r = dir) (cmsgs db)"

definition insert_message :: "message_row \<Rightarrow> comm_db \<Rightarrow> comm_db" where
  "insert_message r db = (case find_message (ms_platform r) (ms_id r) (ms_direction r) db of
     Some _ \<Rightarrow> db | None \<Rightarrow> db\<lparr>cmsgs := add_row r (cmsgs db)\<rparr>)"

definition own_message :: "inbound \<Rightarrow> pystr \<Rightarrow> nat \<Rightarrow> comm_db \<Rightarrow> comm_db" where
  "own_message m session i db = db\<lparr>cmsgs := update_key i (\<lambda>_. True) (\<lambda>r. r\<lparr>ms_project := Some (pa_project m),
     ms_session := Some session, ms_owner := Some (pa_sender m)\<rparr>) (cmsgs db)\<rparr>"

definition store_message :: "comm_env \<Rightarrow> inbound \<Rightarrow> pystr \<Rightarrow> comm_db \<Rightarrow> nat \<times> comm_db" where
  "store_message e m session db = (let db1 = insert_message (message_of e m) db;
     i = (case find_message (pa_platform m) (im_id m) ''inbound'' db1 of Some (i, _) \<Rightarrow> i | None \<Rightarrow> 0)
   in (i, own_message m session i db1))"

definition record_inbound_message :: "comm_env \<Rightarrow> inbound \<Rightarrow> comm_db \<Rightarrow> (nat \<times> bool) result \<times> comm_db" where
  "record_inbound_message e m db = txn db
     (case find_message (pa_platform m) (im_id m) ''inbound'' db of
        Some (i, r) \<Rightarrow> bind_result (guard (ms_sender r = pa_sender m \<and> ms_conversation r = pa_conversation m
            \<and> ms_project r = Some (pa_project m)) (PermissionError ''Duplicate input belongs to another owner''))
          (\<lambda>_. Inr ((i, False), db))
      | None \<Rightarrow> bind_result (incoming_session e m None (recovery_session e m db) db) (\<lambda>(session, db1).
          case store_message e m session db1 of (i, db2) \<Rightarrow> Inr ((i, True), db2)))"

definition job_of :: "comm_env \<Rightarrow> inbound \<Rightarrow> nat \<Rightarrow> pystr \<Rightarrow> job_row" where
  "job_of e m source session = \<lparr>pa_platform = pa_platform m, pa_sender = pa_sender m,
     pa_conversation = pa_conversation m, pa_project = pa_project m, jb_text = im_text m, jb_status = JPending,
     jb_confirm = False, jb_source = Some source, jb_attempts = 0, jb_result = None, jb_error = None,
     jb_state = None, jb_tool = None, jb_created = ce_stamp e, jb_updated = ce_stamp e, jb_ready = (pa_platform m \<noteq> ''discord''),
     jb_session = session\<rparr>"

definition enqueue_command :: "comm_env \<Rightarrow> inbound \<Rightarrow> nat \<Rightarrow> comm_db \<Rightarrow> command result \<times> comm_db" where
  "enqueue_command e m source db = (let k = idempotency_key m in
     case map_of (cjobs db) k of
       Some r \<Rightarrow> (if attachment_owner m \<noteq> attachment_owner r
          then Inl (PermissionError ''Duplicate command belongs to another owner'') else Inr (command_of k r []), db)
     | None \<Rightarrow> (case txn db
          (bind_result (incoming_session e m (Some source) (recovery_session e m db) db) (\<lambda>(session, db1).
           bind_result (save_attachments e m db1) (\<lambda>db2.
           Inr ((), db2\<lparr>cjobs := cjobs db2 @ [(k, job_of e m source session)]\<rparr>)))) of
          (Inl x, db') \<Rightarrow> (Inl x, db') | (Inr _, db') \<Rightarrow> (command_by_id e k True db', db')))"

definition ingest_inbound_message :: "comm_env \<Rightarrow> inbound \<Rightarrow> comm_db \<Rightarrow> (command \<times> bool) result \<times> comm_db" where
  "ingest_inbound_message e m db = (let k = idempotency_key m in
     case map_of (cjobs db) k of
       Some r \<Rightarrow> (if attachment_owner m \<noteq> attachment_owner r
          then Inl (PermissionError ''Duplicate event belongs to another identity/session/project'')
          else Inr (command_of k r [], False), db)
     | None \<Rightarrow> (case txn db
          (bind_result (incoming_session e m None (recovery_session e m db) db) (\<lambda>(session, db1).
           bind_result (save_attachments e m db1) (\<lambda>db2. case store_message e m session db2 of (i, db3) \<Rightarrow>
           Inr ((), db3\<lparr>cjobs := cjobs db3 @ [(k, job_of e m i session)]\<rparr>)))) of
          (Inl x, db') \<Rightarrow> (Inl x, db')
        | (Inr _, db') \<Rightarrow> (bind_result (command_by_id e k True db') (\<lambda>c. Inr (c, True)), db')))"

section \<open>Command jobs\<close>

text \<open>Rows of \<open>agent_command_jobs\<close> are never deleted, so the order of the table is the order of \<open>id\<close>.\<close>

definition pending_commands :: "nat \<Rightarrow> comm_db \<Rightarrow> command list" where
  "pending_commands n db = map (\<lambda>(i, r). command_of i r []) (take n
     (select_where (\<lambda>_ r. jb_status r = JPending \<and> jb_ready r) (cjobs db)))"

definition recoverable_commands :: "comm_db \<Rightarrow> command list" where
  "recoverable_commands db = map (\<lambda>(i, r). command_of i r []) (take 100
     (select_where (\<lambda>_ r. jb_status r \<in> {JRunning, JRecovery}) (cjobs db)))"

definition set_job :: "pystr \<Rightarrow> (job_row \<Rightarrow> bool) \<Rightarrow> (job_row \<Rightarrow> job_row) \<Rightarrow> comm_db \<Rightarrow> comm_db" where
  "set_job i c f db = db\<lparr>cjobs := update_key i c f (cjobs db)\<rparr>"

definition set_recovery_state :: "comm_env \<Rightarrow> pystr \<Rightarrow> job_status \<Rightarrow> comm_db \<Rightarrow> comm_db" where
  "set_recovery_state e i st db = set_job i (\<lambda>r. jb_status r \<in> {JRunning, JRecovery})
     (\<lambda>r. r\<lparr>jb_status := st, jb_updated := ce_stamp e\<rparr>) db"

definition may_run :: "job_row \<Rightarrow> comm_db \<Rightarrow> bool" where
  "may_run r db \<longleftrightarrow> job_lifecycle r db = SActive \<or> cleanup_control (jb_text r) \<or> py_starts (jb_text r) ''/cancel ''"

definition mark_command_running :: "comm_env \<Rightarrow> pystr \<Rightarrow> comm_db \<Rightarrow> bool \<times> comm_db" where
  "mark_command_running e i db = (let c = (\<lambda>r. jb_status r \<in> {JPending, JSuspended}) in
     if row_where i (\<lambda>r. \<not> may_run r db) (cjobs db) then (False, db)
     else (row_where i c (cjobs db), set_job i c (\<lambda>r. r\<lparr>jb_status := JRunning, jb_attempts := jb_attempts r + 1,
       jb_updated := ce_stamp e\<rparr>) db))"

definition stopped :: "job_row \<Rightarrow> job_row" where
  "stopped r = r\<lparr>jb_status := JCancelled, jb_result := Some [], jb_error := None, jb_state := None, jb_tool := None\<rparr>"

definition coalesce :: "'b option \<Rightarrow> 'b option \<Rightarrow> 'b option" where
  "coalesce a b = (if a = None then b else a)"

text \<open>\<open>_update_command\<close> for the two states its callers pass; \<open>increment_attempts\<close> is never set.\<close>

definition update_command :: "comm_env \<Rightarrow> pystr \<Rightarrow> job_status \<Rightarrow> pystr option \<Rightarrow> pystr option \<Rightarrow> comm_db \<Rightarrow> comm_db" where
  "update_command e i st out err db = (if row_where i (\<lambda>r. job_lifecycle r db \<noteq> SActive) (cjobs db)
     then (if row_where i (\<lambda>r. job_lifecycle r db = SDeleting) (cjobs db) \<and> st \<in> {JCompleted, JFailed}
           then set_job i (\<lambda>_. True) stopped db else db)
     else set_job i (\<lambda>_. True) (\<lambda>r. r\<lparr>
       jb_status := (if jb_status r \<in> {JCancelRequested, JCancelled} \<and> st \<in> {JCompleted, JFailed, JRunning}
                     then JCancelled else st),
       jb_result := coalesce out (jb_result r), jb_error := err, jb_updated := ce_stamp e\<rparr>) db)"

definition complete_command :: "comm_env \<Rightarrow> pystr \<Rightarrow> pystr \<Rightarrow> comm_db \<Rightarrow> comm_db" where
  "complete_command e i out db = update_command e i JCompleted (Some out) None db"

definition fail_command :: "comm_env \<Rightarrow> pystr \<Rightarrow> pystr \<Rightarrow> comm_db \<Rightarrow> comm_db" where
  "fail_command e i err db = update_command e i JFailed None (Some err) db"

definition same_party :: "'a party_scheme \<Rightarrow> 'b party_scheme \<Rightarrow> bool" where
  "same_party p q \<longleftrightarrow> pa_platform p = pa_platform q \<and> pa_conversation p = pa_conversation q
     \<and> pa_sender p = pa_sender q \<and> pa_project p = pa_project q"

definition owner_filter :: "command option \<Rightarrow> job_row \<Rightarrow> bool" where
  "owner_filter own r \<longleftrightarrow> (case own of None \<Rightarrow> True | Some c \<Rightarrow> same_party c r
     \<and> (cm_session c = [] \<or> cm_session c = jb_session r))"

definition cancel_command :: "pystr \<Rightarrow> command option \<Rightarrow> comm_db \<Rightarrow> bool \<times> comm_db" where
  "cancel_command i own db = (let c = (\<lambda>r. owner_filter own r \<and> jb_status r \<in> {JPending, JRunning, JSuspended}) in
     (row_where i c (cjobs db), set_job i c (\<lambda>r. r\<lparr>jb_status :=
       (if jb_status r = JRunning then JCancelRequested else JCancelled)\<rparr>) db))"

definition cancel_session :: "command \<Rightarrow> comm_db \<Rightarrow> comm_db" where
  "cancel_session own db = db\<lparr>cjobs := update_where (\<lambda>i r. owner_filter (Some own) r \<and> i \<noteq> cm_id own
       \<and> jb_status r \<in> {JPending, JRunning, JCancelRequested, JSuspended})
     (\<lambda>r. r\<lparr>jb_status := (if jb_status r \<in> {JRunning, JCancelRequested} then JCancelRequested else JCancelled),
            jb_state := None, jb_tool := None\<rparr>) (cjobs db)\<rparr>"

definition query_jobs_status :: "nat \<Rightarrow> command option \<Rightarrow> comm_db \<Rightarrow> command list" where
  "query_jobs_status n own db = map (\<lambda>(i, r). command_of i r []) (take n
     (rev (select_where (\<lambda>_ r. owner_filter own r) (cjobs db))))"

definition is_cancel_requested :: "pystr \<Rightarrow> comm_db \<Rightarrow> bool" where
  "is_cancel_requested i db \<longleftrightarrow> row_where i (\<lambda>r. jb_status r \<in> {JCancelRequested, JCancelled, JDeleted}) (cjobs db)"

text \<open>SQLite's \<open>LIKE\<close> ignores the case of ASCII letters; the prefix is escaped.\<close>

definition resolve_command_id :: "pystr \<Rightarrow> command option \<Rightarrow> comm_db \<Rightarrow> pystr option" where
  "resolve_command_id p own db = (if p = [] then None else
     case select_where (\<lambda>i r. py_starts (map ascii_lower i) (map ascii_lower p) \<and> owner_filter own r) (cjobs db) of
       [(i, _)] \<Rightarrow> Some i | _ \<Rightarrow> None)"

definition suspend_command :: "comm_env \<Rightarrow> pystr \<Rightarrow> pystr \<Rightarrow> pystr \<Rightarrow> comm_db \<Rightarrow> comm_db" where
  "suspend_command e i state tool db = (if row_where i (\<lambda>r. job_lifecycle r db \<noteq> SActive) (cjobs db) then db
     else set_job i (\<lambda>r. jb_status r \<in> {JPending, JRunning}) (\<lambda>r. r\<lparr>jb_status := JSuspended,
       jb_state := Some state, jb_tool := Some tool, jb_updated := ce_stamp e\<rparr>) db)"

definition get_suspended_command :: "pystr \<Rightarrow> command option \<Rightarrow> comm_db \<Rightarrow> (pystr \<times> pystr \<times> pystr) option" where
  "get_suspended_command conv own db =
     (case rev (select_where (\<lambda>_ r. pa_conversation r = conv \<and> owner_filter own r \<and> jb_status r = JSuspended) (cjobs db)) of
        [] \<Rightarrow> None
      | (i, r) # _ \<Rightarrow> if truthy (jb_state r) \<and> truthy (jb_tool r) then Some (i, the (jb_state r), the (jb_tool r)) else None)"

definition clear_suspended_command :: "comm_env \<Rightarrow> pystr \<Rightarrow> command option \<Rightarrow> comm_db \<Rightarrow> nat \<times> comm_db" where
  "clear_suspended_command e conv own db =
     (let c = (\<lambda>_ r. pa_conversation r = conv \<and> owner_filter own r \<and> jb_status r = JSuspended) in
      (count_where c (cjobs db), db\<lparr>cjobs := update_where c (\<lambda>r. r\<lparr>jb_status := JCancelled, jb_state := None,
         jb_tool := None, jb_updated := ce_stamp e\<rparr>) (cjobs db)\<rparr>))"

definition release_discord_interaction :: "pystr \<Rightarrow> comm_db \<Rightarrow> comm_db" where
  "release_discord_interaction i db = db\<lparr>cjobs := update_where (\<lambda>_ r. pa_platform r = ''discord''
       \<and> (case jb_source r of None \<Rightarrow> False | Some s \<Rightarrow> row_where s (\<lambda>x. ms_platform x = ''discord''
            \<and> ms_id x = i \<and> ms_direction x = ''inbound'') (cmsgs db)))
     (\<lambda>r. r\<lparr>jb_ready := True\<rparr>) (cjobs db)\<rparr>"

definition reply_context :: "nat option \<Rightarrow> comm_db \<Rightarrow> json" where
  "reply_context source db = (case source of None \<Rightarrow> JObj [] | Some i \<Rightarrow> (case map_of (cmsgs db) i of
     None \<Rightarrow> JObj []
   | Some r \<Rightarrow> if ms_platform r = ''discord'' \<and> ms_direction r = ''inbound''
       then JObj (map (\<lambda>k. (k, jget (ms_raw r) k)) (filter (\<lambda>k. jfield (ms_raw r) k \<noteq> None)
         [''token'', ''application_id'', ''interaction_id'', ''received_at''])) else JObj []))"

definition record_outbound_message :: "comm_env \<Rightarrow> pystr \<Rightarrow> pystr \<Rightarrow> pystr \<Rightarrow> pystr \<Rightarrow> pystr \<Rightarrow> comm_db \<Rightarrow> nat result \<times> comm_db" where
  "record_outbound_message e platform conv text i sender db = txn db
     (case find_message platform i ''outbound'' db of
        Some _ \<Rightarrow> Inl (IntegrityError ''UNIQUE constraint failed: comm_messages'')
      | None \<Rightarrow> Inr (next_id (cmsgs db), insert_message \<lparr>ms_platform = platform, ms_id = i, ms_conversation = conv,
          ms_sender = sender, ms_direction = ''outbound'', ms_text = text, ms_raw = JObj [], ms_status = ''sent'',
          ms_created = ce_stamp e, ms_updated = ce_stamp e, ms_project = None, ms_session = None, ms_owner = None\<rparr> db))"

definition recent_messages :: "nat \<Rightarrow> comm_db \<Rightarrow> (nat \<times> message_row) list" where
  "recent_messages n db = take n (desc fst (cmsgs db))"

section \<open>Deliveries\<close>

text \<open>The key of a delivery: of a durable event, or of the content.\<close>

definition delivery_key :: "command \<Rightarrow> pystr \<Rightarrow> bool \<Rightarrow> pystr option \<Rightarrow> pystr result" where
  "delivery_key c text err event = (case event of
     None \<Rightarrow> Inr (cm_id c @ '':'' @ (if err then ''error'' else ''outbound'') @ '':'' @ sha256 text)
   | Some k \<Rightarrow> if hex_text 64 k then Inr (cm_id c @ '':temporal:'' @ k)
       else Inl (ValueError ''Invalid durable communication event ID''))"

definition receipt_states :: "pystr list" where
  "receipt_states = [''deleted'', ''blocked'', ''deleting'', ''preview'', ''completed'']"

definition receipt_refused :: exn where
  "receipt_refused = PermissionError ''Only a minimal cleanup receipt is permitted''"

text \<open>The check of the receipt a deleted conversation may still be sent: \<open>set\<close> of a list of strings
  is a set of keys too, but a list has no \<open>['state']\<close>; a list or a dictionary has no hash.\<close>

definition check_receipt :: "json \<Rightarrow> unit result" where
  "check_receipt v = (case v of
     JObj kvs \<Rightarrow> if \<not> has_keys v [''operation_id'', ''state''] then Inl receipt_refused else
       (case jget v ''state'' of
          JArr _ \<Rightarrow> Inl (TypeError ''unhashable type'') | JObj _ \<Rightarrow> Inl (TypeError ''unhashable type'')
        | JStr s \<Rightarrow> if s \<notin> set receipt_states then Inl receipt_refused else
            (case jget v ''operation_id'' of
               JStr i \<Rightarrow> if hex_text 32 i then Inr () else Inl receipt_refused
             | _ \<Rightarrow> Inl (TypeError ''expected string or bytes-like object''))
        | _ \<Rightarrow> Inl receipt_refused)
   | JStr _ \<Rightarrow> Inl receipt_refused
   | JArr xs \<Rightarrow> if list_all (\<lambda>x. \<not> is_list x \<and> \<not> is_dict x) xs
         \<and> set xs \<noteq> {JStr ''operation_id'', JStr ''state''} then Inl receipt_refused
       else Inl (TypeError ''list indices must be integers or slices'')
   | _ \<Rightarrow> Inl (TypeError ''object is not iterable''))"

text \<open>The reply context a delivery may carry: the given one in an active session, none with a receipt.\<close>

definition admit_delivery :: "comm_env \<Rightarrow> command \<Rightarrow> pystr \<Rightarrow> json \<Rightarrow> bool \<Rightarrow> comm_db \<Rightarrow> json result" where
  "admit_delivery e c text ctxt receipt db =
     (if lifecycle_state c (cm_session c) db = SActive then Inr ctxt
      else if \<not> receipt \<or> \<not> cleanup_control (cm_text c)
        then Inl (DeletedConversation ''Deleted conversation cannot queue replies'')
      else case ce_loads e text of None \<Rightarrow> Inl (ValueError ''Expecting value'')
        | Some v \<Rightarrow> bind_result (check_receipt v) (\<lambda>_. Inr (JObj [])))"

definition event_fingerprint :: "command \<Rightarrow> pystr \<Rightarrow> bool \<Rightarrow> pystr" where
  "event_fingerprint c text err = sha256 (dumps False False (JArr [JStr text, JStr (pa_platform c),
     JStr (pa_sender c), JStr (pa_conversation c), JStr (pa_project c), JStr (cm_session c), JBool err]))"

text \<open>\<open>comm_event_keys\<close> remembers the events for good: True when the event was queued before.\<close>

definition note_event :: "comm_env \<Rightarrow> pystr \<Rightarrow> pystr \<Rightarrow> comm_db \<Rightarrow> (bool \<times> comm_db) result" where
  "note_event e key fingerprint db = (case map_of (ckeys db) key of
     Some f \<Rightarrow> if f \<noteq> fingerprint then Inl (ValueError ''Communication event reused with different content/owner'')
       else Inr (True, db)
   | None \<Rightarrow> bind_result (positive_limit ''COMM_DELIVERY_KEY_LIMIT'' (ce_key_limit e)) (\<lambda>n.
       if n \<le> int (length (ckeys db)) then Inl (CapacityError ''Communication event identity capacity reached'')
       else Inr (False, db\<lparr>ckeys := ckeys db @ [(key, fingerprint)]\<rparr>)))"

definition delivery_bytes :: "delivery_row \<Rightarrow> nat" where
  "delivery_bytes r = byte_len (dl_text r) + json_bytes True False (dl_context r)"

definition delivery_of :: "comm_env \<Rightarrow> command \<Rightarrow> pystr \<Rightarrow> json \<Rightarrow> bool \<Rightarrow> int \<Rightarrow> delivery_row" where
  "delivery_of e c text ctxt receipt ttl = \<lparr>dl_platform = pa_platform c, dl_conversation = pa_conversation c,
     dl_sender = pa_sender c, dl_project = pa_project c, dl_text = text, dl_context = ctxt, dl_state = DPending,
     dl_lease = None, dl_error = None, dl_expires = ce_now e + real_of_int ttl,
     dl_session = (if cm_session c = [] then default_session c else cm_session c), dl_receipt = receipt\<rparr>"

definition store_delivery :: "comm_env \<Rightarrow> command \<Rightarrow> pystr \<Rightarrow> pystr \<Rightarrow> json \<Rightarrow> bool \<Rightarrow> comm_db \<Rightarrow> (pystr \<times> comm_db) result" where
  "store_delivery e c key text ctxt receipt db = (if map_of (cdeliv db) key \<noteq> None then Inr (key, db) else
     bind_result (if byte_len text > 2097152 then Inr 0
       else positive_limit ''COMM_DELIVERY_LIMIT'' (ce_delivery_limit e)) (\<lambda>n.
     bind_result (guard (byte_len text \<le> 2097152 \<and> int (length (cdeliv db)) < n)
       (CapacityError ''Platform delivery capacity reached'')) (\<lambda>_.
     bind_result (positive_limit ''COMM_DELIVERY_BYTES'' (ce_delivery_bytes e)) (\<lambda>b.
     bind_result (guard (int (column_sum (\<lambda>_. delivery_bytes) (cdeliv db) + byte_len text + json_bytes True False ctxt) \<le> b)
       (CapacityError ''Platform delivery storage capacity reached'')) (\<lambda>_.
     bind_result (positive_limit ''COMM_DELIVERY_TTL'' (ce_delivery_ttl e)) (\<lambda>ttl.
     Inr (key, db\<lparr>cdeliv := cdeliv db @ [(key, delivery_of e c text ctxt receipt ttl)]\<rparr>)))))))"

definition queue_delivery :: "comm_env \<Rightarrow> command \<Rightarrow> pystr \<Rightarrow> json \<Rightarrow> bool \<Rightarrow> bool \<Rightarrow> pystr option \<Rightarrow> comm_db \<Rightarrow>
    pystr result \<times> comm_db" where
  "queue_delivery e c text ctxt err receipt event db = txn db
     (bind_result (delivery_key c text err event) (\<lambda>key.
      bind_result (admit_delivery e c text ctxt receipt db) (\<lambda>ctxt'.
      bind_result (case event of None \<Rightarrow> Inr (False, db)
        | Some _ \<Rightarrow> note_event e key (event_fingerprint c text err) db) (\<lambda>(known, db1).
      if known then Inr (key, db1) else store_delivery e c key text ctxt' receipt db1))))"

definition pending_deliveries :: "comm_env \<Rightarrow> pystr option \<Rightarrow> comm_db \<Rightarrow> (pystr \<times> delivery_row) list" where
  "pending_deliveries e i db = take 20 (select_where (\<lambda>k r. dl_state r = DPending \<and> ce_now e < dl_expires r
     \<and> (case i of None \<Rightarrow> True | Some x \<Rightarrow> k = x)) (cdeliv db))"

definition set_delivery :: "pystr \<Rightarrow> (delivery_row \<Rightarrow> bool) \<Rightarrow> (delivery_row \<Rightarrow> delivery_row) \<Rightarrow> comm_db \<Rightarrow> comm_db" where
  "set_delivery k c f db = db\<lparr>cdeliv := update_key k c f (cdeliv db)\<rparr>"

definition delivery_scope :: "delivery_row \<Rightarrow> scope" where
  "delivery_scope r = (dl_platform r, dl_sender r, dl_project r, dl_session r)"

definition claimable :: "comm_env \<Rightarrow> delivery_row \<Rightarrow> bool" where
  "claimable e r \<longleftrightarrow> dl_state r = DPending \<and> ce_now e < dl_expires r"

definition claim_delivery :: "comm_env \<Rightarrow> pystr \<Rightarrow> comm_db \<Rightarrow> bool \<times> comm_db" where
  "claim_delivery e k db =
     (if row_where k (\<lambda>r. \<not> dl_receipt r \<and> scope_state (delivery_scope r) db \<noteq> SActive) (cdeliv db) then (False, db)
      else (row_where k (claimable e) (cdeliv db), set_delivery k (claimable e)
        (\<lambda>r. r\<lparr>dl_state := DSending, dl_lease := Some (ce_now e + 120)\<rparr>) db))"

definition sent_message :: "comm_env \<Rightarrow> pystr \<Rightarrow> delivery_row \<Rightarrow> message_row" where
  "sent_message e k r = \<lparr>ms_platform = dl_platform r, ms_id = k, ms_conversation = dl_conversation r,
     ms_sender = ''agent'', ms_direction = ''outbound'', ms_text = dl_text r, ms_raw = JObj [], ms_status = ''sent'',
     ms_created = ce_stamp e, ms_updated = ce_stamp e, ms_project = Some (dl_project r), ms_session = Some (dl_session r), ms_owner = Some (dl_sender r)\<rparr>"

definition finish_delivery :: "comm_env \<Rightarrow> pystr \<Rightarrow> delivery_state \<Rightarrow> pystr option \<Rightarrow> comm_db \<Rightarrow> comm_db" where
  "finish_delivery e k st err db = (case map_of (cdeliv db) k of None \<Rightarrow> db
   | Some r \<Rightarrow> if dl_state r \<noteq> DSending then db
       else (let db1 = set_delivery k (\<lambda>_. True) (\<lambda>r. r\<lparr>dl_state := st, dl_error := err, dl_lease := None\<rparr>) db
             in if st = DSent then insert_message (sent_message e k r) db1 else db1))"

definition lease_over :: "comm_env \<Rightarrow> delivery_row \<Rightarrow> bool" where
  "lease_over e r \<longleftrightarrow> dl_state r = DSending \<and> (case dl_lease r of None \<Rightarrow> False | Some t \<Rightarrow> t \<le> ce_now e)"

definition cleanup_expired :: "comm_env \<Rightarrow> comm_db \<Rightarrow> comm_db" where
  "cleanup_expired e db = (let t = ce_now e in db\<lparr>
     cfiles := update_where (\<lambda>_ f. fl_expires f \<le> t \<and> fl_size f \<noteq> 0) (\<lambda>f. f\<lparr>fl_data := [], fl_size := 0\<rparr>) (cfiles db),
     cdeliv := delete_where (\<lambda>_ r. dl_expires r \<le> t \<and> dl_state r \<in> {DSent, DPending})
       (update_where (\<lambda>_ r. lease_over e r) (\<lambda>r. r\<lparr>dl_state := DUncertain,
          dl_error := Some ''Delivery lease expired; verify platform before retry''\<rparr>) (cdeliv db))\<rparr>)"

definition delivery_status :: "command \<Rightarrow> comm_db \<Rightarrow> (pystr \<times> delivery_state \<times> pystr option \<times> time) list" where
  "delivery_status own db = map (\<lambda>(k, r). (k, dl_state r, dl_error r, dl_expires r)) (take 20 (rev (select_where
     (\<lambda>_ r. dl_platform r = pa_platform own \<and> dl_conversation r = pa_conversation own \<and> dl_sender r = pa_sender own
        \<and> dl_project r = pa_project own \<and> dl_session r = (if cm_session own = [] then default_session own else cm_session own))
     (cdeliv db))))"

section \<open>Deleting a session\<close>

definition in_scope :: "scope \<Rightarrow> job_row \<Rightarrow> bool" where
  "in_scope k r \<longleftrightarrow> state_key r (jb_session r) = k"

definition message_in_scope :: "scope \<Rightarrow> message_row \<Rightarrow> bool" where
  "message_in_scope k r \<longleftrightarrow> (case k of (platform, sender, project, session) \<Rightarrow> ms_platform r = platform
     \<and> ms_owner r = Some sender \<and> ms_project r = Some project \<and> ms_session r = Some session)"

definition blocking_job :: "scope \<Rightarrow> job_row \<Rightarrow> bool" where
  "blocking_job k r \<longleftrightarrow> in_scope k r
     \<and> jb_status r \<in> {JPending, JRunning, JCancelRequested, JSuspended, JRecovery}
     \<and> \<not> cleanup_control (jb_text r) \<and> \<not> new_session (jb_text r)"

definition blocking_send :: "comm_env \<Rightarrow> scope \<Rightarrow> delivery_row \<Rightarrow> bool" where
  "blocking_send e k r \<longleftrightarrow> delivery_scope r = k \<and> dl_state r = DSending
     \<and> (case dl_lease r of None \<Rightarrow> False | Some t \<Rightarrow> ce_now e < t)"

definition lifecycle_blockers :: "comm_env \<Rightarrow> scope \<Rightarrow> comm_db \<Rightarrow> pystr list" where
  "lifecycle_blockers e k db =
     map (\<lambda>(i, _). ''communication:'' @ i) (select_where (\<lambda>_ r. blocking_job k r) (cjobs db))
     @ map (\<lambda>(i, _). ''delivery:'' @ i) (select_where (\<lambda>_ r. blocking_send e k r) (cdeliv db))"

definition set_scope :: "scope \<Rightarrow> (session_state \<Rightarrow> bool) \<Rightarrow> session_state \<Rightarrow> comm_db \<Rightarrow> comm_db" where
  "set_scope k c st db = db\<lparr>cstates := update_key k (\<lambda>(_, s). c s) (\<lambda>(conv, _). (conv, st)) (cstates db)\<rparr>"

text \<open>The state is committed before the blockers are reported.\<close>

definition begin_session_deletion :: "comm_env \<Rightarrow> pystr \<Rightarrow> comm_db \<Rightarrow> unit result \<times> comm_db" where
  "begin_session_deletion e own db = (case scope_from_owner e own of Inl x \<Rightarrow> (Inl x, db)
   | Inr k \<Rightarrow> (let db1 = set_scope k (\<lambda>s. s = SActive) SDeleting db in
       (if lifecycle_blockers e k db1 \<noteq> [] then Inl (ValueError ''Communication work still active; cancel/wait before cleanup'')
        else Inr (), db1)))"

definition lifecycle_summary :: "comm_env \<Rightarrow> pystr \<Rightarrow> comm_db \<Rightarrow> (nat \<times> nat \<times> nat) result" where
  "lifecycle_summary e own db = bind_result (scope_from_owner e own) (\<lambda>k. Inr
     (count_where (\<lambda>_ r. message_in_scope k r) (cmsgs db),
      count_where (\<lambda>(i, _) _. row_where i (in_scope k) (cjobs db)) (cfiles db),
      (case map_of (cstates db) k of None \<Rightarrow> 0
       | Some (conv, _) \<Rightarrow> count_where (\<lambda>_ r. ms_platform r = fst k \<and> ms_conversation r = conv \<and> ms_session r = None) (cmsgs db))))"

definition erased_file :: "file_row \<Rightarrow> file_row" where
  "erased_file f = f\<lparr>fl_name := [], fl_mime := [], fl_file := None, fl_data := [], fl_digest := [], fl_size := 0, fl_expires := 0\<rparr>"

definition erased_job :: "job_row \<Rightarrow> job_row" where
  "erased_job r = r\<lparr>jb_text := [], jb_result := Some [], jb_error := None, jb_state := None, jb_tool := None, jb_status := JDeleted\<rparr>"

definition erased_delivery :: "delivery_row \<Rightarrow> delivery_row" where
  "erased_delivery r = r\<lparr>dl_text := [], dl_context := JObj [], dl_state := DDeleted, dl_lease := None, dl_error := None\<rparr>"

definition erase_session :: "comm_env \<Rightarrow> pystr \<Rightarrow> comm_db \<Rightarrow> unit result \<times> comm_db" where
  "erase_session e own db = txn db (bind_result (scope_from_owner e own) (\<lambda>k.
     bind_result (guard (lifecycle_blockers e k db = []) (ValueError ''Communication work is still active'')) (\<lambda>_.
     Inr ((), db\<lparr>
       cfiles := update_where (\<lambda>(i, _) _. row_where i (in_scope k) (cjobs db)) erased_file (cfiles db),
       cmsgs := update_where (\<lambda>_ r. message_in_scope k r) (\<lambda>r. r\<lparr>ms_text := [], ms_raw := JObj [], ms_status := ''deleted''\<rparr>) (cmsgs db),
       cjobs := update_where (\<lambda>_ r. in_scope k r) erased_job (cjobs db),
       cdeliv := update_where (\<lambda>_ r. delivery_scope r = k \<and> \<not> dl_receipt r) erased_delivery (cdeliv db),
       cstates := update_key k (\<lambda>_. True) (\<lambda>(conv, _). (conv, SDeleted)) (cstates db)\<rparr>))))"

end
