(* ===== verification/Simulation.thy ===== *)
theory Simulation
  imports Leases
begin

text \<open>
  The contract of a data refinement: an abstraction maps the states of a component to those of a
  specification, and under an invariant every operation is a sequence of specified steps.  Any history
  of the component is then a history of the specification.
\<close>

locale simulation =
  fixes abs :: "'s \<Rightarrow> 'a"
    and inv :: "'s \<Rightarrow> bool"
    and step :: "time \<Rightarrow> 'o \<Rightarrow> 's \<Rightarrow> 's"
    and spec :: "'a \<Rightarrow> 'a \<Rightarrow> bool"
  assumes keeps: "inv s \<Longrightarrow> inv (step t x s)"
    and simulates: "inv s \<Longrightarrow> spec\<^sup>*\<^sup>* (abs s) (abs (step t x s))"
begin

lemma run_keeps: "inv s \<Longrightarrow> inv (run_ops step tr s)"
  by (rule run_ops_invariant [where I = inv]) (rule keeps)

lemma run_refines: "inv s \<Longrightarrow> spec\<^sup>*\<^sup>* (abs s) (abs (run_ops step tr s))"
proof (induction tr arbitrary: s)
  case (Cons x tr)
  obtain t a where x: "x = (t, a)" by (cases x)
  from rtranclp_trans [OF simulates [OF Cons.prems, of t a] Cons.IH [OF keeps [OF Cons.prems]]]
  show ?case by (simp add: x)
qed simp

text \<open>A property of specified states that every specified step keeps holds along any history.\<close>

lemma run_abstract_invariant:
  assumes "inv s" and "P (abs s)" and "\<And>a a'. spec a a' \<Longrightarrow> P a \<Longrightarrow> P a'"
  shows "P (abs (run_ops step tr s))"
  using run_refines [OF assms(1), of tr] assms(2)
  by (induction rule: rtranclp_induct) (auto intro: assms(3))

end

end
