(* ===== verification/Communication_Properties.thy ===== *)
theory Communication_Properties
  imports Communication Simulation
begin

text \<open>
  Properties of the communication database over its histories: the life cycle of a command job refines an
  automaton in which a stopped or finished job never runs again, a delivery of a durable event is claimed
  once, an erased session stays sealed.
\<close>

section \<open>Histories\<close>

datatype comm_op =
    CRecord inbound
  | CEnqueue inbound nat
  | CIngest inbound
  | CRequeue pystr
  | CNeedsRecovery pystr
  | CRun pystr
  | CComplete pystr pystr
  | CFail pystr pystr
  | CCancel pystr "command option"
  | CCancelSession command
  | CSuspend pystr pystr pystr
  | CClear pystr "command option"
  | CRelease pystr
  | COutbound pystr pystr pystr pystr pystr
  | CQueue command pystr json bool bool "pystr option"
  | CClaim pystr
  | CSent pystr
  | CUncertain pystr "pystr option"
  | CCleanup
  | CBegin pystr
  | CErase pystr

text \<open>The two states \<open>set_recovery_state\<close> is given, and the two of \<open>finish_delivery\<close>, are operations of
  their own.\<close>

fun comm_exec :: "comm_env \<Rightarrow> comm_op \<Rightarrow> comm_db \<Rightarrow> comm_db" where
  "comm_exec e (CRecord m) db = snd (record_inbound_message e m db)"
| "comm_exec e (CEnqueue m i) db = snd (enqueue_command e m i db)"
| "comm_exec e (CIngest m) db = snd (ingest_inbound_message e m db)"
| "comm_exec e (CRequeue i) db = set_recovery_state e i JPending db"
| "comm_exec e (CNeedsRecovery i) db = set_recovery_state e i JRecovery db"
| "comm_exec e (CRun i) db = snd (mark_command_running e i db)"
| "comm_exec e (CComplete i out) db = complete_command e i out db"
| "comm_exec e (CFail i err) db = fail_command e i err db"
| "comm_exec e (CCancel i own) db = snd (cancel_command i own db)"
| "comm_exec e (CCancelSession own) db = cancel_session own db"
| "comm_exec e (CSuspend i st tool) db = suspend_command e i st tool db"
| "comm_exec e (CClear conv own) db = snd (clear_suspended_command e conv own db)"
| "comm_exec e (CRelease i) db = release_discord_interaction i db"
| "comm_exec e (COutbound platform conv text i sender) db = snd (record_outbound_message e platform conv text i sender db)"
| "comm_exec e (CQueue c text ctxt err receipt event) db = snd (queue_delivery e c text ctxt err receipt event db)"
| "comm_exec e (CClaim k) db = snd (claim_delivery e k db)"
| "comm_exec e (CSent k) db = finish_delivery e k DSent None db"
| "comm_exec e (CUncertain k err) db = finish_delivery e k DUncertain err db"
| "comm_exec e CCleanup db = cleanup_expired e db"
| "comm_exec e (CBegin own) db = snd (begin_session_deletion e own db)"
| "comm_exec e (CErase own) db = snd (erase_session e own db)"

definition comm_step :: "time \<Rightarrow> comm_env \<times> comm_op \<Rightarrow> comm_db \<Rightarrow> comm_db" where
  "comm_step t x db = comm_exec (fst x\<lparr>ce_now := t\<rparr>) (snd x) db"

section \<open>What one operation does to the tables\<close>

definition kept :: "comm_db \<Rightarrow> comm_db \<Rightarrow> bool" where
  "kept db db' \<longleftrightarrow> cjobs db' = cjobs db \<and> cdeliv db' = cdeliv db \<and> ckeys db' = ckeys db"

text \<open>A new session state is active; the others stay.\<close>

definition opens :: "comm_db \<Rightarrow> comm_db \<Rightarrow> scope \<Rightarrow> bool" where
  "opens db db' k \<longleftrightarrow> (\<exists>conv. cstates db' = insert_or_ignore k (conv, SActive) (cstates db))"

definition heads_ok :: "comm_db \<Rightarrow> bool" where
  "heads_ok db \<longleftrightarrow> [] \<notin> ran (map_of (cheads db))"

lemma default_session_nonempty [simp]: "default_session p \<noteq> []"
  by (simp add: default_session_def)

lemma chosen_session_nonempty:
  assumes "heads_ok db" shows "chosen_session e m bound rec db \<noteq> []"
proof (cases "map_of (cheads db) (head_key m)")
  case (Some s)
  with assms have "s \<noteq> []" by (auto simp: heads_ok_def ranI)
  with Some show ?thesis by (auto simp: chosen_session_def)
qed (auto simp: chosen_session_def)

lemma incoming_session_heads:
  assumes "incoming_session e m source rec db = Inr (session, db1)" and "heads_ok db"
  shows "session \<noteq> []" "heads_ok db1"
proof -
  have eq: "session = chosen_session e m (bound_message m source db) rec db"
    and heads: "cheads db1 = cheads db \<or> cheads db1 = upsert_row (head_key m) session (\<lambda>_. session) (cheads db)"
    using assms(1) by (auto simp: incoming_session_def Let_def split: if_splits)
  show s: "session \<noteq> []" unfolding eq by (rule chosen_session_nonempty) fact
  have "map_of (upsert_row (head_key m) session (\<lambda>_. session) (cheads db)) = (map_of (cheads db))(head_key m \<mapsto> session)"
    by (simp add: upsert_row_lookup split: option.split)
  with heads s assms(2) show "heads_ok db1" by (auto simp: heads_ok_def ran_def split: if_splits)
qed

lemma incoming_session_frame:
  assumes "incoming_session e m source rec db = Inr (session, db1)"
  shows "kept db db1" "cmsgs db1 = cmsgs db" "cfiles db1 = cfiles db" "opens db db1 (state_key m session)"
  using assms by (auto simp: incoming_session_def Let_def kept_def opens_def split: if_splits)

lemma save_attachments_frame:
  assumes "save_attachments e m db = Inr db1"
  shows "kept db db1" "cmsgs db1 = cmsgs db" "cstates db1 = cstates db" "cheads db1 = cheads db"
  using assms by (auto simp: save_attachments_def Let_def kept_def split: if_splits)

lemma insert_message_frame [simp]: "kept db (insert_message r db)" "cstates (insert_message r db) = cstates db"
  by (auto simp: insert_message_def kept_def split: option.split)

lemma store_message_frame:
  assumes "store_message e m session db = (i, db1)"
  shows "kept db db1" "cstates db1 = cstates db" "cheads db1 = cheads db"
  using assms by (auto simp: store_message_def Let_def own_message_def insert_message_def kept_def split: option.splits)

lemma kept_trans: "kept db db1 \<Longrightarrow> kept db1 db2 \<Longrightarrow> kept db db2"
  by (simp add: kept_def)

text \<open>An inbound message adds at most one job, of a session that has a state.\<close>

inductive comes_in :: "comm_db \<Rightarrow> comm_db \<Rightarrow> bool" where
  in_same: "comes_in db db"
| in_message: "kept db db' \<Longrightarrow> opens db db' k \<Longrightarrow> heads_ok db \<longrightarrow> heads_ok db' \<Longrightarrow> comes_in db db'"
| in_job: "cdeliv db' = cdeliv db \<Longrightarrow> ckeys db' = ckeys db \<Longrightarrow> opens db db' (state_key r (jb_session r)) \<Longrightarrow>
    map_of (cjobs db) i = None \<Longrightarrow> cjobs db' = cjobs db @ [(i, r)] \<Longrightarrow> jb_status r = JPending \<Longrightarrow>
    heads_ok db \<longrightarrow> heads_ok db' \<and> jb_session r \<noteq> [] \<Longrightarrow> comes_in db db'"

lemma record_comes_in: "comes_in db (snd (record_inbound_message e m db))"
proof (cases "find_message (pa_platform m) (im_id m) ''inbound'' db")
  case None
  show ?thesis
  proof (cases "incoming_session e m None (recovery_session e m db) db")
    case (Inr x)
    obtain session db1 where x: "x = (session, db1)" by (cases x)
    obtain i db2 where y: "store_message e m session db1 = (i, db2)" by fastforce
    have "snd (record_inbound_message e m db) = db2"
      using None Inr by (simp add: record_inbound_message_def x y)
    moreover have "kept db db2" "opens db db2 (state_key m session)"
      using incoming_session_frame [OF Inr [unfolded x]] store_message_frame [OF y] by (auto simp: kept_def opens_def)
    moreover have "heads_ok db \<longrightarrow> heads_ok db2"
      using incoming_session_heads [OF Inr [unfolded x]] store_message_frame(3) [OF y] by (simp add: heads_ok_def)
    ultimately show ?thesis by (simp add: in_message)
  qed (simp add: record_inbound_message_def None in_same)
next
  case (Some ir)
  then show ?thesis
    by (cases ir) (simp add: record_inbound_message_def txn_snd bind_result_def guard_def in_same)
qed

lemma job_comes_in:
  assumes "incoming_session e m source rec db = Inr (session, db1)" and "save_attachments e m db1 = Inr db2"
    and "kept db2 db3" "cstates db3 = cstates db2" "cheads db3 = cheads db2" and "map_of (cjobs db) i = None"
  shows "comes_in db (db3\<lparr>cjobs := cjobs db3 @ [(i, job_of e m s session)]\<rparr>)"
  using incoming_session_frame [OF assms(1)] save_attachments_frame [OF assms(2)] assms(3-6) incoming_session_heads [OF assms(1)]
  by (intro in_job [where r = "job_of e m s session" and i = i])
    (auto simp: kept_def opens_def job_of_def state_key_def heads_ok_def)

lemma enqueue_comes_in: "comes_in db (snd (enqueue_command e m source db))"
proof (cases "map_of (cjobs db) (idempotency_key m)")
  case None
  show ?thesis
  proof (cases "incoming_session e m (Some source) (recovery_session e m db) db")
    case (Inr x)
    obtain session db1 where x: "x = (session, db1)" by (cases x)
    show ?thesis
    proof (cases "save_attachments e m db1")
      case saved: (Inr db2)
      show ?thesis
        using job_comes_in [OF Inr [unfolded x] saved _ _ _ None, of db2 source] None Inr saved
        by (simp add: enqueue_command_def x kept_def Let_def)
    qed (use None Inr x in \<open>simp add: enqueue_command_def in_same\<close>)
  qed (simp add: enqueue_command_def None in_same)
qed (simp add: enqueue_command_def in_same)

lemma ingest_comes_in: "comes_in db (snd (ingest_inbound_message e m db))"
proof (cases "map_of (cjobs db) (idempotency_key m)")
  case None
  show ?thesis
  proof (cases "incoming_session e m None (recovery_session e m db) db")
    case (Inr x)
    obtain session db1 where x: "x = (session, db1)" by (cases x)
    show ?thesis
    proof (cases "save_attachments e m db1")
      case saved: (Inr db2)
      obtain i db3 where y: "store_message e m session db2 = (i, db3)" by fastforce
      show ?thesis
        using job_comes_in [OF Inr [unfolded x] saved store_message_frame [OF y] None, of i] None Inr saved
        by (simp add: ingest_inbound_message_def x y Let_def)
    qed (use None Inr x in \<open>simp add: ingest_inbound_message_def in_same\<close>)
  qed (simp add: ingest_inbound_message_def None in_same)
qed (simp add: ingest_inbound_message_def in_same)

section \<open>What one operation does to a job\<close>

definition job_scope :: "job_row \<Rightarrow> scope" where
  "job_scope r = state_key r (if jb_session r = [] then default_session r else jb_session r)"

lemma job_lifecycle_scope: "job_lifecycle r db = scope_state (job_scope r) db"
  by (simp add: lifecycle_state_def job_scope_def)

text \<open>\<open>fin\<close>: the operation reports the end of this job; \<open>er\<close>: the session it erases; \<open>st\<close>: the state of the
  session of the job.\<close>

inductive job_change :: "session_state \<Rightarrow> bool \<Rightarrow> scope option \<Rightarrow> job_row \<Rightarrow> job_row \<Rightarrow> bool" for st fin er r where
  jc_same: "job_change st fin er r r"
| jc_ready: "job_change st fin er r (r\<lparr>jb_ready := True\<rparr>)"
| jc_recover: "jb_status r \<in> {JRunning, JRecovery} \<Longrightarrow> s \<in> {JPending, JRecovery} \<Longrightarrow>
    job_change st fin er r (r\<lparr>jb_status := s, jb_updated := u\<rparr>)"
| jc_run: "jb_status r \<in> {JPending, JSuspended} \<Longrightarrow> st = SActive \<or> cleanup_control (jb_text r) \<or> py_starts (jb_text r) ''/cancel '' \<Longrightarrow>
    job_change st fin er r (r\<lparr>jb_status := JRunning, jb_attempts := jb_attempts r + 1, jb_updated := u\<rparr>)"
| jc_finish: "fin \<Longrightarrow> st = SActive \<Longrightarrow> s \<in> {JCompleted, JFailed} \<Longrightarrow>
    job_change st fin er r (r\<lparr>jb_status := (if jb_status r \<in> {JCancelRequested, JCancelled} then JCancelled else s),
      jb_result := out, jb_error := err, jb_updated := u\<rparr>)"
| jc_stopped: "fin \<Longrightarrow> st = SDeleting \<Longrightarrow> job_change st fin er r (stopped r)"
| jc_cancel: "jb_status r \<in> {JPending, JRunning, JSuspended} \<Longrightarrow>
    job_change st fin er r (r\<lparr>jb_status := (if jb_status r = JRunning then JCancelRequested else JCancelled)\<rparr>)"
| jc_cancel_session: "jb_status r \<in> {JPending, JRunning, JCancelRequested, JSuspended} \<Longrightarrow>
    job_change st fin er r (r\<lparr>jb_status := (if jb_status r \<in> {JRunning, JCancelRequested} then JCancelRequested else JCancelled),
      jb_state := None, jb_tool := None\<rparr>)"
| jc_suspend: "jb_status r \<in> {JPending, JRunning} \<Longrightarrow> st = SActive \<Longrightarrow>
    job_change st fin er r (r\<lparr>jb_status := JSuspended, jb_state := Some state, jb_tool := Some tool, jb_updated := u\<rparr>)"
| jc_clear: "jb_status r = JSuspended \<Longrightarrow>
    job_change st fin er r (r\<lparr>jb_status := JCancelled, jb_state := None, jb_tool := None, jb_updated := u\<rparr>)"
| jc_erase: "er = Some (state_key r (jb_session r)) \<Longrightarrow> \<not> blocking_job (state_key r (jb_session r)) r \<Longrightarrow> job_change st fin er r (erased_job r)"

inductive_cases job_change_cases: "job_change st fin er r r'"

definition finishes :: "comm_op \<Rightarrow> pystr \<Rightarrow> bool" where
  "finishes x i \<longleftrightarrow> (case x of CComplete j _ \<Rightarrow> j = i | CFail j _ \<Rightarrow> j = i | _ \<Rightarrow> False)"

definition erases :: "comm_env \<Rightarrow> comm_op \<Rightarrow> comm_db \<Rightarrow> scope option" where
  "erases e x db = (case x of
     CErase own \<Rightarrow> (case scope_from_owner e own of Inl _ \<Rightarrow> None
       | Inr k \<Rightarrow> if lifecycle_blockers e k db = [] then Some k else None)
   | _ \<Rightarrow> None)"

lemma comes_in_job: "comes_in db db' \<Longrightarrow> map_of (cjobs db) i = Some r \<Longrightarrow> map_of (cjobs db') i = Some r"
  by (induction rule: comes_in.induct) (auto simp: kept_def map_add_def)

lemma job_change_in: "comes_in db db' \<Longrightarrow> map_of (cjobs db) i = Some r \<Longrightarrow>
    \<exists>r'. map_of (cjobs db') i = Some r' \<and> job_change st fin er r r'"
  by (auto dest: comes_in_job intro: jc_same)

lemma set_job_row: "map_of (cjobs db) i = Some r \<Longrightarrow>
    map_of (cjobs (set_job j c f db)) i = Some (if j = i \<and> c r then f r else r)"
  by (cases "j = i") (auto simp: set_job_def tbl)

lemma job_change_set:
  assumes "map_of (cjobs db) i = Some r" and "j = i \<Longrightarrow> c r \<Longrightarrow> job_change st fin er r (f r)"
  shows "\<exists>r'. map_of (cjobs (set_job j c f db)) i = Some r' \<and> job_change st fin er r r'"
  using assms by (auto simp: set_job_row intro: jc_same)

lemma job_change_where:
  assumes "map_of (cjobs db) i = Some r" and "c i r \<Longrightarrow> job_change st fin er r (f r)"
  shows "\<exists>r'. map_of (update_where c f (cjobs db)) i = Some r' \<and> job_change st fin er r r'"
  using assms by (auto simp: tbl intro: jc_same)

lemma update_command_row:
  assumes "map_of (cjobs db) i = Some r" and "s \<in> {JCompleted, JFailed}" and "j = i \<Longrightarrow> fin"
  shows "\<exists>r'. map_of (cjobs (update_command e j s out err db)) i = Some r' \<and> job_change (job_lifecycle r db) fin er r r'"
proof (cases "row_where j (\<lambda>r. job_lifecycle r db \<noteq> SActive) (cjobs db)")
  case True
  show ?thesis
  proof (cases "row_where j (\<lambda>r. job_lifecycle r db = SDeleting) (cjobs db)")
    case deleting: True
    have "update_command e j s out err db = set_job j (\<lambda>_. True) stopped db"
      using True deleting assms(2) by (simp add: update_command_def)
    then show ?thesis
      by (simp, intro job_change_set) (use deleting assms in \<open>auto simp: row_where_iff intro: jc_stopped\<close>)
  qed (use True assms in \<open>auto simp: update_command_def intro: jc_same\<close>)
next
  case False
  have eq: "update_command e j s out err db = set_job j (\<lambda>_. True) (\<lambda>r. r\<lparr>
      jb_status := (if jb_status r \<in> {JCancelRequested, JCancelled} then JCancelled else s),
      jb_result := coalesce out (jb_result r), jb_error := err, jb_updated := ce_stamp e\<rparr>) db"
    unfolding update_command_def if_not_P [OF False] using assms(2) by auto
  show ?thesis
    unfolding eq by (intro job_change_set jc_finish) (use False assms in \<open>auto simp: row_where_iff\<close>)
qed

lemma erase_row:
  assumes "map_of (cjobs db) i = Some r"
  shows "\<exists>r'. map_of (cjobs (snd (erase_session e own db))) i = Some r' \<and> job_change st fin (erases e (CErase own) db) r r'"
proof (cases "scope_from_owner e own")
  case (Inr k)
  show ?thesis
  proof (cases "lifecycle_blockers e k db = []")
    case True
    have "\<not> blocking_job k r"
      using True map_of_SomeD [OF assms] by (auto simp: lifecycle_blockers_def select_where_def filter_empty_conv)
    then show ?thesis
      using Inr True assms by (auto simp: erase_session_def erases_def tbl in_scope_def intro: jc_same jc_erase)
  qed (use Inr assms in \<open>auto simp: erase_session_def intro: jc_same\<close>)
qed (use assms in \<open>auto simp: erase_session_def intro: jc_same\<close>)

lemma insert_message_jobs [simp]: "cjobs (insert_message r db) = cjobs db"
  "cdeliv (insert_message r db) = cdeliv db" "ckeys (insert_message r db) = ckeys db"
  "cheads (insert_message r db) = cheads db"
  using insert_message_frame(1) [of db r] by (simp_all add: kept_def insert_message_def split: option.split)

lemma note_event_frame: "note_event e k f db = Inr (b, db1) \<Longrightarrow> cjobs db1 = cjobs db \<and> cdeliv db1 = cdeliv db \<and> cstates db1 = cstates db
    \<and> cmsgs db1 = cmsgs db \<and> cheads db1 = cheads db"
  by (auto simp: note_event_def split: option.splits if_splits)

lemma store_delivery_frame: "store_delivery e c k text ctxt receipt db = Inr (i, db1) \<Longrightarrow> cjobs db1 = cjobs db \<and> cstates db1 = cstates db
    \<and> cmsgs db1 = cmsgs db \<and> ckeys db1 = ckeys db \<and> cheads db1 = cheads db"
  by (auto simp: store_delivery_def split: if_splits)

lemma queue_frame: "cjobs (snd (queue_delivery e c text ctxt err receipt event db)) = cjobs db
    \<and> cstates (snd (queue_delivery e c text ctxt err receipt event db)) = cstates db
    \<and> cmsgs (snd (queue_delivery e c text ctxt err receipt event db)) = cmsgs db
    \<and> cheads (snd (queue_delivery e c text ctxt err receipt event db)) = cheads db"
  unfolding queue_delivery_def
  by (rule txn_preserves [where P = "\<lambda>db'. cjobs db' = cjobs db \<and> cstates db' = cstates db \<and> cmsgs db' = cmsgs db \<and> cheads db' = cheads db"])
    (auto split: option.splits if_splits dest!: note_event_frame store_delivery_frame)

lemma finish_frame: "cjobs (finish_delivery e k st err db) = cjobs db \<and> cstates (finish_delivery e k st err db) = cstates db
    \<and> ckeys (finish_delivery e k st err db) = ckeys db \<and> cheads (finish_delivery e k st err db) = cheads db"
  by (simp add: finish_delivery_def set_delivery_def Let_def split: option.split)

lemma outbound_frame: "kept db (snd (record_outbound_message e platform conv text i sender db))
    \<and> cstates (snd (record_outbound_message e platform conv text i sender db)) = cstates db
    \<and> cheads (snd (record_outbound_message e platform conv text i sender db)) = cheads db"
  by (simp add: record_outbound_message_def kept_def split: option.split)

lemma begin_frame: "kept db (snd (begin_session_deletion e own db)) \<and> cmsgs (snd (begin_session_deletion e own db)) = cmsgs db
    \<and> cheads (snd (begin_session_deletion e own db)) = cheads db"
  by (auto simp: begin_session_deletion_def set_scope_def kept_def Let_def split: sum.splits)

lemma claim_frame: "cjobs (snd (claim_delivery e k db)) = cjobs db \<and> cstates (snd (claim_delivery e k db)) = cstates db
    \<and> ckeys (snd (claim_delivery e k db)) = ckeys db \<and> cmsgs (snd (claim_delivery e k db)) = cmsgs db
    \<and> cheads (snd (claim_delivery e k db)) = cheads db"
  by (simp add: claim_delivery_def set_delivery_def)

lemma cleanup_frame: "cjobs (cleanup_expired e db) = cjobs db \<and> cstates (cleanup_expired e db) = cstates db
    \<and> ckeys (cleanup_expired e db) = ckeys db \<and> cmsgs (cleanup_expired e db) = cmsgs db
    \<and> cheads (cleanup_expired e db) = cheads db"
  by (simp add: cleanup_expired_def Let_def)

lemmas cjobs_frames = queue_frame finish_frame outbound_frame [unfolded kept_def] begin_frame [unfolded kept_def]
  claim_frame cleanup_frame

lemma job_step:
  assumes "map_of (cjobs db) i = Some r"
  shows "\<exists>r'. map_of (cjobs (comm_exec e x db)) i = Some r' \<and> job_change (job_lifecycle r db) (finishes x i) (erases e x db) r r'"
proof -
  have in_: "comes_in db db' \<Longrightarrow> \<exists>r'. map_of (cjobs db') i = Some r' \<and> job_change (job_lifecycle r db) fin er r r'" for db' fin er
    by (rule job_change_in [OF _ assms])
  have out: "cjobs db' = cjobs db \<Longrightarrow> \<exists>r'. map_of (cjobs db') i = Some r' \<and> job_change (job_lifecycle r db) fin er r r'" for db' fin er
    using assms by (auto intro: jc_same)
  have same: "\<exists>r'. map_of (cjobs db) i = Some r' \<and> job_change (job_lifecycle r db) fin er r r'" for fin er
    by (rule out) simp
  show ?thesis
  proof (cases x)
    case (CRequeue j)
    then show ?thesis using job_change_set [OF assms] by (simp add: set_recovery_state_def jc_recover)
  next
    case (CNeedsRecovery j)
    then show ?thesis using job_change_set [OF assms] by (simp add: set_recovery_state_def jc_recover)
  next
    case (CRun j)
    show ?thesis
    proof (cases "row_where j (\<lambda>r. \<not> may_run r db) (cjobs db)")
      case False
      have "snd (mark_command_running e j db) = set_job j (\<lambda>r. jb_status r \<in> {JPending, JSuspended}) (\<lambda>r. r\<lparr>jb_status := JRunning,
          jb_attempts := jb_attempts r + 1, jb_updated := ce_stamp e\<rparr>) db"
        using False by (simp add: mark_command_running_def Let_def)
      then show ?thesis
        unfolding CRun comm_exec.simps
        by (simp only:, intro job_change_set [OF assms] jc_run) (use False assms in \<open>auto simp: row_where_iff may_run_def\<close>)
    qed (use CRun assms in \<open>auto simp: mark_command_running_def Let_def intro: jc_same\<close>)
  next
    case (CComplete j reply)
    then show ?thesis using update_command_row [OF assms] by (simp add: complete_command_def finishes_def)
  next
    case (CFail j err)
    then show ?thesis using update_command_row [OF assms] by (simp add: fail_command_def finishes_def)
  next
    case (CCancel j own)
    then show ?thesis
      by (simp only: comm_exec.simps cancel_command_def Let_def snd_conv, intro job_change_set [OF assms] jc_cancel) auto
  next
    case (CCancelSession own)
    then show ?thesis
      by (simp add: cancel_session_def del: insert_iff, intro job_change_where [OF assms] jc_cancel_session) auto
  next
    case (CSuspend j st tool)
    show ?thesis
    proof (cases "row_where j (\<lambda>r. job_lifecycle r db \<noteq> SActive) (cjobs db)")
      case False
      show ?thesis
        unfolding CSuspend comm_exec.simps suspend_command_def if_not_P [OF False]
        by (intro job_change_set [OF assms] jc_suspend) (use False assms in \<open>auto simp: row_where_iff\<close>)
    qed (use CSuspend assms in \<open>auto simp: suspend_command_def intro: jc_same\<close>)
  next
    case (CClear conv own)
    then show ?thesis
      by (simp add: clear_suspended_command_def Let_def, intro job_change_where [OF assms] jc_clear) auto
  next
    case (CRelease j)
    then show ?thesis
      by (simp add: release_discord_interaction_def, intro job_change_where [OF assms] jc_ready)
  next
    case (CErase own)
    then show ?thesis using erase_row [OF assms] by simp
  qed (simp_all add: in_ record_comes_in enqueue_comes_in ingest_comes_in same cjobs_frames)
qed

section \<open>Sessions and new jobs\<close>

lemma update_key_none [simp]: "map_of (update_key k c f t) i = None \<longleftrightarrow> map_of t i = None"
  by (auto simp: tbl)

lemma update_where_none [simp]: "map_of (update_where c f t) i = None \<longleftrightarrow> map_of t i = None"
  by (auto simp: tbl)

lemma set_job_none [simp]: "map_of (cjobs (set_job j c f db)) i = None \<longleftrightarrow> map_of (cjobs db) i = None"
  by (simp add: set_job_def)

lemma comes_in_new: "comes_in db db' \<Longrightarrow> map_of (cjobs db) i = None \<Longrightarrow> map_of (cjobs db') i = Some r \<Longrightarrow>
    jb_status r = JPending \<and> map_of (cstates db') (state_key r (jb_session r)) \<noteq> None
    \<and> (heads_ok db \<longrightarrow> jb_session r \<noteq> [])"
  by (induction rule: comes_in.induct) (auto simp: kept_def map_add_def opens_def tbl split: if_splits option.splits)

lemma job_ops_none [simp]:
  "map_of (cjobs (set_recovery_state e j s db)) i = None \<longleftrightarrow> map_of (cjobs db) i = None"
  "map_of (cjobs (snd (mark_command_running e j db))) i = None \<longleftrightarrow> map_of (cjobs db) i = None"
  "map_of (cjobs (update_command e j s out err db)) i = None \<longleftrightarrow> map_of (cjobs db) i = None"
  "map_of (cjobs (snd (cancel_command j own db))) i = None \<longleftrightarrow> map_of (cjobs db) i = None"
  "map_of (cjobs (cancel_session c db)) i = None \<longleftrightarrow> map_of (cjobs db) i = None"
  "map_of (cjobs (suspend_command e j state tool db)) i = None \<longleftrightarrow> map_of (cjobs db) i = None"
  "map_of (cjobs (snd (clear_suspended_command e conv own db))) i = None \<longleftrightarrow> map_of (cjobs db) i = None"
  "map_of (cjobs (release_discord_interaction x db)) i = None \<longleftrightarrow> map_of (cjobs db) i = None"
  "map_of (cjobs (snd (erase_session e y db))) i = None \<longleftrightarrow> map_of (cjobs db) i = None"
  by (simp_all add: set_recovery_state_def mark_command_running_def update_command_def cancel_command_def
      cancel_session_def suspend_command_def clear_suspended_command_def release_discord_interaction_def
      erase_session_def Let_def txn_snd bind_result_def guard_def split: sum.split)

lemma new_job_step:
  assumes "map_of (cjobs db) i = None" and "map_of (cjobs (comm_exec e x db)) i = Some r"
  shows "jb_status r = JPending \<and> map_of (cstates (comm_exec e x db)) (state_key r (jb_session r)) \<noteq> None
    \<and> (heads_ok db \<longrightarrow> jb_session r \<noteq> [])"
proof -
  have old: "map_of (cjobs (comm_exec e x db)) i \<noteq> None" using assms(2) by simp
  show ?thesis
  proof (cases x)
    case (CRecord m)
    then show ?thesis using comes_in_new [OF record_comes_in assms(1)] assms(2) by simp
  next
    case (CEnqueue m j)
    then show ?thesis using comes_in_new [OF enqueue_comes_in assms(1)] assms(2) by simp
  next
    case (CIngest m)
    then show ?thesis using comes_in_new [OF ingest_comes_in assms(1)] assms(2) by simp
  qed (use old assms(1) in \<open>auto simp: complete_command_def fail_command_def cjobs_frames simp del: not_None_eq\<close>)
qed

text \<open>A session only moves forward.\<close>

definition forward :: "session_state \<Rightarrow> session_state \<Rightarrow> bool" where
  "forward s s' \<longleftrightarrow> s' = s \<or> s = SActive \<or> s' = SDeleted"

lemma comes_in_state: "comes_in db db' \<Longrightarrow> map_of (cstates db) k = Some cs \<Longrightarrow> map_of (cstates db') k = Some cs"
  by (induction rule: comes_in.induct) (auto simp: opens_def tbl split: option.splits)

lemma state_step:
  assumes "map_of (cstates db) k = Some (conv, s)"
  shows "\<exists>s'. map_of (cstates (comm_exec e x db)) k = Some (conv, s') \<and> forward s s'"
proof -
  have same: "cstates db' = cstates db \<Longrightarrow> \<exists>s'. map_of (cstates db') k = Some (conv, s') \<and> forward s s'" for db'
    using assms by (simp add: forward_def)
  have in_: "comes_in db db' \<Longrightarrow> \<exists>s'. map_of (cstates db') k = Some (conv, s') \<and> forward s s'" for db'
    using comes_in_state [OF _ assms] by (auto simp: forward_def)
  show ?thesis
  proof (cases x)
    case (CBegin own)
    then show ?thesis
      using assms by (cases s) (auto simp: begin_session_deletion_def set_scope_def Let_def tbl forward_def split: sum.split)
  next
    case (CErase own)
    then show ?thesis
      using assms by (auto simp: erase_session_def txn_snd bind_result_def guard_def tbl forward_def split: sum.split)
  qed (simp_all add: in_ record_comes_in enqueue_comes_in ingest_comes_in same cjobs_frames set_recovery_state_def
      mark_command_running_def update_command_def complete_command_def fail_command_def cancel_command_def
      cancel_session_def suspend_command_def clear_suspended_command_def release_discord_interaction_def
      set_job_def Let_def)
qed

section \<open>The life cycle of a job refines an automaton\<close>

text \<open>
  The specification: a job is open until it is asked to stop or ends; a stopping job can only stop; a
  finished job can only be counted as stopped when its session goes away; an erased job stays erased.
\<close>

datatype job_phase = Open | Stopping | Finished | Stopped | Erased

fun next_phases :: "job_phase \<Rightarrow> job_phase list" where
  "next_phases Open = [Stopping, Finished, Stopped, Erased]"
| "next_phases Stopping = [Stopped, Erased]"
| "next_phases Finished = [Stopped, Erased]"
| "next_phases Stopped = [Erased]"
| "next_phases Erased = []"

definition phase_step :: "job_phase option \<Rightarrow> job_phase option \<Rightarrow> bool" where
  "phase_step o1 o2 \<longleftrightarrow> o2 = o1 \<or> (case o1 of None \<Rightarrow> o2 = Some Open
     | Some p \<Rightarrow> (case o2 of None \<Rightarrow> False | Some p' \<Rightarrow> p' \<in> set (next_phases p)))"

definition job_spec :: "(pystr \<Rightarrow> job_phase option) \<Rightarrow> (pystr \<Rightarrow> job_phase option) \<Rightarrow> bool" where
  "job_spec m m' \<longleftrightarrow> (\<forall>i. phase_step (m i) (m' i))"

fun phase_of :: "job_status \<Rightarrow> job_phase" where
  "phase_of JPending = Open"
| "phase_of JRunning = Open"
| "phase_of JSuspended = Open"
| "phase_of JRecovery = Open"
| "phase_of JCancelRequested = Stopping"
| "phase_of JCompleted = Finished"
| "phase_of JFailed = Finished"
| "phase_of JCancelled = Stopped"
| "phase_of JDeleted = Erased"

definition job_phases :: "comm_db \<Rightarrow> pystr \<Rightarrow> job_phase option" where
  "job_phases db i = map_option (phase_of \<circ> jb_status) (map_of (cjobs db) i)"

text \<open>Every job belongs to a session with a state, and a deleted one to a deleted session.\<close>

definition comm_ok :: "comm_db \<Rightarrow> bool" where
  "comm_ok db \<longleftrightarrow> heads_ok db \<and> (\<forall>i r. map_of (cjobs db) i = Some r \<longrightarrow> jb_session r \<noteq> []
     \<and> map_of (cstates db) (job_scope r) \<noteq> None
     \<and> (jb_status r = JDeleted \<longrightarrow> scope_state (job_scope r) db = SDeleted))"

lemma job_change_session: "job_change st fin er r r' \<Longrightarrow> jb_session r' = jb_session r \<and> job_scope r' = job_scope r"
  by (induction rule: job_change.induct)
    (simp_all add: job_scope_def state_key_def default_session_def stopped_def erased_job_def)

lemma job_change_phase:
  assumes "job_change st fin er r r'" and "jb_status r = JDeleted \<Longrightarrow> st = SDeleted"
  shows "phase_of (jb_status r') = phase_of (jb_status r) \<or> phase_of (jb_status r') \<in> set (next_phases (phase_of (jb_status r)))"
  using assms by (induction rule: job_change.induct) (auto simp: stopped_def erased_job_def; cases "jb_status r"; simp)+

lemma scope_state_forward:
  assumes "map_of (cstates db) k \<noteq> None"
  shows "forward (scope_state k db) (scope_state k (comm_exec e x db)) \<and> map_of (cstates (comm_exec e x db)) k \<noteq> None"
proof -
  obtain conv s where cs: "map_of (cstates db) k = Some (conv, s)" using assms by (metis option.exhaust surj_pair)
  from state_step [OF this, of e x] cs show ?thesis by (auto simp: scope_state_def)
qed

lemma heads_step: "heads_ok db \<Longrightarrow> heads_ok (comm_exec e x db)"
proof -
  assume ok: "heads_ok db"
  have in_: "comes_in db db' \<Longrightarrow> heads_ok db'" for db'
    using ok by (auto elim: comes_in.cases)
  have same: "cheads db' = cheads db \<Longrightarrow> heads_ok db'" for db'
    using ok by (simp add: heads_ok_def)
  show ?thesis
    by (cases x) (simp_all add: in_ record_comes_in enqueue_comes_in ingest_comes_in ok same cjobs_frames
        set_recovery_state_def mark_command_running_def update_command_def complete_command_def fail_command_def
        cancel_command_def cancel_session_def suspend_command_def clear_suspended_command_def set_job_def Let_def
        release_discord_interaction_def erase_session_def txn_snd bind_result_def guard_def split: sum.split)
qed

lemma erased_scope:
  assumes "erases e x db = Some k" and "map_of (cstates db) k \<noteq> None"
  shows "scope_state k (comm_exec e x db) = SDeleted"
  using assms by (cases x) (auto simp: erases_def erase_session_def scope_state_def tbl split: sum.splits if_splits)

lemma erased_by: "job_change st fin er r r' \<Longrightarrow> jb_status r' = JDeleted \<Longrightarrow> jb_status r \<noteq> JDeleted \<Longrightarrow>
    er = Some (state_key r (jb_session r))"
  by (induction rule: job_change.induct) (auto simp: stopped_def split: if_splits)

lemma comm_ok_step: "comm_ok db \<Longrightarrow> comm_ok (comm_exec e x db)"
proof -
  assume ok: "comm_ok db"
  have "jb_session r \<noteq> [] \<and> map_of (cstates (comm_exec e x db)) (job_scope r) \<noteq> None
      \<and> (jb_status r = JDeleted \<longrightarrow> scope_state (job_scope r) (comm_exec e x db) = SDeleted)"
    if r: "map_of (cjobs (comm_exec e x db)) i = Some r" for i r
  proof (cases "map_of (cjobs db) i")
    case None
    from new_job_step [OF None r] ok show ?thesis by (simp add: comm_ok_def job_scope_def)
  next
    case (Some r0)
    from job_step [OF Some, of e x] r have change: "job_change (job_lifecycle r0 db) (finishes x i) (erases e x db) r0 r" by simp
    have r0: "jb_session r0 \<noteq> []" "map_of (cstates db) (job_scope r0) \<noteq> None"
      "jb_status r0 = JDeleted \<longrightarrow> scope_state (job_scope r0) db = SDeleted" using ok Some by (auto simp: comm_ok_def)
    have "scope_state (job_scope r) (comm_exec e x db) = SDeleted" if "jb_status r = JDeleted"
    proof (cases "jb_status r0 = JDeleted")
      case True
      with r0 scope_state_forward [OF r0(2), of e x] job_change_session [OF change] show ?thesis by (simp add: forward_def)
    next
      case False
      have "job_scope r0 = state_key r0 (jb_session r0)" using r0(1) by (simp add: job_scope_def)
      with erased_by [OF change that False] erased_scope [of e x db "job_scope r0"] r0(2) job_change_session [OF change]
      show ?thesis by simp
    qed
    with scope_state_forward [OF r0(2)] r0(1) job_change_session [OF change] show ?thesis by simp
  qed
  with heads_step [of db e x] ok show ?thesis by (auto simp: comm_ok_def)
qed

lemma job_phase_step:
  assumes "comm_ok db"
  shows "phase_step (job_phases db i) (job_phases (comm_exec e x db) i)"
proof (cases "map_of (cjobs db) i")
  case None
  with new_job_step [OF None, of e x] show ?thesis
    by (cases "map_of (cjobs (comm_exec e x db)) i") (auto simp: job_phases_def phase_step_def)
next
  case (Some r)
  from job_step [OF this, of e x] obtain r' where r': "map_of (cjobs (comm_exec e x db)) i = Some r'"
    and change: "job_change (job_lifecycle r db) (finishes x i) (erases e x db) r r'" by blast
  have "jb_status r = JDeleted \<Longrightarrow> job_lifecycle r db = SDeleted"
    using assms Some by (simp add: comm_ok_def job_lifecycle_scope)
  from job_change_phase [OF change this] Some r' show ?thesis by (auto simp: job_phases_def phase_step_def)
qed

interpretation job_sim: simulation job_phases comm_ok comm_step job_spec
  by unfold_locales (auto simp: comm_step_def comm_ok_step job_spec_def job_phase_step intro!: r_into_rtranclp)

lemma comm_ok_empty: "comm_ok empty_comm"
  by (simp add: comm_ok_def heads_ok_def empty_comm_def)

text \<open>
  C35: Along every history of the store, the command jobs follow the automaton \<open>next_phases\<close>: a job enters
  open; once it is asked to stop it can only stop, a stopped or finished job never runs again, an erased one
  never changes.
\<close>

theorem job_lifecycle_refines:
  "job_spec\<^sup>*\<^sup>* (job_phases (run_ops comm_step tr empty_comm)) (job_phases (run_ops comm_step (tr @ tr') empty_comm))"
  unfolding run_ops_append by (rule job_sim.run_refines, rule job_sim.run_keeps, rule comm_ok_empty)

section \<open>A durable event is sent once\<close>

lemma event_key_shape: "delivery_key c body err (Some ev) = Inr k \<Longrightarrow> rev k ! 65 = CHR ''l''"
  by (auto simp: delivery_key_def hex_text_def nth_append split: if_splits)

text \<open>Event keys and content keys differ before the last 65 characters.\<close>

lemma content_key_shape: "delivery_key c body err None = Inr k \<Longrightarrow> rev k ! 65 \<noteq> CHR ''l''"
  by (cases err) (auto simp: delivery_key_def nth_append length_sha256)

definition events_ok :: "comm_db \<Rightarrow> bool" where
  "events_ok db \<longleftrightarrow> list_all (\<lambda>(k, _). rev k ! 65 = CHR ''l'') (ckeys db) \<and> unique_keys (cdeliv db)"

definition spent :: "pystr \<Rightarrow> comm_db \<Rightarrow> bool" where
  "spent k db \<longleftrightarrow> map_of (ckeys db) k \<noteq> None \<and> \<not> row_where k (\<lambda>r. dl_state r = DPending) (cdeliv db)"

lemma spent_delivery: "spent k db \<Longrightarrow> \<not> fst (claim_delivery e k db)"
  by (auto simp: spent_def claim_delivery_def row_where_iff claimable_def)

lemma event_key: "events_ok db \<Longrightarrow> map_of (ckeys db) k \<noteq> None \<Longrightarrow> rev k ! 65 = CHR ''l''"
  by (auto simp: events_ok_def list_all_iff dest: map_of_SomeD)

lemma store_delivery_rows:
  assumes "store_delivery e c key body ctxt receipt db = Inr (i, db')"
  shows "ckeys db' = ckeys db" "unique_keys (cdeliv db) \<Longrightarrow> unique_keys (cdeliv db')"
    "k \<noteq> key \<Longrightarrow> map_of (cdeliv db') k = map_of (cdeliv db) k"
  using assms by (auto simp: store_delivery_def unique_keys_snoc map_add_def split: if_splits option.split)

lemma note_event_rows:
  assumes "note_event e key f db = Inr (known, db')"
  shows "cdeliv db' = cdeliv db" "known \<Longrightarrow> db' = db" "\<not> known \<Longrightarrow> map_of (ckeys db) key = None"
    "\<not> known \<Longrightarrow> ckeys db' = ckeys db @ [(key, f)]"
  using assms by (auto simp: note_event_def split: option.splits if_splits)

lemma queue_rows:
  assumes ok: "events_ok db"
  shows "events_ok (snd (queue_delivery e c body ctxt err receipt event db))
    \<and> (spent k db \<longrightarrow> spent k (snd (queue_delivery e c body ctxt err receipt event db)))"
  unfolding queue_delivery_def
proof (rule txn_preserves [where P = "\<lambda>db'. events_ok db' \<and> (spent k db \<longrightarrow> spent k db')"])
  fix i db'
  assume "bind_result (delivery_key c body err event) (\<lambda>key. bind_result (admit_delivery e c body ctxt receipt db) (\<lambda>ctxt'.
      bind_result (case event of None \<Rightarrow> Inr (False, db) | Some _ \<Rightarrow> note_event e key (event_fingerprint c body err) db)
        (\<lambda>(known, db1). if known then Inr (key, db1) else store_delivery e c key body ctxt' receipt db1))) = Inr (i, db')"
  then obtain key ctxt' known db1 where key: "delivery_key c body err event = Inr key"
    and known: "(case event of None \<Rightarrow> Inr (False, db) | Some _ \<Rightarrow> note_event e key (event_fingerprint c body err) db) = Inr (known, db1)"
    and stored: "(if known then Inr (key, db1) else store_delivery e c key body ctxt' receipt db1) = Inr (i, db')" by auto
  show "events_ok db' \<and> (spent k db \<longrightarrow> spent k db')"
  proof (cases event)
    case None
    with known stored have st: "store_delivery e c key body ctxt' receipt db = Inr (i, db')" by simp
    have "spent k db \<Longrightarrow> k \<noteq> key"
      using event_key [OF ok, of k] content_key_shape [of c body err key] key None by (auto simp: spent_def)
    with store_delivery_rows [OF st] ok show ?thesis by (auto simp: events_ok_def spent_def row_where_def)
  next
    case (Some ev)
    with known have note_: "note_event e key (event_fingerprint c body err) db = Inr (known, db1)" by simp
    show ?thesis
    proof (cases known)
      case True
      with stored note_event_rows [OF note_] ok show ?thesis by simp
    next
      case False
      with stored have st: "store_delivery e c key body ctxt' receipt db1 = Inr (i, db')" by simp
      have "rev key ! 65 = CHR ''l''" using key Some by (auto dest: event_key_shape)
      moreover have "spent k db \<Longrightarrow> k \<noteq> key" using note_event_rows(3) [OF note_ False] by (auto simp: spent_def)
      ultimately show ?thesis
        using store_delivery_rows [OF st] note_event_rows [OF note_] False ok
        by (auto simp: events_ok_def spent_def row_where_def map_of_append_single split: option.splits)
    qed
  qed
qed (use ok in auto)

lemma comes_in_rows: "comes_in db db' \<Longrightarrow> cdeliv db' = cdeliv db \<and> ckeys db' = ckeys db"
  by (induction rule: comes_in.induct) (auto simp: kept_def)

lemma same_rows: "cdeliv db' = cdeliv db \<Longrightarrow> ckeys db' = ckeys db \<Longrightarrow> events_ok db \<Longrightarrow>
    events_ok db' \<and> (spent k db \<longrightarrow> spent k db')"
  by (simp add: events_ok_def spent_def)

lemma set_rows:
  assumes "events_ok db" and "\<And>r. c r \<Longrightarrow> dl_state (f r) = DPending \<Longrightarrow> dl_state r = DPending"
  shows "events_ok (set_delivery j c f db) \<and> (spent k db \<longrightarrow> spent k (set_delivery j c f db))"
  using assms by (auto simp: events_ok_def spent_def set_delivery_def row_where_def tbl split: option.splits)

lemma spent_step: "events_ok db \<Longrightarrow> events_ok (comm_exec e x db) \<and> (spent k db \<longrightarrow> spent k (comm_exec e x db))"
proof -
  assume ok: "events_ok db"
  have same: "cdeliv db' = cdeliv db \<Longrightarrow> ckeys db' = ckeys db \<Longrightarrow> events_ok db' \<and> (spent k db \<longrightarrow> spent k db')" for db'
    by (rule same_rows [OF _ _ ok])
  have in_: "comes_in db db' \<Longrightarrow> events_ok db' \<and> (spent k db \<longrightarrow> spent k db')" for db'
    by (rule same) (auto dest: comes_in_rows)
  have fin: "events_ok (finish_delivery e j st err db) \<and> (spent k db \<longrightarrow> spent k (finish_delivery e j st err db))"
    if "st = DSent \<or> st = DUncertain" for j st err
    using ok that set_rows [OF ok, of "\<lambda>_. True" "\<lambda>r. r\<lparr>dl_state := st, dl_error := err, dl_lease := None\<rparr>" j k]
      same_rows [of "insert_message _ _"]
    by (auto simp: finish_delivery_def Let_def events_ok_def spent_def split: option.split)
  have frames: "cdeliv (snd (begin_session_deletion e own db)) = cdeliv db" "ckeys (snd (begin_session_deletion e own db)) = ckeys db"
    "cdeliv (snd (record_outbound_message e platform conv t i sender db)) = cdeliv db"
    "ckeys (snd (record_outbound_message e platform conv t i sender db)) = ckeys db" for own platform conv t i sender
    using begin_frame outbound_frame by (simp_all add: kept_def)
  show ?thesis
  proof (cases x)
    case (CClaim j)
    have "events_ok (set_delivery j (claimable e) (\<lambda>r. r\<lparr>dl_state := DSending, dl_lease := Some (ce_now e + 120)\<rparr>) db)
        \<and> (spent k db \<longrightarrow> spent k (set_delivery j (claimable e) (\<lambda>r. r\<lparr>dl_state := DSending, dl_lease := Some (ce_now e + 120)\<rparr>) db))"
      by (rule set_rows [OF ok]) simp
    then show ?thesis using CClaim ok by (simp add: claim_delivery_def)
  next
    case CCleanup
    then show ?thesis
      using ok by (auto simp: cleanup_expired_def Let_def events_ok_def spent_def row_where_def delete_where_lookup tbl lease_over_def
          split: option.splits if_splits)
  next
    case (CErase own)
    then show ?thesis
      using ok by (auto simp: erase_session_def txn_snd bind_result_def guard_def events_ok_def spent_def row_where_def tbl
          erased_delivery_def split: sum.splits option.splits if_splits)
  qed (simp_all add: in_ record_comes_in enqueue_comes_in ingest_comes_in queue_rows [OF ok] fin ok frames same
        set_recovery_state_def mark_command_running_def update_command_def complete_command_def fail_command_def
        cancel_command_def cancel_session_def suspend_command_def clear_suspended_command_def set_job_def Let_def
        release_discord_interaction_def)
qed

lemma events_ok_run: "events_ok (run_ops comm_step tr empty_comm)"
  by (rule run_ops_invariant [where I = events_ok])
    (simp_all add: comm_step_def spent_step, simp add: events_ok_def empty_comm_def unique_keys_def)

lemma spent_run:
  assumes "events_ok db" and "spent k db"
  shows "spent k (run_ops comm_step tr db)"
proof -
  have "events_ok (run_ops comm_step tr db) \<and> spent k (run_ops comm_step tr db)"
    by (rule run_ops_invariant [where I = "\<lambda>db. events_ok db \<and> spent k db"]) (use assms spent_step in \<open>auto simp: comm_step_def\<close>)
  then show ?thesis ..
qed

text \<open>
  C36: A worker that claimed the delivery of a durable event sends it alone and once: whatever happens to the
  store afterwards (the event is queued again, the lease expires, the delivery itself expires and is
  deleted), no claim of the delivery succeeds.
\<close>

theorem delivery_claimed_once:
  assumes "db = run_ops comm_step tr empty_comm" and "map_of (ckeys db) k \<noteq> None"
    and "claim_delivery e k db = (True, db')"
  shows "\<not> fst (claim_delivery e' k (run_ops comm_step tr' db'))"
proof -
  have ok: "events_ok db" unfolding assms(1) by (rule events_ok_run)
  have db': "db' = comm_exec e (CClaim k) db" using assms(3) by simp
  have ok': "events_ok db'" unfolding db' using spent_step [OF ok] by blast
  from assms(3) have "db' = set_delivery k (claimable e) (\<lambda>r. r\<lparr>dl_state := DSending, dl_lease := Some (ce_now e + 120)\<rparr>) db"
    and "row_where k (claimable e) (cdeliv db)" by (auto simp: claim_delivery_def split: if_splits)
  with assms(2) have "spent k db'" by (auto simp: spent_def set_delivery_def row_where_iff tbl)
  from spent_delivery [OF spent_run [OF ok' this]] show ?thesis .
qed

section \<open>A job whose stop was never reported blocks the deletion of its session\<close>

lemma stuck_change:
  assumes "job_change st False er r r'" and "jb_status r = JCancelRequested"
    and "\<not> cleanup_control (jb_text r)" "\<not> new_session (jb_text r)"
  shows "jb_status r' = JCancelRequested \<and> jb_text r' = jb_text r \<and> jb_session r' = jb_session r
    \<and> state_key r' (jb_session r') = state_key r (jb_session r)"
  using assms by (induction rule: job_change.induct) (auto simp: blocking_job_def in_scope_def state_key_def)

definition stuck :: "pystr \<Rightarrow> scope \<Rightarrow> comm_db \<Rightarrow> bool" where
  "stuck i k db \<longleftrightarrow> row_where i (\<lambda>r. jb_status r = JCancelRequested \<and> \<not> cleanup_control (jb_text r)
     \<and> \<not> new_session (jb_text r) \<and> state_key r (jb_session r) = k) (cjobs db)"

lemma stuck_step: "stuck i k db \<Longrightarrow> \<not> finishes x i \<Longrightarrow> stuck i k (comm_exec e x db)"
proof -
  assume st: "stuck i k db" and fin: "\<not> finishes x i"
  from st obtain r where r: "map_of (cjobs db) i = Some r" "jb_status r = JCancelRequested" "\<not> cleanup_control (jb_text r)"
    "\<not> new_session (jb_text r)" "state_key r (jb_session r) = k" by (auto simp: stuck_def row_where_iff)
  from job_step [OF r(1), of e x] obtain r' where "map_of (cjobs (comm_exec e x db)) i = Some r'"
    and "job_change (job_lifecycle r db) False (erases e x db) r r'" using fin by auto
  with stuck_change [OF this(2) r(2-4)] r show ?thesis by (auto simp: stuck_def row_where_iff)
qed

lemma stuck_run: "stuck i k db \<Longrightarrow> list_all (\<lambda>(t, e, x). \<not> finishes x i) tr \<Longrightarrow> stuck i k (run_ops comm_step tr db)"
proof (induction tr arbitrary: db)
  case (Cons y tr)
  obtain t e x where "y = (t, e, x)" by (cases y)
  with Cons show ?case by (simp add: comm_step_def stuck_step)
qed simp

lemma stuck_blocks: "stuck i k db \<Longrightarrow> lifecycle_blockers e k db \<noteq> []"
  by (auto simp: stuck_def row_where_iff lifecycle_blockers_def select_where_def filter_empty_conv blocking_job_def in_scope_def
      dest!: map_of_SomeD)

lemma unique_jobs_step: "unique_keys (cjobs db) \<Longrightarrow> unique_keys (cjobs (comm_exec e x db))"
proof -
  assume ok: "unique_keys (cjobs db)"
  have in_: "comes_in db db' \<Longrightarrow> unique_keys (cjobs db')" for db'
    using ok by (auto elim!: comes_in.cases simp: kept_def unique_keys_snoc)
  show ?thesis
    by (cases x) (simp_all add: in_ record_comes_in enqueue_comes_in ingest_comes_in ok cjobs_frames
        set_recovery_state_def mark_command_running_def update_command_def complete_command_def fail_command_def
        cancel_command_def cancel_session_def suspend_command_def clear_suspended_command_def set_job_def Let_def
        release_discord_interaction_def erase_session_def txn_snd bind_result_def guard_def split: sum.split)
qed

lemma unique_jobs_run: "unique_keys (cjobs (run_ops comm_step tr empty_comm))"
  by (rule run_ops_invariant [where I = "\<lambda>db. unique_keys (cjobs db)"])
    (simp_all add: comm_step_def unique_jobs_step, simp add: empty_comm_def unique_keys_def)

lemma stuck_not_recoverable:
  assumes "stuck i k db" and "unique_keys (cjobs db)"
  shows "list_all (\<lambda>c. cm_id c \<noteq> i) (recoverable_commands db)"
proof -
  have "jb_status r = JCancelRequested" if "(i, r) \<in> set (cjobs db)" for r
    using assms map_of_is_SomeI [OF _ that] by (auto simp: stuck_def row_where_iff unique_keys_def)
  then show ?thesis
    by (auto simp: recoverable_commands_def select_where_def list_all_iff command_of_def dest!: in_set_takeD)
qed

text \<open>
  C38: When the worker of a running job is lost after the job was asked to stop, nothing but its own report
  ends the job: recovery does not see it, and until that report the deletion of its session is refused in
  every history, begun or erasing.
\<close>

theorem unreported_stop_blocks_deletion:
  assumes "db = run_ops comm_step tr0 empty_comm"
    and "map_of (cjobs db) i = Some r" "jb_status r = JCancelRequested" "state_key r (jb_session r) = k"
    and "\<not> cleanup_control (jb_text r)" "\<not> new_session (jb_text r)"
    and "list_all (\<lambda>(t, e, x). \<not> finishes x i) tr" and "db' = run_ops comm_step tr db"
    and "scope_from_owner e own = Inr k"
  shows "(\<exists>r'. map_of (cjobs db') i = Some r' \<and> jb_status r' = JCancelRequested)
    \<and> list_all (\<lambda>c. cm_id c \<noteq> i) (recoverable_commands db')
    \<and> fst (begin_session_deletion e own db') = Inl (ValueError ''Communication work still active; cancel/wait before cleanup'')
    \<and> erase_session e own db' = (Inl (ValueError ''Communication work is still active''), db')"
proof -
  have "stuck i k db" using assms(2-6) by (simp add: stuck_def row_where_def)
  from stuck_run [OF this assms(7)] have st: "stuck i k db'" by (simp add: assms(8))
  have "unique_keys (cjobs db')"
    unfolding assms(1,8) run_ops_append [symmetric] by (rule unique_jobs_run)
  note unseen = stuck_not_recoverable [OF st this]
  from stuck_step [OF st, of "CBegin own" e] have "stuck i k (set_scope k (\<lambda>s. s = SActive) SDeleting db')"
    by (simp add: finishes_def begin_session_deletion_def assms(9) Let_def)
  from stuck_blocks [OF this, of e] stuck_blocks [OF st, of e] st unseen show ?thesis
    by (auto simp: begin_session_deletion_def erase_session_def assms(9) Let_def stuck_def row_where_iff)
qed

text \<open>The clean-up commands of a deleted session are allowed to run, but their end is not recorded.\<close>

lemma deleted_session_command_stays_running:
  "row_where i (\<lambda>r. job_lifecycle r db = SDeleted) (cjobs db) \<Longrightarrow>
     complete_command e i out db = db \<and> fail_command e i err db = db"
  by (auto simp: complete_command_def fail_command_def update_command_def row_where_iff)

section \<open>An erased session stays sealed\<close>

definition blank_message :: "message_row \<Rightarrow> bool" where
  "blank_message m \<longleftrightarrow> ms_text m = [] \<and> ms_raw m = JObj [] \<and> ms_status m = ''deleted''"



definition content_kept :: "comm_db \<Rightarrow> comm_db \<Rightarrow> bool" where
  "content_kept db db' \<longleftrightarrow> (\<forall>i r. map_of (cmsgs db) i = Some r \<longrightarrow> (\<exists>r'. map_of (cmsgs db') i = Some r'
     \<and> (ms_text r' = ms_text r \<and> ms_raw r' = ms_raw r \<and> ms_status r' = ms_status r \<or> blank_message r')))"

lemma content_refl [simp]: "content_kept db db" and content_same: "cmsgs db' = cmsgs db \<Longrightarrow> content_kept db db'"
  by (simp_all add: content_kept_def)














lemma insert_message_files [simp]: "cfiles (insert_message r db) = cfiles db"
  by (simp add: insert_message_def split: option.split)




















section \<open>An inbound event becomes one command\<close>

lemma job_change_owner: "job_change st fin er r r' \<Longrightarrow> attachment_owner r' = attachment_owner r"
  by (induction rule: job_change.induct) (simp_all add: attachment_owner_def stopped_def erased_job_def)

lemma job_owner_run: "map_of (cjobs db) i = Some r \<Longrightarrow>
    \<exists>r'. map_of (cjobs (run_ops comm_step tr db)) i = Some r' \<and> attachment_owner r' = attachment_owner r"
proof (induction tr arbitrary: db r)
  case (Cons y tr)
  obtain t e x where y: "y = (t, e, x)" by (cases y)
  from job_step [OF Cons.prems] obtain r' where r': "map_of (cjobs (comm_exec (e\<lparr>ce_now := t\<rparr>) x db)) i = Some r'"
    and "attachment_owner r' = attachment_owner r" using job_change_owner by blast
  with Cons.IH [OF r'] show ?case by (simp add: y comm_step_def)
qed simp

lemma ingest_job:
  assumes "ingest_inbound_message e m db = (Inr (c, new), db')"
  shows "\<exists>r. map_of (cjobs db') (idempotency_key m) = Some r \<and> attachment_owner r = attachment_owner m
    \<and> cm_id c = idempotency_key m"
proof (cases "map_of (cjobs db) (idempotency_key m)")
  case None
  obtain session db1 where inc: "incoming_session e m None (recovery_session e m db) db = Inr (session, db1)"
    using assms None by (cases "incoming_session e m None (recovery_session e m db) db") (auto simp: ingest_inbound_message_def Let_def)
  obtain db2 where saved: "save_attachments e m db1 = Inr db2"
    using assms None inc by (cases "save_attachments e m db1") (auto simp: ingest_inbound_message_def Let_def)
  obtain i db3 where st: "store_message e m session db2 = (i, db3)" by fastforce
  have "map_of (cjobs db3) (idempotency_key m) = None"
    using None incoming_session_frame(1) [OF inc] save_attachments_frame(1) [OF saved] store_message_frame(1) [OF st]
    by (simp add: kept_def)
  with assms None inc saved st show ?thesis
    by (auto simp: ingest_inbound_message_def Let_def command_by_id_def command_of_def job_of_def attachment_owner_def map_add_def
        split: option.splits)
next
  case (Some r)
  with assms show ?thesis
    by (auto simp: ingest_inbound_message_def Let_def command_of_def split: if_splits)
qed

text \<open>
  A platform event that was ingested is never ingested again: in every later history an event with the
  same key from the same party yields the stored command and changes nothing, and one from another party is
  refused.
\<close>

theorem event_ingested_once:
  assumes "ingest_inbound_message e m db = (Inr (c, new), db')" and "db'' = run_ops comm_step tr db'"
    and "idempotency_key m' = idempotency_key m"
  shows "if attachment_owner m' = attachment_owner m
    then (\<exists>c'. ingest_inbound_message e' m' db'' = (Inr (c', False), db'') \<and> cm_id c' = cm_id c)
    else ingest_inbound_message e' m' db'' = (Inl (PermissionError ''Duplicate event belongs to another identity/session/project''), db'')"
proof -
  from ingest_job [OF assms(1)] obtain r where "map_of (cjobs db') (idempotency_key m) = Some r"
    and "attachment_owner r = attachment_owner m" and c: "cm_id c = idempotency_key m" by blast
  with job_owner_run [OF this(1), of tr] obtain r' where "map_of (cjobs db'') (idempotency_key m) = Some r'"
    and "attachment_owner r' = attachment_owner m" by (auto simp: assms(2))
  with c show ?thesis by (simp add: ingest_inbound_message_def assms(3) Let_def command_of_def)
qed

section \<open>Witnesses\<close>

definition chat_env :: comm_env where
  "chat_env = \<lparr>ce_now = 0, ce_stamp = ''now'', ce_uuid = ''u'', ce_loads = (\<lambda>_. Some (JArr [JStr ''communication'',
     JStr ''line:ann'', JStr ''p'', JStr ''line:c''])), ce_plans = (\<lambda>_ _. []), ce_file_bytes = 1, ce_file_count = 1,
     ce_file_total = 1, ce_file_ttl = 1, ce_key_limit = 1, ce_delivery_limit = 1, ce_delivery_bytes = 100,
     ce_delivery_ttl = 10\<rparr>"

definition hello :: inbound where
  "hello = \<lparr>pa_platform = ''line'', pa_sender = ''ann'', pa_conversation = ''c'', pa_project = ''p'', im_id = ''1'',
     im_text = ''hi'', im_raw = JObj [], im_files = []\<rparr>"

definition hello_job :: job_row where
  "hello_job = job_of chat_env hello 1 ''line:c''"

definition chat_db :: comm_db where
  "chat_db = empty_comm\<lparr>cmsgs := [(1, (message_of chat_env hello)\<lparr>ms_project := Some ''p'', ms_session := Some ''line:c'', ms_owner := Some ''ann''\<rparr>)],
     cjobs := [(''line:1'', hello_job)], cheads := [((''line'', ''ann'', ''c'', ''p''), ''line:c'')],
     cstates := [((''line'', ''ann'', ''p'', ''line:c''), (''c'', SActive))]\<rparr>"

lemma hello_text: "recovery_id ''hi'' = None" "\<not> cleanup_control ''hi''" "\<not> new_session ''hi''" "\<not> cancel_words ''hi''"
proof -
  have strip: "py_strip ''hi'' = ''hi''"
    by (simp add: py_strip_def py_lstrip_def py_rstrip_def space_codes_eq is_prefix_of_def)
  show "recovery_id ''hi'' = None" by (simp add: recovery_id_def strip recovery_words_def py_starts_def is_prefix_of_def)
  then show "\<not> cleanup_control ''hi''" by (simp add: cleanup_control_def strip)
  show "\<not> new_session ''hi''" by (simp add: new_session_def strip)
  show "\<not> cancel_words ''hi''" by (simp add: cancel_words_def strip py_starts_def is_prefix_of_def)
qed

lemma hello_ingested: "ingest_inbound_message chat_env hello empty_comm = (Inr (command_of ''line:1'' hello_job [], True), chat_db)"
  by (simp add: ingest_inbound_message_def Let_def hello_def idempotency_key_def empty_comm_def incoming_session_def hello_text
      recovery_session_def bound_message_def chosen_session_def default_session_def state_key_def head_key_def
      insert_or_ignore_def scope_state_def upsert_row_def save_attachments_def batch_bytes_def chat_env_def positive_limit_def
      column_sum_def store_message_def insert_message_def find_message_def message_of_def raw_payload_def
      next_id_def add_row_def own_message_def update_key_def job_of_def command_by_id_def load_attachments_def
      command_of_def lifecycle_state_def asc_def select_where_def chat_db_def hello_job_def jor_def attachment_owner_def)


theorem event_ingested_once_witness:
  "\<exists>c. ingest_inbound_message chat_env hello (run_ops comm_step [(1, chat_env, CRun ''line:1'')] chat_db)
     = (Inr (c, False), run_ops comm_step [(1, chat_env, CRun ''line:1'')] chat_db)"
  using event_ingested_once [OF hello_ingested refl refl, where tr = "[(1, chat_env, CRun ''line:1'')]" and e' = chat_env] by auto

definition stopping_db :: comm_db where
  "stopping_db = chat_db\<lparr>cjobs := [(''line:1'', hello_job\<lparr>jb_status := JCancelRequested, jb_attempts := 1\<rparr>)]\<rparr>"

lemma hello_fields [simp]: "jb_text hello_job = ''hi''" "jb_status hello_job = JPending" "jb_session hello_job = ''line:c''"
  "pa_platform hello_job = ''line''" "pa_sender hello_job = ''ann''" "pa_project hello_job = ''p''"
  "pa_conversation hello_job = ''c''" "jb_attempts hello_job = 0" "jb_updated hello_job = ''now''"
  by (simp_all add: hello_job_def job_of_def hello_def chat_env_def)

lemma stopping_run: "run_ops comm_step [(0, chat_env, CIngest hello), (0, chat_env, CRun ''line:1''), (0, chat_env, CCancel ''line:1'' None)]
    empty_comm = stopping_db"
proof -
  have env: "chat_env\<lparr>ce_now := 0\<rparr> = chat_env" "ce_stamp chat_env = ''now''" by (simp_all add: chat_env_def)
  have "snd (mark_command_running chat_env ''line:1'' chat_db)
      = chat_db\<lparr>cjobs := [(''line:1'', hello_job\<lparr>jb_status := JRunning, jb_attempts := 1\<rparr>)]\<rparr>"
    by (simp add: mark_command_running_def Let_def row_where_def may_run_def lifecycle_state_def scope_state_def state_key_def
        set_job_def update_key_def env chat_db_def empty_comm_def)
  then have "run_ops comm_step [(0, chat_env, CIngest hello), (0, chat_env, CRun ''line:1''), (0, chat_env, CCancel ''line:1'' None)] empty_comm
      = snd (cancel_command ''line:1'' None (chat_db\<lparr>cjobs := [(''line:1'', hello_job\<lparr>jb_status := JRunning, jb_attempts := 1\<rparr>)]\<rparr>))"
    by (simp add: comm_step_def hello_ingested env)
  then show ?thesis
    by (simp add: cancel_command_def set_job_def update_key_def owner_filter_def stopping_db_def)
qed

lemma chat_scope: "scope_from_owner chat_env own = Inr (''line'', ''ann'', ''p'', ''line:c'')"
  by (simp add: scope_from_owner_def owner_scope_def chat_env_def)

theorem unreported_stop_blocks_deletion_witness:
  "erase_session chat_env ''o'' (run_ops comm_step [(9, chat_env, CNeedsRecovery ''line:1'')] stopping_db)
     = (Inl (ValueError ''Communication work is still active''), run_ops comm_step [(9, chat_env, CNeedsRecovery ''line:1'')] stopping_db)"
proof -
  have row: "map_of (cjobs stopping_db) ''line:1'' = Some (hello_job\<lparr>jb_status := JCancelRequested, jb_attempts := 1\<rparr>)"
    by (simp add: stopping_db_def)
  show ?thesis
    using unreported_stop_blocks_deletion [OF stopping_run [symmetric] row, where k = "(''line'', ''ann'', ''p'', ''line:c'')"
        and tr = "[(9, chat_env, CNeedsRecovery ''line:1'')]" and e = chat_env and own = "''o''", OF _ _ _ _ _ refl chat_scope]
    by (simp add: hello_text finishes_def state_key_def)
qed




definition event_id :: pystr where
  "event_id = replicate 64 (CHR ''a'')"

definition reply_key :: pystr where
  "reply_key = ''line:1:temporal:'' @ event_id"

lemma reply_queued: "queue_delivery chat_env (command_of ''line:1'' hello_job []) ''ok'' (JObj []) False False (Some event_id) chat_db
  = (Inr reply_key, chat_db\<lparr>
      ckeys := [(reply_key, event_fingerprint (command_of ''line:1'' hello_job []) ''ok'' False)],
      cdeliv := [(reply_key, delivery_of chat_env (command_of ''line:1'' hello_job []) ''ok'' (JObj []) False 10)]\<rparr>)"
proof -
  have key: "delivery_key (command_of ''line:1'' hello_job []) ''ok'' False (Some event_id) = Inr reply_key"
    by (simp add: delivery_key_def command_of_def reply_key_def event_id_def hex_text_def lower_hex_def list_all_iff)
  have limits: "ce_key_limit chat_env = 1" "ce_delivery_limit chat_env = 1" "ce_delivery_bytes chat_env = 100"
    "ce_delivery_ttl chat_env = 10" by (simp_all add: chat_env_def)
  have admitted: "admit_delivery chat_env (command_of ''line:1'' hello_job []) ''ok'' (JObj []) False chat_db = Inr (JObj [])"
    by (simp add: admit_delivery_def lifecycle_state_def command_of_def state_key_def scope_state_def chat_db_def)
  have tables: "ckeys chat_db = []" "cdeliv chat_db = []" by (simp_all add: chat_db_def empty_comm_def)
  show ?thesis
    by (simp add: queue_delivery_def key admitted note_event_def store_delivery_def tables positive_limit_def limits
        byte_len_def json_bytes_def column_sum_def)
qed

definition reply_db :: comm_db where
  "reply_db = run_ops comm_step [(0, chat_env, CIngest hello),
     (0, chat_env, CQueue (command_of ''line:1'' hello_job []) ''ok'' (JObj []) False False (Some event_id))] empty_comm"

theorem delivery_claimed_once_witness:
  "fst (claim_delivery chat_env reply_key reply_db)
   \<and> \<not> fst (claim_delivery chat_env reply_key (run_ops comm_step [(500, chat_env, CCleanup)] (snd (claim_delivery chat_env reply_key reply_db))))"
proof -
  have env: "chat_env\<lparr>ce_now := 0\<rparr> = chat_env" by (simp add: chat_env_def)
  have eq: "reply_db = chat_db\<lparr>
      ckeys := [(reply_key, event_fingerprint (command_of ''line:1'' hello_job []) ''ok'' False)],
      cdeliv := [(reply_key, delivery_of chat_env (command_of ''line:1'' hello_job []) ''ok'' (JObj []) False 10)]\<rparr>"
    by (simp add: reply_db_def comm_step_def env hello_ingested reply_queued)
  have claimed: "fst (claim_delivery chat_env reply_key reply_db)"
    unfolding eq by (simp add: claim_delivery_def row_where_def delivery_of_def delivery_scope_def scope_state_def command_of_def
      chat_db_def claimable_def chat_env_def)
  have key: "map_of (ckeys reply_db) reply_key \<noteq> None" by (simp add: eq)
  have "claim_delivery chat_env reply_key reply_db = (True, snd (claim_delivery chat_env reply_key reply_db))"
    using claimed by (metis (full_types) surjective_pairing)
  from delivery_claimed_once [OF reply_db_def key this, where tr' = "[(500, chat_env, CCleanup)]" and e' = chat_env] claimed
  show ?thesis by blast
qed

end
