(* ===== verification/Outbox.thy ===== *)
theory Outbox
  imports Database PyText Simulation
begin

text \<open>
  \<open>agent_execution/delivery.py\<close>, class \<open>EventStore\<close>: the durable outbox of a websocket client.  Events are
  numbered per owner, kept until they are acknowledged or expire, and replayed after a reconnect; the
  floor says how much of the history is gone.  Inputs are recorded before they run, under the
  identifier the client gave them.

  A message is a dictionary, given by its items, and kept as the JSON object it is stored as; a float
  in it is a number.
\<close>

section \<open>Tables\<close>

record outbox_env =
  oe_now :: time
  oe_key_limit :: int
  oe_sessions :: int
  oe_limit :: int
  oe_bytes :: int
  oe_ttl :: int
  oe_inputs :: int
  oe_input_ttl :: int

record sent_event =
  se_message :: json
  se_size :: nat
  se_expires :: time

record input_row =
  in_digest :: pystr
  in_status :: pystr
  in_expires :: time

record outbox_db =
  ob_sessions :: "(pystr, nat \<times> nat) table"
  ob_events :: "(pystr \<times> nat, sent_event) table"
  ob_inputs :: "(pystr \<times> pystr, input_row) table"
  ob_keys :: "(pystr \<times> pystr, pystr \<times> nat) table"

definition empty_outbox :: outbox_db where
  "empty_outbox = \<lparr>ob_sessions = [], ob_events = [], ob_inputs = [], ob_keys = []\<rparr>"

definition client_owner :: "pystr \<Rightarrow> pystr \<Rightarrow> pystr \<Rightarrow> pystr" where
  "client_owner user project device = dumps False True (JArr [JStr user, JStr project, JStr device])"

section \<open>Events\<close>

text \<open>\<open>COALESCE((SELECT MAX(seq) ... WHERE expires <= now), 0)\<close>.\<close>

definition expired_upto :: "time \<Rightarrow> pystr \<Rightarrow> (pystr \<times> nat, sent_event) table \<Rightarrow> nat" where
  "expired_upto t own evs = foldr max (map (snd \<circ> fst) (select_where (\<lambda>(o', _) r. o' = own \<and> se_expires r \<le> t) evs)) 0"

definition cleanup :: "outbox_env \<Rightarrow> outbox_db \<Rightarrow> outbox_db" where
  "cleanup e db = db\<lparr>
     ob_sessions := map (\<lambda>(own, q, f). (own, q, max f (expired_upto (oe_now e) own (ob_events db)))) (ob_sessions db),
     ob_events := delete_where (\<lambda>_ r. se_expires r \<le> oe_now e) (ob_events db),
     ob_inputs := delete_where (\<lambda>_ r. in_expires r \<le> oe_now e) (ob_inputs db)\<rparr>"

definition events_of :: "pystr \<Rightarrow> outbox_db \<Rightarrow> (nat \<times> sent_event) list" where
  "events_of own db = sort_key fst (map (\<lambda>((_, n), r). (n, r)) (select_where (\<lambda>(o', _) _. o' = own) (ob_events db)))"

definition snapshot :: "outbox_env \<Rightarrow> pystr \<Rightarrow> outbox_db \<Rightarrow> (nat \<times> nat \<times> json list) \<times> outbox_db" where
  "snapshot e own db = (let db1 = cleanup e db in
     (case map_of (ob_sessions db1) own of None \<Rightarrow> (0, 0, [])
      | Some (q, f) \<Rightarrow> (q, f, map (se_message \<circ> snd) (events_of own db1)), db1))"

type_synonym items = "(pystr \<times> json) list"

definition event_print :: "items \<Rightarrow> pystr" where
  "event_print m = sha256 (dumps False False (sort_keys (JObj
     (map (\<lambda>k. (k, jget (JObj m) k)) [''type'', ''ref'', ''payload'']))))"

definition input_status :: "items \<Rightarrow> pystr result" where
  "input_status m = bind_result (py_index (JObj m) ''payload'') (\<lambda>p. bind_result (py_get p ''task_state'' JNull) (\<lambda>st. Inr
     (if st = JStr ''uncertain'' then ''uncertain''
      else if jtruth (jget p ''interrupted'') then ''interrupted''
      else if jtruth (jget p ''suspended'') then ''suspended''
      else if jtruth (jget p ''failed'') then ''failed'' else ''completed'')))"

definition set_input :: "pystr \<Rightarrow> pystr \<Rightarrow> pystr \<Rightarrow> outbox_db \<Rightarrow> outbox_db" where
  "set_input own k st db = db\<lparr>ob_inputs := update_key (own, k) (\<lambda>_. True) (\<lambda>r. r\<lparr>in_status := st\<rparr>) (ob_inputs db)\<rparr>"

text \<open>
  A JSON value bound to \<open>id=?\<close>, where \<open>id\<close> is a text column: a number is compared by its text, null equals
  nothing, and a list or a dictionary cannot be bound.
\<close>

fun bound_text :: "json \<Rightarrow> pystr option result" where
  "bound_text (JStr s) = Inr (Some s)"
| "bound_text (JInt n) = Inr (Some (show_int n))"
| "bound_text (JBool b) = Inr (Some (if b then ''1'' else ''0''))"
| "bound_text (JFloat s) = Inr (Some s)"
| "bound_text JNull = Inr None"
| "bound_text _ = Inl (ProgrammingError ''Error binding parameter'')"

text \<open>A durable event is recorded with its number; the end of a turn settles the input it answers.\<close>

definition record_key :: "pystr \<Rightarrow> pystr option \<Rightarrow> items \<Rightarrow> nat \<Rightarrow> outbox_db \<Rightarrow> outbox_db result" where
  "record_key own key m q db = (case key of None \<Rightarrow> Inr db | Some k \<Rightarrow>
     let db1 = db\<lparr>ob_keys := ob_keys db @ [((own, k), (event_print m, q))]\<rparr> in
     if jget (JObj m) ''type'' \<noteq> JStr ''chat.end'' then Inr db1
     else bind_result (input_status m) (\<lambda>st. bind_result (bound_text (jget (JObj m) ''ref'')) (\<lambda>ref.
       Inr (case ref of None \<Rightarrow> db1 | Some i \<Rightarrow> set_input own i st db1))))"

definition open_session :: "outbox_env \<Rightarrow> pystr \<Rightarrow> outbox_db \<Rightarrow> outbox_db result" where
  "open_session e own db = (if map_of (ob_sessions db) own \<noteq> None then Inr db
     else bind_result (positive_limit ''COMPANION_MAX_SESSIONS'' (oe_sessions e)) (\<lambda>n.
       if n \<le> int (length (ob_sessions db)) then Inl (CapacityError ''Companion session capacity reached'')
       else Inr (db\<lparr>ob_sessions := ob_sessions db @ [(own, (0, 0))]\<rparr>)))"

definition outbox_full :: exn where
  "outbox_full = CapacityError ''Reliable outbox full; acknowledge events before continuing''"

definition admit_event :: "outbox_env \<Rightarrow> pystr \<Rightarrow> nat \<Rightarrow> outbox_db \<Rightarrow> unit result" where
  "admit_event e own sz db = (let mine = (\<lambda>(o', _) _. o' = own) in
     bind_result (positive_limit ''COMPANION_OUTBOX_LIMIT'' (oe_limit e)) (\<lambda>n.
     if n \<le> int (count_where mine (ob_events db)) \<or> sz > 2097152
        \<or> column_sum (\<lambda>_. se_size) (select_where mine (ob_events db)) + sz > 20971520 then Inl outbox_full
     else bind_result (positive_limit ''COMPANION_EVENT_BYTES'' (oe_bytes e)) (\<lambda>b.
       if int (column_sum (\<lambda>_. se_size) (ob_events db) + sz) > b then Inl outbox_full else Inr ())))"

definition append_new :: "outbox_env \<Rightarrow> pystr \<Rightarrow> items \<Rightarrow> pystr option \<Rightarrow> outbox_db \<Rightarrow> (json option \<times> outbox_db) result" where
  "append_new e own m key db = bind_result (open_session e own db) (\<lambda>db1.
     let q = Suc (fst (the (map_of (ob_sessions db1) own))); r = jset (JObj m) ''seq'' (JInt (int q)); sz = json_bytes False False r in
     bind_result (admit_event e own sz db1) (\<lambda>_.
     bind_result (positive_limit ''COMPANION_EVENT_TTL'' (oe_ttl e)) (\<lambda>ttl.
     case insert_row (own, q) \<lparr>se_message = r, se_size = sz, se_expires = oe_now e + real_of_int ttl\<rparr> (ob_events db1) of
       None \<Rightarrow> Inl (IntegrityError ''UNIQUE constraint failed: ws_events'')
     | Some evs \<Rightarrow> bind_result (record_key own key m q (db1\<lparr>ob_events := evs,
           ob_sessions := update_key own (\<lambda>_. True) (\<lambda>(_, f). (q, f)) (ob_sessions db1)\<rparr>))
         (\<lambda>db2. Inr (Some r, db2)))))"

definition append_event :: "outbox_env \<Rightarrow> pystr \<Rightarrow> items \<Rightarrow> pystr option \<Rightarrow> outbox_db \<Rightarrow> json option result \<times> outbox_db" where
  "append_event e own m key db = txn db (let db1 = cleanup e db in
     case key of None \<Rightarrow> append_new e own m None db1
     | Some k \<Rightarrow> bind_result (guard (hex_text 64 k) (ValueError ''Invalid durable event ID'')) (\<lambda>_.
        case map_of (ob_keys db1) (own, k) of
          Some (f, q) \<Rightarrow> if f \<noteq> event_print m then Inl (ValueError ''Durable event ID reused with different payload'')
            else Inr (map_option se_message (map_of (ob_events db1) (own, q)), db1)
        | None \<Rightarrow> bind_result (positive_limit ''COMPANION_EVENT_KEY_LIMIT'' (oe_key_limit e)) (\<lambda>n.
            if n \<le> int (length (ob_keys db1)) then Inl (CapacityError ''Durable event identity capacity reached'')
            else append_new e own m (Some k) db1)))"

definition ack :: "pystr \<Rightarrow> int \<Rightarrow> outbox_db \<Rightarrow> unit result \<times> outbox_db" where
  "ack own n db = txn db
     (if n < 0 \<or> n > (case map_of (ob_sessions db) own of None \<Rightarrow> 0 | Some (q, _) \<Rightarrow> int q)
      then Inl (ValueError ''ACK sequence is outside this session history'')
      else Inr ((), db\<lparr>ob_events := delete_where (\<lambda>(o', q) _. o' = own \<and> int q \<le> n) (ob_events db),
        ob_sessions := update_key own (\<lambda>_. True) (\<lambda>(q, f). (q, max f (nat n))) (ob_sessions db)\<rparr>))"

section \<open>Inputs\<close>

text \<open>The status of a known input; \<open>None\<close> when the input is new and may run.\<close>

definition accept_input :: "outbox_env \<Rightarrow> pystr \<Rightarrow> pystr \<Rightarrow> pystr \<Rightarrow> outbox_db \<Rightarrow> pystr option result \<times> outbox_db" where
  "accept_input e own k body db = txn db (let db1 = cleanup e db in
     case map_of (ob_inputs db1) (own, k) of
       Some r \<Rightarrow> if in_digest r \<noteq> sha256 body then Inl (ValueError ''Input ID cannot be reused with different content'')
         else Inr (Some (in_status r), db1)
     | None \<Rightarrow> bind_result (positive_limit ''COMPANION_INPUT_LIMIT'' (oe_inputs e)) (\<lambda>n.
         if n \<le> int (length (ob_inputs db1)) then Inl (CapacityError ''Companion input deduplication capacity reached'')
         else bind_result (positive_limit ''COMPANION_INPUT_TTL'' (oe_input_ttl e)) (\<lambda>ttl.
           Inr (None, db1\<lparr>ob_inputs := ob_inputs db1 @ [((own, k), \<lparr>in_digest = sha256 body, in_status = ''uncertain'',
             in_expires = oe_now e + real_of_int ttl\<rparr>)]\<rparr>))))"

definition finish_input :: "pystr \<Rightarrow> pystr \<Rightarrow> pystr \<Rightarrow> outbox_db \<Rightarrow> outbox_db" where
  "finish_input own k st db = set_input own k st db"

definition erase_owner :: "pystr \<Rightarrow> outbox_db \<Rightarrow> outbox_db" where
  "erase_owner own db = db\<lparr>
     ob_events := delete_where (\<lambda>(o', _) _. o' = own) (ob_events db),
     ob_inputs := update_where (\<lambda>(o', _) _. o' = own) (\<lambda>r. r\<lparr>in_digest := [], in_status := ''deleted''\<rparr>) (ob_inputs db),
     ob_sessions := update_key own (\<lambda>_. True) (\<lambda>(q, _). (q, q)) (ob_sessions db)\<rparr>"


section \<open>The numbered history\<close>

text \<open>
  Every number above the floor and up to the last one has an event, and an event carries its number.
  Events below the floor may remain: a clock or a time-to-live that goes back lets an older event outlive a
  younger one.
\<close>

definition outbox_ok :: "outbox_db \<Rightarrow> bool" where
  "outbox_ok db \<longleftrightarrow> unique_keys (ob_events db)
     \<and> (\<forall>own q f. map_of (ob_sessions db) own = Some (q, f) \<longrightarrow>
          f \<le> q \<and> (\<forall>n. f < n \<and> n \<le> q \<longrightarrow> map_of (ob_events db) (own, n) \<noteq> None))
     \<and> (\<forall>own n r. map_of (ob_events db) (own, n) = Some r \<longrightarrow> jget (se_message r) ''seq'' = JInt (int n)
          \<and> (\<exists>q f. map_of (ob_sessions db) own = Some (q, f) \<and> 0 < n \<and> n \<le> q))"

lemma outbox_ok_empty: "outbox_ok empty_outbox"
  by (simp add: outbox_ok_def empty_outbox_def unique_keys_def)

lemma outbox_ok_event:
  "outbox_ok db \<Longrightarrow> map_of (ob_events db) (own, n) = Some r \<Longrightarrow>
     jget (se_message r) ''seq'' = JInt (int n) \<and> (\<exists>q f. map_of (ob_sessions db) own = Some (q, f) \<and> 0 < n \<and> n \<le> q)"
  by (auto simp: outbox_ok_def)

text \<open>
  What the tables promise a client of its outbox: the floor, and the messages above it in their order.  \<open>snapshot\<close> may
  return older messages too, below a floor that an acknowledgement or an expiry raised past them.
\<close>

type_synonym outbox_view = "pystr \<Rightarrow> (nat \<times> json list) option"

definition window :: "outbox_db \<Rightarrow> pystr \<Rightarrow> nat \<Rightarrow> nat \<Rightarrow> json list" where
  "window db own f q = map (\<lambda>n. se_message (the (map_of (ob_events db) (own, n)))) [Suc f..<Suc q]"

definition outbox_view :: "outbox_db \<Rightarrow> outbox_view" where
  "outbox_view db own = map_option (\<lambda>(q, f). (f, window db own f q)) (map_of (ob_sessions db) own)"

text \<open>
  The specification: an empty window opens, a window grows by the next message, or windows lose a front
  part, their floors rising by as much.
\<close>

definition drop_each :: "(pystr \<Rightarrow> nat) \<Rightarrow> outbox_view \<Rightarrow> outbox_view" where
  "drop_each k v own = map_option (\<lambda>(f, w). (f + k own, drop (k own) w)) (v own)"

inductive outbox_spec :: "outbox_view \<Rightarrow> outbox_view \<Rightarrow> bool" where
  opens: "v own = None \<Longrightarrow> outbox_spec v (v(own \<mapsto> (0, [])))"
| grows: "v own = Some (f, w) \<Longrightarrow> jget m ''seq'' = JInt (int (Suc (f + length w))) \<Longrightarrow>
    outbox_spec v (v(own \<mapsto> (f, w @ [m])))"
| drops: "outbox_spec v (drop_each k v)"

subsection \<open>Losing history\<close>

lemma map_of_key_map: "map_of (map (\<lambda>x. (fst x, h (fst x) (snd x))) t) k = map_option (h k) (map_of t k)"
  by (induction t) auto

lemma drop_upt_Suc: "drop (g - f) [Suc f..<Suc q] = (if f \<le> g then [Suc g..<Suc q] else [Suc f..<Suc q])"
  by auto

text \<open>Floors that rise to at most the last number, while the events above them stay.\<close>

lemma raised_floor:
  assumes ok: "outbox_ok db"
    and s: "\<And>own. map_of (ob_sessions db') own = map_option (\<lambda>(q, f). (q, h own q f)) (map_of (ob_sessions db) own)"
    and h: "\<And>own q f. map_of (ob_sessions db) own = Some (q, f) \<Longrightarrow> f \<le> h own q f \<and> h own q f \<le> q"
    and old: "\<And>own n r. map_of (ob_events db') (own, n) = Some r \<Longrightarrow> map_of (ob_events db) (own, n) = Some r"
    and kept: "\<And>own q f n r. map_of (ob_sessions db) own = Some (q, f) \<Longrightarrow> h own q f < n \<Longrightarrow>
      map_of (ob_events db) (own, n) = Some r \<Longrightarrow> map_of (ob_events db') (own, n) = Some r"
    and u: "unique_keys (ob_events db')"
  shows "outbox_ok db' \<and> outbox_spec (outbox_view db) (outbox_view db')"
proof
  have present: "map_of (ob_events db) (own, n) \<noteq> None" if "map_of (ob_sessions db) own = Some (q, f)" "f < n" "n \<le> q" for own q f n
    using ok that by (auto simp: outbox_ok_def)
  have above: "map_of (ob_events db') (own, n) = map_of (ob_events db) (own, n)"
    if "map_of (ob_sessions db) own = Some (q, f)" "h own q f < n" "n \<le> q" for own q f n
    using present [OF that(1) _ that(3)] kept [OF that(1,2)] h [OF that(1)] that(2) by auto
  show "outbox_ok db'"
    unfolding outbox_ok_def
  proof (intro conjI allI impI u)
    fix own q g n assume "map_of (ob_sessions db') own = Some (q, g)"
    then obtain f where f: "map_of (ob_sessions db) own = Some (q, f)" "g = h own q f" by (auto simp: s)
    then show "g \<le> q" using h by auto
    assume "g < n \<and> n \<le> q"
    with f above [OF f(1)] present [OF f(1)] h [OF f(1)] show "map_of (ob_events db') (own, n) \<noteq> None" by auto
  next
    fix own n r assume "map_of (ob_events db') (own, n) = Some r"
    from outbox_ok_event [OF ok old [OF this]]
    show "jget (se_message r) ''seq'' = JInt (int n)" "\<exists>q f. map_of (ob_sessions db') own = Some (q, f) \<and> 0 < n \<and> n \<le> q"
      by (auto simp: s)
  qed
  let ?k = "\<lambda>own. case map_of (ob_sessions db) own of None \<Rightarrow> 0 | Some (q, f) \<Rightarrow> h own q f - f"
  have "outbox_view db' own = drop_each ?k (outbox_view db) own" for own
  proof (cases "map_of (ob_sessions db) own")
    case (Some qf)
    then obtain q f where r: "map_of (ob_sessions db) own = Some (q, f)" by (cases qf) auto
    have "window db' own (h own q f) q = drop (h own q f - f) (window db own f q)"
      using above [OF r] h [OF r] by (simp add: window_def drop_map drop_upt_Suc del: upt_Suc)
    then show ?thesis using r h [OF r] by (simp add: outbox_view_def drop_each_def s)
  qed (simp add: outbox_view_def drop_each_def s)
  then have "outbox_view db' = drop_each ?k (outbox_view db)" by (rule ext)
  then show "outbox_spec (outbox_view db) (outbox_view db')" by (simp add: drops)
qed

lemma expired_upto_ge: "map_of (ob_events db) (own, n) = Some r \<Longrightarrow> se_expires r \<le> t \<Longrightarrow> n \<le> expired_upto t own (ob_events db)"
  unfolding expired_upto_def by (rule foldr_max_ge) (force dest: map_of_SomeD simp: select_where_def)

lemma expired_upto_le:
  assumes "outbox_ok db" and "map_of (ob_sessions db) own = Some (q, f)"
  shows "expired_upto t own (ob_events db) \<le> q"
  unfolding expired_upto_def
proof (rule foldr_max_le)
  fix n assume "n \<in> set (map (snd \<circ> fst) (select_where (\<lambda>(o', _) r. o' = own \<and> se_expires r \<le> t) (ob_events db)))"
  then obtain r where "((own, n), r) \<in> set (ob_events db)" by (auto simp: select_where_def)
  then have "map_of (ob_events db) (own, n) = Some r" using assms(1) by (simp add: outbox_ok_def unique_keys_def)
  from outbox_ok_event [OF assms(1) this] assms(2) show "n \<le> q" by auto
qed

lemma cleanup_simulates:
  assumes "outbox_ok db"
  shows "outbox_ok (cleanup e db) \<and> outbox_spec (outbox_view db) (outbox_view (cleanup e db))"
proof (rule raised_floor [where h = "\<lambda>own q f. max f (expired_upto (oe_now e) own (ob_events db))", OF assms])
  have u: "unique_keys (ob_events db)" using assms by (simp add: outbox_ok_def)
  note lookup = delete_where_lookup [OF u]
  show "unique_keys (ob_events (cleanup e db))" by (simp add: cleanup_def u)
  show "map_of (ob_sessions (cleanup e db)) own = map_option (\<lambda>(q, f). (q, max f (expired_upto (oe_now e) own (ob_events db))))
      (map_of (ob_sessions db) own)" for own
    using map_of_key_map [of "\<lambda>own v. (fst v, max (snd v) (expired_upto (oe_now e) own (ob_events db)))" "ob_sessions db" own]
    by (simp add: cleanup_def case_prod_beta')
  show "f \<le> max f (expired_upto (oe_now e) own (ob_events db)) \<and> max f (expired_upto (oe_now e) own (ob_events db)) \<le> q"
    if "map_of (ob_sessions db) own = Some (q, f)" for own q f
    using expired_upto_le [OF assms that] assms that by (auto simp: outbox_ok_def)
  show "map_of (ob_events db) (own, n) = Some r" if "map_of (ob_events (cleanup e db)) (own, n) = Some r" for own n r
    using that by (simp add: cleanup_def lookup split: option.splits if_splits)
  show "map_of (ob_events (cleanup e db)) (own, n) = Some r"
    if "map_of (ob_sessions db) own = Some (q, f)" "max f (expired_upto (oe_now e) own (ob_events db)) < n"
      "map_of (ob_events db) (own, n) = Some r" for own q f n r
    using that expired_upto_ge [OF that(3), of "oe_now e"] by (auto simp: cleanup_def lookup)
qed

lemma ack_simulates:
  assumes ok: "outbox_ok db"
  shows "outbox_ok (snd (ack own n db)) \<and> outbox_spec\<^sup>*\<^sup>* (outbox_view db) (outbox_view (snd (ack own n db)))"
proof (cases "n < 0 \<or> n > (case map_of (ob_sessions db) own of None \<Rightarrow> 0 | Some (q, _) \<Rightarrow> int q)")
  case True
  then show ?thesis using ok by (simp add: ack_def)
next
  case False
  have u: "unique_keys (ob_events db)" using ok by (simp add: outbox_ok_def)
  note lookup = delete_where_lookup [OF u]
  have "outbox_ok (snd (ack own n db)) \<and> outbox_spec (outbox_view db) (outbox_view (snd (ack own n db)))"
  proof (rule raised_floor [where h = "\<lambda>own' q f. if own' = own then max f (nat n) else f", OF ok])
    show "map_of (ob_sessions (snd (ack own n db))) own' = map_option (\<lambda>(q, f). (q, if own' = own then max f (nat n) else f))
        (map_of (ob_sessions db) own')" for own'
      using False by (cases "map_of (ob_sessions db) own'") (auto simp: ack_def tbl)
    show "f \<le> (if own' = own then max f (nat n) else f) \<and> (if own' = own then max f (nat n) else f) \<le> q"
      if "map_of (ob_sessions db) own' = Some (q, f)" for own' q f
      using False ok that by (auto simp: outbox_ok_def)
  qed (use False in \<open>auto simp: ack_def lookup u split: option.splits if_splits\<close>)
  then show ?thesis by auto
qed

lemma erase_owner_simulates:
  assumes ok: "outbox_ok db"
  shows "outbox_ok (erase_owner own db) \<and> outbox_spec (outbox_view db) (outbox_view (erase_owner own db))"
proof (rule raised_floor [where h = "\<lambda>own' q f. if own' = own then q else f", OF ok])
  have u: "unique_keys (ob_events db)" using ok by (simp add: outbox_ok_def)
  note lookup = delete_where_lookup [OF u]
  show "map_of (ob_sessions (erase_owner own db)) own' = map_option (\<lambda>(q, f). (q, if own' = own then q else f))
      (map_of (ob_sessions db) own')" for own'
    by (cases "map_of (ob_sessions db) own'") (auto simp: erase_owner_def tbl)
  show "f \<le> (if own' = own then q else f) \<and> (if own' = own then q else f) \<le> q"
    if "map_of (ob_sessions db) own' = Some (q, f)" for own' q f
    using ok that by (auto simp: outbox_ok_def)
  show "unique_keys (ob_events (erase_owner own db))" by (simp add: erase_owner_def u)
  show "map_of (ob_events db) (own', n) = Some r" if "map_of (ob_events (erase_owner own db)) (own', n) = Some r" for own' n r
    using that by (auto simp: erase_owner_def lookup split: option.splits if_splits)
  show "map_of (ob_events (erase_owner own db)) (own', n) = Some r"
    if "map_of (ob_sessions db) own' = Some (q, f)" "(if own' = own then q else f) < n"
      "map_of (ob_events db) (own', n) = Some r" for own' q f n r
    using that outbox_ok_event [OF ok that(3)] by (auto simp: erase_owner_def lookup)
qed

subsection \<open>Adding an event\<close>

lemma outbox_frame:
  assumes "ob_sessions db' = ob_sessions db" and "ob_events db' = ob_events db"
  shows "outbox_ok db' = outbox_ok db" and "outbox_view db' = outbox_view db"
  by (simp_all add: outbox_ok_def outbox_view_def window_def fun_eq_iff assms)

lemma set_input_frames [simp]:
  "ob_sessions (set_input own k st db) = ob_sessions db" "ob_events (set_input own k st db) = ob_events db"
  "ob_keys (set_input own k st db) = ob_keys db"
  by (simp_all add: set_input_def)

lemma record_key_frames:
  "record_key own key m q db = Inr db' \<Longrightarrow> ob_sessions db' = ob_sessions db \<and> ob_events db' = ob_events db"
  by (auto simp: record_key_def Let_def split: option.splits if_splits)

lemma open_session_simulates:
  assumes "outbox_ok db" and "open_session e own db = Inr db'"
  shows "outbox_ok db' \<and> map_of (ob_sessions db') own \<noteq> None \<and> outbox_spec\<^sup>*\<^sup>* (outbox_view db) (outbox_view db')"
proof (cases "map_of (ob_sessions db) own")
  case None
  then have db': "db' = db\<lparr>ob_sessions := ob_sessions db @ [(own, (0, 0))]\<rparr>"
    using assms(2) by (auto simp: open_session_def split: if_splits)
  have sess: "map_of (ob_sessions db') own' = (if own' = own then Some (0, 0) else map_of (ob_sessions db) own')" for own'
    using None by (auto simp: db' map_add_def split: option.splits)
  have evs: "ob_events db' = ob_events db" by (simp add: db')
  have "outbox_view db' = (outbox_view db)(own \<mapsto> (0, []))"
    by (auto simp: outbox_view_def window_def sess evs fun_eq_iff)
  then have "outbox_spec (outbox_view db) (outbox_view db')"
    using None by (auto intro!: opens simp: outbox_view_def)
  moreover have "outbox_ok db'"
    using assms(1) None unfolding outbox_ok_def sess evs by (auto split: if_splits) (metis option.distinct(1))+
  ultimately show ?thesis by (auto simp: sess)
next
  case (Some v)
  then show ?thesis using assms by (simp add: open_session_def)
qed

lemma jget_jset [simp]: "jget (jset (JObj m) k x) k = x"
  by (simp add: jget_def update_conv)

text \<open>The next number is free: the event is stored under it and the window grows by it.\<close>

lemma push_simulates:
  assumes ok: "outbox_ok db" and s: "map_of (ob_sessions db) own = Some (q, f)"
    and r: "jget (se_message r) ''seq'' = JInt (int (Suc q))"
    and evs: "insert_row (own, Suc q) r (ob_events db) = Some evs"
    and db': "db' = db\<lparr>ob_events := evs, ob_sessions := update_key own (\<lambda>_. True) (\<lambda>(_, f). (Suc q, f)) (ob_sessions db)\<rparr>"
  shows "outbox_ok db' \<and> outbox_spec (outbox_view db) (outbox_view db')"
proof
  have f: "f \<le> q" using ok s by (auto simp: outbox_ok_def)
  have look: "map_of evs k = (if k = (own, Suc q) then Some r else map_of (ob_events db) k)" for k
    using evs insert_row_fresh [OF evs] by (auto simp: insert_row_append map_add_def split: option.splits)
  have sess: "map_of (ob_sessions db') own' = (if own' = own then Some (Suc q, f) else map_of (ob_sessions db) own')" for own'
    by (simp add: db' tbl s)
  show "outbox_ok db'"
    unfolding outbox_ok_def
  proof (intro conjI allI impI)
    show "unique_keys (ob_events db')" using ok unique_keys_insert_row [OF evs] by (simp add: db' outbox_ok_def)
  next
    fix own' q' f' n assume a: "map_of (ob_sessions db') own' = Some (q', f')"
    show "f' \<le> q'" using a f ok by (auto simp: sess outbox_ok_def split: if_splits)
    assume "f' < n \<and> n \<le> q'"
    then show "map_of (ob_events db') (own', n) \<noteq> None"
      using a [unfolded sess] ok s by (cases "own' = own \<and> n = Suc q") (auto simp: db' look outbox_ok_def split: if_splits)
  next
    fix own' n r' assume a: "map_of (ob_events db') (own', n) = Some r'"
    show "jget (se_message r') ''seq'' = JInt (int n)"
      using a r outbox_ok_event [OF ok] by (auto simp: db' look split: if_splits)
    show "\<exists>q' f'. map_of (ob_sessions db') own' = Some (q', f') \<and> 0 < n \<and> n \<le> q'"
      using a s outbox_ok_event [OF ok, of own' n r'] unfolding sess by (auto simp: db' look split: if_splits)
  qed
  have w: "window db' own' f' q' = window db own' f' q'" if "map_of (ob_sessions db) own' = Some (q', f')" for own' q' f'
    using that s by (auto simp: window_def db' look)
  have grown: "window db' own f (Suc q) = window db own f q @ [se_message r]"
    using f w [OF s] by (simp add: window_def db' look)
  have "outbox_view db' = (outbox_view db)(own \<mapsto> (f, window db own f q @ [se_message r]))"
  proof (rule ext)
    fix own'
    show "outbox_view db' own' = ((outbox_view db)(own \<mapsto> (f, window db own f q @ [se_message r]))) own'"
      using grown w by (cases "map_of (ob_sessions db) own'") (auto simp: outbox_view_def sess)
  qed
  moreover have "length (window db own f q) = q - f" using f by (auto simp: window_def)
  ultimately show "outbox_spec (outbox_view db) (outbox_view db')"
    using s r f by (auto intro!: grows simp: outbox_view_def)
qed

lemma append_new_Inr:
  assumes ok: "outbox_ok db" and a: "append_new e own m key db = Inr (x, db')"
  obtains db1 q f r evs db2 where "open_session e own db = Inr db1" and "map_of (ob_sessions db1) own = Some (q, f)"
    and "x = Some (se_message r)" and "jget (se_message r) ''seq'' = JInt (int (Suc q))"
    and "insert_row (own, Suc q) r (ob_events db1) = Some evs"
    and "db2 = db1\<lparr>ob_events := evs, ob_sessions := update_key own (\<lambda>_. True) (\<lambda>(_, f). (Suc q, f)) (ob_sessions db1)\<rparr>"
    and "record_key own key m (Suc q) db2 = Inr db'"
proof -
  obtain db1 where o1: "open_session e own db = Inr db1"
    using a by (auto simp: append_new_def)
  obtain q f where s: "map_of (ob_sessions db1) own = Some (q, f)"
    using open_session_simulates [OF ok o1] by (cases "map_of (ob_sessions db1) own") auto
  let ?m = "jset (JObj m) ''seq'' (JInt (int (Suc q)))"
  obtain ttl evs where "insert_row (own, Suc q) \<lparr>se_message = ?m, se_size = json_bytes False False ?m,
      se_expires = oe_now e + real_of_int ttl\<rparr> (ob_events db1) = Some evs" and "x = Some ?m"
    and "record_key own key m (Suc q) (db1\<lparr>ob_events := evs,
      ob_sessions := update_key own (\<lambda>_. True) (\<lambda>(_, f). (Suc q, f)) (ob_sessions db1)\<rparr>) = Inr db'"
    using a o1 s by (auto simp: append_new_def Let_def simp del: jset.simps split: option.splits)
  then show thesis by (intro that [OF o1 s _ _ _ refl]) (simp_all del: jset.simps)
qed

lemma append_new_simulates:
  assumes "outbox_ok db" and "append_new e own m key db = Inr (x, db')"
  shows "outbox_ok db' \<and> outbox_spec\<^sup>*\<^sup>* (outbox_view db) (outbox_view db')"
proof -
  obtain db1 q f r evs db2 where o1: "open_session e own db = Inr db1" and s: "map_of (ob_sessions db1) own = Some (q, f)"
    and r: "jget (se_message r) ''seq'' = JInt (int (Suc q))"
    and evs: "insert_row (own, Suc q) r (ob_events db1) = Some evs"
    and db2: "db2 = db1\<lparr>ob_events := evs, ob_sessions := update_key own (\<lambda>_. True) (\<lambda>(_, f). (Suc q, f)) (ob_sessions db1)\<rparr>"
    and db': "record_key own key m (Suc q) db2 = Inr db'"
    by (rule append_new_Inr [OF assms])
  note opened = open_session_simulates [OF assms(1) o1]
  note frames = record_key_frames [OF db']
  have "outbox_ok db2 \<and> outbox_spec (outbox_view db1) (outbox_view db2)"
    using opened by (intro push_simulates [OF _ s r evs db2]) simp
  with opened frames outbox_frame [of db' db2] show ?thesis
    by (auto intro: rtranclp.rtrancl_into_rtrancl)
qed

lemma append_event_simulates:
  assumes "outbox_ok db"
  shows "outbox_ok (snd (append_event e own m key db)) \<and>
    outbox_spec\<^sup>*\<^sup>* (outbox_view db) (outbox_view (snd (append_event e own m key db)))"
proof -
  note cl = cleanup_simulates [OF assms, of e]
  have new: "outbox_ok db' \<and> outbox_spec\<^sup>*\<^sup>* (outbox_view db) (outbox_view db')"
    if "append_new e own m key' (cleanup e db) = Inr (x, db')" for key' x db'
    using append_new_simulates [OF _ that] cl by (auto intro: converse_rtranclp_into_rtranclp)
  show ?thesis unfolding append_event_def
    by (rule txn_preserves)
      (use assms cl new in \<open>auto simp: Let_def split: option.splits if_splits prod.splits\<close>)
qed

lemma accept_input_simulates:
  assumes "outbox_ok db"
  shows "outbox_ok (snd (accept_input e own k body db)) \<and>
    outbox_spec\<^sup>*\<^sup>* (outbox_view db) (outbox_view (snd (accept_input e own k body db)))"
proof -
  have same: "outbox_ok db' \<and> outbox_spec\<^sup>*\<^sup>* (outbox_view db) (outbox_view db')"
    if "ob_sessions db' = ob_sessions (cleanup e db)" "ob_events db' = ob_events (cleanup e db)" for db'
    using outbox_frame [OF that] cleanup_simulates [OF assms, of e] by auto
  show ?thesis unfolding accept_input_def
    by (rule txn_preserves) (use assms same in \<open>auto simp: Let_def split: option.splits if_splits\<close>)
qed

subsection \<open>Histories\<close>

datatype outbox_op =
    OSnapshot outbox_env pystr
  | OAppend outbox_env pystr items "pystr option"
  | OAck pystr int
  | OAccept outbox_env pystr pystr pystr
  | OFinish pystr pystr pystr
  | OErase pystr

fun outbox_step :: "time \<Rightarrow> outbox_op \<Rightarrow> outbox_db \<Rightarrow> outbox_db" where
  "outbox_step t (OSnapshot e own) db = snd (snapshot (e\<lparr>oe_now := t\<rparr>) own db)"
| "outbox_step t (OAppend e own m key) db = snd (append_event (e\<lparr>oe_now := t\<rparr>) own m key db)"
| "outbox_step t (OAck own n) db = snd (ack own n db)"
| "outbox_step t (OAccept e own k body) db = snd (accept_input (e\<lparr>oe_now := t\<rparr>) own k body db)"
| "outbox_step t (OFinish own k st) db = finish_input own k st db"
| "outbox_step t (OErase own) db = erase_owner own db"

lemma outbox_step_simulates:
  assumes "outbox_ok db"
  shows "outbox_ok (outbox_step t x db) \<and> outbox_spec\<^sup>*\<^sup>* (outbox_view db) (outbox_view (outbox_step t x db))"
proof (cases x)
  case (OSnapshot e own)
  then show ?thesis using cleanup_simulates [OF assms] by (auto simp: snapshot_def Let_def)
next
  case (OFinish own k st)
  then show ?thesis using assms outbox_frame [of "set_input own k st db" db] by (simp add: finish_input_def)
qed (use assms append_event_simulates ack_simulates accept_input_simulates erase_owner_simulates in \<open>auto intro!: r_into_rtranclp\<close>)

interpretation outbox_sim: simulation outbox_view outbox_ok outbox_step outbox_spec
  by unfold_locales (simp_all add: outbox_step_simulates)

subsection \<open>Replays\<close>

lemma set_events_of: "outbox_ok db \<Longrightarrow> (n, r) \<in> set (events_of own db) \<longleftrightarrow> map_of (ob_events db) (own, n) = Some r"
  by (force simp: events_of_def select_where_def outbox_ok_def unique_keys_def image_iff)

lemma sorted_events_of:
  assumes "outbox_ok db"
  shows "sorted_wrt (<) (map fst (events_of own db))"
proof -
  let ?t = "map (\<lambda>((_, n), r). (n, r)) (select_where (\<lambda>(o', _) _. o' = own) (ob_events db))"
  have "distinct (map fst (select_where (\<lambda>(o', _) _. o' = own) (ob_events db)))"
    using assms by (simp add: outbox_ok_def unique_keys_def select_where_def distinct_map_filter)
  moreover have "map fst ?t = map snd (map fst (select_where (\<lambda>(o', _) _. o' = own) (ob_events db)))"
    by (simp add: case_prod_beta')
  moreover have "inj_on snd (set (map fst (select_where (\<lambda>(o', _) _. o' = own) (ob_events db))))"
    by (auto simp: inj_on_def select_where_def)
  ultimately have "distinct (map fst ?t)" by (simp only: distinct_map)
  then have "distinct (map fst (events_of own db))"
    by (simp only: events_of_def distinct_map distinct_sort set_sort)
  then show ?thesis by (simp add: strict_sorted_iff events_of_def)
qed

lemma events_of_numbered:
  "outbox_ok db \<Longrightarrow> x \<in> set (events_of own db) \<Longrightarrow> jget (se_message (snd x)) ''seq'' = JInt (int (fst x))"
  using outbox_ok_event by (cases x) (auto simp: set_events_of)

lemma events_above_floor:
  assumes ok: "outbox_ok db" and s: "map_of (ob_sessions db) own = Some (q, f)"
  shows "map fst (events_of own db) = filter (\<lambda>n. n \<le> f) (map fst (events_of own db)) @ [Suc f..<Suc q]" (is "?l = ?r")
proof -
  have l: "n \<in> set ?l \<longleftrightarrow> map_of (ob_events db) (own, n) \<noteq> None" for n
    using set_events_of [OF ok, of n _ own] by (cases "map_of (ob_events db) (own, n)") force+
  have "n \<in> set ?l \<longleftrightarrow> n \<in> set ?r" for n
    using l [of n] ok s outbox_ok_event [OF ok, of own n] by (auto simp: outbox_ok_def simp del: upt_Suc)
  moreover have "sorted_wrt (<) ?r"
    using sorted_events_of [OF ok, of own] by (auto simp: sorted_wrt_append sorted_wrt_filter simp del: upt_Suc)
  ultimately show ?thesis
    using sorted_events_of [OF ok, of own] by (intro strict_sorted_equal) auto
qed

lemma events_below_floor:
  assumes ok: "outbox_ok db"
  shows "sorted_wrt (<) (0 # filter (\<lambda>n. n \<le> f) (map fst (events_of own db)) @ [Suc f])"
proof -
  have "0 < n" if "n \<in> set (map fst (events_of own db))" for n
    using that by (auto simp: set_events_of [OF ok] dest: outbox_ok_event [OF ok])
  then show ?thesis
    using sorted_events_of [OF ok, of own] by (auto simp: sorted_wrt_append sorted_wrt_filter)
qed

text \<open>
  C39: Along every history of an outbox, what a client can replay is a window of consecutive messages: it opens
  empty, grows only by the message of the next number, and loses messages only from its front, its floor
  rising by as many, so that a client always detects what it has lost.
\<close>

theorem outbox_refines_window:
  "outbox_spec\<^sup>*\<^sup>* (outbox_view (run_ops outbox_step tr empty_outbox)) (outbox_view (run_ops outbox_step (tr @ tr') empty_outbox))"
  unfolding run_ops_append by (rule outbox_sim.run_refines, rule outbox_sim.run_keeps, rule outbox_ok_empty)

text \<open>
  A replay has no gap: it ends with the messages numbered from just above the floor to the last one, in
  order, and whatever precedes them is older, in order and without repetition.
\<close>

theorem snapshot_has_no_gap:
  "case fst (snapshot e own (run_ops outbox_step tr empty_outbox)) of (q, f, ms) \<Rightarrow>
     f \<le> q \<and> (\<exists>old. map (\<lambda>m. jget m ''seq'') ms = map (JInt \<circ> int) (old @ [Suc f..<Suc q]) \<and> sorted_wrt (<) (0 # old @ [Suc f]))"
proof -
  let ?db = "cleanup e (run_ops outbox_step tr empty_outbox)"
  have ok: "outbox_ok ?db"
    using cleanup_simulates outbox_sim.run_keeps outbox_ok_empty by blast
  show ?thesis
  proof (cases "map_of (ob_sessions ?db) own")
    case None
    then show ?thesis by (simp add: snapshot_def Let_def exI [of _ "[]"])
  next
    case (Some qf)
    then obtain q f where s: "map_of (ob_sessions ?db) own = Some (q, f)" by (cases qf) auto
    have numbers: "map (\<lambda>m. jget m ''seq'') (map (se_message \<circ> snd) (events_of own ?db)) = map (JInt \<circ> int) (map fst (events_of own ?db))"
      using events_of_numbered [OF ok] by simp
    have "map fst (events_of own ?db) = filter (\<lambda>n. n \<le> f) (map fst (events_of own ?db)) @ [Suc f..<Suc q]"
      by (rule events_above_floor [OF ok s])
    with numbers have "map (\<lambda>m. jget m ''seq'') (map (se_message \<circ> snd) (events_of own ?db)) =
        map (JInt \<circ> int) (filter (\<lambda>n. n \<le> f) (map fst (events_of own ?db)) @ [Suc f..<Suc q])" by (rule trans [OF _ arg_cong])
    moreover have "fst (snapshot e own (run_ops outbox_step tr empty_outbox)) = (q, f, map (se_message \<circ> snd) (events_of own ?db))"
      using s by (simp add: snapshot_def Let_def)
    moreover have "f \<le> q" using ok s by (auto simp: outbox_ok_def)
    ultimately show ?thesis
      using events_below_floor [OF ok, of f own] by (simp only: prod.case) blast
  qed
qed

section \<open>An event identity is used once\<close>

text \<open>
  What a step leaves of the past: sessions and event identities stay, numbers do not go back, and no
  number that was given is given again.
\<close>

definition later :: "outbox_db \<Rightarrow> outbox_db \<Rightarrow> bool" where
  "later db db' \<longleftrightarrow> map_of (ob_keys db) \<subseteq>\<^sub>m map_of (ob_keys db')
     \<and> (\<forall>own q f. map_of (ob_sessions db) own = Some (q, f) \<longrightarrow>
          (\<exists>q' f'. map_of (ob_sessions db') own = Some (q', f') \<and> q \<le> q')
          \<and> (\<forall>n r. n \<le> q \<longrightarrow> map_of (ob_events db') (own, n) = Some r \<longrightarrow> map_of (ob_events db) (own, n) = Some r))"

lemma later_refl [simp]: "later db db"
  by (auto simp: later_def)

lemma later_trans:
  assumes "later a b" and "later b c" shows "later a c"
proof -
  have "(\<exists>q' f'. map_of (ob_sessions c) own = Some (q', f') \<and> q \<le> q')
      \<and> (\<forall>n r. n \<le> q \<longrightarrow> map_of (ob_events c) (own, n) = Some r \<longrightarrow> map_of (ob_events a) (own, n) = Some r)"
    if a: "map_of (ob_sessions a) own = Some (q, f)" for own q f
  proof -
    from assms(1) a obtain q' f' where b: "map_of (ob_sessions b) own = Some (q', f')" "q \<le> q'"
      "\<And>n r. n \<le> q \<Longrightarrow> map_of (ob_events b) (own, n) = Some r \<Longrightarrow> map_of (ob_events a) (own, n) = Some r"
      unfolding later_def by blast
    from assms(2) b(1) obtain q'' f'' where c: "map_of (ob_sessions c) own = Some (q'', f'')" "q' \<le> q''"
      "\<And>n r. n \<le> q' \<Longrightarrow> map_of (ob_events c) (own, n) = Some r \<Longrightarrow> map_of (ob_events b) (own, n) = Some r"
      unfolding later_def by blast
    show ?thesis using b c by (meson order_trans)
  qed
  with assms show ?thesis unfolding later_def by (meson map_le_trans)
qed

lemma later_shrinks:
  assumes "ob_keys db' = ob_keys db"
    and "\<And>own q f. map_of (ob_sessions db) own = Some (q, f) \<Longrightarrow> \<exists>f'. map_of (ob_sessions db') own = Some (q, f')"
    and "\<And>own n r. map_of (ob_events db') (own, n) = Some r \<Longrightarrow> map_of (ob_events db) (own, n) = Some r"
  shows "later db db'"
  using assms unfolding later_def by (metis map_le_refl order_refl)

lemma later_cleanup: "outbox_ok db \<Longrightarrow> later db (cleanup e db)"
proof (rule later_shrinks)
  assume "outbox_ok db"
  then have u: "unique_keys (ob_events db)" by (simp add: outbox_ok_def)
  show "map_of (ob_events db) (own, n) = Some r" if "map_of (ob_events (cleanup e db)) (own, n) = Some r" for own n r
    using that by (simp add: cleanup_def delete_where_lookup [OF u] split: option.splits if_splits)
  show "\<exists>f'. map_of (ob_sessions (cleanup e db)) own = Some (q, f')" if "map_of (ob_sessions db) own = Some (q, f)" for own q f
    using that map_of_key_map [of "\<lambda>own v. (fst v, max (snd v) (expired_upto (oe_now e) own (ob_events db)))" "ob_sessions db" own]
    by (simp add: cleanup_def case_prod_beta')
qed (simp add: cleanup_def)

lemma later_open: "open_session e own db = Inr db' \<Longrightarrow> later db db'"
  by (auto simp: open_session_def later_def map_add_def split: if_splits option.splits)

lemma record_key_keys:
  assumes "record_key own key m q db = Inr db'"
  shows "ob_keys db' = ob_keys db @ (case key of None \<Rightarrow> [] | Some k \<Rightarrow> [((own, k), (event_print m, q))])"
  using assms by (auto simp: record_key_def Let_def split: option.splits if_splits)

text \<open>What a new event leaves behind.\<close>

lemma append_new_result:
  assumes ok: "outbox_ok db" and a: "append_new e own m key db = Inr (x, db')"
  obtains q f r where "x = Some (se_message r)" and "map_of (ob_sessions db') own = Some (q, f)"
    and "map_of (ob_events db') (own, q) = Some r"
    and "ob_keys db' = ob_keys db @ (case key of None \<Rightarrow> [] | Some k \<Rightarrow> [((own, k), (event_print m, q))])"
    and "later db db'"
proof -
  obtain db1 q f r evs db2 where o1: "open_session e own db = Inr db1" and s: "map_of (ob_sessions db1) own = Some (q, f)"
    and x: "x = Some (se_message r)" and evs: "insert_row (own, Suc q) r (ob_events db1) = Some evs"
    and db2: "db2 = db1\<lparr>ob_events := evs, ob_sessions := update_key own (\<lambda>_. True) (\<lambda>(_, f). (Suc q, f)) (ob_sessions db1)\<rparr>"
    and db': "record_key own key m (Suc q) db2 = Inr db'"
    by (rule append_new_Inr [OF ok a])
  note frames = record_key_frames [OF db']
  have look: "map_of evs k = (if k = (own, Suc q) then Some r else map_of (ob_events db1) k)" for k
    using evs insert_row_fresh [OF evs] by (auto simp: insert_row_append map_add_def split: option.splits)
  have keys: "ob_keys db1 = ob_keys db" using o1 by (auto simp: open_session_def split: if_splits)
  have fresh: "map_of (ob_keys db1 @ l) k = Some v" if "map_of (ob_keys db1) k = Some v" for k v l
    using that by (simp add: map_add_def)
  have "later db1 db'"
    using frames s fresh
    by (auto simp: later_def db2 tbl look record_key_keys [OF db'] map_le_def domIff split: if_splits)
  then have "later db db'" using later_trans [OF later_open [OF o1]] by blast
  moreover have "map_of (ob_sessions db') own = Some (Suc q, f)" using frames s by (simp add: db2 tbl)
  moreover have "map_of (ob_events db') (own, Suc q) = Some r" using frames by (simp add: db2 look)
  ultimately show thesis
    using x record_key_keys [OF db'] keys by (intro that [of r "Suc q" f]) (simp_all add: db2)
qed

lemma later_append:
  assumes ok: "outbox_ok db"
  shows "later db (snd (append_event e own m key db))"
proof -
  note cl = later_cleanup [OF ok, of e] cleanup_simulates [OF ok, of e]
  have new: "later db db'" if "append_new e own m key' (cleanup e db) = Inr (x, db')" for key' x db'
    by (rule append_new_result [OF _ that]) (use cl later_trans in blast)+
  show ?thesis unfolding append_event_def
    by (rule txn_preserves [where P = "later db"])
      (use cl new in \<open>auto simp: Let_def split: option.splits if_splits prod.splits\<close>)
qed

lemma later_step: "outbox_ok db \<Longrightarrow> later db (outbox_step t x db)"
proof (cases x)
  case (OAck own n)
  assume "outbox_ok db"
  then have "unique_keys (ob_events db)" by (simp add: outbox_ok_def)
  note lookup = delete_where_lookup [OF this]
  have "later db (snd (ack own n db))" unfolding ack_def
    by (rule txn_preserves [where P = "later db"])
      (auto intro!: later_shrinks simp: lookup tbl split: if_splits option.splits)
  then show ?thesis by (simp add: OAck)
next
  case (OErase own)
  assume "outbox_ok db"
  then have "unique_keys (ob_events db)" by (simp add: outbox_ok_def)
  note lookup = delete_where_lookup [OF this]
  show ?thesis by (auto simp: OErase erase_owner_def lookup tbl intro!: later_shrinks split: if_splits option.splits)
next
  case (OAccept e own k body)
  assume "outbox_ok db"
  note cl = later_cleanup [OF this]
  have same: "later db db'" if "db' = cleanup e' db\<lparr>ob_inputs := ins\<rparr>" for e' ins db'
    using cl [of e'] by (simp add: that later_def)
  show ?thesis unfolding OAccept outbox_step.simps accept_input_def
    by (rule txn_preserves [where P = "later db"]) (use same cl in \<open>auto simp: Let_def split: option.splits if_splits\<close>)
next
  case (OFinish own k st)
  then show ?thesis by (auto intro!: later_shrinks simp: finish_input_def)
qed (auto simp: snapshot_def Let_def later_cleanup later_append)

lemma later_run: "outbox_ok db \<Longrightarrow> later db (run_ops outbox_step tr db)"
proof (induction tr arbitrary: db)
  case (Cons x tr)
  obtain t a where x: "x = (t, a)" by (cases x)
  show ?case
    using later_trans [OF later_step Cons.IH] outbox_step_simulates [OF Cons.prems] Cons.prems by (simp add: x)
qed simp

lemma append_keyed_Inr:
  assumes ok: "outbox_ok db" and a: "append_event e own m (Some k) db = (Inr (Some j), db')"
  obtains n q f r where "map_of (ob_keys db') (own, k) = Some (event_print m, n)" and "hex_text 64 k"
    and "map_of (ob_events db') (own, n) = Some r" and "se_message r = j"
    and "map_of (ob_sessions db') own = Some (q, f)" and "n \<le> q"
proof -
  let ?db = "cleanup e db"
  have ok1: "outbox_ok ?db" using cleanup_simulates [OF ok] by blast
  have hex: "hex_text 64 k" using a by (auto simp: append_event_def txn_Inr Let_def)
  show thesis
  proof (cases "map_of (ob_keys ?db) (own, k)")
    case None
    with a have new: "append_new e own m (Some k) ?db = Inr (Some j, db')"
      by (auto simp: append_event_def txn_Inr Let_def split: if_splits)
    show ?thesis
      by (rule append_new_result [OF ok1 new], rule that) (use hex None in \<open>auto simp: map_add_def\<close>)
  next
    case (Some v)
    then obtain n where n: "map_of (ob_keys ?db) (own, k) = Some (event_print m, n)" "db' = ?db"
      "map_option se_message (map_of (ob_events ?db) (own, n)) = Some j"
      using a by (cases v) (auto simp: append_event_def txn_Inr Let_def split: if_splits)
    then obtain r where r: "map_of (ob_events ?db) (own, n) = Some r" "se_message r = j" by auto
    from outbox_ok_event [OF ok1 r(1)] obtain q f where "map_of (ob_sessions ?db) own = Some (q, f)" "n \<le> q" by auto
    then show ?thesis using n r hex by (intro that [of n r q f]) simp_all
  qed
qed

text \<open>
  Once a durable event is in the outbox, sending its identity again never stores a second event, whatever
  happened in between: with the same type, reference and payload it yields the first message, or nothing when
  that one is acknowledged or expired; with other content it is refused.
\<close>

theorem event_identity_stored_once:
  assumes "db = run_ops outbox_step tr empty_outbox"
    and "append_event e own m (Some k) db = (Inr (Some j), db')"
    and "db'' = run_ops outbox_step tr' db'"
  shows "if event_print m' = event_print m
    then snd (append_event e' own m' (Some k) db'') = cleanup e' db''
      \<and> fst (append_event e' own m' (Some k) db'') \<in> {Inr (Some j), Inr None}
    else append_event e' own m' (Some k) db'' = (Inl (ValueError ''Durable event ID reused with different payload''), db'')"
proof -
  have ok: "outbox_ok db" unfolding assms(1) by (rule outbox_sim.run_keeps, rule outbox_ok_empty)
  then have ok': "outbox_ok db'" using append_event_simulates [OF ok, of e own m "Some k"] assms(2) by simp
  then have ok'': "outbox_ok db''" unfolding assms(3) by (rule outbox_sim.run_keeps)
  have "later db' (cleanup e' db'')"
    using later_trans [OF later_run [OF ok', of tr', folded assms(3)] later_cleanup [OF ok'']] .
  moreover obtain n q f r where k: "map_of (ob_keys db') (own, k) = Some (event_print m, n)" "hex_text 64 k"
    "map_of (ob_events db') (own, n) = Some r" "se_message r = j" "map_of (ob_sessions db') own = Some (q, f)" "n \<le> q"
    by (rule append_keyed_Inr [OF ok assms(2)])
  ultimately have key: "map_of (ob_keys (cleanup e' db'')) (own, k) = Some (event_print m, n)"
    and kept: "map_of (ob_events (cleanup e' db'')) (own, n) = Some r' \<Longrightarrow> r' = r" for r'
    unfolding later_def map_le_def by (metis domI, metis option.inject)
  have "append_event e' own m' (Some k) db'' = (if event_print m' = event_print m
      then (Inr (map_option se_message (map_of (ob_events (cleanup e' db'')) (own, n))), cleanup e' db'')
      else (Inl (ValueError ''Durable event ID reused with different payload''), db''))"
    using k(2) key by (simp add: append_event_def Let_def)
  moreover have "map_option se_message (map_of (ob_events (cleanup e' db'')) (own, n)) \<in> {Some j, None}"
    using kept k(4) by (cases "map_of (ob_events (cleanup e' db'')) (own, n)") simp_all
  ultimately show ?thesis by simp
qed

definition sample_outbox_env :: outbox_env where
  "sample_outbox_env = \<lparr>oe_now = 1, oe_key_limit = 10, oe_sessions = 10, oe_limit = 10, oe_bytes = 1000, oe_ttl = 60,
     oe_inputs = 10, oe_input_ttl = 60\<rparr>"

definition sample_key :: pystr where
  "sample_key = replicate 64 (CHR ''a'')"

definition sample_items :: items where
  "sample_items = [(''type'', JStr ''chat.delta'')]"

lemma sample_append:
  "fst (append_event sample_outbox_env ''o'' sample_items (Some sample_key) empty_outbox)
     = Inr (Some (JObj [(''type'', JStr ''chat.delta''), (''seq'', JInt 1)]))"
proof -
  have "hex_text 64 sample_key" by code_simp
  moreover have "json_bytes False False (JObj [(''type'', JStr ''chat.delta''), (''seq'', JInt 1)]) = 32" by code_simp
  ultimately show ?thesis
    by (simp add: append_event_def empty_outbox_def cleanup_def sample_outbox_env_def append_new_def open_session_def
        positive_limit_def Let_def admit_event_def select_where_def delete_where_def insert_row_def record_key_def
        sample_items_def jget_def)
qed

theorem event_identity_stored_once_witness:
  "fst (append_event sample_outbox_env ''o'' sample_items (Some sample_key)
       (snd (append_event sample_outbox_env ''o'' sample_items (Some sample_key) empty_outbox)))
     \<in> {Inr (Some (JObj [(''type'', JStr ''chat.delta''), (''seq'', JInt 1)])), Inr None}"
proof -
  let ?a = "append_event sample_outbox_env ''o'' sample_items (Some sample_key) empty_outbox"
  from sample_append have "?a = (Inr (Some (JObj [(''type'', JStr ''chat.delta''), (''seq'', JInt 1)])), snd ?a)"
    by (simp add: prod_eq_iff)
  from event_identity_stored_once [where tr = "[]" and tr' = "[]" and m' = sample_items and e' = sample_outbox_env, OF _ this refl]
  show ?thesis by (simp only: run_ops.simps refl if_True simp_thms)
qed

section \<open>An input runs once\<close>

definition input_known :: "pystr \<Rightarrow> pystr \<Rightarrow> time \<Rightarrow> outbox_db \<Rightarrow> bool" where
  "input_known own k x db \<longleftrightarrow> row_where (own, k) (\<lambda>r. in_expires r = x) (ob_inputs db)"

lemma delete_where_kept: "map_of t k = Some v \<Longrightarrow> \<not> p k v \<Longrightarrow> map_of (delete_where p t) k = Some v"
  by (induction t) (auto simp: delete_where_def)

lemma input_known_cleanup: "input_known own k x db \<Longrightarrow> oe_now e < x \<Longrightarrow> input_known own k x (cleanup e db)"
  by (auto simp: input_known_def row_where_iff cleanup_def delete_where_kept)

lemma input_known_set: "input_known own k x db \<Longrightarrow> input_known own k x (set_input own' k' st db)"
  by (auto simp: input_known_def row_where_iff set_input_def tbl)

lemma input_known_record:
  assumes "input_known own k x db" and "record_key own' key m q db = Inr db'"
  shows "input_known own k x db'"
proof -
  have "ob_inputs db' = ob_inputs db \<or> (\<exists>i st. ob_inputs db' = ob_inputs (set_input own' i st db))"
    using assms(2) by (auto simp: record_key_def Let_def set_input_def split: option.splits if_splits) blast
  then show ?thesis
    using assms(1) input_known_set [OF assms(1)] by (auto simp: input_known_def)
qed

lemma input_known_new:
  assumes "input_known own k x db" and "append_new e own' m key db = Inr (j, db')"
  shows "input_known own k x db'"
proof -
  obtain db1 where o1: "open_session e own' db = Inr db1" using assms(2) by (auto simp: append_new_def)
  then have "ob_inputs db1 = ob_inputs db" by (auto simp: open_session_def split: if_splits)
  moreover obtain db2 q where "record_key own' key m q db2 = Inr db'" "ob_inputs db2 = ob_inputs db1"
    using assms(2) o1 by (auto simp: append_new_def Let_def split: option.splits)
  ultimately show ?thesis using assms(1) input_known_record [of own k x db2] by (simp add: input_known_def)
qed

lemma input_known_step:
  assumes known: "input_known own k x db" and t: "t < x"
  shows "input_known own k x (outbox_step t a db)"
proof (cases a)
  case (OSnapshot e own')
  then show ?thesis using assms by (simp add: snapshot_def Let_def input_known_cleanup)
next
  case (OAppend e own' m key)
  have "input_known own k x (snd (append_event (e\<lparr>oe_now := t\<rparr>) own' m key db))" (is "_ (snd (append_event ?e _ _ _ _))")
    unfolding append_event_def
    by (rule txn_preserves [where P = "input_known own k x"])
      (use known input_known_cleanup [OF known, of ?e] t in
        \<open>auto simp: Let_def intro: input_known_new split: option.splits if_splits prod.splits\<close>)
  then show ?thesis by (simp add: OAppend)
next
  case (OAck own' n)
  have "input_known own k x (snd (ack own' n db))" unfolding ack_def
    by (rule txn_preserves [where P = "input_known own k x"]) (use known in \<open>auto simp: input_known_def split: if_splits\<close>)
  then show ?thesis by (simp add: OAck)
next
  case (OAccept e own' k' body)
  have "input_known own k x (snd (accept_input (e\<lparr>oe_now := t\<rparr>) own' k' body db))" (is "_ (snd (accept_input ?e _ _ _ _))")
    unfolding accept_input_def
    by (rule txn_preserves [where P = "input_known own k x"])
      (use known input_known_cleanup [OF known, of ?e] t in
        \<open>auto simp: Let_def input_known_def row_where_iff map_add_def split: option.splits if_splits\<close>)
  then show ?thesis by (simp add: OAccept)
next
  case (OFinish own' k' st)
  then show ?thesis using known by (simp add: finish_input_def input_known_set)
next
  case (OErase own')
  then show ?thesis using known by (cases "own = own'") (auto simp: erase_owner_def input_known_def row_where_iff tbl)
qed

text \<open>
  An input that was accepted to run is not accepted to run again under its identifier until it expires,
  whatever happens in between, an erasure of its owner included.
\<close>

theorem input_runs_once:
  assumes "accept_input e own k body db = (Inr None, db')"
    and "list_all (\<lambda>(t, _). t < oe_now e + real_of_int (oe_input_ttl e)) tr"
    and "oe_now e' < oe_now e + real_of_int (oe_input_ttl e)"
  shows "fst (accept_input e' own k body' (run_ops outbox_step tr db')) \<noteq> Inr None"
proof -
  let ?x = "oe_now e + real_of_int (oe_input_ttl e)"
  have "input_known own k ?x db'"
    using assms(1) by (auto simp: accept_input_def txn_Inr Let_def input_known_def row_where_iff map_add_def
        positive_limit_def split: option.splits if_splits)
  with assms(2) have "input_known own k ?x (run_ops outbox_step tr db')"
    by (induction tr arbitrary: db') (auto simp: input_known_step)
  from input_known_cleanup [OF this assms(3)]
  obtain r where "map_of (ob_inputs (cleanup e' (run_ops outbox_step tr db'))) (own, k) = Some r"
    by (auto simp: input_known_def row_where_iff)
  then show ?thesis by (auto simp: accept_input_def Let_def txn_def)
qed

theorem input_runs_once_witness:
  "fst (accept_input (sample_outbox_env\<lparr>oe_now := 50\<rparr>) ''o'' ''i'' ''hi''
     (run_ops outbox_step [(20, OErase ''o'')] (snd (accept_input sample_outbox_env ''o'' ''i'' ''hi'' empty_outbox)))) \<noteq> Inr None"
proof -
  let ?a = "accept_input sample_outbox_env ''o'' ''i'' ''hi'' empty_outbox"
  have "?a = (Inr None, snd ?a)"
    by (simp add: prod_eq_iff accept_input_def empty_outbox_def cleanup_def delete_where_def Let_def
        sample_outbox_env_def positive_limit_def)
  from input_runs_once [OF this, of "[(20, OErase ''o'')]" "sample_outbox_env\<lparr>oe_now := 50\<rparr>" "''hi''"]
  show ?thesis by (simp add: sample_outbox_env_def)
qed

end
