(* ===== verification/Coordinator.thy ===== *)
theory Coordinator
  imports Submissions Tasks
begin

text \<open>
  \<open>agent_execution/coordinator.py\<close>: the persistent collaboration graph.  A node is a piece of work of a
  planner, a coder or a reviewer; worker processes claim nodes under a lease, publish results, and a coder's
  verified result waits for an independent review before it may be merged.  The tables live in the database
  of the task store and the budgets, whose operations the coordinator calls.

  Git, paths and the start of processes are outside: a snapshot of a workspace, the changes between two
  commits and the state of files are arguments.  A lease always comes with an expiry.
\<close>

section \<open>Tables\<close>

datatype node_state =
    NQueued | NRunning | NReviewPending | NCompleted | NReviewed | NMerging | NMerged | NFailed | NRejected
  | NCancelled | NTimedOut | NNeedsInput | NNeedsResolution | NConflict | NCancelRequested

record agent_node =
  nd_owner :: owner
  nd_root :: task_id
  nd_parent :: "pystr option"
  nd_persona :: pystr
  nd_goal :: pystr
  nd_deps :: "pystr list"
  nd_payload :: json
  nd_state :: node_state
  nd_result :: "json option"
  nd_review_of :: "pystr option"
  nd_reviewed_by :: "pystr option"
  nd_lease :: "token option"
  nd_expires :: "time option"
  nd_deadline :: time
  nd_attempts :: nat
  nd_updated :: time

record agent_event =
  av_node :: pystr
  av_owner :: owner
  av_event :: pystr
  av_data :: json
  av_created :: time

record agent_graph =
  gr_owner :: owner
  gr_root :: task_id
  gr_anchor :: pystr
  gr_contract :: pystr
  gr_address :: pystr
  gr_namespace :: pystr
  gr_queue :: pystr
  gr_state :: pystr
  gr_sealed :: bool
  gr_dispatched :: bool
  gr_stop :: "pystr option"
  gr_updated :: time

record agent_run =
  rn_graph :: pystr
  rn_state :: pystr
  rn_lease :: token
  rn_process :: "int \<times> pystr"
  rn_updated :: time

record coord_db = temporal_db +
  agent_nodes :: "(pystr, agent_node) table"
  agent_events :: "(nat, agent_event) table"
  root_backends :: "(owner \<times> task_id, pystr) table"
  agent_graphs :: "(pystr, agent_graph) table"
  agent_runs :: "(pystr, agent_run) table"

definition SUCCESS :: "node_state set" where
  "SUCCESS = {NCompleted, NReviewed, NMerged}"

definition STOPPED :: "node_state set" where
  "STOPPED = {NFailed, NRejected, NCancelled, NTimedOut, NNeedsInput, NNeedsResolution, NConflict}"

fun state_name :: "node_state \<Rightarrow> pystr" where
  "state_name NQueued = ''queued''" | "state_name NRunning = ''running''"
| "state_name NReviewPending = ''review_pending''" | "state_name NCompleted = ''completed''"
| "state_name NReviewed = ''reviewed''" | "state_name NMerging = ''merging''"
| "state_name NMerged = ''merged''" | "state_name NFailed = ''failed''"
| "state_name NRejected = ''rejected''" | "state_name NCancelled = ''cancelled''"
| "state_name NTimedOut = ''timed_out''" | "state_name NNeedsInput = ''needs_input''"
| "state_name NNeedsResolution = ''needs_resolution''" | "state_name NConflict = ''conflict''"
| "state_name NCancelRequested = ''cancel_requested''"

text \<open>Fields of a payload: a dictionary that \<open>submit\<close> writes with all of them.\<close>

definition ptext :: "agent_node \<Rightarrow> pystr \<Rightarrow> pystr" where
  "ptext n k = jtext_of (jget (nd_payload n) k)"

definition pint :: "agent_node \<Rightarrow> pystr \<Rightarrow> int" where
  "pint n k = jint_of (jget (nd_payload n) k)"

definition node_task_owner :: "json \<Rightarrow> owner" where
  "node_task_owner p = dumps True True (JArr [JStr ''subagent'', jget p ''identity'', jget p ''project'', jget p ''session''])"

definition node_task :: "pystr \<Rightarrow> task_id" where
  "node_task i = ''subagent:'' @ i"

definition child_task :: "('a coord_db_scheme) \<Rightarrow> pystr \<times> agent_node \<Rightarrow> task_row option" where
  "child_task db n = map_of (tasks db) (node_task_owner (nd_payload (snd n)), node_task (fst n))"

definition root_task :: "('a coord_db_scheme) \<Rightarrow> agent_node \<Rightarrow> task_row option" where
  "root_task db n = map_of (tasks db) (ptext n ''budget_owner'', nd_root n)"

definition set_node :: "pystr \<Rightarrow> (agent_node \<Rightarrow> bool) \<Rightarrow> (agent_node \<Rightarrow> agent_node) \<Rightarrow> ('a coord_db_scheme) \<Rightarrow> ('a coord_db_scheme)" where
  "set_node i c f db = db\<lparr>agent_nodes := update_key i c f (agent_nodes db)\<rparr>"

definition to_state :: "time \<Rightarrow> node_state \<Rightarrow> agent_node \<Rightarrow> agent_node" where
  "to_state t s n = n\<lparr>nd_state := s, nd_updated := t\<rparr>"

definition release :: "agent_node \<Rightarrow> agent_node" where
  "release n = n\<lparr>nd_lease := None, nd_expires := None\<rparr>"

definition after_time :: "time \<Rightarrow> time option \<Rightarrow> bool" where
  "after_time t x = (case x of None \<Rightarrow> False | Some u \<Rightarrow> t < u)"

definition get_node :: "owner \<Rightarrow> pystr \<Rightarrow> ('a coord_db_scheme) \<Rightarrow> agent_node result" where
  "get_node ow i db = bind_result (guard (hex_text 32 i) (ValueError ''Invalid agent ID'')) (\<lambda>_.
     case map_of (agent_nodes db) i of
       None \<Rightarrow> Inl (KeyError i)
     | Some n \<Rightarrow> if nd_owner n = ow then Inr n else Inl (KeyError i))"

section \<open>Storage and events\<close>

definition node_bytes :: "pystr \<Rightarrow> agent_node \<Rightarrow> nat" where
  "node_bytes i n = json_bytes True False (nd_payload n) + byte_len (nd_goal n)
     + (case nd_result n of None \<Rightarrow> 0 | Some r \<Rightarrow> json_bytes False False r)"

definition agent_bytes :: "('a coord_db_scheme) \<Rightarrow> nat" where
  "agent_bytes db = column_sum node_bytes (agent_nodes db)
     + column_sum (\<lambda>_ v. json_bytes False False (av_data v)) (agent_events db)"

definition agent_capacity :: "int \<Rightarrow> ('a coord_db_scheme) \<Rightarrow> unit result" where
  "agent_capacity extra db = guard (int (agent_bytes db) + extra \<le> 67108864)
     (ValueError ''Agent logical storage exceeds 64 MiB'')"

definition log_event :: "time \<Rightarrow> pystr \<Rightarrow> owner \<Rightarrow> pystr \<Rightarrow> json \<Rightarrow> ('a coord_db_scheme) \<Rightarrow> ('a coord_db_scheme) result" where
  "log_event t i ow ev data db = bind_result (agent_capacity (int (json_bytes False False data)) db) (\<lambda>_.
     Inr (db\<lparr>agent_events := add_row \<lparr>av_node = i, av_owner = ow, av_event = ev, av_data = data, av_created = t\<rparr>
       (agent_events db)\<rparr>))"

section \<open>Adding a node\<close>

text \<open>
  What the process brings: the clock, the configuration, the role and the execution context of the caller.
  \<open>ce_seconds\<close> is \<open>float\<close> of the configured timeout, \<open>None\<close> when it is not finite; \<open>ce_backend\<close> is the configured
  backend after \<open>strip().lower()\<close>.
\<close>

record coord_env =
  ce_now :: time
  ce_seconds :: "real option"
  ce_backend :: pystr
  ce_trial :: trial_setting
  ce_role :: pystr
  ce_delegated :: bool
  ce_allowed :: "pystr list option"
  ce_settings :: "settings result"
  ce_repr :: "real \<Rightarrow> pystr"
  ce_budget :: budget_config

definition graph_queue :: "('a coord_db_scheme) \<Rightarrow> pystr" where
  "graph_queue db = ''pythonai-host-'' @ host_token db @ ''-dag-v1''"

definition graph_of :: "owner \<Rightarrow> task_id \<Rightarrow> ('a coord_db_scheme) \<Rightarrow> (pystr \<times> agent_graph) option" where
  "graph_of ow rt db = (case select_where (\<lambda>_ g. gr_owner g = ow \<and> gr_root g = rt) (agent_graphs db) of
     [] \<Rightarrow> None | g # _ \<Rightarrow> Some g)"

definition graph_terminal :: "pystr \<Rightarrow> bool" where
  "graph_terminal st \<longleftrightarrow> st \<in> {''completed'', ''needs_input'', ''cancelled''}"

definition denied :: "pystr \<Rightarrow> exn" where
  "denied msg = PermissionError msg"

text \<open>The checks on the graph a root already has.\<close>

definition pin_existing :: "coord_env \<Rightarrow> task_budget \<Rightarrow> pystr option \<Rightarrow> agent_graph \<Rightarrow> ('a coord_db_scheme) \<Rightarrow> unit result" where
  "pin_existing e b review g db = bind_result (budget_contract (ce_repr e) b db) (\<lambda>c.
     if gr_contract g \<noteq> canonical c then Inl (denied ''DAG root budget contract changed'')
     else bind_result (ce_settings e) (\<lambda>st.
       if (gr_address g, gr_namespace g, gr_queue g) \<noteq> (s_address st, s_namespace st, graph_queue db)
       then Inl (denied ''DAG host configuration changed'')
       else if graph_terminal (gr_state g) \<or> gr_state g = ''cancelling'' \<or> (gr_sealed g \<and> review = None)
       then Inl (denied ''DAG admission is closed; use a new root task'')
       else Inr ()))"

text \<open>The graph of a root that has none.\<close>

definition pin_new :: "coord_env \<Rightarrow> pystr \<Rightarrow> owner \<Rightarrow> task_id \<Rightarrow> pystr \<Rightarrow> json \<Rightarrow> task_budget \<Rightarrow> ('a coord_db_scheme) \<Rightarrow>
    ('a coord_db_scheme) result" where
  "pin_new e gid ow rt key p b db =
     (let src = jget p ''source'' in
      if ce_delegated e then Inl (denied ''A delegated context cannot create a DAG root'')
      else if \<not> one_of [''local'', ''api'', ''websocket'', ''communication''] src then Inl (denied ''Untrusted DAG source'')
      else if jget p ''identity'' = JStr ''local'' \<and> src \<noteq> JStr ''local'' then Inl (denied ''Invalid local DAG identity'')
      else if length (agent_graphs db) \<ge> 1000 then Inl (ValueError ''DAG capacity reached'')
      else bind_result (ce_settings e) (\<lambda>st. bind_result (budget_contract (ce_repr e) b db) (\<lambda>c.
        if byte_len (canonical c) > 65536 then Inl (ValueError ''DAG budget contract exceeds 64 KiB'')
        else bind_result (snapshot b db) (\<lambda>row.
          if \<not> (0 < deadline row - ce_now e \<and> deadline row - ce_now e \<le> 3600)
          then Inl (ValueError ''DAG root requires a remaining deadline within one hour'')
          else Inr (db\<lparr>agent_graphs := agent_graphs db @ [(gid, \<lparr>gr_owner = ow, gr_root = rt, gr_anchor = key,
            gr_contract = canonical c, gr_address = s_address st, gr_namespace = s_namespace st, gr_queue = graph_queue db,
            gr_state = ''pending'', gr_sealed = False, gr_dispatched = False, gr_stop = None, gr_updated = ce_now e\<rparr>)]\<rparr>)))))"

definition count_root :: "owner \<Rightarrow> task_id \<Rightarrow> ('a coord_db_scheme) \<Rightarrow> nat" where
  "count_root ow rt db = count_where (\<lambda>_ n. nd_owner n = ow \<and> nd_root n = rt) (agent_nodes db)"

text \<open>A node of a Temporal graph: the payload it is stored with names the graph.\<close>

definition pin_temporal :: "coord_env \<Rightarrow> pystr \<Rightarrow> owner \<Rightarrow> task_id \<Rightarrow> pystr \<Rightarrow> json \<Rightarrow> task_budget \<Rightarrow> pystr option \<Rightarrow>
    ('a coord_db_scheme) \<Rightarrow> (json \<times> ('a coord_db_scheme)) result" where
  "pin_temporal e gid ow rt key p b review db = bind_result (new_backend (ce_trial e) ow ''temporal'') (\<lambda>backend.
     if backend \<noteq> ''temporal'' then Inl (denied ''DAG owner is outside the Temporal trial'')
     else if ce_role e \<noteq> ''admin'' \<or> jget p ''role'' \<noteq> JStr ''admin'' then Inl (denied ''Temporal DAG requires explicit admin authority'')
     else if jget p ''budget_owner'' \<noteq> JStr ow \<or> jget p ''budget_root'' \<noteq> JStr rt
     then Inl (denied ''DAG must retain the original root budget'')
     else bind_result (case graph_of ow rt db of None \<Rightarrow> Inr () | Some (_, g) \<Rightarrow> pin_existing e b review g db) (\<lambda>_.
       if count_root ow rt db \<ge> 128 then Inl (ValueError ''DAG is limited to 128 nodes including Reviewers'')
       else bind_result (case graph_of ow rt db of
           None \<Rightarrow> bind_result (pin_new e gid ow rt key p b db) (\<lambda>db'. Inr (gid, db'))
         | Some (i, _) \<Rightarrow> Inr (i, db)) (\<lambda>(i, db').
         let p' = jset p ''temporal_graph'' (JStr i) in
         Inr (if review = None then jset p' ''parent_tools'' (case ce_allowed e of None \<Rightarrow> JNull
                 | Some ts \<Rightarrow> JArr (map JStr (sort ts))) else p', db'))))"

text \<open>\<open>dag.pin\<close>: the backend of a root is chosen with its first node and stays.\<close>

definition pin :: "coord_env \<Rightarrow> pystr \<Rightarrow> owner \<Rightarrow> task_id \<Rightarrow> pystr \<Rightarrow> json \<Rightarrow> task_budget \<Rightarrow> pystr option \<Rightarrow>
    ('a coord_db_scheme) \<Rightarrow> (json \<times> ('a coord_db_scheme)) result" where
  "pin e gid ow rt key p b review db =
     bind_result (case map_of (root_backends db) (ow, rt) of Some bk \<Rightarrow> Inr (bk, db)
       | None \<Rightarrow> (let bk = (if count_root ow rt db > 0 then ''sqlite'' else ce_backend e) in
           if bk \<notin> set [''sqlite'', ''temporal''] then Inl (ValueError ''Unknown coordinator backend'')
           else Inr (bk, db\<lparr>root_backends := root_backends db @ [((ow, rt), bk)]\<rparr>))) (\<lambda>(bk, db').
     if bk = ''sqlite'' then Inr (p, db') else pin_temporal e gid ow rt key p b review db')"

definition new_node :: "coord_env \<Rightarrow> owner \<Rightarrow> task_id \<Rightarrow> pystr option \<Rightarrow> pystr \<Rightarrow> pystr \<Rightarrow> pystr list \<Rightarrow> json \<Rightarrow> pystr option \<Rightarrow>
    time \<Rightarrow> agent_node" where
  "new_node e ow rt par persona aim deps p review limit = \<lparr>nd_owner = ow, nd_root = rt, nd_parent = par,
     nd_persona = persona, nd_goal = aim, nd_deps = deps, nd_payload = p, nd_state = NQueued, nd_result = None,
     nd_review_of = review, nd_reviewed_by = None, nd_lease = None, nd_expires = None, nd_deadline = limit,
     nd_attempts = 0, nd_updated = ce_now e\<rparr>"

definition reviewer_of :: "pystr \<Rightarrow> ('a coord_db_scheme) \<Rightarrow> pystr option" where
  "reviewer_of i db = (case select_where (\<lambda>_ n. nd_review_of n = Some i) (agent_nodes db) of
     [] \<Rightarrow> None | (r, _) # _ \<Rightarrow> Some r)"

text \<open>
  \<open>insert\<close>: one review per node, one budget child per node.  \<open>ids\<close> are the fresh identifiers of the node and
  of a graph it may found.
\<close>

definition insert_txn :: "coord_env \<Rightarrow> real \<Rightarrow> pystr \<times> pystr \<Rightarrow> owner \<Rightarrow> task_id \<Rightarrow> pystr option \<Rightarrow> pystr \<Rightarrow> pystr \<Rightarrow> pystr list \<Rightarrow>
    json \<Rightarrow> task_budget \<Rightarrow> pystr option \<Rightarrow> ('a coord_db_scheme) \<Rightarrow> (pystr \<times> ('a coord_db_scheme)) result" where
  "insert_txn e seconds ids ow rt par persona aim deps p b review db =
     (case Option.bind review (\<lambda>i. reviewer_of i db) of Some r \<Rightarrow> Inr (r, db)
      | None \<Rightarrow>
        if length (agent_nodes db) \<ge> 10000 then Inl (ValueError ''Agent storage capacity reached'')
        else bind_result (agent_capacity (int (json_bytes True False p + byte_len aim)) db) (\<lambda>_.
        case map_of (task_budgets db) (bud_owner b, bud_key b) of None \<Rightarrow> Inl (TypeError ''no budget row'')
        | Some row \<Rightarrow>
          if deadline row \<le> ce_now e \<or> b_children row \<ge> l_children (bud_limits b) \<or> jint_of (jget p ''depth'') > l_depth (bud_limits b)
          then Inl (BudgetExhausted ''Task child count/depth/deadline budget exhausted'')
          else bind_result (pin e (snd ids) ow rt (fst ids) p b review db) (\<lambda>(p', db1).
            case insert_row (fst ids) (new_node e ow rt par persona aim deps p' review
                (min (deadline row) (ce_now e + seconds))) (agent_nodes db1) of
              None \<Rightarrow> Inl (IntegrityError ''UNIQUE constraint failed: agent_nodes.id'')
            | Some t \<Rightarrow> bind_result (log_event (ce_now e) (fst ids) ow ''submitted''
                  (JObj [(''persona'', JStr persona), (''dependencies'', JArr (map JStr deps))])
                  (set_budget b (\<lambda>r. r\<lparr>b_children := b_children r + 1\<rparr>) db1\<lparr>agent_nodes := t\<rparr>))
                (\<lambda>db2. Inr (fst ids, db2)))))"

definition insert_node :: "coord_env \<Rightarrow> pystr \<times> pystr \<Rightarrow> owner \<Rightarrow> task_id \<Rightarrow> pystr option \<Rightarrow> pystr \<Rightarrow> pystr \<Rightarrow> pystr list \<Rightarrow>
    json \<Rightarrow> task_budget \<Rightarrow> pystr option \<Rightarrow> ('a coord_db_scheme) \<Rightarrow> pystr result \<times> ('a coord_db_scheme)" where
  "insert_node e ids ow rt par persona aim deps p b review db = (case ce_seconds e of
     None \<Rightarrow> (Inl (ValueError ''Subagent timeout must be 1..600 seconds''), db)
   | Some s \<Rightarrow> if \<not> (0 < s \<and> s \<le> 600) then (Inl (ValueError ''Subagent timeout must be 1..600 seconds''), db)
     else (case budget_check (ce_now e) b db of Inl x \<Rightarrow> (Inl x, db)
       | Inr _ \<Rightarrow> txn db (insert_txn e s ids ow rt par persona aim deps p b review db)))"

definition child_uncertain :: "task_row option \<Rightarrow> bool" where
  "child_uncertain c = (case c of None \<Rightarrow> False | Some r \<Rightarrow> uncertain_phase (phase r))"

section \<open>Submitting work\<close>

text \<open>
  The caller of \<open>submit\<close>: its execution context, the budget and the task it runs under, the outcome of
  \<open>snapshot_commit\<close> on its workspace and the place of its worktrees.  \<open>sc_str\<close> is Python's \<open>str\<close> on a stored value.
\<close>

record submit_ctx =
  sc_identity :: pystr
  sc_project :: pystr
  sc_session :: pystr
  sc_source :: pystr
  sc_scope :: owner
  sc_node :: "pystr option"
  sc_budget :: "task_budget option"
  sc_task :: "(owner \<times> task_id) option"
  sc_depth :: int
  sc_concurrency :: int
  sc_repository :: pystr
  sc_workspace :: pystr
  sc_storage :: pystr
  sc_snapshot :: "pystr result"
  sc_str :: "json \<Rightarrow> pystr"

definition PERSONAS :: "pystr list" where
  "PERSONAS = [''planner'', ''coder'', ''reviewer'']"

fun dependencies_ok :: "owner \<Rightarrow> task_id \<Rightarrow> pystr list \<Rightarrow> ('a coord_db_scheme) \<Rightarrow> unit result" where
  "dependencies_ok ow rt [] db = Inr ()"
| "dependencies_ok ow rt (d # ds) db = bind_result (get_node ow d db) (\<lambda>n.
     if nd_root n \<noteq> rt then Inl (ValueError ''Dependencies must belong to this root task'')
     else if nd_state n \<in> STOPPED then Inl (ValueError ''Dependency has not succeeded'')
     else dependencies_ok ow rt ds db)"

definition follow_up :: "submit_ctx \<Rightarrow> pystr \<Rightarrow> (pystr \<times> agent_node) option \<Rightarrow> ('a coord_db_scheme) \<Rightarrow> pystr result" where
  "follow_up c aim previous db = (case previous of None \<Rightarrow> Inr aim
   | Some (i, n) \<Rightarrow>
     if nd_state n \<notin> SUCCESS \<union> {NRejected, NFailed, NNeedsInput, NConflict} then Inl (ValueError ''Resolve uncertain effects before follow-up'')
     else if child_uncertain (child_task db (i, n)) \<and> \<not> jtruth (jget (nd_payload n) ''human_disposition'')
     then Inl (ValueError ''Human resolution required before follow-up'')
     else Inr (aim @ [CHR 0x0A, CHR 0x0A] @ ''Previous agent output (untrusted data):'' @ [CHR 0x0A] @ py_take 4000 (sc_str c
       (case nd_result n of None \<Rightarrow> JStr [] | Some r \<Rightarrow> (case jfield r ''reply'' of None \<Rightarrow> JStr [] | Some v \<Rightarrow> v)))))"

definition submit_payload :: "submit_ctx \<Rightarrow> coord_env \<Rightarrow> task_budget \<Rightarrow> pystr \<Rightarrow> json \<Rightarrow> json" where
  "submit_payload c e b snap crit = JObj [(''identity'', JStr (sc_identity c)), (''project'', JStr (sc_project c)),
     (''session'', JStr (sc_session c)), (''source'', JStr (sc_source c)), (''role'', JStr (ce_role e)),
     (''repository'', JStr (sc_repository c)), (''workspace'', JStr (sc_workspace c)), (''snapshot'', JStr snap),
     (''criteria'', crit), (''depth'', JInt (sc_depth c + 1)), (''budget_owner'', JStr (bud_owner b)),
     (''budget_root'', JStr (bud_key b)), (''concurrency'', JInt (sc_concurrency c)), (''storage'', JStr (sc_storage c))]"

definition submitted :: "submit_ctx \<Rightarrow> coord_env \<Rightarrow> pystr \<Rightarrow> pystr \<Rightarrow> pystr list \<Rightarrow> (pystr \<times> agent_node) option \<Rightarrow>
    ('a coord_db_scheme) \<Rightarrow> (task_budget \<times> pystr \<times> json) result" where
  "submitted c e persona aim deps previous db =
     (if persona \<notin> set PERSONAS then Inl (ValueError ''Unknown persona'')
      else if py_strip aim = [] \<or> byte_len aim > 16000 then Inl (ValueError ''Task requires 1..16000 bytes'')
      else case (sc_budget c, sc_task c) of
        (Some b, Some (tow, tk)) \<Rightarrow>
          if length deps > 16 \<or> \<not> distinct deps then Inl (ValueError ''Invalid dependencies'')
          else bind_result (dependencies_ok (sc_scope c) (bud_key b) deps db) (\<lambda>_.
            bind_result (follow_up c aim previous db) (\<lambda>aim'.
            bind_result (sc_snapshot c) (\<lambda>snap.
            bind_result (get_task db tow tk) (\<lambda>row.
            let p = submit_payload c e b snap (jt_doc (criteria row)) in
            bind_result (case sc_node c of None \<Rightarrow> Inr p
              | Some a \<Rightarrow> bind_result (get_node (sc_scope c) a db) (\<lambda>n.
                  if nd_root n \<noteq> bud_key b then Inl (ValueError ''Child belongs to another root task'')
                  else bind_result (py_index (nd_payload n) ''source'') (\<lambda>src. Inr (jset p ''source'' src)))) (\<lambda>p'.
            if \<not> (1 \<le> sc_concurrency c \<and> sc_concurrency c \<le> 8) then Inl (ValueError ''Subagent concurrency must be 1..8'')
            else Inr (b, aim', p'))))))
      | _ \<Rightarrow> Inl (ValueError ''Collaboration requires a durable, budgeted parent task''))"

definition submit_node :: "submit_ctx \<Rightarrow> coord_env \<Rightarrow> pystr \<times> pystr \<Rightarrow> pystr \<Rightarrow> pystr \<Rightarrow> pystr list \<Rightarrow> (pystr \<times> agent_node) option \<Rightarrow>
    ('a coord_db_scheme) \<Rightarrow> pystr result \<times> ('a coord_db_scheme)" where
  "submit_node c e ids persona aim deps previous db = (case submitted c e persona aim deps previous db of
     Inl x \<Rightarrow> (Inl x, db)
   | Inr (b, aim', p) \<Rightarrow> insert_node e ids (sc_scope c) (bud_key b) (sc_node c) persona aim' deps p b None db)"

section \<open>Recovery and claims\<close>

definition is_legacy :: "('a coord_db_scheme) \<Rightarrow> agent_node \<Rightarrow> bool" where
  "is_legacy db n \<longleftrightarrow> map_of (root_backends db) (nd_owner n, nd_root n) \<noteq> Some ''temporal''"

definition root_stopped :: "task_row option \<Rightarrow> bool" where
  "root_stopped r = (case r of None \<Rightarrow> True | Some t \<Rightarrow> tstate t \<in> {Cancelled, Failed})"

text \<open>The state recovery gives a node; \<open>None\<close> leaves it alone.\<close>

definition recovered_state :: "time \<Rightarrow> task_row option \<Rightarrow> bool \<Rightarrow> agent_node \<Rightarrow> node_state option" where
  "recovered_state t child stop n = (let live = after_time t (nd_expires n) in
     if nd_state n = NMerging then (if live then None else Some NNeedsResolution)
     else if stop \<or> nd_state n = NCancelRequested
     then Some (if live then NCancelRequested else if nd_deadline n \<le> t then NTimedOut else NCancelled)
     else if nd_state n = NRunning \<and> \<not> live
     then Some (if child_uncertain child then NNeedsResolution
       else case map_option tstate child of
         Some Suspended \<Rightarrow> NNeedsInput | Some Failed \<Rightarrow> NFailed | Some Cancelled \<Rightarrow> NCancelled
       | _ \<Rightarrow> if nd_attempts n \<ge> 3 then NFailed else NQueued)
     else None)"

definition fence_child :: "pystr \<times> agent_node \<Rightarrow> ('a coord_db_scheme) \<Rightarrow> ('a coord_db_scheme)" where
  "fence_child n db = db\<lparr>tasks := update_key (node_task_owner (nd_payload (snd n)), node_task (fst n))
     (\<lambda>r. tstate r = Running \<and> \<not> uncertain_phase (phase r))
     (\<lambda>r. r\<lparr>tstate := Pending, lease_owner := None, lease_until := None,
        reply := Some ''Coordinator recovered a stopped worker''\<rparr>) (tasks db)\<rparr>"

text \<open>Tasks are read on another connection: the committed state, before this transaction.\<close>

definition recover_one_node :: "time \<Rightarrow> ('a coord_db_scheme) \<Rightarrow> pystr \<times> agent_node \<Rightarrow> ('a coord_db_scheme) \<Rightarrow> ('a coord_db_scheme) result" where
  "recover_one_node t db0 n db = (let child = child_task db0 n; root = root_task db0 (snd n);
       stop = (root_stopped root \<or> nd_deadline (snd n) \<le> t) in
     case recovered_state t child stop (snd n) of None \<Rightarrow> Inr db
     | Some s \<Rightarrow> log_event t (fst n) (nd_owner (snd n)) ''recovery'' (JObj [(''state'', JStr (state_name s))])
         (set_node (fst n) (\<lambda>_. True) (to_state t s) (if s = NQueued then fence_child n db else db)))"

fun recover_nodes :: "time \<Rightarrow> ('a coord_db_scheme) \<Rightarrow> (pystr \<times> agent_node) list \<Rightarrow> ('a coord_db_scheme) \<Rightarrow> ('a coord_db_scheme) result" where
  "recover_nodes t db0 [] db = Inr db"
| "recover_nodes t db0 (n # ns) db = bind_result (recover_one_node t db0 n db) (recover_nodes t db0 ns)"

definition review_failed :: "node_state \<Rightarrow> bool" where
  "review_failed s \<longleftrightarrow> s \<in> {NFailed, NRejected, NCancelled, NTimedOut, NNeedsInput, NNeedsResolution}"

definition reject_unreviewed :: "time \<Rightarrow> ('a coord_db_scheme) \<Rightarrow> ('a coord_db_scheme)" where
  "reject_unreviewed t db = (let failed = map (nd_review_of \<circ> snd) (select_where (\<lambda>_ n. review_failed (nd_state n)) (agent_nodes db)) in
     db\<lparr>agent_nodes := update_where (\<lambda>i n. nd_state n = NReviewPending \<and> Some i \<in> set failed) (to_state t NRejected)
       (agent_nodes db)\<rparr>)"

definition recover_graph :: "time \<Rightarrow> ('a coord_db_scheme) \<Rightarrow> unit result \<times> ('a coord_db_scheme)" where
  "recover_graph t db = txn db (let rows = select_where (\<lambda>_ n. nd_state n \<in> {NQueued, NRunning, NCancelRequested, NMerging}
       \<and> is_legacy db n) (agent_nodes db) in
     bind_result (recover_nodes t db rows db) (\<lambda>db1. Inr ((), reject_unreviewed t db1)))"

definition running_count :: "time \<Rightarrow> ('a coord_db_scheme) \<Rightarrow> nat" where
  "running_count t db = count_where (\<lambda>_ n. nd_state n \<in> {NRunning, NCancelRequested} \<and> after_time t (nd_expires n)) (agent_nodes db)"

definition dep_nodes :: "('a coord_db_scheme) \<Rightarrow> agent_node \<Rightarrow> (pystr \<times> agent_node) list" where
  "dep_nodes db n = List.map_filter (\<lambda>k. case map_of (agent_nodes db) k of
     Some d \<Rightarrow> if nd_owner d = nd_owner n then Some (k, d) else None | None \<Rightarrow> None) (nd_deps n)"

text \<open>A dependency is met when it succeeded; a reviewer also starts on the pending result it reviews.\<close>

definition dep_met :: "agent_node \<Rightarrow> pystr \<times> agent_node \<Rightarrow> bool" where
  "dep_met n d \<longleftrightarrow> nd_state (snd d) \<in> SUCCESS
     \<or> (nd_review_of n = Some (fst d) \<and> nd_state (snd d) = NReviewPending)"

definition lease_node :: "time \<Rightarrow> token \<Rightarrow> agent_node \<Rightarrow> agent_node" where
  "lease_node t tok n = n\<lparr>nd_state := NRunning, nd_lease := Some tok, nd_expires := Some (t + 90),
     nd_attempts := Suc (nd_attempts n), nd_updated := t\<rparr>"

definition child_leased :: "time \<Rightarrow> task_row option \<Rightarrow> bool" where
  "child_leased t c = (case c of None \<Rightarrow> False | Some r \<Rightarrow> after_time t (lease_until r))"

definition claimable :: "time \<Rightarrow> ('a coord_db_scheme) \<Rightarrow> pystr \<times> agent_node \<Rightarrow> bool" where
  "claimable t db n \<longleftrightarrow> \<not> child_leased t (child_task db n) \<and> int (running_count t db) < pint (snd n) ''concurrency''"

fun claim_nodes :: "time \<Rightarrow> token \<Rightarrow> (pystr \<times> agent_node) list \<Rightarrow> ('a coord_db_scheme) \<Rightarrow>
    ((pystr \<times> agent_node) option \<times> ('a coord_db_scheme)) result" where
  "claim_nodes t tok [] db = Inr (None, db)"
| "claim_nodes t tok (n # ns) db = (let deps = dep_nodes db (snd n) in
     if \<not> claimable t db n then claim_nodes t tok ns db
     else if \<exists>d\<in>set deps. nd_state (snd d) \<in> STOPPED
     then claim_nodes t tok ns (set_node (fst n) (\<lambda>_. True) (nd_state_update (\<lambda>_. NFailed)) db)
     else if length deps \<noteq> length (nd_deps (snd n)) \<or> (\<exists>d\<in>set deps. \<not> dep_met (snd n) d) then claim_nodes t tok ns db
     else bind_result (log_event t (fst n) (nd_owner (snd n)) ''claimed'' (JObj [])
         (set_node (fst n) (\<lambda>_. True) (lease_node t tok) db))
       (\<lambda>db1. Inr (Some (fst n, (lease_node t tok (snd n))\<lparr>nd_updated := nd_updated (snd n)\<rparr>), db1)))"

definition claim_node :: "time \<Rightarrow> token \<Rightarrow> ('a coord_db_scheme) \<Rightarrow> (pystr \<times> agent_node) option result \<times> ('a coord_db_scheme)" where
  "claim_node t tok db = (case recover_graph t db of (Inl x, db1) \<Rightarrow> (Inl x, db1)
   | (Inr _, db1) \<Rightarrow> txn db1 (claim_nodes t tok (take 128 (asc (\<lambda>(_, n). nd_updated n)
       (select_where (\<lambda>_ n. nd_state n = NQueued \<and> is_legacy db1 n) (agent_nodes db1)))) db1))"

text \<open>A worker holds the copy of the node it claimed.\<close>

definition holds_node :: "time \<Rightarrow> agent_node \<Rightarrow> agent_node \<Rightarrow> bool" where
  "holds_node t w n \<longleftrightarrow> nd_lease w \<noteq> None \<and> nd_lease n = nd_lease w \<and> nd_state n = NRunning \<and> after_time t (nd_expires n)"

definition renew_node :: "time \<Rightarrow> pystr \<times> agent_node \<Rightarrow> ('a coord_db_scheme) \<Rightarrow> bool \<times> ('a coord_db_scheme)" where
  "renew_node t w db = (row_where (fst w) (holds_node t (snd w)) (agent_nodes db),
     set_node (fst w) (holds_node t (snd w)) (\<lambda>n. n\<lparr>nd_expires := Some (t + 90)\<rparr>) db)"

definition node_cancelled :: "time \<Rightarrow> pystr \<times> agent_node \<Rightarrow> token option \<Rightarrow> ('a coord_db_scheme) \<Rightarrow> bool" where
  "node_cancelled t w lease db = (case map_of (agent_nodes db) (fst w) of None \<Rightarrow> True
     | Some n \<Rightarrow> nd_state n \<notin> {NRunning, NMerging} \<or> (lease \<noteq> None \<and> nd_lease n \<noteq> lease)
         \<or> nd_deadline n \<le> t \<or> (lease \<noteq> None \<and> \<not> after_time t (nd_expires n))
         \<or> root_stopped (root_task db (snd w)))"

section \<open>Results and reviews\<close>

text \<open>
  \<open>coordinator_worker.review_result\<close> on the value of the reply; \<open>safe_path\<close> stands for the tests of
  \<open>pathlib\<close> on a name (no drive, not absolute, no \<open>..\<close> and no \<open>.git\<close> among its parts).
\<close>

definition valid_finding :: "(pystr \<Rightarrow> bool) \<Rightarrow> json \<Rightarrow> bool" where
  "valid_finding safe_path f \<longleftrightarrow> has_keys f [''path'', ''line'', ''message'']
     \<and> is_str (jget f ''path'') \<and> jtext_of (jget f ''path'') \<noteq> [] \<and> safe_path (jtext_of (jget f ''path''))
     \<and> is_int (jget f ''line'') \<and> 1 \<le> jint_of (jget f ''line'')
     \<and> is_str (jget f ''message'') \<and> 0 < py_len (jtext_of (jget f ''message''))
     \<and> py_len (jtext_of (jget f ''message'')) \<le> 4000"

definition valid_review :: "(pystr \<Rightarrow> bool) \<Rightarrow> json \<Rightarrow> bool" where
  "valid_review safe_path v \<longleftrightarrow> json_bytes True False v \<le> 65536 \<and> has_keys v [''approve'', ''findings'']
     \<and> jget v ''approve'' \<in> {JBool True, JBool False} \<and> is_list (jget v ''findings'')
     \<and> length (jitems (jget v ''findings'')) \<le> 100 \<and> list_all (valid_finding safe_path) (jitems (jget v ''findings''))
     \<and> \<not> (jget v ''approve'' = JBool True \<and> jitems (jget v ''findings'') \<noteq> [])"

definition approving :: "json \<Rightarrow> bool result" where
  "approving r = (let v = (case jfield r ''review'' of None \<Rightarrow> JObj [] | Some v \<Rightarrow> v) in
     bind_result (py_get v ''approve'' JNull) (\<lambda>a. if a \<noteq> JBool True then Inr False
       else bind_result (py_get v ''findings'' JNull) (\<lambda>f. Inr (f = JArr []))))"

definition is_verified :: "(pystr \<Rightarrow> bool) \<Rightarrow> agent_node \<Rightarrow> json \<Rightarrow> bool" where
  "is_verified safe_path w r \<longleftrightarrow> jget r ''verified'' = JBool True \<and> jget r ''success'' = JBool True
     \<and> (nd_persona w = ''reviewer'' \<and> jtruth (jget (nd_payload w) ''temporal_graph'') \<longrightarrow> valid_review safe_path (jget r ''review''))"

definition published_state :: "(pystr \<Rightarrow> bool) \<Rightarrow> agent_node \<Rightarrow> json \<Rightarrow> node_state result" where
  "published_state safe_path w r = (let verified = is_verified safe_path w r in
     if nd_persona w = ''coder'' \<and> verified then Inr NReviewPending
     else if nd_persona w = ''planner'' \<and> jget r ''success'' = JBool True then Inr NCompleted
     else if nd_persona w = ''reviewer''
     then (if verified then bind_result (approving r) (\<lambda>ok. Inr (if ok then NCompleted else NRejected)) else Inr NRejected)
     else Inr NNeedsInput)"

definition result_bytes :: "agent_node option \<Rightarrow> nat" where
  "result_bytes n = (case n of None \<Rightarrow> 0 | Some n \<Rightarrow>
     (case nd_result n of None \<Rightarrow> 0 | Some r \<Rightarrow> json_bytes False False r))"

definition settle_review :: "time \<Rightarrow> node_state \<Rightarrow> pystr \<times> agent_node \<Rightarrow> ('a coord_db_scheme) \<Rightarrow> ('a coord_db_scheme)" where
  "settle_review t s w db = (case nd_review_of (snd w) of None \<Rightarrow> db
     | Some i \<Rightarrow> set_node i (\<lambda>n. nd_state n = NReviewPending)
         (\<lambda>n. (to_state t s n)\<lparr>nd_reviewed_by := Some (fst w)\<rparr>) db)"

definition publish_txn :: "time \<Rightarrow> pystr \<times> agent_node \<Rightarrow> node_state \<Rightarrow> json \<Rightarrow> ('a coord_db_scheme) \<Rightarrow> (unit \<times> ('a coord_db_scheme)) result" where
  "publish_txn t w s r db =
     (if root_stopped (root_task db (snd w)) \<or> nd_deadline (snd w) \<le> t
      then Inl (PyRuntimeError ''Parent task stopped or agent deadline expired'')
      else bind_result (agent_capacity (int (json_bytes False False r) - int (result_bytes (map_of (agent_nodes db) (fst w)))) db) (\<lambda>_.
        if \<not> row_where (fst w) (holds_node t (snd w)) (agent_nodes db) then Inl (PyRuntimeError ''Agent lease lost'')
        else bind_result (log_event t (fst w) (nd_owner (snd w)) ''finished'' (JObj [(''state'', JStr (state_name s))])
            (set_node (fst w) (\<lambda>_. True) (\<lambda>n. release ((to_state t s n)\<lparr>nd_result := Some r\<rparr>)) db))
          (\<lambda>db1. Inr ((), settle_review t (if s = NCompleted then NReviewed else NRejected) w db1))))"

text \<open>
  \<open>ensure_review\<close>: the reviewer of a pending result, once; where \<open>insert\<close> admits none, a human decides.
\<close>

definition value_or_budget_error :: "exn \<Rightarrow> bool" where
  "value_or_budget_error x = (case x of ValueError _ \<Rightarrow> True | BudgetExhausted _ \<Rightarrow> True | _ \<Rightarrow> False)"

definition ensure_review :: "coord_env \<Rightarrow> pystr \<times> pystr \<Rightarrow> owner \<Rightarrow> pystr \<Rightarrow> ('a coord_db_scheme) \<Rightarrow> unit result \<times> ('a coord_db_scheme)" where
  "ensure_review e ids ow i db = (case get_node ow i db of Inl x \<Rightarrow> (Inl x, db)
   | Inr n \<Rightarrow> if nd_state n \<noteq> NReviewPending \<or> reviewer_of i db \<noteq> None then (Inr (), db)
     else (case bind_result (case nd_result n of None \<Rightarrow> Inl (TypeError ''no result'') | Some r \<Rightarrow> Inr r) (\<lambda>r. py_index r ''commit'') of
       Inl x \<Rightarrow> (Inl x, db)
     | Inr c \<Rightarrow> (case open_budget (ce_budget e) (ce_now e) (ptext n ''budget_owner'') (nd_root n) db of
         (Inl x, db1) \<Rightarrow> (Inl x, db1)
       | (Inr b, db1) \<Rightarrow> (case insert_node e ids ow (nd_root n) (nd_parent n) ''reviewer''
             ''Evaluate the supplied result and return review JSON.'' [i] (jset (nd_payload n) ''snapshot'' c) b (Some i) db1 of
           (Inr _, db2) \<Rightarrow> (Inr (), db2)
         | (Inl x, db2) \<Rightarrow> if value_or_budget_error x
             then (Inr (), set_node i (\<lambda>n. nd_state n = NReviewPending) (nd_state_update (\<lambda>_. NNeedsInput)) db2)
             else (Inl x, db2)))))"

definition publish :: "(pystr \<Rightarrow> bool) \<Rightarrow> coord_env \<Rightarrow> pystr \<times> pystr \<Rightarrow> pystr \<times> agent_node \<Rightarrow> json \<Rightarrow> ('a coord_db_scheme) \<Rightarrow> unit result \<times> ('a coord_db_scheme)" where
  "publish safe_path e ids w r db =
     (if \<not> is_dict r \<or> json_bytes True False r > 1048576 then (Inl (ValueError ''Invalid agent result''), db)
      else (case published_state safe_path (snd w) r of Inl x \<Rightarrow> (Inl x, db)
      | Inr s \<Rightarrow> (case txn db (publish_txn (ce_now e) w s r db) of (Inl x, db1) \<Rightarrow> (Inl x, db1)
        | (Inr _, db1) \<Rightarrow> if s = NReviewPending then ensure_review e ids (nd_owner (snd w)) (fst w) db1
            else (Inr (), db1))))"

section \<open>Stopping\<close>

definition fence_failed :: "pystr \<times> agent_node \<Rightarrow> node_state \<Rightarrow> ('a coord_db_scheme) \<Rightarrow> ('a coord_db_scheme)" where
  "fence_failed w s db = (if s = NQueued then fence_child w db
     else if s = NNeedsResolution then db\<lparr>tasks := update_key (node_task_owner (nd_payload (snd w)), node_task (fst w))
       (\<lambda>r. tstate r = Running \<and> uncertain_phase (phase r))
       (\<lambda>r. r\<lparr>tstate := Uncertain, lease_owner := None, lease_until := None\<rparr>) (tasks db)\<rparr>
     else db)"

definition fail_txn :: "time \<Rightarrow> pystr \<times> agent_node \<Rightarrow> node_state \<Rightarrow> pystr \<Rightarrow> ('a coord_db_scheme) \<Rightarrow> (unit \<times> ('a coord_db_scheme)) result" where
  "fail_txn t w s err db = bind_result (log_event t (fst w) (nd_owner (snd w)) ''worker_stopped''
       (JObj [(''state'', JStr (state_name s)), (''error_type'', JStr err)])
       (set_node (fst w) (\<lambda>_. True) (\<lambda>n. release (to_state t s n)) (fence_failed w s db)))
     (\<lambda>db'. Inr ((), if s \<in> STOPPED then settle_review t NRejected w db' else db'))"

definition fail_node :: "time \<Rightarrow> pystr \<times> agent_node \<Rightarrow> node_state \<Rightarrow> pystr \<Rightarrow> ('a coord_db_scheme) \<Rightarrow> unit result \<times> ('a coord_db_scheme)" where
  "fail_node t w st err db = txn db (case map_of (agent_nodes db) (fst w) of None \<Rightarrow> Inr ((), db)
   | Some n \<Rightarrow>
     if nd_lease (snd w) = None \<or> nd_lease n \<noteq> nd_lease (snd w) \<or> nd_state n \<notin> {NRunning, NCancelRequested} then Inr ((), db)
     else fail_txn t w (if nd_state n = NCancelRequested then NCancelled else st) err db)"

text \<open>
  \<open>cancel\<close> selects the nodes below a node, by parent and by review, in rounds until a round adds nothing.
\<close>

definition below :: "owner \<Rightarrow> ('a coord_db_scheme) \<Rightarrow> pystr set \<Rightarrow> pystr set" where
  "below ow db sel = fst ` set (select_where (\<lambda>_ n. nd_owner n = ow
     \<and> (nd_parent n \<in> Some ` sel \<or> nd_review_of n \<in> Some ` sel)) (agent_nodes db))"

function selection :: "owner \<Rightarrow> ('a coord_db_scheme) \<Rightarrow> pystr set \<Rightarrow> pystr set" where
  "selection ow db sel = (let extra = below ow db sel in if extra \<subseteq> sel then sel else selection ow db (sel \<union> extra))"
  by pat_completeness auto

lemma below_known: "below ow db sel \<subseteq> fst ` set (agent_nodes db)"
  by (auto simp: below_def select_where_def)

termination selection
proof (relation "measure (\<lambda>(_, db, sel). card (fst ` set (agent_nodes db) - sel))", simp)
  fix ow :: owner and db :: "'a coord_db_scheme" and sel extra
  assume "extra = below ow db sel" and "\<not> extra \<subseteq> sel"
  then have "fst ` set (agent_nodes db) - (sel \<union> extra) \<subset> fst ` set (agent_nodes db) - sel"
    using below_known [of ow db sel] by auto
  then show "((ow, db, sel \<union> extra), ow, db, sel) \<in> measure (\<lambda>(_, db, sel). card (fst ` set (agent_nodes db) - sel))"
    by (auto intro!: psubset_card_mono)
qed

declare selection.simps [simp del]

fun cancel_nodes :: "time \<Rightarrow> (pystr \<times> agent_node) list \<Rightarrow> ('a coord_db_scheme) \<Rightarrow> ('a coord_db_scheme) result" where
  "cancel_nodes t [] db = Inr db"
| "cancel_nodes t ((i, n) # ns) db = (if nd_state n = NMerged then cancel_nodes t ns db
     else bind_result (log_event t i (nd_owner n) ''cancelled'' (JObj [])
       (set_node i (\<lambda>_. True) (to_state t (if nd_lease n \<noteq> None \<and> after_time t (nd_expires n)
          then NCancelRequested else NCancelled)) db)) (cancel_nodes t ns))"

definition cancel_tree :: "time \<Rightarrow> owner \<Rightarrow> pystr \<Rightarrow> ('a coord_db_scheme) \<Rightarrow> unit result \<times> ('a coord_db_scheme)" where
  "cancel_tree t ow i db = txn db (bind_result (get_node ow i db) (\<lambda>_.
     bind_result (cancel_nodes t (select_where (\<lambda>j _. j \<in> selection ow db {i}) (agent_nodes db)) db) (\<lambda>db'. Inr ((), db'))))"

section \<open>Merging a reviewed result\<close>

text \<open>
  The directory of the parent: the content of each file, or none.  A change replaces what the file held in
  the base commit (none for an added file) by what it holds in the result (none for a deleted one).
\<close>

type_synonym files = "pystr \<Rightarrow> pystr option"
type_synonym change = "pystr \<times> pystr option \<times> pystr option"

text \<open>\<open>review == {'approve': True, 'findings': []}\<close>; in Python \<open>True == 1 == 1.0\<close>.\<close>

definition is_approval :: "json \<Rightarrow> bool" where
  "is_approval v \<longleftrightarrow> has_keys v [''approve'', ''findings''] \<and> jget v ''approve'' \<in> {JBool True, JInt 1, JFloat ''1.0''}
     \<and> jget v ''findings'' = JArr []"

definition approved_by :: "agent_node \<Rightarrow> bool result" where
  "approved_by rv = (if nd_state rv \<noteq> NCompleted then Inr False
     else bind_result (case nd_result rv of None \<Rightarrow> Inl (TypeError ''no result'') | Some r \<Rightarrow> py_index r ''verified'')
       (\<lambda>v. Inr (jtruth v \<and> is_approval (jget (the (nd_result rv)) ''review''))))"

text \<open>
  What \<open>merge_node\<close> checks before it touches anything.  \<open>fence\<close> is \<open>merge_guard\<close> of the graph of the node,
  \<open>here\<close> the node the caller executes, \<open>same_root\<close> whether its workspace is the one the node was given.
\<close>

definition merge_ready :: "coord_env \<Rightarrow> (('a coord_db_scheme) \<Rightarrow> unit result) \<Rightarrow> pystr option \<Rightarrow> bool \<Rightarrow> owner \<Rightarrow> pystr \<Rightarrow>
    agent_node \<Rightarrow> ('a coord_db_scheme) \<Rightarrow> unit result \<times> ('a coord_db_scheme)" where
  "merge_ready e fence here same_root ow i n db =
     (if ce_role e \<noteq> ''admin'' then (Inl (PolicyDenied ''Merging requires admin role''), db)
      else case fence db of Inl x \<Rightarrow> (Inl x, db)
      | Inr _ \<Rightarrow> (case open_budget (ce_budget e) (ce_now e) (ptext n ''budget_owner'') (nd_root n) db of (Inl x, db1) \<Rightarrow> (Inl x, db1)
      | (Inr b, db1) \<Rightarrow> (bind_result (budget_check (ce_now e) b db1) (\<lambda>_.
          bind_result (get_task db1 (ptext n ''budget_owner'') (nd_root n)) (\<lambda>parent.
          if tstate parent \<in> {Cancelled, Failed} then Inl (ValueError ''Parent task has stopped'')
          else case (nd_state n = NReviewed, nd_reviewed_by n) of
            (True, Some rv) \<Rightarrow> bind_result (get_node ow rv db1) (\<lambda>r. bind_result (approved_by r) (\<lambda>ok.
              if \<not> ok then Inl (ValueError ''Reviewer has not approved verified evidence'')
              else if nd_parent n \<noteq> here then Inl (ValueError ''Only the immediate parent may merge this result'')
              else if \<not> same_root then Inl (ValueError ''Parent workspace changed'')
              else Inr ()))
          | _ \<Rightarrow> Inl (ValueError ''Coder result has not passed its independent Reviewer''))), db1)))"

text \<open>A file that no longer holds what the base commit holds is a conflict.\<close>

definition conflicting :: "files \<Rightarrow> change list \<Rightarrow> bool" where
  "conflicting fs cs = (\<exists>(name, old, _)\<in>set cs. fs name \<noteq> old)"

definition mark_conflict :: "pystr \<Rightarrow> ('a coord_db_scheme) \<Rightarrow> ('a coord_db_scheme)" where
  "mark_conflict i db = set_node i (\<lambda>n. nd_state n = NReviewed) (nd_state_update (\<lambda>_. NConflict)) db"

definition begin_merge :: "time \<Rightarrow> (('a coord_db_scheme) \<Rightarrow> unit result) \<Rightarrow> token \<Rightarrow> pystr \<Rightarrow> owner \<Rightarrow> pystr \<Rightarrow> ('a coord_db_scheme) \<Rightarrow>
    unit result \<times> ('a coord_db_scheme)" where
  "begin_merge t fence tok archive ow i db = txn db (bind_result (fence db) (\<lambda>_.
     if \<not> row_where i (\<lambda>n. nd_state n = NReviewed) (agent_nodes db)
     then Inl (ValueError ''Merge already owned or result changed'')
     else bind_result (log_event t i ow ''merge_started'' (JObj [(''archive'', JStr archive)])
         (set_node i (\<lambda>_. True) (\<lambda>n. n\<lparr>nd_state := NMerging, nd_lease := Some tok, nd_expires := Some (t + 90)\<rparr>) db))
       (\<lambda>db'. Inr ((), db'))))"

text \<open>
  The changes are applied one by one.  \<open>world k\<close> is what happens before the \<open>k\<close>-th: other programs may write
  files, and the fence, a cancellation or the file system may stop the merge.
\<close>

fun apply_changes :: "(nat \<Rightarrow> files \<Rightarrow> exn option \<times> files) \<Rightarrow> nat \<Rightarrow> change list \<Rightarrow> change list \<Rightarrow> files \<Rightarrow>
    unit result \<times> change list \<times> files" where
  "apply_changes world k [] applied fs = (Inr (), applied, fs)"
| "apply_changes world k ((name, old, new) # cs) applied fs = (case world k fs of
     (Some x, fs1) \<Rightarrow> (Inl x, applied, fs1)
   | (None, fs1) \<Rightarrow> if fs1 name \<noteq> old then (Inl (ValueError ''Merge conflict during apply''), applied, fs1)
     else apply_changes world (Suc k) cs (applied @ [(name, old, new)]) (fs1(name := new)))"

text \<open>
  The roll-back puts back each applied change, the last first, unless the file holds something else by now.  It
  may fail itself: \<open>reads k\<close> is what happens before the file of the \<open>k\<close>-th is read, where the file system may
  stop it, and \<open>broken k\<close> says that its \<open>unlink\<close> or \<open>write_bytes\<close> raises, with what it left in the file:
  \<open>write_bytes\<close> truncates the file before it writes.  An exception of the roll-back leaves the handler at once, so
  that the remaining changes stay and the node is not marked.
\<close>

fun undo_changes :: "(nat \<Rightarrow> files \<Rightarrow> exn option \<times> files) \<Rightarrow> (nat \<Rightarrow> (exn \<times> pystr option) option) \<Rightarrow> nat \<Rightarrow> change list \<Rightarrow> files \<Rightarrow>
    unit result \<times> files" where
  "undo_changes reads broken k [] fs = (Inr (), fs)"
| "undo_changes reads broken k ((name, old, new) # cs) fs = (case reads k fs of
     (Some x, fs1) \<Rightarrow> (Inl x, fs1)
   | (None, fs1) \<Rightarrow> if fs1 name \<noteq> new then undo_changes reads broken (Suc k) cs fs1
     else (case broken k of Some (x, rest) \<Rightarrow> (Inl x, fs1(name := rest))
       | None \<Rightarrow> undo_changes reads broken (Suc k) cs (fs1(name := old))))"

definition commit_merge :: "time \<Rightarrow> (('a coord_db_scheme) \<Rightarrow> unit result) \<Rightarrow> token \<Rightarrow> json \<Rightarrow> json \<Rightarrow> owner \<Rightarrow> pystr \<Rightarrow>
    ('a coord_db_scheme) \<Rightarrow> unit result \<times> ('a coord_db_scheme)" where
  "commit_merge t fence tok r evidence ow i db = txn db (bind_result (fence db) (\<lambda>_.
     if \<not> row_where i (\<lambda>n. nd_state n = NMerging \<and> nd_lease n = Some tok) (agent_nodes db)
     then Inl (PyRuntimeError ''Merge lease lost'')
     else bind_result (log_event t i ow ''merged'' evidence
         (set_node i (\<lambda>_. True) (\<lambda>n. release ((to_state t NMerged n)\<lparr>nd_result := Some (jset r ''merge'' evidence)\<rparr>)) db))
       (\<lambda>db'. Inr ((), db'))))"

definition abort_merge :: "token \<Rightarrow> pystr \<Rightarrow> ('a coord_db_scheme) \<Rightarrow> ('a coord_db_scheme)" where
  "abort_merge tok i db = set_node i (\<lambda>n. nd_lease n = Some tok) (nd_state_update (\<lambda>_. NNeedsResolution)) db"

definition roll_back :: "(nat \<Rightarrow> files \<Rightarrow> exn option \<times> files) \<Rightarrow> (nat \<Rightarrow> (exn \<times> pystr option) option) \<Rightarrow> token \<Rightarrow> exn \<Rightarrow>
    change list \<Rightarrow> pystr \<Rightarrow> files \<Rightarrow> ('a coord_db_scheme) \<Rightarrow> unit result \<times> files \<times> ('a coord_db_scheme)" where
  "roll_back reads broken tok x applied i fs db = (case undo_changes reads broken 0 (rev applied) fs of
     (Inr _, fs1) \<Rightarrow> (Inl x, fs1, abort_merge tok i db)
   | (Inl y, fs1) \<Rightarrow> (Inl y, fs1, db))"

text \<open>
  The part of \<open>merge_node\<close> after the merge began: \<open>db\<close> is the database when the files are written, which
  other processes may have changed since.
\<close>

definition finish_merge :: "time \<Rightarrow> (('a coord_db_scheme) \<Rightarrow> unit result) \<Rightarrow> (nat \<Rightarrow> files \<Rightarrow> exn option \<times> files) \<Rightarrow>
    (nat \<Rightarrow> files \<Rightarrow> exn option \<times> files) \<Rightarrow> (nat \<Rightarrow> (exn \<times> pystr option) option) \<Rightarrow> token \<Rightarrow>
    change list \<Rightarrow> json \<Rightarrow> json \<Rightarrow> owner \<Rightarrow> pystr \<Rightarrow> files \<Rightarrow> ('a coord_db_scheme) \<Rightarrow> unit result \<times> files \<times> ('a coord_db_scheme)" where
  "finish_merge t fence world reads broken tok cs r evidence ow i fs db = (case apply_changes world 0 cs [] fs of
     (Inl x, applied, fs1) \<Rightarrow> roll_back reads broken tok x applied i fs1 db
   | (Inr _, applied, fs1) \<Rightarrow> (case commit_merge t fence tok r evidence ow i db of
       (Inr _, db1) \<Rightarrow> (Inr (), fs1, db1)
     | (Inl x, db1) \<Rightarrow> roll_back reads broken tok x applied i fs1 db1))"

section \<open>Human recovery\<close>

definition abandon_node :: "time \<Rightarrow> pystr \<Rightarrow> owner \<Rightarrow> pystr \<Rightarrow> ('a coord_db_scheme) \<Rightarrow> unit result \<times> ('a coord_db_scheme)" where
  "abandon_node t inspection ow i db =
     (if byte_len inspection > 16000 then (Inl (ValueError ''Inspection note exceeds 16000 bytes''), db)
      else txn db (case map_of (agent_nodes db) i of
        None \<Rightarrow> Inl (ValueError ''Agent recovery state changed'')
      | Some n \<Rightarrow>
        if nd_owner n \<noteq> ow \<or> nd_state n \<noteq> NNeedsResolution then Inl (ValueError ''Agent recovery state changed'')
        else if after_time t (nd_expires n) \<or> child_leased t (child_task db (i, n))
        then Inl (ValueError ''Wait for worker leases to expire before abandoning'')
        else let p = jset (nd_payload n) ''human_disposition'' (JStr ''abandoned after inspection'') in
          bind_result (agent_capacity (int (json_bytes True False p) - int (json_bytes True False (nd_payload n))) db) (\<lambda>_.
          bind_result (log_event t i ow ''human_abandoned'' (JObj [(''inspection'', JStr inspection)])
            ((set_node i (\<lambda>_. True) (\<lambda>n. release ((to_state t NConflict n)\<lparr>nd_payload := p\<rparr>)) db)
              \<lparr>tasks := update_key (node_task_owner p, node_task i) (\<lambda>_. True)
                 (\<lambda>r. r\<lparr>tstate := Cancelled, lease_owner := None, lease_until := None\<rparr>) (tasks db)\<rparr>))
            (\<lambda>db'. Inr ((), db')))))"

definition requeue_node :: "pystr \<Rightarrow> ('a coord_db_scheme) \<Rightarrow> ('a coord_db_scheme)" where
  "requeue_node i db = set_node i (\<lambda>_. True) (\<lambda>n. release (n\<lparr>nd_state := NQueued\<rparr>)) db"

definition answer_node :: "env \<Rightarrow> pystr \<times> agent_node \<Rightarrow> pystr \<Rightarrow> ('a coord_db_scheme) \<Rightarrow> unit result \<times> ('a coord_db_scheme)" where
  "answer_node e w said db =
     (if nd_state (snd w) \<noteq> NNeedsInput then (Inl (ValueError ''No matching suspended/uncertain action''), db)
      else case answer e (node_task_owner (nd_payload (snd w))) (node_task (fst w)) said db of
        (Inl x, db1) \<Rightarrow> (Inl x, db1) | (Inr _, db1) \<Rightarrow> (Inr (), requeue_node (fst w) db1))"

definition resolve_node :: "env \<Rightarrow> pystr \<times> agent_node \<Rightarrow> pystr \<Rightarrow> pystr \<Rightarrow> ('a coord_db_scheme) \<Rightarrow> unit result \<times> ('a coord_db_scheme)" where
  "resolve_node e w call observed db =
     (if nd_state (snd w) \<noteq> NNeedsResolution then (Inl (ValueError ''No matching suspended/uncertain action''), db)
      else let ow = node_task_owner (nd_payload (snd w)); k = node_task (fst w) in
        (case resolve e ow k call observed (mark_uncertain e ow k db) of
          (Inl x, db1) \<Rightarrow> (Inl x, db1) | (Inr _, db1) \<Rightarrow> (Inr (), requeue_node (fst w) db1)))"

end
