(* ===== verification/Coordinator_Machine.thy ===== *)
theory Coordinator_Machine
  imports Coordinator Leases
begin

text \<open>
  The histories of the collaboration graph: the operations as steps, what each step may do to a node, and
  the invariant that identifiers and reviewers are unique.
\<close>

section \<open>Histories\<close>

text \<open>
  A worker's copy of a node is the stored row under the token it was claimed with: of what the store reads
  of a copy, nothing changes after the insertion.  The tables of tasks and budgets belong to other stores
  too, which may rewrite them at any time; a human's answer or resolution is such a change of a task
  followed by \<open>requeue_node\<close>.  A worker that fails names a stopped state or the queue.
\<close>

type_synonym fence = "coord_db \<Rightarrow> unit result"

datatype coord_op =
    CSubmit submit_ctx coord_env "pystr \<times> pystr" pystr pystr "pystr list" "(pystr \<times> agent_node) option"
  | CEnsure coord_env "pystr \<times> pystr" owner pystr
  | CRecover
  | CClaim token
  | CRenew pystr token
  | CPublish "pystr \<Rightarrow> bool" coord_env "pystr \<times> pystr" pystr token json
  | CFail pystr token node_state pystr
  | CCancel owner pystr
  | CConflict pystr
  | CBeginMerge fence token pystr owner pystr
  | CCommitMerge fence token json json owner pystr
  | CAbortMerge token pystr
  | CAbandon pystr owner pystr
  | CRequeue pystr
  | CTasks "(owner \<times> task_id, task_row) table"
  | CBudgets "(owner \<times> task_id, budget_row) table"

definition worker_copy :: "pystr \<Rightarrow> token \<Rightarrow> agent_node \<Rightarrow> pystr \<times> agent_node" where
  "worker_copy i tok n = (i, n\<lparr>nd_lease := Some tok\<rparr>)"

definition with_node :: "pystr \<Rightarrow> (agent_node \<Rightarrow> coord_db) \<Rightarrow> coord_db \<Rightarrow> coord_db" where
  "with_node i f db = (case map_of (agent_nodes db) i of None \<Rightarrow> db | Some n \<Rightarrow> f n)"

fun coord_step :: "time \<Rightarrow> coord_op \<Rightarrow> coord_db \<Rightarrow> coord_db" where
  "coord_step t (CSubmit c e ids persona aim deps previous) db =
     snd (submit_node c (e\<lparr>ce_now := t\<rparr>) ids persona aim deps previous db)"
| "coord_step t (CEnsure e ids ow i) db = snd (ensure_review (e\<lparr>ce_now := t\<rparr>) ids ow i db)"
| "coord_step t CRecover db = snd (recover_graph t db)"
| "coord_step t (CClaim tok) db = snd (claim_node t tok db)"
| "coord_step t (CRenew i tok) db = with_node i (\<lambda>n. snd (renew_node t (worker_copy i tok n) db)) db"
| "coord_step t (CPublish safe e ids i tok r) db =
     with_node i (\<lambda>n. snd (publish safe (e\<lparr>ce_now := t\<rparr>) ids (worker_copy i tok n) r db)) db"
| "coord_step t (CFail i tok s err) db = (if s \<in> STOPPED \<union> {NQueued}
     then with_node i (\<lambda>n. snd (fail_node t (worker_copy i tok n) s err db)) db else db)"
| "coord_step t (CCancel ow i) db = snd (cancel_tree t ow i db)"
| "coord_step t (CConflict i) db = mark_conflict i db"
| "coord_step t (CBeginMerge f tok archive ow i) db = snd (begin_merge t f tok archive ow i db)"
| "coord_step t (CCommitMerge f tok r ev ow i) db = snd (commit_merge t f tok r ev ow i db)"
| "coord_step t (CAbortMerge tok i) db = abort_merge tok i db"
| "coord_step t (CAbandon inspection ow i) db = snd (abandon_node t inspection ow i db)"
| "coord_step t (CRequeue i) db = requeue_node i db"
| "coord_step t (CTasks tb) db = db\<lparr>tasks := tb\<rparr>"
| "coord_step t (CBudgets tb) db = db\<lparr>task_budgets := tb\<rparr>"

section \<open>Frames\<close>

lemma set_node_frames [simp]:
  "agent_nodes (set_node i c f db) = update_key i c f (agent_nodes db)"
  "agent_events (set_node i c f db) = agent_events db"
  "tasks (set_node i c f db) = tasks db"
  "root_backends (set_node i c f db) = root_backends db"
  by (simp_all add: set_node_def)

lemma fence_child_frames [simp]:
  "agent_nodes (fence_child n db) = agent_nodes db" "agent_events (fence_child n db) = agent_events db"
  "root_backends (fence_child n db) = root_backends db"
  by (simp_all add: fence_child_def)

lemma log_event_Inr:
  "log_event t i ow ev data db = Inr db' \<Longrightarrow> agent_nodes db' = agent_nodes db \<and> agent_bytes db' \<le> 67108864"
  by (auto simp: log_event_def agent_capacity_def agent_bytes_def add_row_def)

text \<open>The row a finished reviewer settles.\<close>

definition settle_row :: "time \<Rightarrow> node_state \<Rightarrow> pystr \<times> agent_node \<Rightarrow> pystr \<Rightarrow> agent_node \<Rightarrow> agent_node" where
  "settle_row t s w i n = (if nd_review_of (snd w) = Some i \<and> nd_state n = NReviewPending
     then (to_state t s n)\<lparr>nd_reviewed_by := Some (fst w)\<rparr> else n)"

lemma settle_review_lookup:
  "map_of (agent_nodes (settle_review t s w db)) i = map_option (settle_row t s w i) (map_of (agent_nodes db) i)"
  by (cases "map_of (agent_nodes db) i") (auto simp: settle_review_def settle_row_def tbl split: option.splits)

lemma settle_review_keys: "map fst (agent_nodes (settle_review t s w db)) = map fst (agent_nodes db)"
  by (simp add: settle_review_def split: option.splits)

section \<open>What recovery does to a node\<close>

text \<open>
  Recovery and cancellation only move the state of a node, never to a state in which work runs or counts as
  reviewed, and back to the queue only from a worker whose lease ran out.
\<close>

definition settled :: "time \<Rightarrow> agent_node \<Rightarrow> agent_node \<Rightarrow> bool" where
  "settled t r r' \<longleftrightarrow> r' = r\<lparr>nd_state := nd_state r', nd_updated := nd_updated r'\<rparr>
     \<and> (nd_state r' = nd_state r \<or> nd_state r' \<notin> {NRunning, NReviewed, NMerging, NMerged})
     \<and> (nd_state r' = NQueued \<longrightarrow> nd_state r = NQueued \<or> (nd_state r = NRunning \<and> \<not> after_time t (nd_expires r)))"

definition rows_settled :: "time \<Rightarrow> coord_db \<Rightarrow> coord_db \<Rightarrow> bool" where
  "rows_settled t db db' \<longleftrightarrow> map fst (agent_nodes db') = map fst (agent_nodes db)
     \<and> (\<forall>i. rel_option (settled t) (map_of (agent_nodes db) i) (map_of (agent_nodes db') i))"

lemma settled_refl [simp]: "settled t r r"
  by (simp add: settled_def)

lemma settled_trans:
  assumes "settled t a b" and "settled t b c" shows "settled t a c"
proof -
  have b: "b = a\<lparr>nd_state := nd_state b, nd_updated := nd_updated b\<rparr>" and c: "c = b\<lparr>nd_state := nd_state c, nd_updated := nd_updated c\<rparr>"
    using assms by (simp_all add: settled_def)
  have "nd_expires b = nd_expires a" by (subst b) simp
  moreover have "c = a\<lparr>nd_state := nd_state c, nd_updated := nd_updated c\<rparr>" by (subst c, subst b) simp
  ultimately show ?thesis using assms unfolding settled_def by auto
qed

lemma rows_settled_refl [simp]: "rows_settled t db db"
  by (auto simp: rows_settled_def intro: option.rel_refl)

lemma rows_settled_trans:
  assumes "rows_settled t a b" and "rows_settled t b c" shows "rows_settled t a c"
proof -
  have "rel_option (settled t) (map_of (agent_nodes a) i) (map_of (agent_nodes c) i)" for i
  proof -
    from assms have "rel_option (settled t) (map_of (agent_nodes a) i) (map_of (agent_nodes b) i)"
      "rel_option (settled t) (map_of (agent_nodes b) i) (map_of (agent_nodes c) i)" by (simp_all add: rows_settled_def)
    then show ?thesis by cases (auto elim!: option.rel_cases intro: settled_trans)
  qed
  with assms show ?thesis by (simp add: rows_settled_def)
qed

lemma rows_settled_set:
  assumes "agent_nodes db' = update_key i c f (agent_nodes db)"
    and "\<And>n. map_of (agent_nodes db) i = Some n \<Longrightarrow> c n \<Longrightarrow> settled t n (f n)"
  shows "rows_settled t db db'"
  using assms(2) by (auto simp: rows_settled_def assms(1) tbl rel_option_iff split: option.splits)

lemma settled_to_state:
  assumes "s \<notin> {NRunning, NReviewed, NMerging, NMerged}"
    and "s = NQueued \<Longrightarrow> nd_state n = NQueued \<or> (nd_state n = NRunning \<and> \<not> after_time t (nd_expires n))"
  shows "settled t n (to_state u s n)"
  using assms by (auto simp: settled_def to_state_def)

lemma recovered_state_idle:
  assumes "recovered_state t child stop n = Some s"
  shows "s \<notin> {NRunning, NReviewed, NMerging, NMerged}"
    and "s = NQueued \<Longrightarrow> nd_state n = NRunning \<and> \<not> after_time t (nd_expires n)"
  using assms by (auto simp: recovered_state_def Let_def split: if_splits option.splits task_state.splits)

lemma recover_one_node_nodes:
  "recover_one_node t db0 n db = Inr db' \<Longrightarrow> agent_nodes db' = (case recovered_state t (child_task db0 n)
       (root_stopped (root_task db0 (snd n)) \<or> nd_deadline (snd n) \<le> t) (snd n) of None \<Rightarrow> agent_nodes db
     | Some s \<Rightarrow> update_key (fst n) (\<lambda>_. True) (to_state t s) (agent_nodes db))"
  by (auto simp: recover_one_node_def Let_def dest!: log_event_Inr split: option.splits if_splits)

lemma recover_nodes_settled:
  assumes "recover_nodes t db0 ns db = Inr db'"
    and "distinct (map fst ns)" and "\<And>i n. (i, n) \<in> set ns \<Longrightarrow> map_of (agent_nodes db) i = Some n"
  shows "rows_settled t db db'"
  using assms
proof (induction ns arbitrary: db)
  case (Cons x ns)
  obtain i n where x: "x = (i, n)" by (cases x)
  with Cons.prems(1) obtain db1 where one: "recover_one_node t db0 (i, n) db = Inr db1"
    and rest: "recover_nodes t db0 ns db1 = Inr db'" by auto
  note nodes = recover_one_node_nodes [OF one, simplified]
  have n: "map_of (agent_nodes db) i = Some n" using Cons.prems(3) x by simp
  have "rows_settled t db db1"
  proof (cases "recovered_state t (child_task db0 (i, n)) (root_stopped (root_task db0 n) \<or> nd_deadline n \<le> t) n")
    case None
    then show ?thesis using nodes by (simp add: rows_settled_def option.rel_refl)
  next
    case (Some s)
    with nodes have "agent_nodes db1 = update_key i (\<lambda>_. True) (to_state t s) (agent_nodes db)" by simp
    then show ?thesis
      by (rule rows_settled_set) (use recovered_state_idle [OF Some] n in \<open>auto intro!: settled_to_state\<close>)
  qed
  moreover have "map_of (agent_nodes db1) j = Some m" if "(j, m) \<in> set ns" for j m
  proof -
    have "j \<noteq> i" using that Cons.prems(2) x by force
    then show ?thesis using Cons.prems(3) [of j m] that nodes x by (auto simp: tbl split: option.splits)
  qed
  then have "rows_settled t db1 db'" using Cons.IH [OF rest] Cons.prems(2) x by simp
  ultimately show ?case by (rule rows_settled_trans)
qed simp

lemma map_of_select: "unique_keys t \<Longrightarrow> (k, v) \<in> set (select_where p t) \<Longrightarrow> map_of t k = Some v"
  by (auto simp: select_where_def unique_keys_def)

lemma distinct_select: "unique_keys t \<Longrightarrow> distinct (map fst (select_where p t))"
  by (simp add: select_where_def unique_keys_def distinct_map_filter)

lemma reject_unreviewed_settled: "rows_settled t db (reject_unreviewed t db)"
proof -
  have "rel_option (settled t) (map_of (agent_nodes db) i) (map_of (agent_nodes (reject_unreviewed t db)) i)" for i
    by (cases "map_of (agent_nodes db) i") (auto simp: reject_unreviewed_def Let_def tbl intro!: settled_to_state)
  then show ?thesis by (simp add: rows_settled_def reject_unreviewed_def Let_def)
qed

lemma recover_graph_settled:
  assumes "unique_keys (agent_nodes db)"
  shows "rows_settled t db (snd (recover_graph t db))"
  unfolding recover_graph_def
proof (rule txn_preserves [where P = "rows_settled t db"])
  fix a db'
  assume "(let rows = select_where (\<lambda>_ n. nd_state n \<in> {NQueued, NRunning, NCancelRequested, NMerging} \<and> is_legacy db n) (agent_nodes db) in
     bind_result (recover_nodes t db rows db) (\<lambda>db1. Inr ((), reject_unreviewed t db1))) = Inr (a, db')"
  then obtain db1 where one: "recover_nodes t db (select_where (\<lambda>_ n. nd_state n \<in> {NQueued, NRunning, NCancelRequested, NMerging}
      \<and> is_legacy db n) (agent_nodes db)) db = Inr db1" and db': "db' = reject_unreviewed t db1"
    unfolding Let_def bind_result_Inr by blast
  have "rows_settled t db db1"
    by (rule recover_nodes_settled [OF one distinct_select [OF assms] map_of_select [OF assms]])
  then show "rows_settled t db db'" unfolding db' by (rule rows_settled_trans) (rule reject_unreviewed_settled)
qed simp

section \<open>What one step does to a node\<close>

definition node_new :: "agent_node \<Rightarrow> bool" where
  "node_new n \<longleftrightarrow> nd_state n = NQueued \<and> nd_lease n = None \<and> nd_expires n = None \<and> nd_result n = None
     \<and> nd_reviewed_by n = None \<and> nd_attempts n = 0 \<and> (nd_review_of n = None \<or> nd_persona n = ''reviewer'')"

inductive node_change :: "time \<Rightarrow> coord_op \<Rightarrow> coord_db \<Rightarrow> pystr \<Rightarrow> agent_node \<Rightarrow> agent_node \<Rightarrow> bool"
  for t x db i where
  settles: "settled t r r' \<Longrightarrow> node_change t x db i r r'"
| claims: "x = CClaim tok \<Longrightarrow> settled t r m \<Longrightarrow> nd_state m = NQueued \<Longrightarrow> node_change t x db i r (lease_node t tok m)"
| renews: "x = CRenew i tok \<Longrightarrow> nd_state r = NRunning \<Longrightarrow> nd_lease r = Some tok \<Longrightarrow> after_time t (nd_expires r) \<Longrightarrow>
    node_change t x db i r (r\<lparr>nd_expires := Some (t + 90)\<rparr>)"
| publishes: "s \<in> {NReviewPending, NCompleted, NRejected, NNeedsInput} \<Longrightarrow>
    node_change t x db i r (release ((to_state t s r)\<lparr>nd_result := Some res, nd_reviewed_by := rb\<rparr>))"
| fails: "s \<in> STOPPED \<union> {NQueued} \<Longrightarrow> node_change t x db i r (release (to_state t s r))"
| reviews: "x = CPublish safe e ids j tok res \<Longrightarrow> map_of (agent_nodes db) j = Some n \<Longrightarrow> nd_review_of n = Some i \<Longrightarrow>
    nd_state n = NRunning \<Longrightarrow> nd_lease n = Some tok \<Longrightarrow> after_time t (nd_expires n) \<Longrightarrow>
    published_state safe (snd (worker_copy j tok n)) res = Inr NCompleted \<Longrightarrow> nd_state r = NReviewPending \<Longrightarrow>
    node_change t x db i r ((to_state t NReviewed r)\<lparr>nd_reviewed_by := Some j\<rparr>)"
| rejects: "nd_state r = NReviewPending \<Longrightarrow> node_change t x db i r ((to_state t NRejected r)\<lparr>nd_reviewed_by := Some j\<rparr>)"
| begins: "x = CBeginMerge f tok archive ow i \<Longrightarrow> f db = Inr () \<Longrightarrow> nd_state r = NReviewed \<Longrightarrow>
    node_change t x db i r (r\<lparr>nd_state := NMerging, nd_lease := Some tok, nd_expires := Some (t + 90)\<rparr>)"
| commits: "x = CCommitMerge f tok res ev ow i \<Longrightarrow> f db = Inr () \<Longrightarrow> nd_state r = NMerging \<Longrightarrow> nd_lease r = Some tok \<Longrightarrow>
    node_change t x db i r (release ((to_state t NMerged r)\<lparr>nd_result := Some (jset res ''merge'' ev)\<rparr>))"
| abandons: "node_change t x db i r (release ((to_state t NConflict r)\<lparr>nd_payload := p\<rparr>))"
| requeues: "x = CRequeue i \<Longrightarrow> node_change t x db i r (release (r\<lparr>nd_state := NQueued\<rparr>))"

lemma node_change_same [simp]: "node_change t x db i r r"
  by (rule settles) simp

text \<open>A step leaves every node in the table and may add one in the queue.\<close>

definition nodes_step :: "time \<Rightarrow> coord_op \<Rightarrow> coord_db \<Rightarrow> coord_db \<Rightarrow> bool" where
  "nodes_step t x db db' \<longleftrightarrow> (\<forall>i. case map_of (agent_nodes db) i of
     None \<Rightarrow> (case map_of (agent_nodes db') i of None \<Rightarrow> True | Some r' \<Rightarrow> node_new r')
   | Some r \<Rightarrow> (case map_of (agent_nodes db') i of None \<Rightarrow> False | Some r' \<Rightarrow> node_change t x db i r r'))"

lemma nodes_step_same: "agent_nodes db' = agent_nodes db \<Longrightarrow> nodes_step t x db db'"
  by (auto simp: nodes_step_def split: option.splits)

lemma nodes_stepI:
  assumes "\<And>i r. map_of (agent_nodes db) i = Some r \<Longrightarrow> \<exists>r'. map_of (agent_nodes db') i = Some r' \<and> node_change t x db i r r'"
    and "\<And>i r'. map_of (agent_nodes db) i = None \<Longrightarrow> map_of (agent_nodes db') i = Some r' \<Longrightarrow> node_new r'"
  shows "nodes_step t x db db'"
  unfolding nodes_step_def
proof (rule allI)
  fix i
  show "case map_of (agent_nodes db) i of None \<Rightarrow> (case map_of (agent_nodes db') i of None \<Rightarrow> True | Some r' \<Rightarrow> node_new r')
      | Some r \<Rightarrow> (case map_of (agent_nodes db') i of None \<Rightarrow> False | Some r' \<Rightarrow> node_change t x db i r r')"
    using assms(1) [of i] assms(2) [of i]
    by (cases "map_of (agent_nodes db) i"; cases "map_of (agent_nodes db') i") auto
qed

lemma nodes_step_old: "nodes_step t x db db' \<Longrightarrow> map_of (agent_nodes db) i = Some r \<Longrightarrow>
    \<exists>r'. map_of (agent_nodes db') i = Some r' \<and> node_change t x db i r r'"
  unfolding nodes_step_def by (drule spec [of _ i]) (auto split: option.splits)

lemma nodes_step_new: "nodes_step t x db db' \<Longrightarrow> map_of (agent_nodes db) i = None \<Longrightarrow> map_of (agent_nodes db') i = Some r' \<Longrightarrow> node_new r'"
  unfolding nodes_step_def by (drule spec [of _ i]) simp

lemma rows_settled_old: "rows_settled t db db' \<Longrightarrow> map_of (agent_nodes db) i = Some r \<Longrightarrow>
    \<exists>r'. map_of (agent_nodes db') i = Some r' \<and> settled t r r'"
  unfolding rows_settled_def by (metis option.rel_cases option.distinct(1) option.inject)

lemma rows_settled_none: "rows_settled t db db' \<Longrightarrow> map_of (agent_nodes db) i = None \<Longrightarrow> map_of (agent_nodes db') i = None"
  unfolding rows_settled_def by (metis option.rel_distinct(1) option.exhaust)

lemma nodes_step_settled: "rows_settled t db db' \<Longrightarrow> nodes_step t x db db'"
  by (rule nodes_stepI) (use rows_settled_old rows_settled_none settles in \<open>fastforce+\<close>)

lemma nodes_step_set:
  assumes "agent_nodes db' = update_key i c f (agent_nodes db)"
    and "\<And>n. map_of (agent_nodes db) i = Some n \<Longrightarrow> c n \<Longrightarrow> node_change t x db i n (f n)"
  shows "nodes_step t x db db'"
  using assms(2) by (auto simp: nodes_step_def assms(1) tbl split: option.splits)

subsection \<open>Frames of admission\<close>

lemma pin_temporal_nodes: "pin_temporal e gid ow rt key p b review db = Inr (p', db') \<Longrightarrow> agent_nodes db' = agent_nodes db"
  by (auto simp: pin_temporal_def pin_new_def Let_def split: option.splits if_splits prod.splits)

lemma pin_nodes: "pin e gid ow rt key p b review db = Inr (p', db') \<Longrightarrow> agent_nodes db' = agent_nodes db"
  by (auto simp: pin_def Let_def dest!: pin_temporal_nodes split: option.splits if_splits prod.splits)

lemma set_budget_nodes [simp]: "agent_nodes (set_budget b f db) = agent_nodes db"
  by (simp add: set_budget_def)

lemma open_budget_nodes: "agent_nodes (snd (open_budget c t ow k db)) = agent_nodes db"
  by (auto simp: open_budget_def insert_budget_def split: sum.splits prod.splits option.splits if_splits)

text \<open>An insertion appends one new node under a fresh identifier, or changes no node.\<close>

definition appended :: "pystr \<Rightarrow> pystr option \<Rightarrow> coord_db \<Rightarrow> coord_db \<Rightarrow> bool" where
  "appended i review db db' \<longleftrightarrow> map_of (agent_nodes db) i = None \<and> Option.bind review (\<lambda>j. reviewer_of j db) = None
     \<and> (\<exists>n. agent_nodes db' = agent_nodes db @ [(i, n)] \<and> node_new n \<and> nd_review_of n = review)"

lemma insert_txn_appended:
  assumes "insert_txn e s ids ow rt par persona aim deps p b review db = Inr (i, db')"
    and persona: "review = None \<or> persona = ''reviewer''"
  shows "agent_nodes db' = agent_nodes db \<or> appended (fst ids) review db db'"
proof (cases "Option.bind review (\<lambda>i. reviewer_of i db)")
  case None
  then obtain p' db1 tb db2 limit where "pin e (snd ids) ow rt (fst ids) p b review db = Inr (p', db1)"
    and ins: "insert_row (fst ids) (new_node e ow rt par persona aim deps p' review limit) (agent_nodes db1) = Some tb"
    and ev: "log_event (ce_now e) (fst ids) ow ''submitted'' (JObj [(''persona'', JStr persona), (''dependencies'', JArr (map JStr deps))])
      (set_budget b (\<lambda>r. r\<lparr>b_children := b_children r + 1\<rparr>) db1\<lparr>agent_nodes := tb\<rparr>) = Inr db2" and db': "db' = db2"
    using assms(1) by (auto simp: insert_txn_def split: option.splits if_splits prod.splits)
  from pin_nodes [OF this(1)] ins have "map_of (agent_nodes db) (fst ids) = None"
    and "tb = agent_nodes db @ [(fst ids, new_node e ow rt par persona aim deps p' review limit)]"
    by (simp_all add: insert_row_append)
  moreover have "agent_nodes db' = tb" using log_event_Inr [OF ev] by (simp add: db')
  ultimately show ?thesis using None persona by (simp add: appended_def new_node_def node_new_def)
qed (use assms(1) in \<open>auto simp: insert_txn_def\<close>)

lemma insert_node_appended:
  "review = None \<or> persona = ''reviewer'' \<Longrightarrow>
   agent_nodes (snd (insert_node e ids ow rt par persona aim deps p b review db)) = agent_nodes db
     \<or> appended (fst ids) review db (snd (insert_node e ids ow rt par persona aim deps p b review db))"
  by (auto simp: insert_node_def txn_def dest!: insert_txn_appended split: option.splits sum.splits)

lemma nodes_step_appended: "appended i review db db' \<Longrightarrow> nodes_step t x db db'"
  by (rule nodes_stepI) (auto simp: appended_def map_add_def split: option.splits if_splits)

subsection \<open>Each operation\<close>

lemma ensure_review_cases:
  "agent_nodes (snd (ensure_review e ids ow i db)) = agent_nodes db
   \<or> appended (fst ids) (Some i) db (snd (ensure_review e ids ow i db))
   \<or> agent_nodes (snd (ensure_review e ids ow i db)) =
       update_key i (\<lambda>n. nd_state n = NReviewPending) (nd_state_update (\<lambda>_. NNeedsInput)) (agent_nodes db)"
proof (cases "get_node ow i db")
  case (Inr n)
  show ?thesis
  proof (cases "bind_result (case nd_result n of None \<Rightarrow> Inl (TypeError ''no result'') | Some r \<Rightarrow> Inr r) (\<lambda>r. py_index r ''commit'')")
    case Inr2: (Inr c)
    obtain ob db1 where ob: "open_budget (ce_budget e) (ce_now e) (ptext n ''budget_owner'') (nd_root n) db = (ob, db1)"
      by (cases "open_budget (ce_budget e) (ce_now e) (ptext n ''budget_owner'') (nd_root n) db")
    then have same: "agent_nodes db1 = agent_nodes db" using open_budget_nodes by (metis snd_conv)
    then have app: "appended (fst ids) (Some i) db1 db2 \<Longrightarrow> appended (fst ids) (Some i) db db2" for db2
      by (simp add: appended_def reviewer_of_def)
    show ?thesis
    proof (cases ob)
      case b: (Inr b)
      let ?ins = "insert_node e ids ow (nd_root n) (nd_parent n) ''reviewer''
             ''Evaluate the supplied result and return review JSON.'' [i] (jset (nd_payload n) ''snapshot'' c) b (Some i) db1"
      obtain rs db2 where ins: "?ins = (rs, db2)" by (cases ?ins)
      have "agent_nodes db2 = agent_nodes db \<or> appended (fst ids) (Some i) db db2"
        using insert_node_appended [of "Some i" "''reviewer''" e ids ow "nd_root n" "nd_parent n"
             "''Evaluate the supplied result and return review JSON.''" "[i]" "jset (nd_payload n) ''snapshot'' c" b db1]
          ins same app [of db2] by auto
      moreover have "agent_nodes db2 = agent_nodes db" if "rs = Inl z" for z
        using ins same that by (auto simp: insert_node_def txn_def split: option.splits sum.splits if_splits)
      ultimately show ?thesis using Inr Inr2 ob b ins by (cases rs) (auto simp: ensure_review_def)
    next
      case b: (Inl z)
      from Inr Inr2 ob same show ?thesis unfolding ensure_review_def by (simp only: sum.case b prod.case) simp
    qed
  qed (use Inr in \<open>simp add: ensure_review_def del: bind_result_Inl bind_result_Inr\<close>)
qed (simp add: ensure_review_def)

lemma ensure_review_step: "nodes_step t x db (snd (ensure_review e ids ow i db))"
  using ensure_review_cases [of e ids ow i db]
proof (elim disjE)
  assume "agent_nodes (snd (ensure_review e ids ow i db)) =
       update_key i (\<lambda>n. nd_state n = NReviewPending) (nd_state_update (\<lambda>_. NNeedsInput)) (agent_nodes db)"
  then show ?thesis by (rule nodes_step_set) (auto intro!: settles simp: settled_def)
qed (auto intro: nodes_step_same nodes_step_appended)

lemma submit_node_step: "nodes_step t x db (snd (submit_node c e ids persona aim deps previous db))"
proof (cases "submitted c e persona aim deps previous db")
  case (Inr v)
  then obtain b aim' p where v: "submitted c e persona aim deps previous db = Inr (b, aim', p)" by (cases v) auto
  show ?thesis
    using insert_node_appended [of None persona e ids "sc_scope c" "bud_key b" "sc_node c" aim' deps p b db] v
    by (auto simp: submit_node_def intro: nodes_step_same nodes_step_appended)
qed (simp add: submit_node_def nodes_step_same)

lemma cancel_nodes_settled: "cancel_nodes t ns db = Inr db' \<Longrightarrow> rows_settled t db db'"
proof (induction t ns db rule: cancel_nodes.induct)
  case (2 t i n ns db)
  show ?case
  proof (cases "nd_state n = NMerged")
    case False
    let ?s = "if nd_lease n \<noteq> None \<and> after_time t (nd_expires n) then NCancelRequested else NCancelled"
    from 2(3) False obtain db1 where ev: "log_event t i (nd_owner n) ''cancelled'' (JObj []) (set_node i (\<lambda>_. True) (to_state t ?s) db) = Inr db1"
      and rest: "cancel_nodes t ns db1 = Inr db'" by auto
    have "rows_settled t db db1"
      by (rule rows_settled_set [where i = i and c = "\<lambda>_. True" and f = "to_state t ?s"])
        (use log_event_Inr [OF ev] in \<open>auto intro!: settled_to_state\<close>)
    then show ?thesis using 2(2) [OF False rest] rows_settled_trans by blast
  qed (use 2 in simp)
qed simp

lemma cancel_tree_settled: "rows_settled t db (snd (cancel_tree t ow i db))"
  unfolding cancel_tree_def
  by (rule txn_preserves [where P = "rows_settled t db"]) (auto dest: cancel_nodes_settled)

lemma fence_failed_frames [simp]: "agent_nodes (fence_failed w s db) = agent_nodes db"
  by (simp add: fence_failed_def)

text \<open>The row of the worker, and the result it reviewed.\<close>

lemma fail_txn_step:
  assumes "s \<in> STOPPED \<union> {NQueued}" and "fail_txn t w s err db = Inr (a, db')"
  shows "nodes_step t x db db'"
proof -
  obtain db1 where n1: "agent_nodes db1 = update_key (fst w) (\<lambda>_. True) (\<lambda>n. release (to_state t s n)) (agent_nodes db)"
    and db': "db' = (if s \<in> STOPPED then settle_review t NRejected w db1 else db1)"
    using assms(2) by (auto simp: fail_txn_def dest!: log_event_Inr)
  have pending: "s \<noteq> NReviewPending" using assms(1) by (auto simp: STOPPED_def)
  let ?g = "\<lambda>i r. let r1 = (if i = fst w then release (to_state t s r) else r) in
     if s \<in> STOPPED then settle_row t NRejected w i r1 else r1"
  have look: "map_of (agent_nodes db') i = map_option (?g i) (map_of (agent_nodes db) i)" for i
    by (cases "i = fst w"; cases "map_of (agent_nodes db) i") (auto simp: db' settle_review_lookup n1 tbl Let_def)
  have "node_change t x db i r (?g i r)" for i r
    using pending fails [OF assms(1), of t x db i r] rejects [of r t x db i "fst w"]
    by (auto simp: settle_row_def Let_def release_def to_state_def)
  then show ?thesis by (intro nodes_stepI) (auto simp: look)
qed

lemma fail_node_step: "s \<in> STOPPED \<union> {NQueued} \<Longrightarrow> nodes_step t x db (snd (fail_node t w s err db))"
  unfolding fail_node_def
  by (rule txn_preserves [where P = "nodes_step t x db"])
    (auto simp: nodes_step_same intro: fail_txn_step fail_txn_step [where s = NCancelled, simplified STOPPED_def, simplified]
      split: option.splits if_splits)

text \<open>A published result: the row of the worker and the result it reviewed.\<close>

lemma published_state_range: "published_state safe w r = Inr s \<Longrightarrow> s \<in> {NReviewPending, NCompleted, NRejected, NNeedsInput}"
  by (auto simp: published_state_def Let_def split: if_splits)

definition publish_row :: "time \<Rightarrow> node_state \<Rightarrow> json \<Rightarrow> pystr \<times> agent_node \<Rightarrow> pystr \<Rightarrow> agent_node \<Rightarrow> agent_node" where
  "publish_row t s r w i n = settle_row t (if s = NCompleted then NReviewed else NRejected) w i
     (if i = fst w then release ((to_state t s n)\<lparr>nd_result := Some r\<rparr>) else n)"

lemma publish_txn_Inr:
  assumes "publish_txn t w s r db = Inr (a, db')"
  shows "row_where (fst w) (holds_node t (snd w)) (agent_nodes db)"
    and "map_of (agent_nodes db') i = map_option (publish_row t s r w i) (map_of (agent_nodes db) i)"
    and "map fst (agent_nodes db') = map fst (agent_nodes db)"
proof -
  from assms obtain db1 where held: "row_where (fst w) (holds_node t (snd w)) (agent_nodes db)"
    and ev: "log_event t (fst w) (nd_owner (snd w)) ''finished'' (JObj [(''state'', JStr (state_name s))])
      (set_node (fst w) (\<lambda>_. True) (\<lambda>n. release ((to_state t s n)\<lparr>nd_result := Some r\<rparr>)) db) = Inr db1"
    and db': "db' = settle_review t (if s = NCompleted then NReviewed else NRejected) w db1"
    by (auto simp: publish_txn_def split: if_splits)
  show "row_where (fst w) (holds_node t (snd w)) (agent_nodes db)" by (rule held)
  show "map_of (agent_nodes db') i = map_option (publish_row t s r w i) (map_of (agent_nodes db) i)"
    using log_event_Inr [OF ev]
    by (cases "i = fst w"; cases "map_of (agent_nodes db) i") (auto simp: db' settle_review_lookup publish_row_def tbl)
  show "map fst (agent_nodes db') = map fst (agent_nodes db)"
    using log_event_Inr [OF ev] by (simp add: db' settle_review_keys)
qed

lemma publish_row_change:
  assumes x: "x = CPublish safe e ids j tok r" and n: "map_of (agent_nodes db) j = Some n"
    and s: "published_state safe (snd (worker_copy j tok n)) r = Inr s" and held: "holds_node t (n\<lparr>nd_lease := Some tok\<rparr>) n"
  shows "node_change t x db i m (publish_row t s r (worker_copy j tok n) i m)"
proof (cases "nd_review_of n = Some i \<and> nd_state (if i = j then release ((to_state t s m)\<lparr>nd_result := Some r\<rparr>) else m) = NReviewPending")
  case False
  have "release ((to_state t s m)\<lparr>nd_result := Some r, nd_reviewed_by := nd_reviewed_by m\<rparr>) = release ((to_state t s m)\<lparr>nd_result := Some r\<rparr>)"
    by (cases m) (simp add: to_state_def)
  with False show ?thesis
    using publishes [OF published_state_range [OF s], where t = t and x = x and db = db and i = i and r = m and res = r and rb = "nd_reviewed_by m"]
    by (auto simp: publish_row_def settle_row_def worker_copy_def)
next
  case True
  note pending = this
  show ?thesis
  proof (cases "i = j")
    case False
    have "nd_state n = NRunning" "nd_lease n = Some tok" "after_time t (nd_expires n)" using held by (auto simp: holds_node_def)
    then show ?thesis
      using True False s reviews [OF x n, where t = t and i = i and r = m] rejects [where r = m and t = t and x = x and db = db and i = i and j = j]
      by (auto simp: publish_row_def settle_row_def worker_copy_def)
  next
    case self: True
    with pending have "s = NReviewPending" by (simp add: release_def to_state_def)
    then show ?thesis
      using pending self publishes [where s = NRejected and t = t and x = x and db = db and i = i and r = m and res = r and rb = "Some j"]
      by (cases m) (simp add: publish_row_def settle_row_def worker_copy_def release_def to_state_def)
  qed
qed

lemma publish_step:
  assumes x: "x = CPublish safe e ids j tok r" and n: "map_of (agent_nodes db) j = Some n"
  shows "nodes_step t x db (snd (publish safe (e\<lparr>ce_now := t\<rparr>) ids (worker_copy j tok n) r db))"
proof (cases "published_state safe (snd (worker_copy j tok n)) r")
  case s: (Inr s)
  let ?w = "worker_copy j tok n"
  show ?thesis
  proof (cases "publish_txn t ?w s r db")
    case p: (Inr v)
    then obtain db1 where p: "publish_txn t ?w s r db = Inr ((), db1)" by (cases v) auto
    note txn = publish_txn_Inr [OF p]
    have held: "holds_node t (n\<lparr>nd_lease := Some tok\<rparr>) n" using txn(1) n by (simp add: worker_copy_def row_where_def)
    have row: "node_change t x db i m (publish_row t s r ?w i m)" for i m
      by (rule publish_row_change [OF x n s held])
    have one: "nodes_step t x db db1" by (rule nodes_stepI) (use row in \<open>auto simp: txn(2)\<close>)
    show ?thesis
    proof (cases "s = NReviewPending \<and> is_dict r \<and> json_bytes True False r \<le> 1048576")
      case True
      define db2 where "db2 = snd (ensure_review (e\<lparr>ce_now := t\<rparr>) ids (nd_owner n) j db1)"
      have ensure: "agent_nodes db2 = agent_nodes db1 \<or> appended (fst ids) (Some j) db1 db2
          \<or> agent_nodes db2 = update_key j (\<lambda>n. nd_state n = NReviewPending) (nd_state_update (\<lambda>_. NNeedsInput)) (agent_nodes db1)"
        unfolding db2_def by (rule ensure_review_cases)
      have "nodes_step t x db db2"
        using ensure
      proof (elim disjE)
        assume same: "agent_nodes db2 = agent_nodes db1"
        show ?thesis by (rule nodes_stepI) (use row in \<open>auto simp: same txn(2)\<close>)
      next
        assume "appended (fst ids) (Some j) db1 db2"
        then show ?thesis
          by (intro nodes_stepI) (use row in \<open>auto simp: appended_def map_add_def txn(2) split: option.splits if_splits\<close>)
      next
        assume set: "agent_nodes db2 = update_key j (\<lambda>n. nd_state n = NReviewPending) (nd_state_update (\<lambda>_. NNeedsInput)) (agent_nodes db1)"
        have "node_change t x db j m ((publish_row t s r ?w j m)\<lparr>nd_state := NNeedsInput\<rparr>)" if "nd_state (publish_row t s r ?w j m) = NReviewPending" for m
          using that True publishes [where s = NNeedsInput and t = t and x = x and db = db and i = j and r = m and res = r and rb = "nd_reviewed_by m"]
          by (cases m) (auto simp: publish_row_def settle_row_def worker_copy_def release_def to_state_def split: if_splits)
        with row have "node_change t x db i m (if i = j \<and> nd_state (publish_row t s r ?w i m) = NReviewPending
            then (publish_row t s r ?w i m)\<lparr>nd_state := NNeedsInput\<rparr> else publish_row t s r ?w i m)" for i m by auto
        moreover have "map_of (agent_nodes db2) i = map_option (\<lambda>m. if i = j \<and> nd_state (publish_row t s r ?w i m) = NReviewPending
            then (publish_row t s r ?w i m)\<lparr>nd_state := NNeedsInput\<rparr> else publish_row t s r ?w i m) (map_of (agent_nodes db) i)" for i
          by (cases "i = j"; cases "map_of (agent_nodes db) i") (simp_all add: set tbl txn(2))
        ultimately show ?thesis by (intro nodes_stepI) auto
      qed
      then show ?thesis using True s p by (simp add: publish_def db2_def worker_copy_def)
    qed (use s p one in \<open>auto simp: publish_def nodes_step_same\<close>)
  qed (use s in \<open>simp add: publish_def nodes_step_same\<close>)
qed (simp add: publish_def nodes_step_same)

subsection \<open>Claims\<close>

text \<open>
  The nodes a claim passes over fail when a dependency stopped; the node it takes was queued, had its
  dependencies met and found a free place.
\<close>

definition takeable :: "time \<Rightarrow> coord_db \<Rightarrow> pystr \<times> agent_node \<Rightarrow> bool" where
  "takeable t db n \<longleftrightarrow> claimable t db n \<and> length (dep_nodes db (snd n)) = length (nd_deps (snd n))
     \<and> list_all (dep_met (snd n)) (dep_nodes db (snd n))"

lemma claim_nodes_Inr:
  assumes "claim_nodes t tok ns db = Inr (res, db')" and "distinct (map fst ns)"
    and "\<And>i n. (i, n) \<in> set ns \<Longrightarrow> map_of (agent_nodes db) i = Some n \<and> nd_state n = NQueued"
  shows "\<exists>m. rows_settled t db m \<and> (case res of None \<Rightarrow> agent_nodes db' = agent_nodes m
     | Some (i, n) \<Rightarrow> \<exists>n0. map_of (agent_nodes m) i = Some n0 \<and> nd_state n0 = NQueued \<and> takeable t m (i, n0)
         \<and> (i, n0) \<in> set ns \<and> n = (lease_node t tok n0)\<lparr>nd_updated := nd_updated n0\<rparr>
         \<and> agent_nodes db' = update_key i (\<lambda>_. True) (lease_node t tok) (agent_nodes m))"
  using assms
proof (induction ns arbitrary: db)
  case Nil
  then show ?case by (intro exI [of _ db]) simp
next
  case (Cons x ns)
  obtain i n where x: "x = (i, n)" by (cases x)
  have n: "map_of (agent_nodes db) i = Some n" "nd_state n = NQueued" using Cons.prems(3) x by auto
  have later: "\<exists>m. rows_settled t db m \<and> (case res of None \<Rightarrow> agent_nodes db' = agent_nodes m
     | Some (i, n) \<Rightarrow> \<exists>n0. map_of (agent_nodes m) i = Some n0 \<and> nd_state n0 = NQueued \<and> takeable t m (i, n0)
         \<and> (i, n0) \<in> set (x # ns) \<and> n = (lease_node t tok n0)\<lparr>nd_updated := nd_updated n0\<rparr>
         \<and> agent_nodes db' = update_key i (\<lambda>_. True) (lease_node t tok) (agent_nodes m))"
    if rest: "claim_nodes t tok ns db1 = Inr (res, db')" and db1: "rows_settled t db db1"
      "\<And>j m. j \<noteq> i \<Longrightarrow> map_of (agent_nodes db1) j = map_of (agent_nodes db) j" for db1
  proof -
    have "map_of (agent_nodes db1) j = Some m \<and> nd_state m = NQueued" if "(j, m) \<in> set ns" for j m
      using that Cons.prems(2,3) db1(2) [of j] x by force
    with Cons.IH [OF rest] Cons.prems(2) x obtain m where m: "rows_settled t db1 m" "case res of None \<Rightarrow> agent_nodes db' = agent_nodes m
     | Some (i, n) \<Rightarrow> \<exists>n0. map_of (agent_nodes m) i = Some n0 \<and> nd_state n0 = NQueued \<and> takeable t m (i, n0)
         \<and> (i, n0) \<in> set ns \<and> n = (lease_node t tok n0)\<lparr>nd_updated := nd_updated n0\<rparr>
         \<and> agent_nodes db' = update_key i (\<lambda>_. True) (lease_node t tok) (agent_nodes m)" by auto
    with rows_settled_trans [OF db1(1) m(1)] show ?thesis
      by (intro exI [of _ m]) (auto split: option.splits prod.splits)
  qed
  let ?deps = "dep_nodes db n"
  consider "\<not> claimable t db x" | "claimable t db x" "\<exists>d\<in>set ?deps. nd_state (snd d) \<in> STOPPED"
    | "claimable t db x" "\<not> (\<exists>d\<in>set ?deps. nd_state (snd d) \<in> STOPPED)" "length ?deps \<noteq> length (nd_deps n) \<or> (\<exists>d\<in>set ?deps. \<not> dep_met n d)"
    | "takeable t db x" "\<not> (\<exists>d\<in>set ?deps. nd_state (snd d) \<in> STOPPED)"
    by (auto simp: takeable_def x list_all_iff)
  then show ?case
  proof cases
    case 1
    with Cons.prems(1) have "claim_nodes t tok ns db = Inr (res, db')" by (simp add: Let_def)
    then show ?thesis by (rule later) simp_all
  next
    case 2
    with Cons.prems(1) have rest: "claim_nodes t tok ns (set_node i (\<lambda>_. True) (nd_state_update (\<lambda>_. NFailed)) db) = Inr (res, db')"
      by (simp add: Let_def x)
    show ?thesis
      by (rule later [OF rest], rule rows_settled_set [where i = i and c = "\<lambda>_. True" and f = "nd_state_update (\<lambda>_. NFailed)"])
        (simp_all add: settled_def tbl)
  next
    case 3
    with Cons.prems(1) have "claim_nodes t tok ns db = Inr (res, db')" by (auto simp: Let_def x)
    then show ?thesis by (rule later) simp_all
  next
    case 4
    then have "claimable t db x" "length ?deps = length (nd_deps n)" "\<not> (\<exists>d\<in>set ?deps. \<not> dep_met n d)"
      by (auto simp: takeable_def x list_all_iff)
    with 4 Cons.prems(1) obtain db1 where ev: "log_event t i (nd_owner n) ''claimed'' (JObj []) (set_node i (\<lambda>_. True) (lease_node t tok) db) = Inr db1"
      and res: "res = Some (i, (lease_node t tok n)\<lparr>nd_updated := nd_updated n\<rparr>)" "db' = db1"
      by (simp add: Let_def x)
    show ?thesis
      using n log_event_Inr [OF ev] 4(1) by (intro exI [of _ db]) (simp add: res x)
  qed
qed

text \<open>What a claim does: recovery, then at most one node from the queue is leased.\<close>

lemma claim_node_cases:
  assumes "unique_keys (agent_nodes db)"
  obtains (nothing) "rows_settled t db (snd (claim_node t tok db))" and "\<And>y. fst (claim_node t tok db) \<noteq> Inr (Some y)"
  | (taken) m i n0 where "rows_settled t db m" and "map_of (agent_nodes m) i = Some n0" and "nd_state n0 = NQueued"
      and "takeable t m (i, n0)"
      and "fst (claim_node t tok db) = Inr (Some (i, (lease_node t tok n0)\<lparr>nd_updated := nd_updated n0\<rparr>))"
      and "agent_nodes (snd (claim_node t tok db)) = update_key i (\<lambda>_. True) (lease_node t tok) (agent_nodes m)"
proof -
  obtain rs db1 where rec: "recover_graph t db = (rs, db1)" by (cases "recover_graph t db")
  have db1: "rows_settled t db db1" using recover_graph_settled [OF assms, of t] rec by simp
  then have u: "unique_keys (agent_nodes db1)" using assms by (simp add: rows_settled_def unique_keys_def)
  let ?rows = "take 128 (asc (\<lambda>(_, n). nd_updated n) (select_where (\<lambda>_ n. nd_state n = NQueued \<and> is_legacy db1 n) (agent_nodes db1)))"
  have rows: "set ?rows \<subseteq> set (select_where (\<lambda>_ n. nd_state n = NQueued \<and> is_legacy db1 n) (agent_nodes db1))"
    using set_take_subset by (fastforce simp: asc_def)
  have d: "distinct (map fst ?rows)"
  proof -
    have "distinct (map fst (asc (\<lambda>(_, n). nd_updated n) (select_where (\<lambda>_ n. nd_state n = NQueued \<and> is_legacy db1 n) (agent_nodes db1))))"
      using distinct_select [OF u] unfolding asc_def distinct_map distinct_sort set_sort .
    then show ?thesis unfolding take_map [symmetric] by (rule distinct_take)
  qed
  have q: "map_of (agent_nodes db1) i = Some n \<and> nd_state n = NQueued" if "(i, n) \<in> set ?rows" for i n
    using rows that map_of_select [OF u, of i n] by (auto simp: select_where_def)
  show thesis
  proof (cases rs)
    case (Inl z)
    show ?thesis by (rule nothing) (simp_all add: claim_node_def rec db1 Inl)
  next
    case ok: (Inr z)
    show ?thesis
    proof (cases "claim_nodes t tok ?rows db1")
      case (Inl y)
      show ?thesis by (rule nothing) (simp_all add: claim_node_def ok rec db1 Inl)
    next
      case (Inr v)
      then obtain res db2 where c: "claim_nodes t tok ?rows db1 = Inr (res, db2)" by (cases v) auto
      with ok rec have step: "claim_node t tok db = (Inr res, db2)" by (simp add: claim_node_def)
      from claim_nodes_Inr [OF c d q] obtain m where m: "rows_settled t db1 m" and r: "case res of None \<Rightarrow> agent_nodes db2 = agent_nodes m
        | Some (i, n) \<Rightarrow> \<exists>n0. map_of (agent_nodes m) i = Some n0 \<and> nd_state n0 = NQueued \<and> takeable t m (i, n0)
         \<and> (i, n0) \<in> set ?rows \<and> n = (lease_node t tok n0)\<lparr>nd_updated := nd_updated n0\<rparr>
         \<and> agent_nodes db2 = update_key i (\<lambda>_. True) (lease_node t tok) (agent_nodes m)" by blast
      note m' = rows_settled_trans [OF db1 m]
      show ?thesis
      proof (cases res)
        case None
        with r m' have "rows_settled t db db2" by (simp add: rows_settled_def)
        show ?thesis by (rule nothing) (simp_all add: step None \<open>rows_settled t db db2\<close>)
      next
        case (Some y)
        with r obtain i n0 where y: "map_of (agent_nodes m) i = Some n0" "nd_state n0 = NQueued" "takeable t m (i, n0)"
          "res = Some (i, (lease_node t tok n0)\<lparr>nd_updated := nd_updated n0\<rparr>)"
          "agent_nodes db2 = update_key i (\<lambda>_. True) (lease_node t tok) (agent_nodes m)" by (cases y) auto
        show ?thesis by (rule taken [OF m' y(1-3)]) (simp_all add: step y(4,5))
      qed
    qed
  qed
qed

lemma claim_node_step:
  assumes "unique_keys (agent_nodes db)"
  shows "nodes_step t (CClaim tok) db (snd (claim_node t tok db))"
  using assms
proof (cases rule: claim_node_cases [where t = t and tok = tok])
  case nothing
  then show ?thesis by (simp add: nodes_step_settled)
next
  case (taken m i n0)
  show ?thesis
  proof (rule nodes_stepI)
    fix j r assume "map_of (agent_nodes db) j = Some r"
    from rows_settled_old [OF taken(1) this] obtain r1 where r1: "map_of (agent_nodes m) j = Some r1" "settled t r r1" by blast
    then show "\<exists>r'. map_of (agent_nodes (snd (claim_node t tok db))) j = Some r' \<and> node_change t (CClaim tok) db j r r'"
      using taken(2,3) settles [OF r1(2)] claims [OF refl r1(2)] by (auto simp: taken(6) tbl)
  next
    fix j r' assume n: "map_of (agent_nodes db) j = None" and "map_of (agent_nodes (snd (claim_node t tok db))) j = Some r'"
    with rows_settled_none [OF taken(1) n] show "node_new r'" by (simp add: taken(6) tbl split: if_splits)
  qed
qed

subsection \<open>Every operation\<close>

lemma begin_merge_step: "nodes_step t (CBeginMerge f tok archive ow i) db (snd (begin_merge t f tok archive ow i db))"
  unfolding begin_merge_def
proof (rule txn_preserves [where P = "nodes_step t (CBeginMerge f tok archive ow i) db"])
  fix a db'
  assume "bind_result (f db) (\<lambda>_.
     if \<not> row_where i (\<lambda>n. nd_state n = NReviewed) (agent_nodes db)
     then Inl (ValueError ''Merge already owned or result changed'')
     else bind_result (log_event t i ow ''merge_started'' (JObj [(''archive'', JStr archive)])
         (set_node i (\<lambda>_. True) (\<lambda>n. n\<lparr>nd_state := NMerging, nd_lease := Some tok, nd_expires := Some (t + 90)\<rparr>) db))
       (\<lambda>db'. Inr ((), db'))) = Inr (a, db')"
  then have "f db = Inr ()" and row: "row_where i (\<lambda>n. nd_state n = NReviewed) (agent_nodes db)"
    and set: "agent_nodes db' = update_key i (\<lambda>_. True) (\<lambda>n. n\<lparr>nd_state := NMerging, nd_lease := Some tok, nd_expires := Some (t + 90)\<rparr>) (agent_nodes db)"
    by (auto dest!: log_event_Inr split: if_splits)
  then show "nodes_step t (CBeginMerge f tok archive ow i) db db'"
    by (intro nodes_step_set [OF set]) (auto intro!: begins simp: row_where_iff)
qed (rule nodes_step_same, rule refl)

lemma commit_merge_step: "nodes_step t (CCommitMerge f tok r ev ow i) db (snd (commit_merge t f tok r ev ow i db))"
  unfolding commit_merge_def
proof (rule txn_preserves [where P = "nodes_step t (CCommitMerge f tok r ev ow i) db"])
  fix a db'
  assume "bind_result (f db) (\<lambda>_.
     if \<not> row_where i (\<lambda>n. nd_state n = NMerging \<and> nd_lease n = Some tok) (agent_nodes db)
     then Inl (PyRuntimeError ''Merge lease lost'')
     else bind_result (log_event t i ow ''merged'' ev
         (set_node i (\<lambda>_. True) (\<lambda>n. release ((to_state t NMerged n)\<lparr>nd_result := Some (jset r ''merge'' ev)\<rparr>)) db))
       (\<lambda>db'. Inr ((), db'))) = Inr (a, db')"
  then have "f db = Inr ()" and row: "row_where i (\<lambda>n. nd_state n = NMerging \<and> nd_lease n = Some tok) (agent_nodes db)"
    and set: "agent_nodes db' = update_key i (\<lambda>_. True) (\<lambda>n. release ((to_state t NMerged n)\<lparr>nd_result := Some (jset r ''merge'' ev)\<rparr>)) (agent_nodes db)"
    by (auto dest!: log_event_Inr split: if_splits)
  then show "nodes_step t (CCommitMerge f tok r ev ow i) db db'"
    by (intro nodes_step_set [OF set]) (auto intro!: commits simp: row_where_iff)
qed (rule nodes_step_same, rule refl)

lemma abandon_node_step: "nodes_step t x db (snd (abandon_node t inspection ow i db))"
proof (cases "agent_nodes (snd (abandon_node t inspection ow i db)) = agent_nodes db")
  case False
  then obtain n where "map_of (agent_nodes db) i = Some n"
    and "agent_nodes (snd (abandon_node t inspection ow i db)) = update_key i (\<lambda>_. True)
      (\<lambda>m. release ((to_state t NConflict m)\<lparr>nd_payload := jset (nd_payload n) ''human_disposition'' (JStr ''abandoned after inspection'')\<rparr>)) (agent_nodes db)"
    by (auto simp: abandon_node_def txn_snd Let_def dest!: log_event_Inr split: if_splits option.splits sum.splits)
  from this(2) show ?thesis by (rule nodes_step_set) (rule abandons)
qed (rule nodes_step_same)

lemma renew_node_step:
  assumes "map_of (agent_nodes db) i = Some n"
  shows "nodes_step t (CRenew i tok) db (snd (renew_node t (worker_copy i tok n) db))"
  by (rule nodes_step_set [where i = i and c = "holds_node t (snd (worker_copy i tok n))" and f = "\<lambda>n. n\<lparr>nd_expires := Some (t + 90)\<rparr>"])
    (auto simp: renew_node_def worker_copy_def holds_node_def intro!: renews)

lemma coord_step_nodes:
  assumes u: "unique_keys (agent_nodes db)"
  shows "nodes_step t x db (coord_step t x db)"
proof (cases x)
  case (CPublish safe e ids i tok r)
  show ?thesis
  proof (cases "map_of (agent_nodes db) i")
    case (Some n)
    show ?thesis using publish_step [OF CPublish Some] by (simp add: CPublish with_node_def Some)
  qed (simp add: CPublish with_node_def nodes_step_same)
next
  case (CRenew i tok)
  show ?thesis
  proof (cases "map_of (agent_nodes db) i")
    case (Some n)
    show ?thesis using renew_node_step [OF Some] by (simp add: CRenew with_node_def Some)
  qed (simp add: CRenew with_node_def nodes_step_same)
next
  case (CFail i tok s err)
  then show ?thesis using fail_node_step by (auto simp: with_node_def nodes_step_same split: option.splits)
next
  case (CConflict i)
  show ?thesis unfolding CConflict coord_step.simps mark_conflict_def
    by (rule nodes_step_set [OF set_node_frames(1)]) (auto intro!: settles simp: settled_def)
next
  case (CAbortMerge tok i)
  show ?thesis unfolding CAbortMerge coord_step.simps abort_merge_def
    by (rule nodes_step_set [OF set_node_frames(1)]) (auto intro!: settles simp: settled_def)
next
  case (CRequeue i)
  show ?thesis unfolding CRequeue coord_step.simps requeue_node_def
    by (rule nodes_step_set [OF set_node_frames(1)]) (auto intro!: requeues)
qed (simp_all add: submit_node_step ensure_review_step nodes_step_settled recover_graph_settled u claim_node_step
    cancel_tree_settled begin_merge_step commit_merge_step abandon_node_step nodes_step_same)

section \<open>Identifiers and reviewers are unique\<close>

definition graph_ok :: "coord_db \<Rightarrow> bool" where
  "graph_ok db \<longleftrightarrow> unique_keys (agent_nodes db)
     \<and> (\<forall>i j n m. map_of (agent_nodes db) i = Some n \<longrightarrow> map_of (agent_nodes db) j = Some m \<longrightarrow>
          nd_review_of n = nd_review_of m \<longrightarrow> nd_review_of n \<noteq> None \<longrightarrow> i = j)"

lemma reviewer_of_None:
  assumes "unique_keys (agent_nodes db)"
  shows "reviewer_of k db = None \<longleftrightarrow> (\<forall>j m. map_of (agent_nodes db) j = Some m \<longrightarrow> nd_review_of m \<noteq> Some k)"
proof -
  have "reviewer_of k db = None \<longleftrightarrow> select_where (\<lambda>_ n. nd_review_of n = Some k) (agent_nodes db) = []"
    by (simp add: reviewer_of_def split: list.splits prod.splits)
  also have "\<dots> \<longleftrightarrow> (\<forall>(j, m) \<in> set (agent_nodes db). nd_review_of m \<noteq> Some k)"
    by (auto simp: select_where_def filter_empty_conv)
  also have "\<dots> \<longleftrightarrow> (\<forall>j m. map_of (agent_nodes db) j = Some m \<longrightarrow> nd_review_of m \<noteq> Some k)"
    using assms by (auto simp: unique_keys_def)
  finally show ?thesis .
qed

lemma reviewer_of_None':
  "unique_keys (agent_nodes db) \<Longrightarrow>
     reviewer_of k db = None \<longleftrightarrow> (\<forall>j. map_option nd_review_of (map_of (agent_nodes db) j) \<noteq> Some (Some k))"
  by (auto simp: reviewer_of_None)

definition grown :: "coord_db \<Rightarrow> coord_db \<Rightarrow> bool" where
  "grown db db' \<longleftrightarrow> map fst (agent_nodes db') = map fst (agent_nodes db)
     \<or> (\<exists>i n. map fst (agent_nodes db') = map fst (agent_nodes db) @ [i] \<and> map_of (agent_nodes db) i = None
          \<and> map_of (agent_nodes db') i = Some n \<and> Option.bind (nd_review_of n) (\<lambda>k. reviewer_of k db) = None)"

lemma grown_keys: "map fst (agent_nodes db') = map fst (agent_nodes db) \<Longrightarrow> grown db db'"
  by (simp add: grown_def)

lemma grown_appended: "appended i review db db' \<Longrightarrow> grown db db'"
  unfolding grown_def appended_def by (auto simp: map_add_def)

lemma settled_review: "settled t r r' \<Longrightarrow> nd_review_of r' = nd_review_of r"
  by (cases r; cases r') (simp add: settled_def)

lemma node_change_review: "node_change t x db i r r' \<Longrightarrow> nd_review_of r' = nd_review_of r"
  by (induction rule: node_change.induct) (auto simp: release_def to_state_def lease_node_def dest: settled_review)

lemma graph_ok_step':
  assumes ok: "graph_ok db" and n: "nodes_step t x db db'" and g: "grown db db'"
  shows "graph_ok db'"
proof -
  have u: "unique_keys (agent_nodes db)" using ok by (simp add: graph_ok_def)
  have u': "unique_keys (agent_nodes db')"
    using g u by (auto simp: grown_def unique_keys_def map_of_eq_None_iff)
  have old: "\<exists>m. map_of (agent_nodes db) i = Some m \<and> nd_review_of m = nd_review_of n"
    if "map_of (agent_nodes db') i = Some n" "map_of (agent_nodes db) i \<noteq> None" for i n
    using that nodes_step_old [OF assms(2), of i] node_change_review by fastforce
  have "i = j" if a: "map_of (agent_nodes db') i = Some n" "map_of (agent_nodes db') j = Some m"
    "nd_review_of n = nd_review_of m" "nd_review_of n = Some k" for i j n m k
  proof (cases "map_of (agent_nodes db) i = None \<or> map_of (agent_nodes db) j = None")
    case False
    then show ?thesis using old a ok unfolding graph_ok_def by (metis option.distinct(1))
  next
    case True
    have keys: "(map_of (agent_nodes db') l = None) = (l \<notin> set (map fst (agent_nodes db')))"
      "(map_of (agent_nodes db) l = None) = (l \<notin> set (map fst (agent_nodes db)))" for l
      by (simp_all add: map_of_eq_None_iff)
    from True a have "map fst (agent_nodes db') \<noteq> map fst (agent_nodes db)" using keys by (metis option.distinct(1))
    then obtain l p where l: "map fst (agent_nodes db') = map fst (agent_nodes db) @ [l]" "map_of (agent_nodes db) l = None"
      "map_of (agent_nodes db') l = Some p" "Option.bind (nd_review_of p) (\<lambda>k. reviewer_of k db) = None"
      using g unfolding grown_def by blast
    have only: "map_of (agent_nodes db) h = None \<Longrightarrow> map_of (agent_nodes db') h = Some q \<Longrightarrow> h = l" for h q
      using keys(1) [of h] keys(2) [of h] l(1) by auto
    have none: "map_of (agent_nodes db) h = Some q \<Longrightarrow> nd_review_of p = Some k \<Longrightarrow> nd_review_of q \<noteq> Some k" for h q
      using l(4) reviewer_of_None [OF u, of k] by auto
    show ?thesis
    proof (rule ccontr)
      assume ne: "i \<noteq> j"
      from True consider "i = l" "map_of (agent_nodes db) j \<noteq> None" | "j = l" "map_of (agent_nodes db) i \<noteq> None"
        using only a(1,2) ne by blast
      then show False using a l(3) old none by cases (metis option.inject)+
    qed
  qed
  then show ?thesis using u' unfolding graph_ok_def by (metis not_Some_eq)
qed

lemma insert_node_grown: "review = None \<or> persona = ''reviewer'' \<Longrightarrow> grown db (snd (insert_node e ids ow rt par persona aim deps p b review db))"
  using insert_node_appended [of review persona e ids ow rt par aim deps p b db] by (auto intro: grown_keys grown_appended)

lemma publish_grown:
  assumes u: "unique_keys (agent_nodes db)" and n: "map_of (agent_nodes db) j = Some n"
  shows "grown db (snd (publish safe (e\<lparr>ce_now := t\<rparr>) ids (worker_copy j tok n) r db))"
proof (cases "published_state safe (snd (worker_copy j tok n)) r")
  case s: (Inr s)
  let ?w = "worker_copy j tok n"
  show ?thesis
  proof (cases "publish_txn t ?w s r db")
    case p: (Inr v)
    then obtain db1 where p: "publish_txn t ?w s r db = Inr ((), db1)" by (cases v) auto
    note txn = publish_txn_Inr [OF p]
    have u1: "unique_keys (agent_nodes db1)" using u txn(3) by (simp add: unique_keys_def)
    have held: "holds_node t (n\<lparr>nd_lease := Some tok\<rparr>) n" using txn(1) n by (simp add: worker_copy_def row_where_def)
    have "nd_review_of (publish_row t s r ?w i m) = nd_review_of m" for i m
      using node_change_review [OF publish_row_change [OF refl n s held, of e ids i m]] .
    then have reviewers: "reviewer_of k db1 = None \<longleftrightarrow> reviewer_of k db = None" for k
    proof -
      have "map_option nd_review_of (map_of (agent_nodes db1) i) = map_option nd_review_of (map_of (agent_nodes db) i)" for i
        using \<open>\<And>i m. nd_review_of (publish_row t s r ?w i m) = nd_review_of m\<close> by (cases "map_of (agent_nodes db) i") (simp_all add: txn(2))
      then show ?thesis unfolding reviewer_of_None' [OF u] reviewer_of_None' [OF u1] by simp
    qed
    have missing: "map_of (agent_nodes db1) i = None \<longleftrightarrow> map_of (agent_nodes db) i = None" for i by (simp add: txn(2))
    have "grown db (snd (ensure_review (e\<lparr>ce_now := t\<rparr>) ids (nd_owner n) j db1))" (is "grown db ?db2")
      using ensure_review_cases [of "e\<lparr>ce_now := t\<rparr>" ids "nd_owner n" j db1]
    proof (elim disjE)
      assume a: "appended (fst ids) (Some j) db1 ?db2"
      then obtain q where q: "map_of (agent_nodes db1) (fst ids) = None" "reviewer_of j db1 = None"
        "agent_nodes ?db2 = agent_nodes db1 @ [(fst ids, q)]" "nd_review_of q = Some j"
        by (auto simp: appended_def)
      then have "map_of (agent_nodes db) (fst ids) = None" "reviewer_of j db = None" using missing reviewers by simp_all
      with q txn(3) show ?thesis
        unfolding grown_def by (intro disjI2 exI [of _ "fst ids"] exI [of _ q]) (simp add: map_add_def)
    qed (auto intro!: grown_keys simp: txn(3))
    then show ?thesis using s p txn(3) by (auto simp: publish_def worker_copy_def intro: grown_keys)
  qed (use s in \<open>simp add: publish_def grown_keys\<close>)
qed (simp add: publish_def grown_keys)

lemma txn_keys:
  "(\<And>a db'. body = Inr (a, db') \<Longrightarrow> map fst (agent_nodes db') = map fst (agent_nodes db)) \<Longrightarrow>
     map fst (agent_nodes (snd (txn db body))) = map fst (agent_nodes db)"
  by (simp add: txn_snd split: sum.splits prod.splits)

lemma coord_step_grown:
  assumes u: "unique_keys (agent_nodes db)"
  shows "grown db (coord_step t x db)"
proof (cases x)
  case (CSubmit c e ids persona aim deps previous)
  then show ?thesis
    by (auto simp: submit_node_def intro: grown_keys insert_node_grown split: sum.splits)
next
  case (CEnsure e ids ow i)
  then show ?thesis
    using ensure_review_cases [of "e\<lparr>ce_now := t\<rparr>" ids ow i db] by (auto intro: grown_keys grown_appended)
next
  case (CPublish safe e ids i tok r)
  then show ?thesis using publish_grown [OF u] by (auto simp: with_node_def grown_keys split: option.splits)
next
  case CRecover
  then show ?thesis using recover_graph_settled [OF u] by (simp add: grown_keys rows_settled_def)
next
  case (CClaim tok)
  from u show ?thesis unfolding CClaim coord_step.simps
    by (cases rule: claim_node_cases [where t = t and tok = tok]) (auto intro!: grown_keys simp: rows_settled_def)
next
  case (CRenew i tok)
  then show ?thesis by (auto simp: with_node_def renew_node_def intro!: grown_keys split: option.splits)
next
  case (CFail i tok s err)
  have "map fst (agent_nodes (snd (fail_node t w s err db))) = map fst (agent_nodes db)" for w
    unfolding fail_node_def
    by (rule txn_keys) (auto simp: fail_txn_def settle_review_keys dest!: log_event_Inr split: option.splits if_splits)
  then show ?thesis by (auto simp: CFail with_node_def worker_copy_def intro!: grown_keys split: option.splits)
next
  case (CCancel ow i)
  then show ?thesis using cancel_tree_settled by (simp add: grown_keys rows_settled_def)
next
  case (CBeginMerge f tok archive ow i)
  then show ?thesis by (auto simp: begin_merge_def dest!: log_event_Inr intro!: grown_keys txn_keys split: if_splits)
next
  case (CCommitMerge f tok r ev ow i)
  then show ?thesis by (auto simp: commit_merge_def dest!: log_event_Inr intro!: grown_keys txn_keys split: if_splits)
next
  case (CAbandon inspection ow i)
  then show ?thesis
    by (auto simp: abandon_node_def Let_def dest!: log_event_Inr intro!: grown_keys txn_keys split: if_splits option.splits)
qed (simp_all add: grown_keys mark_conflict_def abort_merge_def requeue_node_def)

lemma graph_ok_step: "graph_ok db \<Longrightarrow> graph_ok (coord_step t x db)"
  by (rule graph_ok_step' [OF _ coord_step_nodes coord_step_grown]) (simp_all add: graph_ok_def)

definition empty_coord :: coord_db where
  "empty_coord = \<lparr>tasks = [], task_steps = [], task_workspaces = [], conversation_resets = [],
     wl_sessions = None, wl_session_owners = [], execution_bindings = Some [], erased_tasks = None,
     submissions = [], cancellations = None, operation_ledger = None, finalizations = None,
     task_budgets = [], budget_calls = [], budget_rates = [], model_slots = [],
     host_token = ''h'', protocols = [], budget_contracts = [],
     agent_nodes = [], agent_events = [], root_backends = [], agent_graphs = [], agent_runs = []\<rparr>"

lemma graph_ok_empty: "graph_ok empty_coord"
  by (simp add: graph_ok_def empty_coord_def unique_keys_def)

lemma graph_ok_run: "graph_ok db \<Longrightarrow> graph_ok (run_ops coord_step tr db)"
  by (rule run_ops_invariant [where I = graph_ok]) (rule graph_ok_step)

end
