(* ===== verification/Coordinator_Properties.thy ===== *)
theory Coordinator_Properties
  imports Coordinator_Machine
begin

text \<open>
  What the collaboration graph promises of its nodes: a result is merged only after an independent review,
  one reviewer works on a result, and a claim respects dependencies and limits.  The sample graphs of the
  witnesses stand at the end of their sections.
\<close>

section \<open>The first step that makes a condition true\<close>

lemma run_ops_flip_ex:
  "\<not> P s \<Longrightarrow> P (run_ops step tr s) \<Longrightarrow>
     \<exists>tr1 t x tr2. tr = tr1 @ (t, x) # tr2 \<and> \<not> P (run_ops step tr1 s) \<and> P (step t x (run_ops step tr1 s))"
proof (induction tr arbitrary: s)
  case (Cons y tr)
  obtain t x where y: "y = (t, x)" by (cases y)
  show ?case
  proof (cases "P (step t x s)")
    case True
    then show ?thesis using Cons.prems(1) y by (intro exI [of _ "[]"]) simp
  next
    case False
    from Cons.IH [OF False] Cons.prems(2) y obtain tr1 u z tr2 where "tr = tr1 @ (u, z) # tr2"
      "\<not> P (run_ops step tr1 (step t x s))" "P (step u z (run_ops step tr1 (step t x s)))" by auto
    then show ?thesis using y by (intro exI [of _ "(t, x) # tr1"]) auto
  qed
qed simp

lemma run_ops_flip:
  assumes "\<not> P s" and "P (run_ops step tr s)"
  obtains tr1 t x tr2 where "tr = tr1 @ (t, x) # tr2" and "\<not> P (run_ops step tr1 s)"
    and "P (step t x (run_ops step tr1 s))"
  using run_ops_flip_ex [of P, OF assms] by blast

section \<open>Reviewers\<close>

definition reviewers_ok :: "coord_db \<Rightarrow> bool" where
  "reviewers_ok db \<longleftrightarrow> (\<forall>i n. map_of (agent_nodes db) i = Some n \<longrightarrow> nd_review_of n = None \<or> nd_persona n = ''reviewer'')"

lemma settled_persona: "settled t r r' \<Longrightarrow> nd_persona r' = nd_persona r"
  by (cases r; cases r') (simp add: settled_def)

lemma node_change_persona: "node_change t x db i r r' \<Longrightarrow> nd_persona r' = nd_persona r"
  by (induction rule: node_change.induct) (auto simp: release_def to_state_def lease_node_def dest: settled_persona)

lemma graph_ok_unique: "graph_ok db \<Longrightarrow> unique_keys (agent_nodes db)"
  by (simp add: graph_ok_def)

lemma reviewers_ok_step:
  assumes ok: "reviewers_ok db" and u: "unique_keys (agent_nodes db)"
  shows "reviewers_ok (coord_step t x db)"
  unfolding reviewers_ok_def
proof (intro allI impI)
  fix i n assume n: "map_of (agent_nodes (coord_step t x db)) i = Some n"
  note step = coord_step_nodes [OF u, of t x]
  show "nd_review_of n = None \<or> nd_persona n = ''reviewer''"
  proof (cases "map_of (agent_nodes db) i")
    case None
    then show ?thesis using nodes_step_new [OF step None n] by (simp add: node_new_def)
  next
    case (Some r)
    with nodes_step_old [OF step Some] n have "node_change t x db i r n" by simp
    then have "nd_review_of n = nd_review_of r" "nd_persona n = nd_persona r"
      by (rule node_change_review, rule node_change_persona)
    with ok Some show ?thesis by (simp add: reviewers_ok_def)
  qed
qed

lemma reviewers_ok_run: "reviewers_ok db \<Longrightarrow> graph_ok db \<Longrightarrow> reviewers_ok (run_ops coord_step tr db)"
proof -
  assume "reviewers_ok db" "graph_ok db"
  then have "(\<lambda>d. graph_ok d \<and> reviewers_ok d) (run_ops coord_step tr db)"
    by (intro run_ops_invariant [where I = "\<lambda>d. graph_ok d \<and> reviewers_ok d"])
      (simp_all add: graph_ok_step reviewers_ok_step graph_ok_unique)
  then show ?thesis by simp
qed

section \<open>A merge follows a review\<close>

definition node_is :: "pystr \<Rightarrow> (agent_node \<Rightarrow> bool) \<Rightarrow> coord_db \<Rightarrow> bool" where
  "node_is i p db \<longleftrightarrow> (case map_of (agent_nodes db) i of None \<Rightarrow> False | Some n \<Rightarrow> p n)"

lemma node_is_flip:
  assumes "\<not> node_is i p db" and "node_is i p (run_ops coord_step tr db)" and "graph_ok db"
    and "\<And>n. node_new n \<Longrightarrow> \<not> p n"
  obtains tr1 t x tr2 r r' where "tr = tr1 @ (t, x) # tr2" and "map_of (agent_nodes (run_ops coord_step tr1 db)) i = Some r"
    and "\<not> p r" and "p r'" and "node_change t x (run_ops coord_step tr1 db) i r r'"
proof -
  from run_ops_flip [OF assms(1,2)] obtain tr1 t x tr2 where tr: "tr = tr1 @ (t, x) # tr2"
    and before: "\<not> node_is i p (run_ops coord_step tr1 db)" and after: "node_is i p (coord_step t x (run_ops coord_step tr1 db))"
    by blast
  let ?d = "run_ops coord_step tr1 db"
  have "nodes_step t x ?d (coord_step t x ?d)"
    by (rule coord_step_nodes [OF graph_ok_unique [OF graph_ok_run [OF assms(3)]]])
  note new = nodes_step_new [OF this] and old = nodes_step_old [OF this]
  from after obtain r' where r': "map_of (agent_nodes (coord_step t x ?d)) i = Some r'" "p r'"
    by (auto simp: node_is_def split: option.splits)
  from new [OF _ r'(1)] assms(4) r'(2) obtain r where r: "map_of (agent_nodes ?d) i = Some r"
    by (cases "map_of (agent_nodes ?d) i") auto
  with old [OF r] r' have "node_change t x ?d i r r'" by simp
  moreover have "\<not> p r" using before r by (simp add: node_is_def)
  ultimately show thesis using that tr r r'(2) by blast
qed

lemma change_to_merged:
  assumes "node_change t x db i r r'" and "nd_state r' = NMerged" and "nd_state r \<noteq> NMerged"
  obtains f tok res ev ow where "x = CCommitMerge f tok res ev ow i" and "f db = Inr ()"
    and "nd_state r = NMerging" and "nd_lease r = Some tok"
  using assms by cases (auto simp: settled_def release_def to_state_def lease_node_def STOPPED_def)

lemma settled_lease: "settled t r r' \<Longrightarrow> nd_lease r' = nd_lease r"
  by (cases r; cases r') (simp add: settled_def)

lemma change_to_merging:
  assumes "node_change t x db i r r'" and "nd_state r' = NMerging" and "nd_lease r' = Some tok"
    and "\<not> (nd_state r = NMerging \<and> nd_lease r = Some tok)"
  obtains f archive ow where "x = CBeginMerge f tok archive ow i" and "f db = Inr ()" and "nd_state r = NReviewed"
  using assms(1)
proof cases
  case settles
  then have "nd_state r' = nd_state r \<or> nd_state r' \<notin> {NRunning, NReviewed, NMerging, NMerged}" by (simp add: settled_def)
  moreover have "nd_lease r' = nd_lease r" using settles by (rule settled_lease)
  ultimately show ?thesis using assms(2-4) by auto
next
  case (begins f tok' archive ow)
  moreover from begins(1) assms(3) have "tok' = tok" by simp
  ultimately show ?thesis using that [of f archive ow] by simp
qed (use assms(2-4) in \<open>auto simp: release_def to_state_def lease_node_def STOPPED_def\<close>)

lemma change_to_reviewed:
  assumes "node_change t x db i r r'" and "nd_state r' = NReviewed" and "nd_state r \<noteq> NReviewed"
  obtains safe e ids j tok res n where "x = CPublish safe e ids j tok res" and "map_of (agent_nodes db) j = Some n"
    and "nd_review_of n = Some i" and "nd_state n = NRunning" and "nd_lease n = Some tok" and "after_time t (nd_expires n)"
    and "published_state safe (snd (worker_copy j tok n)) res = Inr NCompleted" and "nd_state r = NReviewPending"
  using assms(1)
proof cases
  case settles
  then have "nd_state r' = nd_state r \<or> nd_state r' \<notin> {NRunning, NReviewed, NMerging, NMerged}" by (simp add: settled_def)
  with assms(2,3) show ?thesis by auto
next
  case (reviews safe e ids j tok res n)
  then show ?thesis by (intro that)
qed (use assms(2,3) in \<open>auto simp: release_def to_state_def lease_node_def STOPPED_def\<close>)

lemma reviewer_completed:
  "published_state safe w res = Inr NCompleted \<Longrightarrow> nd_persona w = ''reviewer'' \<Longrightarrow>
     is_verified safe w res \<and> approving res = Inr True"
  by (auto simp: published_state_def Let_def split: if_splits)

text \<open>The review that lets a result be merged: a live reviewer of it published an approving, verified result.\<close>

definition approves :: "coord_db \<Rightarrow> time \<Rightarrow> (pystr \<Rightarrow> bool) \<Rightarrow> pystr \<Rightarrow> pystr \<Rightarrow> token \<Rightarrow> json \<Rightarrow> bool" where
  "approves db t safe i j tok res \<longleftrightarrow> (case map_of (agent_nodes db) j of None \<Rightarrow> False
     | Some n \<Rightarrow> nd_persona n = ''reviewer'' \<and> nd_review_of n = Some i \<and> holds_node t (n\<lparr>nd_lease := Some tok\<rparr>) n
         \<and> is_verified safe n res \<and> approving res = Inr True)"

lemma is_verified_copy [simp]: "is_verified safe (n\<lparr>nd_lease := l\<rparr>) res = is_verified safe n res"
  by (simp add: is_verified_def)

lemma merged_from:
  assumes "graph_ok db" and "\<not> node_is i (\<lambda>n. nd_state n = NMerged) db"
    and "node_is i (\<lambda>n. nd_state n = NMerged) (run_ops coord_step tr db)"
  obtains tr1 t f tok r ev ow tr2 where "tr = tr1 @ (t, CCommitMerge f tok r ev ow i) # tr2"
    and "f (run_ops coord_step tr1 db) = Inr ()"
    and "node_is i (\<lambda>n. nd_state n = NMerging \<and> nd_lease n = Some tok) (run_ops coord_step tr1 db)"
proof (rule node_is_flip [OF assms(2,3,1)])
  fix tr1 t x tr2 r r'
  assume tr: "tr = tr1 @ (t, x) # tr2" and r: "map_of (agent_nodes (run_ops coord_step tr1 db)) i = Some r"
    and s: "nd_state r \<noteq> NMerged" "nd_state r' = NMerged" "node_change t x (run_ops coord_step tr1 db) i r r'"
  from change_to_merged [OF s(3,2,1)] obtain f tok res ev ow where x: "x = CCommitMerge f tok res ev ow i"
    "f (run_ops coord_step tr1 db) = Inr ()" "nd_state r = NMerging" "nd_lease r = Some tok" .
  show thesis using that [of tr1 t f tok res ev ow tr2] tr r x by (simp add: node_is_def)
qed (simp add: node_new_def)

lemma merging_from:
  assumes "graph_ok db" and "\<not> node_is i (\<lambda>n. nd_state n = NMerging \<and> nd_lease n = Some tok) db"
    and "node_is i (\<lambda>n. nd_state n = NMerging \<and> nd_lease n = Some tok) (run_ops coord_step tr db)"
  obtains tr1 t f archive ow tr2 where "tr = tr1 @ (t, CBeginMerge f tok archive ow i) # tr2"
    and "f (run_ops coord_step tr1 db) = Inr ()" and "node_is i (\<lambda>n. nd_state n = NReviewed) (run_ops coord_step tr1 db)"
proof (rule node_is_flip [OF assms(2,3,1)])
  fix tr1 t x tr2 r r'
  assume tr: "tr = tr1 @ (t, x) # tr2" and r: "map_of (agent_nodes (run_ops coord_step tr1 db)) i = Some r"
    and s: "\<not> (nd_state r = NMerging \<and> nd_lease r = Some tok)" "nd_state r' = NMerging \<and> nd_lease r' = Some tok"
      "node_change t x (run_ops coord_step tr1 db) i r r'"
  from change_to_merging [OF s(3) conjunct1 [OF s(2)] conjunct2 [OF s(2)] s(1)] obtain f archive ow where
    x: "x = CBeginMerge f tok archive ow i" "f (run_ops coord_step tr1 db) = Inr ()" "nd_state r = NReviewed" .
  show thesis using that [of tr1 t f archive ow tr2] tr r x by (simp add: node_is_def)
qed (simp add: node_new_def)

lemma reviewed_from:
  assumes "graph_ok db" and "reviewers_ok db" and "\<not> node_is i (\<lambda>n. nd_state n = NReviewed) db"
    and "node_is i (\<lambda>n. nd_state n = NReviewed) (run_ops coord_step tr db)"
  obtains tr1 t safe e ids j tok res tr2 where "tr = tr1 @ (t, CPublish safe e ids j tok res) # tr2"
    and "approves (run_ops coord_step tr1 db) t safe i j tok res"
proof (rule node_is_flip [OF assms(3,4,1)])
  fix tr1 t x tr2 r r'
  assume tr: "tr = tr1 @ (t, x) # tr2" and s: "nd_state r \<noteq> NReviewed" "nd_state r' = NReviewed"
      "node_change t x (run_ops coord_step tr1 db) i r r'"
  from change_to_reviewed [OF s(3,2,1)] obtain safe e ids j tok res n where x: "x = CPublish safe e ids j tok res"
    and n: "map_of (agent_nodes (run_ops coord_step tr1 db)) j = Some n" "nd_review_of n = Some i" "nd_state n = NRunning"
      "nd_lease n = Some tok" "after_time t (nd_expires n)" "published_state safe (snd (worker_copy j tok n)) res = Inr NCompleted" .
  have persona: "nd_persona n = ''reviewer''"
    using reviewers_ok_run [OF assms(2,1), of tr1] n(1,2) unfolding reviewers_ok_def by (metis option.distinct(1))
  then have "approves (run_ops coord_step tr1 db) t safe i j tok res"
    using n reviewer_completed [OF n(6)] by (simp add: approves_def holds_node_def worker_copy_def)
  then show thesis using that [of tr1 t safe e ids j tok res tr2] tr x by simp
qed (simp add: node_new_def)

text \<open>
  C5: along every history a result is merged only after a reviewer of it, running under a live lease,
  published a verified result that approves it without findings; the merge then began under a token while
  the result was reviewed, and was committed under that token, each behind the fence of its graph.
\<close>

theorem merged_only_after_review:
  assumes ok: "graph_ok db" and rv: "reviewers_ok db"
    and fresh: "\<not> node_is i (\<lambda>n. nd_state n \<in> {NReviewed, NMerging, NMerged}) db"
    and merged: "node_is i (\<lambda>n. nd_state n = NMerged) (run_ops coord_step tr db)"
  shows "\<exists>tr1 t1 safe e ids j rtok res tr2 t2 f2 tok archive ow2 tr3 t3 f3 r3 ev ow3 tr4.
     tr = tr1 @ (t1, CPublish safe e ids j rtok res) # tr2 @ (t2, CBeginMerge f2 tok archive ow2 i)
       # tr3 @ (t3, CCommitMerge f3 tok r3 ev ow3 i) # tr4
     \<and> approves (run_ops coord_step tr1 db) t1 safe i j rtok res
     \<and> f2 (run_ops coord_step (tr1 @ (t1, CPublish safe e ids j rtok res) # tr2) db) = Inr ()
     \<and> f3 (run_ops coord_step (tr1 @ (t1, CPublish safe e ids j rtok res) # tr2
          @ (t2, CBeginMerge f2 tok archive ow2 i) # tr3) db) = Inr ()"
proof -
  have a: "\<not> node_is i (\<lambda>n. nd_state n = NMerged) db" "\<not> node_is i (\<lambda>n. nd_state n = NMerging \<and> nd_lease n = Some tok) db"
    "\<not> node_is i (\<lambda>n. nd_state n = NReviewed) db" for tok
    using fresh by (auto simp: node_is_def split: option.splits)
  from merged_from [OF ok a(1) merged] obtain trc t3 f3 tok r3 ev ow3 tr4 where c: "tr = trc @ (t3, CCommitMerge f3 tok r3 ev ow3 i) # tr4"
    "f3 (run_ops coord_step trc db) = Inr ()"
    "node_is i (\<lambda>n. nd_state n = NMerging \<and> nd_lease n = Some tok) (run_ops coord_step trc db)" .
  from merging_from [OF ok a(2) c(3)] obtain trb t2 f2 archive ow2 tr3 where b: "trc = trb @ (t2, CBeginMerge f2 tok archive ow2 i) # tr3"
    "f2 (run_ops coord_step trb db) = Inr ()" "node_is i (\<lambda>n. nd_state n = NReviewed) (run_ops coord_step trb db)" .
  from reviewed_from [OF ok rv a(3) b(3)] obtain tra t1 safe e ids j rtok res tr2 where
    r: "trb = tra @ (t1, CPublish safe e ids j rtok res) # tr2" "approves (run_ops coord_step tra db) t1 safe i j rtok res" .
  let ?p = "(t1, CPublish safe e ids j rtok res)" and ?b = "(t2, CBeginMerge f2 tok archive ow2 i)"
  have e: "tr = tra @ ?p # tr2 @ ?b # tr3 @ (t3, CCommitMerge f3 tok r3 ev ow3 i) # tr4"
    "f2 (run_ops coord_step (tra @ ?p # tr2) db) = Inr ()"
    "f3 (run_ops coord_step (tra @ ?p # tr2 @ ?b # tr3) db) = Inr ()"
    using c(1,2) b(1,2) r(1) by simp_all
  show ?thesis by (intro exI conjI, rule e(1), rule r(2), rule e(2), rule e(3))
qed

text \<open>A small graph: a reviewed result, its reviewer at work, and the root task.\<close>

definition sample_node :: "pystr \<Rightarrow> node_state \<Rightarrow> agent_node" where
  "sample_node persona s = \<lparr>nd_owner = ''o'', nd_root = ''t'', nd_parent = None, nd_persona = persona, nd_goal = ''g'',
     nd_deps = [], nd_payload = JObj [(''budget_owner'', JStr ''o''), (''concurrency'', JInt 2)], nd_state = s,
     nd_result = None, nd_review_of = None, nd_reviewed_by = None, nd_lease = None, nd_expires = None,
     nd_deadline = 500, nd_attempts = 1, nd_updated = 0\<rparr>"

definition sample_task :: task_row where
  "sample_task = \<lparr>goal = ''g'', criteria = JText True False JNull, tstate = Running, phase = ''start'',
     checkpoint_doc = JText True False JNull, episode = None, reply = None, lease_owner = None, lease_until = None,
     attempts = 1, recoveries = 0, verification = [], updated = 0\<rparr>"

definition sample_graph :: "(pystr, agent_node) table \<Rightarrow> coord_db" where
  "sample_graph ns = empty_coord\<lparr>tasks := [((''o'', ''t''), sample_task)], agent_nodes := ns\<rparr>"

definition sample_env :: coord_env where
  "sample_env = \<lparr>ce_now = 0, ce_seconds = Some 60, ce_backend = ''sqlite'', ce_trial = NoSetting, ce_role = ''admin'',
     ce_delegated = False, ce_allowed = None, ce_settings = Inl (ValueError []), ce_repr = (\<lambda>_. []),
     ce_budget = \<lparr>c_tokens = None, c_requests = None, c_children = None, c_depth = None, c_cost = None, c_output = None,
       c_concurrency = None, c_limit = None, c_deadline = None, c_rates = JNull, c_text_rate = (\<lambda>_. None)\<rparr>\<rparr>"

definition sample_approval :: json where
  "sample_approval = JObj [(''success'', JBool True), (''verified'', JBool True),
     (''review'', JObj [(''approve'', JBool True), (''findings'', JArr [])])]"

definition reviewing_graph :: coord_db where
  "reviewing_graph = sample_graph [(''c'', sample_node ''coder'' NReviewPending),
     (''r'', (sample_node ''reviewer'' NRunning)\<lparr>nd_review_of := Some ''c'', nd_lease := Some ''w'', nd_expires := Some 90\<rparr>)]"

definition merge_trace :: "(time \<times> coord_op) list" where
  "merge_trace = [(1, CPublish (\<lambda>_. True) sample_env (''i'', ''g'') ''r'' ''w'' sample_approval),
     (2, CBeginMerge (\<lambda>_. Inr ()) ''m'' ''a'' ''o'' ''c''), (3, CCommitMerge (\<lambda>_. Inr ()) ''m'' (JObj []) (JObj []) ''o'' ''c'')]"

definition after_review :: coord_db where
  "after_review = (sample_graph [(''c'', (sample_node ''coder'' NReviewed)\<lparr>nd_reviewed_by := Some ''r'', nd_updated := 1\<rparr>),
     (''r'', (sample_node ''reviewer'' NCompleted)\<lparr>nd_review_of := Some ''c'', nd_result := Some sample_approval, nd_updated := 1\<rparr>)])
     \<lparr>agent_events := [(1, \<lparr>av_node = ''r'', av_owner = ''o'', av_event = ''finished'',
        av_data = JObj [(''state'', JStr ''completed'')], av_created = 1\<rparr>)]\<rparr>"

definition after_begin :: coord_db where
  "after_begin = (set_node ''c'' (\<lambda>_. True) (\<lambda>n. n\<lparr>nd_state := NMerging, nd_lease := Some ''m'', nd_expires := Some 92\<rparr>) after_review)
     \<lparr>agent_events := add_row \<lparr>av_node = ''c'', av_owner = ''o'', av_event = ''merge_started'',
        av_data = JObj [(''archive'', JStr ''a'')], av_created = 2\<rparr> (agent_events after_review)\<rparr>"

definition after_merge :: coord_db where
  "after_merge = set_node ''c'' (\<lambda>_. True)
     (\<lambda>n. release ((to_state 3 NMerged n)\<lparr>nd_result := Some (jset (JObj []) ''merge'' (JObj []))\<rparr>)) after_begin"

lemma sample_bytes:
  "agent_bytes reviewing_graph < 1000" "agent_bytes after_review < 1000" "agent_bytes after_begin < 1000"
  "agent_bytes after_merge < 1000" "json_bytes True False sample_approval < 1000" "json_bytes False False sample_approval < 1000"
  "json_bytes False False (JObj [(''state'', JStr ''completed'')]) < 100"
  "json_bytes False False (JObj [(''archive'', JStr ''a'')]) < 100" "json_bytes False False (JObj []) < 100"
  by code_simp+

lemma sample_published: "published_state safe (snd (worker_copy ''r'' ''w'' ((sample_node ''reviewer'' NRunning)\<lparr>nd_review_of := rv, nd_lease := l, nd_expires := x\<rparr>)))
   sample_approval = Inr NCompleted"
  by (simp add: published_state_def is_verified_def approving_def Let_def sample_approval_def jget_def py_get_def worker_copy_def sample_node_def)

definition reviewer_row :: agent_node where
  "reviewer_row = (sample_node ''reviewer'' NRunning)\<lparr>nd_review_of := Some ''c'', nd_lease := Some ''w'', nd_expires := Some 90\<rparr>"

lemma sample_row: "map_of (agent_nodes reviewing_graph) ''r'' = Some reviewer_row"
  by (simp add: reviewing_graph_def sample_graph_def empty_coord_def reviewer_row_def)

lemma sample_publish_txn:
  "publish_txn 1 (worker_copy ''r'' ''w'' reviewer_row) NCompleted sample_approval reviewing_graph = Inr ((), after_review)"
proof -
  let ?w = "worker_copy ''r'' ''w'' reviewer_row"
  let ?d = "set_node ''r'' (\<lambda>_. True) (\<lambda>n. release ((to_state 1 NCompleted n)\<lparr>nd_result := Some sample_approval\<rparr>)) reviewing_graph"
  have bytes: "agent_bytes ?d < 1000" by code_simp
  have "root_task reviewing_graph (snd ?w) = Some sample_task"
    by (simp add: root_task_def worker_copy_def reviewer_row_def sample_node_def ptext_def jget_def reviewing_graph_def sample_graph_def)
  then have root: "\<not> (root_stopped (root_task reviewing_graph (snd ?w)) \<or> nd_deadline (snd ?w) \<le> 1)"
    by (simp add: root_stopped_def sample_task_def worker_copy_def reviewer_row_def sample_node_def)
  have held: "row_where (fst ?w) (holds_node 1 (snd ?w)) (agent_nodes reviewing_graph)"
    using sample_row by (simp add: row_where_def worker_copy_def holds_node_def reviewer_row_def sample_node_def after_time_def)
  have log: "log_event 1 ''r'' ''o'' ''finished'' (JObj [(''state'', JStr ''completed'')]) ?d
      = Inr (?d\<lparr>agent_events := [(1, \<lparr>av_node = ''r'', av_owner = ''o'', av_event = ''finished'',
        av_data = JObj [(''state'', JStr ''completed'')], av_created = 1\<rparr>)]\<rparr>)"
    using bytes sample_bytes by (simp add: log_event_def agent_capacity_def add_row_def next_id_def reviewing_graph_def sample_graph_def empty_coord_def)
  have settle: "settle_review 1 NReviewed ?w (?d\<lparr>agent_events := [(1, \<lparr>av_node = ''r'', av_owner = ''o'', av_event = ''finished'',
        av_data = JObj [(''state'', JStr ''completed'')], av_created = 1\<rparr>)]\<rparr>) = after_review"
    by (simp add: settle_review_def worker_copy_def reviewer_row_def sample_node_def set_node_def update_key_def release_def to_state_def
        after_review_def reviewing_graph_def sample_graph_def)
  have cap: "agent_capacity (int (json_bytes False False sample_approval) - int (result_bytes (Some reviewer_row))) reviewing_graph = Inr ()"
    using sample_bytes by (simp add: agent_capacity_def result_bytes_def reviewer_row_def sample_node_def)
  have own: "fst ?w = ''r''" "nd_owner (snd ?w) = ''o''" by (simp_all add: worker_copy_def reviewer_row_def sample_node_def)
  show ?thesis
    using root held log settle cap unfolding publish_txn_def by (simp add: own sample_row)
qed

lemma sample_trace:
  "coord_step 1 (CPublish (\<lambda>_. True) sample_env (''i'', ''g'') ''r'' ''w'' sample_approval) reviewing_graph = after_review"
  "coord_step 2 (CBeginMerge (\<lambda>_. Inr ()) ''m'' ''a'' ''o'' ''c'') after_review = after_begin"
  "node_is ''c'' (\<lambda>n. nd_state n = NMerged) (coord_step 3 (CCommitMerge (\<lambda>_. Inr ()) ''m'' (JObj []) (JObj []) ''o'' ''c'') after_begin)"
proof -
  have "published_state (\<lambda>_. True) (snd (worker_copy ''r'' ''w'' reviewer_row)) sample_approval = Inr NCompleted"
    unfolding reviewer_row_def by (rule sample_published)
  moreover have "is_dict sample_approval" by (simp add: sample_approval_def)
  moreover have "\<not> json_bytes True False sample_approval > 1048576" using sample_bytes(5) by simp
  ultimately show "coord_step 1 (CPublish (\<lambda>_. True) sample_env (''i'', ''g'') ''r'' ''w'' sample_approval) reviewing_graph = after_review"
    using sample_publish_txn by (simp add: with_node_def sample_row publish_def)
  have c: "row_where ''c'' (\<lambda>n. nd_state n = NReviewed) (agent_nodes after_review)"
    by (simp add: row_where_def after_review_def sample_graph_def sample_node_def)
  show "coord_step 2 (CBeginMerge (\<lambda>_. Inr ()) ''m'' ''a'' ''o'' ''c'') after_review = after_begin"
  proof -
    let ?d = "set_node ''c'' (\<lambda>_. True) (\<lambda>n. n\<lparr>nd_state := NMerging, nd_lease := Some ''m'', nd_expires := Some 92\<rparr>) after_review"
    have "agent_bytes ?d < 1000" by code_simp
    with c show ?thesis using sample_bytes by (simp add: begin_merge_def log_event_def agent_capacity_def after_begin_def)
  qed
  have "row_where ''c'' (\<lambda>n. nd_state n = NMerging \<and> nd_lease n = Some ''m'') (agent_nodes after_begin)"
    by (simp add: row_where_def after_begin_def after_review_def sample_graph_def sample_node_def tbl)
  then show "node_is ''c'' (\<lambda>n. nd_state n = NMerged) (coord_step 3 (CCommitMerge (\<lambda>_. Inr ()) ''m'' (JObj []) (JObj []) ''o'' ''c'') after_begin)"
    using sample_bytes by (auto simp: commit_merge_def log_event_def agent_capacity_def after_merge_def [symmetric])
      (simp add: after_merge_def node_is_def tbl after_begin_def after_review_def sample_graph_def sample_node_def release_def to_state_def)
qed

text \<open>The history of the sample graph: its result was merged, so it was reviewed and the merge was begun.\<close>

theorem merged_only_after_review_witness:
  "node_is ''c'' (\<lambda>n. nd_state n = NMerged) (run_ops coord_step merge_trace reviewing_graph)
   \<and> (\<exists>tr1 t1 safe e ids j rtok res tr2. merge_trace = tr1 @ (t1, CPublish safe e ids j rtok res) # tr2)"
proof -
  have merged: "node_is ''c'' (\<lambda>n. nd_state n = NMerged) (run_ops coord_step merge_trace reviewing_graph)"
    unfolding merge_trace_def run_ops.simps sample_trace(1,2) by (rule sample_trace(3))
  have "graph_ok reviewing_graph" "reviewers_ok reviewing_graph"
    by (auto simp: graph_ok_def reviewers_ok_def unique_keys_def reviewing_graph_def sample_graph_def sample_node_def split: if_splits)
  moreover have "\<not> node_is ''c'' (\<lambda>n. nd_state n \<in> {NReviewed, NMerging, NMerged}) reviewing_graph"
    by (simp add: node_is_def reviewing_graph_def sample_graph_def sample_node_def)
  ultimately show ?thesis using merged_only_after_review [OF _ _ _ merged] merged by blast
qed

section \<open>One reviewer for a result\<close>

lemma distinct_reviews:
  assumes "unique_keys ns" and "\<And>i j n m. map_of ns i = Some n \<Longrightarrow> map_of ns j = Some m \<Longrightarrow> nd_review_of n = nd_review_of m \<Longrightarrow>
      nd_review_of n \<noteq> None \<Longrightarrow> i = j"
  shows "distinct (List.map_filter (\<lambda>(_, n). nd_review_of n) ns)"
  using assms
proof (induction ns)
  case (Cons x ns)
  obtain i n where x: "x = (i, n)" by (cases x)
  have u: "unique_keys ns" and i: "i \<notin> fst ` set ns" using Cons.prems(1) by (auto simp: unique_keys_def x)
  have "distinct (List.map_filter (\<lambda>(_, n). nd_review_of n) ns)"
  proof (rule Cons.IH [OF u])
    fix j k m p assume "map_of ns j = Some m" "map_of ns k = Some p" and r: "nd_review_of m = nd_review_of p" "nd_review_of m \<noteq> None"
    moreover have "j \<noteq> i" "k \<noteq> i" using calculation(1,2) i by (force dest: map_of_SomeD)+
    ultimately show "j = k" using Cons.prems(2) [of j m k p] by (simp add: x)
  qed
  moreover have "nd_review_of m \<noteq> Some k" if "nd_review_of n = Some k" "(j, m) \<in> set ns" for k j m
  proof -
    have "j \<noteq> i" using that(2) i by force
    moreover have "map_of ns j = Some m" using that(2) u by (simp add: unique_keys_def)
    ultimately show ?thesis using Cons.prems(2) [of i n j m] that(1) by (auto simp: x)
  qed
  ultimately show ?case by (force simp: x List.map_filter_def split: option.splits)
qed (simp add: List.map_filter_def)

text \<open>
  along every history node identifiers are unique, no result has two reviewers, and only a node of the
  persona reviewer reviews.
\<close>

theorem one_reviewer_per_result:
  "distinct (map fst (agent_nodes (run_ops coord_step tr empty_coord)))
   \<and> distinct (List.map_filter (\<lambda>(_, n). nd_review_of n) (agent_nodes (run_ops coord_step tr empty_coord)))
   \<and> list_all (\<lambda>(_, n). nd_review_of n = None \<or> nd_persona n = ''reviewer'') (agent_nodes (run_ops coord_step tr empty_coord))"
proof -
  let ?db = "run_ops coord_step tr empty_coord"
  have ok: "graph_ok ?db" by (rule graph_ok_run [OF graph_ok_empty])
  have "reviewers_ok empty_coord" by (simp add: reviewers_ok_def empty_coord_def)
  from reviewers_ok_run [OF this graph_ok_empty, of tr] ok
  have "list_all (\<lambda>(_, n). nd_review_of n = None \<or> nd_persona n = ''reviewer'') (agent_nodes ?db)"
    unfolding list_all_iff reviewers_ok_def graph_ok_def unique_keys_def by (fastforce dest: map_of_is_SomeI)
  moreover have "distinct (List.map_filter (\<lambda>(_, n). nd_review_of n) (agent_nodes ?db))"
    by (rule distinct_reviews) (use ok in \<open>auto simp: graph_ok_def\<close>)
  ultimately show ?thesis using ok by (simp add: graph_ok_def unique_keys_def)
qed

section \<open>A claim respects the graph\<close>

lemma count_where_update_key:
  assumes "map_of tb k = Some v" and "c v"
  shows "count_where p (update_key k c f tb) + (if p k v then 1 else 0) = count_where p tb + (if p k (f v) then 1 else 0)"
proof -
  have "count_where p (AList.update k (f v) tb) + (if p k v then 1 else 0) = count_where p tb + (if p k (f v) then 1 else 0)"
    using assms(1) by (induction tb) (auto split: if_splits)
  then show ?thesis using assms by (simp add: update_key_def)
qed

lemma dep_nodes_all:
  "length (dep_nodes db n) = length (nd_deps n) \<Longrightarrow> list_all P (dep_nodes db n) \<Longrightarrow>
     list_all (\<lambda>k. case map_of (agent_nodes db) k of None \<Rightarrow> False | Some d \<Rightarrow> nd_owner d = nd_owner n \<and> P (k, d)) (nd_deps n)"
proof -
  let ?f = "\<lambda>k. case map_of (agent_nodes db) k of Some d \<Rightarrow> if nd_owner d = nd_owner n then Some (k, d) else None | None \<Rightarrow> None"
  have le: "length (List.map_filter ?f ks) \<le> length ks" for ks
    by (simp add: List.map_filter_def)
  have "length (List.map_filter ?f ks) = length ks \<Longrightarrow> list_all P (List.map_filter ?f ks) \<Longrightarrow>
     list_all (\<lambda>k. case map_of (agent_nodes db) k of None \<Rightarrow> False | Some d \<Rightarrow> nd_owner d = nd_owner n \<and> P (k, d)) ks" for ks
  proof (induction ks)
    case (Cons k ks)
    show ?case
    proof (cases "?f k")
      case None
      then show ?thesis using Cons.prems(1) le [of ks] by (simp add: map_filter_simps)
    next
      case (Some d)
      then show ?thesis using Cons by (auto simp: map_filter_simps split: option.splits if_splits)
    qed
  qed simp
  then show "length (dep_nodes db n) = length (nd_deps n) \<Longrightarrow> list_all P (dep_nodes db n) \<Longrightarrow> ?thesis"
    by (simp add: dep_nodes_def)
qed

lemma lease_keeps_deps:
  assumes n: "map_of (agent_nodes m) i = Some n" "nd_state n = NQueued"
    and db': "agent_nodes db' = update_key i (\<lambda>_. True) (lease_node t tok) (agent_nodes m)"
    and met: "list_all (\<lambda>k. case map_of (agent_nodes m) k of None \<Rightarrow> False
          | Some d \<Rightarrow> nd_owner d = nd_owner n \<and> dep_met n (k, d)) ks"
  shows "list_all (\<lambda>k. case map_of (agent_nodes db') k of None \<Rightarrow> False
          | Some d \<Rightarrow> nd_owner d = nd_owner (lease_node t tok n) \<and> dep_met (lease_node t tok n) (k, d)) ks"
  unfolding list_all_iff
proof
  fix k assume "k \<in> set ks"
  with met obtain d where d: "map_of (agent_nodes m) k = Some d" "nd_owner d = nd_owner n" "dep_met n (k, d)"
    unfolding list_all_iff by (cases "map_of (agent_nodes m) k") fastforce+
  then have "k \<noteq> i" using n by (cases "k = i") (simp_all add: dep_met_def SUCCESS_def)
  with d show "case map_of (agent_nodes db') k of None \<Rightarrow> False
      | Some d \<Rightarrow> nd_owner d = nd_owner (lease_node t tok n) \<and> dep_met (lease_node t tok n) (k, d)"
    by (simp add: db' tbl lease_node_def dep_met_def)
qed

text \<open>
  a claim that returns a node took it from the queue (or from a worker whose lease had run out), leased it
  under the token for 90 seconds and counted the attempt; all its dependencies exist, belong to its owner and
  succeeded, a reviewer alone may start on the pending result it reviews; and with it no more workers
  run than the node allows.
\<close>

theorem claim_respects_graph:
  assumes ok: "graph_ok db" and claim: "claim_node t tok db = (Inr (Some (i, w)), db')"
  shows "\<exists>r n. map_of (agent_nodes db) i = Some r \<and> map_of (agent_nodes db') i = Some n
     \<and> (nd_state r = NQueued \<or> nd_state r = NRunning \<and> \<not> after_time t (nd_expires r))
     \<and> nd_state n = NRunning \<and> nd_lease n = Some tok \<and> nd_expires n = Some (t + 90) \<and> nd_attempts n = Suc (nd_attempts r)
     \<and> list_all (\<lambda>k. case map_of (agent_nodes db') k of None \<Rightarrow> False
          | Some d \<Rightarrow> nd_owner d = nd_owner n \<and> dep_met n (k, d)) (nd_deps n)
     \<and> int (running_count t db') \<le> pint n ''concurrency''"
proof -
  from ok have u: "unique_keys (agent_nodes db)" by (rule graph_ok_unique)
  show ?thesis
  proof (rule claim_node_cases [OF u, of t tok])
    assume "\<And>y. fst (claim_node t tok db) \<noteq> Inr (Some y)"
    from this [of "(i, w)"] claim show ?thesis by simp
  next
    fix m j n0
    assume taken: "rows_settled t db m" "map_of (agent_nodes m) j = Some n0" "nd_state n0 = NQueued" "takeable t m (j, n0)"
      and "fst (claim_node t tok db) = Inr (Some (j, (lease_node t tok n0)\<lparr>nd_updated := nd_updated n0\<rparr>))"
      and "agent_nodes (snd (claim_node t tok db)) = update_key j (\<lambda>_. True) (lease_node t tok) (agent_nodes m)"
    with claim have j: "j = i" and db': "agent_nodes db' = update_key i (\<lambda>_. True) (lease_node t tok) (agent_nodes m)" by auto
    note n0 = taken(2,3) [unfolded j]
    let ?n = "lease_node t tok n0"
    have n: "map_of (agent_nodes db') i = Some ?n" using n0 by (simp add: db' tbl)
    from rows_settled_none [OF taken(1), of i] n0 obtain r where r: "map_of (agent_nodes db) i = Some r"
      by (cases "map_of (agent_nodes db) i") auto
    with rows_settled_old [OF taken(1) r] n0 have s: "settled t r n0" by simp
    then have attempts: "nd_attempts n0 = nd_attempts r" by (cases r; cases n0) (simp add: settled_def)
    have from_queue: "nd_state r = NQueued \<or> nd_state r = NRunning \<and> \<not> after_time t (nd_expires r)"
      using s n0 by (auto simp: settled_def)
    have tk: "claimable t m (i, n0)" "length (dep_nodes m n0) = length (nd_deps n0)" "list_all (dep_met n0) (dep_nodes m n0)"
      using taken(4) by (simp_all add: takeable_def j)
    have "list_all (\<lambda>k. case map_of (agent_nodes m) k of None \<Rightarrow> False
          | Some d \<Rightarrow> nd_owner d = nd_owner n0 \<and> dep_met n0 (k, d)) (nd_deps n0)"
      by (rule dep_nodes_all [OF tk(2,3)])
    then have deps: "list_all (\<lambda>k. case map_of (agent_nodes db') k of None \<Rightarrow> False
          | Some d \<Rightarrow> nd_owner d = nd_owner ?n \<and> dep_met ?n (k, d)) (nd_deps n0)"
      by (rule lease_keeps_deps [OF n0 db'])
    have "running_count t db' = running_count t m + 1"
      using count_where_update_key [OF n0(1), of "\<lambda>_. True" "\<lambda>_ n. nd_state n \<in> {NRunning, NCancelRequested} \<and> after_time t (nd_expires n)"
          "lease_node t tok"] n0(2) by (simp add: running_count_def db' lease_node_def after_time_def)
    then have "int (running_count t db') \<le> pint ?n ''concurrency''"
      using tk(1) by (simp add: claimable_def pint_def lease_node_def)
    with r n from_queue attempts deps show ?thesis
      by (intro exI [of _ r] exI [of _ ?n]) (simp add: lease_node_def)
  qed
qed

definition queued_graph :: coord_db where
  "queued_graph = sample_graph [(''d'', sample_node ''planner'' NCompleted), (''c'', (sample_node ''coder'' NQueued)\<lparr>nd_deps := [''d'']\<rparr>)]"

lemma queued_graph_recover: "recover_graph 1 queued_graph = (Inr (), queued_graph)"
proof -
  have "root_task queued_graph ((sample_node ''coder'' NQueued)\<lparr>nd_deps := [''d'']\<rparr>) = Some sample_task"
    by (simp add: root_task_def sample_node_def ptext_def jget_def queued_graph_def sample_graph_def)
  then have "recover_one_node 1 queued_graph (''c'', (sample_node ''coder'' NQueued)\<lparr>nd_deps := [''d'']\<rparr>) queued_graph = Inr queued_graph"
    by (simp add: recover_one_node_def recovered_state_def root_stopped_def sample_task_def sample_node_def Let_def)
  moreover have "select_where (\<lambda>_ n. nd_state n \<in> {NQueued, NRunning, NCancelRequested, NMerging} \<and> is_legacy queued_graph n)
      (agent_nodes queued_graph) = [(''c'', (sample_node ''coder'' NQueued)\<lparr>nd_deps := [''d'']\<rparr>)]"
    by (simp add: select_where_def queued_graph_def sample_graph_def is_legacy_def empty_coord_def sample_node_def)
  moreover have "reject_unreviewed 1 queued_graph = queued_graph"
    by (simp add: reject_unreviewed_def Let_def queued_graph_def sample_graph_def sample_node_def)
  ultimately show ?thesis by (simp add: recover_graph_def)
qed

lemma queued_graph_claim:
  "fst (claim_node 1 ''k'' queued_graph) = Inr (Some (''c'', (lease_node 1 ''k'' ((sample_node ''coder'' NQueued)\<lparr>nd_deps := [''d'']\<rparr>))\<lparr>nd_updated := 0\<rparr>))"
proof -
  let ?n = "(sample_node ''coder'' NQueued)\<lparr>nd_deps := [''d'']\<rparr>"
  have "select_where (\<lambda>_ n. nd_state n = NQueued \<and> is_legacy queued_graph n) (agent_nodes queued_graph) = [(''c'', ?n)]"
    by (simp add: select_where_def queued_graph_def sample_graph_def is_legacy_def empty_coord_def sample_node_def)
  moreover have "dep_nodes queued_graph ?n = [(''d'', sample_node ''planner'' NCompleted)]"
    by (simp add: dep_nodes_def map_filter_simps queued_graph_def sample_graph_def sample_node_def)
  moreover have "claimable 1 queued_graph (''c'', ?n)"
    by (simp add: claimable_def child_leased_def child_task_def node_task_def running_count_def pint_def jget_def queued_graph_def
        sample_graph_def sample_node_def after_time_def)
  moreover have "agent_bytes (set_node ''c'' (\<lambda>_. True) (lease_node 1 ''k'') queued_graph) < 1000" by code_simp
  ultimately show ?thesis
    using sample_bytes by (simp add: claim_node_def queued_graph_recover asc_def Let_def dep_met_def SUCCESS_def STOPPED_def
        sample_node_def log_event_def agent_capacity_def)
qed

text \<open>A coder whose planner completed is claimed.\<close>

theorem claim_respects_graph_witness:
  "\<exists>r n. map_of (agent_nodes queued_graph) ''c'' = Some r \<and> map_of (agent_nodes (snd (claim_node 1 ''k'' queued_graph))) ''c'' = Some n
     \<and> nd_state n = NRunning \<and> nd_lease n = Some ''k'' \<and> nd_expires n = Some 91 \<and> nd_attempts n = Suc (nd_attempts r)"
proof -
  have "graph_ok queued_graph"
    by (auto simp: graph_ok_def unique_keys_def queued_graph_def sample_graph_def sample_node_def split: if_splits)
  moreover from queued_graph_claim have "claim_node 1 ''k'' queued_graph =
      (Inr (Some (''c'', (lease_node 1 ''k'' ((sample_node ''coder'' NQueued)\<lparr>nd_deps := [''d'']\<rparr>))\<lparr>nd_updated := 0\<rparr>)),
       snd (claim_node 1 ''k'' queued_graph))" by (simp only: prod_eq_iff fst_conv snd_conv)
  ultimately show ?thesis using claim_respects_graph [of queued_graph 1 "''k''" "''c''"] by fastforce
qed

end
