(* ===== verification/Coordinator_Effects.thy ===== *)
theory Coordinator_Effects
  imports Coordinator_Properties
begin

text \<open>
  The effects of the collaboration graph: its storage is bounded, a cancellation stops exactly a subtree,
  a merge of files is all or nothing, and a worker that lost its lease has no effect
  (the interpretation of the lease contract on nodes).
\<close>

section \<open>Storage stays bounded\<close>

definition within_storage :: "coord_db \<Rightarrow> bool" where
  "within_storage db \<longleftrightarrow> agent_bytes db \<le> 67108864"

lemma column_sum_update_same:
  "(\<And>v. map_of t k = Some v \<Longrightarrow> c v \<Longrightarrow> g k (f v) = g k v) \<Longrightarrow> column_sum g (update_key k c f t) = column_sum g t"
  using column_sum_update_key [of t k _ c g f]
  by (cases "map_of t k") (auto simp: update_key_def)

lemma column_sum_update_where_same:
  "(\<And>k v. p k v \<Longrightarrow> g k (f v) = g k v) \<Longrightarrow> column_sum g (update_where p f t) = column_sum g t"
  by (induction p f t rule: update_where.induct) auto

lemma log_event_within: "log_event t i ow ev data db = Inr db' \<Longrightarrow> within_storage db'"
  by (drule log_event_Inr) (simp add: within_storage_def)

lemma set_node_bytes:
  "(\<And>n. node_bytes i (f n) = node_bytes i n) \<Longrightarrow> agent_bytes (set_node i c f db) = agent_bytes db"
  by (simp add: agent_bytes_def set_node_def column_sum_update_same)

lemma within_set_node: "(\<And>n. node_bytes i (f n) = node_bytes i n) \<Longrightarrow> within_storage db \<Longrightarrow> within_storage (set_node i c f db)"
  by (simp add: within_storage_def set_node_bytes)

lemma node_bytes_state [simp]:
  "node_bytes i (to_state t s n) = node_bytes i n" "node_bytes i (release n) = node_bytes i n"
  "node_bytes i (nd_state_update g n) = node_bytes i n" "node_bytes i (lease_node t tok n) = node_bytes i n"
  "node_bytes i (nd_expires_update h n) = node_bytes i n" "node_bytes i (nd_reviewed_by_update k n) = node_bytes i n"
  by (simp_all add: node_bytes_def to_state_def release_def lease_node_def)

lemma within_same: "agent_nodes db' = agent_nodes db \<Longrightarrow> agent_events db' = agent_events db \<Longrightarrow> within_storage db \<Longrightarrow> within_storage db'"
  by (simp add: within_storage_def agent_bytes_def)

lemma within_settle: "within_storage db \<Longrightarrow> within_storage (settle_review t s w db)"
  by (auto simp: settle_review_def intro!: within_set_node split: option.splits)

lemma within_reject: "within_storage db \<Longrightarrow> within_storage (reject_unreviewed t db)"
  by (simp add: within_storage_def agent_bytes_def reject_unreviewed_def Let_def column_sum_update_where_same)

lemma within_insert_txn:
  assumes "insert_txn e s ids ow rt par persona aim deps p b review db = Inr (i, db')" and "within_storage db"
  shows "within_storage db'"
proof (cases "Option.bind review (\<lambda>i. reviewer_of i db)")
  case None
  then obtain db1 db2 where "log_event (ce_now e) (fst ids) ow ''submitted'' (JObj [(''persona'', JStr persona),
      (''dependencies'', JArr (map JStr deps))]) db1 = Inr db2" and "db' = db2"
    using assms(1) by (auto simp: insert_txn_def split: option.splits if_splits prod.splits)
  then show ?thesis using log_event_within by simp
qed (use assms in \<open>simp add: insert_txn_def\<close>)

lemma within_insert_node:
  assumes "within_storage db"
  shows "within_storage (snd (insert_node e ids ow rt par persona aim deps p b review db))"
proof -
  have "within_storage (snd (txn db (insert_txn e x ids ow rt par persona aim deps p b review db)))" for x
    by (rule txn_preserves [where P = within_storage]) (use assms within_insert_txn in blast)+
  then show ?thesis using assms by (simp add: insert_node_def split: option.splits sum.splits)
qed

lemma open_budget_events: "agent_events (snd (open_budget c t ow k db)) = agent_events db"
  by (auto simp: open_budget_def insert_budget_def split: sum.splits prod.splits option.splits if_splits)

lemma within_ensure:
  assumes w: "within_storage db"
  shows "within_storage (snd (ensure_review e ids ow i db))"
proof -
  have s: "within_storage d \<Longrightarrow> within_storage (set_node i c (nd_state_update f) d)" for c f d
    by (rule within_set_node) simp_all
  have ins: "within_storage d \<Longrightarrow> insert_node e ids ow rt par persona aim deps p b review d = (r, d') \<Longrightarrow> within_storage d'"
    for rt par persona aim deps p b review d r d' using within_insert_node by (metis snd_conv)
  have b: "open_budget c t ow' k db = (r, d) \<Longrightarrow> within_storage d" for c t ow' k r d
    using within_same [OF open_budget_nodes open_budget_events w] by (metis snd_conv)
  show ?thesis
    unfolding ensure_review_def
    by (simp split: sum.splits prod.splits del: bind_result_Inl bind_result_Inr) (use w s ins b in blast)
qed

lemma within_cancel_nodes: "cancel_nodes t ns db = Inr db' \<Longrightarrow> within_storage db \<Longrightarrow> within_storage db'"
proof (induction t ns db rule: cancel_nodes.induct)
  case (2 t i n ns db)
  show ?case
  proof (cases "nd_state n = NMerged")
    case False
    let ?s = "if nd_lease n \<noteq> None \<and> after_time t (nd_expires n) then NCancelRequested else NCancelled"
    from 2(3) False obtain db1 where "log_event t i (nd_owner n) ''cancelled'' (JObj []) (set_node i (\<lambda>_. True) (to_state t ?s) db) = Inr db1"
      and "cancel_nodes t ns db1 = Inr db'" by auto
    with 2(2) [OF False] show ?thesis using log_event_within by blast
  qed (use 2 in simp)
qed simp

lemma within_recover_one: "recover_one_node t db0 n db = Inr db' \<Longrightarrow> within_storage db \<Longrightarrow> within_storage db'"
  by (auto simp: recover_one_node_def Let_def dest!: log_event_within split: option.splits)

lemma within_recover_nodes: "recover_nodes t db0 ns db = Inr db' \<Longrightarrow> within_storage db \<Longrightarrow> within_storage db'"
  by (induction ns arbitrary: db) (auto dest: within_recover_one)

lemma within_recover: "within_storage db \<Longrightarrow> within_storage (snd (recover_graph t db))"
  unfolding recover_graph_def Let_def
  by (rule txn_preserves [where P = within_storage]) (auto intro: within_reject dest: within_recover_nodes)

lemma within_claim_nodes: "claim_nodes t tok ns db = Inr (r, db') \<Longrightarrow> within_storage db \<Longrightarrow> within_storage db'"
proof (induction ns arbitrary: db)
  case (Cons x ns)
  have "within_storage (set_node (fst x) (\<lambda>_. True) (nd_state_update (\<lambda>_. NFailed)) db)"
    by (rule within_set_node [OF _ Cons.prems(2)]) simp
  then show ?case using Cons by (auto simp: Let_def dest: log_event_within split: if_splits)
qed simp

lemma within_publish_txn: "publish_txn t w s r db = Inr (a, db') \<Longrightarrow> within_storage db'"
  by (auto simp: publish_txn_def intro!: within_settle dest!: log_event_within split: if_splits)

lemma within_fail_txn: "fail_txn t w s err db = Inr (a, db') \<Longrightarrow> within_storage db'"
  by (auto simp: fail_txn_def intro!: within_settle dest!: log_event_within split: if_splits)

lemma within_publish:
  assumes "within_storage db"
  shows "within_storage (snd (publish safe e ids w r db))"
proof -
  have "within_storage db1" if "txn db (publish_txn (ce_now e) w s r db) = (x, db1)" for s x db1
    using that assms within_publish_txn [of "ce_now e" w s r db] by (cases "publish_txn (ce_now e) w s r db") auto
  then show ?thesis
    unfolding publish_def
    by (simp add: assms within_ensure split: sum.splits prod.splits)
qed

lemma within_fail: "within_storage db \<Longrightarrow> within_storage (snd (fail_node t w s err db))"
  unfolding fail_node_def
  by (rule txn_preserves [where P = within_storage]) (auto dest: within_fail_txn split: option.splits if_splits)

lemma within_step: 
  assumes w: "within_storage db"
  shows "within_storage (coord_step t x db)"
proof (cases x)
  case (CClaim tok)
  have r: "within_storage (snd (recover_graph t db))" by (rule within_recover [OF w])
  show ?thesis
  proof (cases "recover_graph t db")
    case (Pair q db1)
    with r have "within_storage db1" by simp
    then show ?thesis unfolding CClaim coord_step.simps claim_node_def Pair
      by (cases q) (auto intro!: txn_preserves [where P = within_storage] dest: within_claim_nodes)
  qed
next
  case (CSubmit c e ids persona aim deps previous)
  then show ?thesis using w by (auto simp: submit_node_def intro: within_insert_node split: sum.splits)
next
  case (CCancel ow i)
  show ?thesis unfolding CCancel coord_step.simps cancel_tree_def
    by (rule txn_preserves [where P = within_storage]) (use w in \<open>auto dest: within_cancel_nodes\<close>)
next
  case (CBeginMerge f tok archive ow i)
  show ?thesis unfolding CBeginMerge coord_step.simps begin_merge_def
    by (rule txn_preserves [where P = within_storage]) (use w in \<open>auto dest: log_event_within split: if_splits\<close>)
next
  case (CCommitMerge f tok r ev ow i)
  show ?thesis unfolding CCommitMerge coord_step.simps commit_merge_def
    by (rule txn_preserves [where P = within_storage]) (use w in \<open>auto dest: log_event_within split: if_splits\<close>)
next
  case (CAbandon inspection ow i)
  show ?thesis unfolding CAbandon coord_step.simps abandon_node_def
    by (cases "byte_len inspection > 16000")
      (use w in \<open>auto simp: Let_def intro!: txn_preserves [where P = within_storage] dest: log_event_within split: option.splits if_splits\<close>)
next
  case (CTasks tb)
  show ?thesis by (rule within_same [OF _ _ w]) (simp_all add: CTasks)
next
  case (CBudgets tb)
  show ?thesis by (rule within_same [OF _ _ w]) (simp_all add: CBudgets)
qed (auto simp: with_node_def renew_node_def mark_conflict_def abort_merge_def requeue_node_def
    intro!: within_ensure within_recover within_publish within_fail within_set_node w split: option.splits)

text \<open>
  along every history the payloads, goals, results and events of the graph take at most 64 MiB, as the
  code counts them.
\<close>

theorem agent_storage_bounded: "agent_bytes (run_ops coord_step tr empty_coord) \<le> 67108864"
proof -
  have "within_storage (run_ops coord_step tr empty_coord)"
    by (rule run_ops_invariant [where I = within_storage], rule within_step)
      (simp_all add: within_storage_def agent_bytes_def empty_coord_def)
  then show ?thesis by (simp add: within_storage_def)
qed

section \<open>Cancellation stops exactly a subtree\<close>

definition child_of :: "owner \<Rightarrow> coord_db \<Rightarrow> pystr \<Rightarrow> pystr \<Rightarrow> bool" where
  "child_of ow db a b \<longleftrightarrow> list_ex (\<lambda>(k, n). k = b \<and> nd_owner n = ow \<and> (nd_parent n = Some a \<or> nd_review_of n = Some a))
     (agent_nodes db)"

lemma below_child: "b \<in> below ow db sel \<longleftrightarrow> (\<exists>a\<in>sel. child_of ow db a b)"
proof
  assume "b \<in> below ow db sel"
  then obtain n where "(b, n) \<in> set (agent_nodes db)" "nd_owner n = ow" "nd_parent n \<in> Some ` sel \<or> nd_review_of n \<in> Some ` sel"
    by (auto simp: below_def select_where_def)
  then show "\<exists>a\<in>sel. child_of ow db a b" unfolding child_of_def list_ex_iff by blast
next
  assume "\<exists>a\<in>sel. child_of ow db a b"
  then obtain a n where "a \<in> sel" "(b, n) \<in> set (agent_nodes db)" "nd_owner n = ow" "nd_parent n = Some a \<or> nd_review_of n = Some a"
    unfolding child_of_def list_ex_iff by blast
  then have "(b, n) \<in> set (select_where (\<lambda>_ n. nd_owner n = ow \<and> (nd_parent n \<in> Some ` sel \<or> nd_review_of n \<in> Some ` sel)) (agent_nodes db))"
    by (auto simp: select_where_def)
  then show "b \<in> below ow db sel" unfolding below_def by (rule image_eqI [rotated]) simp
qed

definition descendants :: "owner \<Rightarrow> coord_db \<Rightarrow> pystr set \<Rightarrow> pystr set" where
  "descendants ow db sel = {b. \<exists>a\<in>sel. (child_of ow db)\<^sup>*\<^sup>* a b}"

lemma descendants_closed:
  assumes "below ow db sel \<subseteq> sel"
  shows "descendants ow db sel = sel"
proof -
  have "b \<in> sel" if "(child_of ow db)\<^sup>*\<^sup>* a b" "a \<in> sel" for a b
    using that by (induction rule: rtranclp_induct) (use assms in \<open>auto simp: below_child subset_iff\<close>)
  then show ?thesis by (auto simp: descendants_def)
qed

lemma descendants_below: "descendants ow db (sel \<union> below ow db sel) = descendants ow db sel"
proof -
  have "\<exists>a\<in>sel. (child_of ow db)\<^sup>*\<^sup>* a b" if "a \<in> below ow db sel" "(child_of ow db)\<^sup>*\<^sup>* a b" for a b
    using that converse_rtranclp_into_rtranclp unfolding below_child by metis
  then show ?thesis by (auto simp: descendants_def)
qed

lemma selection_descendants: "selection ow db sel = descendants ow (db :: coord_db) sel"
proof (induction ow db sel rule: selection.induct)
  case (1 ow db sel)
  show ?case
  proof (cases "below ow db sel \<subseteq> sel")
    case True
    then show ?thesis by (simp add: selection.simps [of ow db sel] Let_def descendants_closed)
  next
    case False
    with 1 [OF refl] show ?thesis by (simp add: selection.simps [of ow db sel] Let_def descendants_below)
  qed
qed

definition stop_row :: "time \<Rightarrow> agent_node \<Rightarrow> agent_node" where
  "stop_row t n = (if nd_state n = NMerged then n
     else to_state t (if nd_lease n \<noteq> None \<and> after_time t (nd_expires n) then NCancelRequested else NCancelled) n)"

lemma cancel_nodes_rows:
  assumes "cancel_nodes t ns db = Inr db'" and "distinct (map fst ns)"
    and "\<And>i n. (i, n) \<in> set ns \<Longrightarrow> map_of (agent_nodes db) i = Some n"
  shows "map_of (agent_nodes db') j = (if j \<in> fst ` set ns then map_option (stop_row t) (map_of (agent_nodes db) j)
     else map_of (agent_nodes db) j)"
  using assms
proof (induction t ns db rule: cancel_nodes.induct)
  case (2 t i n ns db)
  have row: "map_of (agent_nodes db) i = Some n" and i: "i \<notin> fst ` set ns" and d: "distinct (map fst ns)"
    using 2(4,5) by auto
  show ?case
  proof (cases "nd_state n = NMerged")
    case True
    with 2 have "map_of (agent_nodes db') j = (if j \<in> fst ` set ns then map_option (stop_row t) (map_of (agent_nodes db) j)
     else map_of (agent_nodes db) j)" by simp
    moreover have "stop_row t n = n" using True by (simp add: stop_row_def)
    ultimately show ?thesis using row i by (cases "j = i") auto
  next
    case False
    let ?s = "if nd_lease n \<noteq> None \<and> after_time t (nd_expires n) then NCancelRequested else NCancelled"
    from 2(3) False obtain db1 where ev: "log_event t i (nd_owner n) ''cancelled'' (JObj []) (set_node i (\<lambda>_. True) (to_state t ?s) db) = Inr db1"
      and rest: "cancel_nodes t ns db1 = Inr db'" by auto
    have n1: "agent_nodes db1 = update_key i (\<lambda>_. True) (to_state t ?s) (agent_nodes db)" using log_event_Inr [OF ev] by simp
    have "map_of (agent_nodes db1) k = Some m" if "(k, m) \<in> set ns" for k m
      using 2(5) [of k m] that i by (force simp: n1 tbl)
    from 2(2) [OF False rest d this]
    have "map_of (agent_nodes db') j = (if j \<in> fst ` set ns then map_option (stop_row t) (map_of (agent_nodes db1) j)
     else map_of (agent_nodes db1) j)" .
    moreover have "stop_row t n = to_state t ?s n" using False by (simp add: stop_row_def)
    ultimately show ?thesis using row i by (cases "j = i") (auto simp: n1 tbl)
  qed
qed simp

lemma map_of_select_where: "unique_keys t \<Longrightarrow> map_of (select_where (\<lambda>k _. p k) t) j = (if p j then map_of t j else None)"
  by (induction t) (auto simp: select_where_def unique_keys_def)

text \<open>
  C27: a cancellation that succeeds stops the node, everything submitted below it and the reviewers of all
  of these, at any depth: each is cancelled, or asked to stop while a worker holds it, except what was
  already merged; every other node is as before.
\<close>

theorem cancel_stops_subtree:
  assumes "unique_keys (agent_nodes db)" and "cancel_tree t ow i db = (Inr u, db')"
  shows "map_of (agent_nodes db') j = (if (child_of ow db)\<^sup>*\<^sup>* i j
     then map_option (stop_row t) (map_of (agent_nodes db) j) else map_of (agent_nodes db) j)"
proof -
  let ?p = "\<lambda>j. j \<in> selection ow db {i}" and ?ns = "select_where (\<lambda>j _. j \<in> selection ow db {i}) (agent_nodes db)"
  from assms(2) have c: "cancel_nodes t ?ns db = Inr db'" by (auto simp: cancel_tree_def txn_Inr)
  have "map_of (agent_nodes db') j = (if j \<in> fst ` set ?ns then map_option (stop_row t) (map_of (agent_nodes db) j)
     else map_of (agent_nodes db) j)"
    by (rule cancel_nodes_rows [OF c distinct_select [OF assms(1)] map_of_select [OF assms(1)]])
  moreover have "j \<in> fst ` set ?ns \<longleftrightarrow> (child_of ow db)\<^sup>*\<^sup>* i j \<and> map_of (agent_nodes db) j \<noteq> None"
  proof -
    have "j \<in> fst ` set ?ns \<longleftrightarrow> map_of ?ns j \<noteq> None" by (simp add: map_of_eq_None_iff)
    also have "\<dots> \<longleftrightarrow> j \<in> selection ow db {i} \<and> map_of (agent_nodes db) j \<noteq> None"
      unfolding map_of_select_where [OF assms(1), of ?p j] by simp
    finally show ?thesis by (simp add: selection_descendants descendants_def)
  qed
  ultimately show ?thesis by (cases "map_of (agent_nodes db) j") auto
qed

section \<open>A merge is all or nothing\<close>

definition agree :: "pystr set \<Rightarrow> files \<Rightarrow> files \<Rightarrow> bool" where
  "agree ns f g \<longleftrightarrow> (\<forall>x\<in>ns. f x = g x)"

definition leaves_alone :: "pystr set \<Rightarrow> (nat \<Rightarrow> files \<Rightarrow> exn option \<times> files) \<Rightarrow> bool" where
  "leaves_alone ns world \<longleftrightarrow> (\<forall>k fs. agree ns (snd (world k fs)) fs)"

definition applied_to :: "change list \<Rightarrow> pystr set \<Rightarrow> files \<Rightarrow> files \<Rightarrow> bool" where
  "applied_to cs ns fs fs1 \<longleftrightarrow> (\<forall>(a, old, new) \<in> set cs. fs a = old \<and> fs1 a = new) \<and> agree (ns - fst ` set cs) fs1 fs"

lemma apply_prefix:
  assumes "apply_changes world k cs app fs = (r, app', fs1)" and "leaves_alone ns world" and "fst ` set cs \<subseteq> ns"
    and "distinct (map fst cs)"
  shows "\<exists>done rest. cs = done @ rest \<and> app' = app @ done \<and> applied_to done ns fs fs1 \<and> (r = Inr () \<longrightarrow> rest = [])"
  using assms(1,3,4)
proof (induction cs arbitrary: k app fs)
  case Nil
  then show ?case by (simp add: applied_to_def agree_def)
next
  case (Cons c cs)
  obtain a old new where c: "c = (a, old, new)" by (cases c)
  obtain stop fs0 where world: "world k fs = (stop, fs0)" by (cases "world k fs")
  have w: "agree ns fs0 fs" using assms(2) world by (metis leaves_alone_def snd_conv)
  note run = Cons.prems(1) [unfolded c]
  have names: "a \<in> ns" "fst ` set cs \<subseteq> ns" "a \<notin> fst ` set cs" "distinct (map fst cs)"
    using Cons.prems(2,3) by (auto simp: c)
  show ?case
  proof (cases "stop = None \<and> fs0 a = old")
    case False
    then have "app' = app \<and> fs1 = fs0 \<and> r \<noteq> Inr ()" using run world by (auto split: option.splits if_splits)
    with w show ?thesis by (intro exI [of _ "[]"] exI [of _ "c # cs"]) (simp add: applied_to_def)
  next
    case True
    with run world have "apply_changes world (Suc k) cs (app @ [(a, old, new)]) (fs0(a := new)) = (r, app', fs1)" by simp
    from Cons.IH [OF this names(2,4)] obtain more rest where more: "cs = more @ rest" "app' = app @ (c # more)"
      "applied_to more ns (fs0(a := new)) fs1" "r = Inr () \<longrightarrow> rest = []" unfolding c append_assoc append_Cons append_Nil by (elim exE conjE)
    have na: "a \<notin> fst ` set more" using names(3) more(1) by auto
    have "applied_to (c # more) ns fs fs1"
      unfolding applied_to_def
    proof
      have "fs1 a = new" using more(3) na names(1) by (simp add: applied_to_def agree_def)
      moreover have "fs b = x \<and> fs1 b = y" if "(b, x, y) \<in> set more" for b x y
      proof -
        have "b \<noteq> a" "b \<in> ns" using that na names(2) more(1) by force+
        with that more(3) w show ?thesis by (auto simp: applied_to_def agree_def)
      qed
      ultimately show "\<forall>(b, x, y)\<in>set (c # more). fs b = x \<and> fs1 b = y"
        using True w names(1) by (auto simp: c agree_def)
      show "agree (ns - fst ` set (c # more)) fs1 fs"
        using more(3) w by (auto simp: applied_to_def agree_def c)
    qed
    with more show ?thesis by (intro exI [of _ "c # more"] exI [of _ rest]) simp
  qed
qed

definition undo_fault :: "(nat \<Rightarrow> files \<Rightarrow> exn option \<times> files) \<Rightarrow> (nat \<Rightarrow> (exn \<times> pystr option) option) \<Rightarrow> exn \<Rightarrow> bool" where
  "undo_fault reads broken e \<longleftrightarrow> (\<exists>k fs. fst (reads k fs) = Some e) \<or> (\<exists>k rest. broken k = Some (e, rest))"

lemma undo_outcome:
  assumes "undo_changes reads broken k cs fs = (r, fs')" and "leaves_alone ns reads" and "fst ` set cs \<subseteq> ns"
    and "distinct (map fst cs)" and "\<forall>(a, old, new) \<in> set cs. fs a = new"
  shows "agree (ns - fst ` set cs) fs' fs"
    and "r = Inr u \<Longrightarrow> list_all (\<lambda>(a, old, new). fs' a = old) cs"
    and "r = Inl e \<Longrightarrow> undo_fault reads broken e \<and> (\<exists>c. list_all (\<lambda>(a, old, new). a = c \<or> fs' a = old \<or> fs' a = new) cs)"
proof -
  have "agree (ns - fst ` set cs) fs' fs \<and> (r = Inr u \<longrightarrow> list_all (\<lambda>(a, old, new). fs' a = old) cs)
    \<and> (r = Inl e \<longrightarrow> undo_fault reads broken e \<and> (\<exists>c. list_all (\<lambda>(a, old, new). a = c \<or> fs' a = old \<or> fs' a = new) cs))"
    using assms(1,3-5)
  proof (induction cs arbitrary: k fs)
    case Nil
    then show ?case by (auto simp: agree_def)
  next
    case (Cons c cs)
    obtain a old new where c: "c = (a, old, new)" by (cases c)
    obtain stop fs0 where world: "reads k fs = (stop, fs0)" by (cases "reads k fs")
    have w: "agree ns fs0 fs" using assms(2) world by (metis leaves_alone_def snd_conv)
    have names: "a \<in> ns" "fst ` set cs \<subseteq> ns" "a \<notin> fst ` set cs" "distinct (map fst cs)"
      using Cons.prems(2,3) by (auto simp: c)
    have at: "fs0 a = new" using Cons.prems(4) names(1) w by (auto simp: c agree_def)
    have others: "b \<noteq> a \<and> fs0 b = y" if "(b, x, y) \<in> set cs" for b x y
    proof -
      have "b \<noteq> a" "b \<in> ns" "fs b = y" using that names(2,3) Cons.prems(4) by force+
      with w show ?thesis by (simp add: agree_def)
    qed
    consider (read_fails) x where "stop = Some x" | (write_fails) x rest where "stop = None" "broken k = Some (x, rest)"
      | (goes_on) "stop = None" "broken k = None" by (cases stop; cases "broken k") auto
    then show ?case
    proof cases
      case read_fails
      then have "r = Inl x" "fs' = fs0" using Cons.prems(1) world by (auto simp: c)
      moreover have "undo_fault reads broken x" using world read_fails by (auto simp: undo_fault_def intro!: exI [of _ k] exI [of _ fs])
      moreover have "list_all (\<lambda>(b, x, y). b = a \<or> fs0 b = x \<or> fs0 b = y) (c # cs)"
        using others by (auto simp: list_all_iff c)
      ultimately show ?thesis using w by (auto simp: agree_def)
    next
      case write_fails
      then have "r = Inl x" "fs' = fs0(a := rest)" using Cons.prems(1) world at by (auto simp: c)
      moreover have "undo_fault reads broken x" using write_fails by (auto simp: undo_fault_def)
      moreover have "list_all (\<lambda>(b, x, y). b = a \<or> (fs0(a := rest)) b = x \<or> (fs0(a := rest)) b = y) (c # cs)"
        using others by (auto simp: list_all_iff c)
      ultimately show ?thesis using w by (auto simp: agree_def c)
    next
      case goes_on
      then have run: "undo_changes reads broken (Suc k) cs (fs0(a := old)) = (r, fs')" using Cons.prems(1) world at by (simp add: c)
      have "\<forall>(b, x, y)\<in>set cs. (fs0(a := old)) b = y" using others by auto
      note IH = Cons.IH [OF run names(2,4) this]
      have a: "fs' a = old" using IH names(1,3) by (simp add: agree_def)
      have "agree (ns - fst ` set (c # cs)) fs' fs" using IH w by (auto simp: agree_def c)
      with IH a show ?thesis by (auto simp: c)
    qed
  qed
  then show "agree (ns - fst ` set cs) fs' fs"
    and "r = Inr u \<Longrightarrow> list_all (\<lambda>(a, old, new). fs' a = old) cs"
    and "r = Inl e \<Longrightarrow> undo_fault reads broken e \<and> (\<exists>c. list_all (\<lambda>(a, old, new). a = c \<or> fs' a = old \<or> fs' a = new) cs)"
    by blast+
qed

lemma commit_merge_Inr:
  assumes "commit_merge t f tok r ev ow i db = (Inr u, db')"
  shows "row_where i (\<lambda>n. nd_state n = NMerging \<and> nd_lease n = Some tok) (agent_nodes db)
    \<and> row_where i (\<lambda>n. nd_state n = NMerged) (agent_nodes db')"
proof -
  from assms obtain db1 where "row_where i (\<lambda>n. nd_state n = NMerging \<and> nd_lease n = Some tok) (agent_nodes db)"
    and "log_event t i ow ''merged'' ev (set_node i (\<lambda>_. True) (\<lambda>n. release ((to_state t NMerged n)\<lparr>nd_result := Some (jset r ''merge'' ev)\<rparr>)) db) = Inr db1"
    and "db' = db1" by (auto simp: commit_merge_def txn_Inr split: if_splits)
  then show ?thesis using log_event_Inr by (fastforce simp: row_where_iff tbl release_def to_state_def)
qed

lemma commit_merge_Inl: "commit_merge t f tok r ev ow i db = (Inl e, db') \<Longrightarrow> db' = db"
  by (auto simp: commit_merge_def txn_Inl)

text \<open>
  C11: while no other program writes the files of the change set, the part of a merge that writes files is all
  or nothing unless its roll-back fails.  If it returns, every file holds its new content and the node, which
  held the merge token, is merged.  If it raises (a conflict, a fence, a cancellation, the file system, a lost
  token or a full database, before any change or between any two), either every file of the set holds what it
  held before and the node waits for a resolution if it still had the token, or the exception is that of the
  roll-back, the nodes are as they were (the node is not merged) and every file but the one where the roll-back
  stopped holds its old or its new content.
\<close>

theorem merge_is_atomic:
  assumes "leaves_alone (fst ` set cs) world" and "leaves_alone (fst ` set cs) reads" and "distinct (map fst cs)"
    and "finish_merge t fence world reads broken tok cs r ev ow i fs db = (res, fs', db')"
  shows "case res of
      Inr _ \<Rightarrow> list_all (\<lambda>(name, old, new). fs name = old \<and> fs' name = new) cs
        \<and> row_where i (\<lambda>n. nd_state n = NMerging \<and> nd_lease n = Some tok) (agent_nodes db)
        \<and> row_where i (\<lambda>n. nd_state n = NMerged) (agent_nodes db')
    | Inl e \<Rightarrow> (list_all (\<lambda>(name, _). fs' name = fs name) cs
        \<and> agent_nodes db' = update_key i (\<lambda>n. nd_lease n = Some tok) (nd_state_update (\<lambda>_. NNeedsResolution)) (agent_nodes db))
      \<or> (undo_fault reads broken e \<and> agent_nodes db' = agent_nodes db
        \<and> (\<exists>c. list_all (\<lambda>(name, _, new). name = c \<or> fs' name = fs name \<or> fs' name = new) cs))"
proof -
  let ?ns = "fst ` set cs"
  obtain a app fs1 where run: "apply_changes world 0 cs [] fs = (a, app, fs1)" by (cases "apply_changes world 0 cs [] fs")
  from apply_prefix [OF run assms(1) order_refl assms(3)] obtain rest where
    pre: "cs = app @ rest" "applied_to app ?ns fs fs1" "a = Inr () \<longrightarrow> rest = []" by auto
  have rolled: ?thesis if rb: "roll_back reads broken tok x app i fs1 db = (res, fs', db')" for x
  proof -
    obtain u fs2 where undo: "undo_changes reads broken 0 (rev app) fs1 = (u, fs2)" by (cases "undo_changes reads broken 0 (rev app) fs1")
    have sub: "fst ` set (rev app) \<subseteq> ?ns" "distinct (map fst (rev app))" using pre(1) assms(3) by (auto simp flip: rev_map)
    have new: "\<forall>(a, old, new) \<in> set (rev app). fs1 a = new" using pre(2) by (auto simp: applied_to_def)
    note out = undo_outcome [OF undo assms(2) sub new]
    have rest: "fs2 b = fs b" if "b \<in> ?ns" "b \<notin> fst ` set app" for b
      using out(1) pre(2) that by (simp add: applied_to_def agree_def)
    have was: "fs b = x" if "(b, x, y) \<in> set app" for b x y using pre(2) that by (auto simp: applied_to_def)
    show ?thesis
    proof (cases u)
      case (Inl e)
      then have r: "res = Inl e" "fs' = fs2" "db' = db" using rb undo by (simp_all add: roll_back_def)
      from out(3) [OF Inl] obtain c where f: "undo_fault reads broken e"
        and c: "list_all (\<lambda>(a, old, new). a = c \<or> fs2 a = old \<or> fs2 a = new) (rev app)" by blast
      have "b = c \<or> fs2 b = fs b \<or> fs2 b = y" if "(b, x, y) \<in> set cs" for b x y
      proof (cases "b \<in> fst ` set app")
        case True
        with that pre(1) assms(3) have "(b, x, y) \<in> set app" by force
        with c was show ?thesis by (fastforce simp: list_all_iff)
      next
        case False
        then have "fs2 b = fs b" using rest that by force
        then show ?thesis by simp
      qed
      then have "list_all (\<lambda>(name, _, new). name = c \<or> fs2 name = fs name \<or> fs2 name = new) cs"
        by (auto simp: list_all_iff)
      with f r show ?thesis by auto
    next
      case (Inr v)
      then have r: "res = Inl x" "fs' = fs2" "db' = abort_merge tok i db" using rb undo by (simp_all add: roll_back_def)
      have "fs2 b = fs b" if "(b, x, y) \<in> set cs" for b x y
      proof (cases "b \<in> fst ` set app")
        case True
        with that pre(1) assms(3) have "(b, x, y) \<in> set app" by force
        with out(2) [OF Inr] was show ?thesis by (fastforce simp: list_all_iff)
      next
        case False
        then show ?thesis using rest that by force
      qed
      then have "list_all (\<lambda>(name, _). fs' name = fs name) cs" using r by (auto simp: list_all_iff)
      then show ?thesis using r by (simp add: abort_merge_def)
    qed
  qed
  show ?thesis
  proof (cases a)
    case (Inl e)
    then show ?thesis using assms(4) run by (intro rolled [of e]) (simp add: finish_merge_def)
  next
    case (Inr u)
    obtain c db1 where commit: "commit_merge t fence tok r ev ow i db = (c, db1)" by (cases "commit_merge t fence tok r ev ow i db")
    show ?thesis
    proof (cases c)
      case c: (Inl e)
      have "db1 = db" using commit_merge_Inl commit c by blast
      then show ?thesis using assms(4) run Inr commit c by (intro rolled [of e]) (simp add: finish_merge_def)
    next
      case c: (Inr v)
      have "res = Inr ()" "fs' = fs1" "db' = db1" using assms(4) run commit Inr c by (simp_all add: finish_merge_def)
      moreover have "list_all (\<lambda>(name, old, new). fs name = old \<and> fs1 name = new) cs"
        using pre Inr by (auto simp: applied_to_def list_all_iff)
      ultimately show ?thesis using commit_merge_Inr [OF commit [unfolded c]] by auto
    qed
  qed
qed

definition sample_id :: "char \<Rightarrow> pystr" where
  "sample_id c = replicate 32 c"

definition tree_graph :: coord_db where
  "tree_graph = sample_graph [(sample_id (CHR ''a''), sample_node ''planner'' NCompleted),
     (sample_id (CHR ''b''), (sample_node ''coder'' NRunning)\<lparr>nd_parent := Some (sample_id (CHR ''a'')), nd_lease := Some ''w'', nd_expires := Some 90\<rparr>),
     (sample_id (CHR ''d''), sample_node ''coder'' NQueued)]"

lemma tree_graph_cancelled: "fst (cancel_tree 1 ''o'' (sample_id (CHR ''a'')) tree_graph) = Inr ()"
  by code_simp

text \<open>The running child of a completed planner is asked to stop.\<close>

theorem cancel_stops_subtree_witness:
  "map_option nd_state (map_of (agent_nodes (snd (cancel_tree 1 ''o'' (sample_id (CHR ''a'')) tree_graph))) (sample_id (CHR ''b'')))
     = Some NCancelRequested"
proof -
  let ?run = "cancel_tree 1 ''o'' (sample_id (CHR ''a'')) tree_graph"
  have u: "unique_keys (agent_nodes tree_graph)" by (simp add: unique_keys_def tree_graph_def sample_graph_def sample_id_def)
  have "child_of ''o'' tree_graph (sample_id (CHR ''a'')) (sample_id (CHR ''b''))"
    by (simp add: child_of_def tree_graph_def sample_graph_def sample_node_def)
  then have c: "(child_of ''o'' tree_graph)\<^sup>*\<^sup>* (sample_id (CHR ''a'')) (sample_id (CHR ''b''))" by (rule r_into_rtranclp)
  have r: "?run = (Inr (), snd ?run)" by (simp add: prod_eq_iff tree_graph_cancelled)
  show ?thesis
    unfolding cancel_stops_subtree [OF u r] if_P [OF c]
    by (simp add: tree_graph_def sample_graph_def sample_node_def sample_id_def stop_row_def to_state_def after_time_def)
qed

definition sample_files :: files where
  "sample_files = [''x'' \<mapsto> ''1'']"

definition sample_changes :: "change list" where
  "sample_changes = [(''x'', Some ''1'', Some ''2''), (''y'', None, Some ''3'')]"

text \<open>The file system stops before the second file: the first is restored.\<close>

theorem merge_is_atomic_witness:
  "fst (snd (finish_merge 3 (\<lambda>_. Inr ()) (\<lambda>k fs. (if k = 1 then Some (PermissionError []) else None, fs)) (\<lambda>k fs. (None, fs))
     (\<lambda>_. None) ''m'' sample_changes (JObj []) (JObj []) ''o'' ''c'' sample_files after_begin)) ''x'' = Some ''1''"
proof -
  let ?world = "\<lambda>k fs. (if k = 1 then Some (PermissionError []) else None, fs)" and ?reads = "\<lambda>k fs. (None, fs)"
  let ?run = "finish_merge 3 (\<lambda>_. Inr ()) ?world ?reads (\<lambda>_. None) ''m'' sample_changes (JObj []) (JObj []) ''o'' ''c'' sample_files after_begin"
  have r: "?run = (Inl (PermissionError []), fst (snd ?run), snd (snd ?run))"
    by (simp add: finish_merge_def roll_back_def sample_changes_def sample_files_def)
  have w: "leaves_alone (fst ` set sample_changes) ?world" "leaves_alone (fst ` set sample_changes) ?reads"
    by (simp_all add: leaves_alone_def agree_def)
  have d: "distinct (map fst sample_changes)" by (simp add: sample_changes_def)
  have "\<not> undo_fault ?reads (\<lambda>_. None) (PermissionError [])" by (simp add: undo_fault_def)
  with merge_is_atomic [OF w d r]
  have "list_all (\<lambda>(name, _). fst (snd ?run) name = sample_files name) sample_changes" by (simp only: sum.case) simp
  then show ?thesis by (simp only: sample_changes_def sample_files_def list.pred_inject prod.case) simp
qed

text \<open>The disk is full when the first file is put back: it stays empty and the node stays in the merge.\<close>

lemma roll_back_may_fail:
  "case finish_merge 3 (\<lambda>_. Inr ()) (\<lambda>k fs. (if k = 1 then Some (PermissionError []) else None, fs)) (\<lambda>k fs. (None, fs))
     (\<lambda>_. Some (PyRuntimeError ''disk full'', Some [])) ''m'' sample_changes (JObj []) (JObj []) ''o'' ''c'' sample_files after_begin of
   (res, fs, db) \<Rightarrow> res = Inl (PyRuntimeError ''disk full'') \<and> fs ''x'' = Some [] \<and> db = after_begin"
  by (simp add: finish_merge_def roll_back_def sample_changes_def sample_files_def)

section \<open>A worker that lost its lease\<close>

definition holds_claim :: "coord_db \<Rightarrow> time \<Rightarrow> pystr \<Rightarrow> token \<Rightarrow> bool" where
  "holds_claim db t i w \<longleftrightarrow> node_is i (\<lambda>n. nd_state n = NRunning \<and> nd_lease n = Some w \<and> after_time t (nd_expires n)) db"

text \<open>
  The laws of the contract hold where identifiers are unique, which every history keeps: the store of
  the interpretation refuses any other state.
\<close>

definition graph_step :: "time \<Rightarrow> coord_op \<Rightarrow> coord_db \<Rightarrow> coord_db" where
  "graph_step t x db = (if graph_ok db then coord_step t x db else db)"

lemma graph_step_run: "graph_ok db \<Longrightarrow> run_ops graph_step tr db = run_ops coord_step tr db"
proof (induction tr arbitrary: db)
  case (Cons y tr)
  obtain t x where y: "y = (t, x)" by (cases y)
  show ?case using Cons.IH [OF graph_ok_step [OF Cons.prems]] Cons.prems by (simp add: y graph_step_def)
qed simp

definition node_claims :: "coord_op \<Rightarrow> pystr \<Rightarrow> token \<Rightarrow> bool" where
  "node_claims x i w \<longleftrightarrow> x = CClaim w"

definition worker_call :: "coord_op \<Rightarrow> pystr \<Rightarrow> token \<Rightarrow> bool" where
  "worker_call x i w \<longleftrightarrow> (case x of CRenew j tok \<Rightarrow> j = i \<and> tok = w | CPublish _ _ _ j tok _ \<Rightarrow> j = i \<and> tok = w | _ \<Rightarrow> False)"

lemma change_to_held:
  assumes "node_change t x db i r r'" and "nd_state r' = NRunning" and "nd_lease r' = Some w" and "after_time t (nd_expires r')"
    and "nd_state r = NRunning \<and> nd_lease r = Some v \<and> after_time t (nd_expires r) \<or> x \<noteq> CClaim w"
  shows "nd_state r = NRunning \<and> nd_lease r = Some w \<and> after_time t (nd_expires r)"
  using assms(1)
proof cases
  case settles
  then have "nd_expires r' = nd_expires r" by (cases r; cases r') (simp add: settled_def)
  with settles settled_lease [OF settles] assms(2-4) show ?thesis by (auto simp: settled_def)
next
  case (claims tok m)
  then have "tok = w" using assms(3) by (simp add: lease_node_def)
  with claims assms(5) show ?thesis by (auto simp: settled_def)
qed (use assms in \<open>auto simp: release_def to_state_def STOPPED_def\<close>)

lemma held_before:
  assumes "graph_ok db" and "holds_claim (coord_step t x db) t i w" and "x \<noteq> CClaim w \<or> holds_claim db t i v"
  shows "holds_claim db t i w"
proof -
  from assms(2) obtain r' where r': "map_of (agent_nodes (coord_step t x db)) i = Some r'" "nd_state r' = NRunning"
    "nd_lease r' = Some w" "after_time t (nd_expires r')" by (auto simp: holds_claim_def node_is_def split: option.splits)
  note step = coord_step_nodes [OF graph_ok_unique [OF assms(1)], of t x]
  show ?thesis
  proof (cases "map_of (agent_nodes db) i")
    case None
    then show ?thesis using nodes_step_new [OF step None r'(1)] r'(2) by (simp add: node_new_def)
  next
    case (Some r)
    with nodes_step_old [OF step Some] r'(1) have c: "node_change t x db i r r'" by simp
    have "nd_state r = NRunning \<and> nd_lease r = Some v \<and> after_time t (nd_expires r) \<or> x \<noteq> CClaim w"
      using assms(3) Some by (auto simp: holds_claim_def node_is_def)
    from change_to_held [OF c r'(2-4) this] Some show ?thesis by (simp add: holds_claim_def node_is_def)
  qed
qed

lemma stale_call:
  assumes "worker_call x i w" and "\<not> holds_claim db t i w"
  shows "coord_step t x db = db"
proof (cases "map_of (agent_nodes db) i")
  case None
  with assms(1) show ?thesis by (cases x) (auto simp: worker_call_def with_node_def)
next
  case (Some n)
  have lost: "\<not> row_where i (holds_node t (n\<lparr>nd_lease := Some w\<rparr>)) (agent_nodes db)"
    using assms(2) Some by (auto simp: row_where_def holds_node_def holds_claim_def node_is_def)
  have unpublished: "txn db (publish_txn t (i, n\<lparr>nd_lease := Some w\<rparr>) s r db) = (fst (txn db (publish_txn t (i, n\<lparr>nd_lease := Some w\<rparr>) s r db)), db)
      \<and> isl (fst (txn db (publish_txn t (i, n\<lparr>nd_lease := Some w\<rparr>) s r db)))" for s r
    using lost by (cases "publish_txn t (i, n\<lparr>nd_lease := Some w\<rparr>) s r db") (auto simp: publish_txn_def split: if_splits)
  show ?thesis
  proof (cases x)
    case (CRenew j tok)
    with assms(1) Some lost show ?thesis
      by (simp add: worker_call_def with_node_def renew_node_def worker_copy_def set_node_def update_key_no_match)
  next
    case (CPublish safe e ids j tok r)
    with assms(1) Some unpublished show ?thesis
      by (auto simp: worker_call_def with_node_def publish_def worker_copy_def split: sum.splits prod.splits) (metis isl_def prod.inject sum.disc(2))+
  qed (use assms(1) in \<open>simp_all add: worker_call_def\<close>)
qed

interpretation node_lease: fenced_store holds_claim graph_step node_claims worker_call
proof unfold_locales
  fix t x db i w
  show "0 \<le> t \<Longrightarrow> holds_claim (graph_step t x db) t i w \<Longrightarrow> \<not> node_claims x i w \<Longrightarrow> holds_claim db t i w"
    using held_before by (auto simp: graph_step_def node_claims_def split: if_splits)
  show "0 \<le> t \<Longrightarrow> holds_claim db t i v \<Longrightarrow> node_claims x i w \<Longrightarrow> w \<noteq> v \<Longrightarrow> \<not> holds_claim (graph_step t x db) t i w" for v
    using held_before [of db t x i w v] by (auto simp: graph_step_def holds_claim_def node_is_def split: if_splits option.splits)
  show "0 \<le> t \<Longrightarrow> worker_call x i w \<Longrightarrow> \<not> holds_claim db t i w \<Longrightarrow> graph_step t x db = db"
    using stale_call by (simp add: graph_step_def)
qed (auto simp: holds_claim_def node_is_def after_time_def node_claims_def worker_call_def split: option.splits coord_op.splits)

text \<open>
  a worker that does not hold the lease of its node can renew and publish at any times along any
  history: none of its calls has an effect, as long as its token is not claimed again (tokens are fresh
  UUIDs).  The reviews, results and events of the history are those without its calls.
\<close>

theorem stale_node_worker_is_harmless:
  assumes "graph_ok db" and "0 \<le> t" and "\<not> holds_claim db t i w" and "clocked t tr"
    and "list_all (\<lambda>(_, x). x \<noteq> CClaim w) tr"
  shows "run_ops coord_step tr db = run_ops coord_step (filter (\<lambda>(_, x). \<not> worker_call x i w) tr) db"
  using node_lease.stale_worker_harmless [OF assms(2-4)] assms(5)
  by (auto simp: graph_step_run [OF assms(1)] node_claims_def list_all_iff)

text \<open>The reviewer of the sample graph reports again after its review was recorded.\<close>

theorem stale_node_worker_is_harmless_witness:
  "run_ops coord_step [(5, CPublish (\<lambda>_. True) sample_env (''i'', ''g'') ''r'' ''w'' sample_approval), (6, CRenew ''r'' ''w'')] after_review
     = after_review"
proof -
  have "graph_ok after_review"
    by (auto simp: graph_ok_def unique_keys_def after_review_def sample_graph_def sample_node_def split: if_splits)
  moreover have "\<not> holds_claim after_review 5 ''r'' ''w''"
    by (simp add: holds_claim_def node_is_def after_review_def sample_graph_def sample_node_def)
  ultimately show ?thesis
    by (subst stale_node_worker_is_harmless [where t = 5 and i = "''r''" and w = "''w''"]) (simp_all add: worker_call_def)
qed

end
