(* ===== verification/Dag.thy ===== *)
theory Dag
  imports Coordinator
begin

text \<open>
  \<open>temporal_backend/dag.py\<close>, \<open>dag_contracts.py\<close> and \<open>dag_lifecycle.py\<close>: graphs whose nodes run as activities
  of a Temporal workflow.  A graph is admitted with its first node (\<open>pin\<close> in \<open>Coordinator\<close>), runs each node at most
  once, is stopped or completes; an operator merges or archives a reviewed result by a durable operation
  that is started at most once.

  Outside are the processes and their identity stamps, the checks on paths, projects and worktrees, the
  role file and Git: fields of \<open>dag_env\<close>.  A stamp that cannot be read (an exception) is not modelled.
\<close>

section \<open>Tables\<close>

type_synonym process = "int \<times> pystr"

datatype dag_action = Merge | Archive

datatype dag_op_state = OPending | OStarted | OCompleted | OFailed | OUncertain | OCancelled

record dag_op =
  do_graph :: pystr
  do_node :: pystr
  do_action :: dag_action
  do_snapshot :: json
  do_state :: dag_op_state
  do_process :: "process option"
  do_result :: "json option"
  do_updated :: time

record dag_process =
  pr_graph :: pystr
  pr_lease :: token
  pr_process :: process

record dag_db = coord_db +
  dag_processes :: "(pystr, dag_process) table"
  dag_ops :: "(pystr, dag_op) table"
  dag_gc :: "pystr list option"

text \<open>
  \<open>de_stamp\<close> is \<open>process_stamp\<close>, \<open>de_self\<close> the process that executes, \<open>de_scope\<close> its \<open>scope_owner()\<close>; \<open>de_role\<close> the role of
  an identity, \<open>de_paths\<close> the checks of \<open>authority\<close> on project, repository, storage and worktrees; \<open>de_tree\<close> what Git
  says of a ready worktree: base, head, status and content.
\<close>

record dag_env = coord_env +
  de_stamp :: "int \<Rightarrow> pystr option"
  de_self :: process
  de_scope :: owner
  de_role :: "pystr \<Rightarrow> pystr"
  de_paths :: "json \<Rightarrow> unit result"
  de_tree :: "pystr \<times> agent_node \<Rightarrow> (pystr \<times> pystr \<times> pystr \<times> pystr) result"

definition is_alive :: "('e dag_env_scheme) \<Rightarrow> process \<Rightarrow> bool" where
  "is_alive e p \<longleftrightarrow> de_stamp e (fst p) = Some (snd p)"

definition set_graph :: "pystr \<Rightarrow> (agent_graph \<Rightarrow> agent_graph) \<Rightarrow> dag_db \<Rightarrow> dag_db" where
  "set_graph k f db = db\<lparr>agent_graphs := update_key k (\<lambda>_. True) f (agent_graphs db)\<rparr>"

definition set_run :: "pystr \<Rightarrow> (agent_run \<Rightarrow> bool) \<Rightarrow> (agent_run \<Rightarrow> agent_run) \<Rightarrow> dag_db \<Rightarrow> dag_db" where
  "set_run i c f db = db\<lparr>agent_runs := update_key i c f (agent_runs db)\<rparr>"

definition set_dag_op :: "pystr \<Rightarrow> (dag_op \<Rightarrow> bool) \<Rightarrow> (dag_op \<Rightarrow> dag_op) \<Rightarrow> dag_db \<Rightarrow> dag_db" where
  "set_dag_op k c f db = db\<lparr>dag_ops := update_key k c f (dag_ops db)\<rparr>"

section \<open>Authority\<close>

definition dag_get :: "pystr \<Rightarrow> dag_db \<Rightarrow> agent_graph result" where
  "dag_get k db = (case map_of (agent_graphs db) k of None \<Rightarrow> Inl (KeyError ''DAG not found'') | Some g \<Rightarrow> Inr g)"

definition dag_operator :: "('e dag_env_scheme) \<Rightarrow> pystr \<Rightarrow> dag_db \<Rightarrow> agent_graph result" where
  "dag_operator e k db = bind_result (dag_get k db) (\<lambda>g.
     if ce_role e \<noteq> ''admin'' \<or> gr_owner g \<noteq> de_scope e \<or> ce_delegated e
     then Inl (denied ''DAG is outside this admin owner scope'') else Inr g)"

definition dag_configuration :: "('e dag_env_scheme) \<Rightarrow> agent_graph \<Rightarrow> dag_db \<Rightarrow> unit result" where
  "dag_configuration e g db = bind_result (ce_settings e) (\<lambda>st.
     guard ((gr_address g, gr_namespace g, gr_queue g) = (s_address st, s_namespace st, graph_queue db))
       (denied ''DAG host configuration changed''))"

definition dag_contract :: "('e dag_env_scheme) \<Rightarrow> agent_graph \<Rightarrow> dag_db \<Rightarrow> budget_row result" where
  "dag_contract e g db = (case map_of (task_budgets db) (gr_owner g, gr_root g) of
     None \<Rightarrow> Inl (denied ''DAG root budget disappeared'')
   | Some row \<Rightarrow>
       if canonical (JObj [(''schema_version'', JInt 1),
           (''root_ref'', JStr (sha256 (gr_owner g @ char_of (0::nat) # gr_root g))),
           (''deadline'', JFloat (ce_repr e (deadline row))), (''limits'', limits_json (ce_repr e) (b_limits row))]) \<noteq> gr_contract g
       then Inl (denied ''DAG root budget contract changed'') else Inr row)"

definition saved_owner :: "json \<Rightarrow> owner" where
  "saved_owner p = dumps True True (JArr [jget p ''source'', jget p ''identity'', jget p ''project'', jget p ''session''])"

definition dag_authority :: "('e dag_env_scheme) \<Rightarrow> bool \<Rightarrow> agent_graph \<Rightarrow> pystr \<Rightarrow> dag_db \<Rightarrow> json result" where
  "dag_authority e admission g gid db = bind_result (dag_configuration e g db) (\<lambda>_.
     bind_result (assert_owner_active db (gr_owner g)) (\<lambda>_.
     bind_result (get_node (gr_owner g) (gr_anchor g) db) (\<lambda>n. let p = nd_payload n in
     if jget p ''temporal_graph'' \<noteq> JStr gid \<or> jget p ''role'' \<noteq> JStr ''admin'' then Inl (denied ''DAG anchor authority changed'')
     else if \<not> one_of [''local'', ''api'', ''websocket'', ''communication''] (jget p ''source'')
       \<or> (jget p ''identity'' = JStr ''local'' \<and> jget p ''source'' \<noteq> JStr ''local'') then Inl (denied ''Invalid DAG source identity'')
     else if jget p ''identity'' \<noteq> JStr ''local'' \<and> de_role e (jtext_of (jget p ''identity'')) \<noteq> ''admin''
     then Inl (denied ''DAG owner is no longer admin'')
     else if saved_owner p \<noteq> gr_owner g \<or> jget p ''budget_owner'' \<noteq> JStr (gr_owner g) \<or> jget p ''budget_root'' \<noteq> JStr (gr_root g)
     then Inl (denied ''DAG owner or budget binding changed'')
     else bind_result (de_paths e p) (\<lambda>_.
       if admission then bind_result (new_backend (ce_trial e) (gr_owner g) ''temporal'') (\<lambda>backend.
         if backend \<noteq> ''temporal'' then Inl (denied ''DAG trial admission closed'') else Inr p)
       else Inr p))))"

text \<open>The fields a node shares with the anchor of its graph.\<close>

definition same_authority :: "json \<Rightarrow> json \<Rightarrow> bool" where
  "same_authority p anchor \<longleftrightarrow> list_all (\<lambda>k. jget p k = jget anchor k)
     [''source'', ''identity'', ''project'', ''session'', ''role'', ''repository'', ''storage'', ''budget_owner'', ''budget_root'', ''temporal_graph'']"

section \<open>Nodes of a graph\<close>

definition dag_nodes :: "agent_graph \<Rightarrow> dag_db \<Rightarrow> (pystr \<times> agent_node) list" where
  "dag_nodes g db = asc (\<lambda>(_, n). nd_updated n) (asc fst (select_where (\<lambda>_ n. nd_owner n = gr_owner g \<and> nd_root n = gr_root g)
     (agent_nodes db)))"

definition node_ready :: "agent_node \<Rightarrow> (pystr \<times> agent_node) list \<Rightarrow> bool" where
  "node_ready n ns \<longleftrightarrow> nd_state n = NQueued
     \<and> list_all (\<lambda>k. case map_of ns k of None \<Rightarrow> False | Some d \<Rightarrow> dep_met n (k, d)) (nd_deps n)"

definition stop_node :: "time \<Rightarrow> agent_node \<Rightarrow> agent_node" where
  "stop_node t n = to_state t (if nd_lease n \<noteq> None then NCancelRequested else NCancelled) n"

definition stop_graph :: "time \<Rightarrow> pystr \<Rightarrow> pystr \<Rightarrow> dag_db \<Rightarrow> unit result \<times> dag_db" where
  "stop_graph t k reason db = (if reason \<notin> {''cancelled'', ''needs_input''} then (Inl (ValueError ''Invalid DAG stop reason''), db)
     else txn db (bind_result (dag_get k db) (\<lambda>g.
       if graph_terminal (gr_state g)
       then Inr ((), if gr_state g = ''completed''
         then set_graph k (\<lambda>g. g\<lparr>gr_stop := Some reason, gr_sealed := True, gr_updated := t\<rparr>) db else db)
       else Inr ((), (set_graph k (\<lambda>g. g\<lparr>gr_sealed := True, gr_state := ''cancelling'', gr_stop := Some reason, gr_updated := t\<rparr>) db)
         \<lparr>agent_nodes := update_where (\<lambda>_ n. nd_owner n = gr_owner g \<and> nd_root n = gr_root g
             \<and> nd_state n \<in> {NQueued, NRunning, NReviewPending, NMerging}) (stop_node t) (agent_nodes db)\<rparr>))))"

definition seal_graph :: "('e dag_env_scheme) \<Rightarrow> pystr \<Rightarrow> dag_db \<Rightarrow> unit result \<times> dag_db" where
  "seal_graph e k db = (case dag_operator e k db of Inl x \<Rightarrow> (Inl x, db)
     | Inr _ \<Rightarrow> (Inr (), set_graph k (\<lambda>g. g\<lparr>gr_sealed := True, gr_updated := ce_now e\<rparr>) db))"

definition cancel_graph :: "('e dag_env_scheme) \<Rightarrow> pystr \<Rightarrow> dag_db \<Rightarrow> unit result \<times> dag_db" where
  "cancel_graph e k db = (case dag_operator e k db of Inl x \<Rightarrow> (Inl x, db)
     | Inr _ \<Rightarrow> stop_graph (ce_now e) k ''cancelled'' db)"

section \<open>The snapshot of a graph\<close>

record dag_probe =
  pb_done :: bool
  pb_stop :: bool
  pb_ready :: "pystr list"
  pb_concurrency :: int

definition authority_error :: "exn \<Rightarrow> bool" where
  "authority_error x = (case x of PermissionError _ \<Rightarrow> True | KeyError _ \<Rightarrow> True | ValueError _ \<Rightarrow> True | _ \<Rightarrow> False)"

text \<open>
  \<open>snapshot\<close> is three transactions.  The first reads the root and the authority and stops a graph that may
  not go on; it yields the probe of a finished graph, or the root task it read.
\<close>

definition snapshot_admit :: "('e dag_env_scheme) \<Rightarrow> pystr \<Rightarrow> dag_db \<Rightarrow> (dag_probe + task_row option) result \<times> dag_db" where
  "snapshot_admit e k db = (case dag_get k db of Inl x \<Rightarrow> (Inl x, db)
   | Inr g \<Rightarrow> if graph_terminal (gr_state g)
     then (Inr (Inl \<lparr>pb_done = True, pb_stop = (gr_state g \<noteq> ''completed''), pb_ready = [], pb_concurrency = 1\<rparr>), db)
     else (let rt = map_of (tasks db) (gr_owner g, gr_root g) in
       case bind_result (dag_authority e True g k db) (\<lambda>_. dag_contract e g db) of
         Inl x \<Rightarrow> if authority_error x
           then (case stop_graph (ce_now e) k (if map_option tstate rt = Some Cancelled then ''cancelled'' else ''needs_input'') db of
             (Inl y, db1) \<Rightarrow> (Inl y, db1) | (Inr _, db1) \<Rightarrow> (Inr (Inr rt), db1))
           else (Inl x, db)
       | Inr row \<Rightarrow> if root_stopped rt \<or> deadline row \<le> ce_now e
           then (case stop_graph (ce_now e) k (if map_option tstate rt = Some Cancelled then ''cancelled'' else ''needs_input'') db of
             (Inl y, db1) \<Rightarrow> (Inl y, db1) | (Inr _, db1) \<Rightarrow> (Inr (Inr rt), db1))
           else (Inr (Inr rt), db)))"

text \<open>The second recovers the creation of reviewers; \<open>ids\<close> gives each the fresh identifiers it may take.\<close>

fun review_all :: "coord_env \<Rightarrow> (pystr \<Rightarrow> pystr \<times> pystr) \<Rightarrow> owner \<Rightarrow> pystr list \<Rightarrow> dag_db \<Rightarrow> unit result \<times> dag_db" where
  "review_all e ids ow [] db = (Inr (), db)"
| "review_all e ids ow (i # is) db = (case ensure_review e (ids i) ow i db of
     (Inl x, db1) \<Rightarrow> (Inl x, db1) | (Inr _, db1) \<Rightarrow> review_all e ids ow is db1)"

definition snapshot_reviews :: "coord_env \<Rightarrow> (pystr \<Rightarrow> pystr \<times> pystr) \<Rightarrow> pystr \<Rightarrow> dag_db \<Rightarrow> unit result \<times> dag_db" where
  "snapshot_reviews e ids k db = (case dag_get k db of Inl x \<Rightarrow> (Inl x, db)
   | Inr g \<Rightarrow> if gr_state g = ''cancelling'' then (Inr (), db)
     else review_all e ids (gr_owner g) (map fst (filter (\<lambda>(_, n). nd_state n = NReviewPending) (dag_nodes g db))) db)"

text \<open>The third fails what can no longer run, finishes a graph with no work left and lists what is ready.\<close>

definition blocked_node :: "agent_node \<Rightarrow> (pystr \<times> agent_node) list \<Rightarrow> bool" where
  "blocked_node n ns \<longleftrightarrow> nd_state n = NQueued
     \<and> list_ex (\<lambda>k. case map_of ns k of None \<Rightarrow> True | Some d \<Rightarrow> nd_state d \<in> STOPPED) (nd_deps n)"

fun fail_blocked :: "time \<Rightarrow> (pystr \<times> agent_node) list \<Rightarrow> (pystr \<times> agent_node) list \<Rightarrow> dag_db \<Rightarrow>
    (pystr \<times> agent_node) list \<times> dag_db" where
  "fail_blocked t [] ns db = (ns, db)"
| "fail_blocked t ((i, n) # rest) ns db = (if blocked_node n ns
     then fail_blocked t rest (AList.update i (n\<lparr>nd_state := NFailed\<rparr>) ns) (set_node i (\<lambda>_. True) (to_state t NFailed) db)
     else fail_blocked t rest ns db)"

definition graph_done :: "agent_graph \<Rightarrow> task_row option \<Rightarrow> (pystr \<times> agent_node) list \<Rightarrow> bool" where
  "graph_done g rt ns \<longleftrightarrow> list_all (\<lambda>(_, n). nd_state n \<in> SUCCESS \<union> STOPPED) ns
     \<and> (gr_state g = ''cancelling'' \<or> gr_sealed g \<or> (case rt of None \<Rightarrow> True | Some r \<Rightarrow> terminal (tstate r)))"

definition final_state :: "agent_graph \<Rightarrow> (pystr \<times> agent_node) list \<Rightarrow> pystr" where
  "final_state g ns = (case gr_stop g of Some r \<Rightarrow> r
     | None \<Rightarrow> if list_all (\<lambda>(_, n). nd_state n \<in> SUCCESS) ns then ''completed'' else ''needs_input'')"

definition node_concurrency :: "agent_node \<Rightarrow> int" where
  "node_concurrency n = (case jfield (nd_payload n) ''concurrency'' of None \<Rightarrow> 1 | Some v \<Rightarrow> jint_of v)"

definition snapshot_settle :: "time \<Rightarrow> pystr \<Rightarrow> task_row option \<Rightarrow> dag_db \<Rightarrow> dag_probe result \<times> dag_db" where
  "snapshot_settle t k rt db = txn db (bind_result (dag_get k db) (\<lambda>g.
     let (ns, db1) = fail_blocked t (dag_nodes g db) (dag_nodes g db) db; finished = graph_done g rt ns;
         state = final_state g ns; stop = (if finished then state \<noteq> ''completed'' else gr_state g = ''cancelling'') in
     Inr (\<lparr>pb_done = finished, pb_stop = stop,
         pb_ready = (if stop \<or> finished then [] else map fst (filter (\<lambda>(_, n). node_ready n ns) ns)),
         pb_concurrency = (if ns = [] then 1 else Min (set (map (\<lambda>(_, n). node_concurrency n) ns)))\<rparr>,
       if finished then set_graph k (\<lambda>g. g\<lparr>gr_state := state, gr_sealed := True, gr_updated := t\<rparr>) db1 else db1)))"

definition dag_snapshot :: "('e dag_env_scheme) \<Rightarrow> (pystr \<Rightarrow> pystr \<times> pystr) \<Rightarrow> pystr \<Rightarrow> dag_db \<Rightarrow> dag_probe result \<times> dag_db" where
  "dag_snapshot e ids k db = (case snapshot_admit e k db of (Inl x, db1) \<Rightarrow> (Inl x, db1)
   | (Inr (Inl p), db1) \<Rightarrow> (Inr p, db1)
   | (Inr (Inr rt), db1) \<Rightarrow> (case snapshot_reviews (coord_env.truncate e) ids k db1 of (Inl x, db2) \<Rightarrow> (Inl x, db2)
     | (Inr _, db2) \<Rightarrow> snapshot_settle (ce_now e) k rt db2))"

section \<open>Running a node\<close>

text \<open>
  \<open>claim\<close>: the admission of one node execution.  A node with a run already is \<open>None\<close>; \<open>tok\<close> is the fresh lease.
  Other rows are read on another connection, before this transaction.
\<close>

definition bind_child :: "json \<Rightarrow> pystr \<Rightarrow> dag_db \<Rightarrow> dag_db result" where
  "bind_child p i db = (let key = (node_task_owner p, node_task i); bs = (case execution_bindings db of None \<Rightarrow> [] | Some bs \<Rightarrow> bs) in
     case map_of bs key of
       Some b \<Rightarrow> if b \<noteq> ''temporal'' then Inl (denied ''Legacy child task cannot migrate into this DAG'') else Inr db
     | None \<Rightarrow> if map_of (tasks db) key \<noteq> None then Inl (denied ''Existing child task cannot migrate into this DAG'')
         else Inr (db\<lparr>execution_bindings := Some (insert_or_ignore key ''temporal'' bs)\<rparr>))"

definition claim_checks :: "('e dag_env_scheme) \<Rightarrow> agent_graph \<Rightarrow> pystr \<Rightarrow> agent_node \<Rightarrow> budget_row \<Rightarrow> dag_db \<Rightarrow> unit result" where
  "claim_checks e g i n row db =
     (if \<not> node_ready n (dag_nodes g db) then Inl (denied ''DAG dependency has not succeeded'')
      else if nd_deadline n \<le> ce_now e then Inl (denied ''Node deadline expired'')
      else bind_result (get_node (gr_owner g) (gr_anchor g) db) (\<lambda>anchor.
        if \<not> same_authority (nd_payload n) (nd_payload anchor) then Inl (denied ''Node authority differs from root'')
        else if pint n ''depth'' > l_depth (b_limits row) then Inl (denied ''Node depth changed'')
        else if int (running_count (ce_now e) db) \<ge> pint n ''concurrency'' then Inl (PyRuntimeError ''Coordinator concurrency is full'')
        else Inr ()))"

definition start_node :: "('e dag_env_scheme) \<Rightarrow> token \<Rightarrow> pystr \<Rightarrow> pystr \<Rightarrow> agent_node \<Rightarrow> dag_db \<Rightarrow> dag_db result" where
  "start_node e tok k i n db = bind_result (bind_child (nd_payload n) i db) (\<lambda>db1.
     log_event (ce_now e) i (nd_owner n) ''temporal_claimed'' (JObj [])
       ((set_node i (\<lambda>_. True) (lease_node (ce_now e) tok) db1)\<lparr>agent_runs := agent_runs db1 @ [(i,
          \<lparr>rn_graph = k, rn_state = ''started'', rn_lease = tok, rn_process = de_self e, rn_updated = ce_now e\<rparr>)]\<rparr>))"

definition claim_graph_node :: "('e dag_env_scheme) \<Rightarrow> token \<Rightarrow> pystr \<Rightarrow> pystr \<Rightarrow> dag_db \<Rightarrow> (pystr \<times> agent_node) option result \<times> dag_db" where
  "claim_graph_node e tok k i db = txn db (bind_result (dag_get k db) (\<lambda>g.
     bind_result (dag_authority e True g k db) (\<lambda>_. bind_result (dag_contract e g db) (\<lambda>row.
     if gr_state g \<notin> {''pending'', ''running''} \<or> deadline row \<le> ce_now e then Inl (denied ''DAG has stopped'')
     else case map_of (dag_nodes g db) i of None \<Rightarrow> Inl (denied ''Node belongs to another DAG'')
     | Some n \<Rightarrow> if map_of (agent_runs db) i \<noteq> None then Inr (None, db)
       else bind_result (claim_checks e g i n row db) (\<lambda>_. bind_result (start_node e tok k i n db) (\<lambda>db1.
         Inr (Some (i, (lease_node (ce_now e) tok n)\<lparr>nd_updated := nd_updated n\<rparr>), db1)))))))"

text \<open>
  The end of an activity that did not finish, and of the process that executed a node.  \<open>node_stopped\<close> reads and
  writes in one step here; the code reads before its transaction begins, so its caller must know that no process
  of the node is left.
\<close>

definition node_stopped :: "time \<Rightarrow> pystr \<Rightarrow> pystr \<Rightarrow> dag_db \<Rightarrow> unit result \<times> dag_db" where
  "node_stopped t k i db = txn db (bind_result (dag_get k db) (\<lambda>g. bind_result (get_node (gr_owner g) i db) (\<lambda>n.
     if nd_root n \<noteq> gr_root g then Inl (denied ''Node belongs to another DAG'')
     else let started = map_of (agent_runs db) i \<noteq> None in
       Inr ((), set_run i (\<lambda>r. rn_state r = ''started'') (\<lambda>r. r\<lparr>rn_state := ''uncertain'', rn_updated := t\<rparr>)
         (if nd_state n \<in> {NRunning, NCancelRequested, NQueued} \<or> (nd_state n = NFailed \<and> started)
          then set_node i (\<lambda>_. True) (to_state t (if started then NNeedsResolution else NCancelled)) db else db)))))"

definition process_done :: "time \<Rightarrow> pystr \<Rightarrow> pystr \<times> agent_node \<Rightarrow> dag_db \<Rightarrow> unit result \<times> dag_db" where
  "process_done t k w db = txn db (bind_result (dag_get k db) (\<lambda>g. bind_result (get_node (gr_owner g) (fst w) db) (\<lambda>n.
     if nd_root n \<noteq> gr_root g then Inl (denied ''Node belongs to another DAG'')
     else let mine = (\<lambda>m. nd_lease (snd w) \<noteq> None \<and> nd_lease m = nd_lease (snd w));
         db1 = (if nd_state n \<in> {NRunning, NCancelRequested, NQueued}
           then set_node (fst w) mine (to_state t (if nd_state n = NCancelRequested then NCancelled else NNeedsResolution)) db else db);
         db2 = set_run (fst w) (\<lambda>r. Some (rn_lease r) = nd_lease (snd w)) (\<lambda>r. r\<lparr>rn_state := ''completed'', rn_updated := t\<rparr>) db1 in
       Inr ((), set_node (fst w) mine release db2))))"

text \<open>The last transaction of \<open>dispatch\<close>, after the workflow was started.\<close>

definition graph_dispatched :: "time \<Rightarrow> pystr \<Rightarrow> dag_db \<Rightarrow> dag_db" where
  "graph_dispatched t k db = set_graph k (\<lambda>g. g\<lparr>gr_dispatched := True,
     gr_state := (if gr_state g = ''pending'' then ''running'' else gr_state g), gr_updated := t\<rparr>) db"

section \<open>Live processes\<close>

definition open_op :: "dag_op \<Rightarrow> bool" where
  "open_op p \<longleftrightarrow> do_state p \<in> {OPending, OStarted, OUncertain}"

text \<open>A process with the number 0 counts as none.\<close>

definition live :: "('e dag_env_scheme) \<Rightarrow> pystr \<Rightarrow> pystr option \<Rightarrow> pystr option \<Rightarrow> dag_db \<Rightarrow> bool" where
  "live e k node exclude db \<longleftrightarrow>
     list_ex (\<lambda>(i, p). pr_graph p = k \<and> (node = None \<or> node = Some i) \<and> fst (pr_process p) \<noteq> 0 \<and> is_alive e (pr_process p))
       (dag_processes db)
   \<or> list_ex (\<lambda>(o', p). do_graph p = k \<and> (node = None \<or> node = Some (do_node p)) \<and> open_op p \<and> exclude \<noteq> Some o'
       \<and> (case do_process p of None \<Rightarrow> False | Some q \<Rightarrow> fst q \<noteq> 0 \<and> is_alive e q)) (dag_ops db)"

definition run_alive :: "('e dag_env_scheme) \<Rightarrow> agent_run \<Rightarrow> bool" where
  "run_alive e r \<longleftrightarrow> rn_state r \<in> {''started'', ''uncertain''} \<and> is_alive e (rn_process r)"

definition graphs_busy :: "('e dag_env_scheme) \<Rightarrow> owner list \<Rightarrow> dag_db \<Rightarrow> bool" where
  "graphs_busy e owners db \<longleftrightarrow> list_ex (\<lambda>ow. list_ex (\<lambda>(k, g). gr_owner g = ow \<and>
     (live e k None None db \<or> list_ex (\<lambda>(_, r). rn_graph r = k \<and> run_alive e r) (agent_runs db))) (agent_graphs db)) owners"

definition register_process :: "('e dag_env_scheme) \<Rightarrow> pystr \<times> agent_node \<Rightarrow> dag_db \<Rightarrow> unit result \<times> dag_db" where
  "register_process e w db = (if \<not> jtruth (jget (nd_payload (snd w)) ''temporal_graph'') then (Inr (), db)
     else txn db (case map_of (agent_runs db) (fst w) of
       None \<Rightarrow> Inl (denied ''DAG Activity process no longer owns this node'')
     | Some r \<Rightarrow> if nd_lease (snd w) \<noteq> Some (rn_lease r) \<or> rn_state r \<noteq> ''started'' \<or> \<not> is_alive e (rn_process r)
         then Inl (denied ''DAG Activity process no longer owns this node'')
         else let row = \<lparr>pr_graph = rn_graph r, pr_lease = rn_lease r, pr_process = de_self e\<rparr> in
         case map_of (dag_processes db) (fst w) of
           Some old \<Rightarrow> if (pr_lease old, pr_process old) \<noteq> (rn_lease r, de_self e)
             then Inl (denied ''DAG node already has a process identity'') else Inr ((), db)
         | None \<Rightarrow> Inr ((), db\<lparr>dag_processes := dag_processes db @ [(fst w, row)]\<rparr>)))"

end
