(* ===== verification/Dag_Lifecycle.thy ===== *)
theory Dag_Lifecycle
  imports Dag
begin

text \<open>
  \<open>temporal_backend/dag_lifecycle.py\<close>: merge and archive of a node as a durable operation, the fence of a merge,
  and the recovery of dead processes.
\<close>

section \<open>The wire contract\<close>

text \<open>\<open>dag_contracts.py\<close>: what crosses the boundary of the workflow is checked on both sides.\<close>

definition dag_reference :: "json \<Rightarrow> bool" where
  "dag_reference v \<longleftrightarrow> is_str v \<and> hex_text 32 (jtext_of v)"

definition check_envelope :: "bool \<Rightarrow> json \<Rightarrow> json result" where
  "check_envelope child v = (if has_keys v (if child then [''graph_id'', ''node_id''] else [''graph_id''])
       \<and> list_all (\<lambda>(_, x). dag_reference x) (jpairs v)
     then Inr v else Inl (ValueError ''Invalid DAG reference''))"

definition is_bool :: "json \<Rightarrow> bool" where
  "is_bool v \<longleftrightarrow> (case v of JBool _ \<Rightarrow> True | _ \<Rightarrow> False)"

definition check_probe :: "json \<Rightarrow> json result" where
  "check_probe v = (if \<not> has_keys v [''done'', ''stop'', ''ready'', ''concurrency''] then Inl (ValueError ''Invalid DAG probe'')
     else if \<not> is_bool (jget v ''done'') \<or> \<not> is_bool (jget v ''stop'') then Inl (ValueError ''Invalid DAG state'')
     else if \<not> is_int (jget v ''concurrency'') \<or> \<not> (1 \<le> jint_of (jget v ''concurrency'') \<and> jint_of (jget v ''concurrency'') \<le> 8)
     then Inl (ValueError ''Invalid DAG concurrency'')
     else let ids = jget v ''ready'' in
       if \<not> is_list ids \<or> length (jitems ids) > 128 \<or> \<not> list_all dag_reference (jitems ids) \<or> \<not> distinct (jitems ids)
       then Inl (ValueError ''Invalid DAG ready nodes'')
       else if (jtruth (jget v ''stop'') \<or> jtruth (jget v ''done'')) \<and> jitems ids \<noteq> [] then Inl (ValueError ''Stopped DAG cannot start nodes'')
       else Inr v)"

definition check_node_result :: "json \<Rightarrow> json result" where
  "check_node_result v = (if \<not> has_keys v [''graph_id'', ''node_id'', ''cancelled''] \<or> \<not> is_bool (jget v ''cancelled'')
     then Inl (ValueError ''Invalid DAG node result'')
     else bind_result (check_envelope True (JObj [(''graph_id'', jget v ''graph_id''), (''node_id'', jget v ''node_id'')])) (\<lambda>_. Inr v))"

text \<open>A snapshot as it is sent.\<close>

definition probe_json :: "dag_probe \<Rightarrow> json" where
  "probe_json p = JObj [(''done'', JBool (pb_done p)), (''stop'', JBool (pb_stop p)), (''ready'', JArr (map JStr (pb_ready p))),
     (''concurrency'', JInt (pb_concurrency p))]"

section \<open>The fence of a merge\<close>

text \<open>
  \<open>permit\<close> is the operation the caller executes (a context variable), \<open>pending\<close> the one under validation.
\<close>

definition merge_intent :: "pystr \<Rightarrow> dag_db \<Rightarrow> (pystr \<times> dag_op) option" where
  "merge_intent i db = (case select_where (\<lambda>_ p. do_node p = i \<and> do_action p = Merge) (dag_ops db) of [] \<Rightarrow> None | p # _ \<Rightarrow> Some p)"

definition merge_allowed :: "pystr option \<Rightarrow> pystr option \<Rightarrow> pystr \<times> dag_op \<Rightarrow> bool" where
  "merge_allowed permit pending p \<longleftrightarrow> (permit = Some (fst p) \<and> do_state (snd p) = OStarted)
     \<or> (pending = Some (fst p) \<and> do_state (snd p) = OPending)"

definition merge_guard :: "('e dag_env_scheme) \<Rightarrow> pystr option \<Rightarrow> pystr option \<Rightarrow> pystr \<times> agent_node \<Rightarrow> dag_db \<Rightarrow> unit result" where
  "merge_guard e permit pending w db = (let gid = jget (nd_payload (snd w)) ''temporal_graph'' in
     if \<not> jtruth gid then Inr ()
     else bind_result (dag_get (jtext_of gid) db) (\<lambda>g. bind_result (dag_authority e False g (jtext_of gid) db) (\<lambda>_.
       bind_result (dag_contract e g db) (\<lambda>row.
       if gr_stop g \<noteq> None \<or> gr_state g \<in> {''cancelling'', ''cancelled''} \<or> root_stopped (map_of (tasks db) (gr_owner g, gr_root g))
         \<or> deadline row \<le> ce_now e
       then Inl (denied ''DAG merge fenced by cancellation or deadline'')
       else (case merge_intent (fst w) db of None \<Rightarrow> Inr ()
         | Some p \<Rightarrow> if merge_allowed permit pending p then Inr ()
             else Inl (denied ''DAG merge belongs to a durable lifecycle intent''))))))"

section \<open>Validation\<close>

definition same_lifecycle :: "json \<Rightarrow> json \<Rightarrow> bool" where
  "same_lifecycle p anchor \<longleftrightarrow> list_all (\<lambda>k. jget p k = jget anchor k)
     [''source'', ''identity'', ''session'', ''project'', ''role'', ''repository'', ''storage'', ''budget_owner'', ''budget_root'', ''temporal_graph'']"

definition opt_json :: "json option \<Rightarrow> json" where
  "opt_json v = (case v of None \<Rightarrow> JNull | Some x \<Rightarrow> x)"

definition opt_str :: "pystr option \<Rightarrow> json" where
  "opt_str v = (case v of None \<Rightarrow> JNull | Some s \<Rightarrow> JStr s)"

text \<open>A result to merge: reviewed by a reviewer of this graph that approved it.\<close>

definition validate_merge :: "('e dag_env_scheme) \<Rightarrow> pystr option \<Rightarrow> agent_graph \<Rightarrow> pystr \<Rightarrow> pystr \<times> agent_node \<Rightarrow> dag_db \<Rightarrow> agent_node result" where
  "validate_merge e pending g k w db = bind_result (merge_guard e None pending w db) (\<lambda>_.
     case (nd_parent (snd w), nd_state (snd w) = NReviewed, nd_reviewed_by (snd w)) of
       (None, True, Some rv) \<Rightarrow> bind_result (get_node (gr_owner g) rv db) (\<lambda>r.
         if nd_review_of r \<noteq> Some (fst w) \<or> nd_root r \<noteq> nd_root (snd w) \<or> jget (nd_payload r) ''temporal_graph'' \<noteq> JStr k
         then Inl (denied ''Reviewer belongs to another result'')
         else (if nd_state r \<noteq> NCompleted then Inl (denied ''Independent Reviewer did not approve'')
           else (case nd_result r of None \<Rightarrow> Inl (AttributeError ''no result'')
           | Some res \<Rightarrow> bind_result (py_get res ''verified'' JNull) (\<lambda>v.
               if \<not> jtruth v \<or> \<not> is_approval (jget res ''review'') then Inl (denied ''Independent Reviewer did not approve'') else Inr r))))
     | _ \<Rightarrow> Inl (denied ''Only a reviewed immediate-root Coder can be merged by this operator''))"

definition lease_alive :: "time \<Rightarrow> agent_node \<Rightarrow> bool" where
  "lease_alive t n = after_time t (nd_expires n)"

definition validate_archive :: "('e dag_env_scheme) \<Rightarrow> pystr option \<Rightarrow> agent_graph \<Rightarrow> pystr \<Rightarrow> agent_node \<Rightarrow> dag_db \<Rightarrow> unit result" where
  "validate_archive e pending g k n db =
     (if nd_state n \<notin> STOPPED \<union> {NMerged, NCompleted} then Inl (denied ''Stop and inspect the node before archiving its worktree'')
      else if \<not> graph_terminal (gr_state g) then Inl (denied ''DAG must finish and all processes drain before archival'')
      else if list_ex (\<lambda>(i, m). lease_alive (ce_now e) m \<or> live e k (Some i) pending db) (dag_nodes g db)
      then Inl (denied ''DAG must finish and all processes drain before archival'')
      else if list_ex (\<lambda>(_, r). rn_graph r = k \<and> run_alive e r) (agent_runs db) then Inl (denied ''DAG Activity has not drained'')
      else Inr ())"

definition lifecycle_snapshot :: "pystr \<times> pystr \<times> pystr \<times> pystr \<Rightarrow> agent_node \<Rightarrow> json option \<Rightarrow> json" where
  "lifecycle_snapshot tree n review = (case tree of (base, head, status, content) \<Rightarrow>
     JObj [(''base'', JStr base), (''head'', JStr head), (''status'', JStr status), (''content'', JStr content),
       (''result'', JStr (digest (opt_json (nd_result n)))), (''reviewer'', opt_str (nd_reviewed_by n)),
       (''review'', (case review of None \<Rightarrow> JNull | Some r \<Rightarrow> JStr (digest r)))])"

definition validate_op :: "('e dag_env_scheme) \<Rightarrow> pystr \<times> agent_node \<Rightarrow> dag_action \<Rightarrow> pystr option \<Rightarrow> dag_db \<Rightarrow> json result" where
  "validate_op e w action pending db = (let k = jtext_of (jget (nd_payload (snd w)) ''temporal_graph'') in
     bind_result (dag_get k db) (\<lambda>g. bind_result (dag_authority e False g k db) (\<lambda>anchor.
     if \<not> same_lifecycle (nd_payload (snd w)) anchor then Inl (denied ''Lifecycle node authority differs from its DAG'')
     else if live e k (Some (fst w)) pending db then Inl (denied ''DAG node still has a live process'')
     else if (case map_of (agent_runs db) (fst w) of None \<Rightarrow> False | Some r \<Rightarrow> run_alive e r) then Inl (denied ''DAG Activity has not drained'')
     else if lease_alive (ce_now e) (snd w) \<or> child_leased (ce_now e) (child_task db w) then Inl (denied ''DAG node lease has not drained'')
     else bind_result (case action of
         Merge \<Rightarrow> bind_result (validate_merge e pending g k w db) (\<lambda>r. Inr (Some (opt_json (nd_result r))))
       | Archive \<Rightarrow> bind_result (validate_archive e pending g k (snd w) db) (\<lambda>_. Inr None)) (\<lambda>review.
       bind_result (de_tree e w) (\<lambda>tree. Inr (lifecycle_snapshot tree (snd w) review))))))"

section \<open>Operations\<close>

definition op_of :: "pystr \<Rightarrow> pystr \<Rightarrow> dag_action \<Rightarrow> dag_db \<Rightarrow> pystr option" where
  "op_of k i action db = (case select_where (\<lambda>_ p. do_graph p = k \<and> do_node p = i \<and> do_action p = action) (dag_ops db) of
     [] \<Rightarrow> None | (o', _) # _ \<Rightarrow> Some o')"

definition get_dag_op :: "pystr \<Rightarrow> dag_db \<Rightarrow> dag_op result" where
  "get_dag_op o' db = (case map_of (dag_ops db) o' of None \<Rightarrow> Inl (KeyError ''DAG operation not found'') | Some p \<Rightarrow> Inr p)"

definition request_op :: "('e dag_env_scheme) \<Rightarrow> pystr \<Rightarrow> pystr \<Rightarrow> pystr \<Rightarrow> dag_action \<Rightarrow> dag_db \<Rightarrow> pystr result \<times> dag_db" where
  "request_op e fresh k i action db = (case dag_operator e k db of Inl x \<Rightarrow> (Inl x, db)
   | Inr g \<Rightarrow> txn db (
       if (case dag_gc db of None \<Rightarrow> False | Some ks \<Rightarrow> k \<in> set ks) then Inl (denied ''DAG is fenced by completed or pending History retention'')
       else bind_result (dag_authority e False g k db) (\<lambda>_. bind_result (get_node (gr_owner g) i db) (\<lambda>n.
         if nd_root n \<noteq> gr_root g then Inl (denied ''Node belongs to another DAG'')
         else case op_of k i action db of Some o' \<Rightarrow> Inr (o', db)
         | None \<Rightarrow> if length (dag_ops db) \<ge> 10000 then Inl (ValueError ''DAG operation capacity reached'')
           else bind_result (validate_op e (i, n) action None db) (\<lambda>snap.
             case insert_row fresh \<lparr>do_graph = k, do_node = i, do_action = action, do_snapshot = snap, do_state = OPending,
                 do_process = None, do_result = None, do_updated = ce_now e\<rparr> (dag_ops db) of
               None \<Rightarrow> Inl (IntegrityError ''UNIQUE constraint failed: temporal_dag_operations.id'')
             | Some tb \<Rightarrow> Inr (fresh, db\<lparr>dag_ops := tb\<rparr>))))))"

text \<open>
  The transaction at the start of \<open>execute\<close>: \<open>Some\<close> node when its input and output may begin, \<open>None\<close> when there is
  nothing to do.
\<close>

definition begin_op :: "('e dag_env_scheme) \<Rightarrow> pystr \<Rightarrow> dag_db \<Rightarrow> (pystr \<times> agent_node) option result \<times> dag_db" where
  "begin_op e o' db = (case bind_result (get_dag_op o' db) (\<lambda>p. bind_result (dag_get (do_graph p) db) (\<lambda>g. Inr (p, g))) of
     Inl x \<Rightarrow> (Inl x, db)
   | Inr (p, g) \<Rightarrow> txn db (bind_result (assert_owner_active db (gr_owner g)) (\<lambda>_.
       if do_state p \<in> {OCompleted, OFailed, OUncertain, OCancelled} then Inr (None, db)
       else if do_state p \<noteq> OPending then Inl (denied ''DAG lifecycle I/O was already started; inspect it, never replay'')
       else bind_result (get_node (gr_owner g) (do_node p) db) (\<lambda>n.
         case validate_op e (do_node p, n) (do_action p) (Some o') db of
           Inl x \<Rightarrow> Inr (None, set_dag_op o' (\<lambda>_. True) (\<lambda>q. q\<lparr>do_state := OFailed, do_updated := ce_now e\<rparr>) db)
         | Inr snap \<Rightarrow> if canonical snap \<noteq> canonical (do_snapshot p)
             then Inr (None, set_dag_op o' (\<lambda>_. True) (\<lambda>q. q\<lparr>do_state := OFailed, do_updated := ce_now e\<rparr>) db)
             else Inr (Some (do_node p, n), set_dag_op o' (\<lambda>q. do_state q = OPending)
               (\<lambda>q. q\<lparr>do_state := OStarted, do_process := Some (de_self e), do_updated := ce_now e\<rparr>) db)))))"

text \<open>Its ends: the merge or archive returned, or it raised.\<close>

definition action_name :: "dag_action \<Rightarrow> pystr" where
  "action_name a = (case a of Merge \<Rightarrow> ''merge'' | Archive \<Rightarrow> ''archive'')"

definition end_op :: "time \<Rightarrow> pystr \<Rightarrow> json \<Rightarrow> dag_db \<Rightarrow> dag_db" where
  "end_op t o' res db = set_dag_op o' (\<lambda>_. True) (\<lambda>q. q\<lparr>do_state := OCompleted, do_result := Some (JObj
     [(''kind'', JStr (action_name (do_action q))), (''digest'', JStr (digest res))]), do_updated := t\<rparr>) db"

definition lose_op :: "time \<Rightarrow> pystr \<Rightarrow> dag_db \<Rightarrow> dag_db" where
  "lose_op t o' db = set_dag_op o' (\<lambda>_. True) (\<lambda>q. q\<lparr>do_state := OUncertain, do_process := None, do_updated := t\<rparr>) db"

definition cancel_pending :: "time \<Rightarrow> pystr \<Rightarrow> dag_db \<Rightarrow> dag_db" where
  "cancel_pending t o' db = set_dag_op o' (\<lambda>q. do_state q = OPending)
     (\<lambda>q. q\<lparr>do_state := OCancelled, do_process := None, do_updated := t\<rparr>) db"

definition observe_op :: "time \<Rightarrow> pystr \<Rightarrow> pystr \<Rightarrow> dag_db \<Rightarrow> unit result \<times> dag_db" where
  "observe_op t o' status db =
     (if status \<notin> {''CANCELED'', ''TERMINATED'', ''FAILED'', ''TIMED_OUT'', ''COMPLETED''} then (Inr (), db)
      else case get_dag_op o' db of Inl x \<Rightarrow> (Inl x, db)
      | Inr p \<Rightarrow> (case (if do_state p = OStarted \<and> status \<noteq> ''COMPLETED'' then stop_graph t (do_graph p) ''cancelled'' db else (Inr (), db)) of
          (Inl x, db1) \<Rightarrow> (Inl x, db1)
        | (Inr _, db1) \<Rightarrow> (Inr (), cancel_pending t o' db1)))"

text \<open>
  Around the start of the workflow \<open>dispatch\<close> marks the operation with its process, unless another live process
  did, and takes the mark away.
\<close>

definition mark_dispatch :: "('e dag_env_scheme) \<Rightarrow> pystr \<Rightarrow> dag_db \<Rightarrow> bool result \<times> dag_db" where
  "mark_dispatch e o' db = txn db (bind_result (get_dag_op o' db) (\<lambda>p. bind_result (dag_get (do_graph p) db) (\<lambda>g.
     bind_result (assert_owner_active db (gr_owner g)) (\<lambda>_.
     if do_state p \<noteq> OPending then Inr (False, db)
     else if (case do_process p of None \<Rightarrow> False | Some q \<Rightarrow> fst q \<noteq> 0 \<and> is_alive e q) then Inr (False, db)
     else Inr (True, set_dag_op o' (\<lambda>_. True) (\<lambda>q. q\<lparr>do_process := Some (de_self e)\<rparr>) db)))))"

definition unmark_dispatch :: "('e dag_env_scheme) \<Rightarrow> pystr \<Rightarrow> dag_db \<Rightarrow> dag_db" where
  "unmark_dispatch e o' db = set_dag_op o' (\<lambda>q. do_state q = OPending \<and> do_process q = Some (de_self e))
     (\<lambda>q. q\<lparr>do_process := None\<rparr>) db"

section \<open>Dead processes\<close>

text \<open>A run whose process died: its node needs a human, its task is uncertain, its run is closed.\<close>

definition close_run :: "time \<Rightarrow> pystr \<times> agent_node \<Rightarrow> dag_db \<Rightarrow> dag_db" where
  "close_run t w db = set_run (fst w) (\<lambda>_. True) (\<lambda>r. r\<lparr>rn_state := ''completed'', rn_updated := t\<rparr>)
     (if nd_state (snd w) \<in> {NRunning, NCancelRequested}
      then (set_node (fst w) (\<lambda>_. True) (\<lambda>n. release (to_state t NNeedsResolution n)) db)
        \<lparr>tasks := update_key (node_task_owner (nd_payload (snd w)), node_task (fst w)) (\<lambda>r. tstate r \<in> {Running, Suspended})
           (\<lambda>r. r\<lparr>tstate := Uncertain, lease_owner := None, lease_until := None\<rparr>) (tasks db)\<rparr>
      else db)"

text \<open>Nodes are read on another connection: \<open>db0\<close> is the state before the transaction.\<close>

fun reap_runs :: "('e dag_env_scheme) \<Rightarrow> dag_db \<Rightarrow> (pystr \<times> agent_run) list \<Rightarrow> dag_db \<Rightarrow> dag_db result" where
  "reap_runs e db0 [] db = Inr db"
| "reap_runs e db0 ((i, r) # rs) db =
     (if is_alive e (rn_process r)
      then reap_runs e db0 rs (set_run i (\<lambda>_. True) (\<lambda>r. r\<lparr>rn_updated := ce_now e\<rparr>) db)
      else if live e (rn_graph r) (Some i) None db
      then reap_runs e db0 rs (set_run i (\<lambda>_. True) (\<lambda>r. r\<lparr>rn_state := ''uncertain'', rn_updated := ce_now e\<rparr>)
        (set_node i (\<lambda>n. nd_state n = NRunning) (to_state (ce_now e) NCancelRequested) db))
      else bind_result (dag_get (rn_graph r) db) (\<lambda>g. bind_result (get_node (gr_owner g) i db0) (\<lambda>n.
        reap_runs e db0 rs (close_run (ce_now e) (i, n) db))))"

fun reap_ops :: "('e dag_env_scheme) \<Rightarrow> (pystr \<times> dag_op) list \<Rightarrow> dag_db \<Rightarrow> dag_db" where
  "reap_ops e [] db = db"
| "reap_ops e ((o', p) # ps) db = (if (case do_process p of None \<Rightarrow> False | Some q \<Rightarrow> is_alive e q)
     then reap_ops e ps (set_dag_op o' (\<lambda>_. True) (\<lambda>q. q\<lparr>do_updated := ce_now e\<rparr>) db)
     else reap_ops e ps (set_node (do_node p) (\<lambda>n. nd_state n = NMerging) (\<lambda>n. release (n\<lparr>nd_state := NNeedsResolution\<rparr>))
       (set_dag_op o' (\<lambda>_. True) (\<lambda>q. q\<lparr>do_state := OUncertain, do_updated := ce_now e\<rparr>) db)))"

definition reap :: "('e dag_env_scheme) \<Rightarrow> dag_db \<Rightarrow> unit result \<times> dag_db" where
  "reap e db = txn db (bind_result (reap_runs e db
       (take 32 (asc (\<lambda>(_, r). rn_updated r) (select_where (\<lambda>_ r. rn_state r \<in> {''started'', ''uncertain''}) (agent_runs db)))) db)
     (\<lambda>db1. Inr ((), reap_ops e (take 32 (asc (\<lambda>(_, p). do_updated p) (select_where (\<lambda>_ p. do_state p = OStarted) (dag_ops db1)))) db1)))"

end
