(* ===== verification/Dag_Properties.thy ===== *)
theory Dag_Properties
  imports Dag_Lifecycle Coordinator_Effects Simulation
begin

text \<open>
  Histories of graphs: the transactions of this component as steps, beside any change other components make
  to their own tables.  A node starts at most once, a stopped graph starts nothing, and the input and output of
  a merge or archive begin at most once.
\<close>

section \<open>Histories\<close>

text \<open>
  \<open>DWorld\<close> is any change of the tables of other components, \<open>DPin\<close> the admission of a new graph.  A process that
  dies takes no step; the stamps of processes are fields of each step's environment.
\<close>

datatype dag_call =
    DWorld dag_db
  | DPin pystr agent_graph
  | DStop pystr pystr
  | DSeal dag_env pystr
  | DCancel dag_env pystr
  | DAdmit dag_env pystr
  | DReviews coord_env "pystr \<Rightarrow> pystr \<times> pystr" pystr
  | DSettle pystr "task_row option"
  | DClaim dag_env token pystr pystr
  | DNodeStopped pystr pystr
  | DProcessDone pystr "pystr \<times> agent_node"
  | DDispatched pystr
  | DRegister dag_env "pystr \<times> agent_node"
  | DRequest dag_env pystr pystr pystr dag_action
  | DBegin dag_env pystr
  | DEnd pystr json
  | DLose pystr
  | DCancelPending pystr
  | DObserve pystr pystr
  | DMark dag_env pystr
  | DUnmark dag_env pystr
  | DReap dag_env

definition world :: "dag_db \<Rightarrow> dag_db \<Rightarrow> dag_db" where
  "world w db = w\<lparr>agent_graphs := agent_graphs db, agent_runs := agent_runs db, dag_processes := dag_processes db, dag_ops := dag_ops db\<rparr>"

fun dag_step :: "time \<Rightarrow> dag_call \<Rightarrow> dag_db \<Rightarrow> dag_db" where
  "dag_step t (DWorld w) db = world w db"
| "dag_step t (DPin k g) db = (case insert_row k (g\<lparr>gr_state := ''pending'', gr_stop := None\<rparr>) (agent_graphs db) of
     None \<Rightarrow> db | Some tb \<Rightarrow> db\<lparr>agent_graphs := tb\<rparr>)"
| "dag_step t (DStop k reason) db = snd (stop_graph t k reason db)"
| "dag_step t (DSeal e k) db = snd (seal_graph (e\<lparr>ce_now := t\<rparr>) k db)"
| "dag_step t (DCancel e k) db = snd (cancel_graph (e\<lparr>ce_now := t\<rparr>) k db)"
| "dag_step t (DAdmit e k) db = snd (snapshot_admit (e\<lparr>ce_now := t\<rparr>) k db)"
| "dag_step t (DReviews e ids k) db = snd (snapshot_reviews (e\<lparr>ce_now := t\<rparr>) ids k db)"
| "dag_step t (DSettle k rt) db = snd (snapshot_settle t k rt db)"
| "dag_step t (DClaim e tok k i) db = snd (claim_graph_node (e\<lparr>ce_now := t\<rparr>) tok k i db)"
| "dag_step t (DNodeStopped k i) db = snd (node_stopped t k i db)"
| "dag_step t (DProcessDone k w) db = snd (process_done t k w db)"
| "dag_step t (DDispatched k) db = graph_dispatched t k db"
| "dag_step t (DRegister e w) db = snd (register_process (e\<lparr>ce_now := t\<rparr>) w db)"
| "dag_step t (DRequest e fresh k i a) db = snd (request_op (e\<lparr>ce_now := t\<rparr>) fresh k i a db)"
| "dag_step t (DBegin e o') db = snd (begin_op (e\<lparr>ce_now := t\<rparr>) o' db)"
| "dag_step t (DEnd o' r) db = end_op t o' r db"
| "dag_step t (DLose o') db = lose_op t o' db"
| "dag_step t (DCancelPending o') db = cancel_pending t o' db"
| "dag_step t (DObserve o' status) db = snd (observe_op t o' status db)"
| "dag_step t (DMark e o') db = snd (mark_dispatch (e\<lparr>ce_now := t\<rparr>) o' db)"
| "dag_step t (DUnmark e o') db = unmark_dispatch (e\<lparr>ce_now := t\<rparr>) o' db"
| "dag_step t (DReap e) db = snd (reap (e\<lparr>ce_now := t\<rparr>) db)"

section \<open>Frames\<close>

lemma dag_frames [simp]:
  "agent_graphs (set_node i c f db) = agent_graphs db" "agent_runs (set_node i c f db) = agent_runs db"
  "dag_ops (set_node i c f (d :: dag_db)) = dag_ops d"
  "agent_graphs (set_run i c' g d) = agent_graphs d" "dag_ops (set_run i c' g d) = dag_ops d"
  "agent_runs (set_run i c' g d) = update_key i c' g (agent_runs d)"
  "agent_graphs (set_dag_op k c'' h d) = agent_graphs d" "agent_runs (set_dag_op k c'' h d) = agent_runs d"
  "dag_ops (set_dag_op k c'' h d) = update_key k c'' h (dag_ops d)"
  "agent_graphs (set_graph k g' d) = update_key k (\<lambda>_. True) g' (agent_graphs d)"
  "agent_runs (set_graph k g' d) = agent_runs d" "dag_ops (set_graph k g' d) = dag_ops d"
  by (simp_all add: set_node_def set_run_def set_dag_op_def set_graph_def)

lemma log_event_dag:
  "log_event t i ow ev data (db :: dag_db) = Inr db' \<Longrightarrow>
     agent_graphs db' = agent_graphs db \<and> agent_runs db' = agent_runs db \<and> dag_ops db' = dag_ops db"
  by (auto simp: log_event_def)

text \<open>The coordinator may append graphs; runs and operations are not its tables.\<close>

definition dag_frame :: "dag_db \<Rightarrow> dag_db \<Rightarrow> bool" where
  "dag_frame db db' \<longleftrightarrow> agent_runs db' = agent_runs db \<and> dag_ops db' = dag_ops db
     \<and> (\<exists>new. agent_graphs db' = agent_graphs db @ new)"

lemma dag_frame_refl [simp]: "dag_frame db db"
  by (simp add: dag_frame_def)

lemma dag_frame_trans: "dag_frame a b \<Longrightarrow> dag_frame b c \<Longrightarrow> dag_frame a c"
  by (auto simp: dag_frame_def)

lemma dag_frame_same:
  "agent_runs db' = agent_runs db \<Longrightarrow> dag_ops db' = dag_ops db \<Longrightarrow> agent_graphs db' = agent_graphs db \<Longrightarrow> dag_frame db db'"
  by (simp add: dag_frame_def)

lemma pin_frame: "pin e gid ow rt key p b review db = Inr (p', db') \<Longrightarrow> dag_frame db db'"
proof -
  have new: "dag_frame d d'" if "pin_new e gid ow rt key p b d = Inr d'" for d d'
    using that by (auto simp: pin_new_def Let_def dag_frame_def split: if_splits)
  have temporal: "dag_frame d d'" if "pin_temporal e gid ow rt key p b review d = Inr (q, d')" for d d' q
    using that by (auto simp: pin_temporal_def Let_def dest!: new split: option.splits if_splits prod.splits)
  have bk: "dag_frame db (db\<lparr>root_backends := x\<rparr>)" for x by (rule dag_frame_same) simp_all
  assume "pin e gid ow rt key p b review db = Inr (p', db')"
  then show ?thesis
    by (auto simp: pin_def Let_def dest!: temporal intro: bk dag_frame_trans [OF bk] split: option.splits if_splits prod.splits)
qed

lemma set_budget_frame: "dag_frame db (set_budget b f db)"
  by (rule dag_frame_same) (simp_all add: set_budget_def)

lemma log_event_frame: "log_event t i ow ev data db = Inr db' \<Longrightarrow> dag_frame db db'"
  using log_event_dag by (blast intro: dag_frame_same)

lemma insert_txn_frame:
  assumes "insert_txn e s ids ow rt par persona aim deps p b review db = Inr (i, db')"
  shows "dag_frame db db'"
proof (cases "Option.bind review (\<lambda>i. reviewer_of i db)")
  case None
  then obtain p' db1 tb db2 where pin: "pin e (snd ids) ow rt (fst ids) p b review db = Inr (p', db1)"
    and ev: "log_event (ce_now e) (fst ids) ow ''submitted'' (JObj [(''persona'', JStr persona), (''dependencies'', JArr (map JStr deps))])
      (set_budget b (\<lambda>r. r\<lparr>b_children := b_children r + 1\<rparr>) db1\<lparr>agent_nodes := tb\<rparr>) = Inr db2" and db': "db' = db2"
    using assms by (auto simp: insert_txn_def split: option.splits if_splits prod.splits)
  have "dag_frame db1 (set_budget b (\<lambda>r. r\<lparr>b_children := b_children r + 1\<rparr>) db1\<lparr>agent_nodes := tb\<rparr>)"
    by (rule dag_frame_trans [OF set_budget_frame], rule dag_frame_same) simp_all
  from dag_frame_trans [OF dag_frame_trans [OF pin_frame [OF pin] this] log_event_frame [OF ev]] show ?thesis by (simp add: db')
qed (use assms in \<open>simp add: insert_txn_def\<close>)

lemma insert_node_frame: "dag_frame db (snd (insert_node e ids ow rt par persona aim deps p b review db))"
proof -
  have "dag_frame db (snd (txn db (insert_txn e x ids ow rt par persona aim deps p b review db)))" for x
    by (rule txn_preserves [where P = "dag_frame db"]) (simp, rule insert_txn_frame)
  then show ?thesis by (simp add: insert_node_def split: option.splits sum.splits)
qed

lemma open_budget_dag: "dag_frame db (snd (open_budget c t ow k db))"
  by (auto simp: open_budget_def insert_budget_def intro!: dag_frame_same split: sum.splits prod.splits option.splits if_splits)

lemma set_node_frame: "dag_frame db (set_node i c f db)"
  by (rule dag_frame_same) simp_all

lemma ensure_review_frame: "dag_frame db (snd (ensure_review e ids ow i db))"
proof -
  have ins: "dag_frame d d'" if "insert_node e ids ow rt par persona aim deps p b review d = (r, d')"
    for rt par persona aim deps p b review d r d' using insert_node_frame that by (metis snd_conv)
  have b: "dag_frame db d" if "open_budget c t ow' k db = (r, d)" for c t ow' k r d
    using open_budget_dag that by (metis snd_conv)
  show ?thesis
    unfolding ensure_review_def
    by (simp split: sum.splits prod.splits del: bind_result_Inl bind_result_Inr)
      (blast intro: dag_frame_trans set_node_frame dest: ins b)
qed

lemma review_all_frame: "dag_frame db (snd (review_all e ids ow is db))"
proof (induction "is" arbitrary: db)
  case (Cons i "is")
  show ?case using ensure_review_frame [of db e "ids i" ow i] Cons.IH
    by (auto split: prod.splits sum.splits intro: dag_frame_trans)
qed simp

lemma snapshot_reviews_frame: "dag_frame db (snd (snapshot_reviews e ids k db))"
  by (auto simp: snapshot_reviews_def review_all_frame split: sum.splits)

section \<open>A node starts at most once\<close>

definition has_run :: "pystr \<Rightarrow> dag_db \<Rightarrow> bool" where
  "has_run i db \<longleftrightarrow> map_of (agent_runs db) i \<noteq> None"

lemma has_run_simps [simp]:
  "has_run i (set_node j c f db) = has_run i db" "has_run i (set_graph k g db) = has_run i db"
  "has_run i (set_dag_op o' d h db) = has_run i db" "has_run i (set_run j b r db) = has_run i db"
  "has_run i (world w db) = has_run i db"
  "has_run i (db\<lparr>agent_nodes := tb\<rparr>) = has_run i db" "has_run i (db\<lparr>dag_ops := ops\<rparr>) = has_run i db"
  "has_run i (db\<lparr>dag_processes := ps\<rparr>) = has_run i db" "has_run i (db\<lparr>agent_graphs := gs\<rparr>) = has_run i db"
  "has_run i (db\<lparr>tasks := ts\<rparr>) = has_run i db" "has_run i (db\<lparr>execution_bindings := bs\<rparr>) = has_run i db"
  by (auto simp: has_run_def world_def tbl)

lemma has_run_frame: "dag_frame db db' \<Longrightarrow> has_run i db' = has_run i db"
  by (simp add: has_run_def dag_frame_def)

lemma has_run_log: "log_event t j ow ev data db = Inr db' \<Longrightarrow> has_run i db' = has_run i db"
  by (rule has_run_frame) (rule log_event_frame)

lemma has_run_stop: "has_run i (snd (stop_graph t k reason db)) = has_run i db"
  by (auto simp: stop_graph_def txn_snd split: sum.splits)

lemma fail_blocked_frame: "fail_blocked t rest ns db = (ns', db') \<Longrightarrow> dag_frame db db'"
  by (induction t rest ns db rule: fail_blocked.induct) (auto split: if_splits intro: dag_frame_trans set_node_frame)

lemma snapshot_settle_cases:
  obtains (none) "snd (snapshot_settle t k rt db) = db"
  | (some) g ns db1 where "map_of (agent_graphs db) k = Some g" and "fail_blocked t (dag_nodes g db) (dag_nodes g db) db = (ns, db1)"
      and "snd (snapshot_settle t k rt db) = (if graph_done g rt ns
        then set_graph k (\<lambda>h. h\<lparr>gr_state := final_state g ns, gr_sealed := True, gr_updated := t\<rparr>) db1 else db1)"
proof (cases "map_of (agent_graphs db) k")
  case (Some g)
  obtain ns db1 where "fail_blocked t (dag_nodes g db) (dag_nodes g db) db = (ns, db1)"
    by (cases "fail_blocked t (dag_nodes g db) (dag_nodes g db) db")
  with Some show ?thesis by (intro some) (simp_all add: snapshot_settle_def dag_get_def Let_def)
qed (rule none, simp add: snapshot_settle_def dag_get_def)

lemma has_run_close: "has_run i (close_run t w db) = has_run i db"
  by (simp add: close_run_def)

lemma has_run_reap_runs: "reap_runs e db0 rs db = Inr db' \<Longrightarrow> has_run i db' = has_run i db"
  by (induction e db0 rs db rule: reap_runs.induct) (auto simp: has_run_close split: if_splits)

lemma has_run_reap_ops: "has_run i (reap_ops e ps db) = has_run i db"
  by (induction e ps db rule: reap_ops.induct) simp_all

lemma bindE: "bind_result r f = Inr b \<Longrightarrow> (\<And>a. r = Inr a \<Longrightarrow> f a = Inr b \<Longrightarrow> P) \<Longrightarrow> P"
  by (cases r) simp_all

lemma claim_graph_cases:
  obtains (none) "snd (claim_graph_node e tok k i db) = db" and "\<forall>w. fst (claim_graph_node e tok k i db) \<noteq> Inr (Some w)"
  | (started) g run where "map_of (agent_graphs db) k = Some g" and "gr_state g \<in> {''pending'', ''running''}"
      and "map_of (agent_runs db) i = None"
      and "agent_graphs (snd (claim_graph_node e tok k i db)) = agent_graphs db"
      and "agent_runs (snd (claim_graph_node e tok k i db)) = agent_runs db @ [(i, run)]"
      and "dag_ops (snd (claim_graph_node e tok k i db)) = dag_ops db"
proof (cases "claim_graph_node e tok k i db")
  case (Pair r db')
  show ?thesis
  proof (cases "\<exists>w. r = Inr (Some w)")
    case False
    then have "db' = db"
      using Pair by (auto simp: claim_graph_node_def txn_def split: sum.splits if_splits option.splits)
    then show ?thesis using False Pair by (intro none) auto
  next
    case True
    then obtain w where w: "r = Inr (Some w)" by blast
    from Pair [unfolded w claim_graph_node_def txn_Inr] obtain g row where g: "dag_get k db = Inr g" and "dag_contract e g db = Inr row"
      and body: "(if gr_state g \<notin> {''pending'', ''running''} \<or> deadline row \<le> ce_now e then Inl (denied ''DAG has stopped'')
     else case map_of (dag_nodes g db) i of None \<Rightarrow> Inl (denied ''Node belongs to another DAG'')
     | Some n \<Rightarrow> if map_of (agent_runs db) i \<noteq> None then Inr (None, db)
       else bind_result (claim_checks e g i n row db) (\<lambda>_. bind_result (start_node e tok k i n db) (\<lambda>db1.
         Inr (Some (i, (lease_node (ce_now e) tok n)\<lparr>nd_updated := nd_updated n\<rparr>), db1)))) = Inr (Some w, db')"
      by (elim bindE) blast
    have live: "gr_state g \<in> {''pending'', ''running''}"
      using body by (cases "gr_state g \<notin> {''pending'', ''running''}") simp_all
    have g': "map_of (agent_graphs db) k = Some g" using g by (auto simp: dag_get_def split: option.splits)
    from body obtain n where n: "map_of (agent_runs db) i = None" and start: "start_node e tok k i n db = Inr db'"
      by (cases "map_of (dag_nodes g db) i"; cases "map_of (agent_runs db) i") (auto split: if_splits)
    from start [unfolded start_node_def] obtain db1 where b: "bind_child (nd_payload n) i db = Inr db1" and ev: "log_event (ce_now e) i (nd_owner n) ''temporal_claimed'' (JObj [])
       ((set_node i (\<lambda>_. True) (lease_node (ce_now e) tok) db1)\<lparr>agent_runs := agent_runs db1 @ [(i,
          \<lparr>rn_graph = k, rn_state = ''started'', rn_lease = tok, rn_process = de_self e, rn_updated = ce_now e\<rparr>)]\<rparr>) = Inr db'"
      by (elim bindE) blast
    have "agent_runs db1 = agent_runs db \<and> agent_graphs db1 = agent_graphs db \<and> dag_ops db1 = dag_ops db"
      using b by (auto simp: bind_child_def Let_def split: option.splits if_splits)
    with log_event_dag [OF ev] show ?thesis by (intro started [OF g' live n]) (simp_all add: Pair)
  qed
qed

lemma claim_run:
  assumes "claim_graph_node e tok k i db = (r, db')"
  shows "(case r of Inr (Some w) \<Rightarrow> \<not> has_run i db \<and> has_run i db' | _ \<Rightarrow> True) \<and> (has_run j db \<longrightarrow> has_run j db')"
  by (cases rule: claim_graph_cases [of e tok k i db])
    (use assms in \<open>auto simp: has_run_def map_add_def split: sum.splits option.splits\<close>)

lemma begin_op_cases:
  obtains (none) "snd (begin_op e o' db) = db" and "\<forall>w. fst (begin_op e o' db) \<noteq> Inr (Some w)"
  | (failed) p where "map_of (dag_ops db) o' = Some p" and "do_state p = OPending" and "fst (begin_op e o' db) = Inr None"
      and "snd (begin_op e o' db) = set_dag_op o' (\<lambda>_. True) (\<lambda>q. q\<lparr>do_state := OFailed, do_updated := ce_now e\<rparr>) db"
  | (begun) p n where "map_of (dag_ops db) o' = Some p" and "do_state p = OPending" and "fst (begin_op e o' db) = Inr (Some (do_node p, n))"
      and "snd (begin_op e o' db) = set_dag_op o' (\<lambda>q. do_state q = OPending)
        (\<lambda>q. q\<lparr>do_state := OStarted, do_process := Some (de_self e), do_updated := ce_now e\<rparr>) db"
proof (cases "bind_result (get_dag_op o' db) (\<lambda>p. bind_result (dag_get (do_graph p) db) (\<lambda>g. Inr (p, g)))")
  case (Inl x)
  show ?thesis by (rule none; simp add: begin_op_def Inl del: bind_result_Inl bind_result_Inr)
next
  case (Inr pg)
  then obtain p g where pg: "pg = (p, g)" "map_of (dag_ops db) o' = Some p" by (cases pg) (auto simp: get_dag_op_def split: option.splits)
  note op = begin_op_def [of e o' db, unfolded Inr pg sum.case prod.case]
  show ?thesis
  proof (cases "owner_blocked db (gr_owner g) \<or> do_state p \<noteq> OPending \<or> isl (get_node (gr_owner g) (do_node p) db)")
    case True
    show ?thesis by (rule none; use True op in \<open>cases "owner_blocked db (gr_owner g)"; auto simp: assert_owner_active_def isl_def\<close>)
  next
    case False
    then obtain n where ready: "\<not> owner_blocked db (gr_owner g)" "do_state p = OPending" "get_node (gr_owner g) (do_node p) db = Inr n"
      by (cases "get_node (gr_owner g) (do_node p) db") auto
    have own: "assert_owner_active db (gr_owner g) = Inr ()" using ready(1) by simp
    show ?thesis
    proof (cases "validate_op e (do_node p, n) (do_action p) (Some o') db")
      case (Inl x)
      show ?thesis by (rule failed [OF pg(2) ready(2)]) (simp_all add: op ready own Inl)
    next
      case v: (Inr snap)
      show ?thesis
      proof (cases "canonical snap = canonical (do_snapshot p)")
        case True
        show ?thesis by (rule begun [OF pg(2) ready(2)]) (simp_all add: op ready own v True)
      next
        case False
        show ?thesis by (rule failed [OF pg(2) ready(2)]) (simp_all add: op ready own v False)
      qed
    qed
  qed
qed

lemma has_run_step: "has_run i db \<Longrightarrow> has_run i (dag_step t x db)"
proof (cases x)
  case (DReviews e ids k)
  assume "has_run i db"
  with has_run_frame [OF snapshot_reviews_frame] show ?thesis by (simp add: DReviews)
next
  case (DClaim e tok k j)
  assume "has_run i db"
  with claim_run [of "e\<lparr>ce_now := t\<rparr>" tok k j db _ _ i] show ?thesis
    by (cases "claim_graph_node (e\<lparr>ce_now := t\<rparr>) tok k j db") (auto simp: DClaim split: sum.splits option.splits)
next
  case (DSettle k rt)
  assume "has_run i db"
  then show ?thesis unfolding DSettle dag_step.simps
    by (cases rule: snapshot_settle_cases [of t k rt db]) (auto dest: has_run_frame [OF fail_blocked_frame])
next
  case (DReap e)
  assume "has_run i db"
  then show ?thesis
    by (auto simp: DReap reap_def txn_snd has_run_reap_ops split: sum.splits dest: has_run_reap_runs)
next
  case (DObserve o' status)
  assume "has_run i db"
  moreover have "has_run i db'" if "stop_graph t k reason db = (r, db')" for k reason r db'
    using has_run_stop [of i t k reason db] that calculation by simp
  ultimately show ?thesis
    by (auto simp: DObserve observe_op_def cancel_pending_def split: sum.splits prod.splits if_splits)
next
  case (DAdmit e k)
  assume "has_run i db"
  moreover have "has_run i db'" if "stop_graph u k' reason db = (r, db')" for u k' reason r db'
    using has_run_stop [of i u k' reason db] that calculation by simp
  ultimately show ?thesis
    by (auto simp: DAdmit snapshot_admit_def Let_def split: sum.splits prod.splits if_splits)
next
  case (DBegin e o')
  assume "has_run i db"
  then show ?thesis unfolding DBegin dag_step.simps by (cases rule: begin_op_cases [of "e\<lparr>ce_now := t\<rparr>" o' db]) simp_all
next
  case (DCancel e k)
  assume "has_run i db"
  then show ?thesis by (auto simp: DCancel cancel_graph_def has_run_stop split: sum.splits)
qed (auto simp: has_run_stop seal_graph_def txn_snd node_stopped_def process_done_def graph_dispatched_def register_process_def
    request_op_def end_op_def lose_op_def cancel_pending_def mark_dispatch_def unmark_dispatch_def Let_def
    split: sum.splits option.splits if_splits prod.splits)

text \<open>
  C23: after a node of a Temporal graph was claimed it is never claimed again, whatever happens to it, its
  graph and its processes: a lost execution is not repeated.
\<close>

theorem graph_node_starts_once:
  assumes "claim_graph_node e tok k i db = (Inr (Some w), db1)"
  shows "fst (claim_graph_node e' tok' k' i (run_ops dag_step tr db1)) \<noteq> Inr (Some w')"
proof
  assume again: "fst (claim_graph_node e' tok' k' i (run_ops dag_step tr db1)) = Inr (Some w')"
  have "has_run i db1" using claim_run [OF assms] by simp
  then have "has_run i (run_ops dag_step tr db1)"
    by (rule run_ops_invariant [where I = "has_run i", rotated]) (rule has_run_step)
  moreover from again have "claim_graph_node e' tok' k' i (run_ops dag_step tr db1)
      = (Inr (Some w'), snd (claim_graph_node e' tok' k' i (run_ops dag_step tr db1)))" by (simp add: prod_eq_iff)
  ultimately show False using claim_run [where e = e' and tok = tok' and k = k' and i = i and r = "Inr (Some w')"] by fastforce
qed

section \<open>A stopped graph starts nothing\<close>

definition halted :: "pystr \<Rightarrow> dag_db \<Rightarrow> bool" where
  "halted k db \<longleftrightarrow> row_where k (\<lambda>g. gr_state g \<in> {''cancelling'', ''completed'', ''needs_input'', ''cancelled''}
     \<and> gr_stop g \<in> {None, Some ''cancelled'', Some ''needs_input''}) (agent_graphs db)"

lemma halted_simps [simp]:
  "halted k (set_node j c f db) = halted k db" "halted k (set_dag_op o' d h db) = halted k db"
  "halted k (set_run j b r db) = halted k db" "halted k (world w db) = halted k db"
  "halted k (db\<lparr>agent_nodes := tb\<rparr>) = halted k db" "halted k (db\<lparr>dag_ops := ops\<rparr>) = halted k db"
  "halted k (db\<lparr>dag_processes := ps\<rparr>) = halted k db" "halted k (db\<lparr>agent_runs := rs\<rparr>) = halted k db"
  "halted k (db\<lparr>tasks := ts\<rparr>) = halted k db" "halted k (db\<lparr>execution_bindings := bs\<rparr>) = halted k db"
  by (auto simp: halted_def world_def)

lemma halted_frame: "dag_frame db db' \<Longrightarrow> halted k db \<Longrightarrow> halted k db'"
  by (auto simp: halted_def dag_frame_def row_where_iff map_add_def split: option.splits)

lemma halted_set:
  assumes "halted k db" and "\<And>g. gr_state g \<in> {''cancelling'', ''completed'', ''needs_input'', ''cancelled''} \<Longrightarrow>
      gr_stop g \<in> {None, Some ''cancelled'', Some ''needs_input''} \<Longrightarrow> map_of (agent_graphs db) k = Some g \<Longrightarrow> j = k \<Longrightarrow>
      gr_state (f g) \<in> {''cancelling'', ''completed'', ''needs_input'', ''cancelled''}
        \<and> gr_stop (f g) \<in> {None, Some ''cancelled'', Some ''needs_input''}"
  shows "halted k (set_graph j f db)"
  using assms by (auto simp: halted_def row_where_iff tbl)

lemma halted_stop: "halted k db \<Longrightarrow> halted k (snd (stop_graph t j reason db))"
proof -
  assume h: "halted k db"
  have "halted k (snd (txn db (bind_result (dag_get j db) (\<lambda>g.
       if graph_terminal (gr_state g)
       then Inr ((), if gr_state g = ''completed''
         then set_graph j (\<lambda>g. g\<lparr>gr_stop := Some reason, gr_sealed := True, gr_updated := t\<rparr>) db else db)
       else Inr ((), (set_graph j (\<lambda>g. g\<lparr>gr_sealed := True, gr_state := ''cancelling'', gr_stop := Some reason, gr_updated := t\<rparr>) db)
         \<lparr>agent_nodes := update_where (\<lambda>_ n. nd_owner n = gr_owner g \<and> nd_root n = gr_root g
             \<and> nd_state n \<in> {NQueued, NRunning, NReviewPending, NMerging}) (stop_node t) (agent_nodes db)\<rparr>)))))"
    if "reason = ''cancelled'' \<or> reason = ''needs_input''"
    by (rule txn_preserves [where P = "halted k"]) (use that h in \<open>auto intro!: halted_set split: if_splits\<close>)
  then show ?thesis using h by (simp add: stop_graph_def)
qed

lemma halted_close: "halted k (close_run t w db) = halted k db"
  by (simp add: close_run_def)

lemma halted_reap_runs: "reap_runs e db0 rs db = Inr db' \<Longrightarrow> halted k db \<Longrightarrow> halted k db'"
  by (induction e db0 rs db rule: reap_runs.induct) (auto simp: halted_close split: if_splits)

lemma halted_reap_ops: "halted k (reap_ops e ps db) = halted k db"
  by (induction e ps db rule: reap_ops.induct) simp_all

lemma halted_claim:
  assumes "claim_graph_node e tok j i db = (r, db')" and "halted k db"
  shows "halted k db' \<and> (j = k \<longrightarrow> (\<forall>w. r \<noteq> Inr (Some w)))"
  by (cases rule: claim_graph_cases [of e tok j i db]) (use assms in \<open>auto simp: halted_def row_where_iff\<close>)

lemma halted_step: "halted k db \<Longrightarrow> halted k (dag_step t x db)"
proof (cases x)
  case (DReviews e ids k')
  assume "halted k db"
  with halted_frame [OF snapshot_reviews_frame] show ?thesis by (simp add: DReviews)
next
  case (DPin j g)
  assume "halted k db"
  then show ?thesis
    by (auto simp: DPin insert_row_append halted_def row_where_iff map_add_def split: option.splits)
next
  case (DClaim e tok j i)
  assume "halted k db"
  with halted_claim [of "e\<lparr>ce_now := t\<rparr>" tok j i db] show ?thesis
    by (cases "claim_graph_node (e\<lparr>ce_now := t\<rparr>) tok j i db") (auto simp: DClaim)
next
  case (DSettle j rt)
  assume h: "halted k db"
  then show ?thesis unfolding DSettle dag_step.simps
  proof (cases rule: snapshot_settle_cases [of t j rt db])
    case (some g ns db1)
    have h1: "halted k db1" by (rule halted_frame [OF fail_blocked_frame [OF some(2)] h])
    have "final_state g ns \<in> {''completed'', ''needs_input'', ''cancelled''}" if "j = k"
      using h some(1) that by (auto simp: halted_def row_where_iff final_state_def split: option.splits)
    then have "halted k (set_graph j (\<lambda>h. h\<lparr>gr_state := final_state g ns, gr_sealed := True, gr_updated := t\<rparr>) db1)"
      by (intro halted_set [OF h1]) auto
    with h1 show "halted k (snd (snapshot_settle t j rt db))" by (simp add: some(3))
  qed simp
next
  case (DReap e)
  assume "halted k db"
  then show ?thesis
    by (auto simp: DReap reap_def txn_snd halted_reap_ops split: sum.splits dest: halted_reap_runs)
next
  case (DObserve o' status)
  assume h: "halted k db"
  have "halted k db'" if "stop_graph t j reason db = (r, db')" for j reason r db'
    using halted_stop [OF h, of t j reason] that by simp
  then show ?thesis using h
    by (auto simp: DObserve observe_op_def cancel_pending_def split: sum.splits prod.splits if_splits)
next
  case (DAdmit e j)
  assume h: "halted k db"
  have "halted k db'" if "stop_graph u k' reason db = (r, db')" for u k' reason r db'
    using halted_stop [OF h, of u k' reason] that by simp
  then show ?thesis using h
    by (auto simp: DAdmit snapshot_admit_def Let_def split: sum.splits prod.splits if_splits)
next
  case (DBegin e o')
  assume "halted k db"
  then show ?thesis unfolding DBegin dag_step.simps by (cases rule: begin_op_cases [of "e\<lparr>ce_now := t\<rparr>" o' db]) simp_all
next
  case (DCancel e j)
  assume "halted k db"
  then show ?thesis by (auto simp: DCancel cancel_graph_def halted_stop split: sum.splits)
qed (auto simp: halted_stop seal_graph_def txn_snd node_stopped_def process_done_def graph_dispatched_def register_process_def
    request_op_def end_op_def lose_op_def cancel_pending_def mark_dispatch_def unmark_dispatch_def Let_def
    intro!: halted_set split: sum.splits option.splits if_splits prod.splits)

text \<open>
  C25: once a graph was stopped or finished, none of its nodes is ever started again, along any history.
\<close>

theorem stopped_graph_starts_nothing:
  assumes "halted k db"
  shows "halted k (run_ops dag_step tr db) \<and> fst (claim_graph_node e tok k i (run_ops dag_step tr db)) \<noteq> Inr (Some w)"
proof -
  have h: "halted k (run_ops dag_step tr db)"
    by (rule run_ops_invariant [where I = "halted k"], erule halted_step, rule assms)
  moreover have "r \<noteq> Inr (Some w)" if "claim_graph_node e tok k i (run_ops dag_step tr db) = (r, db')" for r db'
    using halted_claim [OF that h] by blast
  ultimately show ?thesis by (cases "claim_graph_node e tok k i (run_ops dag_step tr db)") simp
qed

section \<open>A merge or archive begins at most once\<close>

definition op_key :: "dag_op \<Rightarrow> pystr \<times> pystr \<times> dag_action" where
  "op_key p = (do_graph p, do_node p, do_action p)"

definition op_kept :: "dag_op \<Rightarrow> dag_op \<Rightarrow> bool" where
  "op_kept p p' \<longleftrightarrow> op_key p' = op_key p \<and> (do_state p \<noteq> OPending \<longrightarrow> do_state p' \<noteq> OPending)"

lemma op_kept_refl [simp]: "op_kept p p"
  by (simp add: op_kept_def)

lemma op_kept_trans: "op_kept p q \<Longrightarrow> op_kept q r \<Longrightarrow> op_kept p r"
  by (auto simp: op_kept_def)

definition ops_kept :: "dag_db \<Rightarrow> dag_db \<Rightarrow> bool" where
  "ops_kept db db' \<longleftrightarrow> (\<forall>o'. rel_option op_kept (map_of (dag_ops db) o') (map_of (dag_ops db') o'))"

lemma ops_kept_refl [simp]: "ops_kept db db"
  by (auto simp: ops_kept_def intro: option.rel_refl)

lemma ops_kept_trans: "ops_kept a b \<Longrightarrow> ops_kept b c \<Longrightarrow> ops_kept a c"
proof -
  assume a: "ops_kept a b" "ops_kept b c"
  have "rel_option op_kept (map_of (dag_ops a) o') (map_of (dag_ops c) o')" for o'
  proof -
    from a have "rel_option op_kept (map_of (dag_ops a) o') (map_of (dag_ops b) o')"
      "rel_option op_kept (map_of (dag_ops b) o') (map_of (dag_ops c) o')" by (simp_all add: ops_kept_def)
    then show ?thesis by cases (auto elim!: option.rel_cases intro: op_kept_trans)
  qed
  then show ?thesis by (simp add: ops_kept_def)
qed

lemma ops_kept_same: "dag_ops db' = dag_ops db \<Longrightarrow> ops_kept db db'"
  by (simp add: ops_kept_def option.rel_refl)

lemma ops_kept_frame: "dag_frame db db' \<Longrightarrow> ops_kept db db'"
  by (simp add: dag_frame_def ops_kept_same)

lemma ops_kept_set:
  "(\<And>p. c p \<Longrightarrow> op_kept p (f p)) \<Longrightarrow> ops_kept db (set_dag_op o' c f db)"
  by (auto simp: ops_kept_def tbl rel_option_iff split: option.splits)

lemma op_kept_simps [simp]:
  "s \<noteq> OPending \<Longrightarrow> op_kept p (p\<lparr>do_state := s, do_updated := t\<rparr>)"
  "s \<noteq> OPending \<Longrightarrow> op_kept p (p\<lparr>do_state := s, do_process := q, do_updated := t\<rparr>)"
  "s \<noteq> OPending \<Longrightarrow> op_kept p (p\<lparr>do_state := s, do_result := r, do_updated := t\<rparr>)"
  "op_kept p (p\<lparr>do_process := q\<rparr>)" "op_kept p (p\<lparr>do_updated := t\<rparr>)"
  by (simp_all add: op_kept_def op_key_def)

lemma stop_graph_ops [simp]: "dag_ops (snd (stop_graph t k reason db)) = dag_ops db"
  by (auto simp: stop_graph_def txn_snd split: sum.splits)

lemma close_run_ops [simp]: "dag_ops (close_run t w db) = dag_ops db"
  by (simp add: close_run_def)

lemma reap_runs_ops: "reap_runs e db0 rs db = Inr db' \<Longrightarrow> dag_ops db' = dag_ops db"
  by (induction e db0 rs db rule: reap_runs.induct) (auto split: if_splits)

lemma reap_ops_kept: "ops_kept db (reap_ops e ps db)"
proof (induction e ps db rule: reap_ops.induct)
  case (2 e o' p ps db)
  have a: "ops_kept db (set_dag_op o' (\<lambda>_. True) (\<lambda>q. q\<lparr>do_updated := ce_now e\<rparr>) db)" by (rule ops_kept_set) simp
  have "ops_kept db (set_dag_op o' (\<lambda>_. True) (\<lambda>q. q\<lparr>do_state := OUncertain, do_updated := ce_now e\<rparr>) db)"
    by (rule ops_kept_set) simp
  then have b: "ops_kept db (set_node (do_node p) c f (set_dag_op o' (\<lambda>_. True) (\<lambda>q. q\<lparr>do_state := OUncertain, do_updated := ce_now e\<rparr>) db))"
    for c f by (rule ops_kept_trans) (simp add: ops_kept_same)
  show ?case
  proof (cases "case do_process p of None \<Rightarrow> False | Some q \<Rightarrow> is_alive e q")
    case True
    from ops_kept_trans [OF a 2(1) [OF True]] True show ?thesis by simp
  next
    case False
    from ops_kept_trans [OF b 2(2) [OF False]] False show ?thesis by simp
  qed
qed simp

lemma request_op_cases:
  obtains (none) "dag_ops (snd (request_op e fresh k i a db)) = dag_ops db"
  | (added) p where "dag_ops (snd (request_op e fresh k i a db)) = dag_ops db @ [(fresh, p)]"
      and "map_of (dag_ops db) fresh = None" and "op_key p = (k, i, a)"
      and "\<forall>o' q. map_of (dag_ops db) o' = Some q \<longrightarrow> op_key q \<noteq> (k, i, a)"
proof (cases "dag_ops (snd (request_op e fresh k i a db)) = dag_ops db")
  case False
  then obtain g where g: "dag_operator e k db = Inr g" by (cases "dag_operator e k db") (simp_all add: request_op_def)
  from False g obtain r db' where body: "request_op e fresh k i a db = (Inr r, db')" "dag_ops db' \<noteq> dag_ops db"
    by (auto simp: request_op_def txn_def split: sum.splits)
  note txn = this(1) [unfolded request_op_def g sum.case txn_Inr]
  have new: "op_of k i a db = None"
  proof (cases "op_of k i a db")
    case (Some o')
    with txn have "db' = db" by (auto split: option.splits if_splits)
    with body(2) show ?thesis by simp
  qed
  from txn have "\<exists>snap. insert_row fresh \<lparr>do_graph = k, do_node = i, do_action = a, do_snapshot = snap, do_state = OPending,
                 do_process = None, do_result = None, do_updated = ce_now e\<rparr> (dag_ops db) = Some (dag_ops db')"
    using body(2) by (auto simp: new split: option.splits if_splits) blast+
  then obtain snap where ins: "insert_row fresh \<lparr>do_graph = k, do_node = i, do_action = a,
     do_snapshot = snap, do_state = OPending, do_process = None, do_result = None, do_updated = ce_now e\<rparr> (dag_ops db) = Some (dag_ops db')"
    by blast
  show ?thesis
  proof (rule added [of "\<lparr>do_graph = k, do_node = i, do_action = a, do_snapshot = snap, do_state = OPending,
      do_process = None, do_result = None, do_updated = ce_now e\<rparr>"])
    show "map_of (dag_ops db) fresh = None" using ins by (simp add: insert_row_append)
    show "\<forall>o' q. map_of (dag_ops db) o' = Some q \<longrightarrow> op_key q \<noteq> (k, i, a)"
    proof (intro allI impI notI)
      fix o' q assume "map_of (dag_ops db) o' = Some q" "op_key q = (k, i, a)"
      then have "(o', q) \<in> set (select_where (\<lambda>_ p. do_graph p = k \<and> do_node p = i \<and> do_action p = a) (dag_ops db))"
        by (auto simp: select_where_def op_key_def dest: map_of_SomeD)
      then show False using new by (auto simp: op_of_def split: list.splits prod.splits)
    qed
  qed (use ins body(1) in \<open>simp_all add: insert_row_append op_key_def\<close>)
qed

lemma begin_op_kept: "ops_kept db (snd (begin_op e o' db))"
  by (cases rule: begin_op_cases [of e o' db]) (auto intro: ops_kept_set)

lemma step_ops:
  assumes "\<And>e fresh k i a. x \<noteq> DRequest e fresh k i a"
  shows "ops_kept db (dag_step t x db)"
proof (cases x)
  case (DReviews e ids k)
  then show ?thesis using ops_kept_frame [OF snapshot_reviews_frame] by simp
next
  case (DPin j g)
  then show ?thesis by (simp add: ops_kept_same split: option.splits)
next
  case (DWorld w)
  then show ?thesis by (simp add: ops_kept_same world_def)
next
  case (DClaim e tok j i)
  show ?thesis unfolding DClaim dag_step.simps
    by (cases rule: claim_graph_cases [of "e\<lparr>ce_now := t\<rparr>" tok j i db]) (simp_all add: ops_kept_same)
next
  case (DSettle j rt)
  show ?thesis unfolding DSettle dag_step.simps
  proof (cases rule: snapshot_settle_cases [of t j rt db])
    case (some g ns db1)
    then show "ops_kept db (snd (snapshot_settle t j rt db))"
      using fail_blocked_frame [OF some(2)] by (simp add: ops_kept_same dag_frame_def)
  qed simp
next
  case (DReap e)
  have "ops_kept db (reap_ops e' ps db1)" if "reap_runs e1 db0 rs db = Inr db1" for e1 db0 rs db1 e' ps
    by (rule ops_kept_trans [OF ops_kept_same [OF reap_runs_ops [OF that]] reap_ops_kept])
  then show ?thesis by (auto simp: DReap reap_def txn_snd split: sum.splits)
next
  case (DObserve o' status)
  have "ops_kept db (cancel_pending t o' db1)" if "stop_graph t j reason db = (r, db1)" for j reason r db1
  proof -
    have "ops_kept db db1" using that stop_graph_ops [of t j reason db] by (simp add: ops_kept_same)
    then show ?thesis by (rule ops_kept_trans) (auto simp: cancel_pending_def intro: ops_kept_set)
  qed
  moreover have "ops_kept db (cancel_pending t o' db)" by (auto simp: cancel_pending_def intro: ops_kept_set)
  moreover have "ops_kept db db1" if "stop_graph t j reason db = (r, db1)" for j reason r db1
    using that stop_graph_ops [of t j reason db] by (simp add: ops_kept_same)
  ultimately show ?thesis
    by (auto simp: DObserve observe_op_def split: sum.splits prod.splits if_splits)
next
  case (DAdmit e j)
  have "ops_kept db db1" if "stop_graph u k' reason db = (r, db1)" for u k' reason r db1
    using that stop_graph_ops [of u k' reason db] by (simp add: ops_kept_same)
  then show ?thesis by (auto simp: DAdmit snapshot_admit_def Let_def split: sum.splits prod.splits if_splits)
next
  case (DBegin e o')
  then show ?thesis by (simp add: begin_op_kept)
next
  case (DMark e o')
  show ?thesis unfolding DMark dag_step.simps mark_dispatch_def
    by (rule txn_preserves [where P = "ops_kept db"]) (auto intro!: ops_kept_set split: if_splits option.splits)
next
  case (DNodeStopped k i)
  show ?thesis unfolding DNodeStopped dag_step.simps node_stopped_def
    by (rule txn_preserves [where P = "ops_kept db"]) (auto intro!: ops_kept_same simp: Let_def split: if_splits option.splits)
next
  case (DProcessDone k w)
  show ?thesis unfolding DProcessDone dag_step.simps process_done_def
    by (rule txn_preserves [where P = "ops_kept db"]) (auto intro!: ops_kept_same simp: Let_def split: if_splits option.splits)
next
  case (DRegister e w)
  show ?thesis by (auto simp: DRegister register_process_def txn_snd Let_def intro!: ops_kept_same split: if_splits option.splits sum.splits)
next
  case (DSeal e k)
  then show ?thesis by (auto simp: seal_graph_def intro!: ops_kept_same split: sum.splits)
next
  case (DCancel e k)
  then show ?thesis by (auto simp: cancel_graph_def intro!: ops_kept_same split: sum.splits)
next
  case (DStop k reason)
  then show ?thesis by (simp add: ops_kept_same)
next
  case (DDispatched k)
  then show ?thesis by (simp add: graph_dispatched_def ops_kept_same)
qed (use assms in \<open>auto simp: end_op_def lose_op_def cancel_pending_def unmark_dispatch_def intro!: ops_kept_set\<close>)

text \<open>At most one operation per graph, node and action.\<close>

definition ops_unique :: "dag_db \<Rightarrow> bool" where
  "ops_unique db \<longleftrightarrow> (\<forall>a b p q. map_of (dag_ops db) a = Some p \<longrightarrow> map_of (dag_ops db) b = Some q \<longrightarrow> op_key p = op_key q \<longrightarrow> a = b)"

definition begun :: "pystr \<Rightarrow> pystr \<times> pystr \<times> dag_action \<Rightarrow> dag_db \<Rightarrow> bool" where
  "begun o' key db \<longleftrightarrow> row_where o' (\<lambda>p. op_key p = key \<and> do_state p \<noteq> OPending) (dag_ops db)"

lemma ops_kept_old: "ops_kept db db' \<Longrightarrow> map_of (dag_ops db') a = Some p' \<Longrightarrow> \<exists>p. map_of (dag_ops db) a = Some p \<and> op_kept p p'"
  unfolding ops_kept_def by (metis option.rel_cases option.distinct(1) option.inject)

lemma ops_kept_new: "ops_kept db db' \<Longrightarrow> map_of (dag_ops db) a = Some p \<Longrightarrow> \<exists>p'. map_of (dag_ops db') a = Some p' \<and> op_kept p p'"
  unfolding ops_kept_def by (metis option.rel_cases option.distinct(1) option.inject)

lemma kept_unique:
  assumes kept: "ops_kept db db'" and u: "ops_unique db"
  shows "ops_unique db'"
  unfolding ops_unique_def
proof (intro allI impI)
  fix a b p q
  assume a: "map_of (dag_ops db') a = Some p" and b: "map_of (dag_ops db') b = Some q" and key: "op_key p = op_key q"
  from ops_kept_old [OF kept a] ops_kept_old [OF kept b] obtain p0 q0 where
    "map_of (dag_ops db) a = Some p0" "op_kept p0 p" "map_of (dag_ops db) b = Some q0" "op_kept q0 q" by blast
  then show "a = b" using u key unfolding ops_unique_def op_kept_def by simp
qed

lemma kept_begun:
  assumes kept: "ops_kept db db'" and "begun o' key db"
  shows "begun o' key db'"
proof -
  from assms(2) obtain p where p: "map_of (dag_ops db) o' = Some p" "op_key p = key" "do_state p \<noteq> OPending"
    by (auto simp: begun_def row_where_iff)
  from ops_kept_new [OF kept p(1)] p show ?thesis by (auto simp: begun_def row_where_iff op_kept_def)
qed

lemma unique_begun_step:
  assumes "ops_unique db \<and> begun o' key db"
  shows "ops_unique (dag_step t x db) \<and> begun o' key (dag_step t x db)"
proof (cases "\<exists>e fresh k i a. x = DRequest e fresh k i a")
  case False
  then have "ops_kept db (dag_step t x db)" by (intro step_ops) blast
  with assms show ?thesis using kept_unique kept_begun by blast
next
  case True
  then obtain e fresh k i a where x: "x = DRequest e fresh k i a" by blast
  show ?thesis unfolding x dag_step.simps
  proof (cases rule: request_op_cases [of "e\<lparr>ce_now := t\<rparr>" fresh k i a db])
    case none
    then show "ops_unique (snd (request_op (e\<lparr>ce_now := t\<rparr>) fresh k i a db)) \<and> begun o' key (snd (request_op (e\<lparr>ce_now := t\<rparr>) fresh k i a db))"
      using assms by (simp add: ops_unique_def begun_def)
  next
    case (added p)
    then show "ops_unique (snd (request_op (e\<lparr>ce_now := t\<rparr>) fresh k i a db)) \<and> begun o' key (snd (request_op (e\<lparr>ce_now := t\<rparr>) fresh k i a db))"
      using assms by (auto simp: ops_unique_def begun_def row_where_iff map_add_def split: option.splits if_splits) blast
  qed
qed

text \<open>
  C24: once the input and output of a merge or archive of a node began, it never begins again, along any
  history: no operation of the same graph, node and action is started a second time, also after its process
  died or its outcome is uncertain.
\<close>

theorem lifecycle_io_begins_once:
  assumes "ops_unique db" and "begin_op e o1 db = (Inr (Some w), db1)" and "map_of (dag_ops db) o1 = Some p"
    and "map_of (dag_ops (run_ops dag_step tr db1)) o2 = Some q" and "op_key q = op_key p"
  shows "fst (begin_op e' o2 (run_ops dag_step tr db1)) \<noteq> Inr (Some w')"
proof
  let ?later = "run_ops dag_step tr db1"
  assume again: "fst (begin_op e' o2 ?later) = Inr (Some w')"
  have "ops_unique db1 \<and> begun o1 (op_key p) db1"
  proof (cases rule: begin_op_cases [of e o1 db])
    case (begun p' n)
    with assms(2,3) have "begun o1 (op_key p) db1" by (auto simp: begun_def row_where_iff tbl op_key_def)
    moreover have "ops_kept db db1" using begin_op_kept [of db e o1] assms(2) by simp
    ultimately show ?thesis using kept_unique assms(1) by blast
  qed (use assms(2) in simp_all)
  then have u: "ops_unique ?later \<and> begun o1 (op_key p) ?later"
    by (rule run_ops_invariant [where I = "\<lambda>d. ops_unique d \<and> begun o1 (op_key p) d", rotated]) (rule unique_begun_step)
  then obtain p' where p': "map_of (dag_ops ?later) o1 = Some p'" "op_key p' = op_key p" "do_state p' \<noteq> OPending"
    by (auto simp: begun_def row_where_iff)
  with u assms(4,5) have "o2 = o1" by (auto simp: ops_unique_def)
  moreover from again obtain p2 where "map_of (dag_ops ?later) o2 = Some p2" "do_state p2 = OPending"
    by (cases rule: begin_op_cases [of e' o2 ?later]) auto
  ultimately show False using p' by simp
qed

section \<open>A sample graph\<close>

definition dag_payload :: json where
  "dag_payload = JObj [(''identity'', JStr ''local''), (''project'', JStr ''p''), (''session'', JStr ''s''), (''source'', JStr ''local''),
     (''role'', JStr ''admin''), (''repository'', JStr ''r''), (''storage'', JStr ''w''), (''depth'', JInt 1), (''concurrency'', JInt 2),
     (''budget_owner'', JStr (saved_owner (JObj [(''source'', JStr ''local''), (''identity'', JStr ''local''), (''project'', JStr ''p''), (''session'', JStr ''s'')]))),
     (''budget_root'', JStr ''t''), (''temporal_graph'', JStr ''g'')]"

definition dag_owner :: owner where
  "dag_owner = saved_owner (JObj [(''source'', JStr ''local''), (''identity'', JStr ''local''), (''project'', JStr ''p''), (''session'', JStr ''s'')])"

definition dag_budget :: budget_row where
  "dag_budget = \<lparr>deadline = 500, b_limits = \<lparr>l_tokens = 9, l_requests = 9, l_children = 9, l_depth = 3, l_cost = 0, l_output = 9, l_rates = JObj []\<rparr>,
     b_requests = 0, b_tokens = 0, b_cost = 0, b_children = 1\<rparr>"

definition sample_dag_env :: dag_env where
  "sample_dag_env = coord_env.extend sample_env \<lparr>de_stamp = (\<lambda>_. Some ''x''), de_self = (7, ''x''), de_scope = dag_owner,
     de_role = (\<lambda>_. ''admin''), de_paths = (\<lambda>_. Inr ()), de_tree = (\<lambda>_. Inr (''b'', ''h'', [], ''c''))\<rparr>
     \<lparr>ce_settings := Inr \<lparr>s_address = ''a'', s_namespace = ''n'', s_engine = ''e'', s_file_writes = False\<rparr>\<rparr>"

definition dag_graph :: "pystr \<Rightarrow> agent_graph" where
  "dag_graph s = \<lparr>gr_owner = dag_owner, gr_root = ''t'', gr_anchor = sample_id (CHR ''a''),
     gr_contract = canonical (JObj [(''schema_version'', JInt 1),
           (''root_ref'', JStr (sha256 (dag_owner @ char_of (0::nat) # ''t''))),
           (''deadline'', JFloat (ce_repr sample_dag_env (deadline dag_budget))), (''limits'', limits_json (ce_repr sample_dag_env) (b_limits dag_budget))]),
     gr_address = ''a'', gr_namespace = ''n'', gr_queue = ''pythonai-host-h-dag-v1'', gr_state = s, gr_sealed = False,
     gr_dispatched = True, gr_stop = None, gr_updated = 0\<rparr>"

definition dag_node :: "node_state \<Rightarrow> agent_node" where
  "dag_node s = (sample_node ''planner'' s)\<lparr>nd_owner := dag_owner, nd_payload := dag_payload\<rparr>"

definition sample_dag :: "pystr \<Rightarrow> node_state \<Rightarrow> (pystr, dag_op) table \<Rightarrow> dag_db" where
  "sample_dag gs ns ops = coord_db.extend (sample_graph [(sample_id (CHR ''a''), dag_node ns)])
     \<lparr>dag_processes = [], dag_ops = ops, dag_gc = None\<rparr>
     \<lparr>agent_graphs := [(''g'', dag_graph gs)], task_budgets := [((dag_owner, ''t''), dag_budget)],
      tasks := [((dag_owner, ''t''), sample_task)]\<rparr>"

lemma sample_dag_get [simp]:
  "dag_get ''g'' (sample_dag gs ns ops) = Inr (dag_graph gs)"
  "agent_runs (sample_dag gs ns ops) = []" "dag_ops (sample_dag gs ns ops) = ops" "dag_processes (sample_dag gs ns ops) = []"
  "agent_nodes (sample_dag gs ns ops) = [(sample_id (CHR ''a''), dag_node ns)]"
  "tasks (sample_dag gs ns ops) = [((dag_owner, ''t''), sample_task)]"
  "execution_bindings (sample_dag gs ns ops) = Some []"
  "assert_owner_active (sample_dag gs ns ops) ow = Inr ()"
  by (simp_all add: dag_get_def sample_dag_def sample_graph_def empty_coord_def coord_db.extend_def owner_blocked_def)

lemma sample_dag_node: "get_node dag_owner (sample_id (CHR ''a'')) (sample_dag gs ns ops) = Inr (dag_node ns)"
proof -
  have "hex_text 32 (sample_id (CHR ''a''))" by code_simp
  then show ?thesis by (simp add: get_node_def dag_node_def)
qed

lemma sample_env_fields [simp]:
  "ce_now sample_dag_env = 0" "ce_role sample_dag_env = ''admin''" "ce_trial sample_dag_env = NoSetting"
  "ce_settings sample_dag_env = Inr \<lparr>s_address = ''a'', s_namespace = ''n'', s_engine = ''e'', s_file_writes = False\<rparr>"
  "de_stamp sample_dag_env = (\<lambda>_. Some ''x'')" "de_self sample_dag_env = (7, ''x'')" "de_role sample_dag_env = (\<lambda>_. ''admin'')"
  "de_paths sample_dag_env = (\<lambda>_. Inr ())" "de_tree sample_dag_env = (\<lambda>_. Inr (''b'', ''h'', [], ''c''))"
  by (simp_all add: sample_dag_env_def sample_env_def coord_env.extend_def)

lemma dag_graph_fields [simp]:
  "gr_owner (dag_graph gs) = dag_owner" "gr_root (dag_graph gs) = ''t''" "gr_anchor (dag_graph gs) = sample_id (CHR ''a'')"
  "gr_address (dag_graph gs) = ''a''" "gr_namespace (dag_graph gs) = ''n''" "gr_queue (dag_graph gs) = ''pythonai-host-h-dag-v1''"
  "gr_state (dag_graph gs) = gs" "gr_stop (dag_graph gs) = None"
  by (simp_all add: dag_graph_def)

lemma sample_dag_fields [simp]:
  "graph_queue (sample_dag gs ns ops) = ''pythonai-host-h-dag-v1''"
  "task_budgets (sample_dag gs ns ops) = [((dag_owner, ''t''), dag_budget)]"
  by (simp_all add: sample_dag_def sample_graph_def empty_coord_def coord_db.extend_def graph_queue_def)

lemma dag_node_fields [simp]:
  "nd_payload (dag_node ns) = dag_payload" "nd_state (dag_node ns) = ns" "nd_owner (dag_node ns) = dag_owner" "nd_root (dag_node ns) = ''t''"
  "nd_deps (dag_node ns) = []" "nd_deadline (dag_node ns) = 500" "nd_expires (dag_node ns) = None" "nd_lease (dag_node ns) = None"
  "nd_result (dag_node ns) = None" "nd_reviewed_by (dag_node ns) = None"
  by (simp_all add: dag_node_def sample_node_def)

lemma dag_payload_fields [simp]:
  "jget dag_payload ''temporal_graph'' = JStr ''g''" "jget dag_payload ''role'' = JStr ''admin''" "jget dag_payload ''source'' = JStr ''local''"
  "jget dag_payload ''identity'' = JStr ''local''" "jget dag_payload ''budget_owner'' = JStr dag_owner" "jget dag_payload ''budget_root'' = JStr ''t''"
  "jget dag_payload ''project'' = JStr ''p''" "jget dag_payload ''session'' = JStr ''s''"
  "jget dag_payload ''depth'' = JInt 1" "jget dag_payload ''concurrency'' = JInt 2"
  by (simp_all add: dag_payload_def jget_def dag_owner_def)

lemma saved_dag_owner: "saved_owner dag_payload = dag_owner"
  by (simp add: saved_owner_def dag_owner_def) (simp add: jget_def)

lemma sample_dag_authority: "dag_authority sample_dag_env b (dag_graph gs) ''g'' (sample_dag gs ns ops) = Inr dag_payload"
  by (simp add: dag_authority_def dag_configuration_def sample_dag_node saved_dag_owner one_of_def new_backend_def trial_owners_def)

lemma sample_dag_contract: "dag_contract sample_dag_env (dag_graph gs) (sample_dag gs ns ops) = Inr dag_budget"
  by (simp add: dag_contract_def) (simp add: dag_graph_def)

lemma sample_dag_nodes: "dag_nodes (dag_graph gs) (sample_dag gs ns ops) = [(sample_id (CHR ''a''), dag_node ns)]"
  by (simp add: dag_nodes_def select_where_def asc_def)

lemma dag_payload_bytes: "json_bytes True False dag_payload < 1000"
  by code_simp

lemma sample_dag_start: "\<exists>db1. start_node sample_dag_env ''k'' ''g'' (sample_id (CHR ''a'')) (dag_node NQueued) (sample_dag ''pending'' NQueued []) = Inr db1"
proof -
  let ?db = "sample_dag ''pending'' NQueued []" and ?i = "sample_id (CHR ''a'')"
  have "map_of (tasks ?db) (node_task_owner dag_payload, node_task ?i) = None" by (simp add: node_task_def)
  then have b: "bind_child dag_payload ?i ?db = Inr (?db\<lparr>execution_bindings := Some [((node_task_owner dag_payload, node_task ?i), ''temporal'')]\<rparr>)"
    by (simp add: bind_child_def Let_def insert_or_ignore_def)
  have events: "agent_events ?db = []" by (simp add: sample_dag_def sample_graph_def empty_coord_def coord_db.extend_def)
  have "agent_bytes ((set_node ?i c f (?db\<lparr>execution_bindings := x\<rparr>))\<lparr>agent_runs := y\<rparr>) = node_bytes ?i (f (dag_node NQueued))"
    if "c (dag_node NQueued)" for c f x y
    using that by (simp add: agent_bytes_def set_node_def events update_key_def)
  then show ?thesis
    using dag_payload_bytes sample_bytes(9)
    by (simp add: start_node_def b log_event_def agent_capacity_def node_bytes_def lease_node_def byte_len_def) (simp add: dag_node_def sample_node_def)
qed

text \<open>The only node of the sample graph is claimed; a second claim, by another process, finds its run.\<close>

theorem graph_node_starts_once_witness:
  "\<nexists>w. fst (claim_graph_node (sample_dag_env\<lparr>de_self := (8, ''x'')\<rparr>) ''l'' ''g'' (sample_id (CHR ''a''))
     (run_ops dag_step [(5, DNodeStopped ''g'' (sample_id (CHR ''a'')))]
       (snd (claim_graph_node sample_dag_env ''k'' ''g'' (sample_id (CHR ''a'')) (sample_dag ''pending'' NQueued []))))) = Inr (Some w)"
proof -
  let ?db = "sample_dag ''pending'' NQueued []" and ?i = "sample_id (CHR ''a'')"
  have checks: "claim_checks sample_dag_env (dag_graph ''pending'') ?i (dag_node NQueued) dag_budget ?db = Inr ()"
    by (simp add: claim_checks_def node_ready_def sample_dag_node same_authority_def pint_def running_count_def)
      (simp add: dag_budget_def)
  obtain db1 where "start_node sample_dag_env ''k'' ''g'' ?i (dag_node NQueued) ?db = Inr db1" using sample_dag_start by blast
  then have "claim_graph_node sample_dag_env ''k'' ''g'' ?i ?db
      = (Inr (Some (?i, (lease_node 0 ''k'' (dag_node NQueued))\<lparr>nd_updated := nd_updated (dag_node NQueued)\<rparr>)), db1)"
    by (simp add: claim_graph_node_def sample_dag_authority sample_dag_contract sample_dag_nodes checks) (simp add: dag_budget_def)
  from graph_node_starts_once [OF this, of "sample_dag_env\<lparr>de_self := (8, ''x'')\<rparr>" "''l''" "''g''" "[(5, DNodeStopped ''g'' ?i)]"] this
  show ?thesis by simp
qed

text \<open>A cancelled sample graph starts nothing, also after it was reported as dispatched.\<close>

theorem stopped_graph_starts_nothing_witness:
  "halted ''g'' (run_ops dag_step [(1, DDispatched ''g''), (2, DSettle ''g'' None)] (sample_dag ''cancelled'' NQueued []))"
proof -
  have "halted ''g'' (sample_dag ''cancelled'' NQueued [])"
    by (simp add: halted_def row_where_def) (simp add: sample_dag_def)
  from stopped_graph_starts_nothing [OF this] show ?thesis by blast
qed

definition archive_op :: dag_op where
  "archive_op = \<lparr>do_graph = ''g'', do_node = sample_id (CHR ''a''), do_action = Archive,
     do_snapshot = lifecycle_snapshot (''b'', ''h'', [], ''c'') (dag_node NCompleted) None, do_state = OPending,
     do_process = None, do_result = None, do_updated = 0\<rparr>"

lemma sample_archive:
  "begin_op sample_dag_env ''o'' (sample_dag ''completed'' NCompleted [(''o'', archive_op)])
     = (Inr (Some (sample_id (CHR ''a''), dag_node NCompleted)), set_dag_op ''o'' (\<lambda>q. do_state q = OPending)
         (\<lambda>q. q\<lparr>do_state := OStarted, do_process := Some (7, ''x''), do_updated := 0\<rparr>)
         (sample_dag ''completed'' NCompleted [(''o'', archive_op)]))"
proof -
  let ?db = "sample_dag ''completed'' NCompleted [(''o'', archive_op)]" and ?w = "(sample_id (CHR ''a''), dag_node NCompleted)"
  have quiet: "\<not> live sample_dag_env ''g'' x (Some ''o'') ?db" for x by (simp add: live_def)
  have child: "child_task ?db ?w = None" by (simp add: child_task_def node_task_def)
  have "validate_archive sample_dag_env (Some ''o'') (dag_graph ''completed'') ''g'' (dag_node NCompleted) ?db = Inr ()"
    by (simp add: validate_archive_def graph_terminal_def sample_dag_nodes quiet lease_alive_def after_time_def)
  then have "validate_op sample_dag_env ?w Archive (Some ''o'') ?db = Inr (lifecycle_snapshot (''b'', ''h'', [], ''c'') (dag_node NCompleted) None)"
    by (simp add: validate_op_def Let_def sample_dag_authority same_lifecycle_def quiet lease_alive_def after_time_def child child_leased_def)
  then show ?thesis
    by (simp add: begin_op_def get_dag_op_def archive_op_def sample_dag_node)
qed

text \<open>The process that archives a node dies and is reaped: the archive is not started again.\<close>

theorem lifecycle_io_begins_once_witness:
  "\<nexists>w. fst (begin_op sample_dag_env ''o'' (run_ops dag_step [(9, DLose ''o'')]
     (snd (begin_op sample_dag_env ''o'' (sample_dag ''completed'' NCompleted [(''o'', archive_op)]))))) = Inr (Some w)"
proof -
  let ?db = "sample_dag ''completed'' NCompleted [(''o'', archive_op)]"
  have u: "ops_unique ?db" by (simp add: ops_unique_def)
  have q: "\<exists>q. map_of (dag_ops (run_ops dag_step [(9, DLose ''o'')] (snd (begin_op sample_dag_env ''o'' ?db)))) ''o'' = Some q \<and> op_key q = op_key archive_op"
    by (simp add: sample_archive lose_op_def tbl op_key_def)
  then obtain q where "map_of (dag_ops (run_ops dag_step [(9, DLose ''o'')] (snd (begin_op sample_dag_env ''o'' ?db)))) ''o'' = Some q"
    "op_key q = op_key archive_op" by blast
  from lifecycle_io_begins_once [OF u sample_archive _ this [unfolded sample_archive snd_conv]]
  have "fst (begin_op sample_dag_env ''o'' (run_ops dag_step [(9, DLose ''o'')] (snd (begin_op sample_dag_env ''o'' ?db)))) \<noteq> Inr (Some w)" for w
    by (simp add: sample_archive)
  then show ?thesis by blast
qed

section \<open>A snapshot keeps the wire contract\<close>

lemma update_keys_same: "map_of ns i = Some m \<Longrightarrow> map fst (AList.update i v ns) = map fst ns"
  by (induction ns) (auto simp: map_of_SomeD split: if_splits)

definition same_payloads :: "(pystr \<times> agent_node) list \<Rightarrow> (pystr \<times> agent_node) list \<Rightarrow> bool" where
  "same_payloads ns ns' \<longleftrightarrow> map fst ns' = map fst ns
     \<and> (\<forall>i. map_option nd_payload (map_of ns' i) = map_option nd_payload (map_of ns i))"

lemma fail_blocked_payloads:
  "fail_blocked t rest ns db = (ns', db') \<Longrightarrow> (\<And>i n. (i, n) \<in> set rest \<Longrightarrow> map_option nd_payload (map_of ns i) = Some (nd_payload n)) \<Longrightarrow>
     same_payloads ns ns'"
proof (induction t rest ns db rule: fail_blocked.induct)
  case (2 t i n rest ns db)
  have i: "map_option nd_payload (map_of ns i) = Some (nd_payload n)" by (rule 2(4)) simp
  show ?case
  proof (cases "blocked_node n ns")
    case True
    let ?ns = "AList.update i (n\<lparr>nd_state := NFailed\<rparr>) ns"
    have one: "same_payloads ns ?ns"
      using i by (auto simp: same_payloads_def update_conv' update_keys_same)
    have "same_payloads ?ns ns'"
    proof (rule 2(1) [OF True])
      show "fail_blocked t rest ?ns (set_node i (\<lambda>_. True) (to_state t NFailed) db) = (ns', db')" using 2(3) True by simp
      show "map_option nd_payload (map_of ?ns j) = Some (nd_payload m)" if "(j, m) \<in> set rest" for j m
        using one 2(4) [of j m] that by (simp add: same_payloads_def)
    qed
    with one show ?thesis by (simp add: same_payloads_def)
  next
    case False
    show ?thesis by (rule 2(2) [OF False]) (use 2(3,4) False in auto)
  qed
qed (simp add: same_payloads_def)

lemma set_dag_nodes: "set (dag_nodes g db) = {(i, n). (i, n) \<in> set (agent_nodes db) \<and> nd_owner n = gr_owner g \<and> nd_root n = gr_root g}"
  by (auto simp: dag_nodes_def asc_def select_where_def)

lemma distinct_dag_nodes: "unique_keys (agent_nodes db) \<Longrightarrow> distinct (map fst (dag_nodes g db))"
  unfolding dag_nodes_def asc_def distinct_map distinct_sort set_sort
  using distinct_select [of "agent_nodes db"] by (auto simp: distinct_map)

text \<open>
  The answer of the last transaction of a snapshot passes the check of the workflow, if the identifiers of the nodes
  are 32 hexadecimal digits, there are at most 128 and each allows a concurrency between 1 and 8.
\<close>

lemma snapshot_keeps_contract:
  assumes u: "unique_keys (agent_nodes db)" and g: "map_of (agent_graphs db) k = Some g"
    and nodes: "list_all (\<lambda>(i, n). hex_text 32 i \<and> 1 \<le> node_concurrency n \<and> node_concurrency n \<le> 8) (dag_nodes g db)"
    and few: "length (dag_nodes g db) \<le> 128" and run: "snapshot_settle t k rt db = (Inr p, db')"
  shows "check_probe (probe_json p) = Inr (probe_json p)"
proof -
  let ?ns = "dag_nodes g db"
  obtain ns db1 where f: "fail_blocked t ?ns ?ns db = (ns, db1)" by (cases "fail_blocked t ?ns ?ns db")
  have d: "distinct (map fst ?ns)" by (rule distinct_dag_nodes [OF u])
  have same: "same_payloads ?ns ns" by (rule fail_blocked_payloads [OF f]) (use d in simp)
  then have keys: "map fst ns = map fst ?ns" by (simp add: same_payloads_def)
  have each: "hex_text 32 i \<and> 1 \<le> node_concurrency n \<and> node_concurrency n \<le> 8" if "(i, n) \<in> set ns" for i n
  proof -
    have "map_of ns i = Some n" using that d keys by simp
    with same obtain m where m: "map_of ?ns i = Some m" "nd_payload m = nd_payload n"
      unfolding same_payloads_def by (metis map_option_eq_Some)
    have "node_concurrency m = node_concurrency n" by (simp add: node_concurrency_def m(2))
    with nodes map_of_SomeD [OF m(1)] show ?thesis by (force simp: list_all_iff)
  qed
  then have conc: "1 \<le> Min (set (map (\<lambda>(_, n). node_concurrency n) ns)) \<and> Min (set (map (\<lambda>(_, n). node_concurrency n) ns)) \<le> 8"
    if "ns \<noteq> []" using that by (cases ns) (auto simp: Min_le_iff)
  have "length ns \<le> 128" using few keys by (metis length_map)
  then have ready: "distinct (map fst (filter q ns))" "list_all (hex_text 32) (map fst (filter q ns))" "length (filter q ns) \<le> 128" for q
    using d keys each order_trans [OF length_filter_le, of ns 128 q] by (auto simp: distinct_map_filter list_all_iff)
  have p: "pb_concurrency p = (if ns = [] then 1 else Min (set (map (\<lambda>(_, n). node_concurrency n) ns)))"
    "pb_ready p = (if pb_stop p \<or> pb_done p then [] else map fst (filter (\<lambda>(_, n). node_ready n ns) ns))"
    using run g f by (auto simp: snapshot_settle_def dag_get_def Let_def)
  have "1 \<le> pb_concurrency p \<and> pb_concurrency p \<le> 8" using conc by (simp add: p(1))
  moreover have "distinct (pb_ready p)" "list_all (hex_text 32) (pb_ready p)" "length (pb_ready p) \<le> 128"
    using ready by (simp_all add: p(2))
  moreover have "pb_stop p \<or> pb_done p \<Longrightarrow> pb_ready p = []" by (simp add: p(2))
  ultimately show ?thesis
    by (auto simp: check_probe_def probe_json_def has_keys_def jget_def is_bool_def Let_def list_all_iff dag_reference_def distinct_map inj_on_def)
qed

end
