(* ===== verification/Dag_Snapshot.thy ===== *)
theory Dag_Snapshot
  imports Dag_Properties
begin

text \<open>
  The snapshot of a graph, \<open>Graphs.snapshot\<close>: what its three transactions do to the nodes and what it answers, read
  from the rows it leaves and not from the definitions of the model.
\<close>

section \<open>Identifiers stay unique\<close>

abbreviation node_keys_ok :: "dag_db \<Rightarrow> bool" where
  "node_keys_ok db \<equiv> unique_keys (agent_nodes db)"

lemma insert_txn_keys:
  assumes "insert_txn e s ids ow rt par persona aim deps p b review db = Inr (i, db')" and "node_keys_ok db"
  shows "node_keys_ok db'"
proof (cases "Option.bind review (\<lambda>i. reviewer_of i db)")
  case None
  then obtain p' db1 tb db2 limit where pin: "pin e (snd ids) ow rt (fst ids) p b review db = Inr (p', db1)"
    and ins: "insert_row (fst ids) (new_node e ow rt par persona aim deps p' review limit) (agent_nodes db1) = Some tb"
    and ev: "log_event (ce_now e) (fst ids) ow ''submitted'' (JObj [(''persona'', JStr persona), (''dependencies'', JArr (map JStr deps))])
      (set_budget b (\<lambda>r. r\<lparr>b_children := b_children r + 1\<rparr>) db1\<lparr>agent_nodes := tb\<rparr>) = Inr db2" and db': "db' = db2"
    using assms(1) by (auto simp: insert_txn_def split: option.splits if_splits prod.splits)
  have "agent_nodes db' = tb" using ev by (auto simp: db' log_event_def)
  moreover have "agent_nodes db1 = agent_nodes db" using pin_nodes [OF pin] .
  ultimately show ?thesis using ins assms(2) by (auto simp: insert_row_append unique_keys_snoc)
qed (use assms in \<open>simp add: insert_txn_def\<close>)

lemma insert_node_keys: "node_keys_ok db \<Longrightarrow> node_keys_ok (snd (insert_node e ids ow rt par persona aim deps p b review db))"
proof -
  assume ok: "node_keys_ok db"
  have "node_keys_ok (snd (txn db (insert_txn e x ids ow rt par persona aim deps p b review db)))" for x
    by (rule txn_preserves [where P = node_keys_ok]) (use ok insert_txn_keys in blast)+
  then show ?thesis using ok by (simp add: insert_node_def split: option.splits sum.splits)
qed

lemma ensure_review_keys:
  assumes "node_keys_ok db"
  shows "node_keys_ok (snd (ensure_review e ids ow i db))"
proof -
  have ins: "node_keys_ok d'" if "insert_node e ids ow rt par persona aim deps p b review d = (r, d')" "node_keys_ok d"
    for rt par persona aim deps p b review d r d' using insert_node_keys that by (metis snd_conv)
  have b: "node_keys_ok d" if "open_budget c t ow' k db = (r, d)" for c t ow' k r d
    using open_budget_nodes that assms by (metis snd_conv)
  have s: "node_keys_ok (set_node j c f d)" if "node_keys_ok d" for j c f d
    using that by (simp add: set_node_def)
  show ?thesis
    unfolding ensure_review_def
    by (simp split: sum.splits prod.splits del: bind_result_Inl bind_result_Inr)
      (blast intro: assms s dest: ins b)
qed

lemma review_all_keys: "node_keys_ok db \<Longrightarrow> node_keys_ok (snd (review_all e ids ow is db))"
proof (induction "is" arbitrary: db)
  case (Cons i "is")
  show ?case using ensure_review_keys [OF Cons.prems, of e "ids i" ow i] Cons.IH
    by (auto split: prod.splits sum.splits)
qed simp

lemma snapshot_reviews_keys: "node_keys_ok db \<Longrightarrow> node_keys_ok (snd (snapshot_reviews e ids k db))"
  by (auto simp: snapshot_reviews_def review_all_keys split: sum.splits)

lemma stop_graph_nodes: "map fst (agent_nodes (snd (stop_graph t k reason db))) = map fst (agent_nodes db)"
proof (cases "dag_get k db")
  case (Inr g)
  show ?thesis
    by (cases "reason \<in> {''cancelled'', ''needs_input''}"; cases "graph_terminal (gr_state g)"; cases "gr_state g = ''completed''")
      (simp_all only: stop_graph_def Inr not_not if_True if_False, simp_all add: set_graph_def)
qed (simp add: stop_graph_def)

lemma stop_graph_keys: "node_keys_ok db \<Longrightarrow> node_keys_ok (snd (stop_graph t k reason db))"
  by (simp add: unique_keys_def stop_graph_nodes)

text \<open>A graph that is not finished is either left alone or stopped before its reviews are recovered.\<close>

lemma snapshot_admit_cases:
  assumes g: "map_of (agent_graphs db) k = Some g" and live: "\<not> graph_terminal (gr_state g)"
  obtains reason s db2 x where "stop_graph (ce_now e) k reason db = (s, db2)"
    "snapshot_admit e k db \<in> {(Inl x, db), (Inr (Inr (map_of (tasks db) (gr_owner g, gr_root g))), db),
      (case s of Inl y \<Rightarrow> (Inl y, db2) | Inr _ \<Rightarrow> (Inr (Inr (map_of (tasks db) (gr_owner g, gr_root g))), db2))}"
proof -
  have g': "dag_get k db = Inr g" using g by (simp add: dag_get_def)
  define rt where "rt = map_of (tasks db) (gr_owner g, gr_root g)"
  define reason where "reason = (if map_option tstate rt = Some Cancelled then ''cancelled'' else ''needs_input'')"
  define checked where "checked = bind_result (dag_authority e True g k db) (\<lambda>_. dag_contract e g db)"
  obtain s db2 where stop: "stop_graph (ce_now e) k reason db = (s, db2)" by (cases "stop_graph (ce_now e) k reason db")
  define stopped :: "(dag_probe + task_row option) result \<times> dag_db" where "stopped = (case s of Inl y \<Rightarrow> (Inl y, db2) | Inr _ \<Rightarrow> (Inr (Inr rt), db2))"
  have "snapshot_admit e k db = (case checked of Inl x \<Rightarrow> if authority_error x then stopped else (Inl x, db)
     | Inr row \<Rightarrow> if root_stopped rt \<or> deadline row \<le> ce_now e then stopped else (Inr (Inr rt), db))"
    using live unfolding snapshot_admit_def g' sum.case Let_def checked_def [symmetric] rt_def [symmetric] reason_def [symmetric] stop prod.case stopped_def
    by (cases s; cases checked) simp_all
  then have "snapshot_admit e k db \<in> {(Inl (case checked of Inl x \<Rightarrow> x | _ \<Rightarrow> undefined), db), (Inr (Inr rt), db), stopped}"
    by (cases checked) simp_all
  with stop show ?thesis unfolding stopped_def rt_def by (rule that)
qed

lemma snapshot_admit_on:
  assumes "snapshot_admit e k db = (Inr (Inr rt), db1)" "map_of (agent_graphs db) k = Some g" "\<not> graph_terminal (gr_state g)"
  shows "rt = map_of (tasks db) (gr_owner g, gr_root g) \<and> (db1 = db \<or> (\<exists>reason. stop_graph (ce_now e) k reason db = (Inr (), db1)))"
proof -
  obtain reason s db2 x where "stop_graph (ce_now e) k reason db = (s, db2)"
    "snapshot_admit e k db \<in> {(Inl x, db), (Inr (Inr (map_of (tasks db) (gr_owner g, gr_root g))), db),
      (case s of Inl y \<Rightarrow> (Inl y, db2) | Inr _ \<Rightarrow> (Inr (Inr (map_of (tasks db) (gr_owner g, gr_root g))), db2))}"
    by (rule snapshot_admit_cases [OF assms(2,3)])
  with assms(1) show ?thesis by (cases s) auto
qed

lemma stop_graph_row:
  assumes "stop_graph t k reason db = (Inr (), db1)" "map_of (agent_graphs db) k = Some g" "\<not> graph_terminal (gr_state g)"
  shows "\<exists>g1. map_of (agent_graphs db1) k = Some g1 \<and> \<not> graph_terminal (gr_state g1) \<and> gr_owner g1 = gr_owner g \<and> gr_root g1 = gr_root g"
  using assms by (auto simp: stop_graph_def txn_Inr dag_get_def tbl graph_terminal_def split: if_splits)

section \<open>Failing what is blocked\<close>

text \<open>The row of a node of a graph, its update time aside.\<close>

definition core :: "agent_node \<Rightarrow> agent_node" where
  "core n = n\<lparr>nd_updated := 0\<rparr>"

lemma core_simps [simp]:
  "core (to_state t s n) = (core n)\<lparr>nd_state := s\<rparr>" "core (n\<lparr>nd_state := s\<rparr>) = (core n)\<lparr>nd_state := s\<rparr>"
  "nd_state (core n) = nd_state n" "nd_deps (core n) = nd_deps n" "nd_review_of (core n) = nd_review_of n"
  "nd_payload (core n) = nd_payload n" "nd_owner (core n) = nd_owner n" "nd_root (core n) = nd_root n"
  "nd_owner (to_state t s n) = nd_owner n" "nd_root (to_state t s n) = nd_root n"
  by (simp_all add: core_def to_state_def)

definition graph_node :: "agent_graph \<Rightarrow> dag_db \<Rightarrow> pystr \<Rightarrow> agent_node option" where
  "graph_node g db i = map_option core (case map_of (agent_nodes db) i of None \<Rightarrow> None
     | Some n \<Rightarrow> if nd_owner n = gr_owner g \<and> nd_root n = gr_root g then Some n else None)"

definition tracks :: "agent_graph \<Rightarrow> (pystr \<times> agent_node) list \<Rightarrow> dag_db \<Rightarrow> bool" where
  "tracks g ns db \<longleftrightarrow> (\<forall>i. graph_node g db i = map_option core (map_of ns i))"

lemma map_of_dag_nodes:
  assumes "node_keys_ok db"
  shows "map_of (dag_nodes g db) i = (case map_of (agent_nodes db) i of None \<Rightarrow> None
     | Some n \<Rightarrow> if nd_owner n = gr_owner g \<and> nd_root n = gr_root g then Some n else None)"
proof -
  have d: "distinct (map fst (dag_nodes g db))" by (rule distinct_dag_nodes [OF assms])
  have "map_of (dag_nodes g db) i = Some n \<longleftrightarrow> map_of (agent_nodes db) i = Some n \<and> nd_owner n = gr_owner g \<and> nd_root n = gr_root g" for n
  proof -
    have "map_of (dag_nodes g db) i = Some n \<longleftrightarrow> (i, n) \<in> set (dag_nodes g db)" using d by simp
    also have "\<dots> \<longleftrightarrow> (i, n) \<in> set (agent_nodes db) \<and> nd_owner n = gr_owner g \<and> nd_root n = gr_root g"
      by (simp add: set_dag_nodes)
    also have "(i, n) \<in> set (agent_nodes db) \<longleftrightarrow> map_of (agent_nodes db) i = Some n" using assms by (simp add: unique_keys_def)
    finally show ?thesis by simp
  qed
  note iff = this
  show ?thesis
  proof (cases "map_of (dag_nodes g db) i")
    case None
    with iff show ?thesis by (auto split: option.split)
  next
    case (Some n)
    with iff [of n] show ?thesis by simp
  qed
qed

lemma tracks_dag_nodes: "node_keys_ok db \<Longrightarrow> tracks g (dag_nodes g db) db"
  by (simp add: tracks_def graph_node_def map_of_dag_nodes)

definition lost_dep :: "(pystr \<times> agent_node) list \<Rightarrow> pystr \<Rightarrow> bool" where
  "lost_dep ns k \<longleftrightarrow> (case map_of ns k of None \<Rightarrow> True | Some d \<Rightarrow> nd_state d \<in> STOPPED)"

lemma blocked_node_iff: "blocked_node n ns \<longleftrightarrow> nd_state n = NQueued \<and> (\<exists>k\<in>set (nd_deps n). lost_dep ns k)"
  by (simp add: blocked_node_def lost_dep_def list_ex_iff)

definition failed_from :: "(pystr \<times> agent_node) list \<Rightarrow> (pystr \<times> agent_node) list \<Rightarrow> bool" where
  "failed_from ns ns' \<longleftrightarrow> map fst ns' = map fst ns \<and> (\<forall>i n. map_of ns i = Some n \<longrightarrow>
     map_of ns' i = Some n \<or> (map_of ns' i = Some (n\<lparr>nd_state := NFailed\<rparr>) \<and> blocked_node n ns'))"

lemma failed_from_lost:
  assumes "failed_from ns ns'" and "lost_dep ns k"
  shows "lost_dep ns' k"
proof (cases "map_of ns k")
  case None
  then have "k \<notin> set (map fst ns')" using assms(1) by (simp add: failed_from_def map_of_eq_None_iff)
  then have "map_of ns' k = None" by (simp add: map_of_eq_None_iff)
  then show ?thesis by (simp add: lost_dep_def)
next
  case (Some d)
  then have "map_of ns' k = Some d \<or> map_of ns' k = Some (d\<lparr>nd_state := NFailed\<rparr>)" using assms(1) by (auto simp: failed_from_def)
  with Some assms(2) show ?thesis by (auto simp: lost_dep_def STOPPED_def)
qed

lemma failed_from_trans:
  assumes ab: "failed_from a b" and bc: "failed_from b c"
  shows "failed_from a c"
proof -
  have "map_of c i = Some n \<or> (map_of c i = Some (n\<lparr>nd_state := NFailed\<rparr>) \<and> blocked_node n c)" if "map_of a i = Some n" for i n
  proof -
    from ab that consider "map_of b i = Some n" | "map_of b i = Some (n\<lparr>nd_state := NFailed\<rparr>)" "blocked_node n b"
      by (auto simp: failed_from_def)
    then show ?thesis
    proof cases
      case 1 with bc show ?thesis by (auto simp: failed_from_def)
    next
      case 2
      from 2(2) failed_from_lost [OF bc] have "blocked_node n c" by (auto simp: blocked_node_iff)
      moreover from bc 2(1) have "map_of c i = Some (n\<lparr>nd_state := NFailed\<rparr>) \<or> map_of c i = Some (n\<lparr>nd_state := NFailed\<rparr>\<lparr>nd_state := NFailed\<rparr>)"
        unfolding failed_from_def by blast
      ultimately show ?thesis by simp
    qed
  qed
  with ab bc show ?thesis by (auto simp: failed_from_def)
qed

lemma fail_blocked_spec:
  "fail_blocked t rest ns db = (ns', db') \<Longrightarrow> tracks g ns db \<Longrightarrow> distinct (map fst rest) \<Longrightarrow>
     (\<And>i n. (i, n) \<in> set rest \<Longrightarrow> map_of ns i = Some n) \<Longrightarrow>
     tracks g ns' db' \<and> failed_from ns ns' \<and> (\<forall>(i, n) \<in> set rest. blocked_node n ns \<longrightarrow> map_of ns' i = Some (n\<lparr>nd_state := NFailed\<rparr>))
     \<and> (\<forall>i. i \<notin> fst ` set rest \<longrightarrow> map_of (agent_nodes db') i = map_of (agent_nodes db) i \<and> map_of ns' i = map_of ns i)"
proof (induction t rest ns db rule: fail_blocked.induct)
  case (2 t i n rest ns db)
  have i: "map_of ns i = Some n" by (rule 2(6)) simp
  have out: "i \<notin> fst ` set rest" and d: "distinct (map fst rest)" using 2(5) by auto
  show ?case
  proof (cases "blocked_node n ns")
    case True
    let ?ns = "AList.update i (n\<lparr>nd_state := NFailed\<rparr>) ns" and ?db = "set_node i (\<lambda>_. True) (to_state t NFailed) db"
    have run: "fail_blocked t rest ?ns ?db = (ns', db')" using 2(3) True by simp
    from 2(4) i obtain m where m: "map_of (agent_nodes db) i = Some m" "nd_owner m = gr_owner g" "nd_root m = gr_root g"
      "core m = core n"
      by (auto simp: tracks_def graph_node_def split: option.splits if_splits dest!: spec [of _ i])
    have "tracks g ?ns ?db"
      using 2(4) m by (auto simp: tracks_def graph_node_def update_conv' set_node_def tbl)
    moreover have one: "failed_from ns ?ns"
    proof -
      have "lost_dep ?ns k" if "lost_dep ns k" for k
        using that i by (auto simp: lost_dep_def update_conv' STOPPED_def)
      then have "blocked_node n ?ns" using True by (auto simp: blocked_node_iff)
      then show ?thesis using i by (auto simp: failed_from_def update_conv' update_keys_same)
    qed
    moreover have "map_of ?ns j = Some m" if "(j, m) \<in> set rest" for j m
    proof -
      have "j \<noteq> i" using that out by force
      with that 2(6) show ?thesis by (simp add: update_conv')
    qed
    ultimately have IH: "tracks g ns' db' \<and> failed_from ?ns ns' \<and> (\<forall>(i, n) \<in> set rest. blocked_node n ?ns \<longrightarrow> map_of ns' i = Some (n\<lparr>nd_state := NFailed\<rparr>))
     \<and> (\<forall>i. i \<notin> fst ` set rest \<longrightarrow> map_of (agent_nodes db') i = map_of (agent_nodes ?db) i \<and> map_of ns' i = map_of ?ns i)"
      using 2(1) [OF True run _ d] by blast
    have "blocked_node m ?ns" if "blocked_node m ns" for m
      using that failed_from_lost [OF one] by (auto simp: blocked_node_iff)
    with IH one failed_from_trans [OF one] out show ?thesis by (auto simp: update_conv' set_node_def tbl)
  next
    case False
    have IH: "tracks g ns' db' \<and> failed_from ns ns' \<and> (\<forall>(i, n) \<in> set rest. blocked_node n ns \<longrightarrow> map_of ns' i = Some (n\<lparr>nd_state := NFailed\<rparr>))
     \<and> (\<forall>i. i \<notin> fst ` set rest \<longrightarrow> map_of (agent_nodes db') i = map_of (agent_nodes db) i \<and> map_of ns' i = map_of ns i)"
      by (rule 2(2) [OF False]) (use 2(3,4,6) d False in auto)
    with False show ?thesis by auto
  qed
qed (auto simp: failed_from_def)

section \<open>What a snapshot answers\<close>

text \<open>A dependency that can not succeed any more, and a node that may start, by the rows of the graph.\<close>

definition dep_dead :: "agent_graph \<Rightarrow> dag_db \<Rightarrow> pystr \<Rightarrow> bool" where
  "dep_dead g db k \<longleftrightarrow> (case graph_node g db k of None \<Rightarrow> True
     | Some d \<Rightarrow> nd_state d \<in> {NFailed, NRejected, NCancelled, NTimedOut, NNeedsInput, NNeedsResolution, NConflict})"

definition may_start :: "agent_graph \<Rightarrow> dag_db \<Rightarrow> agent_node \<Rightarrow> bool" where
  "may_start g db n \<longleftrightarrow> nd_state n = NQueued \<and> (\<forall>k\<in>set (nd_deps n). \<exists>d. graph_node g db k = Some d
     \<and> (nd_state d \<in> {NCompleted, NReviewed, NMerged} \<or> (nd_review_of n = Some k \<and> nd_state d = NReviewPending)))"

text \<open>
  The effect on the nodes: exactly queued nodes with a dead dependency fail, all of those whose dependency was
  dead before, and nothing else changes.
\<close>

definition fails_dead :: "agent_graph \<Rightarrow> dag_db \<Rightarrow> dag_db \<Rightarrow> bool" where
  "fails_dead g db db' \<longleftrightarrow> (\<forall>i. case graph_node g db i of
       None \<Rightarrow> map_of (agent_nodes db') i = map_of (agent_nodes db) i
     | Some n \<Rightarrow> let failed = n\<lparr>nd_state := NFailed\<rparr>; dead = (\<lambda>d. nd_state n = NQueued \<and> list_ex (dep_dead g d) (nd_deps n)) in
         (graph_node g db' i = Some n \<and> \<not> dead db) \<or> (graph_node g db' i = Some failed \<and> dead db'))"

text \<open>The answer by the rows it leaves: the graph \<open>g\<close> as it was read and \<open>g'\<close> as it is now.\<close>

definition probe_states :: "agent_graph \<Rightarrow> agent_graph \<Rightarrow> task_row option \<Rightarrow> dag_db \<Rightarrow> dag_probe \<Rightarrow> bool" where
  "probe_states g g' rt db p \<longleftrightarrow>
     pb_done p = ((\<forall>i n. graph_node g db i = Some n \<longrightarrow> nd_state n \<in> SUCCESS \<union> STOPPED)
       \<and> (gr_state g = ''cancelling'' \<or> gr_sealed g \<or> (case rt of None \<Rightarrow> True | Some r \<Rightarrow> tstate r \<in> {Completed, Failed, Cancelled})))
   \<and> (if pb_done p then gr_sealed g' \<and> gr_state g' = (case gr_stop g of Some r \<Rightarrow> r
         | None \<Rightarrow> if \<forall>i n. graph_node g db i = Some n \<longrightarrow> nd_state n \<in> SUCCESS then ''completed'' else ''needs_input'')
       else g' = g)
   \<and> pb_stop p = (if pb_done p then gr_state g' \<noteq> ''completed'' else gr_state g = ''cancelling'')
   \<and> distinct (pb_ready p)
   \<and> (\<forall>i. i \<in> set (pb_ready p) \<longleftrightarrow> \<not> pb_stop p \<and> \<not> pb_done p \<and> (\<exists>n. graph_node g db i = Some n \<and> may_start g db n))
   \<and> (if \<forall>i. graph_node g db i = None then pb_concurrency p = 1
      else (\<exists>i n. graph_node g db i = Some n \<and> pb_concurrency p = node_concurrency n)
        \<and> (\<forall>i n. graph_node g db i = Some n \<longrightarrow> pb_concurrency p \<le> node_concurrency n))"

lemma graph_node_key: "map_of ns i = Some n \<Longrightarrow> tracks g ns db \<Longrightarrow> graph_node g db i = Some (core n)"
  by (simp add: tracks_def)

lemma tracks_all:
  assumes tr: "tracks g ns db" and d: "distinct (map fst ns)" and q: "\<And>n. Q (core n) = Q n"
  shows "list_all (\<lambda>(_, n). Q n) ns \<longleftrightarrow> (\<forall>i n. graph_node g db i = Some n \<longrightarrow> Q n)"
proof -
  have "list_all (\<lambda>(_, n). Q n) ns \<longleftrightarrow> (\<forall>i n. (i, n) \<in> set ns \<longrightarrow> Q n)" by (auto simp: list_all_iff)
  also have "\<dots> \<longleftrightarrow> (\<forall>i n. map_of ns i = Some n \<longrightarrow> Q n)" using d by (simp add: map_of_eq_Some_iff)
  also have "\<dots> \<longleftrightarrow> (\<forall>i n. graph_node g db i = Some n \<longrightarrow> Q n)"
    using tr by (auto simp: tracks_def q) (metis q)
  finally show ?thesis .
qed

lemma lost_dead: "tracks g ns db \<Longrightarrow> lost_dep ns k = dep_dead g db k"
  by (cases "map_of ns k") (auto simp: lost_dep_def dep_dead_def tracks_def STOPPED_def)

lemma blocked_dead: "tracks g ns db \<Longrightarrow> blocked_node n ns \<longleftrightarrow> nd_state n = NQueued \<and> list_ex (dep_dead g db) (nd_deps n)"
  by (auto simp: blocked_node_iff lost_dead list_ex_iff)

lemma ready_may_start: "tracks g ns db \<Longrightarrow> node_ready n ns = may_start g db (core n)"
  by (auto simp: node_ready_def may_start_def tracks_def list_all_iff dep_met_def SUCCESS_def split: option.splits)

lemma fail_blocked_fails_dead:
  assumes u: "node_keys_ok db" and f: "fail_blocked t (dag_nodes g db) (dag_nodes g db) db = (ns, db')"
  shows "tracks g ns db' \<and> distinct (map fst ns) \<and> fails_dead g db db'"
proof -
  let ?ns = "dag_nodes g db"
  have d: "distinct (map fst ?ns)" by (rule distinct_dag_nodes [OF u])
  have tr: "tracks g ?ns db" by (rule tracks_dag_nodes [OF u])
  from fail_blocked_spec [OF f tr d] d have
    spec: "tracks g ns db'" "failed_from ?ns ns" "\<forall>(i, n) \<in> set ?ns. blocked_node n ?ns \<longrightarrow> map_of ns i = Some (n\<lparr>nd_state := NFailed\<rparr>)"
      "\<forall>i. i \<notin> fst ` set ?ns \<longrightarrow> map_of (agent_nodes db') i = map_of (agent_nodes db) i \<and> map_of ns i = map_of ?ns i" by auto
  have "case graph_node g db i of None \<Rightarrow> map_of (agent_nodes db') i = map_of (agent_nodes db) i
     | Some n \<Rightarrow> let failed = n\<lparr>nd_state := NFailed\<rparr>; dead = (\<lambda>d. nd_state n = NQueued \<and> list_ex (dep_dead g d) (nd_deps n)) in
         (graph_node g db' i = Some n \<and> \<not> dead db) \<or> (graph_node g db' i = Some failed \<and> dead db')" for i
  proof (cases "map_of ?ns i")
    case None
    then have "graph_node g db i = None" "i \<notin> fst ` set ?ns" using tr by (simp_all add: tracks_def map_of_eq_None_iff)
    with spec(4) show ?thesis by simp
  next
    case (Some n)
    have g: "graph_node g db i = Some (core n)" using graph_node_key [OF Some tr] .
    have b: "blocked_node n ?ns \<Longrightarrow> map_of ns i = Some (n\<lparr>nd_state := NFailed\<rparr>)" using spec(3) map_of_SomeD [OF Some] by blast
    have c: "map_of ns i = Some n \<or> (map_of ns i = Some (n\<lparr>nd_state := NFailed\<rparr>) \<and> blocked_node n ns)"
      using spec(2) Some by (simp add: failed_from_def)
    have q: "nd_state n = NFailed \<Longrightarrow> \<not> blocked_node n ?ns" by (simp add: blocked_node_def)
    show ?thesis
    proof (cases "map_of ns i = Some n")
      case True
      have "n \<noteq> n\<lparr>nd_state := NFailed\<rparr>" if "nd_state n = NQueued" using that by (metis agent_node.select_convs agent_node.surjective agent_node.update_convs node_state.distinct)
      with True b have "\<not> blocked_node n ?ns" by (auto simp: blocked_node_def)
      with True g graph_node_key [OF True spec(1)] show ?thesis by (auto simp: blocked_dead [OF tr] Let_def)
    next
      case False
      with c have "map_of ns i = Some (n\<lparr>nd_state := NFailed\<rparr>)" "blocked_node n ns" by auto
      with g graph_node_key [OF this(1) spec(1)] show ?thesis by (simp add: blocked_dead [OF spec(1)] Let_def)
    qed
  qed
  moreover have "distinct (map fst ns)" using spec(2) d by (simp add: failed_from_def)
  ultimately show ?thesis using spec(1) by (simp add: fails_dead_def)
qed

lemma graph_node_set_graph [simp]: "graph_node g (set_graph k f db) i = graph_node g db i"
  "agent_nodes (set_graph k f db) = agent_nodes db"
  by (simp_all add: graph_node_def set_graph_def)

lemma settle_probe:
  assumes u: "node_keys_ok db" and g: "map_of (agent_graphs db) k = Some g" and run: "snapshot_settle t k rt db = (Inr p, db')"
  shows "\<exists>g'. map_of (agent_graphs db') k = Some g' \<and> fails_dead g db db' \<and> probe_states g g' rt db' p"
proof -
  obtain ns db1 where f: "fail_blocked t (dag_nodes g db) (dag_nodes g db) db = (ns, db1)"
    by (cases "fail_blocked t (dag_nodes g db) (dag_nodes g db) db")
  define finished where "finished = graph_done g rt ns"
  define state where "state = final_state g ns"
  define db2 where "db2 = (if finished then set_graph k (\<lambda>g. g\<lparr>gr_state := state, gr_sealed := True, gr_updated := t\<rparr>) db1 else db1)"
  define stop where "stop = (if finished then state \<noteq> ''completed'' else gr_state g = ''cancelling'')"
  from run g f have p: "p = \<lparr>pb_done = finished, pb_stop = stop,
         pb_ready = (if stop \<or> finished then [] else map fst (filter (\<lambda>(_, n). node_ready n ns) ns)),
         pb_concurrency = (if ns = [] then 1 else Min (set (map (\<lambda>(_, n). node_concurrency n) ns)))\<rparr>" and db': "db' = db2"
    by (auto simp: snapshot_settle_def dag_get_def finished_def state_def stop_def db2_def Let_def)
  from fail_blocked_fails_dead [OF u f] have tr: "tracks g ns db1" and d: "distinct (map fst ns)" and fd: "fails_dead g db db1" by auto
  have same: "graph_node g db2 i = graph_node g db1 i" "map_of (agent_nodes db2) i = map_of (agent_nodes db1) i" for i
    by (simp_all add: db2_def)
  have tr2: "tracks g ns db2" using tr by (simp add: tracks_def same)
  have dead: "dep_dead g db2 = dep_dead g db1" by (simp add: fun_eq_iff dep_dead_def same)
  have fd2: "fails_dead g db db2" using fd dead by (simp add: fails_dead_def same cong: option.case_cong)
  have row: "map_of (agent_graphs db1) k = Some g"
    using fail_blocked_frame [OF f] g by (auto simp: dag_frame_def map_add_def split: option.splits)
  define g' where "g' = (if finished then g\<lparr>gr_state := state, gr_sealed := True, gr_updated := t\<rparr> else g)"
  have row2: "map_of (agent_graphs db2) k = Some g'" using row by (simp add: db2_def g'_def tbl)
  have all: "list_all (\<lambda>(_, n). nd_state n \<in> S) ns \<longleftrightarrow> (\<forall>i n. graph_node g db2 i = Some n \<longrightarrow> nd_state n \<in> S)" for S
    using tracks_all [OF tr2 d, of "\<lambda>n. nd_state n \<in> S"] by simp
  have "probe_states g g' rt db2 p"
    unfolding probe_states_def
  proof (intro conjI)
    show "pb_done p = ((\<forall>i n. graph_node g db2 i = Some n \<longrightarrow> nd_state n \<in> SUCCESS \<union> STOPPED)
       \<and> (gr_state g = ''cancelling'' \<or> gr_sealed g \<or> (case rt of None \<Rightarrow> True | Some r \<Rightarrow> tstate r \<in> {Completed, Failed, Cancelled})))"
      unfolding p dag_probe.simps finished_def graph_done_def all by (simp add: terminal_def split: option.split)
    show "if pb_done p then gr_sealed g' \<and> gr_state g' = (case gr_stop g of Some r \<Rightarrow> r
         | None \<Rightarrow> if \<forall>i n. graph_node g db2 i = Some n \<longrightarrow> nd_state n \<in> SUCCESS then ''completed'' else ''needs_input'')
       else g' = g"
      by (auto simp: p g'_def state_def final_state_def all split: option.split)
    show "pb_stop p = (if pb_done p then gr_state g' \<noteq> ''completed'' else gr_state g = ''cancelling'')"
      by (simp add: p stop_def g'_def)
    show "distinct (pb_ready p)" using d by (simp add: p distinct_map_filter)
    have "i \<in> set (map fst (filter (\<lambda>(_, n). node_ready n ns) ns)) \<longleftrightarrow> (\<exists>n. graph_node g db2 i = Some n \<and> may_start g db2 n)" for i
    proof -
      have "i \<in> set (map fst (filter (\<lambda>(_, n). node_ready n ns) ns)) \<longleftrightarrow> (\<exists>n. map_of ns i = Some n \<and> node_ready n ns)"
        using d by (force simp: map_of_eq_Some_iff)
      then show ?thesis using tr2 by (auto simp: tracks_def ready_may_start [OF tr2])
    qed
    then show "\<forall>i. i \<in> set (pb_ready p) \<longleftrightarrow> \<not> pb_stop p \<and> \<not> pb_done p \<and> (\<exists>n. graph_node g db2 i = Some n \<and> may_start g db2 n)"
      by (simp add: p)
    have none: "(\<forall>i. graph_node g db2 i = None) \<longleftrightarrow> ns = []" using tr2 by (auto simp: tracks_def) (metis map_of_eq_empty_iff ext)
    have at: "(\<exists>i n. graph_node g db2 i = Some n \<and> c = node_concurrency n) \<longleftrightarrow> c \<in> set (map (\<lambda>(_, n). node_concurrency n) ns)" for c
    proof -
      have nc: "node_concurrency (core n) = node_concurrency n" for n by (simp add: node_concurrency_def)
      have "c \<in> set (map (\<lambda>(_, n). node_concurrency n) ns) \<longleftrightarrow> (\<exists>i n. map_of ns i = Some n \<and> c = node_concurrency n)"
        using d by (force simp: map_of_eq_Some_iff)
      then show ?thesis using tr2 by (auto simp: tracks_def nc) (metis nc)+
    qed
    show "if \<forall>i. graph_node g db2 i = None then pb_concurrency p = 1
      else (\<exists>i n. graph_node g db2 i = Some n \<and> pb_concurrency p = node_concurrency n)
        \<and> (\<forall>i n. graph_node g db2 i = Some n \<longrightarrow> pb_concurrency p \<le> node_concurrency n)"
    proof (cases "ns = []")
      case False
      let ?C = "set (map (\<lambda>(_, n). node_concurrency n) ns)"
      have "Min ?C \<in> ?C" by (rule Min_in) (use False in auto)
      moreover have "Min ?C \<le> node_concurrency n" if "graph_node g db2 i = Some n" for i n
        by (rule Min_le) (use at [of "node_concurrency n"] that in auto)
      ultimately show ?thesis using False at [of "Min ?C"] by (simp add: none p)
    qed (simp add: none p)
  qed
  with row2 fd2 show ?thesis unfolding db' by blast
qed

lemma snapshot_admit_live:
  assumes "map_of (agent_graphs db) k = Some g" "\<not> graph_terminal (gr_state g)"
  shows "fst (snapshot_admit e k db) \<noteq> Inr (Inl q)"
proof -
  obtain reason s db2 x where "stop_graph (ce_now e) k reason db = (s, db2)" "snapshot_admit e k db \<in> {(Inl x, db), (Inr (Inr (map_of (tasks db) (gr_owner g, gr_root g))), db),
      (case s of Inl y \<Rightarrow> (Inl y, db2) | Inr _ \<Rightarrow> (Inr (Inr (map_of (tasks db) (gr_owner g, gr_root g))), db2))}"
    by (rule snapshot_admit_cases [OF assms, of e])
  then show ?thesis by (cases s) auto
qed

text \<open>
  C26: what the snapshot of an unfinished graph does and answers, when no other process writes between its
  three transactions.  It first stops a graph that may not go on and recovers reviewers; then exactly the queued nodes
  with a dependency that is absent or has stopped fail, and no other row of a node changes; the graph is done exactly
  if all its nodes ended and it is stopped, sealed or its root ended, and then takes its stop reason, or completed if
  all succeeded, else needs_input; the ready nodes are exactly the queued ones whose dependencies all
  succeeded (for a reviewer: or is the pending result it reviews), each once, and none if the graph is done or stopped; the concurrency is
  the least of its nodes.
\<close>

theorem snapshot_reports_graph:
  assumes "unique_keys (agent_nodes db)" and "map_of (agent_graphs db) k = Some g0" and "\<not> graph_terminal (gr_state g0)"
    and "dag_snapshot e ids k db = (Inr p, db')"
  shows "\<exists>db1 db2 g g'. snapshot_admit e k db = (Inr (Inr (map_of (tasks db) (gr_owner g0, gr_root g0))), db1)
    \<and> snapshot_reviews (coord_env.truncate e) ids k db1 = (Inr (), db2)
    \<and> map_of (agent_graphs db2) k = Some g \<and> map_of (agent_graphs db') k = Some g'
    \<and> fails_dead g db2 db' \<and> probe_states g g' (map_of (tasks db) (gr_owner g0, gr_root g0)) db' p"
proof -
  let ?rt = "map_of (tasks db) (gr_owner g0, gr_root g0)"
  obtain a db1 where admit: "snapshot_admit e k db = (a, db1)" by (cases "snapshot_admit e k db")
  have live: "a \<noteq> Inr (Inl q)" for q using snapshot_admit_live [OF assms(2,3), of e q] admit by simp
  from assms(4) admit live obtain rt where a: "a = Inr (Inr rt)" by (auto simp: dag_snapshot_def split: sum.splits)
  from snapshot_admit_on [OF admit [unfolded a] assms(2,3)] have rt: "rt = ?rt"
    and stop: "db1 = db \<or> (\<exists>reason. stop_graph (ce_now e) k reason db = (Inr (), db1))" by auto
  have row1: "\<exists>g1. map_of (agent_graphs db1) k = Some g1" using stop stop_graph_row assms(2,3) by blast
  have u1: "node_keys_ok db1" using stop stop_graph_keys [OF assms(1)] assms(1) by (metis snd_conv)
  obtain b db2 where rev: "snapshot_reviews (coord_env.truncate e) ids k db1 = (b, db2)"
    by (cases "snapshot_reviews (coord_env.truncate e) ids k db1")
  from assms(4) admit a rev have b: "b = Inr ()" and settle: "snapshot_settle (ce_now e) k rt db2 = (Inr p, db')"
    by (auto simp: dag_snapshot_def split: sum.splits)
  have u2: "node_keys_ok db2" using snapshot_reviews_keys [OF u1] rev by (metis snd_conv)
  have "dag_frame db1 db2" using snapshot_reviews_frame rev by (metis snd_conv)
  with row1 obtain g where g: "map_of (agent_graphs db2) k = Some g" by (auto simp: dag_frame_def map_add_def)
  from settle_probe [OF u2 g settle] admit a rt rev b g show ?thesis by blast
qed

lemma sample_root_runs: "root_stopped (Some sample_task) = False" "deadline dag_budget > 0"
  by (simp_all add: root_stopped_def sample_task_def dag_budget_def)

lemma sample_snapshot:
  "\<exists>p. fst (dag_snapshot sample_dag_env ids ''g'' (sample_dag ''running'' NQueued [])) = Inr p \<and> pb_ready p = [sample_id (CHR ''a'')]"
proof -
  let ?db = "sample_dag ''running'' NQueued []"
  have a: "snapshot_admit sample_dag_env ''g'' ?db = (Inr (Inr (Some sample_task)), ?db)"
    using sample_root_runs by (simp add: snapshot_admit_def sample_dag_authority sample_dag_contract Let_def graph_terminal_def)
  have r: "snapshot_reviews (coord_env.truncate sample_dag_env) ids ''g'' ?db = (Inr (), ?db)"
    by (simp add: snapshot_reviews_def sample_dag_nodes)
  have open_graph: "gr_sealed (dag_graph ''running'') = False" by (simp add: dag_graph_def)
  have "\<exists>p. fst (snapshot_settle 0 ''g'' (Some sample_task) ?db) = Inr p \<and> pb_ready p = [sample_id (CHR ''a'')]"
    by (auto simp: snapshot_settle_def txn_def Let_def sample_dag_nodes blocked_node_def graph_done_def graph_terminal_def node_ready_def
      SUCCESS_def STOPPED_def open_graph sample_task_def)
  then show ?thesis by (simp add: dag_snapshot_def a r)
qed

theorem snapshot_reports_graph_witness:
  "\<exists>p db' g g'. dag_snapshot sample_dag_env (\<lambda>_. (''x'', ''y'')) ''g'' (sample_dag ''running'' NQueued []) = (Inr p, db')
     \<and> pb_ready p = [sample_id (CHR ''a'')] \<and> probe_states g g' (Some sample_task) db' p"
proof -
  let ?db = "sample_dag ''running'' NQueued []"
  have u: "unique_keys (agent_nodes ?db)" by (simp add: unique_keys_def)
  have g: "map_of (agent_graphs ?db) ''g'' = Some (dag_graph ''running'')" by (simp add: sample_dag_def)
  have live: "\<not> graph_terminal (gr_state (dag_graph ''running''))" by (simp add: graph_terminal_def)
  obtain p where p: "fst (dag_snapshot sample_dag_env (\<lambda>_. (''x'', ''y'')) ''g'' ?db) = Inr p" "pb_ready p = [sample_id (CHR ''a'')]"
    using sample_snapshot by blast
  from p(1) obtain db' where run: "dag_snapshot sample_dag_env (\<lambda>_. (''x'', ''y'')) ''g'' ?db = (Inr p, db')"
    by (cases "dag_snapshot sample_dag_env (\<lambda>_. (''x'', ''y'')) ''g'' ?db") simp
  have "map_of (tasks ?db) (gr_owner (dag_graph ''running''), gr_root (dag_graph ''running'')) = Some sample_task" by simp
  with snapshot_reports_graph [OF u g live run] p(2) run show ?thesis by metis
qed

end
