(* ===== verification/Retrieval.thy ===== *)
theory Retrieval
  imports Vector_Search
begin

text \<open>
  \<open>retrieval.py\<close>: which memories and procedures a turn of the model is shown, in which order, and how they are
  put into the conversation.  The text environment carries \<open>\w+\<close> and \<open>str.lower\<close>; \<open>fmt\<close> is the format \<open>.2f\<close>.
\<close>

section \<open>Memories that may be shown\<close>

definition single_valued :: "pystr list" where
  "single_valued = [''prefers_language'', ''timezone'', ''primary_language'', ''prefers_editor'', ''current_role'',
     ''active_project'', ''version'']"

definition fact_of :: "memory_row \<Rightarrow> pystr \<times> pystr \<times> pystr" where
  "fact_of r = (sm_subject r, sm_predicate r, sm_scope r)"

fun fact_groups :: "(nat \<times> memory_row) list \<Rightarrow> (pystr \<times> pystr \<times> pystr \<rightharpoonup> pystr set) \<Rightarrow> (pystr \<times> pystr \<times> pystr \<rightharpoonup> pystr set)" where
  "fact_groups [] gs = gs"
| "fact_groups ((i, r) # ms) gs = fact_groups ms (if sm_predicate r \<in> set single_valued
     then gs(fact_of r \<mapsto> insert (sm_object r) (case gs (fact_of r) of None \<Rightarrow> {} | Some s \<Rightarrow> s)) else gs)"

definition safe_candidates :: "(nat \<times> memory_row) list \<Rightarrow> (nat \<times> memory_row) list" where
  "safe_candidates ms = (let gs = fact_groups ms Map.empty in
     filter (\<lambda>(_, r). sm_type r \<noteq> ''agent_persona''
       \<and> card (case gs (fact_of r) of None \<Rightarrow> {sm_object r} | Some s \<Rightarrow> s) = 1) ms)"

section \<open>Ranking\<close>

definition memory_type_priority :: "memory_row \<Rightarrow> nat" where
  "memory_type_priority r = (case map_of [(''user_profile'', 50), (''project_fact'', 40), (''agent_persona'', 35),
     (''entity_fact'', 30), (''task_fact'', 20)] (sm_type r) of None \<Rightarrow> 10 | Some p \<Rightarrow> p)"

definition terms_of :: "text_env \<Rightarrow> pystr \<Rightarrow> pystr set" where
  "terms_of t s = set (tokenize (tx_words t) (tx_lower t) s)"

definition memory_rank :: "nat \<times> memory_row \<Rightarrow> nat \<times> real \<times> pystr \<times> nat" where
  "memory_rank kr = (case kr of (i, r) \<Rightarrow> (memory_type_priority r, sm_confidence r, sm_updated r, i))"

definition memory_overlap :: "text_env \<Rightarrow> pystr \<Rightarrow> memory_row \<Rightarrow> nat" where
  "memory_overlap t query r = card (terms_of t query \<inter> terms_of t (format_memory r))"

definition rank_memories :: "text_env \<Rightarrow> pystr \<Rightarrow> (nat \<times> memory_row) list \<Rightarrow> (nat \<times> memory_row) list" where
  "rank_memories t query ms = (if query = [] then sorted_reverse memory_rank ms
     else sorted_reverse (\<lambda>kr. (memory_overlap t query (snd kr), memory_rank kr))
       (filter (\<lambda>(_, r). 0 < memory_overlap t query r) ms))"

text \<open>A dictionary by identifier, filled in order until it holds \<open>limit\<close> memories.\<close>

fun fill_selected :: "nat \<Rightarrow> (nat \<times> memory_row) list \<Rightarrow> (nat, memory_row) table \<Rightarrow> (nat, memory_row) table" where
  "fill_selected limit [] sel = sel"
| "fill_selected limit ((i, r) # ms) sel =
     (if limit \<le> length sel then sel else fill_selected limit ms (insert_or_ignore i r sel))"

definition candidate_memories :: "text_env \<Rightarrow> pystr \<Rightarrow> nat \<Rightarrow> (nat \<times> memory_row) list \<Rightarrow> (nat \<times> memory_row) list" where
  "candidate_memories t query limit ms = (if query = [] then take limit (rank_memories t [] ms)
     else fill_selected limit (rank_memories t [] ms)
       (fold (\<lambda>(i, r). upsert_row i r (\<lambda>_. r)) (take limit (rank_memories t query ms)) []))"

definition merge_candidate_memories :: "(nat \<times> memory_row) list \<Rightarrow> (nat \<times> memory_row) list \<Rightarrow> nat \<Rightarrow> (nat \<times> memory_row) list" where
  "merge_candidate_memories preferred candidates limit = fill_selected limit (preferred @ candidates) []"

definition linked_entity_memories :: "mem_env \<Rightarrow> text_env \<Rightarrow> pystr \<Rightarrow> memory_db \<Rightarrow> (nat \<times> memory_row) list \<Rightarrow> (nat \<times> memory_row) list" where
  "linked_entity_memories e t query db ms = (if query = [] then [] else case find_entity e query None db of
       None \<Rightarrow> []
     | Some (k, _) \<Rightarrow> filter (\<lambda>(_, r). sm_subject_entity r = Some k \<or> sm_object_entity r = Some k) (rank_memories t [] ms))"

section \<open>The memory context\<close>

definition section_order :: "pystr list" where
  "section_order = [''User profile'', ''Project facts'', ''Agent persona'', ''Entity facts'', ''Task facts'', ''Facts'']"

definition memory_section :: "memory_row \<Rightarrow> pystr" where
  "memory_section r = (case map_of [(''user_profile'', ''User profile''), (''project_fact'', ''Project facts''),
     (''agent_persona'', ''Agent persona''), (''entity_fact'', ''Entity facts''), (''task_fact'', ''Task facts'')] (sm_type r) of
     None \<Rightarrow> ''Facts'' | Some s \<Rightarrow> s)"

fun grouped_by_section :: "(nat \<times> memory_row) list \<Rightarrow> (pystr, (nat \<times> memory_row) list) table \<Rightarrow> (pystr, (nat \<times> memory_row) list) table" where
  "grouped_by_section [] gs = gs"
| "grouped_by_section ((i, r) # ms) gs = grouped_by_section ms (upsert_row (memory_section r) [(i, r)] (\<lambda>xs. xs @ [(i, r)]) gs)"

definition group_memories_by_type :: "(nat \<times> memory_row) list \<Rightarrow> (pystr \<times> (nat \<times> memory_row) list) list" where
  "group_memories_by_type ms = (let gs = grouped_by_section ms [] in
     concat (map (\<lambda>s. case map_of gs s of None \<Rightarrow> [] | Some xs \<Rightarrow> [(s, xs)]) section_order))"

definition retrieved_memories :: "mem_env \<Rightarrow> search_env \<Rightarrow> pystr \<Rightarrow> nat \<Rightarrow> bool \<Rightarrow> nat option \<Rightarrow> nat \<Rightarrow> memory_db \<Rightarrow>
    (nat \<times> memory_row) list" where
  "retrieved_memories e s query limit allow budget width db =
     (let active = safe_candidates (take 1000 (active_semantic_memories e db));
          linked = linked_entity_memories e (vs_text s) query db active;
          candidates = merge_candidate_memories linked (candidate_memories (vs_text s) query width active) width;
          hits = map fst (fst (search_with_budget s query candidates limit allow budget))
      in if hits = [] then take limit linked else hits)"

definition source_trust :: "memory_db \<Rightarrow> nat \<Rightarrow> pystr" where
  "source_trust db k = (case map_of (events db) k of None \<Rightarrow> ''unknown''
     | Some ev \<Rightarrow> (case ev_role ev of None \<Rightarrow> ''unknown'' | Some r \<Rightarrow> if r = [] then ''unknown'' else r))"

definition memory_line :: "(real \<Rightarrow> pystr) \<Rightarrow> memory_db \<Rightarrow> nat \<times> memory_row \<Rightarrow> pystr" where
  "memory_line fmt db kr = (case kr of (i, r) \<Rightarrow>
     ''- ['' @ show_nat i @ ''] '' @ format_memory r @ '' (type='' @ sm_type r @ '', scope='' @ sm_scope r
       @ '', confidence='' @ fmt (sm_confidence r) @ '', source_event_id='' @ show_nat (sm_source r)
       @ '', source_trust='' @ source_trust db (sm_source r) @ ''-reported)'')"

definition newline :: pystr where
  "newline = [char_of (10::nat)]"

definition build_memory_context :: "mem_env \<Rightarrow> search_env \<Rightarrow> (real \<Rightarrow> pystr) \<Rightarrow> pystr \<Rightarrow> nat \<Rightarrow> bool \<Rightarrow> nat option \<Rightarrow> nat \<Rightarrow>
    memory_db \<Rightarrow> pystr" where
  "build_memory_context e s fmt query limit allow budget width db =
     (let ms = retrieved_memories e s query limit allow budget width db in
      if ms = [] then [] else py_join newline (''Relevant long-term memory:''
        # concat (map (\<lambda>(sec, xs). (sec @ '':'') # map (memory_line fmt db) xs) (group_memories_by_type ms))))"

section \<open>The procedure context\<close>

definition procedure_success_rate :: "procedure_row \<Rightarrow> real" where
  "procedure_success_rate r = (let n = pr_success r + pr_failure r in
     if n = 0 then 0 else real_of_int (pr_success r) / real_of_int n)"

definition procedure_base_score :: "nat \<times> procedure_row \<Rightarrow> real \<times> int \<times> pystr \<times> nat" where
  "procedure_base_score kr = (case kr of (i, r) \<Rightarrow> (procedure_success_rate r, pr_success r,
     (case pr_last_success r of None \<Rightarrow> pr_updated r | Some s \<Rightarrow> if s = [] then pr_updated r else s), i))"

definition procedure_words :: "pystr \<Rightarrow> pystr \<Rightarrow> pystr list \<Rightarrow> pystr" where
  "procedure_words task context steps = py_join '' '' [task, context, py_join '' '' steps]"

definition procedure_overlap :: "text_env \<Rightarrow> pystr \<Rightarrow> procedure_row \<Rightarrow> nat" where
  "procedure_overlap t query r = card (terms_of t query \<inter> terms_of t (procedure_words (pr_task r) (pr_context r) (pr_steps r)))"

definition rank_procedures :: "text_env \<Rightarrow> pystr \<Rightarrow> (nat \<times> procedure_row) list \<Rightarrow> (nat \<times> procedure_row) list" where
  "rank_procedures t query ps = (if query = [] then sorted_reverse procedure_base_score ps
     else sorted_reverse (\<lambda>kr. (procedure_overlap t query (snd kr), procedure_base_score kr))
       (filter (\<lambda>(_, r). 0 < procedure_overlap t query r) ps))"

definition procedure_line :: "(real \<Rightarrow> pystr) \<Rightarrow> nat \<times> procedure_row \<Rightarrow> pystr" where
  "procedure_line fmt kr = (case kr of (_, r) \<Rightarrow>
     ''- '' @ pr_task r @ '' ['' @ pr_context r @ ''] steps='' @ py_join ''; '' (pr_steps r) @ '' (confidence=''
       @ fmt (pr_confidence r) @ '', successes='' @ show_int (pr_success r) @ '', failures='' @ show_int (pr_failure r)
       @ '', source_episode_id='' @ show_nat (pr_source r) @ '')'')"

definition build_procedure_context :: "text_env \<Rightarrow> (real \<Rightarrow> pystr) \<Rightarrow> pystr \<Rightarrow> nat \<Rightarrow> memory_db \<Rightarrow> pystr" where
  "build_procedure_context t fmt query limit db = (let ps = take limit (rank_procedures t query (active_procedures None db)) in
     if ps = [] then [] else py_join newline (''Relevant reusable workflows:'' # map (procedure_line fmt) ps))"

definition build_combined_memory_context :: "text_env \<Rightarrow> (real \<Rightarrow> pystr) \<Rightarrow> pystr \<Rightarrow> pystr option \<Rightarrow> nat \<Rightarrow> memory_db \<Rightarrow> pystr" where
  "build_combined_memory_context t fmt query semantic limit db =
     (let p = build_procedure_context t fmt query limit db in
      py_join (newline @ newline) ((case semantic of None \<Rightarrow> [] | Some s \<Rightarrow> if s = [] then [] else [s])
        @ (if p = [] then [] else [p])))"

section \<open>Into the conversation\<close>

text \<open>
  The retrieved text goes into a message of the user, quoted as JSON, before the last message of the user.
  \<open>warn\<close> is the configured text \<open>untrusted_memory\<close>, \<open>guidance\<close> what the improvement store answers.
\<close>

definition guidance_head :: pystr where
  "guidance_head = ''Human-reviewed optional improvement guidance. Apply only when consistent with policies and the actual current user request below.'' @ newline"

definition user_message :: "pystr \<Rightarrow> json" where
  "user_message s = JObj [(''role'', JStr ''user''), (''content'', JStr s)]"

definition memory_additions :: "pystr \<Rightarrow> pystr \<Rightarrow> pystr \<Rightarrow> json list" where
  "memory_additions warn guidance ctx = (if ctx = [] then [] else [user_message (warn @ dump_string False ctx)])
     @ (if guidance = [] then [] else [user_message (guidance_head @ guidance)])"

definition has_role :: "pystr \<Rightarrow> json \<Rightarrow> bool" where
  "has_role r m \<longleftrightarrow> jget m ''role'' = JStr r"

definition last_user :: "json list \<Rightarrow> nat" where
  "last_user ms = (case find (\<lambda>i. has_role ''user'' (ms ! i)) (rev [0..<length ms]) of None \<Rightarrow> length ms | Some i \<Rightarrow> i)"

definition inject_memory_context :: "pystr \<Rightarrow> pystr \<Rightarrow> json list \<Rightarrow> pystr \<Rightarrow> json list" where
  "inject_memory_context warn guidance ms ctx = (let adds = memory_additions warn guidance ctx in
     if adds = [] then ms else take (last_user ms) ms @ adds @ drop (last_user ms) ms)"

end
