(* ===== verification/Retrieval_Properties.thy ===== *)
theory Retrieval_Properties
  imports Retrieval Memory_Properties
begin

section \<open>Contradictions\<close>

definition contradicts :: "memory_row \<Rightarrow> memory_row \<Rightarrow> bool" where
  "contradicts r r' \<longleftrightarrow> sm_predicate r \<in> set single_valued \<and> fact_of r = fact_of r' \<and> sm_object r \<noteq> sm_object r'"

definition objects_of :: "(nat \<times> memory_row) list \<Rightarrow> pystr \<times> pystr \<times> pystr \<Rightarrow> pystr set" where
  "objects_of ms k = {sm_object r | i r. (i, r) \<in> set ms \<and> fact_of r = k}"

lemma objects_of_simps [simp]:
  "objects_of [] k = {}"
  "objects_of ((i, r) # ms) k = (if fact_of r = k then insert (sm_object r) (objects_of ms k) else objects_of ms k)"
  by (auto simp: objects_of_def)

lemma fact_groups_lookup:
  "fact_groups ms gs k = (if fst (snd k) \<in> set single_valued \<and> objects_of ms k \<noteq> {}
     then Some ((case gs k of None \<Rightarrow> {} | Some s \<Rightarrow> s) \<union> objects_of ms k) else gs k)"
proof (induction ms gs rule: fact_groups.induct)
  case (2 i r ms gs)
  show ?case
  proof (cases "fact_of r = k")
    case True
    then have "fst (snd k) = sm_predicate r" by (auto simp: fact_of_def)
    with True 2 show ?thesis by (auto split: option.splits)
  qed (auto simp: 2 split: option.splits)
qed simp

lemma one_object:
  assumes "(i, r) \<in> set ms"
  shows "card (objects_of ms (fact_of r)) = 1 \<longleftrightarrow> (\<forall>(j, r') \<in> set ms. fact_of r' = fact_of r \<longrightarrow> sm_object r' = sm_object r)"
proof -
  have m: "sm_object r \<in> objects_of ms (fact_of r)" using assms by (auto simp: objects_of_def)
  then have "card (objects_of ms (fact_of r)) = 1 \<longleftrightarrow> objects_of ms (fact_of r) = {sm_object r}"
    by (metis card_1_singletonE is_singletonI is_singleton_altdef singletonD)
  also have "\<dots> \<longleftrightarrow> (\<forall>x \<in> objects_of ms (fact_of r). x = sm_object r)" using m by blast
  also have "\<dots> \<longleftrightarrow> (\<forall>(j, r') \<in> set ms. fact_of r' = fact_of r \<longrightarrow> sm_object r' = sm_object r)"
    by (auto simp: objects_of_def)
  finally show ?thesis .
qed

lemma safe_candidates_filter:
  "safe_candidates ms = filter (\<lambda>(_, r). sm_type r \<noteq> ''agent_persona'' \<and> list_all (\<lambda>(_, r'). \<not> contradicts r r') ms) ms"
  unfolding safe_candidates_def Let_def
proof (rule filter_cong [OF refl], clarify)
  fix i r assume m: "(i, r) \<in> set ms"
  have p: "fst (snd (fact_of r)) = sm_predicate r" by (simp add: fact_of_def)
  have ne: "objects_of ms (fact_of r) \<noteq> {}" using m by (auto simp: objects_of_def)
  show "(sm_type r \<noteq> ''agent_persona'' \<and> card (case fact_groups ms Map.empty (fact_of r) of None \<Rightarrow> {sm_object r} | Some s \<Rightarrow> s) = 1)
      = (sm_type r \<noteq> ''agent_persona'' \<and> list_all (\<lambda>(_, r'). \<not> contradicts r r') ms)"
  proof (cases "sm_predicate r \<in> set single_valued")
    case True
    have "list_all (\<lambda>(_, r'). \<not> contradicts r r') ms \<longleftrightarrow> card (objects_of ms (fact_of r)) = 1"
      unfolding one_object [OF m] using True by (auto simp: list_all_iff contradicts_def)
    with True ne show ?thesis by (simp add: fact_groups_lookup p)
  qed (simp add: fact_groups_lookup p list_all_iff contradicts_def)
qed

text \<open>
  The grouping of the code keeps exactly the memories that are no agent persona and that no memory of
  the list contradicts: same subject, single-valued predicate and scope, another object.
\<close>

theorem safe_candidates_uncontradicted:
  "safe_candidates ms = filter (\<lambda>(_, r). sm_type r \<noteq> ''agent_persona'' \<and> list_all (\<lambda>(_, r'). \<not> contradicts r r') ms) ms"
  by (rule safe_candidates_filter)

section \<open>Selections\<close>

lemma set_sorted_reverse [simp]: "set (sorted_reverse f xs) = set xs"
  by (simp add: sorted_reverse_def)

lemma map_of_unique: "unique_keys t \<Longrightarrow> (k, v) \<in> set t \<Longrightarrow> map_of t k = Some v"
  by (simp add: unique_keys_def)

lemma rank_memories_subset: "set (rank_memories t query ms) \<subseteq> set ms"
  by (auto simp: rank_memories_def)

lemma fill_selected_set: "set (fill_selected limit ms sel) \<subseteq> set ms \<union> set sel"
proof (induction limit ms sel rule: fill_selected.induct)
  case (2 limit i r ms sel)
  then show ?case by (auto simp: insert_or_ignore_def split: option.splits if_splits)
qed simp

lemma fill_selected_length: "length sel \<le> limit \<Longrightarrow> length (fill_selected limit ms sel) \<le> limit"
  by (induction limit ms sel rule: fill_selected.induct) (auto simp: insert_or_ignore_def split: option.splits)

lemma fill_selected_unique: "unique_keys sel \<Longrightarrow> unique_keys (fill_selected limit ms sel)"
  by (induction limit ms sel rule: fill_selected.induct) auto

lemma upsert_all_set: "set (fold (\<lambda>(i, r). upsert_row i r (\<lambda>_. r)) xs sel) \<subseteq> set xs \<union> set sel"
proof (induction xs arbitrary: sel)
  case (Cons x xs)
  obtain i r where x: "x = (i, r)" by (cases x)
  have "set (AList.update i r sel) \<subseteq> insert (i, r) (set sel)" by (induction sel) auto
  then have "set (upsert_row i r (\<lambda>_. r) sel) \<subseteq> insert (i, r) (set sel)"
    by (auto simp: upsert_row_def split: option.splits)
  with Cons [of "upsert_row i r (\<lambda>_. r) sel"] show ?case by (auto simp: x)
qed simp

lemma upsert_unique [simp]: "unique_keys sel \<Longrightarrow> unique_keys (fold (\<lambda>(i, r). upsert_row i r (\<lambda>_. r)) xs sel)"
  by (induction xs arbitrary: sel) auto

lemma candidate_memories_subset: "set (candidate_memories t query limit ms) \<subseteq> set ms"
proof (cases "query = []")
  case True
  then show ?thesis using rank_memories_subset [of t "[]" ms]
    by (auto simp: candidate_memories_def dest: in_set_takeD)
next
  case False
  let ?sel = "fold (\<lambda>(i, r). upsert_row i r (\<lambda>_. r)) (take limit (rank_memories t query ms)) []"
  have "set ?sel \<subseteq> set ms"
    using upsert_all_set [of "take limit (rank_memories t query ms)" "[]"] rank_memories_subset [of t query ms]
    by (auto dest!: in_set_takeD)
  with False fill_selected_set [of limit "rank_memories t [] ms" ?sel] rank_memories_subset [of t "[]" ms]
  show ?thesis by (auto simp: candidate_memories_def)
qed

lemma linked_subset: "set (linked_entity_memories e t query db ms) \<subseteq> set ms"
  using rank_memories_subset [of t "[]" ms] by (auto simp: linked_entity_memories_def split: option.splits)

lemma merge_subset: "set (merge_candidate_memories xs ys limit) \<subseteq> set xs \<union> set ys"
  using fill_selected_set [of limit "xs @ ys" "[]"] by (auto simp: merge_candidate_memories_def)

lemma merge_unique: "distinct (map fst (merge_candidate_memories xs ys limit))"
  using fill_selected_unique [of "[]" limit "xs @ ys"] by (simp add: merge_candidate_memories_def unique_keys_def)

lemma safe_candidates_subset: "set (safe_candidates ms) \<subseteq> set ms"
  by (auto simp: safe_candidates_def Let_def)

lemma linked_distinct:
  assumes "distinct (map fst ms)" shows "distinct (map fst (linked_entity_memories e t query db ms))"
proof -
  have "distinct (map fst (rank_memories t [] ms))"
    using assms by (simp add: rank_memories_def sorted_reverse_def rev_map distinct_map distinct_sort)
  then show ?thesis by (auto simp: linked_entity_memories_def distinct_map_filter split: option.splits)
qed

section \<open>What a turn is shown\<close>

lemma active_rows: "(i, r) \<in> set (active_semantic_memories e db) \<Longrightarrow> (i, r) \<in> set (memories db) \<and> live_memory e r"
  by (auto simp: active_where_def desc_def select_where_def)

lemma active_ids_distinct: "unique_keys (memories db) \<Longrightarrow> distinct (map fst (active_semantic_memories e db))"
  by (auto simp: active_where_def desc_def select_where_def unique_keys_def rev_map distinct_map distinct_sort distinct_map_filter inj_on_def)

lemma subset_mset_keys: "mset xs \<subseteq># mset ys \<Longrightarrow> distinct (map g ys) \<Longrightarrow> distinct (map g xs)"
proof -
  assume "mset xs \<subseteq># mset ys" and d: "distinct (map g ys)"
  then obtain C where C: "mset ys = mset (xs @ C)" by (metis ex_mset mset_append subset_mset.le_iff_add)
  then have "mset (map g ys) = mset (map g (xs @ C))" by simp
  with d have "distinct (map g (xs @ C))" by (metis mset_eq_imp_distinct_iff)
  then show ?thesis by simp
qed

lemma if_bound: "length xs \<le> n \<Longrightarrow> length (if c then take n ys else xs) \<le> n"
  by simp

text \<open>
  C30: the memories a turn of the model is shown are at most \<open>limit\<close> different ones, each of them stored, live
  and no agent persona, and none of them is contradicted by any of the thousand most recent live memories,
  whatever the ranking, the linked entity, the embeddings and the budget of the search are.
\<close>

theorem retrieval_shows_safe_memories:
  assumes "unique_keys (memories db)"
  shows "let ms = retrieved_memories e s query limit allow budget width db in length ms \<le> limit \<and> distinct (map fst ms)
    \<and> list_all (\<lambda>(i, r). map_of (memories db) i = Some r \<and> live_memory e r \<and> sm_type r \<noteq> ''agent_persona''
        \<and> list_all (\<lambda>(_, r'). \<not> contradicts r r') (take 1000 (active_semantic_memories e db))) ms"
proof -
  let ?top = "take 1000 (active_semantic_memories e db)"
  let ?active = "safe_candidates ?top"
  let ?linked = "linked_entity_memories e (vs_text s) query db ?active"
  let ?cs = "merge_candidate_memories ?linked (candidate_memories (vs_text s) query width ?active) width"
  let ?hits = "map fst (fst (search_with_budget s query ?cs limit allow budget))"
  let ?ms = "retrieved_memories e s query limit allow budget width db"
  have ms: "?ms = (if ?hits = [] then take limit ?linked else ?hits)" by (simp add: retrieved_memories_def Let_def)
  from search_with_budget_hits [of s query ?cs limit allow budget]
  have hits: "length ?hits \<le> limit" "mset ?hits \<subseteq># mset ?cs" by simp_all
  have "distinct (map fst ?top)" using active_ids_distinct [OF assms, of e] by (simp add: take_map [symmetric])
  then have "distinct (map fst ?active)" by (simp add: safe_candidates_def Let_def distinct_map_filter)
  then have "distinct (map fst (take limit ?linked))" using linked_distinct by (simp add: take_map [symmetric])
  moreover have "distinct (map fst ?hits)"
    by (rule subset_mset_keys [OF hits(2) merge_unique])
  ultimately have d: "distinct (map fst ?ms)" by (simp add: ms)
  have l: "set ?linked \<subseteq> set ?active" by (rule linked_subset)
  have "set ?hits \<subseteq> set ?cs" using set_mset_mono [OF hits(2)] by simp
  also have "\<dots> \<subseteq> set ?active" using merge_subset l candidate_memories_subset by (meson Un_least subset_trans)
  finally have h: "set ?hits \<subseteq> set ?active" .
  have "set ?ms \<subseteq> set ?active"
  proof (cases "?hits = []")
    case True
    then show ?thesis unfolding ms using l set_take_subset [of limit ?linked] by (subst if_P [OF True]) blast
  next
    case False
    with h show ?thesis unfolding ms by (subst if_not_P [OF False]) blast
  qed
  moreover have "map_of (memories db) i = Some r \<and> live_memory e r \<and> sm_type r \<noteq> ''agent_persona''
      \<and> list_all (\<lambda>(_, r'). \<not> contradicts r r') ?top" if "(i, r) \<in> set ?active" for i r
  proof -
    from that have "(i, r) \<in> set ?top" and q: "sm_type r \<noteq> ''agent_persona''" "list_all (\<lambda>(_, r'). \<not> contradicts r r') ?top"
      unfolding safe_candidates_filter by auto
    then have "(i, r) \<in> set (memories db) \<and> live_memory e r" by (blast dest: in_set_takeD active_rows)
    with assms q map_of_unique show ?thesis by fast
  qed
  ultimately have "list_all (\<lambda>(i, r). map_of (memories db) i = Some r \<and> live_memory e r \<and> sm_type r \<noteq> ''agent_persona''
      \<and> list_all (\<lambda>(_, r'). \<not> contradicts r r') ?top) ?ms"
    unfolding list_all_iff [where xs = ?ms] by blast
  moreover have "length ?ms \<le> limit" unfolding ms using hits(1) by (rule if_bound)
  ultimately show ?thesis unfolding Let_def using d by blast
qed

text \<open>Two memories disagree on the time zone: neither is shown, the third one is.\<close>

definition shown_row :: "pystr \<Rightarrow> pystr \<Rightarrow> memory_row" where
  "shown_row p v = new_memory demo_mem_env ''user'' p v None None ''fact'' ''global'' 1 4 None None"

definition disputed :: memory_db where
  "disputed = empty_memory\<lparr>memories := [(1, shown_row ''timezone'' ''UTC''), (2, shown_row ''likes'' ''tea''), (3, shown_row ''timezone'' ''CET'')]\<rparr>"

definition plain_search :: search_env where
  "plain_search = \<lparr>vs_text = \<lparr>tx_words = (\<lambda>s. [s]), tx_lower = (\<lambda>s. s)\<rparr>, vs_provider = Hashing 8, vs_parse = (\<lambda>_. None),
     vs_min = 0, vs_store = False\<rparr>"

lemma disputed_shown: "retrieved_memories demo_mem_env plain_search [] 5 False None 24 disputed = [(2, shown_row ''likes'' ''tea'')]"
proof -
  have "active_semantic_memories demo_mem_env disputed
      = [(3, shown_row ''timezone'' ''CET''), (2, shown_row ''likes'' ''tea''), (1, shown_row ''timezone'' ''UTC'')]"
    by (simp add: active_where_def disputed_def select_where_def live_memory_def shown_row_def new_memory_def desc_def recency_def)
  then show ?thesis
    by (simp add: retrieved_memories_def safe_candidates_filter contradicts_def fact_of_def shown_row_def new_memory_def single_valued_def
        Let_def linked_entity_memories_def candidate_memories_def rank_memories_def merge_candidate_memories_def insert_or_ignore_def
        search_with_budget_def sorted_reverse_def)
qed

theorem retrieval_shows_safe_memories_witness:
  "retrieved_memories demo_mem_env plain_search [] 5 False None 24 disputed = [(2, shown_row ''likes'' ''tea'')]
     \<and> list_all (\<lambda>(_, r'). \<not> contradicts (shown_row ''likes'' ''tea'') r') (take 1000 (active_semantic_memories demo_mem_env disputed))"
proof -
  have "unique_keys (memories disputed)" by (simp add: disputed_def unique_keys_def)
  from retrieval_shows_safe_memories [OF this, of demo_mem_env plain_search "[]" 5 False None 24] disputed_shown
  show ?thesis by (simp add: Let_def)
qed

section \<open>Sections lose nothing\<close>

definition in_section :: "pystr \<Rightarrow> (nat \<times> memory_row) list \<Rightarrow> (nat \<times> memory_row) list" where
  "in_section s ms = filter (\<lambda>kr. memory_section (snd kr) = s) ms"

lemma grouped_lookup:
  "map_of (grouped_by_section ms gs) s = (case map_of gs s of None \<Rightarrow> if in_section s ms = [] then None else Some (in_section s ms)
     | Some xs \<Rightarrow> Some (xs @ in_section s ms))"
proof (induction ms gs rule: grouped_by_section.induct)
  case (2 i r ms gs)
  then show ?case by (auto simp: in_section_def upsert_row_lookup split: option.splits)
qed (simp add: in_section_def split: option.splits)

lemma section_listed: "memory_section r \<in> set section_order"
  by (auto simp: memory_section_def section_order_def split: option.splits dest: map_of_SomeD)

lemma concat_if: "concat (map (\<lambda>s. if p s then [] else [f s]) ss) = map f (filter (\<lambda>s. \<not> p s) ss)"
  by (induction ss) auto

text \<open>
  Grouping for display is a rearrangement: the sections come in the fixed order, each holds exactly the
  memories of its kind in their order and none is empty, and every memory appears in exactly one section.
\<close>

theorem grouping_rearranges:
  "group_memories_by_type ms = map (\<lambda>s. (s, in_section s ms)) (filter (\<lambda>s. in_section s ms \<noteq> []) section_order)
    \<and> mset (concat (map snd (group_memories_by_type ms))) = mset ms"
proof -
  have "group_memories_by_type ms = concat (map (\<lambda>s. if in_section s ms = [] then [] else [(s, in_section s ms)]) section_order)"
    by (simp add: group_memories_by_type_def Let_def grouped_lookup) (rule arg_cong [where f = concat], simp)
  also have "\<dots> = map (\<lambda>s. (s, in_section s ms)) (filter (\<lambda>s. in_section s ms \<noteq> []) section_order)"
    by (rule concat_if)
  finally have g: "group_memories_by_type ms = map (\<lambda>s. (s, in_section s ms)) (filter (\<lambda>s. in_section s ms \<noteq> []) section_order)" .
  have "mset (concat (map (\<lambda>s. in_section s ms) (filter (\<lambda>s. in_section s ms \<noteq> []) ss)))
      = mset (filter (\<lambda>kr. memory_section (snd kr) \<in> set ss) ms)" if "distinct ss" for ss
    using that
  proof (induction ss)
    case (Cons s ss)
    have "mset (filter (\<lambda>kr. memory_section (snd kr) \<in> set (s # ss)) ms) = mset (in_section s ms)
        + mset (filter (\<lambda>kr. memory_section (snd kr) \<in> set ss) ms)"
      using Cons.prems by (induction ms) (auto simp: in_section_def)
    with Cons show ?case by auto
  qed simp
  from this [of section_order] have "mset (concat (map (\<lambda>s. in_section s ms) (filter (\<lambda>s. in_section s ms \<noteq> []) section_order))) = mset ms"
    by (simp add: section_listed) (simp add: section_order_def)
  then show ?thesis by (simp add: g comp_def)
qed

section \<open>The conversation is kept\<close>

lemma last_user_spec:
  "last_user ms \<le> length ms \<and> list_all (\<lambda>m. \<not> has_role ''user'' m) (tl (drop (last_user ms) ms))
    \<and> (case drop (last_user ms) ms of [] \<Rightarrow> list_all (\<lambda>m. \<not> has_role ''user'' m) ms | m # _ \<Rightarrow> has_role ''user'' m)"
proof (induction ms rule: rev_induct)
  case (snoc m ms)
  show ?case
  proof (cases "has_role ''user'' m")
    case True
    then have "last_user (ms @ [m]) = length ms" by (simp add: last_user_def nth_append)
    with True show ?thesis by simp
  next
    case False
    have f: "find (\<lambda>i. has_role ''user'' ((ms @ [m]) ! i)) (rev [0..<length ms]) = find (\<lambda>i. has_role ''user'' (ms ! i)) (rev [0..<length ms])"
      by (rule find_cong) (auto simp: nth_append)
    show ?thesis
    proof (cases "find (\<lambda>i. has_role ''user'' (ms ! i)) (rev [0..<length ms])")
      case None
      with False f have "last_user (ms @ [m]) = Suc (length ms)" "last_user ms = length ms"
        by (simp_all add: last_user_def nth_append)
      with snoc False show ?thesis by simp
    next
      case (Some i)
      with False f have l: "last_user (ms @ [m]) = i" "last_user ms = i" by (simp_all add: last_user_def nth_append)
      from Some have "i < length ms" by (auto simp: find_Some_iff rev_nth)
      with snoc l False show ?thesis by (auto simp: Cons_nth_drop_Suc [symmetric] split: list.splits)
    qed
  qed
qed (simp add: last_user_def)

end
