(* ===== verification/Memory_Review.thy ===== *)
theory Memory_Review
  imports Vector_Search
begin

text \<open>
  \<open>semantic_extractor.py\<close>, \<open>memory_update.py\<close>, \<open>procedure_similarity.py\<close> and \<open>memory_review.py\<close>: what a finished
  episode adds to the long-term memory.  Arguments: \<open>lower\<close> is \<open>str.lower\<close>, \<open>render\<close> is \<open>str\<close> of a value that is no
  text, \<open>load\<close> the reader of a model answer (\<open>None\<close> when it raises), \<open>extract_triple\<close> the regular expressions of
  the fall-back extractor.
\<close>

section \<open>Triples\<close>

record triple =
  tr_subject :: pystr
  tr_predicate :: pystr
  tr_object :: pystr
  tr_confidence :: real
  tr_type :: pystr
  tr_scope :: pystr

record extract_env =
  ex_fold :: "pystr \<Rightarrow> pystr"
  ex_lower :: "pystr \<Rightarrow> pystr"
  ex_render :: "json \<Rightarrow> pystr"
  ex_load :: "pystr \<Rightarrow> json"
  ex_triple :: "pystr \<Rightarrow> pystr \<times> pystr \<times> pystr"

definition py_str :: "(json \<Rightarrow> pystr) \<Rightarrow> json \<Rightarrow> pystr" where
  "py_str render v = (case v of JStr s \<Rightarrow> s | _ \<Rightarrow> render v)"

text \<open>\<open>float(v)\<close>; a text is read as a plain decimal literal.\<close>

definition py_float :: "json \<Rightarrow> real result" where
  "py_float v = (case v of JStr s \<Rightarrow> (case float_value (py_strip s) of Some x \<Rightarrow> Inr x | None \<Rightarrow> Inl (ValueError ''could not convert string to float''))
     | JBool b \<Rightarrow> Inr (if b then 1 else 0)
     | _ \<Rightarrow> (case finite_number v of Some x \<Rightarrow> Inr x | None \<Rightarrow> Inl (TypeError ''float() argument must be a number'')))"

definition clamp_confidence :: "json \<Rightarrow> real" where
  "clamp_confidence v = (case py_float v of Inl _ \<Rightarrow> 1/2 | Inr x \<Rightarrow> min 1 (max 0 x))"

definition ascii_alnum :: "char \<Rightarrow> bool" where
  "ascii_alnum c \<longleftrightarrow> (let n = of_char c :: nat in is_digit c \<or> (65 \<le> n \<and> n \<le> 90) \<or> (97 \<le> n \<and> n \<le> 122))"

text \<open>\<open>re.sub('[^a-zA-Z0-9]+', '_', s)\<close>, then \<open>strip('_')\<close>.\<close>

fun collapse_runs :: "bool \<Rightarrow> pystr \<Rightarrow> pystr" where
  "collapse_runs inside [] = []"
| "collapse_runs inside (c # cs) = (if ascii_alnum c then c # collapse_runs False cs
     else if inside then collapse_runs True cs else CHR ''_'' # collapse_runs True cs)"

definition strip_char :: "char \<Rightarrow> pystr \<Rightarrow> pystr" where
  "strip_char c s = rev (dropWhile (\<lambda>x. x = c) (rev (dropWhile (\<lambda>x. x = c) s)))"

definition slug :: "pystr \<Rightarrow> pystr" where
  "slug s = strip_char (CHR ''_'') (collapse_runs False s)"

definition normalize_predicate :: "(pystr \<Rightarrow> pystr) \<Rightarrow> pystr \<Rightarrow> pystr" where
  "normalize_predicate lower p = (let n = slug (lower p) in if n = [] then p else n)"

definition normalize_memory_type :: "(pystr \<Rightarrow> pystr) \<Rightarrow> pystr \<Rightarrow> pystr" where
  "normalize_memory_type lower t = (let n = slug (lower t) in if n = [] then ''fact'' else n)"

definition normalize_scope :: "pystr \<Rightarrow> pystr" where
  "normalize_scope s = (let n = py_join '' '' (py_split_ws (py_strip s)) in if n = [] then ''global'' else n)"

definition get_or :: "json \<Rightarrow> pystr \<Rightarrow> json \<Rightarrow> json" where
  "get_or v k d = (case jfield v k of None \<Rightarrow> d | Some x \<Rightarrow> x)"

definition parse_triple :: "extract_env \<Rightarrow> json \<Rightarrow> triple option" where
  "parse_triple x item = (if \<not> is_dict item then None else
     let subj = py_strip (py_str (ex_render x) (get_or item ''subject'' (JStr [])));
         pred = normalize_predicate (ex_lower x) (py_strip (py_str (ex_render x) (get_or item ''predicate'' (JStr []))));
         obj = py_strip (py_str (ex_render x) (get_or item ''object'' (get_or item ''object_value'' (JStr []))))
     in if subj = [] \<or> pred = [] \<or> obj = [] then None
        else Some \<lparr>tr_subject = subj, tr_predicate = pred, tr_object = obj,
          tr_confidence = clamp_confidence (get_or item ''confidence'' (JFloat ''0.5'')),
          tr_type = normalize_memory_type (ex_lower x) (py_str (ex_render x) (get_or item ''memory_type'' (JStr ''fact''))),
          tr_scope = normalize_scope (py_str (ex_render x) (get_or item ''scope'' (JStr ''global'')))\<rparr>)"

definition parse_semantic_triples :: "extract_env \<Rightarrow> pystr \<Rightarrow> triple list" where
  "parse_semantic_triples x content = (let payload = ex_load x content;
       raw = (if is_dict payload then get_or payload ''triples'' (JArr []) else JArr [])
     in if \<not> is_list raw then [] else List.map_filter (parse_triple x) (jitems raw))"

definition infer_memory_type :: "(pystr \<Rightarrow> pystr) \<Rightarrow> pystr \<Rightarrow> pystr \<Rightarrow> pystr" where
  "infer_memory_type fold' subj pred = (let s = fold' (py_strip subj); p = fold' (py_strip pred) in
     if s = ''user'' then ''user_profile''
     else if s \<in> set [''project'', ''repo'', ''repository''] then ''project_fact''
     else if p \<in> set [''steps'', ''workflow'', ''procedure''] then ''task_fact'' else ''entity_fact'')"

definition fallback_semantic_triples :: "extract_env \<Rightarrow> pystr \<Rightarrow> triple list" where
  "fallback_semantic_triples x text' = (case ex_triple x text' of (s, p, v) \<Rightarrow> if v = [] then []
     else [\<lparr>tr_subject = s, tr_predicate = p, tr_object = v, tr_confidence = 1/2,
       tr_type = infer_memory_type (ex_fold x) s p, tr_scope = ''global''\<rparr>])"

text \<open>\<open>LLMSemanticExtractor.extract\<close>: \<open>allow\<close> is the answer of \<open>allow_remote\<close>, \<open>answer\<close> what the model said (\<open>None\<close>: raised).\<close>

definition llm_extract :: "extract_env \<Rightarrow> bool \<Rightarrow> (pystr \<Rightarrow> pystr option) \<Rightarrow> pystr \<Rightarrow> triple list" where
  "llm_extract x allow answer text' = (let n = py_strip text' in
     if n = [] then [] else if \<not> allow then fallback_semantic_triples x n
     else case answer n of None \<Rightarrow> fallback_semantic_triples x n
       | Some content \<Rightarrow> (let ts = parse_semantic_triples x content in if ts = [] then fallback_semantic_triples x n else ts))"

section \<open>Decisions\<close>

datatype update_decision = Ignore | Reinforce nat | Supersede nat | Add

definition normalize_memory_part :: "mem_env \<Rightarrow> pystr \<Rightarrow> pystr" where
  "normalize_memory_part e s = py_join '' '' (py_split_ws (me_fold e (py_strip s)))"

definition semantic_memory_key :: "mem_env \<Rightarrow> pystr \<Rightarrow> pystr \<Rightarrow> pystr \<Rightarrow> pystr \<times> pystr \<times> pystr" where
  "semantic_memory_key e s p v = (normalize_memory_part e s, normalize_memory_part e p, normalize_memory_part e v)"

definition row_key :: "mem_env \<Rightarrow> memory_row \<Rightarrow> pystr \<times> pystr \<times> pystr" where
  "row_key e r = semantic_memory_key e (sm_subject r) (sm_predicate r) (sm_object r)"

definition triple_key :: "mem_env \<Rightarrow> triple \<Rightarrow> pystr \<times> pystr \<times> pystr" where
  "triple_key e t = semantic_memory_key e (tr_subject t) (tr_predicate t) (tr_object t)"

definition find_exact_memory :: "mem_env \<Rightarrow> triple \<Rightarrow> (nat \<times> memory_row) list \<Rightarrow> (nat \<times> memory_row) option" where
  "find_exact_memory e t ms = find (\<lambda>(_, r). row_key e r = triple_key e t) ms"

definition find_related_memory :: "mem_env \<Rightarrow> triple \<Rightarrow> (nat \<times> memory_row) list \<Rightarrow> (nat \<times> memory_row) option" where
  "find_related_memory e t ms = (case sorted_reverse (\<lambda>(i, r). (sm_confidence r, sm_updated r, i))
       (filter (\<lambda>(_, r). normalize_memory_part e (sm_subject r) = normalize_memory_part e (tr_subject t)
          \<and> normalize_memory_part e (sm_predicate r) = normalize_memory_part e (tr_predicate t)) ms) of
     [] \<Rightarrow> None | h # _ \<Rightarrow> Some h)"

definition decide_semantic_update :: "mem_env \<Rightarrow> triple \<Rightarrow> (nat \<times> memory_row) list \<Rightarrow> real \<Rightarrow> update_decision" where
  "decide_semantic_update e t ms conf = (if min conf (tr_confidence t) < 1/5 then Ignore
     else case find_exact_memory e t ms of Some (i, _) \<Rightarrow> Reinforce i
     | None \<Rightarrow> (case find_related_memory e t ms of Some (i, _) \<Rightarrow> Supersede i | None \<Rightarrow> Add))"

definition decision_reason :: "update_decision \<Rightarrow> pystr" where
  "decision_reason d = (case d of Ignore \<Rightarrow> ''low_confidence'' | Reinforce _ \<Rightarrow> ''same_fact''
     | Supersede _ \<Rightarrow> ''same_subject_predicate_new_object'' | Add \<Rightarrow> ''new_fact'')"

definition decision_action :: "update_decision \<Rightarrow> pystr" where
  "decision_action d = (case d of Ignore \<Rightarrow> ''ignore'' | Reinforce _ \<Rightarrow> ''reinforce'' | Supersede _ \<Rightarrow> ''supersede'' | Add \<Rightarrow> ''add'')"

definition reinforced_confidence :: "real \<Rightarrow> real \<Rightarrow> real" where
  "reinforced_confidence cur cand = min 1 (max cur cand + 1/20)"

section \<open>Similar procedures\<close>

record procedure_candidate =
  pc_task :: pystr
  pc_context :: pystr
  pc_steps :: "pystr list"

record procedure_match =
  pm_id :: int
  pm_score :: real
  pm_reason :: pystr

text \<open>\<open>re.findall('[a-zA-Z0-9_]+', s)\<close>: the maximal runs of a class of characters, for a class \<open>p\<close>.\<close>

function runs_of :: "(char \<Rightarrow> bool) \<Rightarrow> pystr \<Rightarrow> pystr list" where
  "runs_of p s = (let t = dropWhile (\<lambda>c. \<not> p c) s in
     if t = [] then [] else takeWhile p t # runs_of p (dropWhile p t))"
  by pat_completeness auto
termination
proof (relation "measure (\<lambda>(p, s). length s)")
  fix p and s t :: pystr
  assume t: "t = dropWhile (\<lambda>c. \<not> p c) s" "t \<noteq> []"
  then have "p (hd t)" using hd_dropWhile by blast
  with t(2) have "length (dropWhile p t) < length t" by (cases t) (auto simp: le_imp_less_Suc length_dropWhile_le)
  also have "length t \<le> length s" using t(1) by (simp add: length_dropWhile_le)
  finally show "((p, dropWhile p t), (p, s)) \<in> measure (\<lambda>(p, s). length s)" by simp
qed simp

declare runs_of.simps [simp del]

definition word_char :: "char \<Rightarrow> bool" where
  "word_char c \<longleftrightarrow> ascii_alnum c \<or> c = CHR ''_''"

definition procedure_tokens :: "(pystr \<Rightarrow> pystr) \<Rightarrow> pystr \<Rightarrow> pystr set" where
  "procedure_tokens lower s = set (runs_of word_char (lower s))"

definition procedure_text :: "pystr \<Rightarrow> pystr \<Rightarrow> pystr list \<Rightarrow> pystr" where
  "procedure_text task context steps = py_join '' '' [task, context, py_join '' '' steps]"

definition token_similarity :: "(pystr \<Rightarrow> pystr) \<Rightarrow> pystr \<Rightarrow> pystr \<Rightarrow> real" where
  "token_similarity lower a b = (let s = procedure_tokens lower a; t = procedure_tokens lower b in
     if s = {} \<or> t = {} then 0 else real (card (s \<inter> t)) / real (card (s \<union> t)))"

definition row_similarity :: "(pystr \<Rightarrow> pystr) \<Rightarrow> procedure_candidate \<Rightarrow> procedure_row \<Rightarrow> real" where
  "row_similarity lower c r = token_similarity lower (procedure_text (pc_task c) (pc_context c) (pc_steps c))
     (procedure_text (pr_task r) (pr_context r) (pr_steps r))"

definition lexical_match :: "(pystr \<Rightarrow> pystr) \<Rightarrow> procedure_candidate \<Rightarrow> (nat \<times> procedure_row) list \<Rightarrow> real \<Rightarrow> procedure_match option" where
  "lexical_match lower c ps threshold = (case sorted_reverse (\<lambda>(i, r). (row_similarity lower c r, pr_success r, i)) ps of
     [] \<Rightarrow> None
   | (i, r) # _ \<Rightarrow> if row_similarity lower c r < threshold then None
       else Some \<lparr>pm_id = int i, pm_score = row_similarity lower c r, pm_reason = ''lexical_similarity''\<rparr>)"

text \<open>\<open>int(v)\<close>; a text is read as an optional sign and digits.\<close>

definition truncate :: "real \<Rightarrow> int" where
  "truncate x = (if 0 \<le> x then \<lfloor>x\<rfloor> else \<lceil>x\<rceil>)"

definition digits_int :: "pystr \<Rightarrow> int option" where
  "digits_int s = (if s \<noteq> [] \<and> list_all is_digit s then Some (digits_value 0 s) else None)"

definition py_int :: "json \<Rightarrow> int option" where
  "py_int v = (case v of JInt i \<Rightarrow> Some i | JBool b \<Rightarrow> Some (if b then 1 else 0)
     | JFloat s \<Rightarrow> map_option truncate (float_value s)
     | JStr s \<Rightarrow> (case py_strip s of [] \<Rightarrow> None
         | c # cs \<Rightarrow> if c = CHR ''-'' then map_option uminus (digits_int cs) else if c = CHR ''+'' then digits_int cs else digits_int (c # cs))
     | _ \<Rightarrow> None)"

definition parse_procedure_match :: "extract_env \<Rightarrow> pystr \<Rightarrow> procedure_match option" where
  "parse_procedure_match x content = (let payload = ex_load x content in
     if \<not> is_dict payload then None else
     let pid = get_or payload ''best_id'' (get_or payload ''procedure_id'' JNull) in
     if pid = JNull then None
     else case (py_int pid, py_float (get_or payload ''score'' (JFloat ''0.0''))) of
       (Some i, Inr score) \<Rightarrow> Some \<lparr>pm_id = i, pm_score = min 1 (max 0 score), pm_reason = py_str (ex_render x) (get_or payload ''reason'' (JStr []))\<rparr>
     | _ \<Rightarrow> None)"

text \<open>\<open>LLMProcedureSimilarityMatcher.find_match\<close> with the lexical fall-back; \<open>answer\<close> is what the model said.\<close>

definition llm_match :: "extract_env \<Rightarrow> bool \<Rightarrow> pystr option \<Rightarrow> procedure_candidate \<Rightarrow> (nat \<times> procedure_row) list \<Rightarrow> real \<Rightarrow> procedure_match option" where
  "llm_match x allow answer c ps threshold = (if ps = [] then None
     else case lexical_match (ex_lower x) c ps threshold of Some m \<Rightarrow> Some m
     | None \<Rightarrow> if \<not> allow then None
       else case Option.bind answer (parse_procedure_match x) of
         None \<Rightarrow> lexical_match (ex_lower x) c ps threshold
       | Some m \<Rightarrow> if pm_id m \<in> set (map (int \<circ> fst) ps) \<and> threshold \<le> pm_score m then Some m
           else lexical_match (ex_lower x) c ps threshold)"

definition exact_match :: "procedure_candidate \<Rightarrow> (nat \<times> procedure_row) list \<Rightarrow> procedure_match option" where
  "exact_match c ps = map_option (\<lambda>(i, r). \<lparr>pm_id = int i, pm_score = 1, pm_reason = ''exact_context_pattern''\<rparr>)
     (find (\<lambda>(_, r). pr_context r = pc_context c) ps)"

section \<open>Candidates of an episode\<close>

definition review_candidate_events :: "(nat \<times> event_row) list \<Rightarrow> (nat \<times> event_row) list" where
  "review_candidate_events evs = filter (\<lambda>(_, r). ev_type r \<in> set [''memory_review_candidate'', ''working_memory_preservation_candidate'']) evs"

datatype memory_kind = Semantic | Procedure | Forgetting

definition kinds_of :: "json \<Rightarrow> memory_kind list" where
  "kinds_of k = (if k = JStr ''both'' then [Semantic, Procedure] else if k = JStr ''semantic'' then [Semantic]
     else if k = JStr ''procedure'' then [Procedure] else if k = JStr ''forgetting'' then [Forgetting] else [])"

definition candidate_memory_kinds :: "event_row \<Rightarrow> memory_kind list result" where
  "candidate_memory_kinds c = (if ev_type c = ''memory_review_candidate''
     then bind_result (py_get (ev_metadata c) ''memory_kind'' (JStr ''none'')) (\<lambda>k. Inr (kinds_of k))
     else bind_result (py_get (ev_metadata c) ''preservation'' JNull) (\<lambda>p0. let p = jor p0 (JObj []) in
       bind_result (py_get p ''should_preserve'' (JBool False)) (\<lambda>sp. if \<not> jtruth sp then Inr []
         else bind_result (py_get p ''preservation_kind'' (JStr ''none'')) (\<lambda>k. Inr (kinds_of k)))))"

definition latest_event_before :: "(nat \<times> event_row) list \<Rightarrow> nat \<Rightarrow> pystr \<Rightarrow> (nat \<times> event_row) option" where
  "latest_event_before evs i ty = (case sorted_reverse fst (filter (\<lambda>(j, r). ev_type r = ty \<and> j < i) evs) of
     [] \<Rightarrow> None | h # _ \<Rightarrow> Some h)"

definition semantic_source_event :: "(nat \<times> event_row) list \<Rightarrow> nat \<times> event_row \<Rightarrow> (nat \<times> event_row) option" where
  "semantic_source_event evs c = (let user = find (\<lambda>(_, r). ev_type r = ''message'' \<and> ev_role r = Some ''user'') evs in
     if ev_type (snd c) = ''working_memory_preservation_candidate''
     then (case latest_event_before evs (fst c) ''working_memory_summary'' of Some h \<Rightarrow> Some h
       | None \<Rightarrow> if ev_content (snd c) \<noteq> None \<and> ev_content (snd c) \<noteq> Some [] then Some c else user)
     else user)"

text \<open>The memories drawn from this episode, by key; a later one replaces an earlier one.\<close>

type_synonym known = "pystr \<times> pystr \<times> pystr \<rightharpoonup> nat"

definition semantic_memories_for_episode :: "mem_env \<Rightarrow> (nat \<times> event_row) list \<Rightarrow> memory_db \<Rightarrow> known" where
  "semantic_memories_for_episode e evs db = fold (\<lambda>(i, r) m. if sm_source r \<in> set (map fst evs) then m(row_key e r \<mapsto> i) else m)
     (active_semantic_memories e db) Map.empty"

section \<open>Semantic candidates\<close>

record tally =
  ta_new :: "nat list"
  ta_reinforced :: "nat list"
  ta_superseded :: "nat list"
  ta_known :: "nat list"
  ta_ignored :: nat

definition real_json :: "(real \<Rightarrow> pystr) \<Rightarrow> real \<Rightarrow> json" where
  "real_json repr x = JFloat (repr x)"

definition decision_json :: "(real \<Rightarrow> pystr) \<Rightarrow> update_decision \<Rightarrow> triple \<Rightarrow> real \<Rightarrow> json" where
  "decision_json repr d t conf = JObj [(''action'', JStr (decision_action d)), (''reason'', JStr (decision_reason d)),
     (''existing_memory_id'', (case d of Reinforce i \<Rightarrow> JInt (int i) | Supersede i \<Rightarrow> JInt (int i) | _ \<Rightarrow> JNull)),
     (''candidate'', JObj [(''subject'', JStr (tr_subject t)), (''predicate'', JStr (tr_predicate t)), (''object'', JStr (tr_object t)),
       (''memory_type'', JStr (tr_type t)), (''scope'', JStr (tr_scope t)), (''confidence'', real_json repr (min conf (tr_confidence t)))])]"

definition apply_decision :: "mem_env \<Rightarrow> nat \<Rightarrow> real \<Rightarrow> triple \<Rightarrow> update_decision \<Rightarrow> known \<times> tally \<Rightarrow> memory_db \<Rightarrow>
    (known \<times> tally) result \<times> memory_db" where
  "apply_decision e src conf t d st db = (case st of (known, ta) \<Rightarrow> let c = min conf (tr_confidence t) in
     case d of Ignore \<Rightarrow> (Inr (known, ta\<lparr>ta_ignored := ta_ignored ta + 1\<rparr>), db)
     | Reinforce i \<Rightarrow> (Inr (known, ta\<lparr>ta_reinforced := ta_reinforced ta @ [i]\<rparr>),
         (case map_of (active_semantic_memories e db) i of None \<Rightarrow> db
          | Some r \<Rightarrow> update_semantic_confidence e i (reinforced_confidence (sm_confidence r) c) db))
     | Supersede i \<Rightarrow> (case supersede_semantic_memory e i (tr_subject t) (tr_predicate t) (tr_object t) src c
           (decision_reason d) None (tr_type t) (tr_scope t) None None db of
         (j, db1) \<Rightarrow> (Inr (known(triple_key e t \<mapsto> j), ta\<lparr>ta_superseded := ta_superseded ta @ [i], ta_new := ta_new ta @ [j]\<rparr>), db1))
     | Add \<Rightarrow> (case add_semantic_memory e (tr_subject t) (tr_predicate t) (tr_object t) src c None None (tr_type t) (tr_scope t) None None db of
         (Inl x, db1) \<Rightarrow> (Inl x, db1)
       | (Inr j, db1) \<Rightarrow> (Inr (known(triple_key e t \<mapsto> j), ta\<lparr>ta_new := ta_new ta @ [j]\<rparr>), db1)))"

text \<open>The loop over the triples of one candidate; an exception ends it, what was written before stays.\<close>

fun process_triples :: "mem_env \<Rightarrow> (real \<Rightarrow> pystr) \<Rightarrow> nat \<Rightarrow> nat \<Rightarrow> real \<Rightarrow> triple list \<Rightarrow> known \<times> tally \<Rightarrow> memory_db \<Rightarrow>
    (known \<times> tally) result \<times> memory_db" where
  "process_triples e repr ep src conf [] st db = (Inr st, db)"
| "process_triples e repr ep src conf (t # ts) (known, ta) db =
     (case known (triple_key e t) of
        Some i \<Rightarrow> process_triples e repr ep src conf ts (known, ta\<lparr>ta_known := ta_known ta @ [i]\<rparr>) db
      | None \<Rightarrow> (let d = decide_semantic_update e t (active_semantic_memories e db) conf in
          case add_event e ep ''memory_update_decision'' None None (decision_json repr d t conf) db of
            (Inl x, db1) \<Rightarrow> (Inl x, db1)
          | (Inr _, db1) \<Rightarrow> (case apply_decision e src conf t d (known, ta) db1 of
              (Inl x, db2) \<Rightarrow> (Inl x, db2)
            | (Inr st, db2) \<Rightarrow> process_triples e repr ep src conf ts st db2)))"

definition ids_json :: "nat list \<Rightarrow> json" where
  "ids_json is = JArr (map (\<lambda>i. JInt (int i)) is)"

definition tally_json :: "tally \<Rightarrow> json" where
  "tally_json ta = (let all_ids = ta_new ta @ ta_known ta @ ta_reinforced ta in
     JObj ([(''memory_kind'', JStr ''semantic''), (''semantic_memory_ids'', ids_json all_ids)]
       @ (if ta_new ta = [] then [] else [(''created_semantic_memory_ids'', ids_json (ta_new ta))])
       @ (if ta_reinforced ta = [] then [] else [(''reinforced_semantic_memory_ids'', ids_json (ta_reinforced ta))])
       @ (if ta_superseded ta = [] then [] else [(''superseded_semantic_memory_ids'', ids_json (ta_superseded ta))])
       @ (if ta_known ta = [] then [] else [(''deduplicated_semantic_memory_ids'', ids_json (ta_known ta))])
       @ (if ta_ignored ta = 0 then [] else [(''ignored_semantic_triples'', JInt (int (ta_ignored ta)))])
       @ (case all_ids of [i] \<Rightarrow> [(''semantic_memory_id'', JInt (int i))] | _ \<Rightarrow> [])))"

definition process_semantic_candidate :: "mem_env \<Rightarrow> (real \<Rightarrow> pystr) \<Rightarrow> (pystr \<Rightarrow> triple list) \<Rightarrow> nat \<Rightarrow> (nat \<times> event_row) list \<Rightarrow>
    nat \<times> event_row \<Rightarrow> memory_db \<Rightarrow> json option result \<times> memory_db" where
  "process_semantic_candidate e repr extract ep evs c db = (case semantic_source_event evs c of None \<Rightarrow> (Inr None, db)
   | Some (src, sev) \<Rightarrow> (case bind_result (py_get (ev_metadata (snd c)) ''confidence'' (JFloat ''0.5'')) py_float of
       Inl x \<Rightarrow> (Inl x, db)
     | Inr conf \<Rightarrow> (let ts = extract (case ev_content sev of None \<Rightarrow> [] | Some s \<Rightarrow> s);
           st = (semantic_memories_for_episode e evs db, \<lparr>ta_new = [], ta_reinforced = [], ta_superseded = [], ta_known = [], ta_ignored = 0\<rparr>)
         in case process_triples e repr ep src conf ts st db of
           (Inl x, db1) \<Rightarrow> (Inl x, db1)
         | (Inr (_, ta), db1) \<Rightarrow> if ta_new ta = [] \<and> ta_known ta = [] \<and> ta_reinforced ta = [] then (Inr None, db1)
             else (case add_event e ep ''memory_review_result'' None None (tally_json ta) db1 of
               (Inl x, db2) \<Rightarrow> (Inl x, db2) | (Inr _, db2) \<Rightarrow> (Inr (Some (tally_json ta)), db2)))))"

section \<open>Procedure candidates\<close>

definition rejected_json :: "pystr \<Rightarrow> json" where
  "rejected_json st = JObj [(''memory_kind'', JStr ''procedure''), (''action'', JStr ''rejected''),
     (''reason'', JStr (''Episode status is '' @ st @ ''; only verified_completed episodes can be saved as procedural memory.''))]"

definition tool_step :: "(json \<Rightarrow> pystr) \<Rightarrow> event_row \<Rightarrow> pystr result" where
  "tool_step render r = bind_result (py_get (ev_metadata r) ''name'' (JStr ''tool'')) (\<lambda>n.
     bind_result (py_get (ev_metadata r) ''arguments'' (JStr ''{}'')) (\<lambda>a. Inr (py_str render n @ '' '' @ py_str render a)))"

fun map_result :: "('a \<Rightarrow> 'b result) \<Rightarrow> 'a list \<Rightarrow> 'b list result" where
  "map_result f [] = Inr []"
| "map_result f (x # xs) = bind_result (f x) (\<lambda>y. bind_result (map_result f xs) (\<lambda>ys. Inr (y # ys)))"

definition first_word :: "pystr \<Rightarrow> pystr" where
  "first_word s = fst (py_partition (CHR '' '') s)"

definition candidate_of :: "(json \<Rightarrow> pystr) \<Rightarrow> event_row list \<Rightarrow> procedure_candidate result" where
  "candidate_of render calls = bind_result (map_result (tool_step render) calls) (\<lambda>steps.
     bind_result (py_get (ev_metadata (hd calls)) ''name'' (JStr ''tool_workflow'')) (\<lambda>n.
     Inr \<lparr>pc_task = py_str render n, pc_context = py_join ''; '' (map first_word steps), pc_steps = steps\<rparr>))"

definition procedure_json :: "nat \<Rightarrow> pystr \<Rightarrow> json" where
  "procedure_json i action = JObj [(''memory_kind'', JStr ''procedure''), (''procedure_id'', JInt (int i)), (''action'', JStr action)]"

text \<open>\<open>match\<close> is the matcher the worker was given, or the exact one.\<close>

definition store_procedure :: "mem_env \<Rightarrow> (procedure_candidate \<Rightarrow> (nat \<times> procedure_row) list \<Rightarrow> procedure_match option) \<Rightarrow> nat \<Rightarrow>
    json \<Rightarrow> procedure_candidate \<Rightarrow> memory_db \<Rightarrow> (nat \<times> pystr) result \<times> memory_db" where
  "store_procedure e match ep meta pc db = (case match pc (active_procedures (Some (pc_task pc)) db) of
       Some m \<Rightarrow> (Inr (nat (pm_id m), ''merged''), record_procedure_result e (nat (pm_id m)) True db)
     | None \<Rightarrow> (case bind_result (py_get meta ''confidence'' (JFloat ''0.5'')) py_float of
         Inl x \<Rightarrow> (Inl x, db)
       | Inr conf \<Rightarrow> (case add_procedure e (pc_task pc) (pc_context pc) (pc_steps pc) ep conf 1 0 db of
           (i, db1) \<Rightarrow> (Inr (i, ''created''), db1))))"

definition process_procedure_candidate :: "mem_env \<Rightarrow> (json \<Rightarrow> pystr) \<Rightarrow>
    (procedure_candidate \<Rightarrow> (nat \<times> procedure_row) list \<Rightarrow> procedure_match option) \<Rightarrow> nat \<Rightarrow> (nat \<times> event_row) list \<Rightarrow> nat \<times> event_row \<Rightarrow>
    memory_db \<Rightarrow> json option result \<times> memory_db" where
  "process_procedure_candidate e render match ep evs c db =
     (let st = map_option ep_status (get_episode ep db); calls = filter (\<lambda>r. ev_type r = ''tool_call'') (map snd evs) in
      if st \<in> Some ` set [''rejected'', ''needs_review'', ''failed'']
      then (case add_event e ep ''memory_review_result'' None None (rejected_json (the st)) db of
        (Inl x, db1) \<Rightarrow> (Inl x, db1) | (Inr _, db1) \<Rightarrow> (Inr (Some (rejected_json (the st))), db1))
      else if calls = [] then (Inr None, db)
      else case candidate_of render calls of Inl x \<Rightarrow> (Inl x, db)
        | Inr pc \<Rightarrow> (case store_procedure e match ep (ev_metadata (snd c)) pc db of (Inl x, db1) \<Rightarrow> (Inl x, db1)
          | (Inr (i, action), db1) \<Rightarrow> (case add_event e ep ''memory_review_result'' None None (procedure_json i action) db1 of
              (Inl x, db2) \<Rightarrow> (Inl x, db2) | (Inr _, db2) \<Rightarrow> (Inr (Some (procedure_json i action)), db2))))"

definition process_forgetting_candidate :: "mem_env \<Rightarrow> nat \<Rightarrow> nat \<times> event_row \<Rightarrow> memory_db \<Rightarrow> json option result \<times> memory_db" where
  "process_forgetting_candidate e ep c db = (case py_get (ev_metadata (snd c)) ''confidence'' (JFloat ''0.0'') of
     Inl x \<Rightarrow> (Inl x, db)
   | Inr conf \<Rightarrow> (case add_event e ep ''memory_review_result'' None None
         (JObj [(''memory_kind'', JStr ''forgetting''), (''status'', JStr ''queued_for_policy''), (''confidence'', conf)]) db of
       (Inl x, db1) \<Rightarrow> (Inl x, db1)
     | (Inr _, db1) \<Rightarrow> (Inr (Some (JObj [(''memory_kind'', JStr ''forgetting''), (''status'', JStr ''queued_for_policy'')])), db1)))"

section \<open>The review of an episode\<close>

record review_env =
  rv_mem :: mem_env
  rv_repr :: "real \<Rightarrow> pystr"
  rv_render :: "json \<Rightarrow> pystr"
  rv_extract :: "pystr \<Rightarrow> triple list"
  rv_match :: "procedure_candidate \<Rightarrow> (nat \<times> procedure_row) list \<Rightarrow> procedure_match option"

definition process_kind :: "review_env \<Rightarrow> nat \<Rightarrow> (nat \<times> event_row) list \<Rightarrow> nat \<times> event_row \<Rightarrow> memory_kind \<Rightarrow> memory_db \<Rightarrow>
    json option result \<times> memory_db" where
  "process_kind v ep evs c k db = (case k of
     Semantic \<Rightarrow> process_semantic_candidate (rv_mem v) (rv_repr v) (rv_extract v) ep evs c db
   | Procedure \<Rightarrow> process_procedure_candidate (rv_mem v) (rv_render v) (rv_match v) ep evs c db
   | Forgetting \<Rightarrow> process_forgetting_candidate (rv_mem v) ep c db)"

fun process_kinds :: "review_env \<Rightarrow> nat \<Rightarrow> (nat \<times> event_row) list \<Rightarrow> nat \<times> event_row \<Rightarrow> memory_kind list \<Rightarrow> json list \<Rightarrow> memory_db \<Rightarrow>
    json list result \<times> memory_db" where
  "process_kinds v ep evs c [] out db = (Inr out, db)"
| "process_kinds v ep evs c (k # ks) out db = (case process_kind v ep evs c k db of
     (Inl x, db1) \<Rightarrow> (Inl x, db1)
   | (Inr j, db1) \<Rightarrow> process_kinds v ep evs c ks (out @ (case j of None \<Rightarrow> [] | Some y \<Rightarrow> [y])) db1)"

fun process_candidates :: "review_env \<Rightarrow> nat \<Rightarrow> (nat \<times> event_row) list \<Rightarrow> (nat \<times> event_row) list \<Rightarrow> json list \<Rightarrow> memory_db \<Rightarrow>
    json list result \<times> memory_db" where
  "process_candidates v ep evs [] out db = (Inr out, db)"
| "process_candidates v ep evs (c # cs) out db = (case candidate_memory_kinds (snd c) of
     Inl x \<Rightarrow> (Inl x, db)
   | Inr ks \<Rightarrow> (case process_kinds v ep evs c ks out db of
       (Inl x, db1) \<Rightarrow> (Inl x, db1) | (Inr out', db1) \<Rightarrow> process_candidates v ep evs cs out' db1))"

definition process_memory_review_candidates :: "review_env \<Rightarrow> nat \<Rightarrow> memory_db \<Rightarrow> json list result \<times> memory_db" where
  "process_memory_review_candidates v ep db = (let evs = episode_events ep db in
     process_candidates v ep evs (review_candidate_events evs) [] db)"

end
