(* ===== verification/Memory_Review_Properties.thy ===== *)
theory Memory_Review_Properties
  imports Memory_Review Memory_Properties
begin

section \<open>The best match\<close>

lemma token_similarity_range: "0 \<le> token_similarity lower a b \<and> token_similarity lower a b \<le> 1"
proof -
  have "card (procedure_tokens lower a \<inter> procedure_tokens lower b) \<le> card (procedure_tokens lower a \<union> procedure_tokens lower b)"
    by (rule card_mono) (auto simp: procedure_tokens_def)
  then show ?thesis by (auto simp: token_similarity_def Let_def divide_le_eq_1)
qed

lemma sorted_reverse_Cons:
  assumes "sorted_reverse f xs = y # ys" shows "y \<in> set xs \<and> (\<forall>x \<in> set xs. f x \<le> f y)"
proof -
  have s: "sort_key f (rev xs) = rev ys @ [y]" using assms unfolding sorted_reverse_def by (metis rev.simps(2) rev_swap)
  have "set (sort_key f (rev xs)) = set xs" by simp
  then have "set xs = insert y (set ys)" by (simp add: s)
  moreover have "sorted (map f (rev ys @ [y]))" using sorted_sort_key [of f "rev xs"] by (simp add: s)
  then have "\<forall>x \<in> set ys. f x \<le> f y" by (simp add: sorted_append)
  ultimately show ?thesis by auto
qed

lemma sorted_reverse_Nil: "sorted_reverse f xs = [] \<longleftrightarrow> xs = []"
  by (simp add: sorted_reverse_def) (metis length_0_conv length_rev length_sort)

text \<open>
  the lexical matcher answers a procedure of the list that is as similar as any of them, with its
  similarity, between the threshold and 1; it answers nothing only when every procedure is below the threshold.
\<close>

theorem lexical_match_is_best:
  "case lexical_match lower c ps threshold of
     None \<Rightarrow> list_all (\<lambda>(_, r). row_similarity lower c r < threshold) ps
   | Some m \<Rightarrow> threshold \<le> pm_score m \<and> 0 \<le> pm_score m \<and> pm_score m \<le> 1
       \<and> list_ex (\<lambda>(i, r). pm_id m = int i \<and> pm_score m = row_similarity lower c r) ps
       \<and> list_all (\<lambda>(_, r). row_similarity lower c r \<le> pm_score m) ps"
proof (cases "sorted_reverse (\<lambda>(i, r). (row_similarity lower c r, pr_success r, i)) ps")
  case Nil
  then show ?thesis by (simp add: lexical_match_def) (simp add: sorted_reverse_Nil)
next
  case (Cons kr rest)
  obtain i r where kr: "kr = (i, r)" by (cases kr)
  from sorted_reverse_Cons [OF Cons] have m: "(i, r) \<in> set ps" and
    max: "\<And>j q. (j, q) \<in> set ps \<Longrightarrow> row_similarity lower c q \<le> row_similarity lower c r"
    by (fastforce simp: kr less_eq_prod_def)+
  have "0 \<le> row_similarity lower c r \<and> row_similarity lower c r \<le> 1" by (simp add: row_similarity_def token_similarity_range)
  then show ?thesis using m max Cons
    by (fastforce simp: lexical_match_def kr list_all_iff list_ex_iff)
qed

text \<open>The token loop: every maximal run of the class is a token, nothing else, whatever the text.\<close>

lemma runs_of_concat: "concat (runs_of p s) = filter p s \<and> [] \<notin> set (runs_of p s)"
proof (induction p s rule: runs_of.induct)
  case (1 p s)
  let ?t = "dropWhile (\<lambda>c. \<not> p c) s"
  have f: "filter p s = filter p ?t"
    by (induction s) auto
  show ?case
  proof (cases "?t = []")
    case True
    with f show ?thesis by (simp add: runs_of.simps [of p s])
  next
    case False
    then have h: "p (hd ?t)" using hd_dropWhile by blast
    have "filter p xs = takeWhile p xs @ filter p (dropWhile p xs)" for xs by (induction xs) auto
    from this [of ?t] 1 [OF refl False] False f h show ?thesis
      by (cases ?t) (simp_all add: runs_of.simps [of p s])
  qed
qed

section \<open>Review writes no fact twice\<close>

definition facts_distinct :: "mem_env \<Rightarrow> memory_db \<Rightarrow> bool" where
  "facts_distinct e db \<longleftrightarrow> distinct (map (\<lambda>kr. row_key e (snd kr)) (active_semantic_memories e db))"

definition live_facts :: "mem_env \<Rightarrow> (nat, memory_row) table \<Rightarrow> (pystr \<times> pystr \<times> pystr) list" where
  "live_facts e t = map (\<lambda>kr. row_key e (snd kr)) (select_where (\<lambda>_ r. live_memory e r) t)"

lemma facts_distinct_iff: "facts_distinct e db \<longleftrightarrow> distinct (live_facts e (memories db))"
proof -
  have "mset (map (\<lambda>kr. row_key e (snd kr)) (active_semantic_memories e db)) = mset (live_facts e (memories db))"
    by (simp add: active_where_def desc_def live_facts_def)
  then show ?thesis unfolding facts_distinct_def by (rule mset_eq_imp_distinct_iff)
qed

lemma distinct_submset: "mset xs \<subseteq># mset ys \<Longrightarrow> distinct ys \<Longrightarrow> distinct xs"
  by (metis distinct_append ex_mset mset_append mset_eq_imp_distinct_iff subset_mset.le_iff_add)

lemma live_facts_append [simp]: "live_facts e (t @ [(i, r)]) = live_facts e t @ (if live_memory e r then [row_key e r] else [])"
  by (simp add: live_facts_def select_where_def)

lemma live_facts_kill: "\<not> live_memory e r' \<Longrightarrow> mset (live_facts e (AList.update k r' t)) \<subseteq># mset (live_facts e t)"
proof (induction t)
  case (Cons x t)
  then show ?case by (cases x) (auto simp: live_facts_def select_where_def subset_mset.add_increasing)
qed (simp add: live_facts_def select_where_def)

lemma live_facts_keep:
  "map_of t k = Some r \<Longrightarrow> row_key e r' = row_key e r \<Longrightarrow> live_memory e r' = live_memory e r \<Longrightarrow>
     live_facts e (AList.update k r' t) = live_facts e t"
proof (induction t)
  case (Cons x t)
  then show ?case by (cases x) (auto simp: live_facts_def select_where_def split: if_splits)
qed simp

lemma link_memories: "link_entities e s v ty src s0 o0 db = (a, b, db1) \<Longrightarrow> memories db1 = memories db"
  by (auto simp: link_entities_def entity_for_def add_alias_def Let_def split: option.splits prod.splits if_splits list.splits)

lemma add_event_memories: "add_event e i ty role content meta db = (r, db1) \<Longrightarrow> memories db1 = memories db"
  by (auto simp: add_event_def txn_def Let_def split: if_splits)

lemma exact_live: "find_exact_memory e t (active_semantic_memories e db) = None \<longleftrightarrow> triple_key e t \<notin> set (live_facts e (memories db))"
  by (force simp: find_exact_memory_def find_None_iff live_facts_def active_where_def desc_def select_where_def)

lemma new_live [simp]: "live_memory e (new_memory e s p v s0 o0 ty sc c src None emb)"
  "row_key e (new_memory e s p v s0 o0 ty sc c src None emb) = semantic_memory_key e s p v"
  by (simp_all add: live_memory_def new_memory_def row_key_def)

lemma apply_decision_distinct:
  assumes d: "distinct (live_facts e (memories db))" and same: "memories db1 = memories db"
    and run: "apply_decision e src conf t (decide_semantic_update e t (active_semantic_memories e db) conf') st db1 = (r, db2)"
  shows "distinct (live_facts e (memories db2))"
proof (cases "decide_semantic_update e t (active_semantic_memories e db) conf'")
  case Ignore
  with run d same show ?thesis by (auto simp: apply_decision_def split: prod.splits)
next
  case (Reinforce i)
  have k: "live_facts e (memories (update_semantic_confidence e i c db1)) = live_facts e (memories db1)" for c
    by (auto simp: update_semantic_confidence_def set_memory_def update_key_def row_key_def live_memory_def
        split: option.splits intro!: live_facts_keep)
  with run Reinforce d same show ?thesis by (auto simp: apply_decision_def split: prod.splits option.splits)
next
  case (Supersede i)
  then have n: "triple_key e t \<notin> set (live_facts e (memories db))"
    by (auto simp: decide_semantic_update_def exact_live split: if_splits option.splits)
  obtain a b db' where l: "link_entities e (tr_subject t) (tr_object t) (tr_type t) src None None db1 = (a, b, db')"
    by (cases "link_entities e (tr_subject t) (tr_object t) (tr_type t) src None None db1")
  let ?t = "add_row (new_memory e (tr_subject t) (tr_predicate t) (tr_object t) a b (tr_type t) (tr_scope t)
      (min conf (tr_confidence t)) src None None) (memories db')"
  have "distinct (live_facts e ?t)" using d n link_memories [OF l] same by (simp add: add_row_def triple_key_def)
  moreover obtain j x y z where "memories db2 = update_key i (\<lambda>_. True) (\<lambda>r. r\<lparr>sm_superseded := Some j, sm_archived := Some x,
      sm_reason := Some y, sm_updated := z\<rparr>) ?t"
    using run Supersede by (auto simp: apply_decision_def supersede_semantic_memory_def l Let_def set_memory_def split: prod.splits)
  then have "mset (live_facts e (memories db2)) \<subseteq># mset (live_facts e ?t)"
    by (auto simp: update_key_def live_memory_def split: option.splits intro!: live_facts_kill)
  ultimately show ?thesis by (metis distinct_submset)
next
  case Add
  then have n: "triple_key e t \<notin> set (live_facts e (memories db))"
    by (auto simp: decide_semantic_update_def exact_live split: if_splits option.splits)
  show ?thesis using run Add d n same
    by (auto simp: apply_decision_def add_semantic_memory_def txn_def Let_def add_row_def triple_key_def
        split: prod.splits if_splits dest!: link_memories)
qed

lemma process_triples_distinct:
  "process_triples e repr ep src conf ts st db = (r, db') \<Longrightarrow> distinct (live_facts e (memories db)) \<Longrightarrow>
     distinct (live_facts e (memories db'))"
proof (induction e repr ep src conf ts st db arbitrary: r rule: process_triples.induct)
  case (2 e repr ep src conf t ts known ta db)
  show ?case
  proof (cases "known (triple_key e t)")
    case None
    let ?d = "decide_semantic_update e t (active_semantic_memories e db) conf"
    obtain a db1 where ev: "add_event e ep ''memory_update_decision'' None None (decision_json repr ?d t conf) db = (a, db1)"
      by (cases "add_event e ep ''memory_update_decision'' None None (decision_json repr ?d t conf) db")
    obtain b db2 where ap: "apply_decision e src conf t ?d (known, ta) db1 = (b, db2)"
      by (cases "apply_decision e src conf t ?d (known, ta) db1")
    have m: "memories db1 = memories db" using ev by (rule add_event_memories)
    show ?thesis
    proof (cases a)
      case (Inl x)
      with 2(3,4) None ev m show ?thesis by (simp add: Let_def)
    next
      case (Inr n)
      from apply_decision_distinct [OF 2(4) m ap] have d2: "distinct (live_facts e (memories db2))" .
      show ?thesis
      proof (cases b)
        case (Inl x)
        with 2(3) None ev ap \<open>a = Inr n\<close> d2 show ?thesis by (simp add: Let_def)
      next
        case (Inr st')
        with 2(3) None ev ap \<open>a = Inr n\<close> have "process_triples e repr ep src conf ts st' db2 = (r, db')" by (simp add: Let_def)
        with 2(1) [OF None refl ev [symmetric] \<open>a = Inr n\<close> ap [symmetric] Inr] d2 show ?thesis by blast
      qed
    qed
  next
    case (Some i)
    with 2(2) [OF Some] 2(3,4) show ?thesis by simp
  qed
qed simp

lemma process_semantic_distinct:
  assumes "process_semantic_candidate e repr extract ep evs c db = (r, db')" "distinct (live_facts e (memories db))"
  shows "distinct (live_facts e (memories db'))"
  using assms
  by (auto simp: process_semantic_candidate_def Let_def split: option.splits prod.splits sum.splits if_splits
      dest!: process_triples_distinct add_event_memories)

lemma store_procedure_memories: "store_procedure e match ep meta pc db = (r, db') \<Longrightarrow> memories db' = memories db"
  by (auto simp: store_procedure_def record_procedure_result_def add_procedure_def split: option.splits sum.splits)

lemma process_procedure_memories:
  "process_procedure_candidate e render match ep evs c db = (r, db') \<Longrightarrow> memories db' = memories db"
  by (auto simp: process_procedure_candidate_def Let_def split: if_splits prod.splits sum.splits
      dest!: store_procedure_memories add_event_memories)

lemma process_kind_distinct:
  assumes "process_kind v ep evs c k db = (r, db')" "distinct (live_facts (rv_mem v) (memories db))"
  shows "distinct (live_facts (rv_mem v) (memories db'))"
proof (cases k)
  case Semantic
  with assms show ?thesis by (auto simp: process_kind_def dest: process_semantic_distinct)
next
  case Procedure
  with assms show ?thesis by (auto simp: process_kind_def dest: process_procedure_memories)
next
  case Forgetting
  with assms show ?thesis
    by (auto simp: process_kind_def process_forgetting_candidate_def split: sum.splits prod.splits dest: add_event_memories)
qed

lemma process_kinds_distinct:
  "process_kinds v ep evs c ks out db = (r, db') \<Longrightarrow> distinct (live_facts (rv_mem v) (memories db)) \<Longrightarrow>
     distinct (live_facts (rv_mem v) (memories db'))"
  by (induction v ep evs c ks out db rule: process_kinds.induct)
    (auto split: prod.splits sum.splits dest: process_kind_distinct)

lemma process_candidates_distinct:
  "process_candidates v ep evs cs out db = (r, db') \<Longrightarrow> distinct (live_facts (rv_mem v) (memories db)) \<Longrightarrow>
     distinct (live_facts (rv_mem v) (memories db'))"
proof (induction v ep evs cs out db rule: process_candidates.induct)
  case (2 v ep evs c cs out db)
  show ?case
  proof (cases "candidate_memory_kinds (snd c)")
    case (Inl x)
    with 2(2,3) show ?thesis by simp
  next
    case (Inr ks)
    obtain o1 db1 where k: "process_kinds v ep evs c ks out db = (o1, db1)" by (cases "process_kinds v ep evs c ks out db")
    from process_kinds_distinct [OF k 2(3)] have d: "distinct (live_facts (rv_mem v) (memories db1))" .
    show ?thesis
    proof (cases o1)
      case (Inl x)
      with 2(2) Inr k d \<open>candidate_memory_kinds (snd c) = Inr ks\<close> show ?thesis by simp
    next
      case (Inr out')
      with 2(2) k \<open>candidate_memory_kinds (snd c) = Inr ks\<close> have "process_candidates v ep evs cs out' db1 = (r, db')" by simp
      with 2(1) [OF \<open>candidate_memory_kinds (snd c) = Inr ks\<close> k [symmetric] Inr] d show ?thesis by blast
    qed
  qed
qed simp

text \<open>
  C28: when no two live memories state the same fact (subject, predicate and object up to case and blanks), the
  review of an episode leaves it so, whatever the model extracted, also when an exception cuts it short.
\<close>

theorem review_writes_no_fact_twice:
  assumes "facts_distinct (rv_mem v) db"
  shows "facts_distinct (rv_mem v) (snd (process_memory_review_candidates v ep db))"
  using assms process_candidates_distinct [where v = v]
  by (cases "process_memory_review_candidates v ep db")
    (auto simp: process_memory_review_candidates_def facts_distinct_iff Let_def)


section \<open>What an episode teaches\<close>

lemma add_event_procedures: "add_event e i ty role content meta db = (r, db1) \<Longrightarrow> procedures db1 = procedures db"
  by (auto simp: add_event_def txn_def Let_def split: if_splits)

text \<open>
  A procedure is stored or reinforced only from an episode that was not rejected, failed or left for review.
\<close>

theorem procedures_from_accepted_episodes:
  assumes "procedures (snd (process_procedure_candidate e render match ep evs c db)) \<noteq> procedures db"
  shows "map_option ep_status (get_episode ep db) \<notin> Some ` set [''rejected'', ''needs_review'', ''failed'']"
proof
  assume "map_option ep_status (get_episode ep db) \<in> Some ` set [''rejected'', ''needs_review'', ''failed'']"
  then have "procedures (snd (process_procedure_candidate e render match ep evs c db)) = procedures db"
    by (auto simp: process_procedure_candidate_def Let_def split: prod.splits sum.splits dest: add_event_procedures)
  with assms show False by contradiction
qed

section \<open>Samples\<close>

definition liked :: "pystr \<Rightarrow> triple" where
  "liked v = \<lparr>tr_subject = ''user'', tr_predicate = ''likes'', tr_object = v, tr_confidence = 1/2, tr_type = ''user_profile'', tr_scope = ''global''\<rparr>"

definition likes_row :: memory_row where
  "likes_row = new_memory demo_mem_env ''user'' ''likes'' ''tea'' None None ''user_profile'' ''global'' 1 4 None None"

definition tea_db :: memory_db where
  "tea_db = empty_memory\<lparr>episodes := [(1, \<lparr>ep_status = ''completed'', ep_started = ''t'', ep_ended = None, ep_summary = None\<rparr>)],
     events := [(4, new_event demo_mem_env 1 ''message'' (Some ''user'') (Some ''I like coffee'') (JObj [])),
       (5, new_event demo_mem_env 1 ''tool_call'' None None (JObj [(''name'', JStr ''grep'')])),
       (6, new_event demo_mem_env 1 ''memory_review_candidate'' None None (JObj [(''memory_kind'', JStr ''both'')]))],
     memories := [(1, likes_row)]\<rparr>"

definition tea_review :: review_env where
  "tea_review = \<lparr>rv_mem = demo_mem_env, rv_repr = (\<lambda>_. ''0.5''), rv_render = (\<lambda>_. []), rv_extract = (\<lambda>_. [liked ''coffee'', liked ''tea'']),
     rv_match = exact_match\<rparr>"


lemma tea_active: "active_semantic_memories demo_mem_env tea_db = [(1, likes_row)]"
  by (simp add: active_where_def desc_def select_where_def tea_db_def likes_row_def new_memory_def live_memory_def)


theorem review_writes_no_fact_twice_witness:
  "facts_distinct demo_mem_env (snd (process_memory_review_candidates tea_review 1 tea_db))"
proof -
  have "facts_distinct (rv_mem tea_review) tea_db" by (simp add: facts_distinct_def tea_review_def tea_active)
  from review_writes_no_fact_twice [OF this] show ?thesis by (simp add: tea_review_def)
qed


text \<open>An episode that completed without a verification teaches a procedure.\<close>

theorem procedures_from_accepted_episodes_witness:
  "map_option ep_status (get_episode 1 tea_db) = Some ''completed''
    \<and> procedures (snd (process_procedure_candidate demo_mem_env (\<lambda>_. []) exact_match 1 (episode_events 1 tea_db)
        (6, new_event demo_mem_env 1 ''memory_review_candidate'' None None (JObj [(''confidence'', JInt 1)])) tea_db)) \<noteq> []
    \<and> map_option ep_status (get_episode 1 tea_db) \<notin> Some ` set [''rejected'', ''needs_review'', ''failed'']"
proof -
  have s: "map_option ep_status (get_episode 1 tea_db) = Some ''completed''" by (simp add: get_episode_def tea_db_def)
  have ev: "filter (\<lambda>r. ev_type r = ''tool_call'') (map snd (episode_events 1 tea_db))
      = [new_event demo_mem_env 1 ''tool_call'' None None (JObj [(''name'', JStr ''grep'')])]"
    by (simp add: episode_events_def asc_def select_where_def tea_db_def new_event_def)
  have f: "py_float (JInt 1) = Inr 1" by (simp add: py_float_def)
  have p: "procedures tea_db = []" by (simp add: tea_db_def empty_memory_def)
  have ne: "procedures (snd (process_procedure_candidate demo_mem_env (\<lambda>_. []) exact_match 1 (episode_events 1 tea_db)
        (6, new_event demo_mem_env 1 ''memory_review_candidate'' None None (JObj [(''confidence'', JInt 1)])) tea_db)) \<noteq> procedures tea_db"
    unfolding process_procedure_candidate_def s ev Let_def
    by (simp add: candidate_of_def tool_step_def store_procedure_def exact_match_def py_str_def
        active_procedures_def desc_def select_where_def p f add_procedure_def add_row_def new_event_def)
      (auto split: prod.splits sum.splits dest!: add_event_procedures)
  from procedures_from_accepted_episodes [OF ne] ne s p show ?thesis by simp
qed

end
