(* ===== verification/Working_Memory.thy ===== *)
theory Working_Memory
  imports Memory_Review Retrieval_Properties
begin

text \<open>
  \<open>working_memory.py\<close>: the compaction of a conversation.  \<open>render\<close> is \<open>str\<close> of a value that is no text, the
  classifier an argument that may raise, \<open>estr\<close> the text of an exception.
\<close>

section \<open>Summaries\<close>

definition blank_breaks :: "pystr \<Rightarrow> pystr" where
  "blank_breaks s = map (\<lambda>c. if c = char_of (13::nat) \<or> c = char_of (10::nat) then CHR '' '' else c) s"

definition normalize_content :: "(json \<Rightarrow> pystr) \<Rightarrow> nat \<Rightarrow> json \<Rightarrow> pystr" where
  "normalize_content render limit v = (let t = py_strip (blank_breaks (py_str render v)) in
     if py_len t \<le> limit then t else py_rstrip (py_take (limit - 3) t) @ ''...'')"

fun summary_lines :: "(json \<Rightarrow> pystr) \<Rightarrow> nat \<Rightarrow> json list \<Rightarrow> pystr list" where
  "summary_lines render i [] = []"
| "summary_lines render i (m # ms) = (show_nat i @ ''. '' @ py_str render (get_or m ''role'' (JStr ''unknown'')) @ '': ''
     @ normalize_content render 240 (get_or m ''content'' (JStr []))) # summary_lines render (i + 1) ms"

definition summarize_messages :: "(json \<Rightarrow> pystr) \<Rightarrow> json list \<Rightarrow> pystr" where
  "summarize_messages render ms = (if ms = [] then ''No earlier conversation.'' else py_join newline (summary_lines render 1 ms))"

section \<open>Preservation\<close>

record preservation =
  pv_preserve :: bool
  pv_kind :: pystr
  pv_available :: bool
  pv_reason :: pystr

definition default_preservation :: preservation where
  "default_preservation = \<lparr>pv_preserve = False, pv_kind = ''none'', pv_available = True, pv_reason = []\<rparr>"

definition read_preservation :: "(json \<Rightarrow> pystr) \<Rightarrow> json \<Rightarrow> preservation result" where
  "read_preservation render res = bind_result (py_get res ''answers'' (JObj [])) (\<lambda>answers.
     bind_result (py_get answers ''should_preserve'' (JObj [])) (\<lambda>p. bind_result (py_get answers ''preservation_kind'' (JObj [])) (\<lambda>k.
     bind_result (py_get p ''noul'' (JBool False)) (\<lambda>b. bind_result (py_get k ''choice'' (JStr ''none'')) (\<lambda>c.
     Inr (default_preservation\<lparr>pv_preserve := jtruth b, pv_kind := py_str render c\<rparr>))))))"

definition assess_preservation :: "(json \<Rightarrow> pystr) \<Rightarrow> (exn \<Rightarrow> pystr) \<Rightarrow> (pystr \<Rightarrow> json result) option \<Rightarrow> pystr \<Rightarrow> preservation" where
  "assess_preservation render estr classifier summary = (case classifier of None \<Rightarrow> default_preservation
     | Some predict \<Rightarrow> (case bind_result (predict summary) (read_preservation render) of Inr p \<Rightarrow> p
       | Inl x \<Rightarrow> default_preservation\<lparr>pv_available := False, pv_reason := estr x\<rparr>))"

section \<open>Compaction\<close>

text \<open>The slices \<open>xs[:-k]\<close> and \<open>xs[-k:]\<close>: a zero \<open>k\<close> cuts before the first element.\<close>

definition tail_cut :: "nat \<Rightarrow> 'a list \<Rightarrow> nat" where
  "tail_cut k xs = (if k = 0 then 0 else length xs - k)"

definition summary_message :: "pystr \<Rightarrow> json" where
  "summary_message s = JObj [(''role'', JStr ''system''), (''content'', JStr (''Earlier conversation summary:'' @ newline @ s))]"

definition compact_messages :: "(json \<Rightarrow> pystr) \<Rightarrow> (exn \<Rightarrow> pystr) \<Rightarrow> (pystr \<Rightarrow> json result) option \<Rightarrow> nat \<Rightarrow> nat \<Rightarrow> json list \<Rightarrow>
    json list \<times> (pystr \<times> preservation) option" where
  "compact_messages render estr classifier most keep ms = (if length ms \<le> most then (ms, None)
     else let sys = filter (has_role ''system'') ms; rest = filter (\<lambda>m. \<not> has_role ''system'' m) ms; cut = tail_cut keep rest;
              summary = summarize_messages render (take cut rest)
          in (sys @ [summary_message summary] @ drop cut rest, Some (summary, assess_preservation render estr classifier summary)))"

section \<open>What compaction keeps\<close>

lemma strip_codes_suffix: "\<exists>u. s = u @ strip_codes n codes s"
proof (induction n codes s rule: strip_codes.induct)
  case (2 n codes s)
  show ?case
  proof (cases "find (\<lambda>p. is_prefix_of p s) codes")
    case (Some p)
    with 2 obtain u where "drop (length p) s = u @ strip_codes n codes (drop (length p) s)" by blast
    then have "s = (take (length p) s @ u) @ strip_codes n codes (drop (length p) s)"
      by (metis append.assoc append_take_drop_id)
    with Some show ?thesis by (auto intro!: exI [of _ "take (length p) s @ u"])
  qed simp
qed simp

lemma py_len_rstrip: "py_len (py_rstrip s) \<le> py_len s"
proof -
  obtain u where "rev s = u @ strip_codes (length s) (map rev space_codes) (rev s)" using strip_codes_suffix by blast
  then have "s = py_rstrip s @ rev u" unfolding py_rstrip_def by (metis rev_append rev_rev_ident)
  then have "py_len s = py_len (py_rstrip s) + py_len (rev u)" by (metis py_len_append)
  then show ?thesis by simp
qed

lemma normalize_content_bounded: "3 \<le> limit \<Longrightarrow> py_len (normalize_content render limit v) \<le> limit"
proof -
  assume "3 \<le> limit"
  moreover have "py_len (py_rstrip (py_take (limit - 3) t)) \<le> limit - 3" for t
    using py_len_rstrip py_len_take order_trans by blast
  moreover have "py_len ''...'' = 3" by (simp add: py_len_def continuation_byte_def)
  ultimately have "py_len (py_rstrip (py_take (limit - 3) t) @ ''...'') \<le> limit" for t
    by (metis (no_types) add_le_mono le_add_diff_inverse2 order_refl py_len_append)
  then show ?thesis by (simp add: normalize_content_def Let_def del: py_len_append)
qed

text \<open>
  the compacted conversation has every system message in order, one summary, and the last \<open>keep\<close> other
  messages in order; the summary stands for the rest, with at most 240 characters of each message.
\<close>

theorem compaction_keeps_recent:
  "case compact_messages render estr classifier most keep ms of
     (out, None) \<Rightarrow> out = ms \<and> length ms \<le> most
   | (out, Some (summary, _)) \<Rightarrow> most < length ms \<and> (\<exists>old recent. filter (\<lambda>m. \<not> has_role ''system'' m) ms = old @ recent
       \<and> out = filter (has_role ''system'') ms @ [summary_message summary] @ recent
       \<and> length recent = (if keep = 0 then length (old @ recent) else min keep (length (old @ recent)))
       \<and> summary = summarize_messages render old
       \<and> list_all (\<lambda>m. py_len (normalize_content render 240 (get_or m ''content'' (JStr []))) \<le> 240) old)"
proof (cases "length ms \<le> most")
  case False
  let ?rest = "filter (\<lambda>m. \<not> has_role ''system'' m) ms"
  let ?old = "take (tail_cut keep ?rest) ?rest" and ?recent = "drop (tail_cut keep ?rest) ?rest"
  have n: "length ?recent = (if keep = 0 then length (?old @ ?recent) else min keep (length (?old @ ?recent)))"
    unfolding append_take_drop_id by (auto simp: tail_cut_def min_def)
  have l: "list_all (\<lambda>m. py_len (normalize_content render 240 (get_or m ''content'' (JStr []))) \<le> 240) ?old"
    by (simp add: list_all_iff normalize_content_bounded)
  have c: "compact_messages render estr classifier most keep ms = (filter (has_role ''system'') ms
      @ [summary_message (summarize_messages render ?old)] @ ?recent,
      Some (summarize_messages render ?old, assess_preservation render estr classifier (summarize_messages render ?old)))"
    using False by (simp add: compact_messages_def Let_def)
  have r: "?rest = ?old @ ?recent" by simp
  have m: "most < length ms" using False by simp
  show ?thesis unfolding c prod.case option.case
    by (rule conjI [OF m], rule exI [of _ ?old], rule exI [of _ ?recent]) (intro conjI r n l refl)
qed (simp add: compact_messages_def)

text \<open>
  A conversation of more than \<open>most\<close> messages whose other messages are at most \<open>keep\<close> grows by a message
  that denies an earlier conversation: nothing is left out.
\<close>

theorem compaction_can_grow:
  assumes "most < length ms" and "length (filter (\<lambda>m. \<not> has_role ''system'' m) ms) \<le> keep"
  shows "\<exists>out p. compact_messages render estr classifier most keep ms = (out, Some (''No earlier conversation.'', p))
    \<and> length out = length ms + 1"
proof -
  have "tail_cut keep (filter (\<lambda>m. \<not> has_role ''system'' m) ms) = 0" using assms(2) by (simp add: tail_cut_def)
  with assms(1) show ?thesis
    using sum_length_filter_compl [of "has_role ''system''" ms] by (simp add: compact_messages_def Let_def summarize_messages_def)
qed

theorem compaction_can_grow_witness:
  "\<exists>out p. compact_messages (\<lambda>_. []) (\<lambda>_. []) None 12 8 (replicate 5 (JObj [(''role'', JStr ''system'')]) @ replicate 8 (user_message ''x''))
     = (out, Some (''No earlier conversation.'', p)) \<and> length out = 14"
  using compaction_can_grow [of 12 "replicate 5 (JObj [(''role'', JStr ''system'')]) @ replicate 8 (user_message ''x'')" 8 "\<lambda>_. []" "\<lambda>_. []" None]
  by (simp add: has_role_def user_message_def jget_def)

section \<open>What injection keeps\<close>

text \<open>
  The retrieved memories enter the conversation as messages of the user directly before its last message of
  the user, or at the end when there is none; every other message keeps its place.
\<close>

theorem injection_keeps_messages:
  "\<exists>pre post. ms = pre @ post \<and> inject_memory_context warn guidance ms ctx = pre @ memory_additions warn guidance ctx @ post
    \<and> list_all (has_role ''user'') (memory_additions warn guidance ctx) \<and> list_all (\<lambda>m. \<not> has_role ''user'' m) (tl post)
    \<and> (case post of [] \<Rightarrow> list_all (\<lambda>m. \<not> has_role ''user'' m) ms | m # _ \<Rightarrow> has_role ''user'' m)"
proof -
  have "list_all (has_role ''user'') (memory_additions warn guidance ctx)"
    by (simp add: memory_additions_def user_message_def has_role_def jget_def)
  moreover have "inject_memory_context warn guidance ms ctx
      = take (last_user ms) ms @ memory_additions warn guidance ctx @ drop (last_user ms) ms"
    by (simp add: inject_memory_context_def Let_def)
  ultimately show ?thesis using last_user_spec [of ms] by (intro exI [of _ "take (last_user ms) ms"] exI [of _ "drop (last_user ms) ms"]) simp
qed

end
