(* ===== verification/Step_Store.thy ===== *)
theory Step_Store
  imports Ledger
begin

text \<open>
  \<open>temporal_backend/step_store.py\<close>, \<open>decisions.py\<close> and \<open>turn_control/continuation.py\<close>: the durable continuation
  of a task.  A step runs under a cursor (submission, revision, kind, reference of a snapshot); its end commits
  the cursor of the next revision; a human answer is consumed while the continuation advances.
\<close>

section \<open>Tables\<close>

datatype step_status = StReady | StRunning | StDone

text \<open>The columns \<open>state_ref\<close> and \<open>output\<close> hold canonical texts; their values are kept.\<close>

record step_run =
  st_next :: pystr
  st_ref :: json
  st_status :: step_status
  st_fence :: "token option"
  st_output :: "json option"

datatype answer_state = AWaiting | AAnswered | AConsumed | AExpired
datatype notice_state = DNone | DPending | DSent

record answer_row =
  an_call :: pystr
  an_expires :: time
  an_answer :: "pystr option"
  an_state :: answer_state
  an_delivery :: notice_state

record step_db = ledger_db +
  step_runs :: "(pystr \<times> int, step_run) table"
  human_answers :: "(pystr \<times> int, answer_row) table"

record step_env =
  se_env :: env
  se_ledger :: ledger_env
  se_scope :: op_scope

definition set_step :: "pystr \<times> int \<Rightarrow> (step_run \<Rightarrow> step_run) \<Rightarrow> step_db \<Rightarrow> step_db" where
  "set_step k f db = db\<lparr>step_runs := update_key k (\<lambda>_. True) f (step_runs db)\<rparr>"

definition set_task_row :: "owner \<Rightarrow> task_id \<Rightarrow> (task_row \<Rightarrow> task_row) \<Rightarrow> step_db \<Rightarrow> step_db" where
  "set_task_row ow k f db = db\<lparr>tasks := update_key (ow, k) (\<lambda>_. True) f (tasks db)\<rparr>"

section \<open>Boundaries of a turn\<close>

definition text_at :: "json \<Rightarrow> pystr \<Rightarrow> pystr \<Rightarrow> bool" where
  "text_at v k s \<longleftrightarrow> jget v k = JStr s"

text \<open>\<open>assistant_frontier\<close>: the last message of the assistant, and the calls that have a result after it.\<close>

fun frontier :: "json list \<Rightarrow> json list \<Rightarrow> json \<times> json list" where
  "frontier [] done' = (JObj [], [])"
| "frontier (m # ms) done' = (if text_at m ''role'' ''assistant'' then (m, done')
     else frontier ms (if text_at m ''role'' ''tool'' then jget m ''tool_call_id'' # done' else done'))"

definition assistant_frontier :: "json list \<Rightarrow> json \<times> json list" where
  "assistant_frontier ms = frontier (rev ms) []"

fun any_open :: "json list \<Rightarrow> json list \<Rightarrow> bool result" where
  "any_open finished [] = Inr False"
| "any_open finished (c # cs) = bind_result (py_index c ''id'') (\<lambda>i. if i \<notin> set finished then Inr True else any_open finished cs)"

definition next_kind :: "pystr \<Rightarrow> json \<Rightarrow> pystr result" where
  "next_kind phase' saved = (if phase' = ''step_ready''
     then (if one_of [''model'', ''tool'', ''evaluation''] (jget saved ''next_kind'') then Inr (jtext_of (jget saved ''next_kind''))
       else Inl (ValueError ''Invalid next continuation kind''))
     else if phase' = ''evaluation_done'' then Inr ''evaluation''
     else if phase' \<notin> {''model_received'', ''tool_done''} then Inl (ValueError ''Not a completed step boundary'')
     else bind_result (py_index saved ''messages'') (\<lambda>ms. case assistant_frontier (jitems ms) of (m, finished) \<Rightarrow>
       bind_result (any_open finished (jitems (jor (jget m ''tool_calls'') (JArr [])))) (\<lambda>op.
         Inr (if op then ''tool'' else if phase' = ''model_received'' then ''evaluation'' else ''model''))))"

text \<open>\<open>StepController\<close>: a runner performs one step of the expected kind; at any further boundary it saves the kind
  of the next step and yields.\<close>

record controller =
  ct_expected :: pystr
  ct_performed :: bool

datatype entered = Proceeds | Yields pystr

definition controller_of :: "pystr \<Rightarrow> controller result" where
  "controller_of kind = (if kind \<in> {''model'', ''tool'', ''evaluation''} then Inr \<lparr>ct_expected = kind, ct_performed = False\<rparr>
     else Inl (ValueError ''Invalid continuation kind''))"

definition enter :: "pystr \<Rightarrow> controller \<Rightarrow> (entered \<times> controller) result" where
  "enter kind c = (if kind \<notin> {''model'', ''tool'', ''evaluation''} then Inl (ValueError ''Invalid continuation kind'')
     else if ct_performed c \<or> kind \<noteq> ct_expected c then Inr (Yields kind, c) else Inr (Proceeds, c\<lparr>ct_performed := True\<rparr>))"

section \<open>Cursors and snapshots\<close>

definition cursor_key :: "json \<Rightarrow> pystr \<times> int" where
  "cursor_key c = (jtext_of (jget c ''submission_id''), jint_of (jget c ''revision''))"

definition cursor_json :: "pystr \<times> int \<Rightarrow> pystr \<Rightarrow> json \<Rightarrow> json" where
  "cursor_json k kind ref = JObj [(''schema_version'', JInt 1), (''submission_id'', JStr (fst k)), (''revision'', JInt (snd k)),
     (''next_kind'', JStr kind), (''state_ref'', ref)]"

definition make_cursor :: "pystr \<times> int \<Rightarrow> pystr \<Rightarrow> json \<Rightarrow> json result" where
  "make_cursor k kind ref = validate_cursor (cursor_json k kind ref)"

definition step_row_of :: "json \<Rightarrow> step_db \<Rightarrow> step_run result" where
  "step_row_of c db = bind_result (validate_cursor c) (\<lambda>_. case map_of (step_runs db) (cursor_key c) of
     None \<Rightarrow> Inl (PermissionError ''Continuation does not match its persisted cursor'')
   | Some r \<Rightarrow> if canonical (st_ref r) \<noteq> canonical (jget c ''state_ref'') \<or> JStr (st_next r) \<noteq> jget c ''next_kind''
       then Inl (PermissionError ''Continuation does not match its persisted cursor'') else Inr r)"

definition task_state_name :: "task_state \<Rightarrow> pystr" where
  "task_state_name s = (case s of Pending \<Rightarrow> ''pending'' | Running \<Rightarrow> ''running'' | Completed \<Rightarrow> ''completed'' | Failed \<Rightarrow> ''failed''
     | Cancelled \<Rightarrow> ''cancelled'' | Suspended \<Rightarrow> ''suspended'' | Uncertain \<Rightarrow> ''uncertain'')"

definition snapshot_of :: "task_row \<Rightarrow> json result" where
  "snapshot_of r = validate_snapshot (JObj [(''schema_version'', JInt 1), (''phase'', JStr (phase r)),
     (''checkpoint'', jt_doc (checkpoint_doc r)), (''task_state'', JStr (task_state_name (tstate r))),
     (''reply'', (case reply r of None \<Rightarrow> JNull | Some s \<Rightarrow> JStr s))])"

text \<open>\<open>_put\<close>: a snapshot becomes an artifact with the fresh identifier \<open>i\<close>.\<close>

definition put_artifact :: "step_env \<Rightarrow> ledger \<Rightarrow> pystr \<Rightarrow> json \<Rightarrow> step_db \<Rightarrow> (json \<times> step_db) result" where
  "put_artifact e l i value db = bind_result (ledger_scope (se_scope e) False l db) (\<lambda>_.
     bind_result (make_artifact (se_ledger e) i value) (\<lambda>(r, data).
     bind_result (ledger_capacity (se_ledger e) db (jtext_bytes data + byte_len (lg_owner l) + byte_len (lg_task l) + 104 + 1024)) (\<lambda>_.
     case insert_artifact l (r, data) (artifacts db) of
       None \<Rightarrow> Inl (IntegrityError ''UNIQUE constraint failed: temporal_artifacts.id'')
     | Some arts \<Rightarrow> Inr (reference_json r, db\<lparr>artifacts := arts\<rparr>))))"

section \<open>Waiting for a human\<close>

definition create_wait :: "step_env \<Rightarrow> json \<Rightarrow> task_row \<Rightarrow> step_db \<Rightarrow> step_db result" where
  "create_wait e c task db = bind_result (ledger_capacity (se_ledger e) db 2048) (\<lambda>_.
     case jget (jt_doc (checkpoint_doc task)) ''suspended_tool_call_id'' of
       JStr call \<Rightarrow> if call = [] then Inl (ValueError ''Missing suspended tool call'') else
         bind_result (get_submission db (fst (cursor_key c)) None) (\<lambda>row.
         bind_result (workflow_type db (fst (cursor_key c)) row) (\<lambda>w.
         if w \<notin> {HUMAN_WORKFLOW_NAME, APPROVAL_WORKFLOW_NAME} then Inl (PermissionError ''Human waiting requires V2 or a later step protocol'')
         else case map_of (budget_contracts db) (fst (cursor_key c)) of
           None \<Rightarrow> Inl (PermissionError ''Human waiting requires a pinned root deadline'')
         | Some contract \<Rightarrow> (case finite_number (jget contract ''deadline'') of
             None \<Rightarrow> Inl (TypeError ''deadline'')
           | Some d \<Rightarrow> (case insert_row (cursor_key c) \<lparr>an_call = call, an_expires = min (now (se_env e) + 300) d, an_answer = None,
                 an_state = AWaiting, an_delivery = DNone\<rparr> (human_answers db) of
               None \<Rightarrow> Inl (IntegrityError ''UNIQUE constraint failed: temporal_human_answers'')
             | Some t \<Rightarrow> Inr (db\<lparr>human_answers := t\<rparr>)))))
     | _ \<Rightarrow> Inl (ValueError ''Missing suspended tool call''))"

text \<open>\<open>Decisions.answer\<close>: the latest wait of a call takes one answer, before it expires.\<close>

definition latest_wait :: "pystr \<Rightarrow> pystr \<Rightarrow> step_db \<Rightarrow> ((pystr \<times> int) \<times> answer_row) option" where
  "latest_wait key call db = (case desc (\<lambda>((_, n), _). n) (select_where (\<lambda>(k, _) r. k = key \<and> an_call r = call) (human_answers db)) of
     [] \<Rightarrow> None | h # _ \<Rightarrow> Some h)"

definition answer_wait :: "step_env \<Rightarrow> pystr \<Rightarrow> owner \<Rightarrow> pystr \<Rightarrow> pystr \<Rightarrow> step_db \<Rightarrow> unit result \<times> step_db" where
  "answer_wait e key ow call text' db =
     (if py_strip text' = [] \<or> byte_len text' > 1024 * 1024 then (Inl (ValueError ''Human answer must contain text and fit within 1 MiB''), db)
      else case bind_result (get_submission db key (Some ow)) (\<lambda>row. bind_result (workflow_type db key row) (\<lambda>w. Inr (row, w))) of
        Inl x \<Rightarrow> (Inl x, db)
      | Inr (row, w) \<Rightarrow> if w \<notin> {HUMAN_WORKFLOW_NAME, APPROVAL_WORKFLOW_NAME}
          then (Inl (PermissionError ''Human answers require the step protocol''), db)
          else txn db (bind_result (assert_owner_active db ow) (\<lambda>_. case map_of (tasks db) (ow, sub_task row) of
            None \<Rightarrow> Inl (PermissionError ''Human answer fenced by task state'')
          | Some task \<Rightarrow> if sub_state row \<notin> {SRunning, SCompleted} \<or> tstate task \<in> {Cancelled, Failed, Uncertain}
              then Inl (PermissionError ''Human answer fenced by task state'')
              else (case latest_wait key call db of
                None \<Rightarrow> Inl (PermissionError ''Answer does not match a persisted human wait'')
              | Some (k, r) \<Rightarrow> if an_state r \<in> {AAnswered, AConsumed} \<and> an_answer r = Some text' then Inr ((), db)
                  else if an_state r \<noteq> AWaiting \<or> an_expires r \<le> now (se_env e) \<or> tstate task \<noteq> Suspended
                  then Inl (PermissionError ''Human wait expired or already decided'')
                  else bind_result (ledger_capacity (se_ledger e) db (byte_len text')) (\<lambda>_.
                    Inr ((), db\<lparr>human_answers := update_key k (\<lambda>_. True)
                      (\<lambda>r. r\<lparr>an_answer := Some text', an_state := AAnswered, an_delivery := DPending\<rparr>) (human_answers db)\<rparr>))))))"

definition pending_answers :: "step_db \<Rightarrow> (pystr \<times> int) list" where
  "pending_answers db = take 100 (map fst (sort_key (\<lambda>((k, _), _). case map_of (submissions db) k of None \<Rightarrow> 0 | Some s \<Rightarrow> sub_updated s)
     (select_where (\<lambda>(k, _) r. an_delivery r = DPending
        \<and> (case map_of (submissions db) k of None \<Rightarrow> False | Some s \<Rightarrow> sub_state s = SRunning)) (human_answers db))))"

definition answer_sent :: "pystr \<times> int \<Rightarrow> step_db \<Rightarrow> step_db" where
  "answer_sent k db = db\<lparr>human_answers := update_key k (\<lambda>r. an_delivery r = DPending) (\<lambda>r. r\<lparr>an_delivery := DSent\<rparr>) (human_answers db)\<rparr>"

section \<open>Bootstrap\<close>

definition step_queue :: "pystr \<Rightarrow> pystr option" where
  "step_queue w = (if w = STEP_WORKFLOW_NAME then Some ''steps'' else if w = HUMAN_WORKFLOW_NAME then Some ''human''
     else if w = APPROVAL_WORKFLOW_NAME then Some ''approval'' else None)"

definition bootstrap_claim :: "step_env \<Rightarrow> pystr \<Rightarrow> settings \<Rightarrow> token \<Rightarrow> step_db \<Rightarrow> submission result \<times> step_db" where
  "bootstrap_claim e key st fence db = (case bind_result (get_submission db key None) (\<lambda>row.
       bind_result (workflow_type db key row) (\<lambda>w. case step_queue w of
         None \<Rightarrow> Inl (PermissionError ''Submission is not bound to the step protocol'')
       | Some engine \<Rightarrow> bind_result (queue_for db engine) (\<lambda>q.
           if (sub_address row, sub_namespace row, sub_queue row) \<noteq> (s_address st, s_namespace st, q)
           then Inl (PermissionError ''Step submission targets another host or namespace'') else Inr row))) of
     Inl x \<Rightarrow> (Inl x, db)
   | Inr row \<Rightarrow> (case txn db (bind_result (assert_owner_active db (sub_owner row)) (\<lambda>_.
         case map_of (tasks db) (sub_owner row, sub_task row) of
           None \<Rightarrow> Inl (PermissionError ''Step task was cancelled or removed'')
         | Some task \<Rightarrow> if tstate task = Cancelled then Inl (PermissionError ''Step task was cancelled or removed'')
             else if sub_state row \<in> {SPending, SDispatched}
             then Inr ((), db\<lparr>submissions := update_key key (\<lambda>_. True) (\<lambda>r. r\<lparr>sub_state := SRunning, sub_fence := Some fence,
               sub_updated := now (se_env e)\<rparr>) (submissions db)\<rparr>)
             else if sub_state row \<notin> {SRunning, SCompleted, SFailed}
             then Inl (OperationUncertain ''Step submission requires inspection'') else Inr ((), db))) of
       (Inl x, db1) \<Rightarrow> (Inl x, db1) | (Inr _, db1) \<Rightarrow> (get_submission db1 key None, db1)))"

definition bootstrap :: "step_env \<Rightarrow> pystr \<Rightarrow> submission \<Rightarrow> ledger \<Rightarrow> pystr \<Rightarrow> step_db \<Rightarrow> json result \<times> step_db" where
  "bootstrap e key row l i db = (if key \<noteq> lg_key l then (Inl (PermissionError ''Continuation is outside this task''), db)
     else txn db (bind_result (ledger_scope (se_scope e) False l db) (\<lambda>_. case map_of (step_runs db) (key, 0) of
       Some old \<Rightarrow> bind_result (make_cursor (key, 0) (st_next old) (st_ref old)) (\<lambda>c.
         bind_result (load (se_scope e) l (jget c ''state_ref'') db) (\<lambda>_. Inr (c, db)))
     | None \<Rightarrow> bind_result (get_task db (sub_owner row) (sub_task row)) (\<lambda>task.
         if tstate task \<noteq> Pending then Inl (PermissionError ''Cannot bootstrap a previously executed task'')
         else bind_result (snapshot_of task) (\<lambda>snap. bind_result (put_artifact e l i snap db) (\<lambda>(ref, db1).
           let db2 = db1\<lparr>step_runs := step_runs db1 @ [((key, 0), \<lparr>st_next = ''model'', st_ref = ref, st_status = StReady,
             st_fence = None, st_output = None\<rparr>)]\<rparr>
           in bind_result (make_cursor (key, 0) ''model'' ref) (\<lambda>c. Inr (c, db2))))))))"

section \<open>Claiming and committing a step\<close>

definition step_current :: "json \<Rightarrow> token \<Rightarrow> step_db \<Rightarrow> bool result" where
  "step_current c fence db = bind_result (step_row_of c db) (\<lambda>r. Inr (st_status r = StRunning \<and> st_fence r = Some fence))"

text \<open>The end of a completed step is answered again, after its snapshot was loaded.\<close>

definition replay :: "step_env \<Rightarrow> ledger \<Rightarrow> step_run \<Rightarrow> step_db \<Rightarrow> json result" where
  "replay e l r db = (case st_output r of None \<Rightarrow> Inl (TypeError ''the JSON object must be str'')
     | Some out \<Rightarrow> bind_result (validate_cursor out) (\<lambda>c.
         bind_result (load (se_scope e) l (jget c ''state_ref'') db) (\<lambda>_. Inr c)))"

definition own_snapshot :: "step_env \<Rightarrow> ledger \<Rightarrow> json \<Rightarrow> step_db \<Rightarrow> json result" where
  "own_snapshot e l c db = (if jget c ''submission_id'' \<noteq> JStr (lg_key l) then Inl (PermissionError ''Continuation is outside this task'')
     else bind_result (load (se_scope e) l (jget c ''state_ref'') db) validate_snapshot)"

definition claim_step :: "step_env \<Rightarrow> json \<Rightarrow> ledger \<Rightarrow> token \<Rightarrow> step_db \<Rightarrow> (token + json) result \<times> step_db" where
  "claim_step e c l fence db = (case own_snapshot e l c db of Inl x \<Rightarrow> (Inl x, db)
   | Inr _ \<Rightarrow> txn db (bind_result (ledger_scope (se_scope e) False l db) (\<lambda>_. bind_result (step_row_of c db) (\<lambda>r.
       if st_status r = StDone then bind_result (replay e l r db) (\<lambda>out. Inr (Inr out, db))
       else if STEP_LIMIT \<le> snd (cursor_key c) then Inl (ValueError ''Continuation step limit reached before execution'')
       else bind_result (ledger_scope (se_scope e) True l db) (\<lambda>_.
         if st_status r \<noteq> StReady then Inl (OperationUncertain ''Step already started; use verified projection recovery'')
         else Inr (Inl fence, set_step (cursor_key c) (\<lambda>r. r\<lparr>st_status := StRunning, st_fence := Some fence\<rparr>) db))))))"

definition boundary_ok :: "pystr \<Rightarrow> task_row \<Rightarrow> unit result" where
  "boundary_ok kind task = (if kind = ''human''
     then guard (tstate task = Suspended \<and> phase task = ''waiting_user'') (PermissionError ''Human wait requires a confirmed suspension'')
     else if kind = ''finalize'' then guard (tstate task \<in> {Completed, Failed}) (PermissionError ''Cannot finalize a nonterminal task'')
     else if tstate task \<noteq> Pending then Inl (PermissionError ''Continuation result does not match its saved boundary'')
     else bind_result (next_kind (phase task) (jt_doc (checkpoint_doc task))) (\<lambda>k.
       guard (k = kind) (PermissionError ''Continuation result does not match its saved boundary'')))"

text \<open>\<open>_commit\<close>, inside a transaction; \<open>i\<close> is the identifier of the new snapshot.\<close>

definition commit_run :: "step_env \<Rightarrow> json \<Rightarrow> token option \<Rightarrow> ledger \<Rightarrow> pystr \<Rightarrow> task_row \<Rightarrow> pystr \<Rightarrow> step_db \<Rightarrow> (json \<times> step_db) result" where
  "commit_run e c fence l kind task i db = bind_result (step_row_of c db) (\<lambda>r.
     if st_status r = StDone then bind_result (replay e l r db) (\<lambda>out. Inr (out, db))
     else if st_status r \<noteq> StRunning \<or> st_fence r \<noteq> fence then Inl (PermissionError ''Continuation result fence is stale'')
     else bind_result (boundary_ok kind task) (\<lambda>_.
       let k = cursor_key c; k' = (fst k, snd k + 1) in
       if snd k' > STEP_LIMIT then Inl (ValueError ''Continuation step limit reached'')
       else bind_result (snapshot_of task) (\<lambda>snap. bind_result (put_artifact e l i snap db) (\<lambda>(ref, db1).
         bind_result (make_cursor k' kind ref) (\<lambda>out.
         bind_result (if kind = ''human'' then create_wait e out task db1 else Inr db1) (\<lambda>db2.
         case insert_row k' \<lparr>st_next = kind, st_ref = ref, st_status = StReady, st_fence = None, st_output = None\<rparr> (step_runs db2) of
           None \<Rightarrow> Inl (IntegrityError ''UNIQUE constraint failed: temporal_step_runs'')
         | Some runs \<Rightarrow> Inr (out, db2\<lparr>step_runs := update_key k (\<lambda>r. fence \<noteq> None \<and> st_fence r = fence)
             (\<lambda>r. r\<lparr>st_status := StDone, st_output := Some out\<rparr>) runs\<rparr>)))))))"

definition commit_step :: "step_env \<Rightarrow> json \<Rightarrow> token \<Rightarrow> ledger \<Rightarrow> pystr \<Rightarrow> pystr \<Rightarrow> step_db \<Rightarrow> json result \<times> step_db" where
  "commit_step e c fence l kind i db = (if jget c ''submission_id'' \<noteq> JStr (lg_key l)
     then (Inl (PermissionError ''Continuation is outside this task''), db)
     else txn db (bind_result (ledger_scope (se_scope e) False l db) (\<lambda>_. bind_result (get_task db (lg_owner l) (lg_task l)) (\<lambda>task.
       commit_run e c (Some fence) l kind task i db))))"

section \<open>Recovery\<close>

text \<open>The operation whose state says whether the effect of a phase may have begun; \<open>show\<close> renders a number.\<close>

definition phase_operation :: "(json \<Rightarrow> pystr) \<Rightarrow> pystr \<Rightarrow> json \<Rightarrow> pystr option result" where
  "phase_operation show ph saved = (if ph = ''model_pending''
     then bind_result (py_index saved ''iteration'') (\<lambda>n. bind_result (py_get saved ''model_attempt'' (JInt 1)) (\<lambda>a.
       Inr (Some (''model:'' @ show n @ '':attempt:'' @ show a))))
     else if ph = ''evaluation_pending''
     then bind_result (py_index saved ''iteration'') (\<lambda>n. bind_result (py_get saved ''eval_retries'' (JInt 0)) (\<lambda>a.
       Inr (Some (''evaluation:'' @ show n @ '':'' @ show a))))
     else if ph = ''tool_started'' then Inl (OperationUncertain ''Tool or its completion hooks may have produced effects'')
     else if ph = ''step_preparing'' then Inl (OperationUncertain ''Preparation hooks may have produced effects'')
     else if ph \<noteq> ''temporal_pending'' then Inl (OperationUncertain ''Unsupported recovery boundary'') else Inr None)"

definition reopen_task :: "task_row \<Rightarrow> task_row" where
  "reopen_task r = r\<lparr>tstate := Pending, lease_owner := None, lease_until := None, reply := None\<rparr>"

definition recover_running :: "step_env \<Rightarrow> (json \<Rightarrow> pystr) \<Rightarrow> json \<Rightarrow> ledger \<Rightarrow> pystr \<Rightarrow> step_run \<Rightarrow> task_row \<Rightarrow> step_db \<Rightarrow> (json \<times> step_db) result" where
  "recover_running e show c l i r task db = (let saved = jt_doc (checkpoint_doc task) in
     if tstate task \<in> {Completed, Failed} then commit_run e c (st_fence r) l ''finalize'' task i db
     else if tstate task = Suspended \<and> phase task = ''waiting_user'' then commit_run e c (st_fence r) l ''human'' task i db
     else if tstate task \<notin> {Pending, Running} then Inl (OperationUncertain ''Task requires human resolution'')
     else if phase task \<in> {''step_ready'', ''model_received'', ''tool_done'', ''evaluation_done''}
     then bind_result (next_kind (phase task) saved) (\<lambda>kind.
       commit_run e c (st_fence r) l kind (task\<lparr>tstate := Pending\<rparr>) i (set_task_row (lg_owner l) (lg_task l) reopen_task db))
     else bind_result (phase_operation show (phase task) saved) (\<lambda>op.
       if (case op of None \<Rightarrow> False | Some s \<Rightarrow> (case map_of (ledger_rows db) (op_key l s) of None \<Rightarrow> False | Some q \<Rightarrow> op_state q \<noteq> OpPrepared))
       then Inl (OperationUncertain ''Operation or completion hooks may have executed'')
       else Inr (c, set_task_row (lg_owner l) (lg_task l) reopen_task
         (set_step (cursor_key c) (\<lambda>r. r\<lparr>st_status := StReady, st_fence := None\<rparr>) db))))"

definition recover_step :: "step_env \<Rightarrow> (json \<Rightarrow> pystr) \<Rightarrow> json \<Rightarrow> ledger \<Rightarrow> pystr \<Rightarrow> step_db \<Rightarrow> json result \<times> step_db" where
  "recover_step e show c l i db = (case own_snapshot e l c db of Inl x \<Rightarrow> (Inl x, db)
   | Inr _ \<Rightarrow> txn db (bind_result (ledger_scope (se_scope e) False l db) (\<lambda>_. bind_result (step_row_of c db) (\<lambda>r.
       if st_status r = StDone then bind_result (replay e l r db) (\<lambda>out. Inr (out, db))
       else if st_status r = StReady then Inr (c, db)
       else bind_result (get_task db (lg_owner l) (lg_task l)) (\<lambda>task. recover_running e show c l i r task db)))))"

section \<open>Consuming an answer\<close>

definition with_answer :: "json \<Rightarrow> pystr \<Rightarrow> json" where
  "with_answer saved text' = jset (jdel saved ''suspended_tool_call_id'') ''messages'' (JArr (jitems (jget saved ''messages'')
     @ [JObj [(''role'', JStr ''tool''), (''tool_call_id'', jget saved ''suspended_tool_call_id''), (''content'', JStr text')]]))"

text \<open>What becomes of the task, the kind of the next step and the state of the answer.\<close>

definition decide_answer :: "time \<Rightarrow> answer_row \<Rightarrow> task_row \<Rightarrow> (task_row \<times> pystr \<times> answer_state) result" where
  "decide_answer t a task = (let saved = jt_doc (checkpoint_doc task) in
     if an_expires a \<le> t
     then Inr (task\<lparr>tstate := Failed, reply := Some ''Error: Human answer wait expired'', checkpoint_doc := canonical_text saved\<rparr>, ''finalize'', AExpired)
     else if an_state a = AAnswered
     then (let saved' = with_answer saved (case an_answer a of None \<Rightarrow> [] | Some s \<Rightarrow> s) in
       bind_result (next_kind ''tool_done'' saved') (\<lambda>kind.
         Inr (task\<lparr>tstate := Pending, phase := ''tool_done'', reply := None, checkpoint_doc := canonical_text saved'\<rparr>, kind, AConsumed)))
     else Inl (PermissionError ''Human decision already consumed without a projection''))"

definition consume_answer :: "step_env \<Rightarrow> json \<Rightarrow> ledger \<Rightarrow> token \<Rightarrow> pystr \<Rightarrow> answer_row \<Rightarrow> task_row \<Rightarrow> step_db \<Rightarrow> (json \<times> step_db) result" where
  "consume_answer e c l fence i a task db = (let t = now (se_env e) in
     bind_result (decide_answer t a task) (\<lambda>(task', kind, st).
     bind_result (capacity (se_env e) db (int (jtext_bytes (checkpoint_doc task')) - int (jtext_bytes (canonical_text (jt_doc (checkpoint_doc task)))))) (\<lambda>_.
     let db1 = set_task_row (lg_owner l) (lg_task l) (\<lambda>r. r\<lparr>tstate := tstate task', phase := phase task', checkpoint_doc := checkpoint_doc task',
           reply := reply task', updated := t\<rparr>) db;
         db2 = set_step (cursor_key c) (\<lambda>r. r\<lparr>st_status := StRunning, st_fence := Some fence\<rparr>) db1 in
     bind_result (commit_run e c (Some fence) l kind task' i db2) (\<lambda>(out, db3).
       Inr (out, db3\<lparr>human_answers := update_key (cursor_key c) (\<lambda>_. True) (\<lambda>r. r\<lparr>an_state := st\<rparr>) (human_answers db3)\<rparr>)))))"

text \<open>\<open>human\<close> answers a cursor and the time until which the wait is open, 0 when it is over.\<close>

definition human_step :: "step_env \<Rightarrow> json \<Rightarrow> ledger \<Rightarrow> token \<Rightarrow> pystr \<Rightarrow> step_db \<Rightarrow> (json \<times> time) result \<times> step_db" where
  "human_step e c l fence i db = (if jget c ''submission_id'' \<noteq> JStr (lg_key l) \<or> jget c ''next_kind'' \<noteq> JStr ''human'' then (Inl (PermissionError ''Not this task human cursor''), db)
   else case own_snapshot e l c db of Inl x \<Rightarrow> (Inl x, db)
   | Inr _ \<Rightarrow> txn db (bind_result (ledger_scope (se_scope e) False l db) (\<lambda>_. bind_result (step_row_of c db) (\<lambda>r.
       if st_status r = StDone then bind_result (replay e l r db) (\<lambda>out. Inr ((out, 0), db))
       else bind_result (get_task db (lg_owner l) (lg_task l)) (\<lambda>task. case map_of (human_answers db) (cursor_key c) of
         None \<Rightarrow> Inl (PermissionError ''Human wait no longer matches its task'')
       | Some a \<Rightarrow> if tstate task \<noteq> Suspended \<or> phase task \<noteq> ''waiting_user''
             \<or> jget (jt_doc (checkpoint_doc task)) ''suspended_tool_call_id'' \<noteq> JStr (an_call a)
           then Inl (PermissionError ''Human wait no longer matches its task'')
           else if an_state a = AWaiting \<and> an_expires a > now (se_env e) then Inr ((c, an_expires a), db)
           else bind_result (consume_answer e c l fence i a task db) (\<lambda>(out, db1). Inr ((out, 0), db1)))))))"

end
