(* ===== verification/Step_Properties.thy ===== *)
theory Step_Properties
  imports Step_Store Leases
begin

text \<open>
  Histories of continuations: a submission has one chain of revisions, a step starts once unless it was recovered
  before any effect, and its end never changes.
\<close>

section \<open>What an operation does to the runs\<close>

definition fresh_run :: "pystr \<Rightarrow> json \<Rightarrow> step_run" where
  "fresh_run kind ref = \<lparr>st_next = kind, st_ref = ref, st_status = StReady, st_fence = None, st_output = None\<rparr>"

definition after :: "pystr \<times> int \<Rightarrow> pystr \<times> int" where
  "after k = (fst k, snd k + 1)"

lemma after_neq [simp]: "after k \<noteq> k" "k \<noteq> after k"
  by (cases k; simp add: after_def)+

text \<open>\<open>reopen\<close> says whether a started run may become ready again.\<close>

inductive runs_change :: "bool \<Rightarrow> (pystr \<times> int \<rightharpoonup> step_run) \<Rightarrow> (pystr \<times> int \<rightharpoonup> step_run) \<Rightarrow> bool" for reopen where
  same: "runs_change reopen m m"
| restatus: "m k = Some x \<Longrightarrow> st_status x \<noteq> StDone \<Longrightarrow> s = StRunning \<and> f \<noteq> None \<or> s = StReady \<and> reopen \<Longrightarrow>
    runs_change reopen m (m(k \<mapsto> x\<lparr>st_status := s, st_fence := f\<rparr>))"
| orphan: "m k = Some x \<Longrightarrow> st_status x = StRunning \<Longrightarrow> st_fence x = None \<Longrightarrow> m (after k) = None \<Longrightarrow> snd (after k) \<le> STEP_LIMIT \<Longrightarrow>
    runs_change reopen m (m(after k \<mapsto> fresh_run kind ref))"
| advance: "m k = Some x \<Longrightarrow> st_status x = StRunning \<Longrightarrow> st_fence x \<noteq> None \<Longrightarrow> m (after k) = None \<Longrightarrow> snd (after k) \<le> STEP_LIMIT \<Longrightarrow>
    runs_change reopen m (m(k \<mapsto> x\<lparr>st_status := StDone, st_output := Some (cursor_json (after k) kind ref)\<rparr>, after k \<mapsto> fresh_run kind ref))"
| start: "m (key, 0) = None \<Longrightarrow> runs_change reopen m (m((key, 0) \<mapsto> fresh_run kind ref))"

inductive_cases runs_changeE: "runs_change reopen m m'"

abbreviation run_map :: "step_db \<Rightarrow> (pystr \<times> int \<rightharpoonup> step_run)" where
  "run_map db \<equiv> map_of (step_runs db)"

definition change_star :: "bool \<Rightarrow> step_db \<Rightarrow> step_db \<Rightarrow> bool" where
  "change_star reopen db db' \<longleftrightarrow> (runs_change reopen)\<^sup>*\<^sup>* (run_map db) (run_map db')"

lemma change_refl [simp, intro]: "step_runs db' = step_runs db \<Longrightarrow> change_star reopen db db'"
  by (simp add: change_star_def)

lemma change_trans: "change_star reopen db db1 \<Longrightarrow> change_star reopen db1 db2 \<Longrightarrow> change_star reopen db db2"
  by (simp add: change_star_def)

lemma change_one: "runs_change reopen (run_map db) (run_map db') \<Longrightarrow> change_star reopen db db'"
  by (simp add: change_star_def r_into_rtranclp)

lemma change_weaken: "change_star False db db' \<Longrightarrow> change_star True db db'"
  unfolding change_star_def
  by (erule rtranclp_mono [THEN predicate2D, rotated]) (auto elim!: runs_changeE intro: runs_change.intros)

lemma set_step_map: "run_map (set_step k f db) = (run_map db)(k := map_option f (run_map db k))"
  by (auto simp: set_step_def fun_eq_iff update_key_lookup split: option.splits)

lemma frames [simp]:
  "step_runs (set_task_row ow k f db) = step_runs db" "human_answers (set_task_row ow k f db) = human_answers db"
  "human_answers (set_step k2 g db) = human_answers db" "tasks (set_step k2 g db) = tasks db"
  by (simp_all add: set_task_row_def set_step_def)

lemma change_same: "change_star reopen db db1 \<Longrightarrow> step_runs db1' = step_runs db1 \<Longrightarrow> change_star reopen db db1'"
  by (simp add: change_star_def)

lemma bind_resultE: "bind_result r f = Inr b \<Longrightarrow> (\<And>a. r = Inr a \<Longrightarrow> f a = Inr b \<Longrightarrow> P) \<Longrightarrow> P"
  by (cases r) auto

lemma put_runs: "put_artifact e l i v db = Inr (ref, db1) \<Longrightarrow> step_runs db1 = step_runs db"
  by (auto simp: put_artifact_def split: option.splits prod.splits)

lemma create_runs: "create_wait e c task db = Inr db1 \<Longrightarrow> step_runs db1 = step_runs db"
  by (auto simp: create_wait_def insert_row_def split: option.splits json.splits if_splits)

lemma make_cursor_Inr: "make_cursor k kind ref = Inr c \<longleftrightarrow> c = cursor_json k kind ref \<and> validate_cursor c = Inr c"
  by (auto simp: make_cursor_def validate_cursor_def split: if_splits)

lemma step_row_Inr: "step_row_of c db = Inr r \<Longrightarrow> run_map db (cursor_key c) = Some r"
  by (auto simp: step_row_of_def split: option.splits if_splits)

lemma controller_performs_once:
  "enter kind c = Inr (Proceeds, c') \<Longrightarrow> kind = ct_expected c \<and> \<not> ct_performed c \<and> ct_performed c'"
  "ct_performed c \<Longrightarrow> enter kind c = Inr (r, c') \<Longrightarrow> r = Yields kind \<and> c' = c"
  by (auto simp: enter_def split: if_splits)

section \<open>The operations\<close>

lemma commit_open:
  assumes "commit_run e c f l kind task i db = Inr (out, db')" "step_row_of c db = Inr r" "st_status r \<noteq> StDone"
  obtains ref runs where "st_status r = StRunning" "st_fence r = f" "snd (after (cursor_key c)) \<le> STEP_LIMIT"
    "out = cursor_json (after (cursor_key c)) kind ref"
    "insert_row (after (cursor_key c)) (fresh_run kind ref) (step_runs db) = Some runs"
    "step_runs db' = update_key (cursor_key c) (\<lambda>r. f \<noteq> None \<and> st_fence r = f) (\<lambda>r. r\<lparr>st_status := StDone, st_output := Some out\<rparr>) runs"
proof -
  have st: "st_status r = StRunning" "st_fence r = f" and lim: "\<not> snd (cursor_key c) + 1 > STEP_LIMIT"
    using assms by (auto simp: commit_run_def Let_def split: if_splits)
  from assms(1) [unfolded commit_run_def assms(2) bind_result_simps Let_def] assms(3) st lim
  obtain ref db1 db2 runs where put: "step_runs db1 = step_runs db"
    and w: "(if kind = ''human'' then create_wait e out task db1 else Inr db1) = Inr db2"
    and rest: "out = cursor_json (after (cursor_key c)) kind ref"
      "insert_row (after (cursor_key c)) (fresh_run kind ref) (step_runs db2) = Some runs"
      "step_runs db' = update_key (cursor_key c) (\<lambda>r. f \<noteq> None \<and> st_fence r = f) (\<lambda>r. r\<lparr>st_status := StDone, st_output := Some out\<rparr>) runs"
    by (auto simp: after_def fresh_run_def make_cursor_Inr split del: if_split split: option.splits dest!: put_runs)
  have "step_runs db2 = step_runs db" using w put by (auto dest: create_runs split: if_splits)
  with that [OF st _ rest(1) _ rest(3)] lim rest(2) show thesis by (simp add: after_def)
qed

lemma commit_change:
  assumes "commit_run e c f l kind task i db = Inr (out, db')"
  shows "change_star reopen db db'"
proof -
  obtain r where row: "step_row_of c db = Inr r" using assms by (auto simp: commit_run_def)
  note r = step_row_Inr [OF row]
  show ?thesis
  proof (cases "st_status r = StDone")
    case True
    then show ?thesis using assms row by (auto simp: commit_run_def)
  next
    case False
    from commit_open [OF assms row this] obtain ref runs where st: "st_status r = StRunning" "st_fence r = f"
      and lim: "snd (after (cursor_key c)) \<le> STEP_LIMIT" and out: "out = cursor_json (after (cursor_key c)) kind ref"
      and ins: "insert_row (after (cursor_key c)) (fresh_run kind ref) (step_runs db) = Some runs"
      and db': "step_runs db' = update_key (cursor_key c) (\<lambda>r. f \<noteq> None \<and> st_fence r = f)
         (\<lambda>r. r\<lparr>st_status := StDone, st_output := Some out\<rparr>) runs" .
    have "run_map db' = (if f = None then (run_map db)(after (cursor_key c) \<mapsto> fresh_run kind ref)
       else (run_map db)(cursor_key c \<mapsto> r\<lparr>st_status := StDone, st_output := Some (cursor_json (after (cursor_key c)) kind ref)\<rparr>,
         after (cursor_key c) \<mapsto> fresh_run kind ref))"
      using r st by (intro ext) (auto simp: db' out tbl insert_row_lookup [OF ins])
    then show ?thesis using r st lim insert_row_fresh [OF ins] by (intro change_one) (auto intro: runs_change.intros)
  qed
qed

lemma commit_step_change: "change_star reopen db (snd (commit_step e c f l kind i db))"
  unfolding commit_step_def
  by (auto intro!: txn_preserves [where P = "change_star reopen db"] dest!: commit_change)

lemma set_running:
  assumes "run_map db k = Some r" "st_status r \<noteq> StDone" "s = StRunning \<and> f \<noteq> None \<or> s = StReady \<and> reopen"
  shows "change_star reopen db (set_step k (\<lambda>r. r\<lparr>st_status := s, st_fence := f\<rparr>) db)"
  using assms by (intro change_one) (auto simp: set_step_map intro: runs_change.restatus)

lemma claim_step_change: "change_star reopen db (snd (claim_step e c l f db))"
  unfolding claim_step_def
  by (auto split: sum.splits intro!: txn_preserves [where P = "change_star reopen db"] split: if_splits
      dest!: step_row_Inr intro!: set_running)

lemma bootstrap_change: "change_star reopen db (snd (bootstrap e key row l i db))"
proof -
  have "change_star reopen db db'" if "run_map db (key, 0) = None" "put_artifact e l i snap db = Inr (ref, db1)"
      "db' = db1\<lparr>step_runs := step_runs db1 @ [((key, 0), \<lparr>st_next = ''model'', st_ref = ref', st_status = StReady, st_fence = None, st_output = None\<rparr>)]\<rparr>"
    for snap ref ref' db1 db'
    using that put_runs [OF that(2)] runs_change.start [of "run_map db" key reopen "''model''" ref']
    by (intro change_one) (auto simp: fresh_run_def map_add_def fun_upd_def fun_eq_iff split: option.splits
       elim!: back_subst [where P = "runs_change reopen (run_map db)"])
  then show ?thesis unfolding bootstrap_def
    by (auto intro!: txn_preserves [where P = "change_star reopen db"] split: option.splits if_splits simp: Let_def)
qed

lemma reopen_change:
  "run_map db (cursor_key c) = Some r \<Longrightarrow> st_status r \<noteq> StDone \<Longrightarrow> change_star True db
     (set_task_row ow k g (set_step (cursor_key c) (\<lambda>r. r\<lparr>st_status := StReady, st_fence := None\<rparr>) db))"
  by (rule change_same [OF set_running]) simp_all

lemma commit_after_task: "commit_run e c f l kind task i (set_task_row ow k g db) = Inr (out, db') \<Longrightarrow> change_star reopen db db'"
  using commit_change by (fastforce simp: change_star_def)

lemma recover_running_change:
  assumes "recover_running e show c l i r task db = Inr (out, db')" "run_map db (cursor_key c) = Some r" "st_status r \<noteq> StDone"
  shows "change_star True db db'"
  using assms by (auto simp: recover_running_def Let_def split: if_splits intro: reopen_change dest: commit_change commit_after_task)

lemma recover_change: "change_star True db (snd (recover_step e show c l i db))"
  unfolding recover_step_def
  by (auto split: sum.splits intro!: txn_preserves [where P = "change_star True db"] split: if_splits
      dest!: step_row_Inr intro: recover_running_change)

lemma consume_change:
  assumes "consume_answer e c l fence i a task db = Inr (out, db')" "run_map db (cursor_key c) = Some r" "st_status r \<noteq> StDone"
  shows "change_star reopen db db'"
proof -
  obtain t' kind g db3 where run: "commit_run e c (Some fence) l kind t' i
      (set_step (cursor_key c) (\<lambda>r. r\<lparr>st_status := StRunning, st_fence := Some fence\<rparr>) (set_task_row (lg_owner l) (lg_task l) g db)) = Inr (out, db3)"
    and db': "step_runs db' = step_runs db3"
    using assms(1) by (auto simp: consume_answer_def Let_def)
  have "change_star reopen db (set_step (cursor_key c) (\<lambda>r. r\<lparr>st_status := StRunning, st_fence := Some fence\<rparr>)
      (set_task_row (lg_owner l) (lg_task l) g db))"
    using set_running [of "set_task_row (lg_owner l) (lg_task l) g db" "cursor_key c" r] assms(2,3) by (simp add: change_star_def)
  from change_trans [OF this commit_change [OF run]] show ?thesis by (rule change_same) (rule db')
qed

lemma human_change: "change_star reopen db (snd (human_step e c l fence i db))"
proof -
  have ok: "change_star reopen db db'" if "(if st_status r = StDone then bind_result (replay e l r db) (\<lambda>out. Inr ((out, 0), db))
       else bind_result (get_task db (lg_owner l) (lg_task l)) (\<lambda>task. case map_of (human_answers db) (cursor_key c) of
         None \<Rightarrow> Inl (PermissionError ''Human wait no longer matches its task'')
       | Some a \<Rightarrow> if tstate task \<noteq> Suspended \<or> phase task \<noteq> ''waiting_user''
             \<or> jget (jt_doc (checkpoint_doc task)) ''suspended_tool_call_id'' \<noteq> JStr (an_call a)
           then Inl (PermissionError ''Human wait no longer matches its task'')
           else if an_state a = AWaiting \<and> an_expires a > now (se_env e) then Inr ((c, an_expires a), db)
           else bind_result (consume_answer e c l fence i a task db) (\<lambda>(out, db1). Inr ((out, 0), db1)))) = Inr (out, db')"
      "step_row_of c db = Inr r" for r out db'
    using that(1) step_row_Inr [OF that(2)]
    by (cases "map_of (human_answers db) (cursor_key c)") (auto split: if_splits dest: consume_change)
  show ?thesis unfolding human_step_def
    by (auto split: sum.splits intro!: txn_preserves [where P = "change_star reopen db"] simp del: bind_result_Inr
        elim!: bind_resultE dest: ok)
qed

lemma bootstrap_claim_runs: "step_runs (snd (bootstrap_claim e key st fence db)) = step_runs db"
proof -
  have k: "step_runs (snd (txn db b)) = step_runs db" if "\<And>a db'. b = Inr (a, db') \<Longrightarrow> step_runs db' = step_runs db" for b :: "(unit \<times> step_db) result"
    using that by (rule txn_preserves [where P = "\<lambda>db'. step_runs db' = step_runs db", rotated]) simp_all
  have snd_case: "snd (case p of (Inl x, d) \<Rightarrow> (Inl x, d) | (Inr u, d) \<Rightarrow> (g d, d)) = snd p" for p :: "unit result \<times> step_db" and g :: "step_db \<Rightarrow> submission result"
    by (simp split: prod.split sum.split)
  show ?thesis unfolding bootstrap_claim_def
    by (cases rule: sum.exhaust [of "bind_result (get_submission db key None) (\<lambda>row.
       bind_result (workflow_type db key row) (\<lambda>w. case step_queue w of
         None \<Rightarrow> Inl (PermissionError ''Submission is not bound to the step protocol'')
       | Some engine \<Rightarrow> bind_result (queue_for db engine) (\<lambda>q.
           if (sub_address row, sub_namespace row, sub_queue row) \<noteq> (s_address st, s_namespace st, q)
           then Inl (PermissionError ''Step submission targets another host or namespace'') else Inr row)))"])
      (simp_all only: sum.case snd_case snd_conv, auto intro!: k split: option.splits if_splits)
qed

lemma answer_wait_runs: "step_runs (snd (answer_wait e key ow call text' db)) = step_runs db"
  unfolding answer_wait_def
  by (auto split: sum.split prod.splits intro!: txn_preserves [where P = "\<lambda>db'. step_runs db' = step_runs db"] split: option.splits if_splits)

section \<open>Histories\<close>

datatype step_call =
    SWorld step_db
  | SBootstrapClaim step_env pystr settings token
  | SBootstrap step_env pystr submission ledger pystr
  | SClaim step_env json ledger token
  | SCommit step_env json token ledger pystr pystr
  | SRecover step_env "json \<Rightarrow> pystr" json ledger pystr
  | SHuman step_env json ledger token pystr
  | SAnswer step_env pystr owner pystr pystr
  | SSent "pystr \<times> int"

text \<open>\<open>SWorld\<close> stands for the other components: it replaces every table but the runs.\<close>

fun step_step :: "time \<Rightarrow> step_call \<Rightarrow> step_db \<Rightarrow> step_db" where
  "step_step t (SWorld w) db = w\<lparr>step_runs := step_runs db\<rparr>"
| "step_step t (SBootstrapClaim e key st f) db = snd (bootstrap_claim e key st f db)"
| "step_step t (SBootstrap e key row l i) db = snd (bootstrap e key row l i db)"
| "step_step t (SClaim e c l f) db = snd (claim_step e c l f db)"
| "step_step t (SCommit e c f l kind i) db = snd (commit_step e c f l kind i db)"
| "step_step t (SRecover e show c l i) db = snd (recover_step e show c l i db)"
| "step_step t (SHuman e c l f i) db = snd (human_step e c l f i db)"
| "step_step t (SAnswer e key ow call s) db = snd (answer_wait e key ow call s db)"
| "step_step t (SSent k) db = answer_sent k db"

fun recovers :: "step_call \<Rightarrow> bool" where
  "recovers (SRecover _ _ _ _ _) = True"
| "recovers _ = False"

lemma step_step_change: "recovers a \<longrightarrow> reopen \<Longrightarrow> change_star reopen db (step_step t a db)"
  by (cases a) (simp_all add: commit_step_change claim_step_change bootstrap_change human_change bootstrap_claim_runs
      answer_wait_runs answer_sent_def recover_change)

lemma history_change: "(\<And>t a. (t, a) \<in> set tr \<Longrightarrow> recovers a \<longrightarrow> reopen) \<Longrightarrow> change_star reopen db (run_ops step_step tr db)"
proof (induction tr arbitrary: db)
  case (Cons x tr)
  obtain t a where x: "x = (t, a)" by fastforce
  have "change_star reopen db (step_step t a db)" using Cons.prems x by (intro step_step_change) auto
  moreover have "change_star reopen (step_step t a db) (run_ops step_step tr (step_step t a db))"
    using Cons.prems by (intro Cons.IH) auto
  ultimately show ?case unfolding x run_ops.simps by (rule change_trans)
qed simp

lemma history_preserves:
  assumes "P (run_map db)" "\<And>t a. (t, a) \<in> set tr \<Longrightarrow> recovers a \<longrightarrow> reopen"
    and "\<And>m m'. runs_change reopen m m' \<Longrightarrow> P m \<Longrightarrow> P m'"
  shows "P (run_map (run_ops step_step tr db))"
proof -
  have "(runs_change reopen)\<^sup>*\<^sup>* (run_map db) (run_map (run_ops step_step tr db))"
    using history_change [OF assms(2)] by (simp add: change_star_def)
  then show ?thesis by (induction rule: rtranclp_induct) (auto intro: assms)
qed

section \<open>The chain of revisions\<close>

definition chain :: "(pystr \<times> int \<rightharpoonup> step_run) \<Rightarrow> bool" where
  "chain m \<longleftrightarrow> (\<forall>key n x. m (key, n) = Some x \<longrightarrow> 0 \<le> n \<and> n \<le> STEP_LIMIT
     \<and> (st_status x = StRunning \<longrightarrow> st_fence x \<noteq> None) \<and> (st_status x = StDone \<longleftrightarrow> m (key, n + 1) \<noteq> None)
     \<and> (n = 0 \<or> (\<exists>y. m (key, n - 1) = Some y \<and> st_output y = Some (cursor_json (key, n) (st_next x) (st_ref x)))))"

lemma chainD:
  assumes "chain m" "m (key, n) = Some x"
  shows "0 \<le> n" "n \<le> STEP_LIMIT" "st_status x = StRunning \<Longrightarrow> st_fence x \<noteq> None" "st_status x = StDone \<longleftrightarrow> m (key, n + 1) \<noteq> None"
    "n = 0 \<or> (\<exists>y. m (key, n - 1) = Some y \<and> st_output y = Some (cursor_json (key, n) (st_next x) (st_ref x)))"
  using assms unfolding chain_def by blast+

lemma chain_gap: "chain m \<Longrightarrow> m (key, n + 1) = None \<Longrightarrow> 0 \<le> n \<Longrightarrow> m (key, 2 + n) = None"
  using chainD(5) [of m key "2 + n"] by (cases "m (key, 2 + n)") (auto simp: algebra_simps)

lemma chain_step: "runs_change reopen m m' \<Longrightarrow> chain m \<Longrightarrow> chain m'"
proof (erule runs_changeE, goal_cases)
  case (2 k x s f)
  show ?case unfolding 2(2) chain_def
  proof (intro allI impI, goal_cases)
    case (1 key n y)
    then show ?case using chainD [OF 2(1), of "fst k" "snd k" x] chainD [OF 2(1), of key n] 2(3-)
      by (cases k) (auto split: if_splits)
  qed
next
  case (4 k x kind ref)
  show ?case unfolding 4(2) chain_def
  proof (intro allI impI, goal_cases)
    case (1 key n y)
    then show ?case using chainD [OF 4(1), of "fst k" "snd k" x] chainD [OF 4(1), of key n] chainD [OF 4(1), of key "n - 1"] 4(3-)
        chain_gap [OF 4(1), of "fst k" "snd k"]
      by (cases k) (auto simp: after_def fresh_run_def split: if_splits)
  qed
next
  case (3 k x kind ref)
  then show ?case using chainD(3) [OF 3(1), of "fst k" "snd k" x] by simp
next
  case (5 key0 kind ref)
  have gap: "m (key0, 1) = None" using chainD(5) [OF 5(1), of key0 1] 5(3) by (cases "m (key0, 1)") auto
  show ?case unfolding 5(2) chain_def
  proof (intro allI impI, goal_cases)
    case (1 key n y)
    then show ?case using chainD [OF 5(1), of key n y] gap 5(3-)
      by (auto simp: fresh_run_def STEP_LIMIT_def split: if_splits)
  qed
qed simp

lemma chain_below:
  assumes "chain m" "m (key, int n) \<noteq> None" "j < n"
  shows "\<exists>x. m (key, int j) = Some x \<and> st_status x = StDone"
  using assms(2,3)
proof (induction n)
  case (Suc n)
  then obtain x where "m (key, int (Suc n)) = Some x" by blast
  from chainD(5) [OF assms(1) this] obtain y where y: "m (key, int n) = Some y" by auto
  then have "st_status y = StDone" using chainD(4) [OF assms(1) y] Suc.prems(1) by (simp add: algebra_simps)
  then show ?case using Suc y by (cases "j = n") auto
qed simp

lemma chain_one_open:
  assumes "chain m" "m (key, n) = Some x" "m (key, n') = Some x'" "st_status x \<noteq> StDone" "st_status x' \<noteq> StDone"
  shows "n = n'"
proof -
  have less: False if "n < n'" "m (key, n) = Some x" "m (key, n') = Some x'" "st_status x \<noteq> StDone" for n n' x x'
    using that chain_below [OF assms(1), of key "nat n'" "nat n"] chainD(1) [OF assms(1)] by fastforce
  show ?thesis using less [OF _ assms(2,3,4)] less [OF _ assms(3,2,5)] by (cases n n' rule: linorder_cases) auto
qed

lemma chain_empty: "chain Map.empty"
  by (simp add: chain_def)

lemma chain_history: "step_runs db = [] \<Longrightarrow> chain (run_map (run_ops step_step tr db))"
  by (rule history_preserves [where reopen = True and P = chain]) (simp_all add: chain_empty chain_step)

text \<open>
  C17: in every history of the step protocol that starts without continuations, crashes and recoveries
  included, the revisions of a submission form one chain: a revision is completed exactly when the next one exists,
  every later revision is the cursor that its predecessor recorded as its end, and at most one revision is open.
\<close>
theorem continuation_is_chain:
  assumes "step_runs db = []" "map_of (step_runs (run_ops step_step tr db)) (key, n) = Some x"
  shows "(st_status x = StDone \<longleftrightarrow> map_of (step_runs (run_ops step_step tr db)) (key, n + 1) \<noteq> None)
    \<and> (n = 0 \<or> (\<exists>y. map_of (step_runs (run_ops step_step tr db)) (key, n - 1) = Some y
         \<and> st_output y = Some (cursor_json (key, n) (st_next x) (st_ref x))))
    \<and> \<not> (\<exists>n' x'. n' \<noteq> n \<and> map_of (step_runs (run_ops step_step tr db)) (key, n') = Some x'
         \<and> st_status x \<noteq> StDone \<and> st_status x' \<noteq> StDone)"
  using chainD(4,5) [OF chain_history [OF assms(1)] assms(2)] chain_one_open [OF chain_history [OF assms(1)] assms(2)] by metis

text \<open>
  C21: the continuation of a submission ends.  Whatever the history, a submission never has more than
  \<open>STEP_LIMIT + 1\<close> revisions, so it commits at most \<open>STEP_LIMIT\<close> steps.
\<close>
theorem continuation_ends:
  assumes "step_runs db = []"
  shows "card {n. map_of (step_runs (run_ops step_step tr db)) (key, n) \<noteq> None} \<le> nat STEP_LIMIT + 1"
proof -
  have "{n. run_map (run_ops step_step tr db) (key, n) \<noteq> None} \<subseteq> {0..STEP_LIMIT}"
    using chainD(1,2) [OF chain_history [OF assms]] by fastforce
  then have "card {n. run_map (run_ops step_step tr db) (key, n) \<noteq> None} \<le> card {0..STEP_LIMIT}" by (rule card_mono [rotated]) simp
  then show ?thesis by (simp add: STEP_LIMIT_def)
qed

section \<open>Ends are stable, steps start once\<close>

lemma done_step: "runs_change reopen m m' \<Longrightarrow> m k = Some x \<and> st_status x = StDone \<Longrightarrow> m' k = Some x \<and> st_status x = StDone"
  by (auto elim!: runs_changeE)

lemma not_ready_step: "runs_change False m m' \<Longrightarrow> \<exists>x. m k = Some x \<and> st_status x \<noteq> StReady \<Longrightarrow> \<exists>x. m' k = Some x \<and> st_status x \<noteq> StReady"
  by (auto elim!: runs_changeE)

lemma step_row_at: "map_of (step_runs db) (cursor_key c) = Some x \<Longrightarrow> step_row_of c db = Inr r \<Longrightarrow> r = x"
  by (auto dest: step_row_Inr)

lemma replay_end: "replay e l x db = Inr out' \<Longrightarrow> st_output x = Some out \<Longrightarrow> out' = out"
  by (auto simp: replay_def validate_cursor_def split: if_splits)

lemma commit_run_end:
  assumes "commit_run e c (Some f) l kind task i db = Inr (out, db')"
  shows "\<exists>x. run_map db' (cursor_key c) = Some x \<and> st_status x = StDone \<and> st_output x = Some out"
proof -
  obtain r where row: "step_row_of c db = Inr r" using assms by (auto simp: commit_run_def)
  note r = step_row_Inr [OF row]
  show ?thesis
  proof (cases "st_status r = StDone")
    case True
    with assms row r show ?thesis by (auto simp: commit_run_def replay_def validate_cursor_def split: option.splits if_splits)
  next
    case False
    from commit_open [OF assms row this] obtain ref runs where st: "st_fence r = Some f"
      and ins: "insert_row (after (cursor_key c)) (fresh_run kind ref) (step_runs db) = Some runs"
      and db': "step_runs db' = update_key (cursor_key c) (\<lambda>r. Some f \<noteq> None \<and> st_fence r = Some f)
         (\<lambda>r. r\<lparr>st_status := StDone, st_output := Some out\<rparr>) runs" .
    show ?thesis using r st insert_row_lookup [OF ins] by (simp add: db' tbl)
  qed
qed

lemma commit_at_done:
  assumes "map_of (step_runs db) (cursor_key c) = Some x" "st_status x = StDone" "st_output x = Some out"
    and "commit_run e c f l kind task i db = Inr (out', db')"
  shows "out' = out"
  using assms(4) step_row_at [OF assms(1)] assms(2,3) by (auto simp: commit_run_def dest!: replay_end)

text \<open>
  C20: the end of a step never changes.  Once a commit has answered a cursor, then in
  every later history a commit of the step, a claim of it and a recovery of it answer that cursor or raise; the step
  is never handed out or run to another end.
\<close>
theorem step_end_is_stable:
  assumes "commit_step e c f l kind i db = (Inr out, db1)"
  shows "fst (commit_step e' c f' l' kind' i' (run_ops step_step tr db1)) \<in> insert (Inr out) (range Inl)
    \<and> fst (claim_step e' c l' f' (run_ops step_step tr db1)) \<in> insert (Inr (Inr out)) (range Inl)
    \<and> fst (recover_step e' show c l' i' (run_ops step_step tr db1)) \<in> insert (Inr out) (range Inl)"
proof -
  let ?db = "run_ops step_step tr db1"
  obtain x where x0: "run_map db1 (cursor_key c) = Some x" "st_status x = StDone" "st_output x = Some out"
    using assms by (auto simp: commit_step_def txn_Inr split: if_splits dest!: commit_run_end)
  have x: "run_map ?db (cursor_key c) = Some x" "st_status x = StDone" "st_output x = Some out"
    using history_preserves [where reopen = True and P = "\<lambda>m. m (cursor_key c) = Some x \<and> st_status x = StDone" and tr = tr and db = db1]
      x0 done_step by auto
  note at = step_row_at [OF x(1)]
  have a: "fst (commit_step e' c f' l' kind' i' ?db) = Inr y \<Longrightarrow> y = out" for y
    by (auto simp: commit_step_def txn_def split: if_splits sum.splits prod.splits dest!: commit_at_done [OF x])
  have b: "fst (claim_step e' c l' f' ?db) = Inr y \<Longrightarrow> y = Inr out" for y
    using x(2,3) by (auto simp: claim_step_def txn_def split: if_splits sum.splits dest!: at replay_end)
  have d: "fst (recover_step e' show c l' i' ?db) = Inr y \<Longrightarrow> y = out" for y
    using x step_row_Inr [of c ?db] by (auto simp: recover_step_def txn_def split: if_splits sum.splits dest!: replay_end)
  have "r \<in> insert (Inr z) (range Inl)" if "\<And>y. r = Inr y \<Longrightarrow> y = z" for r :: "'q result" and z
    using that by (cases r) auto
  then show ?thesis using a b d by (metis insertCI)
qed

lemma not_ready_history:
  assumes "\<exists>x. run_map db k = Some x \<and> st_status x \<noteq> StReady" "\<And>t a. (t, a) \<in> set tr \<Longrightarrow> \<not> recovers a"
  shows "\<exists>x. run_map (run_ops step_step tr db) k = Some x \<and> st_status x \<noteq> StReady"
  by (rule history_preserves [where reopen = False and P = "\<lambda>m. \<exists>x. m k = Some x \<and> st_status x \<noteq> StReady", OF assms(1)])
    (simp add: assms(2), erule not_ready_step)

lemma claimed_run:
  assumes "claim_step e c l f db = (Inr (Inl f0), db1)"
  shows "\<exists>x. run_map db (cursor_key c) = Some x \<and> st_status x = StReady"
    and "\<exists>x. run_map db1 (cursor_key c) = Some x \<and> st_status x = StRunning"
  using assms by (auto simp: claim_step_def txn_Inr set_step_map split: sum.splits if_splits dest!: step_row_Inr)

text \<open>
  C18: a step is handed out once.  After a claim has answered a fence, no claim of the step
  answers a fence again in any history in which no recovery runs: lost workers, repeated deliveries, human answers and
  whatever the other components write do not start a step twice.
\<close>
theorem step_starts_once:
  assumes "claim_step e c l f db = (Inr (Inl f0), db1)" "\<not> (\<exists>(t, a) \<in> set tr. recovers a)"
  shows "fst (claim_step e' c l' f' (run_ops step_step tr db1)) \<noteq> Inr (Inl f1)"
proof
  assume "fst (claim_step e' c l' f' (run_ops step_step tr db1)) = Inr (Inl f1)"
  then have "claim_step e' c l' f' (run_ops step_step tr db1) = (Inr (Inl f1), snd (claim_step e' c l' f' (run_ops step_step tr db1)))"
    by (simp add: prod_eq_iff)
  from claimed_run(1) [OF this] obtain x where x: "run_map (run_ops step_step tr db1) (cursor_key c) = Some x" "st_status x = StReady" by blast
  have "\<exists>x. run_map (run_ops step_step tr db1) (cursor_key c) = Some x \<and> st_status x \<noteq> StReady"
    by (rule not_ready_history) (use claimed_run(2) [OF assms(1)] assms(2) in auto)
  with x show False by simp
qed

lemma phase_operation_phases:
  "phase_operation show p s = Inr op \<Longrightarrow> p \<in> {''model_pending'', ''evaluation_pending'', ''temporal_pending''}"
  by (auto simp: phase_operation_def split: if_splits)

lemma recover_running_cases:
  assumes "recover_running e show c l i r task db = Inr (out, db1)"
  obtains f kind t db' where "step_runs db' = step_runs db" "commit_run e c f l kind t i db' = Inr (out, db1)"
  | op where "phase_operation show (phase task) (jt_doc (checkpoint_doc task)) = Inr op"
      "case op of None \<Rightarrow> True | Some s \<Rightarrow> (case map_of (ledger_rows db) (op_key l s) of None \<Rightarrow> True | Some q \<Rightarrow> op_state q = OpPrepared)"
      "out = c"
proof -
  note thesis1 = that(1) and thesis2 = that(2)
  have last: thesis if "bind_result (phase_operation show (phase task) (jt_doc (checkpoint_doc task))) (\<lambda>op.
       if (case op of None \<Rightarrow> False | Some s \<Rightarrow> (case map_of (ledger_rows db) (op_key l s) of None \<Rightarrow> False | Some q \<Rightarrow> op_state q \<noteq> OpPrepared))
       then Inl x else Inr (c, y)) = Inr (out, db1)" for x and y :: step_db
    using that by (elim bind_resultE) (rule thesis2, auto split: if_splits option.splits)
  have mid: thesis if "bind_result (next_kind p saved) (\<lambda>kind. commit_run e c f l kind t i (set_task_row ow k g db)) = Inr (out, db1)" for p saved f t ow k g
    using that by (elim bind_resultE) (rule thesis1 [of "set_task_row ow k g db"], simp_all)
  show thesis using assms unfolding recover_running_def Let_def
    by (auto split: if_splits simp del: bind_result_Inr intro: thesis1 elim!: last mid)
qed

lemma commit_not_ready:
  assumes "commit_run e c f l kind task i db = Inr (out, db')" "run_map db (cursor_key c) = Some r" "st_status r \<noteq> StReady"
  shows "\<not> (\<exists>x. run_map db' (cursor_key c) = Some x \<and> st_status x = StReady)"
proof -
  have "(runs_change False)\<^sup>*\<^sup>* (run_map db) (run_map db')" using commit_change [OF assms(1)] by (simp add: change_star_def)
  then have "\<exists>x. run_map db' (cursor_key c) = Some x \<and> st_status x \<noteq> StReady"
    by (induction rule: rtranclp_induct) (use assms(2,3) in \<open>auto dest: not_ready_step\<close>)
  then show ?thesis by auto
qed

text \<open>
  C19: a started step becomes ready again only before its effect.  When a recovery reopens
  a running step, the task was saved before a model call, an evaluation or the claim, the operation of that phase has no
  row in the ledger or is only prepared, and until the step is claimed again no commit of it succeeds, so the lost
  worker cannot end it.
\<close>
theorem recovery_reopens_before_effects:
  assumes "recover_step e show c l i db = (Inr out, db1)"
    and "map_of (step_runs db) (cursor_key c) = Some r" "st_status r = StRunning"
    and "map_of (step_runs db1) (cursor_key c) = Some r1" "st_status r1 = StReady"
  shows "\<exists>task op. map_of (tasks db) (lg_owner l, lg_task l) = Some task
    \<and> phase task \<in> {''model_pending'', ''evaluation_pending'', ''temporal_pending''}
    \<and> phase_operation show (phase task) (jt_doc (checkpoint_doc task)) = Inr op
    \<and> (case op of None \<Rightarrow> True | Some s \<Rightarrow> (case map_of (ledger_rows db) (op_key l s) of None \<Rightarrow> True | Some q \<Rightarrow> op_state q = OpPrepared))
    \<and> out = c \<and> fst (commit_step e' c f' l' kind i' db1) \<notin> range Inr"
proof -
  obtain task where task: "get_task db (lg_owner l) (lg_task l) = Inr task" and run: "recover_running e show c l i r task db = Inr (out, db1)"
    using assms(1-3) by (auto simp: recover_step_def txn_Inr split: sum.splits if_splits dest!: step_row_Inr)
  have no_commit: "commit_run e c f l k t j db' \<noteq> Inr (out, db1)" if "step_runs db' = step_runs db" for f k t j db'
    using commit_not_ready [of e c f l k t j db' out db1 r] assms(2-5) that by auto
  have stale: "commit_step e' c f' l' kind i' db1 \<noteq> (Inr y, db2)" for y db2
    using step_row_at [OF assms(4)] assms(5) by (auto simp: commit_step_def commit_run_def txn_Inr split: if_splits)
  have "fst (commit_step e' c f' l' kind i' db1) \<notin> range Inr"
    using stale [of _ "snd (commit_step e' c f' l' kind i' db1)"] by (auto simp: prod_eq_iff)
  note stale' = this
  have row: "map_of (tasks db) (lg_owner l, lg_task l) = Some task" using task by (auto simp: get_task_def split: option.splits)
  show ?thesis using run
  proof (cases rule: recover_running_cases)
    case (1 f kind t db')
    then show ?thesis using no_commit by blast
  next
    case (2 op)
    then show ?thesis using row phase_operation_phases [OF 2(1)] stale' by blast
  qed
qed

end
