(* ===== verification/Step_Examples.thy ===== *)
theory Step_Examples
  imports Step_Properties Ledger_Properties
begin

text \<open>
  A submission that bootstraps, claims its first step and commits it, and one whose step is recovered before its
  effect: the runs at which the properties of \<open>Step_Properties\<close> are applied.
\<close>

definition demo_key :: pystr where "demo_key = replicate 32 (CHR ''c'')"

definition demo_saved :: json where
  "demo_saved = JObj [(''messages'', JArr []), (''next_kind'', JStr ''model'')]"

definition demo_step_task :: "pystr \<Rightarrow> task_row" where
  "demo_step_task p = demo_task_row\<lparr>phase := p, checkpoint_doc := canonical_text demo_saved\<rparr>"

definition demo_snap :: "pystr \<Rightarrow> json" where
  "demo_snap p = JObj [(''schema_version'', JInt 1), (''phase'', JStr p), (''checkpoint'', demo_saved),
     (''task_state'', JStr ''pending''), (''reply'', JNull)]"

definition demo_snap_bytes :: "pystr \<Rightarrow> nat" where "demo_snap_bytes p = jtext_bytes (canonical_text (demo_snap p))"

lemma demo_snap_bytes_ready: "demo_snap_bytes ''step_ready'' \<le> 200"
  by code_simp
lemma demo_snap_bytes_pending: "demo_snap_bytes ''temporal_pending'' \<le> 200"
  by code_simp
lemma demo_snap_valid:
  "validate_snapshot (demo_snap ''step_ready'') = Inr (demo_snap ''step_ready'')"
  "validate_snapshot (demo_snap ''temporal_pending'') = Inr (demo_snap ''temporal_pending'')"
  "validate_snapshot (sort_keys (demo_snap ''step_ready'')) = Inr (sort_keys (demo_snap ''step_ready''))"
  "validate_snapshot (sort_keys (demo_snap ''temporal_pending'')) = Inr (sort_keys (demo_snap ''temporal_pending''))"
  by code_simp+

definition demo_step_ledger :: ledger where
  "demo_step_ledger = demo_ledger\<lparr>lg_key := demo_key\<rparr>"

definition demo_step_env :: step_env where
  "demo_step_env = \<lparr>se_env = \<lparr>now = 1, activity = None, task_limit = 10, task_storage_bytes = 100000\<rparr>, se_ledger = demo_ledger_env, se_scope = demo_scope\<rparr>"

definition demo_ref :: "pystr \<Rightarrow> pystr \<Rightarrow> reference" where
  "demo_ref i p = \<lparr>ref_id = i, ref_sha = sha256 (canonical (demo_snap p)), ref_bytes = int (demo_snap_bytes p)\<rparr>"

definition demo_artifact :: "pystr \<Rightarrow> pystr \<Rightarrow> artifact" where
  "demo_artifact i p = \<lparr>art_owner = ''o'', art_task = ''k'', art_sha = ref_sha (demo_ref i p), art_bytes = ref_bytes (demo_ref i p),
     art_data = canonical_text (demo_snap p)\<rparr>"

definition demo_steps :: "pystr \<Rightarrow> (pystr, artifact) table \<Rightarrow> (pystr \<times> int, step_run) table \<Rightarrow> step_db" where
  "demo_steps p arts runs = ledger_db.extend (demo_ledger_db\<lparr>submissions := [(demo_key, demo_sub_row)], tasks := [((''o'', ''k''), demo_step_task p)],
     artifacts := arts\<rparr>) (step_db.fields runs [])"

definition demo_cursor :: "pystr \<Rightarrow> json" where
  "demo_cursor p = cursor_json (demo_key, 0) ''model'' (reference_json (demo_ref id_a p))"

abbreviation demo_phases :: "pystr set" where
  "demo_phases \<equiv> {''step_ready'', ''temporal_pending''}"

lemma demo_steps_simps [simp]:
  "step_runs (demo_steps p arts runs) = runs" "artifacts (demo_steps p arts runs) = arts" "human_answers (demo_steps p arts runs) = []"
  "demo_steps p arts runs\<lparr>step_runs := runs'\<rparr> = demo_steps p arts runs'" "demo_steps p arts runs\<lparr>artifacts := arts'\<rparr> = demo_steps p arts' runs"
  "tasks (demo_steps p arts runs) = [((''o'', ''k''), demo_step_task p)]"
  "lg_key demo_step_ledger = demo_key" "lg_owner demo_step_ledger = ''o''" "lg_task demo_step_ledger = ''k''"
  by (simp_all add: demo_steps_def ledger_db.defs step_db.defs demo_step_ledger_def)

lemma demo_steps_scope [simp]: "ledger_scope demo_scope active demo_step_ledger (demo_steps p arts runs) = Inr ()"
  by (simp add: ledger_scope_def demo_scope_def demo_step_ledger_def demo_ledger_def demo_steps_def ledger_db.defs step_db.defs
      demo_ledger_db_def temporal_db.defs
      budget_db.defs task_db.defs empty_db_def demo_sub_row_def demo_task_row_def demo_step_task_def live_states_def
      scope_workspace_def py_index_def assert_owner_active_def owner_blocked_def)

lemma demo_snapshot [simp]: "p \<in> demo_phases \<Longrightarrow> snapshot_of (demo_step_task p) = Inr (demo_snap p)"
  using demo_snap_valid by (auto simp: snapshot_of_def demo_step_task_def demo_task_row_def task_state_name_def demo_snap_def canonical_text_def
     demo_saved_def)

lemma demo_sizes: "p \<in> demo_phases \<Longrightarrow> demo_snap_bytes p \<le> 200"
  using demo_snap_bytes_ready demo_snap_bytes_pending by auto

lemma demo_put:
  assumes "p \<in> demo_phases" "i \<notin> fst ` set arts" "column_sum artifact_bytes arts \<le> 5000"
  shows "put_artifact demo_step_env demo_step_ledger i (demo_snap p) (demo_steps p arts runs)
    = Inr (reference_json (demo_ref i p), demo_steps p (arts @ [(i, demo_artifact i p)]) runs)"
proof -
  have m: "map_of arts i = None" using assms(2) by (simp add: map_of_eq_None_iff)
  have "ledger_rows (demo_steps p arts runs) = []"
    by (simp add: ledger_rows_def demo_steps_def ledger_db.defs step_db.defs)
  moreover have "make_artifact demo_ledger_env i (demo_snap p) = Inr (demo_ref i p, canonical_text (demo_snap p))"
    using demo_sizes [OF assms(1)]
    by (simp add: make_artifact_def demo_ledger_env_def positive_limit_def demo_ref_def demo_snap_bytes_def Let_def)
  ultimately show ?thesis using demo_sizes [OF assms(1)] assms(3) m
    by (simp add: put_artifact_def demo_step_env_def ledger_capacity_def ledger_used_def positive_limit_def demo_snap_bytes_def demo_ledger_env_def
        insert_artifact_def insert_row_def demo_artifact_def byte_len_def demo_ref_def)
qed

lemma demo_load:
  assumes "p \<in> demo_phases" "map_of arts i = Some (demo_artifact i p)" "py_len i = 32"
  shows "load demo_scope demo_step_ledger (reference_json (demo_ref i p)) (demo_steps p arts runs) = Inr (sort_keys (demo_snap p))"
  using assms(2,3)
  by (simp add: load_def reference_json_def has_keys_def jget_def demo_ref_def demo_artifact_def py_len_sha256 canonical_text_def canonical_def
      Let_def demo_snap_bytes_def jtext_bytes_def json_bytes_def)

lemma demo_ids: "py_len id_a = 32" "py_len id_b = 32" "id_a \<noteq> id_b" "hex_text 32 id_a" "hex_text 32 id_b" "hex_text 32 demo_key"
  by code_simp+

lemma demo_cursor_valid:
  assumes "p \<in> demo_phases" "i \<in> {id_a, id_b}" "n \<in> {0, 1}"
  shows "validate_cursor (cursor_json (demo_key, n) ''model'' (reference_json (demo_ref i p)))
    = Inr (cursor_json (demo_key, n) ''model'' (reference_json (demo_ref i p)))"
  using assms demo_ids demo_sizes [OF assms(1)] sha256_hex
  by (auto simp: validate_cursor_def cursor_json_def has_keys_def jget_def int_between_def STEP_LIMIT_def one_of_def validate_envelope_def
      envelope_of_def hex_field_def validate_reference_def reference_json_def demo_ref_def)

lemma demo_bootstrap:
  assumes "p \<in> demo_phases"
  shows "bootstrap demo_step_env demo_key demo_sub_row demo_step_ledger id_a (demo_steps p [] [])
    = (Inr (demo_cursor p), demo_steps p [(id_a, demo_artifact id_a p)] [((demo_key, 0), fresh_run ''model'' (reference_json (demo_ref id_a p)))])"
proof -
  have sc: "se_scope demo_step_env = demo_scope" by (simp add: demo_step_env_def)
  have task: "get_task (demo_steps p [] []) (sub_owner demo_sub_row) (sub_task demo_sub_row) = Inr (demo_step_task p)"
    by (simp add: get_task_def demo_sub_row_def)
  have st: "tstate (demo_step_task p) = Pending" by (simp add: demo_step_task_def demo_task_row_def)
  show ?thesis using assms
    by (simp add: bootstrap_def sc task st demo_put make_cursor_def demo_cursor_valid Let_def fresh_run_def demo_cursor_def)
qed

definition demo_step_run :: "pystr \<Rightarrow> step_status \<Rightarrow> token option \<Rightarrow> step_run" where
  "demo_step_run p st f = (fresh_run ''model'' (reference_json (demo_ref id_a p)))\<lparr>st_status := st, st_fence := f\<rparr>"

abbreviation demo_at :: "pystr \<Rightarrow> step_status \<Rightarrow> token option \<Rightarrow> step_db" where
  "demo_at p st f \<equiv> demo_steps p [(id_a, demo_artifact id_a p)] [((demo_key, 0), demo_step_run p st f)]"

lemma demo_step_row:
  assumes "p \<in> demo_phases" "map_of runs (demo_key, 0) = Some (demo_step_run p st f)"
  shows "step_row_of (demo_cursor p) (demo_steps p arts runs) = Inr (demo_step_run p st f)"
proof -
  have "cursor_key (demo_cursor p) = (demo_key, 0)" "jget (demo_cursor p) ''next_kind'' = JStr ''model''"
    "jget (demo_cursor p) ''state_ref'' = reference_json (demo_ref id_a p)"
    by (simp_all add: cursor_key_def demo_cursor_def cursor_json_def jget_def)
  then show ?thesis using assms demo_cursor_valid [OF assms(1), of id_a 0]
    by (simp add: step_row_of_def demo_cursor_def demo_step_run_def fresh_run_def)
qed

lemma demo_own:
  assumes "p \<in> demo_phases" "map_of arts id_a = Some (demo_artifact id_a p)"
  shows "own_snapshot demo_step_env demo_step_ledger (demo_cursor p) (demo_steps p arts runs) = Inr (sort_keys (demo_snap p))"
proof -
  have "jget (demo_cursor p) ''submission_id'' = JStr demo_key" "jget (demo_cursor p) ''state_ref'' = reference_json (demo_ref id_a p)"
    by (simp_all add: demo_cursor_def cursor_json_def jget_def)
  then show ?thesis using assms demo_snap_valid demo_ids
    by (auto simp: own_snapshot_def demo_step_env_def demo_load)
qed

lemma demo_cursor_at [simp]: "cursor_key (demo_cursor p) = (demo_key, 0)" "jget (demo_cursor p) ''submission_id'' = JStr demo_key"
  by (simp_all add: cursor_key_def demo_cursor_def cursor_json_def jget_def)

lemma demo_step_claim:
  assumes "p \<in> demo_phases"
  shows "claim_step demo_step_env (demo_cursor p) demo_step_ledger ''f1'' (demo_at p StReady None)
    = (Inr (Inl ''f1''), demo_at p StRunning (Some ''f1''))"
proof -
  have sc: "se_scope demo_step_env = demo_scope" by (simp add: demo_step_env_def)
  have row: "step_row_of (demo_cursor p) (demo_at p StReady None) = Inr (demo_step_run p StReady None)"
    by (rule demo_step_row [OF assms]) simp
  show ?thesis using assms
    by (simp add: claim_step_def demo_own sc row STEP_LIMIT_def)
      (simp add: set_step_def update_key_def demo_step_run_def fresh_run_def)
qed

lemma demo_recover:
  "recover_step demo_step_env (\<lambda>_. []) (demo_cursor ''temporal_pending'') demo_step_ledger id_b (demo_at ''temporal_pending'' StRunning (Some ''f1''))
    = (Inr (demo_cursor ''temporal_pending''), set_task_row ''o'' ''k'' reopen_task (demo_at ''temporal_pending'' StReady None))"
proof -
  let ?p = "''temporal_pending''" and ?db = "demo_at ''temporal_pending'' StRunning (Some ''f1'')"
  have p: "?p \<in> demo_phases" by simp
  have sc: "se_scope demo_step_env = demo_scope" by (simp add: demo_step_env_def)
  have row: "step_row_of (demo_cursor ?p) ?db = Inr (demo_step_run ?p StRunning (Some ''f1''))"
    by (rule demo_step_row [OF p]) simp
  have task: "get_task ?db ''o'' ''k'' = Inr (demo_step_task ?p)" by (simp add: get_task_def)
  have st: "tstate (demo_step_task ?p) = Pending" "phase (demo_step_task ?p) = ?p" by (simp_all add: demo_step_task_def demo_task_row_def)
  have status: "st_status (demo_step_run ?p StRunning (Some ''f1'')) = StRunning" by (simp add: demo_step_run_def)
  have set: "set_step (demo_key, 0) (\<lambda>r. r\<lparr>st_status := StReady, st_fence := None\<rparr>) ?db = demo_at ?p StReady None"
    by (simp add: set_step_def update_key_def demo_step_run_def fresh_run_def)
  show ?thesis
    by (simp add: recover_step_def demo_own sc row task status recover_running_def Let_def st phase_operation_def set)
qed

abbreviation demo_done :: step_db where
  "demo_done \<equiv> demo_steps ''step_ready'' [(id_a, demo_artifact id_a ''step_ready''), (id_b, demo_artifact id_b ''step_ready'')]
     [((demo_key, 0), (demo_step_run ''step_ready'' StDone (Some ''f1''))\<lparr>st_output :=
         Some (cursor_json (demo_key, 1) ''model'' (reference_json (demo_ref id_b ''step_ready'')))\<rparr>),
      ((demo_key, 1), fresh_run ''model'' (reference_json (demo_ref id_b ''step_ready'')))]"

lemma demo_commit:
  "commit_step demo_step_env (demo_cursor ''step_ready'') ''f1'' demo_step_ledger ''model'' id_b (demo_at ''step_ready'' StRunning (Some ''f1''))
    = (Inr (cursor_json (demo_key, 1) ''model'' (reference_json (demo_ref id_b ''step_ready''))), demo_done)"
proof -
  let ?p = "''step_ready''" and ?db = "demo_at ''step_ready'' StRunning (Some ''f1'')"
  have p: "?p \<in> demo_phases" by simp
  have sc: "se_scope demo_step_env = demo_scope" by (simp add: demo_step_env_def)
  have row: "step_row_of (demo_cursor ?p) ?db = Inr (demo_step_run ?p StRunning (Some ''f1''))"
    by (rule demo_step_row [OF p]) simp
  have task: "get_task ?db ''o'' ''k'' = Inr (demo_step_task ?p)" by (simp add: get_task_def)
  have status: "st_status (demo_step_run ?p StRunning (Some ''f1'')) = StRunning" "st_fence (demo_step_run ?p StRunning (Some ''f1'')) = Some ''f1''"
    by (simp_all add: demo_step_run_def)
  have doc: "jt_doc (checkpoint_doc (demo_step_task ?p)) = sort_keys demo_saved" by (simp add: demo_step_task_def canonical_text_def)
  have "next_kind ?p (sort_keys demo_saved) = Inr ''model''" by code_simp
  then have bd: "boundary_ok ''model'' (demo_step_task ?p) = Inr ()"
    unfolding boundary_ok_def doc by (simp add: demo_step_task_def demo_task_row_def)
  have put: "put_artifact demo_step_env demo_step_ledger id_b (demo_snap ?p) ?db
    = Inr (reference_json (demo_ref id_b ?p), demo_steps ?p ([(id_a, demo_artifact id_a ?p)] @ [(id_b, demo_artifact id_b ?p)])
        [((demo_key, 0), demo_step_run ?p StRunning (Some ''f1''))])"
    using demo_ids(3) demo_sizes [OF p] by (intro demo_put [OF p]) (auto simp: artifact_bytes_def demo_artifact_def demo_ref_def demo_snap_bytes_def byte_len_def)
  show ?thesis
    by (simp add: commit_step_def commit_run_def sc row task status bd STEP_LIMIT_def put make_cursor_def demo_cursor_valid [OF p] Let_def
        insert_row_def)
      (simp add: update_key_def demo_step_run_def fresh_run_def)
qed

definition demo_step_history :: "(time \<times> step_call) list" where
  "demo_step_history = [(1, SBootstrap demo_step_env demo_key demo_sub_row demo_step_ledger id_a),
     (2, SClaim demo_step_env (demo_cursor ''step_ready'') demo_step_ledger ''f1''),
     (3, SCommit demo_step_env (demo_cursor ''step_ready'') ''f1'' demo_step_ledger ''model'' id_b)]"

lemma demo_step_history_runs: "run_ops step_step demo_step_history (demo_steps ''step_ready'' [] []) = demo_done"
proof -
  have boot: "bootstrap demo_step_env demo_key demo_sub_row demo_step_ledger id_a (demo_steps ''step_ready'' [] [])
      = (Inr (demo_cursor ''step_ready''), demo_at ''step_ready'' StReady None)"
    using demo_bootstrap [of "''step_ready''"] by (simp add: demo_step_run_def fresh_run_def)
  show ?thesis by (simp only: demo_step_history_def run_ops.simps step_step.simps boot snd_conv demo_commit demo_step_claim [of "''step_ready''", simplified])
qed

abbreviation demo_chain :: "(pystr \<times> int, step_run) table" where
  "demo_chain \<equiv> step_runs (run_ops step_step demo_step_history (demo_steps ''step_ready'' [] []))"

theorem continuation_is_chain_witness:
  "map_of demo_chain (demo_key, 1) = Some (fresh_run ''model'' (reference_json (demo_ref id_b ''step_ready'')))
    \<and> map_of demo_chain (demo_key, 2) = None
    \<and> (\<exists>y. map_of demo_chain (demo_key, 0) = Some y
         \<and> st_output y = Some (cursor_json (demo_key, 1) ''model'' (reference_json (demo_ref id_b ''step_ready''))))
    \<and> \<not> (\<exists>n' x'. n' \<noteq> 1 \<and> map_of demo_chain (demo_key, n') = Some x' \<and> st_status x' \<noteq> StDone)"
proof -
  let ?ref = "reference_json (demo_ref id_b ''step_ready'')"
  have at: "map_of demo_chain (demo_key, 1) = Some (fresh_run ''model'' ?ref)"
    by (simp add: demo_step_history_runs)
  have x: "st_status (fresh_run ''model'' ?ref) = StReady" "st_next (fresh_run ''model'' ?ref) = ''model''"
    "st_ref (fresh_run ''model'' ?ref) = ?ref"
    by (simp_all add: fresh_run_def)
  have none: "step_runs (demo_steps ''step_ready'' [] []) = []" by simp
  from continuation_is_chain [OF none at, unfolded x] at show ?thesis by simp
qed

theorem continuation_ends_witness:
  "card {n. map_of (step_runs demo_done) (demo_key, n) \<noteq> None} \<le> nat STEP_LIMIT + 1"
  using continuation_ends [of "demo_steps ''step_ready'' [] []" demo_step_history demo_key] by (simp only: demo_step_history_runs demo_steps_simps)

theorem step_end_is_stable_witness:
  "fst (claim_step demo_step_env (demo_cursor ''step_ready'') demo_step_ledger ''f2''
      (run_ops step_step [(4, SHuman demo_step_env (demo_cursor ''step_ready'') demo_step_ledger ''f3'' id_a)] demo_done))
    \<in> insert (Inr (Inr (cursor_json (demo_key, 1) ''model'' (reference_json (demo_ref id_b ''step_ready''))))) (range Inl)"
  using step_end_is_stable [OF demo_commit] by blast

theorem step_starts_once_witness:
  "fst (claim_step demo_step_env (demo_cursor ''step_ready'') demo_step_ledger ''f2''
      (run_ops step_step [(3, SCommit demo_step_env (demo_cursor ''step_ready'') ''f1'' demo_step_ledger ''model'' id_b)]
        (demo_at ''step_ready'' StRunning (Some ''f1'')))) \<noteq> Inr (Inl ''f2'')"
  by (rule step_starts_once [OF demo_step_claim]) simp_all

theorem recovery_reopens_before_effects_witness:
  "fst (commit_step demo_step_env (demo_cursor ''temporal_pending'') ''f1'' demo_step_ledger ''model'' id_b
      (set_task_row ''o'' ''k'' reopen_task (demo_at ''temporal_pending'' StReady None))) \<notin> range Inr"
proof -
  let ?r = "demo_step_run ''temporal_pending'' StRunning (Some ''f1'')" and ?r1 = "demo_step_run ''temporal_pending'' StReady None"
  have "map_of (step_runs (demo_at ''temporal_pending'' StRunning (Some ''f1''))) (cursor_key (demo_cursor ''temporal_pending'')) = Some ?r"
    "st_status ?r = StRunning"
    "map_of (step_runs (set_task_row ''o'' ''k'' reopen_task (demo_at ''temporal_pending'' StReady None))) (cursor_key (demo_cursor ''temporal_pending''))
      = Some ?r1"
    "st_status ?r1 = StReady"
    by (simp_all add: demo_step_run_def fresh_run_def)
  from recovery_reopens_before_effects [OF demo_recover this, of demo_step_env "''f1''" demo_step_ledger "''model''" id_b]
  show ?thesis by blast
qed

end
