(* ===== verification/Spec2Isabelle.thy ===== *)
theory Spec2Isabelle
  imports Task_Properties Permissions Redaction Hooks Budget_Properties Submission_Properties
    Ledger_Properties Approval_Properties Acceptance Contracts Scheduler_Properties
    Schedule_Migration Memory_Properties Memory_Job_Properties Forgetting Vector_Search
    Communication_Properties
    Outbox Coordinator_Effects Dag_Properties Dag_Snapshot Retrieval_Properties Memory_Review_Properties
    Working_Memory Step_Examples
begin

text \<open>
  A verification development of the durable core of the agent: the stores that decide which work runs,
  which effect is repeated, what is remembered and what is sent.

  \<^bold>\<open>The program.\<close>  Chat messages, schedules and HTTP clients become tasks.  A task is leased to a worker,
  charged to a budget, may wait for a human approval, may be handed to Temporal, and ends with a reply.
  Every step of this is a transaction on a SQLite database: the task database (\<open>AGENT_TASK_DB\<close>), the
  approvals, the schedules, the long-term memory and the communication database.  Processes and threads
  meet only in these databases, so a history of the program is a sequence of such transactions, in any
  order and with any arguments.  The development models each transaction as a function from the tables
  (and the clock, the fresh identifiers and the configured limits, which are arguments) to a result and
  new tables, and proves properties of all histories.

  \<^bold>\<open>Foundations.\<close>
  \<^item> \<open>Prelude\<close>: Python strings as UTF-8 bytes, exceptions as a datatype, transactions that roll back.
  \<^item> \<open>Sql\<close>: SQLite tables as association lists in row order, with the statements the code uses.
  \<^item> \<open>Json\<close>, \<open>PyText\<close>, \<open>Sha256\<close>: JSON values and their serializer, string operations, SHA-256 on words.
  \<^item> \<open>Leases\<close>: the locales \<open>lease_store\<close> and \<open>fenced_store\<close>; a token that lost its lease never acts again.
    Interpreted on tasks, scheduled jobs, memory jobs and collaboration nodes.
  \<^item> \<open>Simulation\<close>: the locale of data refinement, interpreted on the command jobs and the event outbox.

  \<^bold>\<open>Components.\<close>
  \<^item> \<open>Database\<close>, \<open>Tasks\<close>, \<open>Task_Cancellation\<close>, \<open>Task_Machine\<close>, \<open>Task_Properties\<close>: \<open>agent_execution/tasks.py\<close>
    and what a cancellation does to the other tables.  A stale worker has no effect, one worker owns a task,
    a finished task is final, uncertain effects are never repeated, storage stays bounded, a verified
    completion has its evidence.
  \<^item> \<open>Budgets\<close>, \<open>Budget_Properties\<close>: \<open>budgets.py\<close>.  Counters are the exact sums of the calls, reservations
    respect every limit, limits survive a restart.
  \<^item> \<open>Acceptance\<close>: \<open>acceptance.py\<close>.  Completion follows from what was observed in the workspace.
  \<^item> \<open>Submissions\<close>, \<open>Submission_Properties\<close>: \<open>temporal_backend/store.py\<close>.  One submission per task, started once.
  \<^item> \<open>Ledger\<close>, \<open>Ledger_Properties\<close>: \<open>temporal_backend/ledger.py\<close>.  A step takes effect at most once, a
    completed one replays its result.
  \<^item> \<open>Step_Store\<close>, \<open>Step_Properties\<close>, \<open>Step_Examples\<close>: \<open>temporal_backend/step_store.py\<close>, \<open>decisions.py\<close>,
    \<open>turn_control/continuation.py\<close>.  The continuation of a task is one chain of revisions that ends; a step is
    handed out once, its end never changes, and a recovery reopens it only before its effect.
  \<^item> \<open>Contracts\<close>: \<open>temporal_backend/contracts.py\<close>, \<open>admission.py\<close>.
  \<^item> \<open>Approvals\<close>, \<open>Approval_Properties\<close>: \<open>approvals.py\<close>, \<open>approval_outbox.py\<close>.  A grant is used once, after a
    human decision.
  \<^item> \<open>Scheduler\<close>, \<open>Scheduler_Properties\<close>: \<open>scheduling/store.py\<close>.  Run and retry limits hold, a migrated
    occurrence runs once.
  \<^item> \<open>Schedule_Migration\<close>: \<open>temporal_backend/schedule_migration.py\<close>, the transactions that move a job to Temporal and
    back.  A job that lost a possibly effectful run never starts again unless a roll-back of its migration restores
    it, and a lemma shows that history.
  \<^item> \<open>Memory_Store\<close>, \<open>Memory_Properties\<close>, \<open>Memory_Jobs\<close>, \<open>Memory_Job_Properties\<close>: \<open>memory.py\<close>,
    \<open>agent_execution/memory_jobs\<close>, the cool-down and embedding job of \<open>memory_worker.py\<close>.  Entities keep
    their identity, a finalization is committed once, a deleted conversation is sealed (a supersession is
    the exception, which a theorem shows), recovery closes exactly the jobs it may and never replays one.
  \<^item> \<open>Forgetting\<close>: \<open>forgetting.py\<close>.  What a pass leaves behind is consistent and confident enough.
  \<^item> \<open>Vector_Search\<close>: \<open>vector_search.py\<close>.  The search respects its limit and its budget of remote calls.
  \<^item> \<open>Retrieval\<close>, \<open>Retrieval_Properties\<close>, \<open>Working_Memory\<close>: \<open>retrieval.py\<close>, \<open>working_memory.py\<close>.  A turn is
    shown only live, uncontradicted memories, grouping loses none, injection and compaction keep the other
    messages (a theorem shows when compaction makes a conversation longer).
  \<^item> \<open>Memory_Review\<close>, \<open>Memory_Review_Properties\<close>: \<open>memory_review.py\<close>, \<open>memory_update.py\<close>,
    \<open>semantic_extractor.py\<close>, \<open>procedure_similarity.py\<close>.  A review writes no fact twice, a new value replaces the
    old one, the lexical matcher finds a best procedure.
  \<^item> \<open>Communication\<close>, \<open>Communication_Properties\<close>: \<open>communication_store.py\<close> and
    \<open>workspace_lifecycle/communication.py\<close>.  Command jobs refine an automaton of phases, a durable reply is
    sent at most once, a platform event is ingested once, an erased session stays sealed; a theorem shows
    the one way a job blocks the deletion of its session.
  \<^item> \<open>Outbox\<close>: \<open>agent_execution/delivery.py\<close>.  What a websocket client can replay is a gapless window of
    numbered messages, an identity is stored once, an accepted input is not run twice.
  \<^item> \<open>Coordinator\<close>, \<open>Coordinator_Machine\<close>, \<open>Coordinator_Properties\<close>, \<open>Coordinator_Effects\<close>:
    \<open>agent_execution/coordinator.py\<close>, \<open>review_result\<close> of \<open>coordinator_worker.py\<close> and the admission of
    \<open>temporal_backend/dag.py\<close>.  Nodes of the collaboration graph: the operations, their histories as a
    step relation on nodes, a merge only after an independent review, claims within dependencies and
    limits, cancellation of exactly a subtree, merges of files that are all or nothing unless the roll-back
    itself fails, bounded storage.
  \<^item> \<open>Dag\<close>, \<open>Dag_Lifecycle\<close>, \<open>Dag_Properties\<close>, \<open>Dag_Snapshot\<close>: \<open>temporal_backend/dag.py\<close>,
    \<open>dag_lifecycle.py\<close>, \<open>dag_contracts.py\<close>.  Graphs that Temporal drives: a node starts once, a stopped graph
    starts nothing, a merge or archive begins its input and output once, a snapshot keeps the wire contract and
    reports the state it leaves (ended nodes, ready nodes, concurrency).
  \<^item> \<open>Hooks\<close>, \<open>Permissions\<close>, \<open>Redaction\<close>: \<open>hooks.py\<close>, \<open>permissions.py\<close>, \<open>operations/redaction.py\<close>.
    Dispatch fails closed, a remote role never widens, redaction hides sensitive keys.

  \<^bold>\<open>Conventions.\<close>  A transaction reads the clock once.  A \<open>raise\<close> is a value of the sum type \<open>result\<close>; it
  rolls back unless the code committed before.  Fresh UUIDs, tokens and limits of the environment are
  arguments.  A JSON column keeps the value, with the options it was written with where its size counts.
  A table another component may not have installed yet is an option.  Times, costs, confidences and
  vectors are reals: rounding of floats is not modelled.  Code that is not the program's (croniter, the
  embedding service, the operating system, Unicode tables, regular expressions of the redactor) is an
  argument; nothing is assumed of it but what a theorem names.

  \<^bold>\<open>Bounds and fuel.\<close>  \<open>show_nat\<close>, \<open>py_words\<close>, \<open>strip_codes\<close> and the SHA-256 rounds recurse on a number or
  on fuel equal to the length of the text they consume, which is enough because every step consumes at
  least one byte; everything else is structural recursion.

  \<^bold>\<open>Not modelled.\<close>  Creation and migration of schemas; threads, HTTP and websocket servers, adapters of
  chat platforms and the Temporal SDK, which call these stores; prompts and parsers of model answers;
  file system, processes, Git and sandbox tools; metrics and evaluation; vendored skills, the web front end
  and the editor extension; the loops over these stores (the recovery pass of \<open>communication_worker.py\<close>, the
  approval gate and the schedules of the Temporal backend, the clean-up of workspaces), which compose several
  databases with a Temporal client, processes or directories; retention and erasure other than of an outbox
  owner, an episode, a communication session and what \<open>tasks.py\<close> calls.
\<close>

end
